(* ===== verification/Gw_Prelude.thy ===== *)
theory Gw_Prelude
  imports Main "HOL-Library.Word" "HOL-Library.List_Lexorder" "HOL-Library.Char_ord"
    "HOL-Library.AList"
begin

text \<open>
  Shared vocabulary of the development: the machine types of the gateway's
  Rust source, \<open>Result\<close> values, checked integer arithmetic, the ordered
  sets (\<open>BTreeSet\<close>) and hash maps its components keep, decimal printing
  as done by \<open>format!\<close>, and the two locales every stateful component
  instantiates: a machine whose operations keep an invariant, and one whose
  operations also never lower a level.
\<close>

section \<open>Collections of proof rules\<close>

named_theorems bset_simps \<open>membership and order facts of ordered sets\<close>
named_theorems inv_intros \<open>preservation of component invariants\<close>

section \<open>Machine types\<close>

type_synonym byte = "8 word"
type_synonym bytes = "byte list"

definition i32_MIN :: int where "i32_MIN = - 2147483648"
definition i32_MAX :: int where "i32_MAX = 2147483647"
definition i64_MIN :: int where "i64_MIN = - 9223372036854775808"
definition i64_MAX :: int where "i64_MAX = 9223372036854775807"

definition in_i32 :: "int \<Rightarrow> bool" where
  "in_i32 n \<longleftrightarrow> i32_MIN \<le> n \<and> n \<le> i32_MAX"

definition in_i64 :: "int \<Rightarrow> bool" where
  "in_i64 n \<longleftrightarrow> i64_MIN \<le> n \<and> n \<le> i64_MAX"

lemmas int_bounds = i32_MIN_def i32_MAX_def i64_MIN_def i64_MAX_def in_i32_def in_i64_def

definition checked_add_i64 :: "int \<Rightarrow> int \<Rightarrow> int option" where
  "checked_add_i64 a b = (if in_i64 (a + b) then Some (a + b) else None)"

definition checked_sub_i64 :: "int \<Rightarrow> int \<Rightarrow> int option" where
  "checked_sub_i64 a b = (if in_i64 (a - b) then Some (a - b) else None)"

section \<open>Results\<close>

text \<open>A Rust \<open>Result<'a, 'e>\<close> is the sum \<open>'e + 'a\<close>.\<close>

abbreviation Err :: "'e \<Rightarrow> 'e + 'a" where "Err \<equiv> Inl"
abbreviation Ok :: "'a \<Rightarrow> 'e + 'a" where "Ok \<equiv> Inr"

definition and_then :: "'e + 'a \<Rightarrow> ('a \<Rightarrow> 'e + 'b) \<Rightarrow> 'e + 'b" where
  "and_then r f = (case r of Err e \<Rightarrow> Err e | Ok a \<Rightarrow> f a)"

definition map_err :: "('e \<Rightarrow> 'f) \<Rightarrow> 'e + 'a \<Rightarrow> 'f + 'a" where
  "map_err f r = (case r of Err e \<Rightarrow> Err (f e) | Ok a \<Rightarrow> Ok a)"

definition is_ok :: "'e + 'a \<Rightarrow> bool" where
  "is_ok r = (case r of Err _ \<Rightarrow> False | Ok _ \<Rightarrow> True)"

lemma and_then_simps [simp]:
  "and_then (Err e) f = Err e" "and_then (Ok a) f = f a"
  by (simp_all add: and_then_def)

lemma and_then_Ok_iff:
  "and_then r f = Ok b \<longleftrightarrow> (\<exists>a. r = Ok a \<and> f a = Ok b)"
  by (cases r) simp_all

lemma map_err_simps [simp]:
  "map_err f (Err e) = Err (f e)" "map_err f (Ok a) = Ok a"
  by (simp_all add: map_err_def)

lemma map_err_Ok_iff [simp]: "map_err f r = Ok a \<longleftrightarrow> r = Ok a"
  by (cases r) simp_all

lemma is_ok_simps [simp]: "is_ok (Err e) = False" "is_ok (Ok a) = True"
  by (simp_all add: is_ok_def)

section \<open>Decimal printing\<close>

definition digit_char :: "nat \<Rightarrow> char" where
  "digit_char d = char_of (48 + d)"

fun show_nat :: "nat \<Rightarrow> string" where
  "show_nat n = (if n < 10 then [digit_char n]
                 else show_nat (n div 10) @ [digit_char (n mod 10)])"

declare show_nat.simps [simp del]

definition show_int :: "int \<Rightarrow> string" where
  "show_int n = (if n < 0 then CHR ''-'' # show_nat (nat (- n)) else show_nat (nat n))"

definition hex_digit :: "nat \<Rightarrow> char" where
  "hex_digit d = (if d < 10 then char_of (48 + d) else char_of (87 + d))"

text \<open>The format \<open>{:02x}\<close> of one byte.\<close>

definition show_hex2 :: "byte \<Rightarrow> string" where
  "show_hex2 b = [hex_digit (unat b div 16), hex_digit (unat b mod 16)]"

section \<open>Strings as bytes\<close>

definition as_bytes :: "string \<Rightarrow> bytes" where
  "as_bytes s = map of_char s"

definition of_bytes :: "bytes \<Rightarrow> string" where
  "of_bytes bs = map (\<lambda>b. char_of (unat b)) bs"

lemma of_bytes_as_bytes [simp]: "of_bytes (as_bytes s) = s"
proof -
  have "(char_of (unat (of_char c :: byte)) :: char) = c" for c :: char
  proof -
    have "unat (of_char c :: byte) = of_char c mod 2 ^ 8"
      by (metis of_char_of of_nat_of_char unat_of_nat len_bit0 len_num1 mult.right_neutral
          numeral_Bit0_eq_double semiring_norm(6))
    thus ?thesis by simp
  qed
  thus ?thesis by (simp add: of_bytes_def as_bytes_def comp_def)
qed

lemma as_bytes_inj: "as_bytes s = as_bytes t \<longleftrightarrow> s = t"
  by (metis of_bytes_as_bytes)

lemma length_as_bytes [simp]: "length (as_bytes s) = length s"
  by (simp add: as_bytes_def)

section \<open>Ordered sets\<close>

text \<open>
  A \<open>BTreeSet<i64>\<close> is its ascending duplicate-free list of elements, which
  is the order the source iterates it in: \<open>first\<close> is the head and
  \<open>pop_first\<close> the tail.
\<close>

type_synonym bset = "int list"

definition bset_ok :: "bset \<Rightarrow> bool" where
  "bset_ok xs \<longleftrightarrow> sorted_wrt (<) xs"

fun bset_insert :: "int \<Rightarrow> bset \<Rightarrow> bset" where
  "bset_insert x [] = [x]"
| "bset_insert x (y # ys) =
     (if x < y then x # y # ys else if x = y then y # ys else y # bset_insert x ys)"

fun bset_remove :: "int \<Rightarrow> bset \<Rightarrow> bset" where
  "bset_remove x [] = []"
| "bset_remove x (y # ys) = (if x = y then ys else y # bset_remove x ys)"

fun bset_first :: "bset \<Rightarrow> int option" where
  "bset_first [] = None"
| "bset_first (x # xs) = Some x"

lemma bset_ok_Nil [simp]: "bset_ok []"
  by (simp add: bset_ok_def)

lemma bset_ok_Cons [simp]: "bset_ok (x # xs) \<longleftrightarrow> (\<forall>y\<in>set xs. x < y) \<and> bset_ok xs"
  by (simp add: bset_ok_def)

lemma set_bset_insert [simp]: "set (bset_insert x xs) = insert x (set xs)"
  by (induction xs) auto

lemma bset_ok_insert [simp]: "bset_ok xs \<Longrightarrow> bset_ok (bset_insert x xs)"
  by (induction xs) auto

lemma set_bset_remove [simp]: "bset_ok xs \<Longrightarrow> set (bset_remove x xs) = set xs - {x}"
  by (induction xs) auto

lemma bset_ok_remove [simp]: "bset_ok xs \<Longrightarrow> bset_ok (bset_remove x xs)"
  by (induction xs) auto

lemma length_bset_insert:
  "bset_ok xs \<Longrightarrow> length (bset_insert x xs) = (if x \<in> set xs then length xs else Suc (length xs))"
  by (induction xs) auto

lemma bset_ok_distinct: "bset_ok xs \<Longrightarrow> distinct xs"
  by (induction xs) auto

lemma bset_eqI: "\<lbrakk>bset_ok xs; bset_ok ys; set xs = set ys\<rbrakk> \<Longrightarrow> xs = ys"
  unfolding bset_ok_def
  by (metis sorted_distinct_set_unique strict_sorted_iff)

lemma bset_first_Some [simp]: "bset_first xs = Some x \<longleftrightarrow> (\<exists>ys. xs = x # ys)"
  by (cases xs) auto

section \<open>Hash maps\<close>

text \<open>
  A \<open>HashMap\<close> or \<open>DashMap\<close> is an association list without duplicate keys, so
  that its length and its emptiness are computable. No statement depends on the
  order of the entries.
\<close>

type_synonym ('k, 'v) hashmap = "('k \<times> 'v) list"

abbreviation hm_get :: "('k, 'v) hashmap \<Rightarrow> 'k \<Rightarrow> 'v option" where
  "hm_get \<equiv> map_of"

abbreviation hm_insert :: "'k \<Rightarrow> 'v \<Rightarrow> ('k, 'v) hashmap \<Rightarrow> ('k, 'v) hashmap" where
  "hm_insert \<equiv> AList.update"

abbreviation hm_remove :: "'k \<Rightarrow> ('k, 'v) hashmap \<Rightarrow> ('k, 'v) hashmap" where
  "hm_remove \<equiv> AList.delete"

definition hm_retain :: "('k \<Rightarrow> 'v \<Rightarrow> bool) \<Rightarrow> ('k, 'v) hashmap \<Rightarrow> ('k, 'v) hashmap" where
  "hm_retain P m = filter (\<lambda>(k, v). P k v) m"

definition hm_ok :: "('k, 'v) hashmap \<Rightarrow> bool" where
  "hm_ok m \<longleftrightarrow> distinct (map fst m)"

text \<open>\<open>filter_map(|(k, v)| f(v).map(|w| (k, w))).collect()\<close>.\<close>

definition hm_filter_map :: "('v \<Rightarrow> 'w option) \<Rightarrow> ('k, 'v) hashmap \<Rightarrow> ('k, 'w) hashmap" where
  "hm_filter_map f m =
     List.map_filter (\<lambda>(k, v). case f v of None \<Rightarrow> None | Some w \<Rightarrow> Some (k, w)) m"

lemma hm_get_insert [simp]:
  "hm_get (hm_insert k v m) k' = (if k' = k then Some v else hm_get m k')"
  by (simp add: update_conv')

lemma hm_get_remove [simp]:
  "hm_get (hm_remove k m) k' = (if k' = k then None else hm_get m k')"
  by (simp add: delete_conv')

lemma hm_ok_Nil [simp]: "hm_ok []"
  by (simp add: hm_ok_def)

lemma hm_ok_insert [simp]: "hm_ok m \<Longrightarrow> hm_ok (hm_insert k v m)"
  by (simp add: hm_ok_def distinct_update)

lemma hm_ok_remove [simp]: "hm_ok m \<Longrightarrow> hm_ok (hm_remove k m)"
  by (simp add: hm_ok_def distinct_delete)

lemma hm_ok_retain [simp]: "hm_ok m \<Longrightarrow> hm_ok (hm_retain P m)"
  by (induction m) (auto simp: hm_ok_def hm_retain_def image_iff)

lemma hm_get_retain:
  "hm_ok m \<Longrightarrow> hm_get (hm_retain P m) k =
     (case hm_get m k of Some v \<Rightarrow> if P k v then Some v else None | None \<Rightarrow> None)"
  by (induction m) (auto simp: hm_ok_def hm_retain_def map_of_eq_None_iff image_iff split: option.splits)

lemma hm_get_filter_map:
  "hm_ok m \<Longrightarrow> hm_get (hm_filter_map f m) k = Option.bind (hm_get m k) f"
proof (induction m)
  case (Cons kv m)
  obtain k' v where kv: "kv = (k', v)" by fastforce
  have none: "hm_get m k' = None" using Cons.prems by (simp add: hm_ok_def kv map_of_eq_None_iff)
  show ?case using Cons none
    by (auto simp: hm_filter_map_def map_filter_simps kv hm_ok_def split: option.splits)
qed (simp add: hm_filter_map_def map_filter_simps)

lemma hm_ok_filter_map [simp]: "hm_ok m \<Longrightarrow> hm_ok (hm_filter_map f m)"
proof (induction m)
  case (Cons kv m)
  have "fst ` set (hm_filter_map f m) \<subseteq> fst ` set m"
    by (force simp: hm_filter_map_def List.map_filter_def split: option.splits)
  thus ?case using Cons
    by (cases kv) (auto simp: hm_filter_map_def map_filter_simps hm_ok_def split: option.splits)
qed (simp add: hm_filter_map_def map_filter_simps)

lemma hm_in_set: "hm_ok m \<Longrightarrow> (k, v) \<in> set m \<longleftrightarrow> hm_get m k = Some v"
  by (simp add: hm_ok_def)

section \<open>Machines\<close>

text \<open>
  The contract the operations of a stateful component share: every operation
  keeps the invariant. The extension adds a level that no operation lowers.
  The lemmas lift both to arbitrary sequences of operations.
\<close>

locale invariant_machine =
  fixes step :: "'e \<Rightarrow> 's \<Rightarrow> 's"
    and inv :: "'s \<Rightarrow> bool"
  assumes step_inv: "inv s \<Longrightarrow> inv (step e s)"
begin

lemma run_inv: "inv s \<Longrightarrow> inv (fold step es s)"
  by (induction es arbitrary: s) (auto intro: step_inv)

end

locale monotone_machine = invariant_machine step inv
  for step :: "'e \<Rightarrow> 's \<Rightarrow> 's" and inv :: "'s \<Rightarrow> bool" +
  fixes level :: "'s \<Rightarrow> 'o::preorder"
  assumes step_level: "inv s \<Longrightarrow> level s \<le> level (step e s)"
begin

lemma run_level: "inv s \<Longrightarrow> level s \<le> level (fold step es s)"
proof (induction es arbitrary: s)
  case (Cons e es)
  have "level s \<le> level (step e s)" using Cons.prems by (rule step_level)
  also have "\<dots> \<le> level (fold step es (step e s))"
    using Cons.IH[OF step_inv[OF Cons.prems]] .
  finally show ?case by simp
qed simp

end

text \<open>
  The contract of the keyed stores (claim map, schema cache, member table): a
  lookup after a write sees exactly that write.
\<close>

locale keyed_store =
  fixes get :: "'s \<Rightarrow> 'k \<Rightarrow> 'v option"
    and put :: "'k \<Rightarrow> 'v \<Rightarrow> 's \<Rightarrow> 's"
  assumes get_put: "get (put k v s) k' = (if k' = k then Some v else get s k')"
begin

lemma get_put_same: "get (put k v s) k = Some v"
  by (simp add: get_put)

lemma get_puts:
  "get (fold (\<lambda>(k, v). put k v) kvs s) k =
     (case map_of (rev kvs) k of Some v \<Rightarrow> Some v | None \<Rightarrow> get s k)"
proof (induction kvs arbitrary: s)
  case (Cons kv kvs)
  show ?case
    by (cases kv) (auto simp: Cons.IH get_put map_add_def split: option.splits)
qed simp

lemma get_puts_mono: "get s k \<noteq> None \<Longrightarrow> get (fold (\<lambda>(k, v). put k v) kvs s) k \<noteq> None"
  by (simp add: get_puts split: option.splits)

end

end
