(* ===== verification/Gw_Types.thy ===== *)
theory Gw_Types
  imports Gw_Prelude
begin

text \<open>
  The transport-independent data of the gateway: the codec vocabulary of
  \<open>codec.rs\<close>, the record types of \<open>types.rs\<close> and the error type of
  \<open>error.rs\<close>, with the identity codec.

  Errors of the client libraries are kept to what the gateway observes of them:
  their display text, and for the producer whether the error is
  \<open>ProducerError::RecoveryRequired\<close>, the one variant the source matches.
\<close>

section \<open>Codec vocabulary\<close>

datatype schema_format = Avro | Json | Protobuf

record schema_selector =
  sel_subject :: "string option"
  sel_id :: "int option"
  sel_format :: schema_format

record schema_meta =
  meta_subject :: string
  meta_id :: int
  meta_format :: schema_format

datatype encode_body = Raw bytes | Structured bytes schema_selector

record decoded =
  dec_value :: bytes
  dec_schema :: "schema_meta option"
  dec_json :: "bytes option"

datatype codec_error = Registry string | Serialize string | Validate string | Framing string

fun display_codec_error :: "codec_error \<Rightarrow> string" where
  "display_codec_error (Registry m) = ''schema registry error: '' @ m"
| "display_codec_error (Serialize m) = ''serialize error: '' @ m"
| "display_codec_error (Validate m) = ''validation error: '' @ m"
| "display_codec_error (Framing m) = ''framing error: '' @ m"

section \<open>The identity codec\<close>

fun raw_codec_encode :: "string \<Rightarrow> encode_body \<Rightarrow> codec_error + bytes" where
  "raw_codec_encode topic (Raw b) = Ok b"
| "raw_codec_encode topic (Structured json schema) = Ok json"

definition raw_codec_decode :: "string \<Rightarrow> bytes \<Rightarrow> codec_error + decoded" where
  "raw_codec_decode topic value = Ok \<lparr>dec_value = value, dec_schema = None, dec_json = None\<rparr>"

section \<open>Records\<close>

type_synonym header = "string \<times> bytes option"

record gateway_record =
  gr_topic :: string
  gr_key :: "bytes option"
  gr_value :: bytes
  gr_body_structured :: "(bytes \<times> schema_selector) option"
  gr_headers :: "header list"
  gr_partition :: "int option"
  gr_timestamp_ms :: "int option"
  gr_idempotency_key :: "string option"

definition encode_body_of :: "gateway_record \<Rightarrow> encode_body" where
  "encode_body_of r =
     (case gr_body_structured r of
        Some (json, schema) \<Rightarrow> Structured json schema
      | None \<Rightarrow> Raw (gr_value r))"

record record_outcome =
  out_partition :: int
  out_offset :: int
  out_deduplicated :: bool

section \<open>Errors\<close>

datatype producer_error = RecoveryRequired string | ProducerFailed string

fun display_producer_error :: "producer_error \<Rightarrow> string" where
  "display_producer_error (RecoveryRequired m) = m"
| "display_producer_error (ProducerFailed m) = m"

datatype gateway_error =
    Producer producer_error
  | Consumer string
  | Unavailable
  | Forward string
  | Claim string
  | Codec codec_error
  | Unauthorized string
  | TooManyUnacked string int int
  | Other string

fun display_gateway_error :: "gateway_error \<Rightarrow> string" where
  "display_gateway_error (Producer e) = ''producer error: '' @ display_producer_error e"
| "display_gateway_error (Consumer e) = ''consumer error: '' @ e"
| "display_gateway_error Unavailable =
     ''dedup partition not owned by this replica or still warming up''"
| "display_gateway_error (Forward m) = ''forward to owner failed: '' @ m"
| "display_gateway_error (Claim e) = ''dedup claim could not be (de)serialized: '' @ e"
| "display_gateway_error (Codec e) = ''codec error: '' @ display_codec_error e"
| "display_gateway_error (Unauthorized m) = ''not authorized: '' @ m"
| "display_gateway_error (TooManyUnacked t p n) =
     ''outstanding record tracking limit reached for '' @ t @ ''-'' @ show_int p
       @ '' at offset '' @ show_int n"
| "display_gateway_error (Other m) = m"

section \<open>The codec contract\<close>

text \<open>
  What the produce and consume paths rely on of a \<open>RecordCodec\<close>: on the bodies
  the codec accepts as wire-stable, decoding what it encoded gives back the
  payload. The identity codec meets it for every body.
\<close>

definition body_payload :: "encode_body \<Rightarrow> bytes" where
  "body_payload b = (case b of Raw v \<Rightarrow> v | Structured json _ \<Rightarrow> json)"

locale record_codec =
  fixes encode :: "string \<Rightarrow> encode_body \<Rightarrow> codec_error + bytes"
    and decode :: "string \<Rightarrow> bytes \<Rightarrow> codec_error + decoded"
    and stable :: "string \<Rightarrow> encode_body \<Rightarrow> bool"
    and payload :: "encode_body \<Rightarrow> bytes"
  assumes decode_encode:
    "\<lbrakk>stable t b; encode t b = Ok w\<rbrakk> \<Longrightarrow> \<exists>d. decode t w = Ok d \<and> dec_value d = payload b"
begin

lemma round_trip:
  "stable t b \<Longrightarrow>
     map_err id (and_then (encode t b) (\<lambda>w. and_then (decode t w) (\<lambda>d. Ok (dec_value d))))
       = and_then (encode t b) (\<lambda>_. Ok (payload b))"
proof (cases "encode t b")
  case (Inr w)
  assume "stable t b"
  then obtain d where "decode t w = Ok d" "dec_value d = payload b"
    using decode_encode Inr by blast
  thus ?thesis using Inr by simp
qed simp

end

interpretation raw_codec: record_codec raw_codec_encode raw_codec_decode "\<lambda>_ _. True" body_payload
proof (standard, goal_cases)
  case (1 t b w)
  thus ?case by (cases b) (simp_all add: raw_codec_decode_def body_payload_def)
qed

end
