(* ===== verification/Gw_Wire.thy ===== *)
theory Gw_Wire
  imports Gw_Types
begin

text \<open>
  Confluent binary framing, \<open>schema/wire.rs\<close>: the five byte header (magic byte
  and big-endian schema id), and the message-index prefix of Protobuf values
  with its unsigned LEB128 varints.
\<close>

unbundle bit_operations_syntax

section \<open>Big-endian schema ids\<close>

text \<open>\<open>BufMut::put_i32\<close> and \<open>i32::from_be_bytes\<close>.\<close>

definition put_i32 :: "int \<Rightarrow> bytes" where
  "put_i32 n = (let w = word_of_int n :: 32 word in
     [ucast (drop_bit 24 w), ucast (drop_bit 16 w), ucast (drop_bit 8 w), ucast w])"

definition i32_from_be_bytes :: "byte \<Rightarrow> byte \<Rightarrow> byte \<Rightarrow> byte \<Rightarrow> int" where
  "i32_from_be_bytes a b c d =
     sint (push_bit 24 (ucast a) OR push_bit 16 (ucast b) OR push_bit 8 (ucast c) OR ucast d :: 32 word)"

section \<open>Frames\<close>

definition encode_frame :: "int \<Rightarrow> schema_format \<Rightarrow> bytes \<Rightarrow> bytes" where
  "encode_frame n fmt payload =
     [0] @ put_i32 n @ (if fmt = Protobuf then [0] else []) @ payload"

definition frame_schema_id :: "bytes \<Rightarrow> codec_error + int" where
  "frame_schema_id bs =
     (if length bs < 5 then
        Err (Framing (''frame too short: '' @ show_nat (length bs) @ '' bytes (need at least 5)''))
      else if bs ! 0 \<noteq> 0 then
        Err (Framing (''bad magic byte: 0x'' @ show_hex2 (bs ! 0) @ '' (expected 0x00)''))
      else Ok (i32_from_be_bytes (bs ! 1) (bs ! 2) (bs ! 3) (bs ! 4)))"

definition decode_frame :: "bytes \<Rightarrow> codec_error + (int \<times> bytes)" where
  "decode_frame bs = and_then (frame_schema_id bs) (\<lambda>n. Ok (n, drop 5 bs))"

definition decode_frame_bytes :: "bytes \<Rightarrow> codec_error + (int \<times> bytes)" where
  "decode_frame_bytes bs = and_then (frame_schema_id bs) (\<lambda>n. Ok (n, drop 5 bs))"

section \<open>Message-index prefix\<close>

text \<open>
  The loop of \<open>read_varint\<close>, with \<open>result\<close>, \<open>shift\<close> and \<open>pos\<close> its loop
  variables. A shift of a \<open>u64\<close> by 63 drops the bits that fall off, as the
  machine does.
\<close>

function (sequential) read_varint_loop ::
    "bytes \<Rightarrow> 64 word \<Rightarrow> nat \<Rightarrow> nat \<Rightarrow> codec_error + (64 word \<times> nat)" where
  "read_varint_loop buf result shift pos =
     (if length buf \<le> pos then Err (Framing ''truncated varint in message-index prefix'')
      else let byte = buf ! pos;
               result' = result OR push_bit shift (ucast (byte AND 0x7f))
           in if byte AND 0x80 = 0 then Ok (result', pos + 1)
              else if 64 \<le> shift + 7 then Err (Framing ''varint overflow in message-index prefix'')
              else read_varint_loop buf result' (shift + 7) (pos + 1))"
  by pat_completeness auto
termination
  by (relation "measure (\<lambda>(buf, result, shift, pos). length buf - pos)") auto

declare read_varint_loop.simps [simp del]

definition read_varint :: "bytes \<Rightarrow> nat \<Rightarrow> codec_error + (64 word \<times> nat)" where
  "read_varint buf pos = read_varint_loop buf 0 0 pos"

text \<open>The loop \<open>for _ in 0..count\<close> of \<open>proto_payload_start\<close>.\<close>

fun skip_varints :: "nat \<Rightarrow> bytes \<Rightarrow> nat \<Rightarrow> codec_error + nat" where
  "skip_varints 0 payload pos = Ok pos"
| "skip_varints (Suc k) payload pos =
     and_then (read_varint payload pos) (\<lambda>(_, next). skip_varints k payload next)"

definition proto_payload_start :: "bytes \<Rightarrow> codec_error + nat" where
  "proto_payload_start payload =
     and_then (read_varint payload 0) (\<lambda>(count, pos).
       if count = 0 then Ok pos else skip_varints (unat count) payload pos)"

definition strip_proto_index :: "bytes \<Rightarrow> codec_error + bytes" where
  "strip_proto_index payload =
     and_then (proto_payload_start payload) (\<lambda>start. Ok (drop start payload))"

definition strip_proto_index_bytes :: "bytes \<Rightarrow> codec_error + bytes" where
  "strip_proto_index_bytes payload =
     and_then (proto_payload_start payload) (\<lambda>start. Ok (drop start payload))"

definition prepend_proto_index :: "bytes \<Rightarrow> bytes" where
  "prepend_proto_index payload = 0 # payload"

section \<open>Reference encoding of varints\<close>

text \<open>
  The LEB128 encoding as its definition states it: seven bits per byte, least
  significant group first, the high bit set on every byte but the last.
\<close>

fun leb128 :: "nat \<Rightarrow> bytes" where
  "leb128 n = (if n < 128 then [of_nat n] else of_nat (n mod 128 + 128) # leb128 (n div 128))"

declare leb128.simps [simp del]

section \<open>Facts about bytes and bits\<close>

lemma byte_bit_less: "bit (b :: byte) n \<Longrightarrow> n < 8"
  using bit_imp_le_length[of b n] by simp

lemma be_word:
  "push_bit 24 (ucast (ucast (drop_bit 24 w) :: byte)) OR push_bit 16 (ucast (ucast (drop_bit 16 w) :: byte))
     OR push_bit 8 (ucast (ucast (drop_bit 8 w) :: byte)) OR ucast (ucast w :: byte) = (w :: 32 word)"
proof (rule bit_word_eqI, goal_cases)
  case (1 n)
  consider "n < 8" | "8 \<le> n" "n < 16" | "16 \<le> n" "n < 24" | "24 \<le> n" by linarith
  thus ?case using 1 by cases (auto simp: bit_simps)
qed

lemma i32_be_round_trip:
  "in_i32 n \<Longrightarrow> put_i32 n = [a, b, c, d] \<Longrightarrow> i32_from_be_bytes a b c d = n"
  unfolding put_i32_def i32_from_be_bytes_def Let_def
  by (auto simp: be_word[simplified] int_bounds signed_of_int signed_take_bit_int_eq_self)

lemma put_i32_from_be: "put_i32 (i32_from_be_bytes a b c d) = [a, b, c, d]"
  unfolding put_i32_def i32_from_be_bytes_def Let_def of_int_sint list.inject
  by (intro conjI; (rule bit_word_eqI, force simp: bit_simps dest: byte_bit_less)?) simp

lemma i32_from_be_in_i32: "in_i32 (i32_from_be_bytes a b c d)"
proof -
  define w :: "32 word" where
    "w = push_bit 24 (ucast a) OR push_bit 16 (ucast b) OR push_bit 8 (ucast c) OR ucast d"
  show ?thesis
    using sint_ge[of w] sint_lt[of w]
    by (simp add: i32_from_be_bytes_def int_bounds flip: w_def)
qed

lemma length_put_i32 [simp]: "length (put_i32 n) = 4"
  by (simp add: put_i32_def Let_def)

lemma put_i32_nths: "\<exists>a b c d. put_i32 n = [a, b, c, d]"
  by (simp add: put_i32_def Let_def)

lemma leb128_bytes:
  assumes "n < 128"
  shows "(of_nat n :: byte) AND 0x80 = 0"
    and "ucast ((of_nat n :: byte) AND 0x7f) = (of_nat n :: 64 word)"
    and "(of_nat (n + 128) :: byte) AND 0x80 \<noteq> 0"
    and "ucast ((of_nat (n + 128) :: byte) AND 0x7f) = (of_nat n :: 64 word)"
proof -
  have "\<forall>n\<in>{0..<128}. (of_nat n :: byte) AND 0x80 = 0
      \<and> ucast ((of_nat n :: byte) AND 0x7f) = (of_nat n :: 64 word)
      \<and> (of_nat (n + 128) :: byte) AND 0x80 \<noteq> 0
      \<and> ucast ((of_nat (n + 128) :: byte) AND 0x7f) = (of_nat n :: 64 word)"
    by code_simp
  moreover have "n \<in> {0..<128}" using assms by simp
  ultimately show "(of_nat n :: byte) AND 0x80 = 0"
    and "ucast ((of_nat n :: byte) AND 0x7f) = (of_nat n :: 64 word)"
    and "(of_nat (n + 128) :: byte) AND 0x80 \<noteq> 0"
    and "ucast ((of_nat (n + 128) :: byte) AND 0x7f) = (of_nat n :: 64 word)"
    by blast+
qed

lemma word_split7:
  "n < 2 ^ 64 \<Longrightarrow> (of_nat (n mod 128) :: 64 word) OR push_bit 7 (of_nat (n div 128)) = of_nat n"
proof -
  have 1: "n mod 128 = take_bit 7 n" and 2: "n div 128 = drop_bit 7 n"
    by (simp_all add: take_bit_eq_mod drop_bit_eq_div)
  show "n < 2 ^ 64 \<Longrightarrow> ?thesis" unfolding 1 2
    by (intro bit_word_eqI) (auto simp: bit_simps)
qed

section \<open>Varints\<close>

lemma read_varint_loop_leb128:
  assumes "n * 2 ^ shift < 2 ^ 64"
  shows "read_varint_loop (pre @ leb128 n @ rest) result shift (length pre) =
           Ok (result OR push_bit shift (of_nat n), length pre + length (leb128 n))"
  using assms
proof (induction n arbitrary: pre result shift rule: less_induct)
  case (less n)
  show ?case
  proof (cases "n < 128")
    case True
    thus ?thesis
      by (simp add: leb128.simps[of n] read_varint_loop.simps[of _ _ shift] nth_append
          leb128_bytes(1,2) del: of_nat_numeral)
  next
    case False
    have small: "n mod 128 < 128" by simp
    have "128 * 2 ^ shift < (2::nat) ^ 64"
      using False less.prems by (meson le_less_trans mult_le_mono1 not_less)
    hence "(2::nat) ^ (shift + 7) < 2 ^ 64" by (simp add: power_add)
    hence shift: "shift + 7 < 64" by (simp only: power_strict_increasing_iff)
    have prems: "n div 128 * 2 ^ (shift + 7) < 2 ^ 64"
    proof -
      have "n div 128 * 2 ^ (shift + 7) = (n div 128 * 128) * 2 ^ shift" by (simp add: power_add)
      also have "\<dots> \<le> n * 2 ^ shift" by (simp add: div_times_less_eq_dividend)
      finally show ?thesis using less.prems by linarith
    qed
    let ?b = "of_nat (n mod 128 + 128) :: byte"
    let ?r = "result OR push_bit shift (of_nat (n mod 128))"
    have buf: "pre @ leb128 n @ rest = (pre @ [?b]) @ leb128 (n div 128) @ rest"
      using False by (simp add: leb128.simps[of n])
    have "read_varint_loop (pre @ leb128 n @ rest) result shift (length pre)
        = read_varint_loop ((pre @ [?b]) @ leb128 (n div 128) @ rest) ?r (shift + 7) (length (pre @ [?b]))"
      unfolding buf
      by (subst read_varint_loop.simps)
        (use shift leb128_bytes(3,4)[OF small] in \<open>simp add: nth_append Let_def\<close>)
    also have "\<dots> = Ok (?r OR push_bit (shift + 7) (of_nat (n div 128)),
        length (pre @ [?b]) + length (leb128 (n div 128)))"
      using False prems by (intro less.IH) auto
    also have "?r OR push_bit (shift + 7) (of_nat (n div 128)) = result OR push_bit shift (of_nat n)"
    proof -
      have "n < 2 ^ 64" using less.prems
        by (metis le_less_trans mult.right_neutral mult_le_mono2 one_le_numeral one_le_power)
      from word_split7[OF this, symmetric] show ?thesis
        by (simp add: push_bit_or or.assoc)
    qed
    finally show ?thesis using False by (simp add: leb128.simps[of n])
  qed
qed

lemma read_varint_leb128:
  "n < 2 ^ 64 \<Longrightarrow>
     read_varint (pre @ leb128 n @ rest) (length pre) = Ok (of_nat n, length (pre @ leb128 n))"
  by (simp add: read_varint_def read_varint_loop_leb128)

lemma skip_varints_leb128:
  "\<forall>n\<in>set ns. n < 2 ^ 64 \<Longrightarrow>
     skip_varints (length ns) (pre @ concat (map leb128 ns) @ rest) (length pre)
       = Ok (length (pre @ concat (map leb128 ns)))"
proof (induction ns arbitrary: pre)
  case (Cons n ns)
  have "read_varint (pre @ concat (map leb128 (n # ns)) @ rest) (length pre)
      = Ok (of_nat n, length (pre @ leb128 n))"
    using read_varint_leb128[of n pre "concat (map leb128 ns) @ rest"] Cons.prems by simp
  with Cons.IH[of "pre @ leb128 n"] Cons.prems show ?case by simp
qed simp

lemma read_varint_loop_bounds:
  "read_varint_loop buf result shift pos = Ok (v, pos') \<Longrightarrow> shift < 64 \<Longrightarrow>
     pos < pos' \<and> pos' \<le> length buf \<and> 7 * (pos' - pos) + shift \<le> 70"
proof (induction buf result shift pos rule: read_varint_loop.induct)
  case (1 buf result shift pos)
  have bound: "pos < length buf"
    using 1(2) by (subst (asm) read_varint_loop.simps) (simp split: if_splits)
  show ?case
  proof (cases "buf ! pos AND 0x80 = 0")
    case True
    thus ?thesis using 1(2,3) bound
      by (subst (asm) read_varint_loop.simps) (auto simp: Let_def)
  next
    case False
    hence sh: "shift + 7 < 64"
      using 1(2) bound by (subst (asm) read_varint_loop.simps) (simp add: Let_def split: if_splits)
    have "read_varint_loop buf (result OR push_bit shift (ucast (buf ! pos AND 0x7f))) (shift + 7) (pos + 1)
        = Ok (v, pos')"
      using 1(2) bound sh False by (subst (asm) read_varint_loop.simps) (simp add: Let_def)
    from 1(1)[OF _ refl refl False _ this] bound sh show ?thesis by auto
  qed
qed

lemma read_varint_bounds:
  "read_varint buf pos = Ok (v, pos') \<Longrightarrow> pos < pos' \<and> pos' \<le> length buf \<and> pos' \<le> pos + 10"
  unfolding read_varint_def by (drule read_varint_loop_bounds) auto

lemma skip_varints_bounds:
  "skip_varints k buf pos = Ok e \<Longrightarrow> pos \<le> length buf \<Longrightarrow> pos + k \<le> e \<and> e \<le> length buf"
proof (induction k arbitrary: pos)
  case (Suc k)
  then obtain v p where p: "read_varint buf pos = Ok (v, p)" "skip_varints k buf p = Ok e"
    by (auto simp: and_then_Ok_iff)
  show ?case using Suc.IH[OF p(2)] read_varint_bounds[OF p(1)] by auto
qed simp

lemma frame_decodes:
  assumes "in_i32 n"
  shows "decode_frame (encode_frame n fmt payload) = Ok (n, (if fmt = Protobuf then [0] else []) @ payload)"
proof -
  obtain a b c d where p: "put_i32 n = [a, b, c, d]" using put_i32_nths by blast
  show ?thesis using i32_be_round_trip[OF assms p]
    by (simp add: decode_frame_def frame_schema_id_def encode_frame_def p nth_append)
qed

lemma strip_zero_index: "strip_proto_index (0 # payload) = Ok payload"
  using read_varint_leb128[of 0 "[]" payload]
  by (simp add: strip_proto_index_def proto_payload_start_def leb128.simps[of 0])

lemma frame_bytes_decode:
  assumes "in_i32 n"
  shows "decode_frame_bytes (encode_frame n fmt payload) = Ok (n, (if fmt = Protobuf then [0] else []) @ payload)"
    and "strip_proto_index_bytes (0 # payload) = Ok payload"
    and "encode_frame n fmt payload \<noteq> []" "hd (encode_frame n fmt payload) = 0"
  using frame_decodes[OF assms, of fmt payload] strip_zero_index[of payload]
  by (simp_all add: decode_frame_def decode_frame_bytes_def strip_proto_index_def
      strip_proto_index_bytes_def encode_frame_def)

section \<open>Properties\<close>

text \<open>
  Frames round-trip for every schema format and every id that is an \<open>i32\<close>:
  decoding gives the id back, and stripping the message-index prefix of a
  Protobuf value gives the payload back.
\<close>

theorem frame_round_trip:
  assumes "in_i32 n"
  shows "and_then (decode_frame (encode_frame n fmt payload)) (\<lambda>(n', rest).
           and_then (if fmt = Protobuf then strip_proto_index rest else Ok rest)
             (\<lambda>p. Ok (n', p)))
         = Ok (n, payload)"
  using frame_decodes[OF assms, of fmt payload] strip_zero_index[of payload] by simp

theorem frame_round_trip_witness:
  "and_then (decode_frame (encode_frame (- 7) Protobuf [1, 2, 3])) (\<lambda>(n', rest).
           and_then (if Protobuf = Protobuf then strip_proto_index rest else Ok rest)
             (\<lambda>p. Ok (n', p)))
         = Ok (- 7, [1, 2, 3])"
  by (rule frame_round_trip) (simp add: int_bounds)

text \<open>
  A frame is accepted exactly when it is the header of some \<open>i32\<close> id followed
  by the remainder the decoder returns: the decoder loses nothing and invents
  nothing, and the shared-ownership decoder agrees with the copying one.
\<close>

theorem decode_frame_exact:
  "(decode_frame bs = Ok (n, rest) \<longleftrightarrow> in_i32 n \<and> bs = 0 # put_i32 n @ rest)
     \<and> decode_frame_bytes bs = decode_frame bs"
proof (rule conjI)
  show "decode_frame_bytes bs = decode_frame bs"
    by (simp add: decode_frame_def decode_frame_bytes_def)
  show "decode_frame bs = Ok (n, rest) \<longleftrightarrow> in_i32 n \<and> bs = 0 # put_i32 n @ rest"
  proof
    assume ok: "decode_frame bs = Ok (n, rest)"
    hence len: "5 \<le> length bs"
      by (auto simp: decode_frame_def frame_schema_id_def split: if_splits)
    then obtain m a b c d r where bs: "bs = m # a # b # c # d # r"
      by (auto simp: numeral_eq_Suc Suc_le_length_iff)
    with ok have "m = 0" "n = i32_from_be_bytes a b c d" "rest = r"
      by (auto simp: decode_frame_def frame_schema_id_def split: if_splits)
    thus "in_i32 n \<and> bs = 0 # put_i32 n @ rest"
      by (simp add: bs i32_from_be_in_i32 put_i32_from_be)
  next
    assume r: "in_i32 n \<and> bs = 0 # put_i32 n @ rest"
    obtain a b c d where p: "put_i32 n = [a, b, c, d]" using put_i32_nths by blast
    show "decode_frame bs = Ok (n, rest)"
      using r i32_be_round_trip[OF _ p] by (auto simp: decode_frame_def frame_schema_id_def p)
  qed
qed

text \<open>
  For every list of message indexes whose values and length fit a \<open>u64\<close>,
  the varint reader skips exactly the LEB128 encoded prefix (count, then the
  indexes) and returns the Protobuf payload.
\<close>

theorem strip_proto_index_leb128:
  assumes "length ns < 2 ^ 64" "\<forall>n\<in>set ns. n < 2 ^ 64"
  shows "strip_proto_index (leb128 (length ns) @ concat (map leb128 ns) @ payload) = Ok payload"
proof -
  let ?buf = "leb128 (length ns) @ concat (map leb128 ns) @ payload"
  have "read_varint ?buf 0 = Ok (of_nat (length ns), length (leb128 (length ns)))"
    using read_varint_leb128[OF assms(1), of "[]"] by simp
  moreover have "unat (of_nat (length ns) :: 64 word) = length ns"
    by (subst unat_of_nat, rule mod_less) (use assms(1) in simp)
  moreover have "(of_nat (length ns) :: 64 word) = 0 \<longleftrightarrow> ns = []"
    using calculation(2) by (auto simp: unat_eq_zero)
  ultimately show ?thesis
    using skip_varints_leb128[OF assms(2), of "leb128 (length ns)" payload]
    by (auto simp: strip_proto_index_def proto_payload_start_def)
qed

theorem strip_proto_index_leb128_witness:
  "strip_proto_index (leb128 (length [3 :: nat, 300]) @ concat (map leb128 [3, 300]) @ [9, 9]) = Ok [9, 9]"
  by (rule strip_proto_index_leb128) simp_all

text \<open>
  The prefix reader never reads outside the value and never skips bytes that
  are not there: the payload it returns is a proper suffix of the input, and
  each announced index consumes at least one byte, so a hostile count ends in
  an error after at most as many reads as there are bytes.
\<close>

theorem strip_proto_index_bounds:
  assumes "read_varint payload 0 = Ok (count, pos)" "strip_proto_index payload = Ok body"
  shows "\<exists>pre. payload = pre @ body \<and> unat count < length pre"
proof -
  obtain start where s: "proto_payload_start payload = Ok start" "body = drop start payload"
    using assms(2) by (auto simp: strip_proto_index_def and_then_Ok_iff)
  have pos: "0 < pos" "pos \<le> length payload" using read_varint_bounds[OF assms(1)] by auto
  have "pos + unat count \<le> start \<and> start \<le> length payload"
    using s(1) assms(1) pos skip_varints_bounds[of "unat count" payload pos start]
    by (auto simp: proto_payload_start_def split: if_splits)
  thus ?thesis using s(2) pos
    by (intro exI[of _ "take start payload"]) auto
qed

theorem strip_proto_index_bounds_witness:
  "\<exists>pre. [2, 3, 5, 77] = pre @ [77 :: byte] \<and> unat (2 :: 64 word) < length pre"
proof (rule strip_proto_index_bounds[of "[2, 3, 5, 77]" 2 1])
  have r: "read_varint [2, 3, 5, 77] 0 = Ok (2, 1)" "read_varint [2, 3, 5, 77] 1 = Ok (3, 2)"
    "read_varint [2, 3, 5, 77] 2 = Ok (5, 3)"
    by (simp_all add: read_varint_def read_varint_loop.simps)
  show "read_varint [2, 3, 5, 77] 0 = Ok (2, 1)" by (rule r)
  have "skip_varints 2 [2, 3, 5, 77] 1 = Ok 3"
    by (simp only: numeral_2_eq_2 skip_varints.simps r[unfolded numeral_2_eq_2] and_then_simps prod.case)
  thus "strip_proto_index [2, 3, 5, 77] = Ok [77]"
    by (simp add: strip_proto_index_def proto_payload_start_def r)
qed

end
