(* ===== verification/Gw_Proto.thy ===== *)
theory Gw_Proto
  imports Gw_Types
begin

text \<open>
  The messages of \<open>gateway.proto\<close> the handlers exchange, Connect errors by
  code and message, and the conversions of \<open>handlers.rs\<close> and \<open>streaming.rs\<close>
  between them and the transport-independent records. Enumerations arrive as
  their wire integers, as the generated code delivers them.
\<close>

section \<open>Messages\<close>

record pb_schema_selector =
  pb_subject :: string
  pb_id :: int
  pb_format :: int

datatype pb_body = BodyRaw bytes | BodyStructured bytes

record pb_record =
  pr_topic :: string
  pr_key :: "bytes option"
  pr_body :: "pb_body option"
  pr_headers :: "header list"
  pr_partition :: "int option"
  pr_timestamp_ms :: "int option"
  pr_idempotency_key :: "string option"
  pr_schema :: "pb_schema_selector option"

record error_info =
  ei_code :: int
  ei_message :: string
  ei_retriable :: bool

record record_result =
  rr_partition :: int
  rr_offset :: int
  rr_deduplicated :: bool
  rr_error :: "error_info option"

record inbound =
  in_topic :: string
  in_partition :: int
  in_offset :: int
  in_key :: "bytes option"
  in_value :: bytes
  in_headers :: "header list"
  in_timestamp_ms :: int
  in_structured :: "bytes option"
  in_schema :: "pb_schema_selector option"

record subscribe_start =
  ss_group_id :: string
  ss_topics :: "string list"
  ss_auto_commit :: bool
  ss_filter :: string

datatype subscribe_frame = FrameStart subscribe_start | FrameAck string int int | FrameEmpty

datatype connect_code =
  InvalidArgument | NotFound | PermissionDenied | ResourceExhausted | FailedPrecondition
  | Internal | UnavailableCode | Aborted | Unimplemented | TransportError

record connect_error =
  ce_code :: connect_code
  ce_message :: string

definition mk_error :: "connect_code \<Rightarrow> string \<Rightarrow> connect_error" where
  "mk_error c m = \<lparr>ce_code = c, ce_message = m\<rparr>"

section \<open>Conversions\<close>

datatype acks = AcksAll | AcksOne | AcksZero

definition producer_acks_from_pb :: "int \<Rightarrow> acks option" where
  "producer_acks_from_pb n =
     (if n = 0 then Some AcksAll else if n = 1 then Some AcksOne
      else if n = 2 then Some AcksZero else None)"

definition schema_format_from_pb :: "int \<Rightarrow> schema_format" where
  "schema_format_from_pb n = (if n = 2 then Json else if n = 3 then Protobuf else Avro)"

definition schema_selector_from_pb :: "pb_schema_selector \<Rightarrow> schema_selector" where
  "schema_selector_from_pb s =
     \<lparr>sel_subject = (if pb_subject s \<noteq> [] then Some (pb_subject s) else None),
      sel_id = (if pb_id s \<noteq> 0 then Some (pb_id s) else None),
      sel_format = schema_format_from_pb (pb_format s)\<rparr>"

definition to_gateway_record :: "pb_record \<Rightarrow> gateway_record" where
  "to_gateway_record r =
     (let selector = map_option schema_selector_from_pb (pr_schema r);
          (v, structured) =
            (case pr_body r of
               Some (BodyStructured json) \<Rightarrow>
                 ([], Some (json, (case selector of
                     Some s \<Rightarrow> s
                   | None \<Rightarrow> \<lparr>sel_subject = None, sel_id = None, sel_format = Avro\<rparr>)))
             | Some (BodyRaw raw) \<Rightarrow> (raw, None)
             | None \<Rightarrow> ([], None))
      in \<lparr>gr_topic = pr_topic r, gr_key = pr_key r, gr_value = v, gr_body_structured = structured,
          gr_headers = pr_headers r, gr_partition = pr_partition r,
          gr_timestamp_ms = pr_timestamp_ms r, gr_idempotency_key = pr_idempotency_key r\<rparr>)"

fun error_code :: "gateway_error \<Rightarrow> int" where
  "error_code Unavailable = 14"
| "error_code (Codec (Registry _)) = 14"
| "error_code (Unauthorized _) = 7"
| "error_code (Codec _) = 3"
| "error_code _ = 1"

fun error_retriable :: "gateway_error \<Rightarrow> bool" where
  "error_retriable Unavailable = True"
| "error_retriable (Codec (Registry _)) = True"
| "error_retriable _ = False"

definition error_result :: "gateway_error \<Rightarrow> record_result" where
  "error_result e =
     \<lparr>rr_partition = - 1, rr_offset = - 1, rr_deduplicated = False,
      rr_error = Some \<lparr>ei_code = error_code e, ei_message = display_gateway_error e,
                       ei_retriable = error_retriable e\<rparr>\<rparr>"

definition ok_result :: "record_outcome \<Rightarrow> record_result" where
  "ok_result r =
     \<lparr>rr_partition = out_partition r, rr_offset = out_offset r,
      rr_deduplicated = out_deduplicated r, rr_error = None\<rparr>"

definition schema_meta_to_pb :: "schema_meta \<Rightarrow> pb_schema_selector" where
  "schema_meta_to_pb m =
     \<lparr>pb_subject = meta_subject m, pb_id = meta_id m,
      pb_format = (case meta_format m of Avro \<Rightarrow> 1 | Json \<Rightarrow> 2 | Protobuf \<Rightarrow> 3)\<rparr>"

section \<open>Facts\<close>

text \<open>
  The schema a subscriber is shown selects the same schema when it is sent
  back with a record: format, id and subject survive the wire, as long as the
  subject is not empty and the id is not zero, the two values the wire reads as
  absent.
\<close>

theorem schema_meta_round_trip:
  assumes "meta_subject m \<noteq> []" "meta_id m \<noteq> 0"
  shows "schema_selector_from_pb (schema_meta_to_pb m) =
           \<lparr>sel_subject = Some (meta_subject m), sel_id = Some (meta_id m), sel_format = meta_format m\<rparr>"
  using assms
  by (cases "meta_format m")
     (simp_all add: schema_selector_from_pb_def schema_meta_to_pb_def schema_format_from_pb_def)

theorem schema_meta_round_trip_witness:
  "schema_selector_from_pb (schema_meta_to_pb \<lparr>meta_subject = ''orders-value'', meta_id = 9, meta_format = Protobuf\<rparr>)
     = \<lparr>sel_subject = Some ''orders-value'', sel_id = Some 9, sel_format = Protobuf\<rparr>"
  using schema_meta_round_trip[of "\<lparr>meta_subject = ''orders-value'', meta_id = 9, meta_format = Protobuf\<rparr>"]
  by simp

text \<open>
  The error classes a client sees: an error is marked retriable exactly when
  its code is UNAVAILABLE, and that happens exactly for an unowned or warming
  partition and for a schema registry that cannot be reached.
\<close>

theorem error_result_retriable:
  "error_retriable e = (error_code e = 14)
   \<and> (error_retriable e \<longleftrightarrow> e = Unavailable \<or> (\<exists>m. e = Codec (Registry m)))
   \<and> (error_code e = 7 \<longleftrightarrow> (\<exists>m. e = Unauthorized m))"
  by (cases e rule: error_code.cases) auto

end
