(* ===== verification/Gw_Authz.thy ===== *)
theory Gw_Authz
  imports Gw_Types
begin

text \<open>
  Identity and authorization, \<open>authz/mod.rs\<close>, \<open>authz/auth_layer.rs\<close> and the
  gate of \<open>handlers.rs\<close>: principals and their resolution from a bearer token,
  the ACL snapshot and its refresh, and the decision for one resource. The
  authorizer and the token validator are parameters.
\<close>

section \<open>Principals\<close>

datatype auth_method =
  Anonymous | SaslPlain | SaslScramSha256 | SaslScramSha512 | SaslOAuthBearer | SaslGssapi | MTls

record principal =
  p_name :: string
  p_auth_method :: auth_method
  p_groups :: "string list"

definition anonymous :: principal where
  "anonymous = \<lparr>p_name = ''ANONYMOUS'', p_auth_method = Anonymous, p_groups = []\<rparr>"

definition anonymous_principal :: principal where
  "anonymous_principal = \<lparr>p_name = ''ANONYMOUS'', p_auth_method = Anonymous, p_groups = []\<rparr>"

definition unknown_host :: string where
  "unknown_host = ''0.0.0.0:0''"

definition peer_or_default :: "string option \<Rightarrow> string" where
  "peer_or_default peer = (case peer of Some a \<Rightarrow> a | None \<Rightarrow> ''0.0.0.0:0'')"

section \<open>Bearer tokens\<close>

text \<open>
  A header map lists its (lower-case) names with the bytes of their values;
  \<open>get\<close> returns the first value. \<open>HeaderValue::to_str\<close> accepts visible ASCII
  and the tab.
\<close>

type_synonym header_map = "(string \<times> bytes) list"

definition header_get :: "header_map \<Rightarrow> string \<Rightarrow> bytes option" where
  "header_get hs name = map_of hs name"

definition to_str :: "bytes \<Rightarrow> string option" where
  "to_str bs = (if list_all (\<lambda>b. (32 \<le> b \<and> b < 127) \<or> b = 9) bs then Some (of_bytes bs) else None)"

definition strip_prefix :: "string \<Rightarrow> string \<Rightarrow> string option" where
  "strip_prefix pre s = (if take (length pre) s = pre then Some (drop (length pre) s) else None)"

definition bearer_token :: "header_map \<Rightarrow> string option" where
  "bearer_token hs =
     Option.bind (header_get hs ''authorization'') (\<lambda>v.
     Option.bind (to_str v) (\<lambda>s.
     Option.bind (strip_prefix ''Bearer '' s) (\<lambda>token.
       if token = [] then None else Some token)))"

text \<open>\<open>since_epoch_ms\<close> is None when the clock is before the epoch.\<close>

definition now_ms :: "nat option \<Rightarrow> int" where
  "now_ms since_epoch_ms =
     (case since_epoch_ms of
        None \<Rightarrow> 0
      | Some ms \<Rightarrow> if int ms \<le> i64_MAX then int ms else i64_MAX)"

text \<open>
  The request's extensions are the principal of the connection, if any. The
  validator is a parameter; the result is the principal the handlers see.
\<close>

definition resolve_principal ::
    "(string \<Rightarrow> int \<Rightarrow> string + principal) option \<Rightarrow> int \<Rightarrow> header_map \<Rightarrow> principal option \<Rightarrow> principal option" where
  "resolve_principal validator now hs connection =
     (case (validator, bearer_token hs) of
        (Some validate, Some token) \<Rightarrow>
          (case validate token now of Ok p \<Rightarrow> Some p | Err _ \<Rightarrow> connection)
      | _ \<Rightarrow> connection)"

section \<open>ACL entries\<close>

datatype resource_type = Topic | Group | Cluster | TransactionalId | DelegationToken | User

datatype admin_pattern_type = AdminLiteral | AdminPrefixed | AdminMatch
datatype pattern_type = Literal | Prefixed

datatype acl_operation =
  OpAll | Read | Write | Create | Delete | Alter | Describe | ClusterAction | DescribeConfigs
  | AlterConfigs | IdempotentWrite | TwoPhaseCommit | CreateTokens | DescribeTokens

datatype permission_type = PermAllow | PermDeny

record admin_acl_entry =
  ad_resource_type :: resource_type
  ad_resource_name :: string
  ad_pattern_type :: admin_pattern_type
  ad_principal :: string
  ad_host :: string
  ad_operation :: acl_operation
  ad_permission_type :: permission_type

record acl_entry =
  ac_resource_type :: resource_type
  ac_resource_name :: string
  ac_pattern_type :: pattern_type
  ac_principal :: string
  ac_host :: string
  ac_operation :: acl_operation
  ac_permission_type :: permission_type

definition acl_entry_from_admin :: "admin_acl_entry \<Rightarrow> gateway_error + acl_entry" where
  "acl_entry_from_admin e =
     and_then
       (case ad_pattern_type e of
          AdminLiteral \<Rightarrow> Ok Literal
        | AdminPrefixed \<Rightarrow> Ok Prefixed
        | AdminMatch \<Rightarrow> Err (Other ''DescribeAcls returned a filter-only Match pattern''))
       (\<lambda>pattern.
          Ok \<lparr>ac_resource_type = ad_resource_type e, ac_resource_name = ad_resource_name e,
              ac_pattern_type = pattern, ac_principal = ad_principal e, ac_host = ad_host e,
              ac_operation = ad_operation e, ac_permission_type = ad_permission_type e\<rparr>)"

fun collect_acls :: "admin_acl_entry list \<Rightarrow> gateway_error + acl_entry list" where
  "collect_acls [] = Ok []"
| "collect_acls (e # es) =
     and_then (acl_entry_from_admin e) (\<lambda>a. and_then (collect_acls es) (\<lambda>as. Ok (a # as)))"

text \<open>\<open>connected\<close> and \<open>described\<close> are the admin client's answers.\<close>

definition fetch_acls :: "string + unit \<Rightarrow> string + admin_acl_entry list \<Rightarrow> gateway_error + acl_entry list" where
  "fetch_acls connected described =
     and_then (map_err (\<lambda>e. Other (''acl admin connect: '' @ e)) connected) (\<lambda>_.
     and_then (map_err (\<lambda>e. Other (''describe_acls: '' @ e)) described) collect_acls)"

section \<open>Decisions\<close>

datatype authorization_result = Allow | Deny

record authorization_request =
  az_principal :: principal
  az_host :: string
  az_resource_type :: resource_type
  az_resource_name :: string
  az_operation :: acl_operation

record gateway_authz =
  ga_authorizer :: "acl_entry list \<Rightarrow> authorization_request \<Rightarrow> authorization_result"
  ga_cache :: "acl_entry list"

text \<open>One round of the refresh loop: a failed fetch keeps the previous snapshot.\<close>

definition acl_refresh :: "gateway_error + acl_entry list \<Rightarrow> gateway_authz \<Rightarrow> gateway_authz" where
  "acl_refresh fetched a =
     (case fetched of Ok entries \<Rightarrow> a\<lparr>ga_cache := entries\<rparr> | Err _ \<Rightarrow> a)"

definition authorize_resource ::
    "gateway_authz \<Rightarrow> principal \<Rightarrow> string \<Rightarrow> resource_type \<Rightarrow> string \<Rightarrow> acl_operation \<Rightarrow> authorization_result" where
  "authorize_resource a p host rt name op =
     ga_authorizer a (ga_cache a)
       \<lparr>az_principal = p, az_host = host, az_resource_type = rt, az_resource_name = name, az_operation = op\<rparr>"

section \<open>Properties\<close>

text \<open>
  A fetched snapshot is taken over entry by entry or not at all: it succeeds
  exactly when no entry carries the filter-only pattern, and then the entries
  keep their order and every field.
\<close>

theorem fetch_acls_exact:
  "collect_acls es = Ok as \<longleftrightarrow>
     list_all2 (\<lambda>e a. (ad_pattern_type e = AdminLiteral \<and> ac_pattern_type a = Literal
                        \<or> ad_pattern_type e = AdminPrefixed \<and> ac_pattern_type a = Prefixed)
       \<and> (ad_resource_type e, ad_resource_name e, ad_principal e, ad_host e, ad_operation e, ad_permission_type e)
         = (ac_resource_type a, ac_resource_name a, ac_principal a, ac_host a, ac_operation a, ac_permission_type a))
       es as"
proof (induction es arbitrary: as)
  case (Cons e es)
  have one: "acl_entry_from_admin e = Ok a \<longleftrightarrow>
      (ad_pattern_type e = AdminLiteral \<and> ac_pattern_type a = Literal
        \<or> ad_pattern_type e = AdminPrefixed \<and> ac_pattern_type a = Prefixed)
       \<and> (ad_resource_type e, ad_resource_name e, ad_principal e, ad_host e, ad_operation e, ad_permission_type e)
         = (ac_resource_type a, ac_resource_name a, ac_principal a, ac_host a, ac_operation a, ac_permission_type a)"
    for a
    by (cases a; cases "ad_pattern_type e") (auto simp: acl_entry_from_admin_def)
  show ?case by (cases as) (auto simp: and_then_Ok_iff Cons.IH one)
qed auto

text \<open>
  A refresh that fails at any point (connection, request, or an entry that is
  not a concrete pattern) leaves every decision as it was.
\<close>

theorem failed_refresh_keeps_decisions:
  assumes "connected = Err e \<or> described = Err e \<or>
             (\<exists>es. described = Ok es \<and> (\<exists>x\<in>set es. ad_pattern_type x = AdminMatch))"
  shows "authorize_resource (acl_refresh (fetch_acls connected described) a) p host rt name op
           = authorize_resource a p host rt name op"
proof -
  have "\<exists>x\<in>set es. ad_pattern_type x = AdminMatch \<Longrightarrow> \<exists>m. collect_acls es = Err m" for es
  proof (induction es)
    case (Cons x es)
    thus ?case
      by (cases "ad_pattern_type x"; cases "collect_acls es") (auto simp: acl_entry_from_admin_def)
  qed simp
  hence "\<exists>m. fetch_acls connected described = Err m"
    using assms by (cases connected; cases described) (auto simp: fetch_acls_def)
  thus ?thesis by (auto simp: acl_refresh_def)
qed

theorem failed_refresh_keeps_decisions_witness:
  "authorize_resource
     (acl_refresh (fetch_acls (Err ''refused'') (Ok [])) \<lparr>ga_authorizer = \<lambda>_ _. Deny, ga_cache = []\<rparr>)
     anonymous ''h'' Topic ''t'' Write
   = authorize_resource \<lparr>ga_authorizer = \<lambda>_ _. Deny, ga_cache = []\<rparr> anonymous ''h'' Topic ''t'' Write"
  by (rule failed_refresh_keeps_decisions[where e = "''refused''"]) simp

text \<open>
  The principal the handlers see: it differs from the connection's principal
  only when a validator is configured and it accepted the token of a well-formed
  bearer header. An invalid or missing token never grants an identity.
\<close>

theorem resolve_principal_trusted:
  "resolve_principal validator now hs connection = r \<longleftrightarrow>
     (\<exists>validate token p. validator = Some validate \<and> bearer_token hs = Some token
        \<and> validate token now = Ok p \<and> r = Some p)
     \<or> ((validator = None \<or> bearer_token hs = None
          \<or> (\<exists>validate token e. validator = Some validate \<and> bearer_token hs = Some token
               \<and> validate token now = Err e)) \<and> r = connection)"
  by (cases validator; cases "bearer_token hs")
     (auto simp: resolve_principal_def split: sum.splits)

text \<open>
  A clock whose epoch milliseconds do not fit an \<open>i64\<close> is reported as the
  greatest \<open>i64\<close>, not as zero.
\<close>

theorem now_ms_overflow:
  "now_ms (Some (2 ^ 63)) = i64_MAX \<and> now_ms None = 0"
  by (simp add: now_ms_def i64_MAX_def)

end
