(* ===== verification/Gw_Consume.thy ===== *)
theory Gw_Consume
  imports Gw_Types
begin

text \<open>
  The consume core, \<open>consume.rs\<close>: the per-partition acknowledgement tracker
  with its contiguous frontier, the session that keeps one tracker per
  partition, decoding of polled batches, and the commit of acknowledged
  offsets. The abstract specification at the end of the definitions keeps the
  full history of deliveries and acknowledgements that the tracker compresses.
\<close>

section \<open>The partition tracker\<close>

definition MAX_OUTSTANDING_PER_PARTITION :: nat where
  "MAX_OUTSTANDING_PER_PARTITION = 100000"

record partition_ack_state =
  frontier :: "int option"
  delivered :: bset
  pending :: bset
  last_committed_frontier :: "int option"

definition default_ack_state :: partition_ack_state where
  "default_ack_state = \<lparr>frontier = None, delivered = [], pending = [], last_committed_frontier = None\<rparr>"

definition at_or_below :: "int \<Rightarrow> int option \<Rightarrow> bool" where
  "at_or_below offset f = (case f of Some g \<Rightarrow> offset \<le> g | None \<Rightarrow> False)"

definition record_delivery :: "int \<Rightarrow> partition_ack_state \<Rightarrow> (unit + unit) \<times> partition_ack_state" where
  "record_delivery offset s =
     (if at_or_below offset (frontier s) then (Ok (), s)
      else if offset \<notin> set (delivered s) \<and> MAX_OUTSTANDING_PER_PARTITION \<le> length (delivered s)
      then (Err (), s)
      else
        let s = (if frontier s = None
                 then s\<lparr>frontier := Some (offset - 1), last_committed_frontier := Some (offset - 1)\<rparr>
                 else s)
        in (Ok (), s\<lparr>delivered := bset_insert offset (delivered s)\<rparr>))"

text \<open>The loop of \<open>drain\<close> over \<open>delivered\<close>, \<open>pending\<close> and \<open>frontier\<close>.\<close>

fun drain_loop :: "bset \<Rightarrow> bset \<Rightarrow> int option \<Rightarrow> bset \<times> bset \<times> int option" where
  "drain_loop [] pend f = ([], pend, f)"
| "drain_loop (next # rest) pend f =
     (if next \<in> set pend then drain_loop rest (bset_remove next pend) (Some next)
      else (next # rest, pend, f))"

definition drain :: "partition_ack_state \<Rightarrow> partition_ack_state" where
  "drain s = (case drain_loop (delivered s) (pending s) (frontier s) of
     (d, p, f) \<Rightarrow> s\<lparr>delivered := d, pending := p, frontier := f\<rparr>)"

definition record_ack_seeded :: "int \<Rightarrow> partition_ack_state \<Rightarrow> (unit + unit) \<times> partition_ack_state" where
  "record_ack_seeded offset s =
     (if at_or_below offset (frontier s) then (Ok (), s)
      else if offset \<notin> set (delivered s) then (Err (), s)
      else (Ok (), drain (s\<lparr>pending := bset_insert offset (pending s)\<rparr>)))"

definition record_ack :: "int \<Rightarrow> partition_ack_state \<Rightarrow> (unit + unit) \<times> partition_ack_state" where
  "record_ack offset s =
     (if frontier s = None
      then (case record_delivery offset s of
              (Err e, s) \<Rightarrow> (Err e, s)
            | (Ok _, s) \<Rightarrow> record_ack_seeded offset s)
      else record_ack_seeded offset s)"

definition commit_value :: "partition_ack_state \<Rightarrow> int option" where
  "commit_value s =
     (case frontier s of
        None \<Rightarrow> None
      | Some f \<Rightarrow> if last_committed_frontier s \<noteq> Some f then checked_add_i64 f 1 else None)"

section \<open>The session\<close>

type_synonym topic_partition = "string \<times> int"

record consume_session =
  consumer_open :: bool
  ack_tracker :: "(topic_partition, partition_ack_state) hashmap"

definition new_session :: consume_session where
  "new_session = \<lparr>consumer_open = True, ack_tracker = []\<rparr>"

text \<open>\<open>self.ack_tracker.entry(key).or_default()\<close> followed by an update in place.\<close>

definition tracker_of :: "consume_session \<Rightarrow> topic_partition \<Rightarrow> partition_ack_state" where
  "tracker_of s tp = (case hm_get (ack_tracker s) tp of Some st \<Rightarrow> st | None \<Rightarrow> default_ack_state)"

definition with_tracker ::
    "(partition_ack_state \<Rightarrow> (unit + unit) \<times> partition_ack_state) \<Rightarrow> string \<Rightarrow> int \<Rightarrow> int \<Rightarrow>
     consume_session \<Rightarrow> (gateway_error + unit) \<times> consume_session" where
  "with_tracker f t p offset s =
     (let (r, st) = f (tracker_of s (t, p)) in
      (map_err (\<lambda>_. TooManyUnacked t p offset) r,
       s\<lparr>ack_tracker := hm_insert (t, p) st (ack_tracker s)\<rparr>))"

definition session_record_delivery ::
    "string \<Rightarrow> int \<Rightarrow> int \<Rightarrow> consume_session \<Rightarrow> (gateway_error + unit) \<times> consume_session" where
  "session_record_delivery t p offset s =
     (if p < 0 \<or> offset < 0 then (Ok (), s)
      else with_tracker (record_delivery offset) t p offset s)"

definition session_record_ack ::
    "string \<Rightarrow> int \<Rightarrow> int \<Rightarrow> consume_session \<Rightarrow> (gateway_error + unit) \<times> consume_session" where
  "session_record_ack t p offset s =
     (if p < 0 \<or> offset < 0 then (Ok (), s)
      else with_tracker (record_ack offset) t p offset s)"

definition ack_frontier :: "string \<Rightarrow> int \<Rightarrow> consume_session \<Rightarrow> int option" where
  "ack_frontier t p s = Option.bind (hm_get (ack_tracker s) (t, p)) frontier"

definition acked_offsets :: "consume_session \<Rightarrow> (topic_partition, int) hashmap" where
  "acked_offsets s = hm_filter_map commit_value (ack_tracker s)"

text \<open>
  The group consumer is a parameter: \<open>assignment\<close> is what
  \<open>Consumer::assignment\<close> returns and \<open>commit_sync\<close> the broker's answer to
  \<open>commit_offsets_sync\<close>. The second component of the result is the offsets the
  broker accepted.
\<close>

definition note_committed ::
    "topic_partition \<times> int \<Rightarrow> (topic_partition, partition_ack_state) hashmap \<Rightarrow>
     (topic_partition, partition_ack_state) hashmap" where
  "note_committed e m =
     (case e of (k, next_offset) \<Rightarrow>
        (case hm_get m k of
           Some st \<Rightarrow> hm_insert k (st\<lparr>last_committed_frontier := checked_sub_i64 next_offset 1\<rparr>) m
         | None \<Rightarrow> m))"

definition commit_acked ::
    "topic_partition list \<Rightarrow> ((topic_partition, int) hashmap \<Rightarrow> string + unit) \<Rightarrow> consume_session \<Rightarrow>
     (gateway_error + unit) \<times> (topic_partition, int) hashmap \<times> consume_session" where
  "commit_acked assignment commit_sync s =
     (if \<not> consumer_open s then (Err (Other ''consume session is closed''), [], s)
      else
        let s = s\<lparr>ack_tracker := hm_retain (\<lambda>k _. k \<in> set assignment) (ack_tracker s)\<rparr>;
            offsets = acked_offsets s
        in if offsets = [] then (Ok (), [], s)
           else (case commit_sync offsets of
                   Err e \<Rightarrow> (Err (Consumer e), [], s)
                 | Ok _ \<Rightarrow> (Ok (), offsets,
                            s\<lparr>ack_tracker := fold note_committed offsets (ack_tracker s)\<rparr>)))"

definition commit_positions :: "(unit \<Rightarrow> string + unit) \<Rightarrow> consume_session \<Rightarrow> gateway_error + unit" where
  "commit_positions commit_sync s =
     (if \<not> consumer_open s then Err (Other ''consume session is closed'')
      else map_err Consumer (commit_sync ()))"

section \<open>Polling\<close>

record consumer_record =
  cr_topic :: string
  cr_partition :: int
  cr_offset :: int
  cr_timestamp :: int
  cr_key :: "bytes option"
  cr_value :: "bytes option"
  cr_headers :: "header list"

record decoded_consumer_record =
  dr_topic :: string
  dr_partition :: int
  dr_offset :: int
  dr_timestamp :: int
  dr_key :: "bytes option"
  dr_raw_value :: bytes
  dr_value :: bytes
  dr_headers :: "header list"
  dr_schema :: "schema_meta option"
  dr_json :: "bytes option"

definition decode_record ::
    "(string \<Rightarrow> bytes \<Rightarrow> codec_error + decoded) \<Rightarrow> consumer_record \<Rightarrow> gateway_error + decoded_consumer_record" where
  "decode_record decode r =
     and_then
       (case cr_value r of
          Some v \<Rightarrow> and_then (map_err Codec (decode (cr_topic r) v))
                     (\<lambda>d. Ok (v, dec_value d, dec_schema d, dec_json d))
        | None \<Rightarrow> Ok ([], [], None, None))
       (\<lambda>(raw_value, value, schema, json).
          Ok \<lparr>dr_topic = cr_topic r, dr_partition = cr_partition r, dr_offset = cr_offset r,
              dr_timestamp = cr_timestamp r, dr_key = cr_key r, dr_raw_value = raw_value,
              dr_value = value, dr_headers = cr_headers r, dr_schema = schema, dr_json = json\<rparr>)"

fun decode_batch ::
    "(string \<Rightarrow> bytes \<Rightarrow> codec_error + decoded) \<Rightarrow> consumer_record list \<Rightarrow>
     gateway_error + decoded_consumer_record list" where
  "decode_batch decode [] = Ok []"
| "decode_batch decode (r # rs) =
     and_then (decode_record decode r) (\<lambda>d. and_then (decode_batch decode rs) (\<lambda>ds. Ok (d # ds)))"

definition poll_batch ::
    "(string \<Rightarrow> bytes \<Rightarrow> codec_error + decoded) \<Rightarrow> string + consumer_record list \<Rightarrow>
     gateway_error + decoded_consumer_record list" where
  "poll_batch decode polled = and_then (map_err Consumer polled) (decode_batch decode)"

section \<open>Specification: the history of a partition\<close>

text \<open>
  The specification keeps every delivery accepted since the tracker was
  created (\<open>seen\<close>) and every acknowledgement of one of them (\<open>acked\<close>). Its
  frontier is the greatest delivery below which, itself included, everything
  seen is acknowledged, or the baseline when there is none.
\<close>

record ack_spec =
  base :: "int option"
  seen :: "int set"
  acked :: "int set"

definition spec_init :: ack_spec where
  "spec_init = \<lparr>base = None, seen = {}, acked = {}\<rparr>"

definition settled :: "ack_spec \<Rightarrow> int set" where
  "settled S = {x \<in> seen S. \<forall>y\<in>seen S. y \<le> x \<longrightarrow> y \<in> acked S}"

definition spec_frontier :: "ack_spec \<Rightarrow> int option" where
  "spec_frontier S = map_option (\<lambda>b. Max (insert b (settled S))) (base S)"

definition outstanding :: "ack_spec \<Rightarrow> int set" where
  "outstanding S = {x \<in> seen S. \<not> at_or_below x (spec_frontier S)}"

definition spec_deliver :: "int \<Rightarrow> ack_spec \<Rightarrow> (unit + unit) \<times> ack_spec" where
  "spec_deliver x S =
     (if at_or_below x (spec_frontier S) then (Ok (), S)
      else if x \<notin> outstanding S \<and> MAX_OUTSTANDING_PER_PARTITION \<le> card (outstanding S) then (Err (), S)
      else (Ok (), S\<lparr>base := (case base S of None \<Rightarrow> Some (x - 1) | b \<Rightarrow> b), seen := insert x (seen S)\<rparr>))"

definition spec_ack :: "int \<Rightarrow> ack_spec \<Rightarrow> (unit + unit) \<times> ack_spec" where
  "spec_ack x S =
     (let S = (if base S = None then snd (spec_deliver x S) else S) in
      if at_or_below x (spec_frontier S) then (Ok (), S)
      else if x \<notin> seen S then (Err (), S)
      else (Ok (), S\<lparr>acked := insert x (acked S)\<rparr>))"

section \<open>Sequences of tracker operations\<close>

text \<open>
  What a session does to one partition: a delivery, an acknowledgement, each
  behind the guard on negative offsets, or the bookkeeping of a successful commit.
\<close>

datatype ack_op = Deliver int | Ack int | Committed

definition mark_committed :: "partition_ack_state \<Rightarrow> partition_ack_state" where
  "mark_committed s =
     (case commit_value s of
        Some n \<Rightarrow> s\<lparr>last_committed_frontier := checked_sub_i64 n 1\<rparr>
      | None \<Rightarrow> s)"

fun tracker_step :: "ack_op \<Rightarrow> partition_ack_state \<Rightarrow> partition_ack_state" where
  "tracker_step (Deliver x) s = (if x < 0 then s else snd (record_delivery x s))"
| "tracker_step (Ack x) s = (if x < 0 then s else snd (record_ack x s))"
| "tracker_step Committed s = mark_committed s"

fun spec_step :: "ack_op \<Rightarrow> ack_spec \<Rightarrow> ack_spec" where
  "spec_step (Deliver x) S = (if x < 0 then S else snd (spec_deliver x S))"
| "spec_step (Ack x) S = (if x < 0 then S else snd (spec_ack x S))"
| "spec_step Committed S = S"

section \<open>Well-formed trackers\<close>

definition ack_wf :: "partition_ack_state \<Rightarrow> bool" where
  "ack_wf s \<longleftrightarrow>
     bset_ok (delivered s) \<and> bset_ok (pending s)
     \<and> set (pending s) \<subseteq> set (delivered s)
     \<and> length (delivered s) \<le> MAX_OUTSTANDING_PER_PARTITION
     \<and> (frontier s = None \<longrightarrow> delivered s = [] \<and> last_committed_frontier s = None)
     \<and> (\<forall>f. frontier s = Some f \<longrightarrow>
           - 1 \<le> f \<and> (\<forall>x\<in>set (delivered s). f < x)
           \<and> (\<exists>c. last_committed_frontier s = Some c \<and> - 1 \<le> c \<and> c \<le> f))
     \<and> (\<forall>x\<in>set (pending s). \<exists>y\<in>set (delivered s) - set (pending s). y < x)"

lemma at_or_below_simps [simp]:
  "at_or_below x None = False" "at_or_below x (Some f) = (x \<le> f)"
  by (simp_all add: at_or_below_def)

lemma ack_wf_default [simp]: "ack_wf default_ack_state"
  by (simp add: ack_wf_def default_ack_state_def)

lemma drain_loop_spec:
  "bset_ok d \<Longrightarrow> bset_ok p \<Longrightarrow>
     drain_loop d p f =
       (let t = takeWhile (\<lambda>x. x \<in> set p) d in
        (drop (length t) d, filter (\<lambda>x. x \<notin> set t) p, if t = [] then f else Some (last t)))"
proof (induction d p f rule: drain_loop.induct)
  case (2 n rest p f)
  show ?case
  proof (cases "n \<in> set p")
    case True
    have rm: "bset_remove n p = filter (\<lambda>x. x \<noteq> n) p"
      using 2(3)
    proof (induction p)
      case (Cons y ys)
      thus ?case by (auto intro!: filter_True[symmetric])
    qed simp
    have tw: "takeWhile (\<lambda>x. x \<in> set (bset_remove n p)) rest = takeWhile (\<lambda>x. x \<in> set p) rest"
      using 2(2,3) by (intro takeWhile_cong) auto
    have ok: "bset_ok rest" using 2(2) by simp
    note ih = 2(1)[OF True ok bset_ok_remove[OF 2(3)], unfolded tw]
    show ?thesis
      using True by (simp add: ih Let_def) (simp add: rm conj_commute)
  next
    case False
    thus ?thesis by simp
  qed
qed simp

lemma record_delivery_wf [inv_intros]:
  assumes "ack_wf s" "0 \<le> x"
  shows "ack_wf (snd (record_delivery x s))"
proof -
  have "x \<notin> set (delivered s) \<Longrightarrow> \<not> MAX_OUTSTANDING_PER_PARTITION \<le> length (delivered s)
      \<Longrightarrow> length (bset_insert x (delivered s)) \<le> MAX_OUTSTANDING_PER_PARTITION"
    using assms(1) by (simp add: ack_wf_def length_bset_insert)
  moreover have "x \<in> set (delivered s) \<Longrightarrow> length (bset_insert x (delivered s)) \<le> MAX_OUTSTANDING_PER_PARTITION"
    using assms(1) by (simp add: ack_wf_def length_bset_insert)
  ultimately show ?thesis
    using assms
    by (cases "frontier s") (auto simp: record_delivery_def ack_wf_def Let_def MAX_OUTSTANDING_PER_PARTITION_def)
qed

lemma takeWhile_split:
  "\<exists>r. xs = takeWhile P xs @ r \<and> (r = [] \<or> \<not> P (hd r))"
  by (metis hd_dropWhile takeWhile_dropWhile_id)

lemma drain_props:
  assumes "bset_ok (delivered s)" "bset_ok (pending s)"
  obtains t r where
    "delivered s = t @ r" "set t \<subseteq> set (pending s)" "r = [] \<or> hd r \<notin> set (pending s)"
    "drain s = s\<lparr>delivered := r, pending := filter (\<lambda>x. x \<notin> set t) (pending s),
                frontier := (if t = [] then frontier s else Some (last t))\<rparr>"
proof -
  let ?t = "takeWhile (\<lambda>x. x \<in> set (pending s)) (delivered s)"
  obtain r where r: "delivered s = ?t @ r" "r = [] \<or> hd r \<notin> set (pending s)"
    using takeWhile_split[of "delivered s" "\<lambda>x. x \<in> set (pending s)"] by blast
  have sub: "set ?t \<subseteq> set (pending s)" by (auto dest: set_takeWhileD)
  have dr: "drop (length ?t) (delivered s) = r"
    using r(1) by (metis append_eq_conv_conj)
  have "drain s = s\<lparr>delivered := r, pending := filter (\<lambda>x. x \<notin> set ?t) (pending s),
                frontier := (if ?t = [] then frontier s else Some (last ?t))\<rparr>"
    unfolding drain_def drain_loop_spec[OF assms] Let_def prod.case dr ..
  from that[OF r(1) sub r(2) this] show ?thesis .
qed

lemma bset_ok_append:
  "bset_ok (xs @ ys) \<longleftrightarrow> bset_ok xs \<and> bset_ok ys \<and> (\<forall>x\<in>set xs. \<forall>y\<in>set ys. x < y)"
  by (auto simp: bset_ok_def sorted_wrt_append)

lemma bset_ok_filter: "bset_ok xs \<Longrightarrow> bset_ok (filter P xs)"
  by (simp add: bset_ok_def sorted_wrt_filter)

lemma bset_ok_last: "bset_ok xs \<Longrightarrow> x \<in> set xs \<Longrightarrow> x \<le> last xs"
  by (induction xs) (auto intro: less_imp_le)

lemma ack_wf_SomeI:
  assumes "frontier s = Some f" "bset_ok (delivered s)" "bset_ok (pending s)"
    "set (pending s) \<subseteq> set (delivered s)" "length (delivered s) \<le> MAX_OUTSTANDING_PER_PARTITION"
    "last_committed_frontier s = Some c" "- 1 \<le> c" "c \<le> f" "\<And>x. x \<in> set (delivered s) \<Longrightarrow> f < x"
    "\<And>x. x \<in> set (pending s) \<Longrightarrow> \<exists>y\<in>set (delivered s) - set (pending s). y < x"
  shows "ack_wf s"
  using assms by (simp add: ack_wf_def)

lemma record_ack_seeded_wf [inv_intros]:
  assumes wf: "ack_wf s" and f: "frontier s = Some f"
  shows "ack_wf (snd (record_ack_seeded x s))"
proof (cases "x \<le> f \<or> x \<notin> set (delivered s)")
  case True
  thus ?thesis using wf f by (auto simp: record_ack_seeded_def)
next
  case False
  let ?s = "s\<lparr>pending := bset_insert x (pending s)\<rparr>"
  have ok: "bset_ok (delivered ?s)" "bset_ok (pending ?s)" and sub: "set (pending ?s) \<subseteq> set (delivered ?s)"
    using wf False by (auto simp: ack_wf_def)
  obtain t r where tr: "delivered ?s = t @ r" "set t \<subseteq> set (pending ?s)"
      "r = [] \<or> hd r \<notin> set (pending ?s)"
      "drain ?s = ?s\<lparr>delivered := r, pending := filter (\<lambda>x. x \<notin> set t) (pending ?s),
                frontier := (if t = [] then frontier ?s else Some (last t))\<rparr>"
    using drain_props[OF ok] by blast
  have oks: "bset_ok t" "bset_ok r" "\<forall>x\<in>set t. \<forall>y\<in>set r. x < y"
    using ok(1) tr(1) by (simp_all add: bset_ok_append)
  have len: "length r \<le> MAX_OUTSTANDING_PER_PARTITION" using wf tr(1) by (simp add: ack_wf_def)
  obtain c where c: "last_committed_frontier s = Some c" "- 1 \<le> c" "c \<le> f" "- 1 \<le> f"
      "\<forall>x\<in>set (t @ r). f < x"
    using wf f tr(1) by (auto simp: ack_wf_def)
  let ?p = "filter (\<lambda>x. x \<notin> set t) (pending ?s)"
  let ?u = "?s\<lparr>delivered := r, pending := ?p, frontier := (if t = [] then frontier ?s else Some (last t))\<rparr>"
  have gap: "\<exists>y\<in>set r - set ?p. y < z" if z: "z \<in> set ?p" for z
  proof (cases r)
    case Nil
    thus ?thesis using z sub tr(1) by auto
  next
    case (Cons h r')
    have "h \<notin> set (pending ?s)" using tr(3) Cons by simp
    hence h: "h \<in> set r - set ?p" using Cons by simp
    moreover have "z \<in> set r" using z sub tr(1) by auto
    ultimately have "h < z" using z oks(2) Cons by auto
    thus ?thesis using h by blast
  qed
  have fr: "\<exists>g. frontier ?u = Some g \<and> f \<le> g \<and> (\<forall>x\<in>set r. g < x)"
  proof (cases "t = []")
    case False
    hence "last t \<in> set t" by simp
    thus ?thesis using False oks(3) c(5) by (auto intro: less_imp_le)
  qed (use f c(5) in auto)
  then obtain g where g: "frontier ?u = Some g" "f \<le> g" "\<forall>x\<in>set r. g < x" by blast
  have pr: "set ?p \<subseteq> set r" using sub tr(1) by auto
  have "ack_wf ?u"
  proof (rule ack_wf_SomeI[OF g(1), where c = c])
    show "bset_ok (pending ?u)" using bset_ok_filter[OF ok(2)] by simp
    show "\<And>x. x \<in> set (pending ?u) \<Longrightarrow> \<exists>y\<in>set (delivered ?u) - set (pending ?u). y < x"
      using gap by simp
  qed (use oks(2) pr len c(1-3) g in auto)
  thus ?thesis using False f by (simp add: record_ack_seeded_def tr(4))
qed

lemma record_delivery_seeds:
  "frontier s = None \<Longrightarrow> ack_wf s \<Longrightarrow>
     record_delivery x s = (Ok (), s\<lparr>frontier := Some (x - 1), last_committed_frontier := Some (x - 1),
                                  delivered := [x]\<rparr>)"
  by (simp add: record_delivery_def ack_wf_def MAX_OUTSTANDING_PER_PARTITION_def)

lemma record_ack_wf [inv_intros]:
  assumes "ack_wf s" "0 \<le> x"
  shows "ack_wf (snd (record_ack x s))"
proof (cases "frontier s")
  case None
  note d = record_delivery_seeds[OF None assms(1)]
  have "ack_wf (snd (record_delivery x s))" by (rule record_delivery_wf[OF assms])
  from record_ack_seeded_wf[OF this, of "x - 1"] show ?thesis
    by (simp add: record_ack_def None d)
next
  case (Some f)
  thus ?thesis using record_ack_seeded_wf[OF assms(1) Some] by (simp add: record_ack_def)
qed

lemma commit_value_Some:
  assumes "ack_wf s" "commit_value s = Some n"
  obtains f c where "frontier s = Some f" "n = f + 1" "last_committed_frontier s = Some c" "c < f"
    "- 1 \<le> f" "f < i64_MAX" "checked_sub_i64 n 1 = Some f"
proof -
  obtain f where f: "frontier s = Some f" "last_committed_frontier s \<noteq> Some f" "checked_add_i64 f 1 = Some n"
    using assms(2) by (auto simp: commit_value_def split: option.splits if_splits)
  obtain c where c: "last_committed_frontier s = Some c" "c \<le> f" "- 1 \<le> f"
    using assms(1) f(1) by (auto simp: ack_wf_def)
  show ?thesis
    by (rule that[OF f(1) _ c(1)])
       (use f c in \<open>auto simp: checked_add_i64_def checked_sub_i64_def int_bounds split: if_splits\<close>)
qed

lemma mark_committed_wf [inv_intros]: "ack_wf s \<Longrightarrow> ack_wf (mark_committed s)"
proof (cases "commit_value s")
  case (Some n)
  assume wf: "ack_wf s"
  from commit_value_Some[OF wf Some] obtain f where
    "frontier s = Some f" "checked_sub_i64 n 1 = Some f" "- 1 \<le> f" by metis
  thus ?thesis using wf Some by (simp add: mark_committed_def ack_wf_def)
qed (simp add: mark_committed_def)

lemma tracker_step_wf [inv_intros]: "ack_wf s \<Longrightarrow> ack_wf (tracker_step e s)"
  by (cases e) (auto intro: inv_intros)

text \<open>The frontier and the last committed position as levels that never fall.\<close>

definition level_of :: "int option \<Rightarrow> int" where
  "level_of f = (case f of Some g \<Rightarrow> g | None \<Rightarrow> - 2)"

lemma record_delivery_frontier:
  "ack_wf s \<Longrightarrow> 0 \<le> x \<Longrightarrow> level_of (frontier s) \<le> level_of (frontier (snd (record_delivery x s)))"
  by (cases "frontier s") (auto simp: record_delivery_def level_of_def Let_def)

lemma record_ack_seeded_frontier:
  assumes "ack_wf s" "frontier s = Some f"
  shows "\<exists>g. frontier (snd (record_ack_seeded x s)) = Some g \<and> f \<le> g"
proof (cases "x \<le> f \<or> x \<notin> set (delivered s)")
  case True
  thus ?thesis using assms by (auto simp: record_ack_seeded_def)
next
  case False
  let ?s = "s\<lparr>pending := bset_insert x (pending s)\<rparr>"
  have ok: "bset_ok (delivered ?s)" "bset_ok (pending ?s)" using assms by (auto simp: ack_wf_def)
  obtain t r where tr: "delivered ?s = t @ r"
      "frontier (drain ?s) = (if t = [] then frontier ?s else Some (last t))"
    by (rule drain_props[OF ok]) (auto simp: that)
  have "t \<noteq> [] \<Longrightarrow> f < last t" using assms tr(1) by (auto simp: ack_wf_def)
  thus ?thesis using False assms tr(2) by (auto simp: record_ack_seeded_def)
qed

lemma record_ack_frontier:
  assumes "ack_wf s" "0 \<le> x"
  shows "level_of (frontier s) \<le> level_of (frontier (snd (record_ack x s)))"
proof (cases "frontier s")
  case None
  have "ack_wf (snd (record_delivery x s))" by (rule record_delivery_wf[OF assms])
  from record_ack_seeded_frontier[OF this, of "x - 1" x] assms(2) show ?thesis
    by (auto simp: record_ack_def None record_delivery_seeds[OF None assms(1)] level_of_def)
next
  case (Some f)
  from record_ack_seeded_frontier[OF assms(1) this, of x] Some show ?thesis
    by (auto simp: record_ack_def level_of_def)
qed

interpretation tracker: monotone_machine tracker_step ack_wf "\<lambda>s. level_of (frontier s)"
proof
  show "ack_wf s \<Longrightarrow> ack_wf (tracker_step e s)" for s e by (rule tracker_step_wf)
  show "ack_wf s \<Longrightarrow> level_of (frontier s) \<le> level_of (frontier (tracker_step e s))" for s e
    by (cases e)
      (auto simp: record_delivery_frontier record_ack_frontier mark_committed_def split: option.split)
qed

section \<open>Refinement of the history\<close>

definition ack_sim :: "ack_spec \<Rightarrow> partition_ack_state \<Rightarrow> bool" where
  "ack_sim S s \<longleftrightarrow>
     ack_wf s \<and> finite (seen S) \<and> acked S \<subseteq> seen S
     \<and> (base S = None \<longrightarrow> seen S = {})
     \<and> (\<forall>b. base S = Some b \<longrightarrow> (\<forall>x\<in>seen S. b < x))
     \<and> frontier s = spec_frontier S
     \<and> set (delivered s) = outstanding S
     \<and> set (pending s) = acked S \<inter> outstanding S"

lemma ack_sim_init [simp]: "ack_sim spec_init default_ack_state"
  by (simp add: ack_sim_def spec_init_def spec_frontier_def outstanding_def)
     (simp add: default_ack_state_def)

lemma finite_settled: "finite (seen S) \<Longrightarrow> finite (settled S)"
  by (simp add: settled_def)

lemma spec_frontier_mem:
  assumes "finite (seen S)" "base S = Some b" "spec_frontier S = Some f"
  shows "f = b \<or> f \<in> settled S" "b \<le> f" "z \<in> settled S \<Longrightarrow> z \<le> f"
proof -
  have f: "f = Max (insert b (settled S))" using assms(2,3) by (simp add: spec_frontier_def)
  have fin: "finite (insert b (settled S))" using finite_settled[OF assms(1)] by simp
  show "f = b \<or> f \<in> settled S" using Max_in[OF fin] f by auto
  show "b \<le> f" "z \<in> settled S \<Longrightarrow> z \<le> f" using Max_ge[OF fin] f by auto
qed

lemma spec_frontierI:
  assumes "finite (seen S)" "base S = Some b" "f = b \<or> f \<in> settled S" "b \<le> f"
    "\<And>z. z \<in> settled S \<Longrightarrow> z \<le> f"
  shows "spec_frontier S = Some f"
  using assms finite_settled[OF assms(1)]
  by (auto simp: spec_frontier_def intro!: Max_eqI)

lemma spec_below_acked:
  assumes "finite (seen S)" "base S = Some b" "\<forall>x\<in>seen S. b < x" "spec_frontier S = Some f"
    "y \<in> seen S" "y \<le> f"
  shows "y \<in> acked S"
  using spec_frontier_mem(1)[OF assms(1,2,4)] assms(3,5,6) by (auto simp: settled_def)

lemma sim_base: "ack_sim S s \<Longrightarrow> frontier s = None \<longleftrightarrow> base S = None"
  by (simp add: ack_sim_def spec_frontier_def)

lemma sim_deliver:
  assumes sim: "ack_sim S s" and x: "0 \<le> x"
  shows "ack_sim (snd (spec_deliver x S)) (snd (record_delivery x s))
         \<and> fst (spec_deliver x S) = fst (record_delivery x s)"
proof -
  have wf: "ack_wf s" and fr: "frontier s = spec_frontier S" and del: "set (delivered s) = outstanding S"
    and pend: "set (pending s) = acked S \<inter> outstanding S" and fin: "finite (seen S)"
    and sub: "acked S \<subseteq> seen S"
    using sim by (simp_all add: ack_sim_def)
  have card: "card (outstanding S) = length (delivered s)"
    using wf del bset_ok_distinct distinct_card[of "delivered s"] by (simp add: ack_wf_def)
  show ?thesis
  proof (cases "frontier s")
    case None
    hence S: "base S = None" "seen S = {}" "acked S = {}"
      using sim_base[OF sim] sim sub by (auto simp: ack_sim_def)
    let ?S = "S\<lparr>base := Some (x - 1), seen := {x}\<rparr>"
    have "settled ?S = {}" using S by (auto simp: settled_def)
    hence f': "spec_frontier ?S = Some (x - 1)" by (simp add: spec_frontier_def)
    have out: "outstanding S = {}" using S by (simp add: outstanding_def)
    have "spec_deliver x S = (Ok (), ?S)"
      using None fr S out by (simp add: spec_deliver_def MAX_OUTSTANDING_PER_PARTITION_def)
    moreover have "ack_wf (snd (record_delivery x s))" by (rule record_delivery_wf[OF wf x])
    moreover have "pending s = []" using pend out by simp
    ultimately show ?thesis using S f'
      by (auto simp: record_delivery_seeds[OF None wf] ack_sim_def outstanding_def)
  next
    case (Some f)
    then obtain b where b: "base S = Some b" using sim_base[OF sim] by (cases "base S") auto
    have lt: "\<forall>x\<in>seen S. b < x" using sim b by (simp add: ack_sim_def)
    have sf: "spec_frontier S = Some f" using fr Some by simp
    show ?thesis
    proof (cases "x \<le> f \<or> (x \<notin> outstanding S \<and> MAX_OUTSTANDING_PER_PARTITION \<le> length (delivered s))")
      case True
      thus ?thesis using sim Some sf del card
        by (auto simp: record_delivery_def spec_deliver_def)
    next
      case False
      let ?S = "S\<lparr>seen := insert x (seen S)\<rparr>"
      have na: "x \<in> acked S \<Longrightarrow> x \<in> seen S" using sub by auto
      have set_eq: "settled ?S = settled S"
        using spec_frontier_mem(3)[OF fin b sf] False na by (fastforce simp: settled_def)
      hence f': "spec_frontier ?S = Some f" using sf b by (simp add: spec_frontier_def)
      have out: "outstanding ?S = insert x (outstanding S)"
        using f' sf False by (auto simp: outstanding_def)
      have acks: "acked S \<inter> insert x (outstanding S) = acked S \<inter> outstanding S"
        using na False sf by (auto simp: outstanding_def)
      have eqs: "spec_deliver x S = (Ok (), ?S)"
        "record_delivery x s = (Ok (), s\<lparr>delivered := bset_insert x (delivered s)\<rparr>)"
        using False Some sf del card b by (auto simp: spec_deliver_def record_delivery_def)
      have "ack_wf (snd (record_delivery x s))" by (rule record_delivery_wf[OF wf x])
      moreover have "b < x" using spec_frontier_mem(2)[OF fin b sf] False by simp
      ultimately show ?thesis
        unfolding eqs using fin sub b lt Some f' out del pend acks by (auto simp: ack_sim_def)
    qed
  qed
qed

text \<open>
  Draining against the history: when the tracked deliveries split into an
  acknowledged prefix \<open>t\<close> and a rest \<open>r\<close> that starts unacknowledged, the
  settled deliveries are those below the old frontier and the prefix.
\<close>

lemma settled_split:
  assumes out: "set t \<union> set r = {z \<in> seen S. f < z}" and sep: "\<forall>x\<in>set t. \<forall>y\<in>set r. x < y"
    and ok: "bset_ok r" and below: "\<forall>z\<in>seen S. z \<le> f \<longrightarrow> z \<in> acked S"
    and t: "set t \<subseteq> acked S" and r: "r = [] \<or> hd r \<notin> acked S"
  shows "settled S = {z \<in> seen S. z \<le> f} \<union> set t"
proof (rule set_eqI, rule iffI)
  fix z assume z: "z \<in> settled S"
  have "z \<notin> set r"
  proof
    assume zr: "z \<in> set r"
    then obtain h r' where hr: "r = h # r'" by (cases r) auto
    have "h \<le> z" using ok zr hr by auto
    moreover have "h \<in> seen S" using out hr by auto
    ultimately have "h \<in> acked S" using z by (auto simp: settled_def)
    thus False using r hr by simp
  qed
  thus "z \<in> {z \<in> seen S. z \<le> f} \<union> set t" using z out by (auto simp: settled_def)
next
  fix z assume z: "z \<in> {z \<in> seen S. z \<le> f} \<union> set t"
  have "y \<in> acked S" if y: "y \<in> seen S" "y \<le> z" for y
  proof (cases "y \<le> f")
    case False
    hence "y \<in> set t \<union> set r" "z \<in> set t" using y z out by auto
    hence "y \<in> set t" using y(2) sep by (meson Un_iff leD)
    thus ?thesis using t by blast
  qed (use below y in blast)
  moreover have "z \<in> seen S" using z out by blast
  ultimately show "z \<in> settled S" by (simp add: settled_def)
qed

lemma frontier_split:
  assumes fin: "finite (seen S)" and b: "base S = Some b" "b \<le> f" "f = b \<or> f \<in> seen S"
    and out: "set t \<union> set r = {z \<in> seen S. f < z}" and sep: "\<forall>x\<in>set t. \<forall>y\<in>set r. x < y"
    and ok: "bset_ok t" and st: "settled S = {z \<in> seen S. z \<le> f} \<union> set t"
  shows "spec_frontier S = Some (if t = [] then f else last t)" and "outstanding S = set r"
proof -
  have last: "last t \<in> set t \<and> f < last t" if "t \<noteq> []" using that out last_in_set by blast
  show g: "spec_frontier S = Some (if t = [] then f else last t)"
  proof (rule spec_frontierI[OF fin b(1)])
    show "b \<le> (if t = [] then f else last t)" using b(2) last by auto
    show "(if t = [] then f else last t) = b \<or> (if t = [] then f else last t) \<in> settled S"
      using b(3) last unfolding st by auto
    show "z \<le> (if t = [] then f else last t)" if "z \<in> settled S" for z
      using that last bset_ok_last[OF ok, of z] unfolding st by (cases "z \<in> set t") auto
  qed
  have "z \<in> seen S \<and> (if t = [] then f else last t) < z \<longleftrightarrow> z \<in> set r" for z
  proof (cases "t = []")
    case True
    thus ?thesis using out by auto
  next
    case False
    have "z \<in> set t \<Longrightarrow> z \<le> last t" by (rule bset_ok_last[OF ok])
    moreover have "z \<in> set r \<Longrightarrow> last t < z" using sep last[OF False] by blast
    moreover have "z \<in> set t \<or> z \<in> set r \<longleftrightarrow> z \<in> seen S \<and> f < z" using out by blast
    ultimately show ?thesis using last[OF False] False by (auto dest: order_less_trans)
  qed
  thus "outstanding S = set r" using g by (auto simp: outstanding_def not_le)
qed

lemma sim_ack_seeded:
  assumes sim: "ack_sim S s" and f: "frontier s = Some f" and x: "f < x" "x \<in> seen S"
  shows "ack_sim (S\<lparr>acked := insert x (acked S)\<rparr>) (snd (record_ack_seeded x s))"
proof -
  let ?S = "S\<lparr>acked := insert x (acked S)\<rparr>" and ?s = "s\<lparr>pending := bset_insert x (pending s)\<rparr>"
  have wf: "ack_wf s" and sf: "spec_frontier S = Some f" and del: "set (delivered s) = outstanding S"
    and pend: "set (pending s) = acked S \<inter> outstanding S" and fin: "finite (seen ?S)"
    and sub: "acked ?S \<subseteq> seen ?S"
    using sim f x by (auto simp: ack_sim_def)
  obtain b where b: "base S = Some b" using sim_base[OF sim] f by (cases "base S") auto
  have lt: "\<forall>x\<in>seen S. b < x" using sim b by (simp add: ack_sim_def)
  have bf: "b \<le> f" "f = b \<or> f \<in> seen ?S"
    using spec_frontier_mem(1,2)[OF _ b sf] fin by (auto simp: settled_def)
  have out: "outstanding S = {z \<in> seen S. f < z}" using sf by (auto simp: outstanding_def)
  have ok: "bset_ok (delivered ?s)" "bset_ok (pending ?s)" using wf by (auto simp: ack_wf_def)
  obtain t r where tr: "delivered ?s = t @ r" "set t \<subseteq> set (pending ?s)"
      "r = [] \<or> hd r \<notin> set (pending ?s)"
      "drain ?s = ?s\<lparr>delivered := r, pending := filter (\<lambda>x. x \<notin> set t) (pending ?s),
                frontier := (if t = [] then frontier ?s else Some (last t))\<rparr>"
    using drain_props[OF ok] by blast
  have oks: "bset_ok t" "bset_ok r" "\<forall>x\<in>set t. \<forall>y\<in>set r. x < y"
    using ok(1) tr(1) by (simp_all add: bset_ok_append)
  have tr_out: "set t \<union> set r = {z \<in> seen ?S. f < z}" using del out tr(1) by simp
  have pend': "set (pending ?s) = acked ?S \<inter> (set t \<union> set r)" using pend out x tr_out by auto
  have below: "\<forall>z\<in>seen ?S. z \<le> f \<longrightarrow> z \<in> acked ?S" using spec_below_acked[OF _ b lt sf] fin by simp
  have t: "set t \<subseteq> acked ?S" and r: "r = [] \<or> hd r \<notin> acked ?S"
    using tr(2,3) unfolding pend' by (auto dest: hd_in_set)
  have st: "settled ?S = {z \<in> seen ?S. z \<le> f} \<union> set t"
    by (rule settled_split[OF tr_out oks(3,2) below t r])
  have g: "spec_frontier ?S = Some (if t = [] then f else last t)" and out': "outstanding ?S = set r"
    by (rule frontier_split[OF fin _ bf tr_out oks(3,1) st], simp add: b)+
  have eq: "snd (record_ack_seeded x s) = drain ?s"
    using f x del out by (simp add: record_ack_seeded_def)
  have "set r \<inter> set t = {}" using oks(3) by auto
  hence p': "set (pending (drain ?s)) = acked ?S \<inter> set r" unfolding tr(4) using pend' by auto
  have "ack_wf (drain ?s)" using record_ack_seeded_wf[OF wf f, of x] eq by simp
  thus ?thesis
    unfolding eq ack_sim_def using fin b lt g out' p' f sub by (simp add: tr(4))
qed

lemma sim_ack:
  assumes sim: "ack_sim S s" and x: "0 \<le> x"
  shows "ack_sim (snd (spec_ack x S)) (snd (record_ack x s))
         \<and> fst (spec_ack x S) = fst (record_ack x s)"
proof -
  have seeded: "ack_sim (snd (spec_ack x S)) (snd (record_ack x s))
      \<and> fst (spec_ack x S) = fst (record_ack x s)"
    if sim: "ack_sim T u" and f: "frontier u = Some f"
      and eqs: "spec_ack x S = spec_ack x T" "record_ack x s = record_ack_seeded x u" for T u f
  proof -
    have b: "base T \<noteq> None" using sim_base[OF sim] f by simp
    have sf: "spec_frontier T = Some f" and del: "set (delivered u) = outstanding T"
      using sim f by (simp_all add: ack_sim_def)
    have mem: "f < x \<Longrightarrow> x \<in> set (delivered u) \<longleftrightarrow> x \<in> seen T"
      using del sf by (simp add: outstanding_def)
    show ?thesis
    proof (cases "x \<le> f \<or> x \<notin> seen T")
      case True
      thus ?thesis unfolding eqs using sim f sf mem b
        by (auto simp: spec_ack_def record_ack_seeded_def)
    next
      case False
      thus ?thesis unfolding eqs using sim_ack_seeded[OF sim f, of x] f sf mem b
        by (auto simp: spec_ack_def record_ack_seeded_def)
    qed
  qed
  show ?thesis
  proof (cases "frontier s")
    case None
    have wf: "ack_wf s" using sim by (simp add: ack_sim_def)
    let ?T = "snd (spec_deliver x S)" and ?u = "snd (record_delivery x s)"
    have d: "record_delivery x s = (Ok (), ?u)" "frontier ?u = Some (x - 1)"
      using record_delivery_seeds[OF None wf] by simp_all
    have T: "ack_sim ?T ?u" using sim_deliver[OF sim x] by simp
    have "base S = None" using sim_base[OF sim] None by simp
    moreover obtain b where "base ?T = Some b" using sim_base[OF T] d(2) by (cases "base ?T") auto
    ultimately have "spec_ack x S = spec_ack x ?T" by (simp add: spec_ack_def Let_def)
    moreover have "record_ack x s = record_ack_seeded x ?u"
      by (simp add: record_ack_def None record_delivery_seeds[OF None wf])
    ultimately show ?thesis by (rule seeded[OF T d(2)])
  next
    case (Some f)
    show ?thesis by (rule seeded[OF sim Some refl]) (simp add: record_ack_def Some)
  qed
qed

lemma sim_step: "ack_sim S s \<Longrightarrow> ack_sim (spec_step e S) (tracker_step e s)"
proof (cases e)
  case Committed
  assume sim: "ack_sim S s"
  hence "ack_wf (mark_committed s)" by (intro mark_committed_wf) (simp add: ack_sim_def)
  moreover have "frontier (mark_committed s) = frontier s" "delivered (mark_committed s) = delivered s"
    "pending (mark_committed s) = pending s"
    by (simp_all add: mark_committed_def split: option.split)
  ultimately show ?thesis using sim Committed by (simp add: ack_sim_def)
next
  case (Deliver x)
  assume "ack_sim S s"
  thus ?thesis using sim_deliver[of S s x] Deliver by simp
next
  case (Ack x)
  assume "ack_sim S s"
  thus ?thesis using sim_ack[of S s x] Ack by simp
qed

lemma sim_run: "ack_sim S s \<Longrightarrow> ack_sim (fold spec_step es S) (fold tracker_step es s)"
  by (induction es arbitrary: S s) (auto intro: sim_step)

lemma seen_step: "seen S \<subseteq> seen (spec_step e S)"
  by (cases e) (auto simp: spec_ack_def spec_deliver_def Let_def)

lemma seen_run: "seen S \<subseteq> seen (fold spec_step es S)"
proof (induction es arbitrary: S)
  case (Cons e es)
  show ?case using seen_step[of S e] Cons.IH[of "spec_step e S"] by (simp del: spec_step.simps)
qed simp

lemma seeded_last_committed:
  "last_committed_frontier (snd (record_ack_seeded x s)) = last_committed_frontier s"
  by (simp add: record_ack_seeded_def drain_def case_prod_beta)

lemma delivery_last_committed:
  assumes "ack_wf s" "0 \<le> x"
  shows "level_of (last_committed_frontier s) \<le> level_of (last_committed_frontier (snd (record_delivery x s)))"
proof (cases "frontier s")
  case None
  hence "last_committed_frontier s = None" using assms(1) by (simp add: ack_wf_def)
  hence "level_of (last_committed_frontier s) = - 2" by (simp add: level_of_def)
  moreover have "last_committed_frontier (snd (record_delivery x s)) = Some (x - 1)"
    by (simp add: record_delivery_seeds[OF None assms(1)])
  ultimately show ?thesis using assms(2) by (simp add: level_of_def)
next
  case (Some f)
  hence "last_committed_frontier (snd (record_delivery x s)) = last_committed_frontier s"
    by (simp add: record_delivery_def Let_def)
  thus ?thesis by simp
qed

lemma ack_last_committed:
  assumes "ack_wf s" "0 \<le> x"
  shows "level_of (last_committed_frontier s) \<le> level_of (last_committed_frontier (snd (record_ack x s)))"
proof (cases "frontier s")
  case None
  thus ?thesis using delivery_last_committed[OF assms]
    by (simp add: record_ack_def record_delivery_seeds[OF None assms(1)] seeded_last_committed)
qed (simp add: record_ack_def seeded_last_committed)

lemma mark_committed_level:
  assumes "ack_wf s"
  shows "level_of (last_committed_frontier s) \<le> level_of (last_committed_frontier (mark_committed s))"
proof (cases "commit_value s")
  case (Some n)
  show ?thesis
    by (rule commit_value_Some[OF assms Some]) (simp add: mark_committed_def Some level_of_def)
qed (simp add: mark_committed_def)

interpretation committed: monotone_machine tracker_step ack_wf "\<lambda>s. level_of (last_committed_frontier s)"
proof
  show "ack_wf s \<Longrightarrow> level_of (last_committed_frontier s) \<le> level_of (last_committed_frontier (tracker_step e s))"
    for s e
    by (cases e) (auto simp: delivery_last_committed ack_last_committed mark_committed_level)
qed

lemma commit_skips_nothing:
  assumes "commit_value (fold tracker_step ops default_ack_state) = Some n"
    and "x \<in> seen (fold spec_step ops spec_init)" and "x < n"
  shows "x \<in> acked (fold spec_step ops spec_init)"
proof -
  let ?S = "fold spec_step ops spec_init" and ?s = "fold tracker_step ops default_ack_state"
  have sim: "ack_sim ?S ?s" by (rule sim_run[OF ack_sim_init])
  hence wf: "ack_wf ?s" and fin: "finite (seen ?S)" by (simp_all add: ack_sim_def)
  obtain f where f: "frontier ?s = Some f" "n = f + 1" using commit_value_Some[OF wf assms(1)] by metis
  obtain b where b: "base ?S = Some b" using sim_base[OF sim] f(1) by (cases "base ?S") auto
  have "\<forall>x\<in>seen ?S. b < x" "spec_frontier ?S = Some f" using sim b f(1) by (simp_all add: ack_sim_def)
  from spec_below_acked[OF fin b this assms(2)] show ?thesis using assms(3) f(2) by simp
qed

section \<open>Properties of the tracker\<close>

text \<open>
  C9: Refinement: along every sequence of deliveries, acknowledgements and commits
  the compressed tracker has the frontier of the full history, and its two sets
  are exactly the outstanding deliveries and the early acknowledgements among
  them. A frontier is therefore as far as the acknowledgements allow and never
  further.
\<close>

theorem tracker_refines_history:
  "let S = fold spec_step ops spec_init; s = fold tracker_step ops default_ack_state in
     frontier s = spec_frontier S \<and> set (delivered s) = outstanding S
     \<and> set (pending s) = acked S \<inter> outstanding S"
  using sim_run[OF ack_sim_init, of ops] by (simp add: ack_sim_def Let_def)

text \<open>
  Safety of commits: an offset the tracker offers for commit is never above a
  delivery that has not been acknowledged, whatever the gaps in the log and the
  order of acknowledgements.
\<close>

theorem commit_never_skips:
  assumes "commit_value (fold tracker_step ops default_ack_state) = Some n"
    and "x \<in> seen (fold spec_step ops spec_init)" and "x < n"
  shows "x \<in> acked (fold spec_step ops spec_init)"
  by (rule commit_skips_nothing[OF assms])

theorem commit_never_skips_witness:
  "10 \<in> acked (fold spec_step [Deliver 10, Deliver 13, Ack 13, Ack 10] spec_init)"
proof (rule commit_never_skips[where n = 14])
  show "commit_value (fold tracker_step [Deliver 10, Deliver 13, Ack 13, Ack 10] default_ack_state) = Some 14"
    by (simp add: default_ack_state_def record_delivery_def record_ack_def record_ack_seeded_def
        drain_def commit_value_def checked_add_i64_def int_bounds MAX_OUTSTANDING_PER_PARTITION_def)
  have "seen (spec_step (Deliver 10) spec_init) = {10}"
    by (simp add: spec_init_def spec_deliver_def spec_frontier_def outstanding_def
        MAX_OUTSTANDING_PER_PARTITION_def)
  thus "10 \<in> seen (fold spec_step [Deliver 10, Deliver 13, Ack 13, Ack 10] spec_init)"
    using seen_run[of "spec_step (Deliver 10) spec_init" "[Deliver 13, Ack 13, Ack 10]"]
    by (auto simp del: spec_step.simps)
qed simp

text \<open>
  Bounded memory: a tracker never holds more deliveries than the cap, and it
  holds an acknowledgement back only while an earlier delivery is still
  unacknowledged. The frontier lies strictly below everything it still tracks.
\<close>

theorem tracker_well_formed:
  "ack_wf (fold tracker_step ops default_ack_state)"
  by (rule tracker.run_inv[OF ack_wf_default])

text \<open>
  Commits of one partition are strictly increasing: once an offset has been
  committed, every later commit the tracker offers is greater, so a member
  never moves the group's position backwards.
\<close>

theorem commits_increase:
  assumes "commit_value (fold tracker_step ops default_ack_state) = Some n"
    and "commit_value (fold tracker_step (ops @ [Committed] @ later) default_ack_state) = Some m"
  shows "n < m"
proof -
  let ?s = "fold tracker_step ops default_ack_state"
  let ?u = "mark_committed ?s"
  have wf: "ack_wf ?s" by (rule tracker.run_inv[OF ack_wf_default])
  have wfu: "ack_wf ?u" by (rule mark_committed_wf[OF wf])
  from commit_value_Some[OF wf assms(1)] obtain f where f: "n = f + 1" "checked_sub_i64 n 1 = Some f" by metis
  have c: "last_committed_frontier ?u = Some f" using assms(1) f by (simp add: mark_committed_def)
  have "ack_wf (fold tracker_step later ?u)" "f \<le> level_of (last_committed_frontier (fold tracker_step later ?u))"
    using tracker.run_inv[OF wfu] committed.run_level[OF wfu, of later] c by (simp_all add: level_of_def)
  moreover have "commit_value (fold tracker_step later ?u) = Some m" using assms(2) by simp
  ultimately show ?thesis
    using f(1) commit_value_Some[of "fold tracker_step later ?u" m] by (fastforce simp: level_of_def)
qed

theorem commits_increase_witness:
  "let ops = [Deliver 10, Deliver 11, Ack 10] in
     commit_value (fold tracker_step ops default_ack_state) = Some 11
     \<and> commit_value (fold tracker_step (ops @ [Committed] @ [Ack 11]) default_ack_state) = Some 12
     \<and> (11 :: int) < 12"
proof -
  let ?ops = "[Deliver 10, Deliver 11, Ack 10]"
  note defs = default_ack_state_def record_delivery_def record_ack_def record_ack_seeded_def drain_def
    commit_value_def checked_add_i64_def checked_sub_i64_def mark_committed_def int_bounds
    MAX_OUTSTANDING_PER_PARTITION_def
  have 1: "commit_value (fold tracker_step ?ops default_ack_state) = Some 11"
    and 2: "commit_value (fold tracker_step (?ops @ [Committed] @ [Ack 11]) default_ack_state) = Some 12"
    by (simp_all add: defs)
  show ?thesis using 1 2 commits_increase[OF 1 2] by simp
qed

section \<open>Sessions\<close>

definition session_ok :: "consume_session \<Rightarrow> bool" where
  "session_ok s \<longleftrightarrow> hm_ok (ack_tracker s) \<and> (\<forall>k st. hm_get (ack_tracker s) k = Some st \<longrightarrow> ack_wf st)"

lemma session_okI:
  "hm_ok (ack_tracker s) \<Longrightarrow> (\<And>k st. hm_get (ack_tracker s) k = Some st \<Longrightarrow> ack_wf st) \<Longrightarrow> session_ok s"
  unfolding session_ok_def by blast

lemma session_okD:
  "session_ok s \<Longrightarrow> hm_ok (ack_tracker s)"
  "session_ok s \<Longrightarrow> hm_get (ack_tracker s) k = Some st \<Longrightarrow> ack_wf st"
  unfolding session_ok_def by blast+

lemma session_ok_new [simp]: "session_ok new_session"
  by (rule session_okI) (simp_all add: new_session_def)

lemma tracker_of_wf: "session_ok s \<Longrightarrow> ack_wf (tracker_of s k)"
  by (cases "hm_get (ack_tracker s) k") (simp_all add: tracker_of_def session_okD)

lemma with_tracker_ok:
  assumes "session_ok s" "ack_wf (snd (f (tracker_of s (t, p))))"
  shows "session_ok (snd (with_tracker f t p x s))"
proof (rule session_okI)
  show "hm_ok (ack_tracker (snd (with_tracker f t p x s)))"
    using session_okD(1)[OF assms(1)] by (simp add: with_tracker_def case_prod_beta)
  show "ack_wf st" if "hm_get (ack_tracker (snd (with_tracker f t p x s))) k = Some st" for k st
    using that assms session_okD(2)[OF assms(1), of k]
    by (simp add: with_tracker_def case_prod_beta split: if_splits)
qed

lemma session_record_delivery_ok [inv_intros]:
  "session_ok s \<Longrightarrow> session_ok (snd (session_record_delivery t p x s))"
  by (simp add: session_record_delivery_def with_tracker_ok tracker_of_wf record_delivery_wf)

lemma session_record_ack_ok [inv_intros]:
  "session_ok s \<Longrightarrow> session_ok (snd (session_record_ack t p x s))"
  by (simp add: session_record_ack_def with_tracker_ok tracker_of_wf record_ack_wf)

text \<open>A session operation is the tracker operation on its own partition and nothing elsewhere.\<close>

lemma tracker_of_with_tracker:
  "tracker_of (snd (with_tracker f t p x s)) k =
     (if k = (t, p) then snd (f (tracker_of s k)) else tracker_of s k)"
  by (simp add: with_tracker_def tracker_of_def case_prod_beta)

lemma tracker_of_delivery:
  "0 \<le> p \<Longrightarrow> tracker_of (snd (session_record_delivery t p x s)) k =
     (if k = (t, p) then tracker_step (Deliver x) (tracker_of s k) else tracker_of s k)"
  by (simp add: session_record_delivery_def tracker_of_with_tracker)

lemma tracker_of_ack:
  "0 \<le> p \<Longrightarrow> tracker_of (snd (session_record_ack t p x s)) k =
     (if k = (t, p) then tracker_step (Ack x) (tracker_of s k) else tracker_of s k)"
  by (simp add: session_record_ack_def tracker_of_with_tracker)

lemma hm_get_note_committed:
  "hm_ok offs \<Longrightarrow> hm_get (fold note_committed offs m) k =
     (case hm_get offs k of
        Some n \<Rightarrow> map_option (\<lambda>st. st\<lparr>last_committed_frontier := checked_sub_i64 n 1\<rparr>) (hm_get m k)
      | None \<Rightarrow> hm_get m k)"
proof (induction offs arbitrary: m)
  case (Cons e offs)
  obtain k' n where e: "e = (k', n)" by fastforce
  have none: "hm_get offs k' = None" using Cons.prems by (simp add: hm_ok_def e map_of_eq_None_iff)
  have ok: "hm_ok offs" using Cons.prems by (simp add: hm_ok_def)
  have "hm_get (note_committed e m) k =
      (if k = k' then map_option (\<lambda>st. st\<lparr>last_committed_frontier := checked_sub_i64 n 1\<rparr>) (hm_get m k)
       else hm_get m k)"
    by (simp add: note_committed_def e split: option.split)
  thus ?case using Cons.IH[OF ok, of "note_committed e m"] none by (auto simp: e split: option.split)
qed simp

lemma hm_ok_note_committed: "hm_ok m \<Longrightarrow> hm_ok (fold note_committed offs m)"
proof (induction offs arbitrary: m)
  case (Cons e offs)
  have "hm_ok (note_committed e m)"
    using Cons.prems by (simp add: note_committed_def split: prod.split option.split)
  thus ?case using Cons.IH by simp
qed simp

lemma note_committed_marks:
  assumes "hm_ok m"
  shows "hm_get (fold note_committed (hm_filter_map commit_value m) m) k =
           map_option mark_committed (hm_get m k)"
  using assms
  by (cases "hm_get m k")
     (auto simp: hm_get_note_committed hm_get_filter_map mark_committed_def split: option.split)

lemma commit_value_mark_committed: "ack_wf s \<Longrightarrow> commit_value (mark_committed s) = None"
proof (cases "commit_value s")
  case (Some n)
  assume "ack_wf s"
  from commit_value_Some[OF this Some] obtain f where "frontier s = Some f" "checked_sub_i64 n 1 = Some f" by metis
  thus ?thesis by (simp add: mark_committed_def Some) (simp add: commit_value_def)
qed (simp add: mark_committed_def)

text \<open>
  The three shapes a commit can take, over the trackers \<open>retained\<close> of the
  partitions still owned.
\<close>

definition retained :: "topic_partition list \<Rightarrow> consume_session \<Rightarrow> consume_session" where
  "retained asg s = s\<lparr>ack_tracker := hm_retain (\<lambda>k _. k \<in> set asg) (ack_tracker s)\<rparr>"

definition marked :: "consume_session \<Rightarrow> consume_session" where
  "marked s = s\<lparr>ack_tracker := fold note_committed (acked_offsets s) (ack_tracker s)\<rparr>"

lemma commit_acked_cases:
  "consumer_open s \<Longrightarrow> commit_acked asg commit_sync s =
     (if acked_offsets (retained asg s) = [] then (Ok (), [], retained asg s)
      else case commit_sync (acked_offsets (retained asg s)) of
             Err e \<Rightarrow> (Err (Consumer e), [], retained asg s)
           | Ok _ \<Rightarrow> (Ok (), acked_offsets (retained asg s), marked (retained asg s)))"
  unfolding commit_acked_def retained_def marked_def Let_def by (simp split: sum.split)

lemma hm_get_retained:
  "session_ok s \<Longrightarrow> hm_get (ack_tracker (retained asg s)) k =
     (if k \<in> set asg then hm_get (ack_tracker s) k else None)"
  using session_okD(1)[of s] by (simp add: retained_def hm_get_retain split: option.split)

lemma tracker_of_retained:
  "session_ok s \<Longrightarrow> tracker_of (retained asg s) k =
     (if k \<in> set asg then tracker_of s k else default_ack_state)"
  by (simp add: tracker_of_def hm_get_retained)

lemma retained_ok: "session_ok s \<Longrightarrow> session_ok (retained asg s)"
proof (rule session_okI)
  show "session_ok s \<Longrightarrow> hm_ok (ack_tracker (retained asg s))"
    using session_okD(1)[of s] by (simp add: retained_def)
  show "session_ok s \<Longrightarrow> hm_get (ack_tracker (retained asg s)) k = Some st \<Longrightarrow> ack_wf st" for k st
    by (simp add: hm_get_retained session_okD(2) split: if_splits)
qed

lemma hm_get_acked_offsets:
  "session_ok s \<Longrightarrow> hm_get (acked_offsets s) k = Option.bind (hm_get (ack_tracker s) k) commit_value"
  unfolding acked_offsets_def by (rule hm_get_filter_map) (rule session_okD(1))

lemma hm_get_marked:
  "session_ok s \<Longrightarrow> hm_get (ack_tracker (marked s)) k = map_option mark_committed (hm_get (ack_tracker s) k)"
  using note_committed_marks[OF session_okD(1)] by (simp add: marked_def acked_offsets_def)

lemma mark_committed_default [simp]: "mark_committed default_ack_state = default_ack_state"
  by (simp add: mark_committed_def commit_value_def default_ack_state_def)

lemma tracker_of_marked: "session_ok s \<Longrightarrow> tracker_of (marked s) k = mark_committed (tracker_of s k)"
  by (simp add: tracker_of_def hm_get_marked split: option.split)

lemma marked_ok: "session_ok s \<Longrightarrow> session_ok (marked s)"
proof (rule session_okI)
  show "session_ok s \<Longrightarrow> hm_ok (ack_tracker (marked s))"
    using session_okD(1)[of s] by (simp add: marked_def hm_ok_note_committed)
  show "session_ok s \<Longrightarrow> hm_get (ack_tracker (marked s)) k = Some st \<Longrightarrow> ack_wf st" for k st
    by (auto simp: hm_get_marked intro: mark_committed_wf dest: session_okD(2))
qed

lemma acked_offsets_NilI:
  assumes "session_ok s" "\<And>k st. hm_get (ack_tracker s) k = Some st \<Longrightarrow> commit_value st = None"
  shows "acked_offsets s = []"
proof (rule ccontr)
  assume "acked_offsets s \<noteq> []"
  then obtain k n where "(k, n) \<in> set (acked_offsets s)" by (cases "acked_offsets s") auto
  moreover have "hm_ok (acked_offsets s)"
    unfolding acked_offsets_def by (rule hm_ok_filter_map[OF session_okD(1)[OF assms(1)]])
  ultimately have "hm_get (acked_offsets s) k = Some n" by (simp add: hm_in_set)
  then obtain st where "hm_get (ack_tracker s) k = Some st" "commit_value st = Some n"
    by (auto simp: hm_get_acked_offsets[OF assms(1)] bind_eq_Some_conv)
  thus False using assms(2)[of k st] by simp
qed

lemma acked_offsets_marked: "session_ok s \<Longrightarrow> acked_offsets (marked s) = []"
  by (rule acked_offsets_NilI)
     (auto simp: marked_ok hm_get_marked intro: commit_value_mark_committed dest: session_okD(2))

lemma acked_offsets_Nil_mark:
  assumes "session_ok s" "acked_offsets s = []"
  shows "mark_committed (tracker_of s k) = tracker_of s k"
proof (cases "hm_get (ack_tracker s) k")
  case (Some st)
  hence "commit_value st = None" using hm_get_acked_offsets[OF assms(1), of k] assms(2) by simp
  thus ?thesis by (simp add: tracker_of_def Some mark_committed_def)
qed (simp add: tracker_of_def)

lemma acked_offsets_sound:
  assumes "session_ok s" "hm_get (acked_offsets s) k = Some n"
  shows "commit_value (tracker_of s k) = Some n" "frontier (tracker_of s k) = Some (n - 1)"
proof -
  obtain st where st: "hm_get (ack_tracker s) k = Some st" "commit_value st = Some n"
    using assms by (auto simp: hm_get_acked_offsets bind_eq_Some_conv)
  have "frontier st = Some (n - 1)"
    by (rule commit_value_Some[OF session_okD(2)[OF assms(1) st(1)] st(2)]) simp
  thus "commit_value (tracker_of s k) = Some n" "frontier (tracker_of s k) = Some (n - 1)"
    using st by (simp_all add: tracker_of_def)
qed

lemma commit_acked_holds:
  assumes "session_ok s" "consumer_open s"
  shows "case commit_acked asg commit_sync s of (r, offs, s') \<Rightarrow>
     session_ok s'
     \<and> (\<forall>k n. hm_get offs k = Some n \<longrightarrow>
           k \<in> set asg \<and> commit_value (tracker_of s k) = Some n \<and> frontier (tracker_of s k) = Some (n - 1))
     \<and> (\<forall>k. k \<notin> set asg \<longrightarrow> tracker_of s' k = default_ack_state)
     \<and> (r = Ok () \<longrightarrow> acked_offsets s' = []
          \<and> (\<forall>k\<in>set asg. tracker_of s' k = mark_committed (tracker_of s k)))
     \<and> (r \<noteq> Ok () \<longrightarrow> offs = [] \<and> (\<forall>k\<in>set asg. tracker_of s' k = tracker_of s k))"
proof -
  let ?s = "retained asg s"
  have ok: "session_ok ?s" by (rule retained_ok[OF assms(1)])
  note tr = tracker_of_retained[OF assms(1), of asg]
  have offs: "k \<in> set asg \<and> commit_value (tracker_of s k) = Some n \<and> frontier (tracker_of s k) = Some (n - 1)"
    if "hm_get (acked_offsets ?s) k = Some n" for k n
    using acked_offsets_sound[OF ok that] tr[of k]
    by (auto simp: commit_value_def default_ack_state_def split: if_splits)
  consider (none) "acked_offsets ?s = []"
    | (rejected) e where "acked_offsets ?s \<noteq> []" "commit_sync (acked_offsets ?s) = Err e"
    | (accepted) "acked_offsets ?s \<noteq> []" "commit_sync (acked_offsets ?s) = Ok ()"
    by (cases "commit_sync (acked_offsets ?s)") auto
  thus ?thesis
  proof cases
    case none
    have "\<forall>k\<in>set asg. tracker_of ?s k = mark_committed (tracker_of s k)"
      using acked_offsets_Nil_mark[OF ok none] tr by metis
    thus ?thesis using none ok tr by (simp add: commit_acked_cases[OF assms(2)])
  next
    case rejected
    thus ?thesis using ok tr by (simp add: commit_acked_cases[OF assms(2)])
  next
    case accepted
    thus ?thesis using offs marked_ok[OF ok] acked_offsets_marked[OF ok]
      unfolding commit_acked_cases[OF assms(2)] by (simp add: tracker_of_marked[OF ok] tr)
  qed
qed

text \<open>
  A successful \<open>commit_acked\<close> sends, for partitions this member still owns and
  no others, the offset after the frontier; it forgets the partitions that were
  revoked, marks every tracker it committed, and leaves nothing to commit. A
  rejected commit changes no tracker of an owned partition, so the same offsets
  are offered again.
\<close>

theorem commit_acked_effect:
  assumes "session_ok s" "consumer_open s"
  shows "case commit_acked asg commit_sync s of (r, offs, s') \<Rightarrow>
     session_ok s'
     \<and> (\<forall>k n. hm_get offs k = Some n \<longrightarrow>
           k \<in> set asg \<and> commit_value (tracker_of s k) = Some n \<and> frontier (tracker_of s k) = Some (n - 1))
     \<and> (\<forall>k. k \<notin> set asg \<longrightarrow> tracker_of s' k = default_ack_state)
     \<and> (r = Ok () \<longrightarrow> acked_offsets s' = []
          \<and> (\<forall>k\<in>set asg. tracker_of s' k = mark_committed (tracker_of s k)))
     \<and> (r \<noteq> Ok () \<longrightarrow> offs = [] \<and> (\<forall>k\<in>set asg. tracker_of s' k = tracker_of s k))"
  by (rule commit_acked_holds[OF assms])

theorem commit_acked_effect_witness:
  "let s = snd (session_record_ack ''t'' 0 5 (snd (session_record_delivery ''t'' 0 5 new_session))) in
   case commit_acked [(''t'', 0)] (\<lambda>_. Ok ()) s of (r, offs, s') \<Rightarrow>
     hm_get offs (''t'', 0) = Some 6 \<and> acked_offsets s' = []"
proof -
  let ?s = "snd (session_record_ack ''t'' 0 5 (snd (session_record_delivery ''t'' 0 5 new_session)))"
  note defs = session_record_ack_def session_record_delivery_def with_tracker_def tracker_of_def
    new_session_def default_ack_state_def record_delivery_def record_ack_def record_ack_seeded_def drain_def
    MAX_OUTSTANDING_PER_PARTITION_def
  have ok: "session_ok ?s" by (intro inv_intros session_ok_new)
  have op: "consumer_open ?s" by (simp add: defs)
  obtain u where u: "commit_acked [(''t'', 0)] (\<lambda>_. Ok ()) ?s = (Ok (), [((''t'', 0), 6)], u)"
    by (simp add: defs commit_acked_def hm_retain_def acked_offsets_def hm_filter_map_def map_filter_simps
        commit_value_def checked_add_i64_def int_bounds)
  have "acked_offsets u = []"
    using commit_acked_effect[OF ok op, of "[(''t'', 0)]" "\<lambda>_. Ok ()"] unfolding u by simp
  thus ?thesis unfolding Let_def u by simp
qed

section \<open>Polled batches\<close>

text \<open>
  A polled batch is decoded completely or not at all: it succeeds exactly when
  every record with a value decodes, and then each decoded record keeps its
  coordinates, key, headers and original bytes, in order.
\<close>

theorem poll_batch_exact:
  "poll_batch decode (Ok rs) = Ok ds \<longleftrightarrow>
     list_all2 (\<lambda>r d.
       (dr_topic d, dr_partition d, dr_offset d, dr_timestamp d, dr_key d, dr_headers d)
         = (cr_topic r, cr_partition r, cr_offset r, cr_timestamp r, cr_key r, cr_headers r)
       \<and> (case cr_value r of
             None \<Rightarrow> dr_raw_value d = [] \<and> dr_value d = [] \<and> dr_schema d = None \<and> dr_json d = None
           | Some v \<Rightarrow> dr_raw_value d = v
               \<and> decode (cr_topic r) v
                   = Ok \<lparr>dec_value = dr_value d, dec_schema = dr_schema d, dec_json = dr_json d\<rparr>)) rs ds"
proof -
  have one: "decode_record decode r = Ok d \<longleftrightarrow>
      (dr_topic d, dr_partition d, dr_offset d, dr_timestamp d, dr_key d, dr_headers d)
         = (cr_topic r, cr_partition r, cr_offset r, cr_timestamp r, cr_key r, cr_headers r)
       \<and> (case cr_value r of
             None \<Rightarrow> dr_raw_value d = [] \<and> dr_value d = [] \<and> dr_schema d = None \<and> dr_json d = None
           | Some v \<Rightarrow> dr_raw_value d = v
               \<and> decode (cr_topic r) v
                   = Ok \<lparr>dec_value = dr_value d, dec_schema = dr_schema d, dec_json = dr_json d\<rparr>)" for r d
  proof (cases "cr_value r")
    case (Some v)
    show ?thesis
      by (cases d, cases "decode (cr_topic r) v") (auto simp: decode_record_def Some)
  qed (cases d, auto simp: decode_record_def)
  show ?thesis unfolding one[symmetric] poll_batch_def
  proof (simp, induction rs arbitrary: ds)
    case (Cons r rs)
    show ?case by (cases ds) (auto simp: and_then_Ok_iff Cons.IH)
  qed auto
qed

end
