(* ===== verification/Gw_Streaming.thy ===== *)
theory Gw_Streaming
  imports Gw_Proto Gw_Authz Gw_Consume
begin

text \<open>
  The subscription stream of \<open>streaming.rs\<close>: validation of client
  acknowledgements against what was delivered, filtering of polled batches with
  the grouping the Arrow build uses, and \<open>subscribe_inner\<close> as a function from
  the start frame to the opened stream and one step per iteration of its loop.

  The compiled filter, the Arrow library and the group consumer are parameters:
  \<open>filter_ops\<close> holds the operations the stream calls on a filter and on Arrow
  batches, and each iteration receives the broker's answers it asks for.
\<close>

section \<open>Acknowledgement bookkeeping\<close>

type_synonym delivered_offsets = "(topic_partition, bset) hashmap"

definition validate_ack ::
    "delivered_offsets \<Rightarrow> (topic_partition, int) hashmap \<Rightarrow> string \<Rightarrow> int \<Rightarrow> int \<Rightarrow> string + bool" where
  "validate_ack delivered_offs acknowledged t p offset =
     (if (case hm_get acknowledged (t, p) of Some previous \<Rightarrow> offset \<le> previous | None \<Rightarrow> False)
      then Ok False
      else if offset < 0 \<or> \<not> (case hm_get delivered_offs (t, p) of Some s \<Rightarrow> offset \<in> set s | None \<Rightarrow> False)
      then Err (''Ack targets a record that was not delivered: '' @ t @ ''-'' @ show_int p @ ''@'' @ show_int offset)
      else Ok True)"

text \<open>The loop of \<open>mark_acknowledged\<close>: the number of offsets inspected and those that remain.\<close>

fun scan_acknowledged :: "int \<Rightarrow> bset \<Rightarrow> nat \<times> bset" where
  "scan_acknowledged f [] = (0, [])"
| "scan_acknowledged f (x # xs) =
     (if f < x then (1, x # xs)
      else (case scan_acknowledged f xs of (n, rest) \<Rightarrow> (n + 1, rest)))"

definition mark_acknowledged ::
    "delivered_offsets \<Rightarrow> (topic_partition, int) hashmap \<Rightarrow> string \<Rightarrow> int \<Rightarrow> int \<Rightarrow>
     nat \<times> delivered_offsets \<times> (topic_partition, int) hashmap" where
  "mark_acknowledged delivered_offs acknowledged t p f =
     (if (case hm_get acknowledged (t, p) of Some previous \<Rightarrow> f \<le> previous | None \<Rightarrow> False)
      then (0, delivered_offs, acknowledged)
      else
        let acknowledged = hm_insert (t, p) f acknowledged in
        (case hm_get delivered_offs (t, p) of
           None \<Rightarrow> (0, delivered_offs, acknowledged)
         | Some offsets \<Rightarrow>
             (case scan_acknowledged f offsets of
                (inspected, rest) \<Rightarrow>
                  (inspected,
                   if rest = [] then hm_remove (t, p) delivered_offs
                   else hm_insert (t, p) rest delivered_offs,
                   acknowledged))))"

section \<open>Filtering a polled batch\<close>

text \<open>
  A mask has one entry per row of the batch it was computed from; reading past
  its end, which would panic, does not occur under that contract and reads as
  no match here.
\<close>

text \<open>
  The operations of a compiled filter and of the Arrow library: \<open>'b\<close> are
  record batches, \<open>'j\<close> parsed JSON values. A mask entry \<open>None\<close> is a null.
\<close>

record ('b, 'j) filter_ops =
  fo_is_unfiltered :: bool
  fo_matches_structured_json :: "bytes option \<Rightarrow> bool"
  fo_parse_json :: "bytes \<Rightarrow> string + 'j"
  fo_arrow_batches :: "bytes \<Rightarrow> (string + 'b list) option"
  fo_num_rows :: "'b \<Rightarrow> nat"
  fo_schema_key :: "'b \<Rightarrow> string"
  fo_concat_batches :: "'b list \<Rightarrow> string + 'b"
  fo_json_rows_to_batch :: "'j list \<Rightarrow> string + 'b"
  fo_evaluate :: "int option \<Rightarrow> 'b \<Rightarrow> string + bool option list"

definition datafusion :: "string \<Rightarrow> string" where
  "datafusion m = ''DataFusion subscription filter evaluation failed: '' @ m"

datatype decision = DeliverRecord decoded_consumer_record | FilterRecord decoded_consumer_record

record 'b arrow_ipc_record =
  ar_record :: decoded_consumer_record
  ar_batches :: "'b list"
  ar_row_count :: nat

record 'b arrow_group =
  ag_schema_key :: "string option"
  ag_records :: "'b arrow_ipc_record list"

record schema_json_group =
  sg_schema_id :: "int option"
  sg_records :: "decoded_consumer_record list"

definition empty_arrow_group :: "'b arrow_group" where
  "empty_arrow_group = \<lparr>ag_schema_key = None, ag_records = []\<rparr>"

definition empty_schema_group :: schema_json_group where
  "empty_schema_group = \<lparr>sg_schema_id = None, sg_records = []\<rparr>"

definition decide :: "bool \<Rightarrow> decoded_consumer_record \<Rightarrow> decision" where
  "decide b r = (if b then DeliverRecord r else FilterRecord r)"

definition structured_json_or_unframed_value ::
    "('b, 'j) filter_ops \<Rightarrow> decoded_consumer_record \<Rightarrow> bytes option" where
  "structured_json_or_unframed_value fo r =
     (case dr_json r of
        Some json \<Rightarrow> Some json
      | None \<Rightarrow> if is_ok (fo_parse_json fo (dr_value r)) then Some (dr_value r) else None)"

definition filter_json_fallback_record ::
    "('b, 'j) filter_ops \<Rightarrow> decoded_consumer_record \<Rightarrow> decision" where
  "filter_json_fallback_record fo r =
     decide (fo_is_unfiltered fo
             \<or> fo_matches_structured_json fo (structured_json_or_unframed_value fo r)) r"

definition schema_json_filter_schema_id :: "decoded_consumer_record \<Rightarrow> int option" where
  "schema_json_filter_schema_id r =
     (if dr_json r = None then None else map_option meta_id (dr_schema r))"

definition decode_arrow_ipc_record ::
    "('b, 'j) filter_ops \<Rightarrow> decoded_consumer_record \<Rightarrow> string + ('b list \<times> nat) option" where
  "decode_arrow_ipc_record fo r =
     (case fo_arrow_batches fo (dr_value r) of
        None \<Rightarrow> Ok None
      | Some (Err e) \<Rightarrow> Err (datafusion e)
      | Some (Ok batches) \<Rightarrow> Ok (Some (batches, sum_list (map (fo_num_rows fo) batches))))"

definition arrow_ipc_record_schema_key :: "('b, 'j) filter_ops \<Rightarrow> 'b list \<Rightarrow> string" where
  "arrow_ipc_record_schema_key fo batches =
     (case batches of [] \<Rightarrow> ''empty-arrow-ipc-stream'' | b # _ \<Rightarrow> fo_schema_key fo b)"

definition mask_true :: "bool option list \<Rightarrow> nat \<Rightarrow> bool" where
  "mask_true keep row = (row < length keep \<and> keep ! row = Some True)"

definition count_true_mask_values :: "bool option list \<Rightarrow> nat \<Rightarrow> nat \<Rightarrow> nat" where
  "count_true_mask_values keep start len = length (filter (mask_true keep) [start..<start + len])"

fun parse_rows :: "('b, 'j) filter_ops \<Rightarrow> decoded_consumer_record list \<Rightarrow> string + 'j list" where
  "parse_rows fo [] = Ok []"
| "parse_rows fo (r # rs) =
     and_then
       (case dr_json r of
          None \<Rightarrow> Err (datafusion ''schema-registry row bridge requires decoded JSON rows'')
        | Some json \<Rightarrow>
            map_err (\<lambda>e. datafusion (''schema-registry row bridge JSON decode failed: '' @ e))
              (fo_parse_json fo json))
       (\<lambda>j. and_then (parse_rows fo rs) (\<lambda>js. Ok (j # js)))"

definition filter_schema_json_group ::
    "('b, 'j) filter_ops \<Rightarrow> int option \<Rightarrow> decoded_consumer_record list \<Rightarrow> string + decision list" where
  "filter_schema_json_group fo schema_id rs =
     (if rs = [] then Ok []
      else
        and_then (parse_rows fo rs) (\<lambda>rows.
        and_then (map_err datafusion (fo_json_rows_to_batch fo rows)) (\<lambda>batch.
        and_then (fo_evaluate fo schema_id batch) (\<lambda>keep.
          if length keep \<noteq> length rs then
            Err (datafusion (''schema-registry row bridge produced '' @ show_nat (length keep)
                  @ '' filter rows for '' @ show_nat (length rs) @ '' records''))
          else Ok (map2 (\<lambda>row r. decide (mask_true keep row) r) [0..<length rs] rs)))))"

fun decide_arrow_rows :: "bool option list \<Rightarrow> nat \<Rightarrow> 'b arrow_ipc_record list \<Rightarrow> decision list" where
  "decide_arrow_rows keep row_offset [] = []"
| "decide_arrow_rows keep row_offset (r # rs) =
     decide (0 < count_true_mask_values keep row_offset (ar_row_count r)) (ar_record r)
       # decide_arrow_rows keep (row_offset + ar_row_count r) rs"

definition filter_arrow_ipc_group ::
    "('b, 'j) filter_ops \<Rightarrow> 'b arrow_ipc_record list \<Rightarrow> string + decision list" where
  "filter_arrow_ipc_group fo rs =
     (if rs = [] then Ok []
      else case concat (map ar_batches rs) of
        [] \<Rightarrow> Ok (map (\<lambda>r. FilterRecord (ar_record r)) rs)
      | b # bs \<Rightarrow>
          and_then (map_err datafusion (fo_concat_batches fo (b # bs))) (\<lambda>batch.
          and_then (fo_evaluate fo None batch) (\<lambda>keep.
            Ok (decide_arrow_rows keep 0 rs))))"

definition arrow_accepts :: "'b arrow_group \<Rightarrow> string \<Rightarrow> bool" where
  "arrow_accepts g k = (case ag_schema_key g of None \<Rightarrow> True | Some k' \<Rightarrow> k' = k)"

definition arrow_push :: "string \<Rightarrow> 'b arrow_ipc_record \<Rightarrow> 'b arrow_group \<Rightarrow> 'b arrow_group" where
  "arrow_push k r g =
     \<lparr>ag_schema_key = (case ag_schema_key g of None \<Rightarrow> Some k | Some k' \<Rightarrow> Some k'),
      ag_records = ag_records g @ [r]\<rparr>"

definition schema_accepts :: "schema_json_group \<Rightarrow> int \<Rightarrow> bool" where
  "schema_accepts g n = (case sg_schema_id g of None \<Rightarrow> True | Some m \<Rightarrow> m = n)"

definition schema_push :: "int \<Rightarrow> decoded_consumer_record \<Rightarrow> schema_json_group \<Rightarrow> schema_json_group" where
  "schema_push n r g =
     \<lparr>sg_schema_id = (case sg_schema_id g of None \<Rightarrow> Some n | Some m \<Rightarrow> Some m),
      sg_records = sg_records g @ [r]\<rparr>"

text \<open>
  The local state of the batch loop: the decisions so far and the two groups.
\<close>

record 'b batch_state =
  bs_decisions :: "decision list"
  bs_arrow :: "'b arrow_group"
  bs_schema :: schema_json_group

definition drain_arrow :: "('b, 'j) filter_ops \<Rightarrow> 'b batch_state \<Rightarrow> string + 'b batch_state" where
  "drain_arrow fo s =
     (if ag_records (bs_arrow s) = [] then Ok s
      else and_then (filter_arrow_ipc_group fo (ag_records (bs_arrow s))) (\<lambda>ds.
             Ok (s\<lparr>bs_decisions := bs_decisions s @ ds, bs_arrow := empty_arrow_group\<rparr>)))"

definition drain_schema :: "('b, 'j) filter_ops \<Rightarrow> 'b batch_state \<Rightarrow> string + 'b batch_state" where
  "drain_schema fo s =
     (if sg_records (bs_schema s) = [] then Ok s
      else and_then (filter_schema_json_group fo (sg_schema_id (bs_schema s)) (sg_records (bs_schema s))) (\<lambda>ds.
             Ok (s\<lparr>bs_decisions := bs_decisions s @ ds, bs_schema := empty_schema_group\<rparr>)))"

definition batch_step ::
    "('b, 'j) filter_ops \<Rightarrow> decoded_consumer_record \<Rightarrow> 'b batch_state \<Rightarrow> string + 'b batch_state" where
  "batch_step fo r s =
     and_then (decode_arrow_ipc_record fo r) (\<lambda>decoded.
       case decoded of
         None \<Rightarrow>
           and_then (drain_arrow fo s) (\<lambda>s.
             case schema_json_filter_schema_id r of
               Some n \<Rightarrow>
                 and_then (if schema_accepts (bs_schema s) n then Ok s else drain_schema fo s) (\<lambda>s.
                   Ok (s\<lparr>bs_schema := schema_push n r (bs_schema s)\<rparr>))
             | None \<Rightarrow>
                 and_then (drain_schema fo s) (\<lambda>s.
                   Ok (s\<lparr>bs_decisions := bs_decisions s @ [filter_json_fallback_record fo r]\<rparr>)))
       | Some (batches, row_count) \<Rightarrow>
           and_then (drain_schema fo s) (\<lambda>s.
             let k = arrow_ipc_record_schema_key fo batches in
             and_then (if arrow_accepts (bs_arrow s) k then Ok s else drain_arrow fo s) (\<lambda>s.
               Ok (s\<lparr>bs_arrow := arrow_push k
                       \<lparr>ar_record = r, ar_batches = batches, ar_row_count = row_count\<rparr> (bs_arrow s)\<rparr>))))"

fun batch_loop ::
    "('b, 'j) filter_ops \<Rightarrow> decoded_consumer_record list \<Rightarrow> 'b batch_state \<Rightarrow> string + 'b batch_state" where
  "batch_loop fo [] s = Ok s"
| "batch_loop fo (r # rs) s = and_then (batch_step fo r s) (batch_loop fo rs)"

definition filter_polled_records ::
    "('b, 'j) filter_ops \<Rightarrow> decoded_consumer_record list \<Rightarrow> string + decision list" where
  "filter_polled_records fo rs =
     and_then (batch_loop fo rs
                 \<lparr>bs_decisions = [], bs_arrow = empty_arrow_group, bs_schema = empty_schema_group\<rparr>) (\<lambda>s.
     and_then (drain_arrow fo s) (\<lambda>s.
     and_then (drain_schema fo s) (\<lambda>s.
       Ok (bs_decisions s))))"

section \<open>The subscription\<close>

text \<open>
  What a stream yields, and the broker's part of one iteration: the assignment
  and the answer to a commit.
\<close>

type_synonym yielded = "connect_error + inbound"

record broker_env =
  be_assignment :: "topic_partition list"
  be_commit_offsets :: "(topic_partition, int) hashmap \<Rightarrow> string + unit"
  be_commit_positions :: "string + unit"

datatype sub_event =
    FrameArrived subscribe_frame
  | FrameFailed connect_error
  | FramesClosed
  | Polled "gateway_error + decoded_consumer_record list"

record sub_state =
  su_session :: consume_session
  su_delivered :: delivered_offsets
  su_acknowledged :: "(topic_partition, int) hashmap"

definition inbound_from_decoded_record :: "decoded_consumer_record \<Rightarrow> inbound" where
  "inbound_from_decoded_record r =
     \<lparr>in_topic = dr_topic r, in_partition = dr_partition r, in_offset = dr_offset r, in_key = dr_key r,
      in_value = dr_raw_value r, in_headers = dr_headers r, in_timestamp_ms = dr_timestamp r,
      in_structured = dr_json r, in_schema = map_option schema_meta_to_pb (dr_schema r)\<rparr>"

text \<open>
  Opening: the first frame must be a start, the group and every topic must be
  readable, the filter must compile and the session must join.
\<close>

fun first_denied_topic :: "gateway_authz \<Rightarrow> principal \<Rightarrow> string \<Rightarrow> string list \<Rightarrow> string option" where
  "first_denied_topic a p host [] = None"
| "first_denied_topic a p host (t # ts) =
     (if authorize_resource a p host Topic t Read = Deny then Some t else first_denied_topic a p host ts)"

datatype 'f opened = Closed "yielded list" | Opened bool 'f sub_state

definition subscribe_open ::
    "gateway_authz \<Rightarrow> principal \<Rightarrow> string \<Rightarrow> (string \<Rightarrow> string + 'f) \<Rightarrow> gateway_error + unit \<Rightarrow>
     sub_event \<Rightarrow> 'f opened" where
  "subscribe_open a p host compile joined first =
     (case first of
        FrameArrived (FrameStart start) \<Rightarrow>
          if authorize_resource a p host Group (ss_group_id start) Read = Deny then
            Closed [Err (mk_error PermissionDenied (''Read Group:'' @ ss_group_id start))]
          else (case first_denied_topic a p host (ss_topics start) of
             Some t \<Rightarrow> Closed [Err (mk_error PermissionDenied (''Read Topic:'' @ t))]
           | None \<Rightarrow>
               (case compile (ss_filter start) of
                  Err e \<Rightarrow> Closed [Err (mk_error InvalidArgument e)]
                | Ok f \<Rightarrow>
                    (case joined of
                       Err e \<Rightarrow> Closed [Err (mk_error Internal (display_gateway_error e))]
                     | Ok _ \<Rightarrow> Opened (ss_auto_commit start) f
                         \<lparr>su_session = new_session, su_delivered = [], su_acknowledged = []\<rparr>)))
      | FrameArrived _ \<Rightarrow> Closed [Err (mk_error InvalidArgument ''first Subscribe frame must be Start'')]
      | FrameFailed e \<Rightarrow> Closed [Err e]
      | _ \<Rightarrow> Closed [])"

text \<open>
  The variables one iteration declares, as its \<open>select!\<close> leaves them.
\<close>

record iteration =
  it_yield :: "yielded list"
  it_commit :: bool
  it_client_ack :: "(string \<times> int \<times> int) option"
  it_deliveries :: "(string \<times> int \<times> int) list"
  it_filtered_acks :: "(string \<times> int \<times> int) list"
  it_frame_error :: "connect_error option"
  it_stop :: bool
  it_emit :: "inbound list"
  it_delivered :: delivered_offsets

definition new_iteration :: "delivered_offsets \<Rightarrow> iteration" where
  "new_iteration d =
     \<lparr>it_yield = [], it_commit = False, it_client_ack = None, it_deliveries = [], it_filtered_acks = [],
      it_frame_error = None, it_stop = False, it_emit = [], it_delivered = d\<rparr>"

definition delivered_insert :: "topic_partition \<Rightarrow> int \<Rightarrow> delivered_offsets \<Rightarrow> delivered_offsets" where
  "delivered_insert tp offset d =
     hm_insert tp (bset_insert offset (case hm_get d tp of Some s \<Rightarrow> s | None \<Rightarrow> [])) d"

definition record_coord :: "decoded_consumer_record \<Rightarrow> string \<times> int \<times> int" where
  "record_coord r = (dr_topic r, dr_partition r, dr_offset r)"

fun take_decision :: "bool \<Rightarrow> decision \<Rightarrow> iteration \<Rightarrow> iteration" where
  "take_decision auto_commit (FilterRecord r) i =
     (if auto_commit then i
      else i\<lparr>it_deliveries := it_deliveries i @ [record_coord r],
             it_filtered_acks := it_filtered_acks i @ [record_coord r]\<rparr>)"
| "take_decision auto_commit (DeliverRecord r) i =
     (let i = (if auto_commit then i
               else i\<lparr>it_deliveries := it_deliveries i @ [record_coord r],
                      it_delivered := delivered_insert (dr_topic r, dr_partition r) (dr_offset r) (it_delivered i)\<rparr>)
      in i\<lparr>it_emit := it_emit i @ [inbound_from_decoded_record r]\<rparr>)"

definition select_event ::
    "('b, 'j) filter_ops \<Rightarrow> bool \<Rightarrow> sub_event \<Rightarrow> sub_state \<Rightarrow> iteration" where
  "select_event fo auto_commit e s =
     (let i = new_iteration (su_delivered s) in
      case e of
        FrameArrived (FrameAck t p offset) \<Rightarrow>
          if auto_commit then i
          else (case validate_ack (su_delivered s) (su_acknowledged s) t p offset of
                  Ok True \<Rightarrow> i\<lparr>it_client_ack := Some (t, p, offset)\<rparr>
                | Ok False \<Rightarrow> i
                | Err m \<Rightarrow> i\<lparr>it_frame_error := Some (mk_error InvalidArgument m), it_stop := True\<rparr>)
      | FrameArrived _ \<Rightarrow> i
      | FrameFailed err \<Rightarrow> i\<lparr>it_yield := [Err err], it_stop := True\<rparr>
      | FramesClosed \<Rightarrow> i\<lparr>it_stop := True\<rparr>
      | Polled (Err err) \<Rightarrow>
          i\<lparr>it_yield := [Err (mk_error Internal (display_gateway_error err))], it_stop := True\<rparr>
      | Polled (Ok rs) \<Rightarrow>
          let (i, ds) = (case filter_polled_records fo rs of
                 Ok ds \<Rightarrow> (i, ds)
               | Err m \<Rightarrow> (i\<lparr>it_frame_error := Some (mk_error InvalidArgument m), it_stop := True\<rparr>, []));
              i = fold (take_decision auto_commit) ds i
          in if rs \<noteq> [] \<and> auto_commit then i\<lparr>it_commit := True\<rparr> else i)"

fun register_deliveries ::
    "(string \<times> int \<times> int) list \<Rightarrow> consume_session \<Rightarrow> connect_error option \<times> consume_session" where
  "register_deliveries [] s = (None, s)"
| "register_deliveries ((t, p, offset) # ds) s =
     (case session_record_delivery t p offset s of
        (Err e, s) \<Rightarrow> (Some (mk_error ResourceExhausted (display_gateway_error e)), s)
      | (Ok _, s) \<Rightarrow> register_deliveries ds s)"

fun apply_acks :: "(string \<times> int \<times> int) list \<Rightarrow> sub_state \<Rightarrow> connect_error option \<times> sub_state" where
  "apply_acks [] s = (None, s)"
| "apply_acks ((t, p, offset) # xs) s =
     (case session_record_ack t p offset (su_session s) of
        (Err e, ses) \<Rightarrow>
          (Some (mk_error ResourceExhausted (display_gateway_error e)), s\<lparr>su_session := ses\<rparr>)
      | (Ok _, ses) \<Rightarrow>
          let s = s\<lparr>su_session := ses\<rparr>;
              s = (case ack_frontier t p ses of
                     None \<Rightarrow> s
                   | Some f \<Rightarrow>
                       (case mark_acknowledged (su_delivered s) (su_acknowledged s) t p f of
                          (_, d, k) \<Rightarrow> s\<lparr>su_delivered := d, su_acknowledged := k\<rparr>))
          in apply_acks xs s)"

text \<open>
  One iteration: what it yields, the offsets the broker accepted in it, whether
  the loop goes on, and the state it leaves.
\<close>

record step_result =
  sr_yield :: "yielded list"
  sr_committed :: "(topic_partition, int) hashmap"
  sr_continue :: bool
  sr_state :: sub_state

definition subscribe_step ::
    "('b, 'j) filter_ops \<Rightarrow> bool \<Rightarrow> broker_env \<Rightarrow> sub_event \<Rightarrow> sub_state \<Rightarrow> step_result" where
  "subscribe_step fo auto_commit env e s =
     (let i = select_event fo auto_commit e s;
          s = s\<lparr>su_delivered := it_delivered i\<rparr>;
          (derr, ses) = (if auto_commit then (None, su_session s)
                         else register_deliveries (it_deliveries i) (su_session s));
          s = s\<lparr>su_session := ses\<rparr>;
          frame_error = (case derr of Some d \<Rightarrow> Some d | None \<Rightarrow> it_frame_error i)
      in case frame_error of
           Some err \<Rightarrow>
             \<lparr>sr_yield = it_yield i @ [Err err], sr_committed = [], sr_continue = False, sr_state = s\<rparr>
         | None \<Rightarrow>
             let ys = it_yield i @ map Ok (it_emit i);
                 acks = (if auto_commit then []
                         else it_filtered_acks i @ (case it_client_ack i of None \<Rightarrow> [] | Some x \<Rightarrow> [x]));
                 (aerr, s) = apply_acks acks s
             in case aerr of
                  Some err \<Rightarrow>
                    \<lparr>sr_yield = ys @ [Err err], sr_committed = [], sr_continue = False, sr_state = s\<rparr>
                | None \<Rightarrow>
                    let (r, offs, ses) =
                          (if it_commit i \<or> acks \<noteq> [] then
                             if auto_commit
                             then (commit_positions (\<lambda>_. be_commit_positions env) (su_session s), [], su_session s)
                             else commit_acked (be_assignment env) (be_commit_offsets env) (su_session s)
                           else (Ok (), [], su_session s));
                        s = s\<lparr>su_session := ses\<rparr>
                    in case r of
                         Err err \<Rightarrow>
                           \<lparr>sr_yield = ys @ [Err (mk_error Internal (display_gateway_error err))],
                            sr_committed = offs, sr_continue = False, sr_state = s\<rparr>
                       | Ok _ \<Rightarrow>
                           \<lparr>sr_yield = ys, sr_committed = offs, sr_continue = \<not> it_stop i, sr_state = s\<rparr>)"

text \<open>
  The loop over the events that arrive: all it yields, every accepted commit
  and the final state.
\<close>

fun subscribe_run ::
    "('b, 'j) filter_ops \<Rightarrow> bool \<Rightarrow> (broker_env \<times> sub_event) list \<Rightarrow> sub_state \<Rightarrow>
     yielded list \<times> (topic_partition \<times> int) list \<times> sub_state" where
  "subscribe_run fo auto_commit [] s = ([], [], s)"
| "subscribe_run fo auto_commit ((env, e) # es) s =
     (let r = subscribe_step fo auto_commit env e s in
      if sr_continue r
      then (case subscribe_run fo auto_commit es (sr_state r) of
              (ys, cs, s') \<Rightarrow> (sr_yield r @ ys, sr_committed r @ cs, s'))
      else (sr_yield r, sr_committed r, sr_state r))"

section \<open>A concrete filter\<close>

text \<open>
  An instance of the parameters for concrete runs: payloads that start with
  \<open>0xFF\<close> stand for Arrow streams of one batch whose rows are the other bytes,
  any other non-empty payload parses as JSON, and rows of at least three match.
\<close>

definition sample_filter :: "(nat list, nat) filter_ops" where
  "sample_filter =
     \<lparr>fo_is_unfiltered = False,
      fo_matches_structured_json = (\<lambda>j. j \<noteq> None),
      fo_parse_json = (\<lambda>b. if b = [] then Err ''empty'' else Ok (length b)),
      fo_arrow_batches = (\<lambda>v. if v \<noteq> [] \<and> hd v = 255 then Some (Ok [map unat (tl v)]) else None),
      fo_num_rows = length,
      fo_schema_key = (\<lambda>_. ''k''),
      fo_concat_batches = (\<lambda>bs. Ok (concat bs)),
      fo_json_rows_to_batch = (\<lambda>js. Ok js),
      fo_evaluate = (\<lambda>_ b. Ok (map (\<lambda>x. Some (3 \<le> x)) b))\<rparr>"

definition sample_record :: "string \<Rightarrow> int \<Rightarrow> bytes \<Rightarrow> decoded_consumer_record" where
  "sample_record t offset v =
     \<lparr>dr_topic = t, dr_partition = 0, dr_offset = offset, dr_timestamp = 0, dr_key = None,
      dr_raw_value = v, dr_value = v, dr_headers = [], dr_schema = None, dr_json = None\<rparr>"

section \<open>Properties of the bookkeeping\<close>

lemma scan_acknowledged_spec:
  "bset_ok xs \<Longrightarrow> scan_acknowledged f xs =
     (let gone = takeWhile (\<lambda>x. x \<le> f) xs; rest = filter (\<lambda>x. f < x) xs in
      (length gone + (if rest = [] then 0 else 1), rest))"
proof (induction xs)
  case (Cons x xs)
  have "f < x \<Longrightarrow> filter (\<lambda>x. f < x) xs = xs" using Cons.prems by (intro filter_True) auto
  thus ?case using Cons by (auto simp: Let_def not_less)
qed simp

text \<open>
  Marking a frontier forgets exactly the delivered offsets up to it, records the
  frontier, leaves other partitions alone, and inspects at most one offset more
  than it removes. A frontier that does not advance changes nothing.
\<close>

theorem mark_acknowledged_exact:
  assumes "hm_get d (t, p) = Some offsets" "bset_ok offsets"
    and "case hm_get k (t, p) of Some previous \<Rightarrow> previous < f | None \<Rightarrow> True"
  shows "case mark_acknowledged d k t p f of (inspected, d', k') \<Rightarrow>
           (case hm_get d' (t, p) of Some s \<Rightarrow> s | None \<Rightarrow> []) = filter (\<lambda>x. f < x) offsets
           \<and> hm_get d' (t, p) \<noteq> Some []
           \<and> hm_get k' (t, p) = Some f
           \<and> inspected \<le> length (filter (\<lambda>x. x \<le> f) offsets) + 1
           \<and> (\<forall>tp. tp \<noteq> (t, p) \<longrightarrow> hm_get d' tp = hm_get d tp \<and> hm_get k' tp = hm_get k tp)"
proof -
  have tw: "length (takeWhile (\<lambda>x. x \<le> f) offsets) \<le> length (filter (\<lambda>x. x \<le> f) offsets)"
    by (induction offsets) auto
  obtain n rest where scan: "scan_acknowledged f offsets = (n, rest)" by fastforce
  hence r: "rest = filter (\<lambda>x. f < x) offsets" and n: "n \<le> length (filter (\<lambda>x. x \<le> f) offsets) + 1"
    using scan_acknowledged_spec[OF assms(2), of f] tw by (auto simp: Let_def)
  have "mark_acknowledged d k t p f =
      (n, if rest = [] then hm_remove (t, p) d else hm_insert (t, p) rest d, hm_insert (t, p) f k)"
    using assms(1,3) scan by (auto simp: mark_acknowledged_def Let_def split: option.splits)
  thus ?thesis using r n by (auto split: option.split)
qed

theorem mark_acknowledged_exact_witness:
  "case mark_acknowledged [((''t'', 0), [3, 5, 9])] [] ''t'' 0 5 of (inspected, d', k') \<Rightarrow>
     hm_get d' (''t'', 0) = Some [9] \<and> hm_get k' (''t'', 0) = Some 5 \<and> inspected = 3"
proof -
  have m: "mark_acknowledged [((''t'', 0), [3, 5, 9])] [] ''t'' 0 5 =
      (3, [((''t'', 0), [9])], [((''t'', 0), 5)])"
    by (simp add: mark_acknowledged_def)
  show ?thesis
    using mark_acknowledged_exact[where d = "[((''t'', 0), [3, 5, 9])]" and t = "''t''" and p = 0
      and offsets = "[3, 5, 9]" and k = "[]" and f = 5] unfolding m by simp
qed

section \<open>Properties of the filter loop\<close>

fun decision_record :: "decision \<Rightarrow> decoded_consumer_record" where
  "decision_record (DeliverRecord r) = r"
| "decision_record (FilterRecord r) = r"

lemma decision_record_decide [simp]: "decision_record (decide b r) = r"
  by (simp add: decide_def)

lemma map_decide_rows: "map decision_record (map2 (\<lambda>x. decide (P x)) [0..<length rs] rs) = rs"
  by (rule nth_equalityI) simp_all

lemma filter_schema_json_group_records:
  "filter_schema_json_group fo n rs = Ok ds \<Longrightarrow> map decision_record ds = rs"
  by (auto simp: filter_schema_json_group_def and_then_Ok_iff map_decide_rows split: if_splits
      simp del: map_map)

lemma decide_arrow_rows_records: "map decision_record (decide_arrow_rows keep k rs) = map ar_record rs"
  by (induction rs arbitrary: k) auto

lemma filter_arrow_ipc_group_records:
  "filter_arrow_ipc_group fo rs = Ok ds \<Longrightarrow> map decision_record ds = map ar_record rs"
  by (auto simp: filter_arrow_ipc_group_def and_then_Ok_iff decide_arrow_rows_records
      split: if_splits list.splits)

definition batch_records :: "'b batch_state \<Rightarrow> decoded_consumer_record list" where
  "batch_records s =
     map decision_record (bs_decisions s) @ map ar_record (ag_records (bs_arrow s)) @ sg_records (bs_schema s)"

definition one_group :: "'b batch_state \<Rightarrow> bool" where
  "one_group s \<longleftrightarrow> ag_records (bs_arrow s) = [] \<or> sg_records (bs_schema s) = []"

lemma drain_arrow_records:
  "drain_arrow fo s = Ok s' \<Longrightarrow> one_group s \<Longrightarrow>
     batch_records s' = batch_records s \<and> ag_records (bs_arrow s') = [] \<and> bs_schema s' = bs_schema s"
  by (auto simp: drain_arrow_def and_then_Ok_iff batch_records_def one_group_def empty_arrow_group_def
      dest: filter_arrow_ipc_group_records split: if_splits)

lemma drain_schema_records:
  "drain_schema fo s = Ok s' \<Longrightarrow> one_group s \<Longrightarrow>
     batch_records s' = batch_records s \<and> sg_records (bs_schema s') = [] \<and> bs_arrow s' = bs_arrow s"
  by (auto simp: drain_schema_def and_then_Ok_iff batch_records_def one_group_def empty_schema_group_def
      dest: filter_schema_json_group_records split: if_splits)

lemma batch_records_push:
  "batch_records (s\<lparr>bs_schema := schema_push n r (bs_schema s)\<rparr>) = batch_records s @ [r]"
  "sg_records (bs_schema s) = [] \<Longrightarrow>
     batch_records (s\<lparr>bs_arrow := arrow_push k a (bs_arrow s)\<rparr>) = batch_records s @ [ar_record a]"
  "ag_records (bs_arrow s) = [] \<Longrightarrow> sg_records (bs_schema s) = [] \<Longrightarrow>
     batch_records (s\<lparr>bs_decisions := bs_decisions s @ [d]\<rparr>) = batch_records s @ [decision_record d]"
  by (simp_all add: batch_records_def schema_push_def arrow_push_def)

lemma batch_step_records:
  assumes "batch_step fo r s = Ok s'" "one_group s"
  shows "batch_records s' = batch_records s @ [r] \<and> one_group s'"
proof -
  obtain dec where dec: "decode_arrow_ipc_record fo r = Ok dec"
    using assms(1) by (auto simp: batch_step_def and_then_Ok_iff)
  show ?thesis
  proof (cases dec)
    case None
    obtain s1 where s1: "drain_arrow fo s = Ok s1"
      using assms(1) dec None by (auto simp: batch_step_def and_then_Ok_iff)
    note d1 = drain_arrow_records[OF s1 assms(2)]
    have og1: "one_group s1" using d1 by (simp add: one_group_def)
    show ?thesis
    proof (cases "schema_json_filter_schema_id r")
      case (Some n)
      obtain s2 where s2: "(if schema_accepts (bs_schema s1) n then Ok s1 else drain_schema fo s1) = Ok s2"
          "s' = s2\<lparr>bs_schema := schema_push n r (bs_schema s2)\<rparr>"
        using assms(1) dec None s1 Some by (auto simp: batch_step_def and_then_Ok_iff)
      have "batch_records s2 = batch_records s1 \<and> ag_records (bs_arrow s2) = []"
        using s2(1) d1 drain_schema_records[OF _ og1, of fo s2] by (auto split: if_splits)
      thus ?thesis using d1 s2(2) by (simp add: batch_records_push one_group_def)
    next
      case None2: None
      obtain s2 where s2: "drain_schema fo s1 = Ok s2"
          "s' = s2\<lparr>bs_decisions := bs_decisions s2 @ [filter_json_fallback_record fo r]\<rparr>"
        using assms(1) dec None s1 None2 by (auto simp: batch_step_def and_then_Ok_iff)
      show ?thesis using drain_schema_records[OF s2(1) og1] d1 s2(2)
        by (simp add: batch_records_push one_group_def filter_json_fallback_record_def)
    qed
  next
    case (Some br)
    obtain batches row_count where br: "br = (batches, row_count)" by fastforce
    let ?k = "arrow_ipc_record_schema_key fo batches"
    obtain s1 where s1: "drain_schema fo s = Ok s1"
      using assms(1) dec Some br by (auto simp: batch_step_def and_then_Ok_iff)
    note d1 = drain_schema_records[OF s1 assms(2)]
    have og1: "one_group s1" using d1 by (simp add: one_group_def)
    obtain s2 where s2: "(if arrow_accepts (bs_arrow s1) ?k then Ok s1 else drain_arrow fo s1) = Ok s2"
        "s' = s2\<lparr>bs_arrow := arrow_push ?k \<lparr>ar_record = r, ar_batches = batches, ar_row_count = row_count\<rparr>
                              (bs_arrow s2)\<rparr>"
      using assms(1) dec Some br s1 by (auto simp: batch_step_def and_then_Ok_iff Let_def)
    have "batch_records s2 = batch_records s1 \<and> sg_records (bs_schema s2) = []"
      using s2(1) d1 drain_arrow_records[OF _ og1, of fo s2] by (auto split: if_splits)
    thus ?thesis using d1 s2(2) by (simp add: batch_records_push one_group_def)
  qed
qed

lemma batch_loop_records:
  "batch_loop fo rs s = Ok s' \<Longrightarrow> one_group s \<Longrightarrow> batch_records s' = batch_records s @ rs \<and> one_group s'"
proof (induction rs arbitrary: s)
  case (Cons r rs)
  then obtain s1 where "batch_step fo r s = Ok s1" "batch_loop fo rs s1 = Ok s'"
    by (auto simp: and_then_Ok_iff)
  thus ?case using Cons.IH[of s1] batch_step_records[of fo r s s1] Cons.prems(2) by simp
qed simp

lemma filter_keeps_order:
  fixes fo :: "('b, 'j) filter_ops"
  assumes "filter_polled_records fo rs = Ok ds"
  shows "map decision_record ds = rs"
proof -
  let ?s0 = "\<lparr>bs_decisions = [], bs_arrow = empty_arrow_group, bs_schema = empty_schema_group\<rparr> :: 'b batch_state"
  obtain s1 s2 s3 where s: "batch_loop fo rs ?s0 = Ok s1" "drain_arrow fo s1 = Ok s2"
      "drain_schema fo s2 = Ok s3" "ds = bs_decisions s3"
    using assms by (auto simp: filter_polled_records_def and_then_Ok_iff)
  have "one_group ?s0" "batch_records ?s0 = []"
    by (simp_all add: one_group_def batch_records_def empty_arrow_group_def empty_schema_group_def)
  hence 1: "batch_records s1 = rs" "one_group s1" using batch_loop_records[OF s(1)] by simp_all
  hence 2: "batch_records s2 = rs" "one_group s2" "ag_records (bs_arrow s2) = []"
    using drain_arrow_records[OF s(2)] by (simp_all add: one_group_def)
  have "batch_records s3 = rs" "sg_records (bs_schema s3) = []" "ag_records (bs_arrow s3) = []"
    using drain_schema_records[OF s(3) 2(2)] 2 by simp_all
  thus ?thesis using s(4) by (simp add: batch_records_def)
qed

text \<open>
  Filtering decides every polled record exactly once and in poll order, whatever
  mixture of Arrow, schema-bound and plain payloads the batch holds and however
  they were grouped.
\<close>

theorem filter_polled_records_order:
  fixes fo :: "('b, 'j) filter_ops"
  assumes "filter_polled_records fo rs = Ok ds"
  shows "map decision_record ds = rs"
  by (rule filter_keeps_order[OF assms])

lemmas sample_defs = sample_filter_def sample_record_def filter_polled_records_def batch_step_def
  decode_arrow_ipc_record_def drain_arrow_def drain_schema_def schema_json_filter_schema_id_def
  filter_json_fallback_record_def structured_json_or_unframed_value_def decide_def
  empty_arrow_group_def empty_schema_group_def arrow_ipc_record_schema_key_def arrow_accepts_def
  arrow_push_def filter_arrow_ipc_group_def count_true_mask_values_def mask_true_def

theorem filter_polled_records_order_witness:
  "map decision_record [FilterRecord (sample_record ''t'' 4 []), DeliverRecord (sample_record ''t'' 5 [7])]
     = [sample_record ''t'' 4 [], sample_record ''t'' 5 [7]]"
  by (rule filter_polled_records_order[of sample_filter]) (simp add: sample_defs)

section \<open>Grouping is only an optimisation\<close>

text \<open>
  Row-wise evaluation, which Arrow and DataFusion document: a batch is a list of
  rows, concatenating batches of one schema concatenates their rows, the JSON
  bridge makes one row per value, and a predicate is evaluated on each row by
  itself.
\<close>

definition rowwise ::
    "('b, 'j) filter_ops \<Rightarrow> ('b \<Rightarrow> 'r list) \<Rightarrow> ('j \<Rightarrow> 'r) \<Rightarrow> (int option \<Rightarrow> 'r \<Rightarrow> bool option) \<Rightarrow> bool" where
  "rowwise fo rows row_of pred \<longleftrightarrow>
     (\<forall>b. fo_num_rows fo b = length (rows b))
     \<and> (\<forall>bs k. bs \<noteq> [] \<and> (\<forall>b\<in>set bs. fo_schema_key fo b = k) \<longrightarrow>
            (\<exists>b. fo_concat_batches fo bs = Ok b \<and> rows b = concat (map rows bs)))
     \<and> (\<forall>js. \<exists>b. fo_json_rows_to_batch fo js = Ok b \<and> rows b = map row_of js)
     \<and> (\<forall>n b. fo_evaluate fo n b = Ok (map (pred n) (rows b)))"

text \<open>
  A record the filter can read: an Arrow payload decodes to batches of one
  schema, and the JSON view of a schema-bound record parses.
\<close>

definition readable :: "('b, 'j) filter_ops \<Rightarrow> decoded_consumer_record \<Rightarrow> bool" where
  "readable fo r \<longleftrightarrow>
     (case fo_arrow_batches fo (dr_value r) of
        Some (Err e) \<Rightarrow> False
      | Some (Ok bs) \<Rightarrow> \<forall>b\<in>set bs. fo_schema_key fo b = arrow_ipc_record_schema_key fo bs
      | None \<Rightarrow> (case dr_json r of
                   Some j \<Rightarrow> dr_schema r \<noteq> None \<longrightarrow> is_ok (fo_parse_json fo j)
                 | None \<Rightarrow> True))"

text \<open>The decision for a record on its own.\<close>

definition decide_alone ::
    "('b, 'j) filter_ops \<Rightarrow> ('b \<Rightarrow> 'r list) \<Rightarrow> ('j \<Rightarrow> 'r) \<Rightarrow> (int option \<Rightarrow> 'r \<Rightarrow> bool option) \<Rightarrow>
     decoded_consumer_record \<Rightarrow> decision" where
  "decide_alone fo rows row_of pred r =
     (case fo_arrow_batches fo (dr_value r) of
        Some (Ok bs) \<Rightarrow> decide (\<exists>x\<in>set (concat (map rows bs)). pred None x = Some True) r
      | _ \<Rightarrow>
          (case (dr_json r, dr_schema r) of
             (Some j, Some m) \<Rightarrow>
               (case fo_parse_json fo j of
                  Ok v \<Rightarrow> decide (pred (Some (meta_id m)) (row_of v) = Some True) r
                | Err _ \<Rightarrow> FilterRecord r)
           | _ \<Rightarrow> filter_json_fallback_record fo r))"

lemma count_true_pos:
  assumes "a + n \<le> length keep"
  shows "0 < count_true_mask_values keep a n \<longleftrightarrow> Some True \<in> set (take n (drop a keep))"
proof -
  have "0 < count_true_mask_values keep a n \<longleftrightarrow> (\<exists>i\<in>{a..<a + n}. mask_true keep i)"
    by (auto simp: count_true_mask_values_def length_greater_0_conv filter_empty_conv)
  also have "\<dots> \<longleftrightarrow> (\<exists>i<n. keep ! (a + i) = Some True)"
    using assms by (force simp: mask_true_def intro: bexI[of _ "a + _"] dest: le_Suc_ex)
  also have "\<dots> \<longleftrightarrow> Some True \<in> set (take n (drop a keep))"
    using assms by (force simp: in_set_conv_nth)
  finally show ?thesis .
qed

text \<open>
  The arrow group as its records describe it: every member decodes to the
  batches it holds, counts their rows, and has the group's schema key.
\<close>

definition arrow_member :: "('b, 'j) filter_ops \<Rightarrow> string option \<Rightarrow> 'b arrow_ipc_record \<Rightarrow> bool" where
  "arrow_member fo k a \<longleftrightarrow>
     fo_arrow_batches fo (dr_value (ar_record a)) = Some (Ok (ar_batches a))
     \<and> ar_row_count a = sum_list (map (fo_num_rows fo) (ar_batches a))
     \<and> (\<forall>b\<in>set (ar_batches a). Some (fo_schema_key fo b) = k)"

definition schema_member :: "('b, 'j) filter_ops \<Rightarrow> int option \<Rightarrow> decoded_consumer_record \<Rightarrow> bool" where
  "schema_member fo n r \<longleftrightarrow>
     fo_arrow_batches fo (dr_value r) = None
     \<and> (\<exists>j m v. dr_json r = Some j \<and> dr_schema r = Some m \<and> n = Some (meta_id m) \<and> fo_parse_json fo j = Ok v)"

lemma decide_arrow_rows_alone:
  assumes rw: "rowwise fo rows row_of pred"
    and mem: "\<forall>a\<in>set rs. arrow_member fo k a"
    and keep: "drop n keep = map (pred None) (concat (map rows (concat (map ar_batches rs))))" "n \<le> length keep"
  shows "decide_arrow_rows keep n rs = map (\<lambda>a. decide_alone fo rows row_of pred (ar_record a)) rs"
  using mem keep
proof (induction rs arbitrary: n)
  case (Cons a rs)
  let ?here = "concat (map rows (ar_batches a))"
  have "fo_num_rows fo = (\<lambda>b. length (rows b))" using rw by (auto simp: rowwise_def)
  hence cnt: "ar_row_count a = length ?here"
    using Cons.prems(1) by (simp add: arrow_member_def length_concat comp_def)
  have split: "drop n keep = map (pred None) ?here @
      map (pred None) (concat (map rows (concat (map ar_batches rs))))"
    using Cons.prems(2) by simp
  have len: "n + length ?here \<le> length keep"
    using arg_cong[OF split, of length] Cons.prems(3) by simp
  have tk: "take (length ?here) (drop n keep) = map (pred None) ?here" unfolding split by simp
  have dr: "drop (n + length ?here) keep = map (pred None) (concat (map rows (concat (map ar_batches rs))))"
    using split by (metis append_eq_conv_conj drop_drop add.commute length_map)
  have "0 < count_true_mask_values keep n (ar_row_count a) \<longleftrightarrow> (\<exists>x\<in>set ?here. pred None x = Some True)"
    unfolding cnt count_true_pos[OF len] tk by (force simp: image_iff)
  thus ?case
    using Cons.IH[of "n + length ?here"] Cons.prems(1) dr len cnt
    by (simp add: decide_alone_def arrow_member_def)
qed simp

lemma filter_arrow_group_alone:
  assumes rw: "rowwise fo rows row_of pred" and mem: "\<forall>a\<in>set rs. arrow_member fo k a"
  shows "filter_arrow_ipc_group fo rs = Ok (map (\<lambda>a. decide_alone fo rows row_of pred (ar_record a)) rs)"
proof (cases "concat (map ar_batches rs)")
  case Nil
  have "decide_alone fo rows row_of pred (ar_record a) = FilterRecord (ar_record a)" if "a \<in> set rs" for a
    using that mem Nil by (auto simp: decide_alone_def arrow_member_def decide_def)
  thus ?thesis unfolding filter_arrow_ipc_group_def Nil by simp
next
  case (Cons b bs)
  hence "\<forall>c\<in>set (b # bs). Some (fo_schema_key fo c) = k"
    using mem unfolding Cons[symmetric] by (auto simp: arrow_member_def)
  then obtain k' where "\<forall>c\<in>set (b # bs). fo_schema_key fo c = k'" by (cases k) auto
  then obtain batch where batch: "fo_concat_batches fo (b # bs) = Ok batch"
      "rows batch = concat (map rows (b # bs))"
    using rw unfolding rowwise_def by (meson list.discI)
  have ev: "fo_evaluate fo None batch = Ok (map (pred None) (rows batch))" using rw by (simp add: rowwise_def)
  have "decide_arrow_rows (map (pred None) (rows batch)) 0 rs
      = map (\<lambda>a. decide_alone fo rows row_of pred (ar_record a)) rs"
    by (rule decide_arrow_rows_alone[OF rw mem]) (simp_all add: batch(2) Cons[symmetric])
  moreover have "rs \<noteq> []" using Cons by auto
  ultimately show ?thesis using Cons batch(1) ev by (simp add: filter_arrow_ipc_group_def)
qed

lemma parse_rows_members:
  "\<forall>r\<in>set rs. schema_member fo n r \<Longrightarrow>
     \<exists>js. parse_rows fo rs = Ok js
       \<and> list_all2 (\<lambda>r v. \<exists>j. dr_json r = Some j \<and> fo_parse_json fo j = Ok v) rs js"
proof (induction rs)
  case (Cons r rs)
  then obtain js where js: "parse_rows fo rs = Ok js"
      "list_all2 (\<lambda>r v. \<exists>j. dr_json r = Some j \<and> fo_parse_json fo j = Ok v) rs js" by auto
  obtain j v where "dr_json r = Some j" "fo_parse_json fo j = Ok v"
    using Cons.prems by (auto simp: schema_member_def)
  thus ?case using js by (intro exI[of _ "v # js"]) simp
qed simp

lemma filter_schema_group_alone:
  assumes rw: "rowwise fo rows row_of pred" and mem: "\<forall>r\<in>set rs. schema_member fo n r"
  shows "filter_schema_json_group fo n rs = Ok (map (decide_alone fo rows row_of pred) rs)"
proof (cases "rs = []")
  case False
  obtain js where js: "parse_rows fo rs = Ok js"
      "list_all2 (\<lambda>r v. \<exists>j. dr_json r = Some j \<and> fo_parse_json fo j = Ok v) rs js"
    using parse_rows_members[OF mem] by blast
  obtain batch where batch: "fo_json_rows_to_batch fo js = Ok batch" "rows batch = map row_of js"
    using rw unfolding rowwise_def by blast
  let ?keep = "map (pred n) (map row_of js)"
  have ev: "fo_evaluate fo n batch = Ok ?keep" using rw batch(2) by (simp add: rowwise_def)
  have len: "length js = length rs" using js(2) by (simp add: list_all2_lengthD)
  have "map2 (\<lambda>row r. decide (mask_true ?keep row) r) [0..<length rs] rs
      = map (decide_alone fo rows row_of pred) rs"
  proof (rule nth_equalityI)
    fix i assume "i < length (map2 (\<lambda>row r. decide (mask_true ?keep row) r) [0..<length rs] rs)"
    hence i: "i < length rs" by simp
    obtain j where j: "dr_json (rs ! i) = Some j" "fo_parse_json fo j = Ok (js ! i)"
      using list_all2_nthD[OF js(2) i] by blast
    obtain m where m: "dr_schema (rs ! i) = Some m" "n = Some (meta_id m)"
        "fo_arrow_batches fo (dr_value (rs ! i)) = None"
      using mem i by (auto simp: schema_member_def dest!: nth_mem)
    show "map2 (\<lambda>row r. decide (mask_true ?keep row) r) [0..<length rs] rs ! i
        = map (decide_alone fo rows row_of pred) rs ! i"
      using i len j m by (simp add: decide_alone_def mask_true_def)
  qed simp
  thus ?thesis using False js(1) batch(1) ev len by (simp add: filter_schema_json_group_def)
qed (simp add: filter_schema_json_group_def)

definition groups_ok :: "('b, 'j) filter_ops \<Rightarrow> 'b batch_state \<Rightarrow> bool" where
  "groups_ok fo s \<longleftrightarrow>
     (\<forall>a\<in>set (ag_records (bs_arrow s)). arrow_member fo (ag_schema_key (bs_arrow s)) a)
     \<and> (\<forall>r\<in>set (sg_records (bs_schema s)). schema_member fo (sg_schema_id (bs_schema s)) r)
     \<and> one_group s
     \<and> (ag_records (bs_arrow s) = [] \<longleftrightarrow> ag_schema_key (bs_arrow s) = None)
     \<and> (sg_records (bs_schema s) = [] \<longleftrightarrow> sg_schema_id (bs_schema s) = None)"

definition pending_decisions ::
    "('b, 'j) filter_ops \<Rightarrow> ('b \<Rightarrow> 'r list) \<Rightarrow> ('j \<Rightarrow> 'r) \<Rightarrow> (int option \<Rightarrow> 'r \<Rightarrow> bool option) \<Rightarrow>
     'b batch_state \<Rightarrow> decision list" where
  "pending_decisions fo rows row_of pred s =
     bs_decisions s @ map (decide_alone fo rows row_of pred)
       (map ar_record (ag_records (bs_arrow s)) @ sg_records (bs_schema s))"

lemma drain_arrow_alone:
  assumes "rowwise fo rows row_of pred" "groups_ok fo s"
  shows "\<exists>s'. drain_arrow fo s = Ok s' \<and> groups_ok fo s' \<and> ag_records (bs_arrow s') = []
     \<and> bs_schema s' = bs_schema s
     \<and> pending_decisions fo rows row_of pred s' = pending_decisions fo rows row_of pred s"
proof (cases "ag_records (bs_arrow s) = []")
  case False
  have "filter_arrow_ipc_group fo (ag_records (bs_arrow s))
      = Ok (map (\<lambda>a. decide_alone fo rows row_of pred (ar_record a)) (ag_records (bs_arrow s)))"
    using assms by (intro filter_arrow_group_alone) (auto simp: groups_ok_def)
  thus ?thesis using False assms(2)
    by (auto simp: drain_arrow_def groups_ok_def pending_decisions_def one_group_def empty_arrow_group_def)
qed (use assms(2) in \<open>auto simp: drain_arrow_def\<close>)

lemma drain_schema_alone:
  assumes "rowwise fo rows row_of pred" "groups_ok fo s"
  shows "\<exists>s'. drain_schema fo s = Ok s' \<and> groups_ok fo s' \<and> sg_records (bs_schema s') = []
     \<and> bs_arrow s' = bs_arrow s
     \<and> pending_decisions fo rows row_of pred s' = pending_decisions fo rows row_of pred s"
proof (cases "sg_records (bs_schema s) = []")
  case False
  have "filter_schema_json_group fo (sg_schema_id (bs_schema s)) (sg_records (bs_schema s))
      = Ok (map (decide_alone fo rows row_of pred) (sg_records (bs_schema s)))"
    using assms by (intro filter_schema_group_alone) (auto simp: groups_ok_def)
  thus ?thesis using False assms(2)
    by (auto simp: drain_schema_def groups_ok_def pending_decisions_def one_group_def empty_schema_group_def)
qed (use assms(2) in \<open>auto simp: drain_schema_def\<close>)

lemma batch_step_alone:
  assumes rw: "rowwise fo rows row_of pred" and ok: "groups_ok fo s" and rd: "readable fo r"
  shows "\<exists>s'. batch_step fo r s = Ok s' \<and> groups_ok fo s'
     \<and> pending_decisions fo rows row_of pred s' = pending_decisions fo rows row_of pred s @ [decide_alone fo rows row_of pred r]"
proof (cases "fo_arrow_batches fo (dr_value r)")
  case None
  obtain s1 where s1: "drain_arrow fo s = Ok s1" "groups_ok fo s1" "ag_records (bs_arrow s1) = []"
      "pending_decisions fo rows row_of pred s1 = pending_decisions fo rows row_of pred s"
    using drain_arrow_alone[OF rw ok] by blast
  obtain s2 where s2: "drain_schema fo s1 = Ok s2" "groups_ok fo s2" "sg_records (bs_schema s2) = []"
      "bs_arrow s2 = bs_arrow s1"
      "pending_decisions fo rows row_of pred s2 = pending_decisions fo rows row_of pred s"
    using drain_schema_alone[OF rw s1(2)] s1(4) by metis
  have dec: "decode_arrow_ipc_record fo r = Ok None" using None by (simp add: decode_arrow_ipc_record_def)
  show ?thesis
  proof (cases "schema_json_filter_schema_id r")
    case n: None
    have "decide_alone fo rows row_of pred r = filter_json_fallback_record fo r"
      using None n by (auto simp: decide_alone_def schema_json_filter_schema_id_def split: if_splits option.splits)
    thus ?thesis using s1 s2 dec n
      by (auto simp: batch_step_def groups_ok_def pending_decisions_def one_group_def)
  next
    case (Some n)
    hence mem: "schema_member fo (Some n) r" using None rd
      by (auto simp: schema_member_def readable_def schema_json_filter_schema_id_def is_ok_def
          split: if_splits sum.splits)
    define s3 where "s3 = (if schema_accepts (bs_schema s1) n then s1 else s2)"
    have s3: "(if schema_accepts (bs_schema s1) n then Ok s1 else drain_schema fo s1) = Ok s3"
      "groups_ok fo s3" "ag_records (bs_arrow s3) = []" "schema_accepts (bs_schema s3) n"
      "pending_decisions fo rows row_of pred s3 = pending_decisions fo rows row_of pred s"
      using s1 s2 by (auto simp: s3_def schema_accepts_def groups_ok_def)
    let ?s = "s3\<lparr>bs_schema := schema_push n r (bs_schema s3)\<rparr>"
    have "batch_step fo r s = Ok ?s" using dec s1(1) Some s3(1) by (simp add: batch_step_def)
    moreover have "groups_ok fo ?s"
      using s3(2,3,4) mem
      by (auto simp: groups_ok_def schema_push_def schema_accepts_def one_group_def split: option.splits)
    moreover have "pending_decisions fo rows row_of pred ?s
        = pending_decisions fo rows row_of pred s3 @ [decide_alone fo rows row_of pred r]"
      by (simp add: pending_decisions_def schema_push_def)
    ultimately show ?thesis using s3(5) by simp
  qed
next
  case (Some dec)
  then obtain bs where bs: "fo_arrow_batches fo (dr_value r) = Some (Ok bs)"
      "\<forall>b\<in>set bs. fo_schema_key fo b = arrow_ipc_record_schema_key fo bs"
    using rd by (auto simp: readable_def split: sum.splits)
  let ?k = "arrow_ipc_record_schema_key fo bs"
  let ?a = "\<lparr>ar_record = r, ar_batches = bs, ar_row_count = sum_list (map (fo_num_rows fo) bs)\<rparr>"
  have mem: "arrow_member fo (Some ?k) ?a"
    using bs by (auto simp: arrow_member_def)
  obtain s1 where s1: "drain_schema fo s = Ok s1" "groups_ok fo s1" "sg_records (bs_schema s1) = []"
      "pending_decisions fo rows row_of pred s1 = pending_decisions fo rows row_of pred s"
    using drain_schema_alone[OF rw ok] by blast
  obtain s2 where s2: "drain_arrow fo s1 = Ok s2" "groups_ok fo s2" "ag_records (bs_arrow s2) = []"
      "bs_schema s2 = bs_schema s1"
      "pending_decisions fo rows row_of pred s2 = pending_decisions fo rows row_of pred s"
    using drain_arrow_alone[OF rw s1(2)] s1(4) by metis
  define s3 where "s3 = (if arrow_accepts (bs_arrow s1) ?k then s1 else s2)"
  have s3: "(if arrow_accepts (bs_arrow s1) ?k then Ok s1 else drain_arrow fo s1) = Ok s3"
    "groups_ok fo s3" "sg_records (bs_schema s3) = []" "arrow_accepts (bs_arrow s3) ?k"
    "pending_decisions fo rows row_of pred s3 = pending_decisions fo rows row_of pred s"
    using s1 s2 by (auto simp: s3_def arrow_accepts_def groups_ok_def)
  let ?s = "s3\<lparr>bs_arrow := arrow_push ?k ?a (bs_arrow s3)\<rparr>"
  have "batch_step fo r s = Ok ?s"
    using bs(1) s1(1) s3(1) by (simp add: batch_step_def decode_arrow_ipc_record_def Let_def)
  moreover have "groups_ok fo ?s"
    using s3(2,3,4) mem
    by (auto simp: groups_ok_def arrow_push_def arrow_accepts_def one_group_def split: option.splits)
  moreover have "pending_decisions fo rows row_of pred ?s
      = pending_decisions fo rows row_of pred s3 @ [decide_alone fo rows row_of pred r]"
    using s3(3) by (simp add: pending_decisions_def arrow_push_def)
  ultimately show ?thesis using s3(5) by simp
qed

lemma batch_loop_alone:
  assumes "rowwise fo rows row_of pred"
  shows "groups_ok fo s \<Longrightarrow> \<forall>r\<in>set rs. readable fo r \<Longrightarrow>
    \<exists>s'. batch_loop fo rs s = Ok s' \<and> groups_ok fo s'
     \<and> pending_decisions fo rows row_of pred s'
         = pending_decisions fo rows row_of pred s @ map (decide_alone fo rows row_of pred) rs"
proof (induction rs arbitrary: s)
  case (Cons r rs)
  obtain s1 where s1: "batch_step fo r s = Ok s1" "groups_ok fo s1"
      "pending_decisions fo rows row_of pred s1
         = pending_decisions fo rows row_of pred s @ [decide_alone fo rows row_of pred r]"
    using batch_step_alone[OF assms Cons.prems(1), of r] Cons.prems(2) by auto
  show ?case using Cons.IH[OF s1(2)] Cons.prems(2) s1 by auto
qed simp

lemma filter_alone_holds:
  fixes fo :: "('b, 'j) filter_ops"
  assumes "rowwise fo rows row_of pred" "\<forall>r\<in>set rs. readable fo r"
  shows "filter_polled_records fo rs = Ok (map (decide_alone fo rows row_of pred) rs)"
proof -
  let ?s0 = "\<lparr>bs_decisions = [], bs_arrow = empty_arrow_group, bs_schema = empty_schema_group\<rparr> :: 'b batch_state"
  let ?D = "pending_decisions fo rows row_of pred"
  have s0: "groups_ok fo ?s0" "?D ?s0 = []"
    by (simp_all add: groups_ok_def one_group_def pending_decisions_def empty_arrow_group_def empty_schema_group_def)
  obtain s1 where s1: "batch_loop fo rs ?s0 = Ok s1" "groups_ok fo s1"
      "?D s1 = map (decide_alone fo rows row_of pred) rs"
    using batch_loop_alone[OF assms(1) s0(1) assms(2)] s0(2) by auto
  obtain s2 where s2: "drain_arrow fo s1 = Ok s2" "groups_ok fo s2" "ag_records (bs_arrow s2) = []" "?D s2 = ?D s1"
    using drain_arrow_alone[OF assms(1) s1(2)] by blast
  obtain s3 where s3: "drain_schema fo s2 = Ok s3" "sg_records (bs_schema s3) = []"
      "bs_arrow s3 = bs_arrow s2" "?D s3 = ?D s2"
    using drain_schema_alone[OF assms(1) s2(2)] by blast
  have "bs_decisions s3 = map (decide_alone fo rows row_of pred) rs"
    using s1(3) s2(3,4) s3(2-4) by (simp add: pending_decisions_def)
  thus ?thesis using s1(1) s2(1) s3(1) by (simp add: filter_polled_records_def)
qed


lemma sample_rowwise: "rowwise sample_filter id id (\<lambda>_ x. Some (3 \<le> x))"
  by (simp add: rowwise_def sample_filter_def)


text \<open>
  Opening: a stream that opens was authorized to read its group and every one
  of its topics, and its filter compiled; nothing is polled before that.
\<close>

theorem subscribe_open_authorized:
  assumes "subscribe_open a p host compile joined (FrameArrived (FrameStart start)) = Opened ac f s"
  shows "authorize_resource a p host Group (ss_group_id start) Read = Allow
    \<and> (\<forall>t\<in>set (ss_topics start). authorize_resource a p host Topic t Read = Allow)
    \<and> compile (ss_filter start) = Ok f \<and> ac = ss_auto_commit start
    \<and> su_delivered s = [] \<and> su_acknowledged s = [] \<and> su_session s = new_session"
proof -
  have deny: "r \<noteq> Deny \<longleftrightarrow> r = Allow" for r by (cases r) auto
  have none: "first_denied_topic a p host ts = None \<longleftrightarrow>
      (\<forall>t\<in>set ts. authorize_resource a p host Topic t Read = Allow)" for ts
    by (induction ts) (auto simp: deny[symmetric])
  show ?thesis using assms
    by (auto simp: subscribe_open_def deny none split: if_splits option.splits sum.splits)
qed

theorem subscribe_open_authorized_witness:
  "authorize_resource \<lparr>ga_authorizer = \<lambda>_ _. Allow, ga_cache = []\<rparr> anonymous ''h'' Group ''g'' Read = Allow"
  using subscribe_open_authorized[where a = "\<lparr>ga_authorizer = \<lambda>_ _. Allow, ga_cache = []\<rparr>" and p = anonymous
      and host = "''h''" and compile = Ok and joined = "Ok ()" and ac = True and f = "[]"
      and start = "\<lparr>ss_group_id = ''g'', ss_topics = [''t''], ss_auto_commit = True, ss_filter = []\<rparr>"
      and s = "\<lparr>su_session = new_session, su_delivered = [], su_acknowledged = []\<rparr>"]
  by (simp add: subscribe_open_def authorize_resource_def)

end
