(* ===== verification/Gw_Delivery.thy ===== *)
theory Gw_Delivery
  imports Gw_Streaming
begin

text \<open>
  At-least-once delivery of an explicitly acknowledged subscription: what the
  loop of \<open>subscribe_inner\<close> commits, related to what it polled, filtered and
  was acknowledged, for a partition that stays assigned; and what happens to a
  partition that is revoked and assigned again.
\<close>

section \<open>Histories\<close>

definition offsets_at :: "topic_partition \<Rightarrow> (string \<times> int \<times> int) list \<Rightarrow> int list" where
  "offsets_at tp cs = map (\<lambda>(t, p, x). x) (filter (\<lambda>(t, p, x). (t, p) = tp) cs)"

fun polled_in :: "topic_partition \<Rightarrow> sub_event \<Rightarrow> int list" where
  "polled_in tp (Polled (Ok rs)) = offsets_at tp (map record_coord rs)"
| "polled_in tp _ = []"

definition filtered_coords :: "decision list \<Rightarrow> (string \<times> int \<times> int) list" where
  "filtered_coords ds =
     concat (map (\<lambda>d. case d of FilterRecord r \<Rightarrow> [record_coord r] | DeliverRecord _ \<Rightarrow> []) ds)"

definition delivered_coords :: "decision list \<Rightarrow> (string \<times> int \<times> int) list" where
  "delivered_coords ds =
     concat (map (\<lambda>d. case d of FilterRecord r \<Rightarrow> [] | DeliverRecord r \<Rightarrow> [record_coord r]) ds)"

text \<open>The offsets an event settles: the client's acknowledgement, or the records filtered out.\<close>

fun settled_in :: "('b, 'j) filter_ops \<Rightarrow> topic_partition \<Rightarrow> sub_event \<Rightarrow> int list" where
  "settled_in fo tp (FrameArrived (FrameAck t p x)) = (if (t, p) = tp then [x] else [])"
| "settled_in fo tp (Polled (Ok rs)) =
     (case filter_polled_records fo rs of
        Ok ds \<Rightarrow> offsets_at tp (filtered_coords ds) | Err _ \<Rightarrow> [])"
| "settled_in fo tp _ = []"

definition polled_at :: "topic_partition \<Rightarrow> (broker_env \<times> sub_event) list \<Rightarrow> int list" where
  "polled_at tp es = concat (map (\<lambda>(env, e). polled_in tp e) es)"

definition settled_at :: "('b, 'j) filter_ops \<Rightarrow> topic_partition \<Rightarrow> (broker_env \<times> sub_event) list \<Rightarrow> int list" where
  "settled_at fo tp es = concat (map (\<lambda>(env, e). settled_in fo tp e) es)"

definition initial_sub :: sub_state where
  "initial_sub = \<lparr>su_session = new_session, su_delivered = [], su_acknowledged = []\<rparr>"

text \<open>The states of an explicitly acknowledged stream that is still open, with its history.\<close>

inductive sub_reachable :: "('b, 'j) filter_ops \<Rightarrow> (broker_env \<times> sub_event) list \<Rightarrow> sub_state \<Rightarrow> bool"
  for fo :: "('b, 'j) filter_ops" where
  start: "sub_reachable fo [] initial_sub"
| step: "\<lbrakk>sub_reachable fo es s; sr_continue (subscribe_step fo False env e s)\<rbrakk>
         \<Longrightarrow> sub_reachable fo (es @ [(env, e)]) (sr_state (subscribe_step fo False env e s))"

inductive_cases sub_reachable_emptyE: "sub_reachable fo [] s"

section \<open>One event on the sets of the loop\<close>

lemma offsets_at_simps [simp]:
  "offsets_at tp [] = []"
  "offsets_at tp ((t, p, x) # cs) = (if (t, p) = tp then x # offsets_at tp cs else offsets_at tp cs)"
  "offsets_at tp (cs @ ds) = offsets_at tp cs @ offsets_at tp ds"
  by (simp_all add: offsets_at_def)

lemma coords_simps [simp]:
  "filtered_coords [] = []" "delivered_coords [] = []"
  "filtered_coords (FilterRecord r # ds) = record_coord r # filtered_coords ds"
  "filtered_coords (DeliverRecord r # ds) = filtered_coords ds"
  "delivered_coords (FilterRecord r # ds) = delivered_coords ds"
  "delivered_coords (DeliverRecord r # ds) = record_coord r # delivered_coords ds"
  by (simp_all add: filtered_coords_def delivered_coords_def)

definition delivered_set :: "delivered_offsets \<Rightarrow> topic_partition \<Rightarrow> int set" where
  "delivered_set d tp = (case hm_get d tp of Some xs \<Rightarrow> set xs | None \<Rightarrow> {})"

lemma delivered_set_insert [simp]:
  "delivered_set (delivered_insert tp x d) tp' = (if tp' = tp then insert x (delivered_set d tp') else delivered_set d tp')"
  by (auto simp: delivered_set_def delivered_insert_def split: option.split)

lemma take_decisions:
  "fold (take_decision False) ds i =
     i\<lparr>it_deliveries := it_deliveries i @ map (record_coord \<circ> decision_record) ds,
       it_filtered_acks := it_filtered_acks i @ filtered_coords ds,
       it_emit := it_emit i @ map inbound_from_decoded_record
                    (concat (map (\<lambda>d. case d of DeliverRecord r \<Rightarrow> [r] | FilterRecord _ \<Rightarrow> []) ds)),
       it_delivered := fold (\<lambda>(t, p, x). delivered_insert (t, p) x) (delivered_coords ds) (it_delivered i)\<rparr>"
proof (induction ds arbitrary: i)
  case (Cons d ds)
  show ?case by (cases d) (simp_all add: Cons.IH record_coord_def Let_def)
qed simp

lemma delivered_set_fold:
  "delivered_set (fold (\<lambda>(t, p, x). delivered_insert (t, p) x) cs d) tp
     = delivered_set d tp \<union> set (offsets_at tp cs)"
  by (induction cs arbitrary: d) (auto split: if_splits)

lemma set_offsets_mono: "set cs \<subseteq> set ds \<Longrightarrow> set (offsets_at tp cs) \<subseteq> set (offsets_at tp ds)"
  unfolding offsets_at_def by force

lemma set_coords:
  "set (filtered_coords ds) \<subseteq> set (map (record_coord \<circ> decision_record) ds)
   \<and> set (delivered_coords ds) \<subseteq> set (map (record_coord \<circ> decision_record) ds)"
proof (induction ds)
  case (Cons d ds)
  thus ?case by (cases d) auto
qed simp

lemma select_event_other:
  assumes "\<forall>rs. e \<noteq> Polled (Ok rs)" "\<forall>t p x. e \<noteq> FrameArrived (FrameAck t p x)"
  shows "it_deliveries (select_event fo ac e s) = [] \<and> it_filtered_acks (select_event fo ac e s) = []
    \<and> it_client_ack (select_event fo ac e s) = None \<and> it_delivered (select_event fo ac e s) = su_delivered s
    \<and> polled_in tp e = []"
proof (cases e)
  case (FrameArrived f)
  thus ?thesis using assms(2) by (cases f) (simp_all add: select_event_def new_iteration_def)
next
  case (Polled b)
  thus ?thesis using assms(1) by (cases b) (simp_all add: select_event_def new_iteration_def)
qed (simp_all add: select_event_def new_iteration_def)

text \<open>
  What an event leaves for the rest of the iteration, at one partition: the
  deliveries are the polled offsets, the acknowledgements are settled offsets
  among the polled and the delivered ones.
\<close>

lemma select_event_sets:
  assumes i: "i = select_event fo False e s" and ok: "it_frame_error i = None"
  shows "offsets_at tp (it_deliveries i) = polled_in tp e"
    and "set (offsets_at tp (it_filtered_acks i @ (case it_client_ack i of None \<Rightarrow> [] | Some x \<Rightarrow> [x])))
           \<subseteq> set (settled_in fo tp e) \<inter> (set (polled_in tp e) \<union> delivered_set (su_delivered s) tp)"
    and "delivered_set (it_delivered i) tp \<subseteq> delivered_set (su_delivered s) tp \<union> set (polled_in tp e)"
proof -
  consider (poll) rs ds where "e = Polled (Ok rs)" "filter_polled_records fo rs = Ok ds"
    | (ack) t p x where "e = FrameArrived (FrameAck t p x)"
    | (other) "\<forall>rs. e \<noteq> Polled (Ok rs)" "\<forall>t p x. e \<noteq> FrameArrived (FrameAck t p x)"
  proof (cases e)
    case (Polled b)
    show ?thesis
    proof (cases b)
      case (Inr rs)
      have "filter_polled_records fo rs = Err m \<Longrightarrow> it_frame_error i \<noteq> None" for m
        by (simp add: i select_event_def Polled Inr)
      then obtain ds where "filter_polled_records fo rs = Ok ds"
        using ok by (cases "filter_polled_records fo rs") auto
      thus ?thesis using that(1) Polled Inr by blast
    qed (use that(3) Polled in auto)
  next
    case (FrameArrived f)
    thus ?thesis using that(2,3) by (cases f) auto
  qed (use that(3) in auto)
  hence "offsets_at tp (it_deliveries i) = polled_in tp e
    \<and> set (offsets_at tp (it_filtered_acks i @ (case it_client_ack i of None \<Rightarrow> [] | Some x \<Rightarrow> [x])))
           \<subseteq> set (settled_in fo tp e) \<inter> (set (polled_in tp e) \<union> delivered_set (su_delivered s) tp)
    \<and> delivered_set (it_delivered i) tp \<subseteq> delivered_set (su_delivered s) tp \<union> set (polled_in tp e)"
  proof cases
    case poll
    have rec: "map decision_record ds = rs" by (rule filter_keeps_order[OF poll(2)])
    hence coords: "map (record_coord \<circ> decision_record) ds = map record_coord rs" by (simp flip: map_map)
    have "i = fold (take_decision False) ds (new_iteration (su_delivered s))"
      using i poll by (simp add: select_event_def)
    thus ?thesis
      using set_offsets_mono[OF set_coords[THEN conjunct1], of tp ds]
        set_offsets_mono[OF set_coords[THEN conjunct2], of tp ds]
      by (auto simp: take_decisions new_iteration_def poll coords delivered_set_fold)
  next
    case (ack t p x)
    show ?thesis using i ok
      by (auto simp: select_event_def ack new_iteration_def validate_ack_def delivered_set_def
          split: if_splits option.splits)
  next
    case other
    thus ?thesis using select_event_other[OF other, of fo False s tp] by (simp add: i)
  qed
  thus "offsets_at tp (it_deliveries i) = polled_in tp e"
    and "set (offsets_at tp (it_filtered_acks i @ (case it_client_ack i of None \<Rightarrow> [] | Some x \<Rightarrow> [x])))
           \<subseteq> set (settled_in fo tp e) \<inter> (set (polled_in tp e) \<union> delivered_set (su_delivered s) tp)"
    and "delivered_set (it_delivered i) tp \<subseteq> delivered_set (su_delivered s) tp \<union> set (polled_in tp e)"
    by blast+
qed

section \<open>A session against a partition's history\<close>

lemma acked_run: "acked (fold spec_step ops S) \<subseteq> acked S \<union> {x. Ack x \<in> set ops}"
proof (induction ops arbitrary: S)
  case (Cons e ops)
  have "acked (spec_step e S) \<subseteq> acked S \<union> {x. e = Ack x}"
    by (cases e) (auto simp: spec_ack_def spec_deliver_def Let_def)
  thus ?case using Cons.IH[of "spec_step e S"] by (auto simp del: spec_step.simps)
qed simp

text \<open>
  \<open>tracks tp P A ses\<close>: the session's tracker of \<open>tp\<close> is the result of some
  operations that saw exactly the offsets \<open>P\<close> and were acknowledged only for
  offsets of \<open>A\<close>.
\<close>

definition tracks :: "topic_partition \<Rightarrow> int list \<Rightarrow> int set \<Rightarrow> consume_session \<Rightarrow> bool" where
  "tracks tp P A ses \<longleftrightarrow>
     session_ok ses \<and> consumer_open ses
     \<and> (\<exists>ops. tracker_of ses tp = fold tracker_step ops default_ack_state
            \<and> seen (fold spec_step ops spec_init) = set P
            \<and> (base (fold spec_step ops spec_init) = None \<longleftrightarrow> P = [])
            \<and> {x. Ack x \<in> set ops} \<subseteq> A)"

lemma tracks_new: "tracks tp [] A new_session"
  unfolding tracks_def
  by (intro conjI exI[of _ "[]"] session_ok_new) (simp_all add: spec_init_def tracker_of_def new_session_def)

lemma session_ops_open:
  "consumer_open (snd (session_record_delivery t p x s)) = consumer_open s"
  "consumer_open (snd (session_record_ack t p x s)) = consumer_open s"
  by (simp_all add: session_record_delivery_def session_record_ack_def with_tracker_def case_prod_beta)

lemma spec_deliver_new:
  assumes "ack_sim S s" "\<forall>y\<in>seen S. y < x" "base S = None \<longleftrightarrow> seen S = {}" "fst (record_delivery x s) = Ok ()"
    and "0 \<le> x"
  shows "seen (spec_step (Deliver x) S) = insert x (seen S)" "base (spec_step (Deliver x) S) \<noteq> None"
proof -
  have "\<not> at_or_below x (spec_frontier S)"
  proof (cases "base S")
    case (Some b)
    then obtain f where f: "spec_frontier S = Some f" by (simp add: spec_frontier_def)
    have fin: "finite (seen S)" and lt: "\<forall>y\<in>seen S. b < y" using assms(1) Some by (simp_all add: ack_sim_def)
    obtain y where y: "y \<in> seen S" using assms(3) Some by auto
    have "f = b \<or> f \<in> seen S" using spec_frontier_mem(1)[OF fin Some f] by (auto simp: settled_def)
    hence "f < x" using assms(2) lt y by (meson order_less_trans)
    thus ?thesis using f by simp
  qed (simp add: spec_frontier_def)
  moreover have "fst (spec_deliver x S) = Ok ()" using sim_deliver[OF assms(1,5)] assms(4) by simp
  ultimately show "seen (spec_step (Deliver x) S) = insert x (seen S)" "base (spec_step (Deliver x) S) \<noteq> None"
    using assms(5) by (auto simp: spec_deliver_def split: if_splits option.splits)
qed

lemma tracks_deliver:
  assumes tr: "tracks (t, p) P A s" and px: "0 \<le> p" "0 \<le> x" "\<forall>y\<in>set P. y < x"
    and ok: "session_record_delivery t p x s = (Ok (), s')"
  shows "tracks (t, p) (P @ [x]) A s'"
proof -
  obtain ops where ops: "tracker_of s (t, p) = fold tracker_step ops default_ack_state"
      "seen (fold spec_step ops spec_init) = set P" "base (fold spec_step ops spec_init) = None \<longleftrightarrow> P = []"
      "{x. Ack x \<in> set ops} \<subseteq> A"
    using tr by (auto simp: tracks_def)
  let ?S = "fold spec_step ops spec_init" and ?st = "fold tracker_step ops default_ack_state"
  have s': "s' = snd (session_record_delivery t p x s)" using ok by simp
  have "fst (session_record_delivery t p x s) = Ok ()" using ok by simp
  hence "fst (record_delivery x ?st) = Ok ()"
    using px ops(1) by (simp add: session_record_delivery_def with_tracker_def case_prod_beta)
  from spec_deliver_new[OF sim_run[OF ack_sim_init] _ _ this px(2)] px(3) ops(2,3)
  have new: "seen (spec_step (Deliver x) ?S) = insert x (set P)" "base (spec_step (Deliver x) ?S) \<noteq> None"
    by simp_all
  have "tracker_of s' (t, p) = fold tracker_step (ops @ [Deliver x]) default_ack_state"
    using s' tracker_of_delivery[OF px(1), of t x s "(t, p)"] ops(1) by simp
  moreover have "session_ok s'" "consumer_open s'"
    using tr s' session_record_delivery_ok session_ops_open(1) by (simp_all add: tracks_def)
  ultimately show ?thesis
    unfolding tracks_def using new ops(4)
    by (intro conjI exI[of _ "ops @ [Deliver x]"]) (auto simp del: spec_step.simps)
qed

lemma tracks_other:
  assumes "tracks tp P A s" "(t, p) \<noteq> tp"
  shows "tracks tp P A (snd (session_record_delivery t p x s))" "tracks tp P A (snd (session_record_ack t p x s))"
proof -
  have "tracker_of (snd (session_record_delivery t p x s)) tp = tracker_of s tp"
    "tracker_of (snd (session_record_ack t p x s)) tp = tracker_of s tp"
    using assms(2)
    by (auto simp: session_record_delivery_def session_record_ack_def tracker_of_with_tracker)
  thus "tracks tp P A (snd (session_record_delivery t p x s))" "tracks tp P A (snd (session_record_ack t p x s))"
    using assms(1) session_record_delivery_ok[of s t p x] session_record_ack_ok[of s t p x]
    by (simp_all add: tracks_def session_ops_open)
qed

lemma tracks_ack:
  assumes tr: "tracks (t, p) P A s" and p: "0 \<le> p" and x: "x \<in> set P" "x \<in> A"
  shows "tracks (t, p) P A (snd (session_record_ack t p x s))"
proof -
  obtain ops where ops: "tracker_of s (t, p) = fold tracker_step ops default_ack_state"
      "seen (fold spec_step ops spec_init) = set P" "base (fold spec_step ops spec_init) = None \<longleftrightarrow> P = []"
      "{x. Ack x \<in> set ops} \<subseteq> A"
    using tr by (auto simp: tracks_def)
  let ?S = "fold spec_step ops spec_init"
  have b: "base ?S \<noteq> None" using ops(3) x(1) by auto
  hence "seen (spec_step (Ack x) ?S) = seen ?S" "base (spec_step (Ack x) ?S) = base ?S"
    by (auto simp: spec_ack_def Let_def)
  moreover have "tracker_of (snd (session_record_ack t p x s)) (t, p)
      = fold tracker_step (ops @ [Ack x]) default_ack_state"
    using tracker_of_ack[OF p, of t x s "(t, p)"] ops(1) by simp
  ultimately show ?thesis
    unfolding tracks_def using ops(2-4) x(2) tr session_record_ack_ok[of s t p x]
    by (intro conjI exI[of _ "ops @ [Ack x]"])
       (auto simp: tracks_def session_ops_open simp del: spec_step.simps)
qed

lemma tracks_commit:
  assumes tr: "tracks tp P A s" and asg: "tp \<in> set asg"
    and c: "commit_acked asg commit_sync s = (r, offs, s')"
  shows "tracks tp P A s'"
    and "hm_get offs tp = Some n \<Longrightarrow> x \<in> set P \<Longrightarrow> x < n \<Longrightarrow> x \<in> A"
proof -
  obtain ops where ops: "tracker_of s tp = fold tracker_step ops default_ack_state"
      "seen (fold spec_step ops spec_init) = set P" "base (fold spec_step ops spec_init) = None \<longleftrightarrow> P = []"
      "{x. Ack x \<in> set ops} \<subseteq> A"
    using tr by (auto simp: tracks_def)
  have s: "session_ok s" "consumer_open s" using tr by (simp_all add: tracks_def)
  note eff = commit_acked_holds[OF s, of asg commit_sync, unfolded c prod.case]
  have op: "consumer_open s'"
    using c s(2) by (auto simp: commit_acked_cases[OF s(2)] retained_def marked_def split: if_splits sum.splits)
  have "tracker_of s' tp = fold tracker_step ops default_ack_state
      \<or> tracker_of s' tp = fold tracker_step (ops @ [Committed]) default_ack_state"
    using eff asg ops(1) by (cases "r = Ok ()") auto
  thus "tracks tp P A s'"
  proof
    assume "tracker_of s' tp = fold tracker_step ops default_ack_state"
    thus ?thesis using ops eff op unfolding tracks_def by (intro conjI exI[of _ ops]) simp_all
  next
    assume "tracker_of s' tp = fold tracker_step (ops @ [Committed]) default_ack_state"
    thus ?thesis using ops eff op unfolding tracks_def
      by (intro conjI exI[of _ "ops @ [Committed]"]) auto
  qed
  show "x \<in> A" if "hm_get offs tp = Some n" "x \<in> set P" "x < n"
  proof -
    have "commit_value (fold tracker_step ops default_ack_state) = Some n"
      using eff that(1) ops(1) by metis
    from commit_skips_nothing[OF this, of x] that ops(2,4) acked_run[of ops spec_init] show ?thesis
      by (auto simp: spec_init_def)
  qed
qed

lemma tracks_mono: "tracks tp P A s \<Longrightarrow> A \<subseteq> B \<Longrightarrow> tracks tp P B s"
  unfolding tracks_def by (elim conjE exE, intro conjI exI) (assumption | erule (1) subset_trans)+

lemma tracks_register:
  assumes "tracks tp P A s" "register_deliveries ds s = (None, s')"
    and "0 \<le> snd tp" "sorted_wrt (<) (P @ offsets_at tp ds)" "\<forall>x\<in>set (offsets_at tp ds). 0 \<le> x"
  shows "tracks tp (P @ offsets_at tp ds) A s'"
  using assms(1,2,4,5)
proof (induction ds arbitrary: s P)
  case (Cons d ds)
  obtain t p x where d: "d = (t, p, x)" by (metis prod_cases3)
  obtain s1 where s1: "session_record_delivery t p x s = (Ok (), s1)" "register_deliveries ds s1 = (None, s')"
    using Cons.prems(2) by (auto simp: d split: prod.splits sum.splits)
  show ?case
  proof (cases "(t, p) = tp")
    case True
    have "tracks tp (P @ [x]) A s1"
      using tracks_deliver[of t p P A s x s1] Cons.prems assms(3) s1(1) True
      by (auto simp: d sorted_wrt_append)
    from Cons.IH[OF this s1(2)] Cons.prems(3,4) True show ?thesis by (simp add: d)
  next
    case False
    have "tracks tp P A s1" using tracks_other(1)[OF Cons.prems(1) False, of x] s1(1) by simp
    from Cons.IH[OF this s1(2)] Cons.prems(3,4) False show ?thesis by (simp add: d)
  qed
qed simp

definition delivered_ok :: "delivered_offsets \<Rightarrow> bool" where
  "delivered_ok d \<longleftrightarrow> (\<forall>tp xs. hm_get d tp = Some xs \<longrightarrow> bset_ok xs)"

lemma delivered_okD: "delivered_ok d \<Longrightarrow> hm_get d tp = Some xs \<Longrightarrow> bset_ok xs"
  unfolding delivered_ok_def by blast

lemma delivered_okI: "(\<And>tp xs. hm_get d tp = Some xs \<Longrightarrow> bset_ok xs) \<Longrightarrow> delivered_ok d"
  unfolding delivered_ok_def by blast

lemma mark_acknowledged_subset:
  assumes m: "mark_acknowledged d k t p f = (n, d', k')" and ok: "delivered_ok d"
  shows "delivered_set d' tp \<subseteq> delivered_set d tp \<and> delivered_ok d'"
proof (cases "d' = d")
  case False
  then obtain xs where xs: "hm_get d (t, p) = Some xs"
      "d' = (if snd (scan_acknowledged f xs) = [] then hm_remove (t, p) d
             else hm_insert (t, p) (snd (scan_acknowledged f xs)) d)"
    using m by (auto simp: mark_acknowledged_def Let_def split: if_splits option.splits prod.splits)
  have okx: "bset_ok xs" using delivered_okD[OF ok xs(1)] .
  have r: "set (snd (scan_acknowledged f xs)) \<subseteq> set xs" "bset_ok (snd (scan_acknowledged f xs))"
    using scan_acknowledged_spec[OF okx, of f] by (auto simp: Let_def bset_ok_filter[OF okx])
  have "delivered_set d' tp \<subseteq> delivered_set d tp"
    using xs r(1) by (simp add: delivered_set_def)
  moreover have "delivered_ok d'"
    by (rule delivered_okI) (use xs(2) r(2) delivered_okD[OF ok] in \<open>auto split: if_splits\<close>)
  ultimately show ?thesis by blast
qed (use ok in simp)

lemma tracks_acks:
  assumes "tracks tp P A (su_session s)" "apply_acks as s = (None, s')" "delivered_ok (su_delivered s)"
    and "0 \<le> snd tp" "set (offsets_at tp as) \<subseteq> set P \<inter> A"
  shows "tracks tp P A (su_session s') \<and> delivered_ok (su_delivered s')
    \<and> delivered_set (su_delivered s') tp \<subseteq> delivered_set (su_delivered s) tp"
  using assms(1-3,5)
proof (induction as arbitrary: s)
  case (Cons a as)
  obtain t p x where a: "a = (t, p, x)" by (metis prod_cases3)
  obtain ses where ses: "session_record_ack t p x (su_session s) = (Ok (), ses)"
    using Cons.prems(2) by (auto simp: a split: prod.splits sum.splits)
  define s1 where "s1 = (case ack_frontier t p ses of
      None \<Rightarrow> s\<lparr>su_session := ses\<rparr>
    | Some f \<Rightarrow> (case mark_acknowledged (su_delivered s) (su_acknowledged s) t p f of
         (_, d, k) \<Rightarrow> s\<lparr>su_session := ses, su_delivered := d, su_acknowledged := k\<rparr>))"
  have rest: "apply_acks as s1 = (None, s')"
    using Cons.prems(2) ses by (simp add: a s1_def Let_def split: option.splits prod.splits)
  have sub: "delivered_set (su_delivered s1) tp \<subseteq> delivered_set (su_delivered s) tp" "delivered_ok (su_delivered s1)"
    using mark_acknowledged_subset[OF _ Cons.prems(3)] Cons.prems(3)
    by (auto simp: s1_def split: option.split prod.split)
  have "su_session s1 = ses" by (simp add: s1_def split: option.split prod.split)
  moreover have "tracks tp P A ses"
  proof (cases "(t, p) = tp")
    case True
    have "tracks tp P A (snd (session_record_ack t p x (su_session s)))"
      using tracks_ack[of t p P A "su_session s" x] Cons.prems(1,4) True assms(4) by (auto simp: a)
    thus ?thesis using ses by simp
  next
    case False
    thus ?thesis using tracks_other(2)[OF Cons.prems(1) False, of x] ses by simp
  qed
  moreover have "set (offsets_at tp as) \<subseteq> set P \<inter> A" using Cons.prems(4) by (auto simp: a split: if_splits)
  ultimately show ?case using Cons.IH[OF _ rest sub(2)] sub(1) by auto
qed simp

lemma delivered_ok_insert: "delivered_ok d \<Longrightarrow> delivered_ok (delivered_insert tp x d)"
  by (rule delivered_okI)
     (auto simp: delivered_insert_def dest: delivered_okD split: if_splits option.splits)

lemma delivered_ok_fold:
  "delivered_ok d \<Longrightarrow> delivered_ok (fold (\<lambda>(t, p, x). delivered_insert (t, p) x) cs d)"
  by (induction cs arbitrary: d) (auto intro: delivered_ok_insert)

lemma select_event_delivered_ok:
  assumes "delivered_ok (su_delivered s)"
  shows "delivered_ok (it_delivered (select_event fo False e s))"
proof (cases "\<exists>rs. e = Polled (Ok rs)")
  case True
  then obtain rs where e: "e = Polled (Ok rs)" by blast
  show ?thesis using delivered_ok_fold[OF assms] assms
    by (cases "filter_polled_records fo rs") (simp_all add: e select_event_def take_decisions new_iteration_def)
next
  case False
  show ?thesis
  proof (cases "\<exists>t p x. e = FrameArrived (FrameAck t p x)")
    case True
    then obtain t p x where "e = FrameArrived (FrameAck t p x)" by blast
    thus ?thesis using assms
      by (cases "validate_ack (su_delivered s) (su_acknowledged s) t p x")
         (simp_all add: select_event_def new_iteration_def Let_def split: bool.split)
  next
    case 2: False
    show ?thesis using select_event_other[of e fo False s] False 2 assms by auto
  qed
qed

text \<open>
  The course of an iteration with explicit acknowledgements: it either ends the
  stream without committing anything, or registers, acknowledges and possibly
  commits.
\<close>

lemma subscribe_step_course:
  fixes fo :: "('b, 'j) filter_ops" and e :: sub_event and s :: sub_state and env :: broker_env
  defines "i \<equiv> select_event fo False e s" and "r \<equiv> subscribe_step fo False env e s"
  defines "as \<equiv> it_filtered_acks i @ (case it_client_ack i of None \<Rightarrow> [] | Some x \<Rightarrow> [x])"
  obtains (ended) "\<not> sr_continue r" "sr_committed r = []"
    | (went) ses s2 q offs ses' where
      "it_frame_error i = None" "register_deliveries (it_deliveries i) (su_session s) = (None, ses)"
      "apply_acks as (s\<lparr>su_delivered := it_delivered i, su_session := ses\<rparr>) = (None, s2)"
      "(ses' = su_session s2 \<and> offs = [])
       \<or> commit_acked (be_assignment env) (be_commit_offsets env) (su_session s2) = (q, offs, ses')"
      "sr_committed r = offs" "sr_state r = s2\<lparr>su_session := ses'\<rparr>"
proof -
  obtain derr ses where reg: "register_deliveries (it_deliveries i) (su_session s) = (derr, ses)" by fastforce
  obtain aerr s2 where ack: "apply_acks as (s\<lparr>su_delivered := it_delivered i, su_session := ses\<rparr>) = (aerr, s2)"
    by fastforce
  obtain q offs ses' where c: "(if it_commit i \<or> as \<noteq> []
      then commit_acked (be_assignment env) (be_commit_offsets env) (su_session s2)
      else (Ok (), [], su_session s2)) = (q, offs, ses')" by (metis prod_cases3)
  note defs = r_def subscribe_step_def Let_def i_def[symmetric] reg prod.case as_def[symmetric]
  show ?thesis
  proof (cases "derr = None \<and> it_frame_error i = None \<and> aerr = None")
    case False
    have "\<not> sr_continue r \<and> sr_committed r = []"
    proof (cases "case derr of Some d \<Rightarrow> Some d | None \<Rightarrow> it_frame_error i")
      case None
      then obtain err where "aerr = Some err" using False by (cases derr; cases aerr) auto
      thus ?thesis using None ack by (simp add: defs)
    qed (simp add: defs)
    thus ?thesis using ended by blast
  next
    case True
    have "sr_committed r = offs \<and> sr_state r = s2\<lparr>su_session := ses'\<rparr>"
      using True ack c by (cases q) (auto simp: defs)
    moreover have "(ses' = su_session s2 \<and> offs = [])
        \<or> commit_acked (be_assignment env) (be_commit_offsets env) (su_session s2) = (q, offs, ses')"
      using c by (auto split: if_splits)
    ultimately show ?thesis using went[of ses s2 ses' offs q] True reg ack by simp
  qed
qed

definition sub_inv :: "('b, 'j) filter_ops \<Rightarrow> topic_partition \<Rightarrow> (broker_env \<times> sub_event) list \<Rightarrow> sub_state \<Rightarrow> bool" where
  "sub_inv fo tp es s \<longleftrightarrow>
     tracks tp (polled_at tp es) (set (settled_at fo tp es)) (su_session s)
     \<and> delivered_ok (su_delivered s) \<and> delivered_set (su_delivered s) tp \<subseteq> set (polled_at tp es)"

text \<open>
  The consumer's part for one partition: it stays assigned, and its records are
  polled in ascending offset order.
\<close>

definition kept :: "topic_partition \<Rightarrow> (broker_env \<times> sub_event) list \<Rightarrow> bool" where
  "kept tp es \<longleftrightarrow>
     0 \<le> snd tp \<and> (\<forall>(env, e)\<in>set es. tp \<in> set (be_assignment env))
     \<and> sorted_wrt (<) (polled_at tp es) \<and> (\<forall>x\<in>set (polled_at tp es). 0 \<le> x)"

lemma at_snoc:
  "polled_at tp (es @ [(env, e)]) = polled_at tp es @ polled_in tp e"
  "settled_at fo tp (es @ [(env, e)]) = settled_at fo tp es @ settled_in fo tp e"
  by (simp_all add: polled_at_def settled_at_def)

lemma sub_step:
  assumes inv: "sub_inv fo tp es s" and kept: "kept tp (es @ [(env, e)])"
  shows "sr_continue (subscribe_step fo False env e s) \<Longrightarrow>
           sub_inv fo tp (es @ [(env, e)]) (sr_state (subscribe_step fo False env e s))"
    and "hm_get (sr_committed (subscribe_step fo False env e s)) tp = Some n \<Longrightarrow>
           x \<in> set (polled_at tp (es @ [(env, e)])) \<Longrightarrow> x < n \<Longrightarrow> x \<in> set (settled_at fo tp (es @ [(env, e)]))"
proof -
  let ?P = "polled_at tp (es @ [(env, e)])" and ?A = "set (settled_at fo tp (es @ [(env, e)]))"
  let ?r = "subscribe_step fo False env e s"
  have main: "(sr_continue ?r \<longrightarrow> sub_inv fo tp (es @ [(env, e)]) (sr_state ?r))
     \<and> (hm_get (sr_committed ?r) tp = Some n \<and> x \<in> set ?P \<and> x < n \<longrightarrow> x \<in> ?A)"
  proof (cases rule: subscribe_step_course[where fo = fo and e = e and s = s and env = env])
    case ended
    thus ?thesis by simp
  next
    case (went ses s2 q offs ses')
    let ?i = "select_event fo False e s"
    note sets = select_event_sets[OF refl went(1), of tp]
    have "tracks tp (polled_at tp es) ?A (su_session s)"
      using inv tracks_mono by (fastforce simp: sub_inv_def at_snoc)
    from tracks_register[OF this went(2)] kept sets(1)
    have t1: "tracks tp ?P ?A ses" by (simp add: kept_def at_snoc)
    have sub: "delivered_set (it_delivered ?i) tp \<subseteq> set ?P" "delivered_ok (it_delivered ?i)"
      using inv sets(3) select_event_delivered_ok by (auto simp: sub_inv_def at_snoc)
    have old: "delivered_set (su_delivered s) tp \<subseteq> set ?P" using inv by (auto simp: sub_inv_def at_snoc)
    have "set (polled_in tp e) \<subseteq> set ?P" "set (settled_in fo tp e) \<subseteq> ?A" by (simp_all add: at_snoc)
    hence acks: "set (offsets_at tp (it_filtered_acks ?i @ (case it_client_ack ?i of None \<Rightarrow> [] | Some x \<Rightarrow> [x])))
        \<subseteq> set ?P \<inter> ?A" using sets(2) old by blast
    have "tracks tp ?P ?A (su_session s2) \<and> delivered_ok (su_delivered s2)
        \<and> delivered_set (su_delivered s2) tp \<subseteq> delivered_set (it_delivered ?i) tp"
      using tracks_acks[OF _ went(3) _ _ acks] t1 sub(2) kept by (simp add: kept_def)
    hence t2: "tracks tp ?P ?A (su_session s2)" "delivered_ok (su_delivered s2)"
      "delivered_set (su_delivered s2) tp \<subseteq> set ?P" using sub(1) by auto
    have asg: "tp \<in> set (be_assignment env)" using kept by (simp add: kept_def)
    have t3: "tracks tp ?P ?A ses'" "hm_get offs tp = Some n \<Longrightarrow> x \<in> set ?P \<Longrightarrow> x < n \<Longrightarrow> x \<in> ?A"
      using went(4) t2(1) tracks_commit[OF t2(1) asg] by auto
    show ?thesis using t2(2,3) t3 went(5,6) by (simp add: sub_inv_def)
  qed
  thus "sr_continue ?r \<Longrightarrow> sub_inv fo tp (es @ [(env, e)]) (sr_state ?r)"
    and "hm_get (sr_committed ?r) tp = Some n \<Longrightarrow> x \<in> set ?P \<Longrightarrow> x < n \<Longrightarrow> x \<in> ?A"
    by blast+
qed

lemma kept_prefix: "kept tp (es @ es') \<Longrightarrow> kept tp es"
  by (auto simp: kept_def polled_at_def sorted_wrt_append)

lemma sub_reachable_inv: "sub_reachable fo es s \<Longrightarrow> kept tp es \<Longrightarrow> sub_inv fo tp es s"
proof (induction rule: sub_reachable.induct)
  case start
  show ?case
    using tracks_new[of tp] by (simp add: sub_inv_def initial_sub_def polled_at_def settled_at_def
        delivered_ok_def delivered_set_def)
next
  case (step es s env e)
  show ?case using step.IH[OF kept_prefix[OF step.prems]] step.hyps(2) step.prems
    by (intro sub_step(1))
qed

section \<open>Properties\<close>

text \<open>
  C2: At-least-once delivery: whenever an explicitly acknowledged stream commits an
  offset for a partition that has stayed assigned to it, every record polled
  from that partition below the committed offset was filtered out by the
  subscription's filter or acknowledged by the client, up to and including the
  event that triggered the commit.
\<close>

theorem subscription_at_least_once:
  assumes "sub_reachable fo es s" "kept tp (es @ [(env, e)])"
    and "hm_get (sr_committed (subscribe_step fo False env e s)) tp = Some n"
    and "x \<in> set (polled_at tp (es @ [(env, e)]))" "x < n"
  shows "x \<in> set (settled_at fo tp (es @ [(env, e)]))"
  by (rule sub_step(2)[OF sub_reachable_inv[OF assms(1) kept_prefix[OF assms(2)]] assms(2-5)])

text \<open>Concrete runs: a poll of records, and a broker that owns the given partitions and accepts commits.\<close>

definition sample_env :: "topic_partition list \<Rightarrow> broker_env" where
  "sample_env asg =
     \<lparr>be_assignment = asg, be_commit_offsets = (\<lambda>_. Ok ()), be_commit_positions = Ok ()\<rparr>"

definition sample_poll :: "(string \<times> int) list \<Rightarrow> sub_event" where
  "sample_poll xs = Polled (Ok (map (\<lambda>(t, x). sample_record t x [1]) xs))"

lemma sample_poll_filtered:
  "filter_polled_records sample_filter (map (\<lambda>(t, x). sample_record t x [1]) xs)
     = Ok (map (\<lambda>(t, x). DeliverRecord (sample_record t x [1])) xs)"
proof -
  have "\<forall>r\<in>set (map (\<lambda>(t, x). sample_record t x [1]) xs). readable sample_filter r"
    by (auto simp: readable_def sample_filter_def sample_record_def)
  from filter_alone_holds[OF sample_rowwise this] show ?thesis
    by (auto simp: decide_alone_def sample_filter_def sample_record_def decide_def
        filter_json_fallback_record_def structured_json_or_unframed_value_def)
qed

lemmas run_defs = subscribe_step_def select_event_def sample_poll_def sample_env_def initial_sub_def
  new_iteration_def validate_ack_def record_coord_def sample_record_def delivered_insert_def
  session_record_delivery_def session_record_ack_def with_tracker_def tracker_of_def new_session_def
  default_ack_state_def record_delivery_def record_ack_def record_ack_seeded_def drain_def
  MAX_OUTSTANDING_PER_PARTITION_def ack_frontier_def mark_acknowledged_def commit_acked_def hm_retain_def
  acked_offsets_def hm_filter_map_def map_filter_simps commit_value_def checked_add_i64_def
  checked_sub_i64_def note_committed_def int_bounds inbound_from_decoded_record_def

lemma sample_run_poll:
  "let r = subscribe_step sample_filter False (sample_env [(''t'', 0)]) (sample_poll [(''t'', 10), (''t'', 12)]) initial_sub in
   sr_continue r \<and> sr_committed r = [] \<and>
   sr_state r = \<lparr>su_session = \<lparr>consumer_open = True, ack_tracker =
       [((''t'', 0), \<lparr>frontier = Some 9, delivered = [10, 12], pending = [], last_committed_frontier = Some 9\<rparr>)]\<rparr>,
     su_delivered = [((''t'', 0), [10, 12])], su_acknowledged = []\<rparr>"
  using sample_poll_filtered[of "[(''t'', 10), (''t'', 12)]"]
  by (simp add: run_defs Let_def)

theorem subscription_at_least_once_witness:
  "10 \<in> set (settled_at sample_filter (''t'', 0)
     [(sample_env [(''t'', 0)], sample_poll [(''t'', 10), (''t'', 12)]),
      (sample_env [(''t'', 0)], FrameArrived (FrameAck ''t'' 0 10))])"
proof -
  let ?env = "sample_env [(''t'', 0)]" and ?e = "sample_poll [(''t'', 10), (''t'', 12)]"
  let ?s = "sr_state (subscribe_step sample_filter False ?env ?e initial_sub)"
  have s: "?s = \<lparr>su_session = \<lparr>consumer_open = True, ack_tracker =
       [((''t'', 0), \<lparr>frontier = Some 9, delivered = [10, 12], pending = [], last_committed_frontier = Some 9\<rparr>)]\<rparr>,
     su_delivered = [((''t'', 0), [10, 12])], su_acknowledged = []\<rparr>"
    and "sr_continue (subscribe_step sample_filter False ?env ?e initial_sub)"
    using sample_run_poll by (simp_all add: Let_def)
  hence "sub_reachable sample_filter ([] @ [(?env, ?e)]) ?s" by (intro sub_reachable.intros)
  moreover have "kept (''t'', 0) ([] @ [(?env, ?e)] @ [(?env, FrameArrived (FrameAck ''t'' 0 10))])"
    by (simp add: kept_def polled_at_def sample_poll_def sample_env_def record_coord_def sample_record_def)
  moreover have "hm_get (sr_committed (subscribe_step sample_filter False ?env (FrameArrived (FrameAck ''t'' 0 10)) ?s))
      (''t'', 0) = Some 11"
    unfolding s by (simp add: run_defs Let_def)
  ultimately show ?thesis
    using subscription_at_least_once[of sample_filter "[(?env, ?e)]" ?s "(''t'', 0)" ?env
        "FrameArrived (FrameAck ''t'' 0 10)" 11 10]
    by (simp add: polled_at_def sample_poll_def record_coord_def sample_record_def)
qed

text \<open>
  C33: The guarantee ends when a partition is revoked and assigned again: the
  session forgets the partition's tracker while the stream keeps the offsets it
  delivered, so a late acknowledgement seeds a fresh frontier just below itself.
  Here offsets 10, 11 and 12 are delivered, an acknowledgement on another
  partition is committed while the partition is away, and the acknowledgement
  of 12 then commits 13 although 10 and 11 were never acknowledged.
\<close>

theorem reassigned_partition_skips_unacknowledged:
  "let es = [(sample_env [(''t'', 0), (''u'', 0)],
                sample_poll [(''t'', 10), (''t'', 11), (''t'', 12), (''u'', 5)]),
             (sample_env [(''u'', 0)], FrameArrived (FrameAck ''u'' 0 5)),
             (sample_env [(''t'', 0), (''u'', 0)], FrameArrived (FrameAck ''t'' 0 12))]
   in case subscribe_run sample_filter False es initial_sub of (ys, committed, s) \<Rightarrow>
        committed = [((''u'', 0), 6), ((''t'', 0), 13)]
        \<and> polled_at (''t'', 0) es = [10, 11, 12] \<and> settled_at sample_filter (''t'', 0) es = [12]
        \<and> length ys = 4"
proof -
  let ?all = "sample_env [(''t'', 0), (''u'', 0)]"
  let ?poll = "sample_poll [(''t'', 10), (''t'', 11), (''t'', 12), (''u'', 5)]"
  let ?r1 = "subscribe_step sample_filter False ?all ?poll initial_sub"
  note filt = sample_poll_filtered[of "[(''t'', 10), (''t'', 11), (''t'', 12), (''u'', 5)]", simplified]
  have r1: "sr_continue ?r1" "sr_committed ?r1 = []" "length (sr_yield ?r1) = 4"
    "sr_state ?r1 = \<lparr>su_session = \<lparr>consumer_open = True, ack_tracker =
        [((''t'', 0), \<lparr>frontier = Some 9, delivered = [10, 11, 12], pending = [], last_committed_frontier = Some 9\<rparr>),
         ((''u'', 0), \<lparr>frontier = Some 4, delivered = [5], pending = [], last_committed_frontier = Some 4\<rparr>)]\<rparr>,
      su_delivered = [((''t'', 0), [10, 11, 12]), ((''u'', 0), [5])], su_acknowledged = []\<rparr>"
    using filt by (simp_all add: run_defs Let_def)
  let ?r2 = "subscribe_step sample_filter False (sample_env [(''u'', 0)]) (FrameArrived (FrameAck ''u'' 0 5)) (sr_state ?r1)"
  have r2: "sr_continue ?r2" "sr_committed ?r2 = [((''u'', 0), 6)]" "sr_yield ?r2 = []"
    "sr_state ?r2 = \<lparr>su_session = \<lparr>consumer_open = True, ack_tracker =
        [((''u'', 0), \<lparr>frontier = Some 5, delivered = [], pending = [], last_committed_frontier = Some 5\<rparr>)]\<rparr>,
      su_delivered = [((''t'', 0), [10, 11, 12])], su_acknowledged = [((''u'', 0), 5)]\<rparr>"
    unfolding r1(4) by (simp_all add: run_defs Let_def)
  let ?r3 = "subscribe_step sample_filter False ?all (FrameArrived (FrameAck ''t'' 0 12)) (sr_state ?r2)"
  have r3: "sr_committed ?r3 = [((''t'', 0), 13)]" "sr_yield ?r3 = []"
    unfolding r2(4) by (simp_all add: run_defs Let_def)
  have "polled_at (''t'', 0) [(?all, ?poll), (sample_env [(''u'', 0)], FrameArrived (FrameAck ''u'' 0 5)),
             (?all, FrameArrived (FrameAck ''t'' 0 12))] = [10, 11, 12]"
    "settled_at sample_filter (''t'', 0) [(?all, ?poll), (sample_env [(''u'', 0)], FrameArrived (FrameAck ''u'' 0 5)),
             (?all, FrameArrived (FrameAck ''t'' 0 12))] = [12]"
    using filt by (simp_all add: polled_at_def settled_at_def sample_poll_def record_coord_def sample_record_def)
  thus ?thesis using r1(1-3) r2(1-3) r3 by (simp add: Let_def case_prod_beta)
qed

end
