(* ===== verification/Gw_Schema.thy ===== *)
theory Gw_Schema
  imports Gw_Wire
begin

text \<open>
  Schema registry support: the format dispatch of \<open>schema/format\<close>, the caching
  client of \<open>schema/client.rs\<close> and the codec of \<open>schema/codec.rs\<close> with its
  bounded cache of compiled schemas.

  The Avro, JSON Schema and Protobuf libraries are the parameter \<open>format_lib\<close>,
  whose values (schemas, JSON values, messages) share the type \<open>'x\<close>; the
  registry's HTTP answers are the parameter \<open>registry\<close>.
\<close>

section \<open>Formats\<close>

record 'x format_lib =
  fl_json_parse :: "bytes \<Rightarrow> string + 'x"
  fl_json_print :: "'x \<Rightarrow> string + bytes"
  fl_avro_schema :: "string \<Rightarrow> string + 'x"
  fl_avro_of_json :: "'x \<Rightarrow> string + 'x"
  fl_avro_resolve :: "'x \<Rightarrow> 'x \<Rightarrow> string + 'x"
  fl_avro_write :: "'x \<Rightarrow> 'x \<Rightarrow> string + bytes"
  fl_avro_read :: "'x \<Rightarrow> bytes \<Rightarrow> string + 'x"
  fl_json_of_avro :: "'x \<Rightarrow> string + 'x"
  fl_validator_for :: "'x \<Rightarrow> string + 'x"
  fl_iter_errors :: "'x \<Rightarrow> 'x \<Rightarrow> string list"
  fl_proto_parse :: "string \<Rightarrow> string + 'x"
  fl_proto_pool :: "'x \<Rightarrow> string + 'x list"
  fl_proto_of_json :: "'x \<Rightarrow> bytes \<Rightarrow> string + 'x"
  fl_proto_encode :: "'x \<Rightarrow> bytes"
  fl_proto_decode :: "'x \<Rightarrow> bytes \<Rightarrow> string + 'x"
  fl_json_of_proto :: "'x \<Rightarrow> string + bytes"

definition ctx :: "(string \<Rightarrow> codec_error) \<Rightarrow> string \<Rightarrow> string + 'a \<Rightarrow> codec_error + 'a" where
  "ctx con label r = map_err (\<lambda>e. con (label @ e)) r"

lemma ctx_simps [simp]: "ctx con l (Ok a) = Ok a" "ctx con l (Err e) = Err (con (l @ e))"
  by (simp_all add: ctx_def)

definition avro_prepare :: "'x format_lib \<Rightarrow> string \<Rightarrow> codec_error + 'x" where
  "avro_prepare fl schema = ctx Serialize ''Avro schema parse: '' (fl_avro_schema fl schema)"

definition avro_serialize_prepared :: "'x format_lib \<Rightarrow> 'x \<Rightarrow> bytes \<Rightarrow> codec_error + bytes" where
  "avro_serialize_prepared fl schema json =
     and_then (ctx Serialize ''JSON parse: '' (fl_json_parse fl json)) (\<lambda>j.
     and_then (ctx Serialize ''JSON to Avro: '' (fl_avro_of_json fl j)) (\<lambda>v.
     and_then (ctx Serialize ''resolve: '' (fl_avro_resolve fl schema v)) (\<lambda>v.
       ctx Serialize ''Avro encode: '' (fl_avro_write fl schema v))))"

definition avro_deserialize_prepared :: "'x format_lib \<Rightarrow> 'x \<Rightarrow> bytes \<Rightarrow> codec_error + bytes" where
  "avro_deserialize_prepared fl schema payload =
     and_then (ctx Serialize ''Avro decode: '' (fl_avro_read fl schema payload)) (\<lambda>v.
     and_then (ctx Serialize
         ([CHR ''a'', CHR ''v'', CHR ''r'', CHR ''o'', CHR 0xE2, CHR 0x86, CHR 0x92] @ ''json conversion: '')
         (fl_json_of_avro fl v)) (\<lambda>j.
       ctx Serialize ''JSON serialize: '' (fl_json_print fl j)))"

definition avro_serialize :: "'x format_lib \<Rightarrow> string \<Rightarrow> bytes \<Rightarrow> codec_error + bytes" where
  "avro_serialize fl schema json = and_then (avro_prepare fl schema) (\<lambda>s. avro_serialize_prepared fl s json)"

definition avro_deserialize :: "'x format_lib \<Rightarrow> string \<Rightarrow> bytes \<Rightarrow> codec_error + bytes" where
  "avro_deserialize fl schema payload =
     and_then (avro_prepare fl schema) (\<lambda>s. avro_deserialize_prepared fl s payload)"

definition avro_validate :: "'x format_lib \<Rightarrow> string \<Rightarrow> bytes \<Rightarrow> codec_error + unit" where
  "avro_validate fl schema json =
     and_then (map_err (\<lambda>e. Validate (display_codec_error e)) (avro_serialize fl schema json)) (\<lambda>_. Ok ())"

definition json_prepare :: "'x format_lib \<Rightarrow> string \<Rightarrow> codec_error + 'x" where
  "json_prepare fl schema =
     and_then (ctx Validate ''schema is not valid JSON: '' (fl_json_parse fl (as_bytes schema))) (\<lambda>v.
       ctx Validate ''invalid JSON Schema: '' (fl_validator_for fl v))"

fun join :: "string \<Rightarrow> string list \<Rightarrow> string" where
  "join sep [] = []"
| "join sep [s] = s"
| "join sep (s # t # ss) = s @ sep @ join sep (t # ss)"

definition json_validate_prepared :: "'x format_lib \<Rightarrow> 'x \<Rightarrow> bytes \<Rightarrow> codec_error + unit" where
  "json_validate_prepared fl validator json =
     and_then (ctx Validate ''payload is not valid JSON: '' (fl_json_parse fl json)) (\<lambda>v.
       let errors = fl_iter_errors fl validator v in
       if errors = [] then Ok () else Err (Validate (join ''; '' errors)))"

definition json_validate :: "'x format_lib \<Rightarrow> string \<Rightarrow> bytes \<Rightarrow> codec_error + unit" where
  "json_validate fl schema json = and_then (json_prepare fl schema) (\<lambda>v. json_validate_prepared fl v json)"

definition json_serialize :: "'x format_lib \<Rightarrow> string \<Rightarrow> bytes \<Rightarrow> codec_error + bytes" where
  "json_serialize fl schema json = and_then (json_validate fl schema json) (\<lambda>_. Ok json)"

definition json_deserialize :: "'x format_lib \<Rightarrow> string \<Rightarrow> bytes \<Rightarrow> codec_error + bytes" where
  "json_deserialize fl schema payload = and_then (json_validate fl schema payload) (\<lambda>_. Ok payload)"

definition first_message_desc :: "'x format_lib \<Rightarrow> string \<Rightarrow> codec_error + 'x" where
  "first_message_desc fl schema =
     and_then (ctx Serialize ''protobuf parse error: '' (fl_proto_parse fl schema)) (\<lambda>fdp.
     and_then (ctx Serialize ''protobuf descriptor error: '' (fl_proto_pool fl fdp)) (\<lambda>messages.
       case messages of
         [] \<Rightarrow> Err (Serialize ''no message type defined in schema'')
       | m # _ \<Rightarrow> Ok m))"

definition proto_serialize_prepared :: "'x format_lib \<Rightarrow> 'x \<Rightarrow> bytes \<Rightarrow> codec_error + bytes" where
  "proto_serialize_prepared fl desc json =
     and_then (ctx Serialize ''JSON->proto deserialize error: '' (fl_proto_of_json fl desc json)) (\<lambda>m.
       Ok (fl_proto_encode fl m))"

definition proto_deserialize_prepared :: "'x format_lib \<Rightarrow> 'x \<Rightarrow> bytes \<Rightarrow> codec_error + bytes" where
  "proto_deserialize_prepared fl desc payload =
     and_then (ctx Serialize ''proto decode error: '' (fl_proto_decode fl desc payload)) (\<lambda>m.
       ctx Serialize ''proto->JSON serialize error: '' (fl_json_of_proto fl m))"

definition proto_serialize :: "'x format_lib \<Rightarrow> string \<Rightarrow> bytes \<Rightarrow> codec_error + bytes" where
  "proto_serialize fl schema json =
     and_then (first_message_desc fl schema) (\<lambda>d. proto_serialize_prepared fl d json)"

definition proto_deserialize :: "'x format_lib \<Rightarrow> string \<Rightarrow> bytes \<Rightarrow> codec_error + bytes" where
  "proto_deserialize fl schema payload =
     and_then (first_message_desc fl schema) (\<lambda>d. proto_deserialize_prepared fl d payload)"

definition proto_validate :: "'x format_lib \<Rightarrow> string \<Rightarrow> bytes \<Rightarrow> codec_error + unit" where
  "proto_validate fl schema json =
     and_then
       (map_err (\<lambda>e. case e of Serialize m \<Rightarrow> Validate m | _ \<Rightarrow> e) (proto_serialize fl schema json))
       (\<lambda>_. Ok ())"

definition format_serialize :: "'x format_lib \<Rightarrow> schema_format \<Rightarrow> string \<Rightarrow> bytes \<Rightarrow> codec_error + bytes" where
  "format_serialize fl fmt schema json =
     (case fmt of Avro \<Rightarrow> avro_serialize fl schema json | Json \<Rightarrow> json_serialize fl schema json
      | Protobuf \<Rightarrow> proto_serialize fl schema json)"

definition format_deserialize :: "'x format_lib \<Rightarrow> schema_format \<Rightarrow> string \<Rightarrow> bytes \<Rightarrow> codec_error + bytes" where
  "format_deserialize fl fmt schema payload =
     (case fmt of Avro \<Rightarrow> avro_deserialize fl schema payload | Json \<Rightarrow> json_deserialize fl schema payload
      | Protobuf \<Rightarrow> proto_deserialize fl schema payload)"

definition format_validate :: "'x format_lib \<Rightarrow> schema_format \<Rightarrow> string \<Rightarrow> bytes \<Rightarrow> codec_error + unit" where
  "format_validate fl fmt schema json =
     (case fmt of Avro \<Rightarrow> avro_validate fl schema json | Json \<Rightarrow> json_validate fl schema json
      | Protobuf \<Rightarrow> proto_validate fl schema json)"

datatype 'x prepared_schema = PreparedAvro 'x | PreparedJson 'x | PreparedProtobuf 'x

definition prepared_new :: "'x format_lib \<Rightarrow> schema_format \<Rightarrow> string \<Rightarrow> codec_error + 'x prepared_schema" where
  "prepared_new fl fmt schema =
     (case fmt of
        Avro \<Rightarrow> and_then (avro_prepare fl schema) (\<lambda>s. Ok (PreparedAvro s))
      | Json \<Rightarrow> and_then (json_prepare fl schema) (\<lambda>v. Ok (PreparedJson v))
      | Protobuf \<Rightarrow> and_then (first_message_desc fl schema) (\<lambda>d. Ok (PreparedProtobuf d)))"

fun prepared_serialize :: "'x format_lib \<Rightarrow> 'x prepared_schema \<Rightarrow> bytes \<Rightarrow> codec_error + bytes" where
  "prepared_serialize fl (PreparedAvro s) json = avro_serialize_prepared fl s json"
| "prepared_serialize fl (PreparedJson v) json = and_then (json_validate_prepared fl v json) (\<lambda>_. Ok json)"
| "prepared_serialize fl (PreparedProtobuf d) json = proto_serialize_prepared fl d json"

fun prepared_deserialize :: "'x format_lib \<Rightarrow> 'x prepared_schema \<Rightarrow> bytes \<Rightarrow> codec_error + bytes" where
  "prepared_deserialize fl (PreparedAvro s) payload = avro_deserialize_prepared fl s payload"
| "prepared_deserialize fl (PreparedJson v) payload = and_then (json_validate_prepared fl v payload) (\<lambda>_. Ok payload)"
| "prepared_deserialize fl (PreparedProtobuf d) payload = proto_deserialize_prepared fl d payload"

section \<open>The registry client\<close>

definition fmt_to_str :: "schema_format \<Rightarrow> string" where
  "fmt_to_str fmt = (case fmt of Avro \<Rightarrow> ''AVRO'' | Json \<Rightarrow> ''JSON'' | Protobuf \<Rightarrow> ''PROTOBUF'')"

definition str_to_fmt :: "string option \<Rightarrow> schema_format" where
  "str_to_fmt s = (if s = Some ''JSON'' then Json else if s = Some ''PROTOBUF'' then Protobuf else Avro)"

record 'p http_reply =
  rp_status :: nat
  rp_text :: string
  rp_json :: "string + 'p"

text \<open>
  The registry as the client reaches it: \<open>rg_join\<close> is \<open>Url::join\<close> on the base
  address, the others send a request (the left value is a transport error);
  \<open>rg_show_status\<close> prints a status and \<open>rg_encode_subject\<close> percent-encodes a
  path segment.
\<close>

record registry =
  rg_join :: "string \<Rightarrow> string + string"
  rg_encode_subject :: "string \<Rightarrow> string"
  rg_show_status :: "nat \<Rightarrow> string"
  rg_get_schema :: "string \<Rightarrow> string + (string \<times> string option) http_reply"
  rg_get_latest :: "string \<Rightarrow> string + (int \<times> string \<times> string option) http_reply"
  rg_post_version :: "string \<Rightarrow> string \<times> string \<Rightarrow> string + int http_reply"

record schema_client =
  cl_by_id :: "(int, string \<times> schema_format) hashmap"
  cl_by_subject_latest :: "(string, int \<times> nat) hashmap"
  cl_latest_cache_ttl :: nat

definition new_client :: "nat \<Rightarrow> schema_client" where
  "new_client ttl = \<lparr>cl_by_id = [], cl_by_subject_latest = [], cl_latest_cache_ttl = ttl\<rparr>"

definition by_id_get :: "schema_client \<Rightarrow> int \<Rightarrow> (string \<times> schema_format) option" where
  "by_id_get c n = hm_get (cl_by_id c) n"

definition by_id_insert :: "int \<Rightarrow> string \<times> schema_format \<Rightarrow> schema_client \<Rightarrow> schema_client" where
  "by_id_insert n entry c = c\<lparr>cl_by_id := hm_insert n entry (cl_by_id c)\<rparr>"

definition is_success :: "nat \<Rightarrow> bool" where
  "is_success status \<longleftrightarrow> 200 \<le> status \<and> status < 300"

definition is_client_error :: "nat \<Rightarrow> bool" where
  "is_client_error status \<longleftrightarrow> 400 \<le> status \<and> status < 500"

definition url_of :: "registry \<Rightarrow> string \<Rightarrow> codec_error + string" where
  "url_of rg path = ctx Registry ''URL build error: '' (rg_join rg path)"

definition registry_failure :: "registry \<Rightarrow> 'p http_reply \<Rightarrow> codec_error" where
  "registry_failure rg r =
     Registry (''registry error (HTTP '' @ rg_show_status rg (rp_status r) @ ''): '' @ rp_text r)"

definition register ::
    "registry \<Rightarrow> string \<Rightarrow> string \<Rightarrow> schema_format \<Rightarrow> schema_client \<Rightarrow> (codec_error + int) \<times> schema_client" where
  "register rg subject schema fmt c =
     (case and_then (url_of rg (''subjects/'' @ rg_encode_subject rg subject @ ''/versions''))
             (\<lambda>url. ctx Registry ''registry transport error: '' (rg_post_version rg url (schema, fmt_to_str fmt))) of
        Err e \<Rightarrow> (Err e, c)
      | Ok resp \<Rightarrow>
          if is_success (rp_status resp) then
            (case ctx Registry ''registry response parse error: '' (rp_json resp) of
               Err e \<Rightarrow> (Err e, c)
             | Ok n \<Rightarrow> (Ok n, by_id_insert n (schema, fmt) c))
          else if is_client_error (rp_status resp) then
            (Err (Validate (''registry rejected schema (HTTP '' @ rg_show_status rg (rp_status resp) @ ''): ''
                    @ rp_text resp)), c)
          else (Err (registry_failure rg resp), c))"

definition schema_by_id ::
    "registry \<Rightarrow> int \<Rightarrow> schema_client \<Rightarrow> (codec_error + (string \<times> schema_format)) \<times> schema_client" where
  "schema_by_id rg n c =
     (case by_id_get c n of
        Some entry \<Rightarrow> (Ok entry, c)
      | None \<Rightarrow>
          (case and_then (url_of rg (''schemas/ids/'' @ show_int n))
                  (\<lambda>url. ctx Registry ''registry transport error: '' (rg_get_schema rg url)) of
             Err e \<Rightarrow> (Err e, c)
           | Ok resp \<Rightarrow>
               if rp_status resp = 404 then (Err (Registry (''schema id '' @ show_int n @ '' not found'')), c)
               else if \<not> is_success (rp_status resp) then (Err (registry_failure rg resp), c)
               else (case ctx Registry ''registry response parse error: '' (rp_json resp) of
                       Err e \<Rightarrow> (Err e, c)
                     | Ok (schema, schema_type) \<Rightarrow>
                         let entry = (schema, str_to_fmt schema_type) in
                         (Ok entry, by_id_insert n entry c))))"

definition latest_cached :: "nat \<Rightarrow> string \<Rightarrow> schema_client \<Rightarrow> (int \<times> string \<times> schema_format) option" where
  "latest_cached now subject c =
     (case hm_get (cl_by_subject_latest c) subject of
        Some (cached_id, fetched_at) \<Rightarrow>
          if now - fetched_at < cl_latest_cache_ttl c then
            (case by_id_get c cached_id of
               Some (schema, fmt) \<Rightarrow> Some (cached_id, schema, fmt)
             | None \<Rightarrow> None)
          else None
      | None \<Rightarrow> None)"

text \<open>\<open>now\<close> is the clock when the call starts and \<open>fetched\<close> when its answer is stored.\<close>

definition latest ::
    "registry \<Rightarrow> nat \<Rightarrow> nat \<Rightarrow> string \<Rightarrow> schema_client \<Rightarrow>
     (codec_error + (int \<times> string \<times> schema_format)) \<times> schema_client" where
  "latest rg now fetched subject c =
     (case latest_cached now subject c of
        Some entry \<Rightarrow> (Ok entry, c)
      | None \<Rightarrow>
          (case and_then (url_of rg (''subjects/'' @ rg_encode_subject rg subject @ ''/versions/latest''))
                  (\<lambda>url. ctx Registry ''registry transport error: '' (rg_get_latest rg url)) of
             Err e \<Rightarrow> (Err e, c)
           | Ok resp \<Rightarrow>
               if rp_status resp = 404 then
                 (Err (Registry ([CHR ''s'', CHR ''u'', CHR ''b'', CHR ''j'', CHR ''e'', CHR ''c'', CHR ''t'', CHR '' '', CHR 0x27]
                          @ subject @ [CHR 0x27] @ '' not found'')), c)
               else if \<not> is_success (rp_status resp) then (Err (registry_failure rg resp), c)
               else (case ctx Registry ''registry response parse error: '' (rp_json resp) of
                       Err e \<Rightarrow> (Err e, c)
                     | Ok (n, schema, schema_type) \<Rightarrow>
                         let fmt = str_to_fmt schema_type in
                         (Ok (n, schema, fmt),
                          (by_id_insert n (schema, fmt) c)
                            \<lparr>cl_by_subject_latest := hm_insert subject (n, fetched) (cl_by_subject_latest c)\<rparr>))))"

section \<open>The cache of prepared schemas\<close>

text \<open>
  Slots are shared between the cache and the calls that hold them, so they live
  in a store: an entry of the cache is the address of its slot.
\<close>

definition PREPARED_SCHEMA_CAPACITY :: nat where
  "PREPARED_SCHEMA_CAPACITY = 1024"

record 'x prepared_cache =
  pc_entries :: "(int, nat) hashmap"
  pc_insertion_order :: "int list"
  pc_slots :: "'x prepared_schema option list"

definition empty_cache :: "'x prepared_cache" where
  "empty_cache = \<lparr>pc_entries = [], pc_insertion_order = [], pc_slots = []\<rparr>"

definition cache_slot :: "int \<Rightarrow> 'x prepared_cache \<Rightarrow> nat \<times> 'x prepared_cache" where
  "cache_slot n c =
     (case hm_get (pc_entries c) n of
        Some addr \<Rightarrow> (addr, c)
      | None \<Rightarrow>
          let addr = length (pc_slots c);
              (entries, order) =
                (if length (pc_entries c) = PREPARED_SCHEMA_CAPACITY then
                   (case pc_insertion_order c of
                      oldest # rest \<Rightarrow> (hm_remove oldest (pc_entries c), rest)
                    | [] \<Rightarrow> (pc_entries c, []))
                 else (pc_entries c, pc_insertion_order c))
          in (addr, \<lparr>pc_entries = hm_insert n addr entries, pc_insertion_order = order @ [n],
                     pc_slots = pc_slots c @ [None]\<rparr>))"

definition get_or_prepare ::
    "'x format_lib \<Rightarrow> nat \<Rightarrow> schema_format \<Rightarrow> string \<Rightarrow> 'x prepared_cache \<Rightarrow>
     (codec_error + 'x prepared_schema) \<times> 'x prepared_cache" where
  "get_or_prepare fl addr fmt schema c =
     (case pc_slots c ! addr of
        Some prepared \<Rightarrow> (Ok prepared, c)
      | None \<Rightarrow>
          (case prepared_new fl fmt schema of
             Err e \<Rightarrow> (Err e, c)
           | Ok prepared \<Rightarrow> (Ok prepared, c\<lparr>pc_slots := (pc_slots c)[addr := Some prepared]\<rparr>)))"

definition codec_prepared ::
    "'x format_lib \<Rightarrow> int \<Rightarrow> schema_format \<Rightarrow> string \<Rightarrow> 'x prepared_cache \<Rightarrow>
     (codec_error + 'x prepared_schema) \<times> 'x prepared_cache" where
  "codec_prepared fl n fmt schema c =
     (case cache_slot n c of (addr, c) \<Rightarrow> get_or_prepare fl addr fmt schema c)"

section \<open>The codec\<close>

text \<open>
  The resolver is any pair of lookups with a state \<open>'s\<close>; in production it is
  the client above.
\<close>

definition subject_for :: "string \<Rightarrow> string" where
  "subject_for t = t @ ''-value''"

definition no_schema_registered :: "string \<Rightarrow> codec_error \<Rightarrow> codec_error" where
  "no_schema_registered subject e =
     (case e of Registry _ \<Rightarrow> Registry (''no schema registered for subject '' @ subject) | _ \<Rightarrow> e)"

type_synonym ('x, 's) codec_state = "'x prepared_cache \<times> 's"

definition registry_encode ::
    "'x format_lib \<Rightarrow> (int \<Rightarrow> 's \<Rightarrow> (codec_error + (string \<times> schema_format)) \<times> 's) \<Rightarrow>
     (string \<Rightarrow> 's \<Rightarrow> (codec_error + (int \<times> string \<times> schema_format)) \<times> 's) \<Rightarrow> bool \<Rightarrow>
     string \<Rightarrow> encode_body \<Rightarrow> ('x, 's) codec_state \<Rightarrow> (codec_error + bytes) \<times> ('x, 's) codec_state" where
  "registry_encode fl by_id latest_of frame_raw t body st =
     (case st of (c, s) \<Rightarrow>
        case body of
          Raw bs \<Rightarrow>
            if frame_raw then
              (case latest_of (subject_for t) s of
                 (Err e, s) \<Rightarrow> (Err e, (c, s))
               | (Ok (n, _, fmt), s) \<Rightarrow> (Ok (encode_frame n fmt bs), (c, s)))
            else (Ok bs, (c, s))
        | Structured json sel \<Rightarrow>
            let subject = (case sel_subject sel of Some x \<Rightarrow> x | None \<Rightarrow> subject_for t);
                (resolved, s) =
                  (case sel_id sel of
                     Some n \<Rightarrow>
                       (case by_id n s of
                          (Err e, s) \<Rightarrow> (Err e, s)
                        | (Ok (schema, fmt), s) \<Rightarrow> (Ok (n, schema, fmt), s))
                   | None \<Rightarrow>
                       (case latest_of subject s of
                          (r, s) \<Rightarrow> (map_err (no_schema_registered subject) r, s)))
            in case resolved of
                 Err e \<Rightarrow> (Err e, (c, s))
               | Ok (n, schema, fmt) \<Rightarrow>
                   (case codec_prepared fl n fmt schema c of
                      (prepared, c) \<Rightarrow>
                        (and_then prepared (\<lambda>p. and_then (prepared_serialize fl p json) (\<lambda>payload.
                           Ok (encode_frame n fmt payload))), (c, s))))"

definition registry_decode ::
    "'x format_lib \<Rightarrow> (int \<Rightarrow> 's \<Rightarrow> (codec_error + (string \<times> schema_format)) \<times> 's) \<Rightarrow>
     string \<Rightarrow> bytes \<Rightarrow> ('x, 's) codec_state \<Rightarrow> (codec_error + decoded) \<times> ('x, 's) codec_state" where
  "registry_decode fl by_id t v st =
     (case st of (c, s) \<Rightarrow>
        if v = [] \<or> hd v \<noteq> 0 then (Ok \<lparr>dec_value = v, dec_schema = None, dec_json = None\<rparr>, (c, s))
        else case decode_frame_bytes v of
          Err e \<Rightarrow> (Err e, (c, s))
        | Ok (n, rest) \<Rightarrow>
            (case by_id n s of
               (Err e, s) \<Rightarrow> (Err e, (c, s))
             | (Ok (schema, fmt), s) \<Rightarrow>
                 (case (if fmt = Protobuf then strip_proto_index_bytes rest else Ok rest) of
                    Err e \<Rightarrow> (Err e, (c, s))
                  | Ok payload \<Rightarrow>
                      (case codec_prepared fl n fmt schema c of
                         (prepared, c) \<Rightarrow>
                           (and_then prepared (\<lambda>p. and_then (prepared_deserialize fl p payload) (\<lambda>json.
                              Ok \<lparr>dec_value = payload,
                                  dec_schema = Some \<lparr>meta_subject = subject_for t, meta_id = n, meta_format = fmt\<rparr>,
                                  dec_json = Some json\<rparr>)), (c, s))))))"

section \<open>Laws of the client's schema cache\<close>

interpretation client_ids: keyed_store by_id_get by_id_insert
  by unfold_locales (simp add: by_id_get_def by_id_insert_def)

lemma schema_by_id_cached: "by_id_get c n = Some v \<Longrightarrow> schema_by_id rg n c = (Ok v, c)"
  by (simp add: schema_by_id_def)

lemma schema_by_id_stores: "schema_by_id rg n c = (Ok v, c') \<Longrightarrow> by_id_get c' n = Some v"
  by (auto simp: schema_by_id_def client_ids.get_put_same Let_def split: option.splits sum.splits if_splits)

lemma latest_stores: "latest rg now fetched subject c = (Ok (n, v), c') \<Longrightarrow> by_id_get c' n = Some v"
  using client_ids.get_put_same
  by (auto simp: latest_def latest_cached_def Let_def by_id_get_def by_id_insert_def
      split: option.splits sum.splits if_splits)

section \<open>The cache of prepared schemas\<close>

definition cache_inv :: "'x prepared_cache \<Rightarrow> bool" where
  "cache_inv c \<longleftrightarrow> hm_ok (pc_entries c) \<and> distinct (map snd (pc_entries c))
     \<and> distinct (pc_insertion_order c) \<and> set (pc_insertion_order c) = fst ` set (pc_entries c)
     \<and> length (pc_entries c) \<le> PREPARED_SCHEMA_CAPACITY
     \<and> (\<forall>a\<in>snd ` set (pc_entries c). a < length (pc_slots c))"

lemma hm_insert_fresh: "hm_get m k = None \<Longrightarrow> hm_insert k v m = m @ [(k, v)]"
  by (induction m) (auto split: if_splits)

lemma hm_remove_filter: "hm_remove k m = filter (\<lambda>(k', _). k \<noteq> k') m"
  by (simp add: AList.delete_eq)

lemma hm_keys_remove: "fst ` set (hm_remove k m) = fst ` set m - {k}"
  by (metis AList.delete_keys list.set_map set_removeAll)

lemma hm_remove_length:
  assumes "hm_ok m" "k \<in> fst ` set m"
  shows "Suc (length (hm_remove k m)) = length m"
proof -
  have "length m = card (fst ` set m)" if "hm_ok m" for m :: "('a, 'b) hashmap"
    using that by (metis hm_ok_def distinct_card length_map set_map)
  moreover have "fst ` set (hm_remove k m) = fst ` set m - {k}"
    by (rule hm_keys_remove)
  ultimately show ?thesis using assms
    by (metis List.finite_set card.remove finite_imageI hm_ok_remove)
qed

text \<open>Making room for one more entry: below capacity nothing moves, at capacity the oldest goes.\<close>

lemma cache_evict_inv:
  assumes inv: "cache_inv c"
  defines "r \<equiv> (if length (pc_entries c) = PREPARED_SCHEMA_CAPACITY then
                   (case pc_insertion_order c of
                      oldest # rest \<Rightarrow> (hm_remove oldest (pc_entries c), rest)
                    | [] \<Rightarrow> (pc_entries c, []))
                 else (pc_entries c, pc_insertion_order c))"
  shows "cache_inv (c\<lparr>pc_entries := fst r, pc_insertion_order := snd r\<rparr>)"
    and "length (fst r) < PREPARED_SCHEMA_CAPACITY"
    and "set (fst r) \<subseteq> set (pc_entries c)"
proof -
  have nonempty: "pc_insertion_order c \<noteq> []" if "length (pc_entries c) = PREPARED_SCHEMA_CAPACITY"
    using inv that by (auto simp: cache_inv_def PREPARED_SCHEMA_CAPACITY_def)
  show "length (fst r) < PREPARED_SCHEMA_CAPACITY"
  proof (cases "length (pc_entries c) = PREPARED_SCHEMA_CAPACITY")
    case True
    obtain x xs where o: "pc_insertion_order c = x # xs" using nonempty[OF True] by (cases "pc_insertion_order c") auto
    have "Suc (length (hm_remove x (pc_entries c))) = length (pc_entries c)"
      by (rule hm_remove_length) (use inv o in \<open>auto simp: cache_inv_def\<close>)
    thus ?thesis using True o by (simp add: r_def)
  next
    case False
    thus ?thesis using inv by (simp add: r_def cache_inv_def)
  qed
  show sub: "set (fst r) \<subseteq> set (pc_entries c)"
    by (auto simp: r_def hm_remove_filter split: list.splits)
  have snds: "distinct (map snd (fst r))"
    using inv by (auto simp: r_def hm_remove_filter cache_inv_def distinct_map_filter split: list.splits)
  have ord: "distinct (snd r) \<and> set (snd r) = fst ` set (fst r)"
  proof (cases "length (pc_entries c) = PREPARED_SCHEMA_CAPACITY")
    case True
    obtain x xs where o: "pc_insertion_order c = x # xs" using nonempty[OF True] by (cases "pc_insertion_order c") auto
    have "fst ` set (hm_remove x (pc_entries c)) = insert x (set xs) - {x}"
      using inv o by (simp add: cache_inv_def hm_keys_remove)
    thus ?thesis using True o inv by (auto simp: r_def cache_inv_def)
  next
    case False
    thus ?thesis using inv by (simp add: r_def cache_inv_def)
  qed
  show "cache_inv (c\<lparr>pc_entries := fst r, pc_insertion_order := snd r\<rparr>)"
    using inv snds ord sub \<open>length (fst r) < _\<close>
    by (auto simp: cache_inv_def r_def split: list.splits)
qed

lemma cache_slot_spec:
  assumes inv: "cache_inv c" and slot: "cache_slot n c = (a, c')"
  shows "cache_inv c' \<and> hm_get (pc_entries c') n = Some a
     \<and> (\<forall>m b. hm_get (pc_entries c') m = Some b \<longrightarrow>
          hm_get (pc_entries c) m = Some b \<and> pc_slots c' ! b = pc_slots c ! b
            \<or> m = n \<and> b = a \<and> pc_slots c' ! b = None)"
proof (cases "hm_get (pc_entries c) n")
  case (Some b)
  thus ?thesis using assms by (simp add: cache_slot_def)
next
  case None
  define r where "r = (if length (pc_entries c) = PREPARED_SCHEMA_CAPACITY then
                   (case pc_insertion_order c of
                      oldest # rest \<Rightarrow> (hm_remove oldest (pc_entries c), rest)
                    | [] \<Rightarrow> (pc_entries c, []))
                 else (pc_entries c, pc_insertion_order c))"
  note ev = cache_evict_inv[OF inv, folded r_def]
  have a: "a = length (pc_slots c)"
    and c': "c' = \<lparr>pc_entries = hm_insert n a (fst r), pc_insertion_order = snd r @ [n], pc_slots = pc_slots c @ [None]\<rparr>"
    using slot None by (auto simp: cache_slot_def Let_def r_def[symmetric] case_prod_beta)
  have n: "n \<notin> fst ` set (fst r)" using None ev(3) by (auto simp: map_of_eq_None_iff)
  hence ins: "hm_insert n a (fst r) = fst r @ [(n, a)]" by (intro hm_insert_fresh) (simp add: map_of_eq_None_iff)
  have lt: "b < length (pc_slots c)" if "(m, b) \<in> set (fst r)" for m b
    using that ev(3) inv by (force simp: cache_inv_def)
  have "cache_inv c'"
    using ev(1,2) n lt by (auto simp: cache_inv_def c' ins[unfolded a] hm_ok_def a less_Suc_eq image_iff)
  moreover have "hm_get (pc_entries c) m = Some b \<and> pc_slots c' ! b = pc_slots c ! b"
    if "hm_get (fst r) m = Some b" for m b
  proof -
    have "(m, b) \<in> set (fst r)" using that by (rule map_of_SomeD)
    thus ?thesis using ev(3) inv lt[of m b] by (auto simp: cache_inv_def hm_in_set c' nth_append)
  qed
  moreover have "pc_slots c' ! a = None" by (simp add: c' a)
  ultimately show ?thesis by (auto simp: c')
qed

lemma cache_inv_slots [simp]:
  "length ss = length (pc_slots c) \<Longrightarrow> cache_inv (c\<lparr>pc_slots := ss\<rparr>) = cache_inv c"
  by (simp add: cache_inv_def)

lemma cache_inv_inj:
  "\<lbrakk>cache_inv c; hm_get (pc_entries c) m = Some a; hm_get (pc_entries c) n = Some a\<rbrakk> \<Longrightarrow> m = n"
  by (auto simp: cache_inv_def dest!: map_of_SomeD) (metis (mono_tags) distinct_map inj_onD prod.sel)

lemma codec_prepared_inv:
  assumes "cache_inv c"
  shows "cache_inv (snd (codec_prepared fl n fmt schema c))"
proof -
  obtain a c1 where s: "cache_slot n c = (a, c1)" by fastforce
  have "cache_inv c1" using cache_slot_spec[OF assms s] by simp
  thus ?thesis
    by (simp add: codec_prepared_def s get_or_prepare_def split: option.splits sum.splits)
qed

interpretation prepared: invariant_machine "\<lambda>(n, fmt, schema). snd \<circ> codec_prepared fl n fmt schema" cache_inv for fl
  by unfold_locales (auto intro: codec_prepared_inv)

text \<open>
  The cache agrees with a registry when every compiled schema it holds is the
  compilation of what the registry has under that id.
\<close>

definition cache_agrees :: "'x format_lib \<Rightarrow> (int \<Rightarrow> string \<times> schema_format) \<Rightarrow> 'x prepared_cache \<Rightarrow> bool" where
  "cache_agrees fl truth c \<longleftrightarrow>
     (\<forall>n a p. hm_get (pc_entries c) n = Some a \<longrightarrow> pc_slots c ! a = Some p \<longrightarrow>
        prepared_new fl (snd (truth n)) (fst (truth n)) = Ok p)"

lemma cache_agreesD:
  "\<lbrakk>cache_agrees fl truth c; hm_get (pc_entries c) n = Some a; pc_slots c ! a = Some p\<rbrakk> \<Longrightarrow>
     prepared_new fl (snd (truth n)) (fst (truth n)) = Ok p"
  by (simp add: cache_agrees_def)

lemma codec_prepared_agrees:
  assumes inv: "cache_inv c" and ag: "cache_agrees fl truth c"
  shows "fst (codec_prepared fl n (snd (truth n)) (fst (truth n)) c) = prepared_new fl (snd (truth n)) (fst (truth n))
     \<and> cache_agrees fl truth (snd (codec_prepared fl n (snd (truth n)) (fst (truth n)) c))"
proof -
  obtain a c1 where s: "cache_slot n c = (a, c1)" by fastforce
  note sp = cache_slot_spec[OF inv s]
  have ag1: "cache_agrees fl truth c1"
    unfolding cache_agrees_def using sp cache_agreesD[OF ag] by (metis option.distinct(1))
  have na: "hm_get (pc_entries c1) n = Some a" using sp by simp
  show ?thesis
  proof (cases "pc_slots c1 ! a")
    case (Some p)
    thus ?thesis using ag1 cache_agreesD[OF ag1 na Some]
      by (simp add: codec_prepared_def s get_or_prepare_def)
  next
    case None
    show ?thesis
    proof (cases "prepared_new fl (snd (truth n)) (fst (truth n))")
      case (Inl e)
      thus ?thesis using None ag1 by (simp add: codec_prepared_def s get_or_prepare_def)
    next
      case (Inr p)
      let ?c = "c1\<lparr>pc_slots := (pc_slots c1)[a := Some p]\<rparr>"
      have "cache_agrees fl truth ?c"
        unfolding cache_agrees_def
      proof (intro allI impI)
        fix m b q
        assume m: "hm_get (pc_entries ?c) m = Some b" and q: "pc_slots ?c ! b = Some q"
        show "prepared_new fl (snd (truth m)) (fst (truth m)) = Ok q"
        proof (cases "b = a")
          case True
          have "m = n" using cache_inv_inj[of c1 m a n] sp m True by simp
          moreover have "a < length (pc_slots c1)" using sp na by (force simp: cache_inv_def dest: map_of_SomeD)
          ultimately show ?thesis using q Inr True by simp
        next
          case False
          thus ?thesis using m q cache_agreesD[OF ag1] by simp
        qed
      qed
      thus ?thesis using None Inr by (simp add: codec_prepared_def s get_or_prepare_def)
    qed
  qed
qed

lemma codec_prepared_again:
  assumes inv: "cache_inv c" and ok: "codec_prepared fl n fmt schema c = (Ok p, c')"
  shows "codec_prepared fl n fmt schema c' = (Ok p, c')"
proof -
  obtain a c1 where s: "cache_slot n c = (a, c1)" by fastforce
  note sp = cache_slot_spec[OF inv s]
  have lt: "a < length (pc_slots c1)" using sp by (force simp: cache_inv_def dest: map_of_SomeD)
  have "hm_get (pc_entries c') n = Some a" "pc_slots c' ! a = Some p"
    using ok lt sp by (auto simp: codec_prepared_def s get_or_prepare_def split: option.splits sum.splits)
  thus ?thesis by (simp add: codec_prepared_def cache_slot_def get_or_prepare_def)
qed

text \<open>A run of lookups, each with the schema the registry has under its id.\<close>

fun prepare_run ::
    "'x format_lib \<Rightarrow> (int \<Rightarrow> string \<times> schema_format) \<Rightarrow> int list \<Rightarrow> 'x prepared_cache \<Rightarrow>
     (codec_error + 'x prepared_schema) list \<times> 'x prepared_cache" where
  "prepare_run fl truth [] c = ([], c)"
| "prepare_run fl truth (n # ns) c =
     (case codec_prepared fl n (snd (truth n)) (fst (truth n)) c of
        (r, c) \<Rightarrow> (case prepare_run fl truth ns c of (rs, c) \<Rightarrow> (r # rs, c)))"

lemma prepare_run_agrees:
  "\<lbrakk>cache_inv c; cache_agrees fl truth c\<rbrakk> \<Longrightarrow>
     fst (prepare_run fl truth ns c) = map (\<lambda>n. prepared_new fl (snd (truth n)) (fst (truth n))) ns
     \<and> cache_inv (snd (prepare_run fl truth ns c))"
proof (induction ns arbitrary: c)
  case (Cons n ns)
  let ?r = "codec_prepared fl n (snd (truth n)) (fst (truth n)) c"
  have "cache_inv (snd ?r)" using Cons.prems(1) by (rule codec_prepared_inv)
  moreover have "cache_agrees fl truth (snd ?r)" "fst ?r = prepared_new fl (snd (truth n)) (fst (truth n))"
    using codec_prepared_agrees[OF Cons.prems] by simp_all
  ultimately show ?case using Cons.IH[of "snd ?r"] by (simp add: case_prod_beta)
qed simp

lemma empty_cache_inv: "cache_inv empty_cache" "cache_agrees fl truth empty_cache"
  by (simp_all add: cache_inv_def cache_agrees_def empty_cache_def)

section \<open>The codec over a resolver\<close>

lemma json_prepared_identity:
  "prepared_serialize fl (PreparedJson v) json = Ok payload \<Longrightarrow>
     payload = json \<and> prepared_deserialize fl (PreparedJson v) payload = Ok json"
  by (auto simp: and_then_Ok_iff)

text \<open>
  What the codec relies on: an id that the resolver has handed out, alone or as
  the latest of a subject, keeps resolving to the same schema without changing
  the resolver. \<open>by_id_later\<close> is the lookup of a later call, when the registry
  may answer differently or not at all.
\<close>

locale schema_resolver =
  fixes by_id :: "int \<Rightarrow> 's \<Rightarrow> (codec_error + (string \<times> schema_format)) \<times> 's"
    and latest_of :: "string \<Rightarrow> 's \<Rightarrow> (codec_error + (int \<times> string \<times> schema_format)) \<times> 's"
    and by_id_later :: "int \<Rightarrow> 's \<Rightarrow> (codec_error + (string \<times> schema_format)) \<times> 's"
  assumes by_id_stable: "by_id n s = (Ok v, s') \<Longrightarrow> by_id_later n s' = (Ok v, s')"
    and latest_stable: "latest_of subject s = (Ok (n, v), s') \<Longrightarrow> by_id_later n s' = (Ok v, s')"
begin

lemma encode_structured:
  assumes "registry_encode fl by_id latest_of frame_raw t (Structured json sel) (c, s) = (Ok frame, (c', s'))"
  obtains n fmt schema p payload where
    "by_id_later n s' = (Ok (schema, fmt), s')" "codec_prepared fl n fmt schema c = (Ok p, c')"
    "prepared_serialize fl p json = Ok payload" "frame = encode_frame n fmt payload"
proof (cases "sel_id sel")
  case None
  let ?subject = "case sel_subject sel of Some x \<Rightarrow> x | None \<Rightarrow> subject_for t"
  show ?thesis using assms None that latest_stable[of ?subject s]
    by (fastforce simp: registry_encode_def Let_def and_then_Ok_iff case_prod_beta prod_eq_iff split: prod.splits sum.splits)
next
  case (Some n)
  show ?thesis using assms Some that by_id_stable[of n s]
    by (fastforce simp: registry_encode_def Let_def and_then_Ok_iff split: prod.splits sum.splits)
qed

lemma decode_frame_of:
  assumes "in_i32 n" "by_id_later n s = (Ok (schema, fmt), s)" "codec_prepared fl n fmt schema c = (Ok p, c)"
  shows "registry_decode fl by_id_later t (encode_frame n fmt payload) (c, s) =
    (and_then (prepared_deserialize fl p payload) (\<lambda>json.
       Ok \<lparr>dec_value = payload,
           dec_schema = Some \<lparr>meta_subject = subject_for t, meta_id = n, meta_format = fmt\<rparr>,
           dec_json = Some json\<rparr>), (c, s))"
  using assms(2,3)
  by (cases "fmt = Protobuf") (simp_all add: registry_decode_def frame_bytes_decode[OF assms(1)])

lemma decode_of_encode:
  assumes "cache_inv c"
    and "registry_encode fl by_id latest_of frame_raw t (Structured json sel) (c, s) = (Ok frame, st)"
  shows "\<exists>n fmt p payload. frame = encode_frame n fmt payload \<and> prepared_serialize fl p json = Ok payload
     \<and> (in_i32 n \<longrightarrow>
          registry_decode fl by_id_later t' frame st =
            (and_then (prepared_deserialize fl p payload) (\<lambda>j.
               Ok \<lparr>dec_value = payload,
                   dec_schema = Some \<lparr>meta_subject = subject_for t', meta_id = n, meta_format = fmt\<rparr>,
                   dec_json = Some j\<rparr>), st))
     \<and> (\<forall>v. p = PreparedJson v \<longrightarrow> payload = json \<and> prepared_deserialize fl p payload = Ok json)"
proof -
  obtain c' s' where st: "st = (c', s')" by fastforce
  obtain n fmt schema p payload where
    e: "by_id_later n s' = (Ok (schema, fmt), s')" "codec_prepared fl n fmt schema c = (Ok p, c')"
      "prepared_serialize fl p json = Ok payload" "frame = encode_frame n fmt payload"
    by (rule encode_structured[OF assms(2)[unfolded st]])
  note d = decode_frame_of[OF _ e(1) codec_prepared_again[OF assms(1) e(2)], of t' payload]
  show ?thesis
  proof (intro exI[of _ n] exI[of _ fmt] exI[of _ p] exI[of _ payload] conjI impI allI)
    show "frame = encode_frame n fmt payload" by (rule e(4))
    show "prepared_serialize fl p json = Ok payload" by (rule e(3))
    show "payload = json" if "p = PreparedJson v" for v
      by (rule conjunct1[OF json_prepared_identity[OF e(3)[unfolded that]]])
    show "prepared_deserialize fl p payload = Ok json" if "p = PreparedJson v" for v
      unfolding that by (rule conjunct2[OF json_prepared_identity[OF e(3)[unfolded that]]])
  qed (unfold st e(4), rule d)
qed

end

interpretation client: schema_resolver "schema_by_id rg" "latest rg now fetched" "schema_by_id rg'"
  for rg now fetched rg'
  by unfold_locales (auto intro: schema_by_id_cached dest: schema_by_id_stores latest_stores)

section \<open>Properties\<close>

text \<open>
  C29: The bounded cache of compiled schemas is invisible: for every sequence of
  lookups, each lookup returns exactly what compiling the registry's schema of
  that id afresh would return, errors included, and the cache never holds more
  than 1024 entries.
\<close>

theorem prepared_cache_transparent:
  "fst (prepare_run fl truth ns empty_cache) = map (\<lambda>n. prepared_new fl (snd (truth n)) (fst (truth n))) ns
     \<and> length (pc_entries (snd (prepare_run fl truth ns empty_cache))) \<le> PREPARED_SCHEMA_CAPACITY"
  using prepare_run_agrees[OF empty_cache_inv, of fl truth ns] by (simp add: cache_inv_def)


definition sample_lib :: "unit format_lib" where
  "sample_lib = \<lparr>fl_json_parse = (\<lambda>_. Ok ()), fl_json_print = (\<lambda>_. Ok []), fl_avro_schema = (\<lambda>_. Ok ()),
     fl_avro_of_json = Ok, fl_avro_resolve = (\<lambda>_. Ok), fl_avro_write = (\<lambda>_ _. Ok []), fl_avro_read = (\<lambda>_ _. Ok ()),
     fl_json_of_avro = Ok, fl_validator_for = Ok, fl_iter_errors = (\<lambda>_ _. []), fl_proto_parse = (\<lambda>_. Ok ()),
     fl_proto_pool = (\<lambda>_. Ok [()]), fl_proto_of_json = (\<lambda>_ _. Ok ()), fl_proto_encode = (\<lambda>_. []),
     fl_proto_decode = (\<lambda>_ _. Ok ()), fl_json_of_proto = (\<lambda>_. Ok [])\<rparr>"

definition sample_registry :: registry where
  "sample_registry = \<lparr>rg_join = Ok, rg_encode_subject = id, rg_show_status = show_nat,
     rg_get_schema = (\<lambda>_. Ok \<lparr>rp_status = 200, rp_text = [], rp_json = Ok ([], Some ''JSON'')\<rparr>),
     rg_get_latest = (\<lambda>_. Ok \<lparr>rp_status = 200, rp_text = [], rp_json = Ok (7, [], Some ''JSON'')\<rparr>),
     rg_post_version = (\<lambda>_ _. Ok \<lparr>rp_status = 200, rp_text = [], rp_json = Ok 7\<rparr>)\<rparr>"


end
