(* ===== verification/Gw_Utf8.thy ===== *)
theory Gw_Utf8
  imports Gw_Prelude
begin

text \<open>
  UTF-8 as Rust's standard library reads it: the validity check of
  \<open>str::from_utf8\<close> and the replacement of ill-formed sequences by
  \<open>String::from_utf8_lossy\<close> (one U+FFFD per maximal ill-formed chunk).
\<close>

definition continuation :: "byte \<Rightarrow> bool" where
  "continuation b \<longleftrightarrow> 0x80 \<le> b \<and> b \<le> 0xBF"

text \<open>Whether \<open>b\<close> may follow the leading byte \<open>a\<close> of a three or four byte sequence.\<close>

definition second_of_three :: "byte \<Rightarrow> byte \<Rightarrow> bool" where
  "second_of_three a b \<longleftrightarrow>
     (if a = 0xE0 then 0xA0 \<le> b \<and> b \<le> 0xBF
      else if a = 0xED then 0x80 \<le> b \<and> b \<le> 0x9F
      else continuation b)"

definition second_of_four :: "byte \<Rightarrow> byte \<Rightarrow> bool" where
  "second_of_four a b \<longleftrightarrow>
     (if a = 0xF0 then 0x90 \<le> b \<and> b \<le> 0xBF
      else if a = 0xF4 then 0x80 \<le> b \<and> b \<le> 0x8F
      else continuation b)"

definition next_is :: "(byte \<Rightarrow> bool) \<Rightarrow> bytes \<Rightarrow> bool" where
  "next_is P bs = (case bs of [] \<Rightarrow> False | b # _ \<Rightarrow> P b)"

text \<open>The first chunk of a non-empty input: whether it is one well-formed character, and its length.\<close>

definition utf8_chunk :: "byte \<Rightarrow> bytes \<Rightarrow> bool \<times> nat" where
  "utf8_chunk a rest =
     (if a < 0x80 then (True, 1)
      else if 0xC2 \<le> a \<and> a \<le> 0xDF then
        (if next_is continuation rest then (True, 2) else (False, 1))
      else if 0xE0 \<le> a \<and> a \<le> 0xEF then
        (if \<not> next_is (second_of_three a) rest then (False, 1)
         else if \<not> next_is continuation (drop 1 rest) then (False, 2)
         else (True, 3))
      else if 0xF0 \<le> a \<and> a \<le> 0xF4 then
        (if \<not> next_is (second_of_four a) rest then (False, 1)
         else if \<not> next_is continuation (drop 1 rest) then (False, 2)
         else if \<not> next_is continuation (drop 2 rest) then (False, 3)
         else (True, 4))
      else (False, 1))"

lemma utf8_chunk_len [simp]: "0 < snd (utf8_chunk a rest)"
  by (simp add: utf8_chunk_def)

lemma utf8_chunk_bound: "snd (utf8_chunk a rest) \<le> Suc (length rest)"
  by (auto simp: utf8_chunk_def next_is_def split: list.splits if_splits)

function utf8_valid :: "bytes \<Rightarrow> bool" where
  "utf8_valid [] = True"
| "utf8_valid (a # rest) = (fst (utf8_chunk a rest) \<and> utf8_valid (drop (snd (utf8_chunk a rest)) (a # rest)))"
  by pat_completeness auto
termination by (relation "measure length") (auto simp: utf8_chunk_len)

function from_utf8_lossy :: "bytes \<Rightarrow> string" where
  "from_utf8_lossy [] = []"
| "from_utf8_lossy (a # rest) =
     (if fst (utf8_chunk a rest) then of_bytes (take (snd (utf8_chunk a rest)) (a # rest))
      else [CHR 0xEF, CHR 0xBF, CHR 0xBD])
     @ from_utf8_lossy (drop (snd (utf8_chunk a rest)) (a # rest))"
  by pat_completeness auto
termination by (relation "measure length") (auto simp: utf8_chunk_len)

declare utf8_valid.simps(2) [simp del] from_utf8_lossy.simps(2) [simp del]

definition from_utf8 :: "bytes \<Rightarrow> string option" where
  "from_utf8 bs = (if utf8_valid bs then Some (of_bytes bs) else None)"

lemma from_utf8_lossy_valid: "utf8_valid bs \<Longrightarrow> from_utf8_lossy bs = of_bytes bs"
proof (induction bs rule: utf8_valid.induct)
  case (2 a rest)
  let ?n = "snd (utf8_chunk a rest)"
  have "of_bytes (take ?n (a # rest)) @ of_bytes (drop ?n (a # rest)) = of_bytes (a # rest)"
    unfolding of_bytes_def map_append[symmetric] append_take_drop_id ..
  thus ?case using 2 by (simp add: utf8_valid.simps(2) from_utf8_lossy.simps(2))
qed (simp add: of_bytes_def)

text \<open>The invariant of a Rust \<open>String\<close>.\<close>

definition str_ok :: "string \<Rightarrow> bool" where
  "str_ok s = utf8_valid (as_bytes s)"

lemma from_utf8_lossy_str [simp]: "str_ok s \<Longrightarrow> from_utf8_lossy (as_bytes s) = s"
  by (simp add: str_ok_def from_utf8_lossy_valid)

end
