(* ===== verification/Gw_Kafka.thy ===== *)
theory Gw_Kafka
  imports Gw_Types Gw_Proto Gw_Utf8
begin

text \<open>
  What the produce side uses of the client libraries, as parameters: the
  producers of the Kafka client over a world \<open>'w\<close> they act on, and the serde
  derivations for the values the gateway stores in its internal topics. Also
  the metric events the operations emit, with the counters of \<open>metrics.rs\<close>.
\<close>

section \<open>Producers\<close>

record producer_record =
  kr_topic :: string
  kr_partition :: "int option"
  kr_key :: "bytes option"
  kr_value :: "bytes option"
  kr_headers :: "header list"
  kr_timestamp_ms :: "int option"

text \<open>
  \<open>kf_init p\<close> builds the transactional producer of dedup partition \<open>p\<close> and runs
  \<open>init_transactions\<close>; \<open>kf_begin\<close>, \<open>kf_txn_send\<close>, \<open>kf_commit\<close> and \<open>kf_abort\<close> act
  on the producer of that partition. \<open>kf_publish\<close> is the membership producer,
  \<open>kf_send\<close> and \<open>kf_enqueue\<close> the plain ones; \<open>kf_await\<close> waits for the delivery
  of an enqueued record.
\<close>

record 'w kafka =
  kf_init :: "nat \<Rightarrow> 'w \<Rightarrow> (producer_error + unit) \<times> 'w"
  kf_begin :: "nat \<Rightarrow> 'w \<Rightarrow> (producer_error + unit) \<times> 'w"
  kf_txn_send :: "nat \<Rightarrow> producer_record \<Rightarrow> 'w \<Rightarrow> (producer_error + (int \<times> int)) \<times> 'w"
  kf_commit :: "nat \<Rightarrow> 'w \<Rightarrow> (producer_error + unit) \<times> 'w"
  kf_abort :: "nat \<Rightarrow> 'w \<Rightarrow> (producer_error + unit) \<times> 'w"
  kf_publish :: "producer_record \<Rightarrow> 'w \<Rightarrow> (producer_error + unit) \<times> 'w"
  kf_send :: "acks \<Rightarrow> producer_record \<Rightarrow> 'w \<Rightarrow> (producer_error + (int \<times> int)) \<times> 'w"
  kf_enqueue :: "acks \<Rightarrow> producer_record \<Rightarrow> 'w \<Rightarrow> (producer_error + nat) \<times> 'w"
  kf_await :: "nat \<Rightarrow> 'w \<Rightarrow> (producer_error + (int \<times> int)) \<times> 'w"

definition to_producer_record :: "gateway_record \<Rightarrow> bytes \<Rightarrow> producer_record" where
  "to_producer_record rec v =
     \<lparr>kr_topic = gr_topic rec, kr_partition = gr_partition rec, kr_key = gr_key rec, kr_value = Some v,
      kr_headers = gr_headers rec, kr_timestamp_ms = gr_timestamp_ms rec\<rparr>"

section \<open>Values in the internal topics\<close>

record claim_value =
  cv_topic :: string
  cv_partition :: int
  cv_offset :: int

record node_info =
  ni_advertised_addr :: string
  ni_owned :: "nat list"
  ni_epoch :: nat

record serde =
  sd_claim_to_vec :: "claim_value \<Rightarrow> string + bytes"
  sd_claim_from_slice :: "bytes \<Rightarrow> string + claim_value"
  sd_node_to_vec :: "node_info \<Rightarrow> string + bytes"
  sd_node_from_slice :: "bytes \<Rightarrow> string + node_info"

section \<open>Metrics\<close>

text \<open>One constructor per recorder of \<open>GatewayMetrics\<close>; latencies are in nanoseconds.\<close>

datatype metric =
    RecordSend string
  | ObserveProduceLatency nat
  | RecordDedupHit
  | RecordForward string
  | RecordTxn string
  | SetOwnedPartitions int
  | IncActiveSubscriptions
  | DecActiveSubscriptions
  | RecordWebhookIn string
  | RecordWebhookOut string
  | RecordWebhookRetry
  | RecordDeadLetter
  | ObserveRequestDuration string nat
  | IncInflight
  | DecInflight

record gateway_metrics =
  mt_sends_total :: "(string, nat) hashmap"
  mt_produce_latency :: "nat list"
  mt_dedup_hits_total :: nat
  mt_forward_total :: "(string, nat) hashmap"
  mt_txn_total :: "(string, nat) hashmap"
  mt_active_subscriptions :: int
  mt_owned_partitions :: int
  mt_webhook_in_total :: "(string, nat) hashmap"
  mt_webhook_out_total :: "(string, nat) hashmap"
  mt_webhook_retries_total :: nat
  mt_dead_letter_total :: nat
  mt_request_duration :: "(string, nat list) hashmap"
  mt_inflight_requests :: int

definition get_or_create :: "'v \<Rightarrow> string \<Rightarrow> (string, 'v) hashmap \<Rightarrow> 'v" where
  "get_or_create d label m = (case hm_get m label of Some n \<Rightarrow> n | None \<Rightarrow> d)"

definition family_inc :: "string \<Rightarrow> (string, nat) hashmap \<Rightarrow> (string, nat) hashmap" where
  "family_inc label m = hm_insert label (get_or_create 0 label m + 1) m"

fun record_metric :: "metric \<Rightarrow> gateway_metrics \<Rightarrow> gateway_metrics" where
  "record_metric (RecordSend r) m = m\<lparr>mt_sends_total := family_inc r (mt_sends_total m)\<rparr>"
| "record_metric (ObserveProduceLatency t) m = m\<lparr>mt_produce_latency := mt_produce_latency m @ [t]\<rparr>"
| "record_metric RecordDedupHit m = m\<lparr>mt_dedup_hits_total := mt_dedup_hits_total m + 1\<rparr>"
| "record_metric (RecordForward r) m = m\<lparr>mt_forward_total := family_inc r (mt_forward_total m)\<rparr>"
| "record_metric (RecordTxn k) m = m\<lparr>mt_txn_total := family_inc k (mt_txn_total m)\<rparr>"
| "record_metric (SetOwnedPartitions n) m = m\<lparr>mt_owned_partitions := n\<rparr>"
| "record_metric IncActiveSubscriptions m = m\<lparr>mt_active_subscriptions := mt_active_subscriptions m + 1\<rparr>"
| "record_metric DecActiveSubscriptions m = m\<lparr>mt_active_subscriptions := mt_active_subscriptions m - 1\<rparr>"
| "record_metric (RecordWebhookIn r) m = m\<lparr>mt_webhook_in_total := family_inc r (mt_webhook_in_total m)\<rparr>"
| "record_metric (RecordWebhookOut r) m = m\<lparr>mt_webhook_out_total := family_inc r (mt_webhook_out_total m)\<rparr>"
| "record_metric RecordWebhookRetry m = m\<lparr>mt_webhook_retries_total := mt_webhook_retries_total m + 1\<rparr>"
| "record_metric RecordDeadLetter m = m\<lparr>mt_dead_letter_total := mt_dead_letter_total m + 1\<rparr>"
| "record_metric (ObserveRequestDuration method t) m =
     m\<lparr>mt_request_duration :=
         hm_insert method (get_or_create [] method (mt_request_duration m) @ [t]) (mt_request_duration m)\<rparr>"
| "record_metric IncInflight m = m\<lparr>mt_inflight_requests := mt_inflight_requests m + 1\<rparr>"
| "record_metric DecInflight m = m\<lparr>mt_inflight_requests := mt_inflight_requests m - 1\<rparr>"

end
