(* ===== verification/Gw_Membership.thy ===== *)
theory Gw_Membership
  imports Gw_Kafka Gw_Consume
begin

text \<open>
  Membership and owner routing (\<open>dedup/membership.rs\<close>): the table of published
  node records, the routing table derived from it, the loop that tails the
  membership topic and the publisher of this replica's own record. The main
  property says that the routing table names the most recent live claimant of
  every dedup partition.
\<close>

section \<open>The store\<close>

record node_entry =
  ne_info :: node_info
  ne_offset :: int

record membership_store =
  ms_nodes :: "(string, node_entry) hashmap"
  ms_routing :: "(nat, string) hashmap"

definition new_membership :: membership_store where
  "new_membership = \<lparr>ms_nodes = [], ms_routing = []\<rparr>"

definition owner_of :: "membership_store \<Rightarrow> nat \<Rightarrow> string option" where
  "owner_of st p = hm_get (ms_routing st) p"

definition best_claim :: "node_entry \<Rightarrow> nat \<Rightarrow> (nat, int \<times> string) hashmap \<Rightarrow> (nat, int \<times> string) hashmap" where
  "best_claim entry p best =
     (let slot = (case hm_get best p of Some s \<Rightarrow> s | None \<Rightarrow> (i64_MIN, [])) in
      hm_insert p (if fst slot \<le> ne_offset entry then (ne_offset entry, ni_advertised_addr (ne_info entry)) else slot) best)"

definition best_claims :: "node_entry list \<Rightarrow> (nat, int \<times> string) hashmap" where
  "best_claims entries = fold (\<lambda>entry. fold (best_claim entry) (ni_owned (ne_info entry))) entries []"

definition rebuild :: "membership_store \<Rightarrow> membership_store" where
  "rebuild st = st\<lparr>ms_routing := map (\<lambda>(p, _, addr). (p, addr)) (best_claims (map snd (ms_nodes st)))\<rparr>"

definition membership_apply :: "string \<Rightarrow> node_info option \<Rightarrow> int \<Rightarrow> membership_store \<Rightarrow> membership_store" where
  "membership_apply node_id info offset st =
     rebuild (case info of
        Some i \<Rightarrow> st\<lparr>ms_nodes := hm_insert node_id \<lparr>ne_info = i, ne_offset = offset\<rparr> (ms_nodes st)\<rparr>
      | None \<Rightarrow> st\<lparr>ms_nodes := hm_remove node_id (ms_nodes st)\<rparr>)"

text \<open>One record of the tailed topic: no key or a malformed value is skipped.\<close>

definition membership_record :: "serde \<Rightarrow> consumer_record \<Rightarrow> membership_store \<Rightarrow> membership_store" where
  "membership_record sd r st =
     (case cr_key r of
        None \<Rightarrow> st
      | Some key_bytes \<Rightarrow>
          let node_id = from_utf8_lossy key_bytes in
          case cr_value r of
            None \<Rightarrow> membership_apply node_id None (cr_offset r) st
          | Some v \<Rightarrow>
              (case sd_node_from_slice sd v of
                 Ok info \<Rightarrow> membership_apply node_id (Some info) (cr_offset r) st
               | Err _ \<Rightarrow> st))"

text \<open>The polls of \<open>run_membership\<close>, up to the shutdown or a failed poll.\<close>

datatype membership_event = MembershipShutdown | MembershipPoll "string + consumer_record list"

fun run_membership ::
    "serde \<Rightarrow> membership_event list \<Rightarrow> membership_store \<Rightarrow> (gateway_error + unit) option \<times> membership_store" where
  "run_membership sd [] st = (None, st)"
| "run_membership sd (MembershipShutdown # _) st = (Some (Ok ()), st)"
| "run_membership sd (MembershipPoll (Err e) # _) st = (Some (Err (Consumer e)), st)"
| "run_membership sd (MembershipPoll (Ok batch) # evs) st =
     run_membership sd evs (fold (membership_record sd) batch st)"

section \<open>The publisher\<close>

record membership_publisher =
  mp_node_id :: string
  mp_advertised_addr :: string
  mp_membership_topic :: string
  mp_epoch :: "64 word"

definition publish ::
    "serde \<Rightarrow> 'w kafka \<Rightarrow> nat list \<Rightarrow> membership_publisher \<Rightarrow> 'w \<Rightarrow>
     (gateway_error + unit) \<times> membership_publisher \<times> 'w" where
  "publish sd kf owned pub w =
     (let epoch = mp_epoch pub;
          pub = pub\<lparr>mp_epoch := epoch + 1\<rparr>;
          info = \<lparr>ni_advertised_addr = mp_advertised_addr pub, ni_owned = sort owned, ni_epoch = unat epoch\<rparr>
      in case sd_node_to_vec sd info of
           Err e \<Rightarrow> (Err (Claim e), pub, w)
         | Ok v \<Rightarrow>
             (case kf_publish kf
                     \<lparr>kr_topic = mp_membership_topic pub, kr_partition = None,
                      kr_key = Some (as_bytes (mp_node_id pub)), kr_value = Some v,
                      kr_headers = [], kr_timestamp_ms = None\<rparr> w of
                (r, w) \<Rightarrow> (map_err Producer r, pub, w)))"

section \<open>The routing table\<close>

text \<open>The claim of entry \<open>e\<close> on \<open>p\<close> that the table prefers among \<open>es\<close>.\<close>

definition claims :: "nat \<Rightarrow> node_entry \<Rightarrow> bool" where
  "claims p e \<longleftrightarrow> p \<in> set (ni_owned (ne_info e))"

lemma hm_get_best_claim:
  "hm_get (best_claim e p best) q =
     (if q = p then Some (case hm_get best p of
          None \<Rightarrow> if i64_MIN \<le> ne_offset e then (ne_offset e, ni_advertised_addr (ne_info e)) else (i64_MIN, [])
        | Some s \<Rightarrow> if fst s \<le> ne_offset e then (ne_offset e, ni_advertised_addr (ne_info e)) else s)
      else hm_get best q)"
  by (auto simp: best_claim_def Let_def split: option.splits)

lemma best_claim_idem:
  "i64_MIN \<le> ne_offset e \<Longrightarrow> hm_get (fold (best_claim e) ps best) q =
     (if q \<in> set ps then hm_get (best_claim e q best) q else hm_get best q)"
  by (induction ps arbitrary: best) (auto simp: hm_get_best_claim split: option.splits)

lemma best_claims_snoc:
  "i64_MIN \<le> ne_offset e \<Longrightarrow> hm_get (best_claims (es @ [e])) p =
     (if claims p e then hm_get (best_claim e p (best_claims es)) p else hm_get (best_claims es) p)"
  by (simp add: best_claims_def best_claim_idem claims_def)

lemma best_claims_spec:
  assumes "\<forall>e\<in>set es. i64_MIN \<le> ne_offset e"
  shows "(hm_get (best_claims es) p = None \<longleftrightarrow> (\<forall>e\<in>set es. \<not> claims p e))
     \<and> (\<forall>n a. hm_get (best_claims es) p = Some (n, a) \<longrightarrow>
          (\<exists>e\<in>set es. claims p e \<and> ne_offset e = n \<and> ni_advertised_addr (ne_info e) = a
             \<and> (\<forall>e'\<in>set es. claims p e' \<longrightarrow> ne_offset e' \<le> n)))"
  using assms
proof (induction es rule: rev_induct)
  case (snoc e es)
  hence e: "i64_MIN \<le> ne_offset e" and IH:
    "hm_get (best_claims es) p = None \<longleftrightarrow> (\<forall>e\<in>set es. \<not> claims p e)"
    "\<And>n a. hm_get (best_claims es) p = Some (n, a) \<Longrightarrow>
          \<exists>e\<in>set es. claims p e \<and> ne_offset e = n \<and> ni_advertised_addr (ne_info e) = a
             \<and> (\<forall>e'\<in>set es. claims p e' \<longrightarrow> ne_offset e' \<le> n)"
    by auto
  show ?case
  proof (cases "hm_get (best_claims es) p")
    case None
    thus ?thesis using IH(1) e by (auto simp: best_claims_snoc hm_get_best_claim)
  next
    case (Some na)
    obtain n a where na: "na = (n, a)" by fastforce
    obtain f where f: "f \<in> set es" "claims p f" "ne_offset f = n" "ni_advertised_addr (ne_info f) = a"
      "\<forall>e'\<in>set es. claims p e' \<longrightarrow> ne_offset e' \<le> n"
      using IH(2) Some na by blast
    show ?thesis
      using Some f e na by (auto simp: best_claims_snoc hm_get_best_claim)
  qed
qed (simp add: best_claims_def)

lemma hm_get_map_values: "hm_get (map (\<lambda>(p, _, a). (p, a)) m) k = map_option snd (hm_get m k)"
  by (induction m) auto

definition routed :: "membership_store \<Rightarrow> bool" where
  "routed st \<longleftrightarrow> hm_ok (ms_nodes st)
     \<and> (\<forall>p. owner_of st p = map_option snd (hm_get (best_claims (map snd (ms_nodes st))) p))"

lemma routed_rebuild: "hm_ok (ms_nodes st) \<Longrightarrow> routed (rebuild st)"
  by (simp add: routed_def rebuild_def owner_of_def hm_get_map_values)

lemma routed_apply [inv_intros]: "routed st \<Longrightarrow> routed (membership_apply node_id info offset st)"
  unfolding membership_apply_def by (rule routed_rebuild) (simp add: routed_def split: option.split)

lemma ms_nodes_apply:
  "hm_get (ms_nodes (membership_apply node_id info offset st)) k =
     (if k = node_id then map_option (\<lambda>i. \<lparr>ne_info = i, ne_offset = offset\<rparr>) info else hm_get (ms_nodes st) k)"
  by (simp add: membership_apply_def rebuild_def split: option.split)

interpretation membership: invariant_machine "\<lambda>(node_id, info, offset). membership_apply node_id info offset" routed
  by unfold_locales (auto intro: inv_intros)

text \<open>Routing read off the history of the topic, newest record first: skip the records a node has superseded.\<close>

fun route :: "string set \<Rightarrow> (string \<times> node_info option \<times> int) list \<Rightarrow> nat \<Rightarrow> string option" where
  "route superseded [] p = None"
| "route superseded ((node_id, info, _) # older) p =
     (case info of
        Some i \<Rightarrow>
          if node_id \<notin> superseded \<and> p \<in> set (ni_owned i) then Some (ni_advertised_addr i)
          else route (insert node_id superseded) older p
      | None \<Rightarrow> route (insert node_id superseded) older p)"

definition tail :: "(string \<times> node_info option \<times> int) list \<Rightarrow> membership_store" where
  "tail recs = fold (\<lambda>(node_id, info, offset). membership_apply node_id info offset) recs new_membership"

lemma tail_snoc: "tail (recs @ [(n, i, off)]) = membership_apply n i off (tail recs)"
  by (simp add: tail_def)

lemma tail_routed: "routed (tail recs)"
proof -
  have "routed new_membership" by (simp add: routed_def new_membership_def owner_of_def best_claims_def)
  thus ?thesis unfolding tail_def by (rule membership.run_inv)
qed

lemma tail_offsets: "hm_get (ms_nodes (tail recs)) k = Some e \<Longrightarrow> ne_offset e \<in> (snd \<circ> snd) ` set recs"
proof (induction recs rule: rev_induct)
  case (snoc r recs)
  obtain n i off where r: "r = (n, i, off)" by (cases r)
  show ?case using snoc unfolding r tail_snoc
    by (cases i) (auto simp: ms_nodes_apply split: if_splits)
qed (simp add: tail_def new_membership_def)

text \<open>The claimant of \<open>p\<close> with the highest offset among the nodes outside \<open>superseded\<close>.\<close>

definition newest :: "membership_store \<Rightarrow> string set \<Rightarrow> nat \<Rightarrow> node_entry \<Rightarrow> bool" where
  "newest st superseded p e \<longleftrightarrow>
     (\<exists>k. k \<notin> superseded \<and> hm_get (ms_nodes st) k = Some e) \<and> claims p e
     \<and> (\<forall>k e'. k \<notin> superseded \<longrightarrow> hm_get (ms_nodes st) k = Some e' \<longrightarrow> claims p e' \<longrightarrow> ne_offset e' \<le> ne_offset e)"

lemma newest_supersede:
  "(case i of None \<Rightarrow> True | Some j \<Rightarrow> n \<in> X \<or> p \<notin> set (ni_owned j)) \<Longrightarrow>
     newest (membership_apply n i off st) X p e \<longleftrightarrow> newest st (insert n X) p e"
  unfolding newest_def ms_nodes_apply claims_def
  by (cases i) (auto split: if_splits)

lemma newest_claim:
  assumes "n \<notin> X" "p \<in> set (ni_owned j)" "\<forall>k e. hm_get (ms_nodes st) k = Some e \<longrightarrow> ne_offset e < off"
  shows "newest (membership_apply n (Some j) off st) X p e \<longleftrightarrow> e = \<lparr>ne_info = j, ne_offset = off\<rparr>"
proof
  let ?f = "\<lparr>ne_info = j, ne_offset = off\<rparr>"
  assume e: "newest (membership_apply n (Some j) off st) X p e"
  have "ne_offset ?f \<le> ne_offset e"
    using e assms(1,2) by (auto simp: newest_def ms_nodes_apply claims_def)
  thus "e = ?f" using e assms(3) by (force simp: newest_def ms_nodes_apply split: if_splits)
next
  assume e: "e = \<lparr>ne_info = j, ne_offset = off\<rparr>"
  have "ne_offset e' \<le> off" if "hm_get (ms_nodes st) k = Some e'" for k e'
    using assms(3) that by (simp add: less_imp_le)
  thus "newest (membership_apply n (Some j) off st) X p e"
    unfolding newest_def ms_nodes_apply claims_def e using assms(1,2) by simp metis
qed

lemma route_newest:
  assumes "sorted_wrt (<) (map (snd \<circ> snd) recs)"
  shows "(\<forall>e. newest (tail recs) X p e \<longrightarrow> route X (rev recs) p = Some (ni_advertised_addr (ne_info e)))
     \<and> ((\<nexists>e. newest (tail recs) X p e) \<longrightarrow> route X (rev recs) p = None)"
  using assms
proof (induction recs arbitrary: X rule: rev_induct)
  case Nil
  show ?case by (simp add: newest_def tail_def new_membership_def)
next
  case (snoc r recs)
  obtain n i off where r: "r = (n, i, off)" by (cases r)
  have less: "\<forall>k e. hm_get (ms_nodes (tail recs)) k = Some e \<longrightarrow> ne_offset e < off"
    using tail_offsets snoc.prems by (fastforce simp: r sorted_wrt_append)
  have IH: "(\<forall>e. newest (tail recs) (insert n X) p e \<longrightarrow>
        route (insert n X) (rev recs) p = Some (ni_advertised_addr (ne_info e)))
     \<and> ((\<nexists>e. newest (tail recs) (insert n X) p e) \<longrightarrow> route (insert n X) (rev recs) p = None)"
    using snoc.prems by (intro snoc.IH) (simp add: sorted_wrt_append)
  show ?case
  proof (cases "\<exists>j. i = Some j \<and> n \<notin> X \<and> p \<in> set (ni_owned j)")
    case True
    then obtain j where j: "i = Some j" "n \<notin> X" "p \<in> set (ni_owned j)" by blast
    show ?thesis using newest_claim[OF j(2,3) less] j by (simp add: r tail_snoc)
  next
    case False
    hence c: "case i of None \<Rightarrow> True | Some j \<Rightarrow> n \<in> X \<or> p \<notin> set (ni_owned j)" by (cases i) auto
    have "route X (rev (recs @ [r])) p = route (insert n X) (rev recs) p"
      using False by (cases i) (auto simp: r)
    thus ?thesis using IH by (simp add: r tail_snoc newest_supersede[OF c])
  qed
qed

lemma owner_of_newest:
  assumes "routed st" "\<forall>k e. hm_get (ms_nodes st) k = Some e \<longrightarrow> i64_MIN \<le> ne_offset e"
  shows "(\<exists>e. newest st {} p e \<and> owner_of st p = Some (ni_advertised_addr (ne_info e)))
     \<or> (\<nexists>e. newest st {} p e) \<and> owner_of st p = None"
proof -
  have mem: "e \<in> set (map snd (ms_nodes st)) \<longleftrightarrow> (\<exists>k. hm_get (ms_nodes st) k = Some e)" for e
    using assms(1) by (force simp: routed_def hm_in_set[symmetric])
  have own: "owner_of st p = map_option snd (hm_get (best_claims (map snd (ms_nodes st))) p)"
    using assms(1) by (simp add: routed_def)
  have spec: "hm_get (best_claims (map snd (ms_nodes st))) p = None \<longleftrightarrow> (\<forall>e\<in>set (map snd (ms_nodes st)). \<not> claims p e)"
    "\<And>n a. hm_get (best_claims (map snd (ms_nodes st))) p = Some (n, a) \<Longrightarrow>
          \<exists>e\<in>set (map snd (ms_nodes st)). claims p e \<and> ne_offset e = n \<and> ni_advertised_addr (ne_info e) = a
             \<and> (\<forall>e'\<in>set (map snd (ms_nodes st)). claims p e' \<longrightarrow> ne_offset e' \<le> n)"
    using best_claims_spec[of "map snd (ms_nodes st)" p] assms(2) mem by blast+
  show ?thesis
  proof (cases "hm_get (best_claims (map snd (ms_nodes st))) p")
    case None
    hence "\<nexists>e. newest st {} p e" unfolding newest_def using spec(1) mem by blast
    thus ?thesis using own None by simp
  next
    case (Some na)
    obtain n a where na: "na = (n, a)" by fastforce
    obtain e where e: "e \<in> set (map snd (ms_nodes st))" "claims p e" "ne_offset e = n"
      "ni_advertised_addr (ne_info e) = a" "\<forall>e'\<in>set (map snd (ms_nodes st)). claims p e' \<longrightarrow> ne_offset e' \<le> n"
      using spec(2)[OF Some[unfolded na]] by blast
    have "newest st {} p e" unfolding newest_def using e mem by blast
    thus ?thesis using own Some na e(4) by auto
  qed
qed

section \<open>Properties\<close>

text \<open>
  C4: After any sequence of membership records with increasing offsets, the routing
  table sends a dedup partition to the address in the most recent record that
  claims it and that its node has not superseded by a later record or tombstone;
  it has no owner exactly when there is no such record. A stale record of a
  crashed node therefore never shadows a newer claim.
\<close>

theorem routing_names_latest_claimant:
  assumes "sorted_wrt (<) (map (snd \<circ> snd) recs)" "\<forall>r\<in>set recs. in_i64 (snd (snd r))"
  shows "owner_of (tail recs) p = route {} (rev recs) p"
proof -
  have "\<forall>k e. hm_get (ms_nodes (tail recs)) k = Some e \<longrightarrow> i64_MIN \<le> ne_offset e"
    using tail_offsets assms(2) by (fastforce simp: in_i64_def)
  from owner_of_newest[OF tail_routed this, of p] route_newest[OF assms(1), of "{}" p]
  show ?thesis by auto
qed

theorem routing_names_latest_claimant_witness:
  "owner_of (tail
      [(''a'', Some \<lparr>ni_advertised_addr = ''A'', ni_owned = [0, 1], ni_epoch = 0\<rparr>, 0),
       (''b'', Some \<lparr>ni_advertised_addr = ''B'', ni_owned = [1], ni_epoch = 0\<rparr>, 5)]) 1 = Some ''B''"
  using routing_names_latest_claimant[of
      "[(''a'', Some \<lparr>ni_advertised_addr = ''A'', ni_owned = [0, 1], ni_epoch = 0\<rparr>, 0),
       (''b'', Some \<lparr>ni_advertised_addr = ''B'', ni_owned = [1], ni_epoch = 0\<rparr>, 5)]" 1]
  by (simp add: int_bounds)

end
