(* ===== verification/Gw_Dedup.thy ===== *)
theory Gw_Dedup
  imports Gw_Membership
begin

unbundle bit_operations_syntax

text \<open>
  The dedup engine: the claim store with its ownership consumer
  (\<open>dedup/store.rs\<close>) and the transactional produce path (\<open>dedup/mod.rs\<close>). The
  state of a replica is one record; every operation is a function on it that
  also returns the metrics it records. Rust panics on an out-of-range slot; the
  model returns the error \<open>Other ''index out of bounds''\<close> there.
\<close>

section \<open>Partitioning\<close>

definition fnv1a :: "bytes \<Rightarrow> 64 word" where
  "fnv1a bs = fold (\<lambda>b hash. (hash XOR ucast b) * 0x00000100000001b3) bs 0xcbf29ce484222325"

definition partition_for :: "string \<Rightarrow> nat \<Rightarrow> nat" where
  "partition_for key partitions = unat (fnv1a (as_bytes key)) mod partitions"

section \<open>State\<close>

record dedup_store =
  ds_map :: "(string, claim_value) hashmap"
  ds_partitions :: nat
  ds_owned :: "nat list"
  ds_warm :: bool
  ds_warmed_once :: bool
  ds_restart_required :: bool
  ds_membership :: "membership_publisher option"
  ds_engine :: "bool option"
  ds_warmup_empty_polls :: nat
  ds_empty_polls :: nat

definition new_store :: "nat \<Rightarrow> nat \<Rightarrow> dedup_store" where
  "new_store partitions warmup_empty_polls =
     \<lparr>ds_map = [], ds_partitions = partitions, ds_owned = [], ds_warm = False, ds_warmed_once = False,
      ds_restart_required = False, ds_membership = None, ds_engine = None,
      ds_warmup_empty_polls = warmup_empty_polls, ds_empty_polls = 0\<rparr>"

definition set_membership :: "membership_publisher \<Rightarrow> dedup_store \<Rightarrow> dedup_store" where
  "set_membership pub st =
     (if ds_membership st = None then st\<lparr>ds_membership := Some pub\<rparr> else st)"

definition owns :: "dedup_store \<Rightarrow> nat \<Rightarrow> bool" where
  "owns st p \<longleftrightarrow> p \<in> set (ds_owned st)"

definition is_warm :: "dedup_store \<Rightarrow> bool" where
  "is_warm st \<longleftrightarrow> ds_warm st \<and> \<not> ds_restart_required st"

definition require_restart :: "dedup_store \<Rightarrow> dedup_store" where
  "require_restart st = st\<lparr>ds_restart_required := True, ds_warm := False\<rparr>"

definition store_get :: "dedup_store \<Rightarrow> string \<Rightarrow> claim_value option" where
  "store_get st key = hm_get (ds_map st) key"

definition store_apply :: "string \<Rightarrow> claim_value \<Rightarrow> dedup_store \<Rightarrow> dedup_store" where
  "store_apply key v st = st\<lparr>ds_map := hm_insert key v (ds_map st)\<rparr>"

record 'w replica =
  rp_store :: dedup_store
  rp_slots :: "bool list"
  rp_dedup_topic :: string
  rp_world :: 'w
  rp_metrics :: "metric list"

definition emit :: "metric \<Rightarrow> 'w replica \<Rightarrow> 'w replica" where
  "emit m s = s\<lparr>rp_metrics := rp_metrics s @ [m]\<rparr>"

definition on_store :: "(dedup_store \<Rightarrow> dedup_store) \<Rightarrow> 'w replica \<Rightarrow> 'w replica" where
  "on_store f s = s\<lparr>rp_store := f (rp_store s)\<rparr>"

definition set_slot :: "nat \<Rightarrow> bool \<Rightarrow> 'w replica \<Rightarrow> 'w replica" where
  "set_slot p b s = s\<lparr>rp_slots := (rp_slots s)[p := b]\<rparr>"

section \<open>The transactional produce path\<close>

definition init_producer :: "'w kafka \<Rightarrow> nat \<Rightarrow> 'w replica \<Rightarrow> (gateway_error + unit) \<times> 'w replica" where
  "init_producer kf p s =
     (case kf_init kf p (rp_world s) of
        (Err e, w) \<Rightarrow> (Err (Producer e), s\<lparr>rp_world := w\<rparr>)
      | (Ok _, w) \<Rightarrow> (Ok (), set_slot p True (s\<lparr>rp_world := w\<rparr>)))"

definition ensure_producer :: "'w kafka \<Rightarrow> nat \<Rightarrow> 'w replica \<Rightarrow> (gateway_error + unit) \<times> 'w replica" where
  "ensure_producer kf p s = (if rp_slots s ! p then (Ok (), s) else init_producer kf p s)"

fun is_recovery_required :: "producer_error \<Rightarrow> bool" where
  "is_recovery_required (RecoveryRequired _) = True"
| "is_recovery_required (ProducerFailed _) = False"

text \<open>The data record and its claim, inside the open transaction.\<close>

definition send_both ::
    "serde \<Rightarrow> 'w kafka \<Rightarrow> string \<Rightarrow> gateway_record \<Rightarrow> bytes \<Rightarrow> string \<Rightarrow> nat \<Rightarrow> 'w \<Rightarrow>
     (gateway_error + ((int \<times> int) \<times> claim_value)) \<times> 'w" where
  "send_both sd kf dedup_topic rec v key p w =
     (case kf_txn_send kf p (to_producer_record rec v) w of
        (Err e, w) \<Rightarrow> (Err (Producer e), w)
      | (Ok meta, w) \<Rightarrow>
          let claim = \<lparr>cv_topic = gr_topic rec, cv_partition = fst meta, cv_offset = snd meta\<rparr> in
          case sd_claim_to_vec sd claim of
            Err e \<Rightarrow> (Err (Claim e), w)
          | Ok cv \<Rightarrow>
              (case kf_txn_send kf p
                      \<lparr>kr_topic = dedup_topic, kr_partition = Some (int p), kr_key = Some (as_bytes key),
                       kr_value = Some cv, kr_headers = [], kr_timestamp_ms = None\<rparr> w of
                 (Err e, w) \<Rightarrow> (Err (Producer e), w)
               | (Ok _, w) \<Rightarrow> (Ok (meta, claim), w)))"

definition txn_abort :: "'w kafka \<Rightarrow> nat \<Rightarrow> 'w replica \<Rightarrow> 'w replica" where
  "txn_abort kf p s =
     (case kf_abort kf p (rp_world s) of
        (r, w) \<Rightarrow> emit (RecordTxn ''abort'')
          ((if is_ok r then id else on_store require_restart) (s\<lparr>rp_world := w\<rparr>)))"

definition txn_write ::
    "serde \<Rightarrow> 'w kafka \<Rightarrow> gateway_record \<Rightarrow> bytes \<Rightarrow> string \<Rightarrow> nat \<Rightarrow> 'w replica \<Rightarrow>
     (gateway_error + record_outcome) \<times> 'w replica" where
  "txn_write sd kf rec v key p s =
     (case ensure_producer kf p s of
        (Err e, s) \<Rightarrow> (Err e, s)
      | (Ok _, s) \<Rightarrow>
          (case kf_begin kf p (rp_world s) of
             (Err e, w) \<Rightarrow>
               (Err (Producer e),
                (if is_recovery_required e then on_store require_restart else id) (s\<lparr>rp_world := w\<rparr>))
           | (Ok _, w) \<Rightarrow>
               (case send_both sd kf (rp_dedup_topic s) rec v key p w of
                  (Err e, w) \<Rightarrow> (Err e, txn_abort kf p (s\<lparr>rp_world := w\<rparr>))
                | (Ok (meta, claim), w) \<Rightarrow>
                    (case kf_commit kf p w of
                       (Err e, w) \<Rightarrow> (Err (Producer e), txn_abort kf p (s\<lparr>rp_world := w\<rparr>))
                     | (Ok _, w) \<Rightarrow>
                         (Ok \<lparr>out_partition = fst meta, out_offset = snd meta, out_deduplicated = False\<rparr>,
                          on_store (store_apply key claim) (emit (RecordTxn ''commit'') (s\<lparr>rp_world := w\<rparr>)))))))"

definition hit :: "claim_value \<Rightarrow> record_outcome" where
  "hit c = \<lparr>out_partition = cv_partition c, out_offset = cv_offset c, out_deduplicated = True\<rparr>"

text \<open>The gate and the lookup, done before and again after taking the partition's lock.\<close>

definition dedup_check ::
    "string \<Rightarrow> nat \<Rightarrow> 'w replica \<Rightarrow> (gateway_error + record_outcome) option \<times> 'w replica" where
  "dedup_check key p s =
     (if \<not> owns (rp_store s) p \<or> \<not> is_warm (rp_store s) then (Some (Err Unavailable), s)
      else case store_get (rp_store s) key of
             Some c \<Rightarrow> (Some (Ok (hit c)), emit RecordDedupHit s)
           | None \<Rightarrow> (None, s))"

definition dedup_locked ::
    "serde \<Rightarrow> 'w kafka \<Rightarrow> gateway_record \<Rightarrow> bytes \<Rightarrow> string \<Rightarrow> nat \<Rightarrow> 'w replica \<Rightarrow>
     (gateway_error + record_outcome) \<times> 'w replica" where
  "dedup_locked sd kf rec v key p s =
     (case dedup_check key p s of
        (Some r, s) \<Rightarrow> (r, s)
      | (None, s) \<Rightarrow>
          (case txn_write sd kf rec v key p s of
             (Ok out, s) \<Rightarrow> (Ok out, s)
           | (Err e, s) \<Rightarrow> (Err e, set_slot p False s)))"

definition dedup_produce ::
    "serde \<Rightarrow> 'w kafka \<Rightarrow> gateway_record \<Rightarrow> bytes \<Rightarrow> 'w replica \<Rightarrow> (gateway_error + record_outcome) \<times> 'w replica" where
  "dedup_produce sd kf rec v s =
     (case gr_idempotency_key rec of
        None \<Rightarrow> (Err (Other ''dedup_produce called without idempotency_key''), s)
      | Some key \<Rightarrow>
          let p = partition_for key (ds_partitions (rp_store s)) in
          case dedup_check key p s of
            (Some r, s) \<Rightarrow> (r, s)
          | (None, s) \<Rightarrow> dedup_locked sd kf rec v key p s)"

section \<open>Assignment changes\<close>

definition update_assignment :: "serde \<Rightarrow> 'w kafka \<Rightarrow> nat list \<Rightarrow> 'w replica \<Rightarrow> 'w replica" where
  "update_assignment sd kf assigned s =
     (let st = rp_store s;
          revoked = filter (\<lambda>p. p \<notin> set assigned) (ds_owned st);
          map' = (if revoked = [] then ds_map st
                  else hm_retain (\<lambda>key _. partition_for key (ds_partitions st) \<notin> set revoked) (ds_map st));
          s = emit (SetOwnedPartitions (int (length assigned)))
                (s\<lparr>rp_store := st\<lparr>ds_warm := False, ds_empty_polls := 0, ds_owned := assigned, ds_map := map'\<rparr>\<rparr>)
      in case ds_membership (rp_store s) of
           None \<Rightarrow> s
         | Some pub \<Rightarrow>
             (case publish sd kf assigned pub (rp_world s) of
                (_, pub, w) \<Rightarrow> on_store (\<lambda>st. st\<lparr>ds_membership := Some pub\<rparr>) (s\<lparr>rp_world := w\<rparr>)))"

definition release_partitions :: "(string \<times> int) list \<Rightarrow> 'w replica \<Rightarrow> 'w replica" where
  "release_partitions partitions s =
     fold (\<lambda>(_, pt) s. if 0 \<le> pt \<and> nat pt < length (rp_slots s)
                              then set_slot (nat pt) False s else s) partitions s"

fun prepare_partitions ::
    "'w kafka \<Rightarrow> (string \<times> int) list \<Rightarrow> 'w replica \<Rightarrow> (gateway_error + unit) \<times> 'w replica" where
  "prepare_partitions kf [] s = (Ok (), s)"
| "prepare_partitions kf ((_, pt) # rest) s =
     (if pt < 0 then (Err Unavailable, s)
      else let p = nat pt in
        if length (rp_slots s) \<le> p then (Err (Other ''index out of bounds''), s)
        else case init_producer kf p (set_slot p False s) of
               (Err e, s) \<Rightarrow> (Err e, s)
             | (Ok _, s) \<Rightarrow> prepare_partitions kf rest s)"

type_synonym replay_offsets = "(string \<times> int, int) hashmap"

definition on_partitions_revoked ::
    "serde \<Rightarrow> 'w kafka \<Rightarrow> (string \<times> int) list \<Rightarrow> 'w replica \<times> replay_offsets \<Rightarrow>
     (gateway_error + unit) \<times> 'w replica \<times> replay_offsets" where
  "on_partitions_revoked sd kf partitions sr =
     (let s = on_store (\<lambda>st. st\<lparr>ds_warm := False\<rparr>) (fst sr);
          owned = filter (\<lambda>p. int p \<notin> snd ` set partitions) (ds_owned (rp_store s));
          s = update_assignment sd kf owned s
      in case ds_engine (rp_store s) of
           None \<Rightarrow> (Ok (), s, [])
         | Some alive \<Rightarrow>
             if alive then (Ok (), release_partitions partitions s, []) else (Err Unavailable, s, []))"

text \<open>The answers of the consumer during an assignment: seek, current assignment, end offsets.\<close>

record rebalance_answers =
  ra_seek :: "string + unit"
  ra_assignment :: "(string \<times> int) list"
  ra_end_offsets :: "(string \<times> int) list \<Rightarrow> string + replay_offsets"

definition on_partitions_assigned ::
    "serde \<Rightarrow> 'w kafka \<Rightarrow> string \<Rightarrow> rebalance_answers \<Rightarrow> (string \<times> int) list \<Rightarrow> 'w replica \<times> replay_offsets \<Rightarrow>
     (gateway_error + unit) \<times> 'w replica \<times> replay_offsets" where
  "on_partitions_assigned sd kf t ra partitions sr =
     (let s = on_store (\<lambda>st. st\<lparr>ds_warm := False\<rparr>) (fst sr);
          (r, s) = (case ds_engine (rp_store s) of
                      None \<Rightarrow> (Ok (), s)
                    | Some alive \<Rightarrow> if alive then prepare_partitions kf partitions s else (Err Unavailable, s));
          r = and_then r (\<lambda>_. if partitions = [] then Ok () else map_err Consumer (ra_seek ra));
          assigned = filter (\<lambda>(topic, _). topic = t) (ra_assignment ra)
      in case and_then r (\<lambda>_. map_err Consumer (ra_end_offsets ra assigned)) of
           Err e \<Rightarrow> (Err e, s, snd sr)
         | Ok targets \<Rightarrow>
             if length targets \<noteq> length assigned then (Err Unavailable, s, snd sr)
             else (Ok (),
                   update_assignment sd kf
                     (remdups (map (\<lambda>(_, p). nat p) (filter (\<lambda>(_, p). 0 \<le> p) assigned))) s,
                   targets))"

section \<open>The ownership loop\<close>

definition replay_complete :: "replay_offsets \<Rightarrow> replay_offsets \<Rightarrow> bool" where
  "replay_complete targets positions \<longleftrightarrow>
     targets \<noteq> [] \<and>
     list_all (\<lambda>(pt, stop). case hm_get positions pt of
        Some position \<Rightarrow> stop \<le> position | None \<Rightarrow> False) targets"

definition u32_MAX :: nat where "u32_MAX = 4294967295"

text \<open>One record of the claim topic.\<close>

definition replay_record :: "serde \<Rightarrow> consumer_record \<Rightarrow> dedup_store \<Rightarrow> dedup_store" where
  "replay_record sd r st =
     (if cr_partition r < 0 \<or> \<not> owns st (nat (cr_partition r)) then st
      else case cr_key r of
             None \<Rightarrow> st
           | Some key_bytes \<Rightarrow>
               let key = from_utf8_lossy key_bytes in
               case cr_value r of
                 None \<Rightarrow> st\<lparr>ds_map := hm_remove key (ds_map st)\<rparr>
               | Some v \<Rightarrow>
                   (case sd_claim_from_slice sd v of
                      Ok claim \<Rightarrow> store_apply key claim st
                    | Err _ \<Rightarrow> st))"

fun fetch_positions ::
    "(string \<times> int \<Rightarrow> string + int) \<Rightarrow> (string \<times> int) list \<Rightarrow> replay_offsets \<Rightarrow> gateway_error + replay_offsets" where
  "fetch_positions position [] acc = Ok acc"
| "fetch_positions position (k # ks) acc =
     (case position k of
        Err e \<Rightarrow> Err (Consumer e)
      | Ok n \<Rightarrow> fetch_positions position ks (hm_insert k n acc))"

definition ownership_poll ::
    "serde \<Rightarrow> replay_offsets \<Rightarrow> (string \<times> int \<Rightarrow> string + int) \<Rightarrow> consumer_record list \<Rightarrow> dedup_store \<Rightarrow>
     (gateway_error + unit) \<times> dedup_store" where
  "ownership_poll sd targets position batch st =
     (if ds_restart_required st then (Err Unavailable, st)
      else let empty_polls = (if batch = [] then min u32_MAX (ds_empty_polls st + 1) else 0);
               st = fold (replay_record sd) batch (st\<lparr>ds_empty_polls := empty_polls\<rparr>)
           in if \<not> is_warm st \<and> ds_warmup_empty_polls st \<le> empty_polls then
                (case fetch_positions position (map fst targets) [] of
                   Err e \<Rightarrow> (Err e, st)
                 | Ok positions \<Rightarrow>
                     if replay_complete targets positions
                     then (Ok (), st\<lparr>ds_warm := True, ds_warmed_once := True\<rparr>)
                     else (Ok (), st))
              else (Ok (), st))"

definition ownership_exit :: "'w replica \<Rightarrow> 'w replica" where
  "ownership_exit s =
     emit (SetOwnedPartitions 0) (on_store (\<lambda>st. st\<lparr>ds_warm := False, ds_owned := [], ds_map := []\<rparr>) s)"

datatype ownership_event =
    OwnershipShutdown
  | OwnershipPoll "string + consumer_record list" "string \<times> int \<Rightarrow> string + int"
  | PartitionsRevoked "(string \<times> int) list"
  | PartitionsAssigned "(string \<times> int) list" rebalance_answers

text \<open>
  \<open>run_ownership\<close>: the rebalance callbacks run inside a poll, so they are events
  of their own between the polls. The result is \<open>None\<close> while the loop still runs.
\<close>

fun run_ownership ::
    "serde \<Rightarrow> 'w kafka \<Rightarrow> string \<Rightarrow> ownership_event list \<Rightarrow> 'w replica \<times> replay_offsets \<Rightarrow>
     (gateway_error + unit) option \<times> 'w replica \<times> replay_offsets" where
  "run_ownership sd kf t [] sr = (None, sr)"
| "run_ownership sd kf t (OwnershipShutdown # _) sr = (Some (Ok ()), ownership_exit (fst sr), snd sr)"
| "run_ownership sd kf t (OwnershipPoll (Err e) _ # _) sr =
     (Some (Err (Consumer e)), ownership_exit (fst sr), snd sr)"
| "run_ownership sd kf t (OwnershipPoll (Ok batch) position # evs) sr =
     (case ownership_poll sd (snd sr) position batch (rp_store (fst sr)) of
        (Err e, st) \<Rightarrow> (Some (Err e), ownership_exit ((fst sr)\<lparr>rp_store := st\<rparr>), snd sr)
      | (Ok _, st) \<Rightarrow> run_ownership sd kf t evs ((fst sr)\<lparr>rp_store := st\<rparr>, snd sr))"
| "run_ownership sd kf t (PartitionsRevoked ps # evs) sr =
     run_ownership sd kf t evs (snd (on_partitions_revoked sd kf ps sr))"
| "run_ownership sd kf t (PartitionsAssigned ps ra # evs) sr =
     run_ownership sd kf t evs (snd (on_partitions_assigned sd kf t ra ps sr))"

definition write_claim ::
    "serde \<Rightarrow> 'w kafka \<Rightarrow> producer_error + unit \<Rightarrow> string \<Rightarrow> string \<Rightarrow> claim_value \<Rightarrow> 'w replica \<Rightarrow>
     (gateway_error + unit) \<times> 'w replica" where
  "write_claim sd kf built dedup_topic key v s =
     (case built of
        Err e \<Rightarrow> (Err (Producer e), s)
      | Ok _ \<Rightarrow>
          (case sd_claim_to_vec sd v of
             Err e \<Rightarrow> (Err (Claim e), s)
           | Ok cv \<Rightarrow>
               (case kf_send kf AcksAll
                       \<lparr>kr_topic = dedup_topic,
                        kr_partition = Some (int (partition_for key (ds_partitions (rp_store s)))),
                        kr_key = Some (as_bytes key), kr_value = Some cv, kr_headers = [], kr_timestamp_ms = None\<rparr>
                       (rp_world s) of
                  (Err e, w) \<Rightarrow> (Err (Producer e), s\<lparr>rp_world := w\<rparr>)
                | (Ok _, w) \<Rightarrow> (Ok (), on_store (store_apply key v) (s\<lparr>rp_world := w\<rparr>)))))"

end
