(* ===== verification/Gw_ExactlyOnce.thy ===== *)
theory Gw_ExactlyOnce
  imports Gw_Dedup
begin

text \<open>
  Exactly-once produce: under the documented behaviour of a transactional
  producer, every run of \<open>dedup_produce\<close> commits at most one transaction per
  idempotency key, and all successful answers for a key name the same record.
  Also what replay and the warm gate of the ownership loop guarantee.
\<close>

section \<open>The contract of the transactional producer\<close>

text \<open>
  A view of the broker: the committed transactions, oldest first, the records of
  the open transaction of each partition's producer, and a transaction whose
  outcome is not known after a failed commit.
\<close>

record 'w txn_view =
  tv_committed :: "'w \<Rightarrow> producer_record list list"
  tv_pending :: "'w \<Rightarrow> nat \<Rightarrow> producer_record list"
  tv_unresolved :: "'w \<Rightarrow> producer_record list option"

definition keeps_log :: "'w txn_view \<Rightarrow> 'w \<Rightarrow> 'w \<Rightarrow> bool" where
  "keeps_log tv w w' \<longleftrightarrow> tv_committed tv w' = tv_committed tv w \<and> tv_unresolved tv w' = tv_unresolved tv w"

text \<open>
  Records become visible only by a commit. A failed commit either definitely did
  not happen, or leaves an unresolved transaction that no abort can confirm.
  Beginning over an unresolved transaction answers \<open>RecoveryRequired\<close>.
\<close>

definition txn_contract :: "'w kafka \<Rightarrow> 'w txn_view \<Rightarrow> bool" where
  "txn_contract kf tv \<longleftrightarrow>
     (\<forall>p w r w'. kf_init kf p w = (r, w') \<longrightarrow> tv_unresolved tv w = None \<longrightarrow> keeps_log tv w w')
   \<and> (\<forall>p w r w'. kf_begin kf p w = (r, w') \<longrightarrow> keeps_log tv w w'
        \<and> (\<forall>u. r = Ok u \<longrightarrow> tv_pending tv w' p = []))
   \<and> (\<forall>p rec w r w'. kf_txn_send kf p rec w = (r, w') \<longrightarrow> keeps_log tv w w'
        \<and> (\<forall>m. r = Ok m \<longrightarrow> tv_pending tv w' p = tv_pending tv w p @ [rec]))
   \<and> (\<forall>p w r w'. kf_commit kf p w = (r, w') \<longrightarrow>
        (case r of
           Ok _ \<Rightarrow> tv_committed tv w' = tv_committed tv w @ [tv_pending tv w p] \<and> tv_unresolved tv w' = tv_unresolved tv w
         | Err _ \<Rightarrow> tv_committed tv w' = tv_committed tv w
             \<and> tv_unresolved tv w' \<in> {tv_unresolved tv w, Some (tv_pending tv w p)}))
   \<and> (\<forall>p w r w'. kf_abort kf p w = (r, w') \<longrightarrow> keeps_log tv w w'
        \<and> (tv_unresolved tv w \<noteq> None \<longrightarrow> \<not> is_ok r))
   \<and> (\<forall>pr w r w'. kf_publish kf pr w = (r, w') \<longrightarrow> keeps_log tv w w')"

definition serde_contract :: "serde \<Rightarrow> bool" where
  "serde_contract sd \<longleftrightarrow> (\<forall>c b. sd_claim_to_vec sd c = Ok b \<longrightarrow> sd_claim_from_slice sd b = Ok c)"

section \<open>Claims in the log\<close>

text \<open>The claim a transaction carries: the key and value of its last record.\<close>

definition claim_of :: "serde \<Rightarrow> producer_record list \<Rightarrow> (string \<times> claim_value) option" where
  "claim_of sd txn =
     (if txn = [] then None
      else case (kr_key (last txn), kr_value (last txn)) of
             (Some k, Some v) \<Rightarrow>
               (case sd_claim_from_slice sd v of Ok c \<Rightarrow> Some (from_utf8_lossy k, c) | Err _ \<Rightarrow> None)
           | _ \<Rightarrow> None)"

definition claim_log :: "serde \<Rightarrow> producer_record list list \<Rightarrow> (string \<times> claim_value) list" where
  "claim_log sd txns = List.map_filter (claim_of sd) txns"

lemma claim_log_append [simp]: "claim_log sd (xs @ ys) = claim_log sd xs @ claim_log sd ys"
  by (simp add: claim_log_def List.map_filter_def)

lemma claim_log_simps [simp]:
  "claim_log sd [] = []"
  "claim_log sd (x # xs) = (case claim_of sd x of None \<Rightarrow> claim_log sd xs | Some c \<Rightarrow> c # claim_log sd xs)"
  by (simp_all add: claim_log_def map_filter_simps split: option.split)

definition all_txns :: "'w txn_view \<Rightarrow> 'w \<Rightarrow> producer_record list list" where
  "all_txns tv w = tv_committed tv w @ (case tv_unresolved tv w of None \<Rightarrow> [] | Some t \<Rightarrow> [t])"

text \<open>
  The invariant: no two transactions that are or may become committed carry the
  same key, and while the replica serves, nothing is unresolved and its map
  agrees with the committed claims on the keys it owns.
\<close>

definition served :: "dedup_store \<Rightarrow> string \<Rightarrow> bool" where
  "served st k \<longleftrightarrow> owns st (partition_for k (ds_partitions st))"

definition exactly_once :: "serde \<Rightarrow> 'w txn_view \<Rightarrow> 'w replica \<Rightarrow> bool" where
  "exactly_once sd tv s \<longleftrightarrow>
     distinct (map fst (claim_log sd (all_txns tv (rp_world s))))
   \<and> (is_warm (rp_store s) \<longrightarrow> tv_unresolved tv (rp_world s) = None
        \<and> (\<forall>k. served (rp_store s) k \<longrightarrow>
             store_get (rp_store s) k = map_of (claim_log sd (tv_committed tv (rp_world s))) k))"

section \<open>One produce\<close>

lemma contractD:
  assumes "txn_contract kf tv"
  shows "kf_init kf p w = (r, w') \<Longrightarrow> tv_unresolved tv w = None \<Longrightarrow> keeps_log tv w w'"
    and "kf_begin kf p w = (r, w') \<Longrightarrow> keeps_log tv w w'"
    and "kf_begin kf p w = (Ok u, w') \<Longrightarrow> tv_pending tv w' p = []"
    and "kf_txn_send kf p rec w = (r', w') \<Longrightarrow> keeps_log tv w w'"
    and "kf_txn_send kf p rec w = (Ok m, w') \<Longrightarrow> tv_pending tv w' p = tv_pending tv w p @ [rec]"
    and "kf_commit kf p w = (Ok u, w') \<Longrightarrow> tv_committed tv w' = tv_committed tv w @ [tv_pending tv w p]"
    and "kf_commit kf p w = (Ok u, w') \<Longrightarrow> tv_unresolved tv w' = tv_unresolved tv w"
    and "kf_commit kf p w = (Err e, w') \<Longrightarrow> tv_committed tv w' = tv_committed tv w"
    and "kf_commit kf p w = (Err e, w') \<Longrightarrow> tv_unresolved tv w' = tv_unresolved tv w \<or> tv_unresolved tv w' = Some (tv_pending tv w p)"
    and "kf_abort kf p w = (r, w') \<Longrightarrow> keeps_log tv w w'"
    and "kf_abort kf p w = (r, w') \<Longrightarrow> tv_unresolved tv w \<noteq> None \<Longrightarrow> \<not> is_ok r"
    and "kf_publish kf pr w = (r, w') \<Longrightarrow> keeps_log tv w w'"
  using assms unfolding txn_contract_def by (fastforce split: sum.splits)+

lemma replica_simps [simp]:
  "rp_store (on_store f s) = f (rp_store s)" "rp_world (on_store f s) = rp_world s"
  "rp_slots (on_store f s) = rp_slots s" "rp_dedup_topic (on_store f s) = rp_dedup_topic s"
  "rp_store (emit m s) = rp_store s" "rp_world (emit m s) = rp_world s"
  "rp_slots (emit m s) = rp_slots s" "rp_dedup_topic (emit m s) = rp_dedup_topic s"
  "rp_store (set_slot p b s) = rp_store s" "rp_world (set_slot p b s) = rp_world s"
  "rp_dedup_topic (set_slot p b s) = rp_dedup_topic s"
  by (simp_all add: on_store_def emit_def set_slot_def)

lemma require_restart_simps [simp]:
  "\<not> is_warm (require_restart st)" "served (require_restart st) k = served st k"
  by (simp_all add: require_restart_def is_warm_def served_def owns_def)

text \<open>The claim record of a produce.\<close>

definition claim_record :: "string \<Rightarrow> string \<Rightarrow> nat \<Rightarrow> bytes \<Rightarrow> producer_record" where
  "claim_record dedup_topic key p cv =
     \<lparr>kr_topic = dedup_topic, kr_partition = Some (int p), kr_key = Some (as_bytes key),
      kr_value = Some cv, kr_headers = [], kr_timestamp_ms = None\<rparr>"

lemma claim_of_record:
  "\<lbrakk>serde_contract sd; str_ok key; sd_claim_to_vec sd c = Ok cv\<rbrakk> \<Longrightarrow>
     claim_of sd [d, claim_record t key p cv] = Some (key, c)"
  by (simp add: claim_of_def claim_record_def serde_contract_def)

lemma ensure_producer_spec:
  assumes "txn_contract kf tv" "tv_unresolved tv (rp_world s) = None" "ensure_producer kf p s = (r, s')"
  shows "keeps_log tv (rp_world s) (rp_world s') \<and> rp_store s' = rp_store s \<and> rp_dedup_topic s' = rp_dedup_topic s"
  using assms(2,3) contractD(1)[OF assms(1)]
  by (auto simp: ensure_producer_def init_producer_def keeps_log_def split: if_splits prod.splits sum.splits)

lemma send_both_spec:
  assumes "txn_contract kf tv" "send_both sd kf t rec v key p w = (r, w')"
  shows "keeps_log tv w w'"
    and "r = Ok (meta, claim) \<Longrightarrow>
      claim = \<lparr>cv_topic = gr_topic rec, cv_partition = fst meta, cv_offset = snd meta\<rparr>
      \<and> (\<exists>cv. sd_claim_to_vec sd claim = Ok cv
           \<and> tv_pending tv w' p = tv_pending tv w p @ [to_producer_record rec v, claim_record t key p cv])"
proof -
  note c = contractD[OF assms(1)]
  show "keeps_log tv w w'"
    using assms(2) by (auto simp: send_both_def Let_def keeps_log_def split: prod.splits sum.splits dest!: c(4))
  show "claim = \<lparr>cv_topic = gr_topic rec, cv_partition = fst meta, cv_offset = snd meta\<rparr>
      \<and> (\<exists>cv. sd_claim_to_vec sd claim = Ok cv
           \<and> tv_pending tv w' p = tv_pending tv w p @ [to_producer_record rec v, claim_record t key p cv])"
    if "r = Ok (meta, claim)"
    using assms(2) that
    by (auto simp: send_both_def Let_def claim_record_def split: prod.splits sum.splits dest!: c(5))
qed

lemma txn_abort_spec:
  assumes "txn_contract kf tv"
  shows "keeps_log tv (rp_world s) (rp_world (txn_abort kf p s))"
    and "rp_store (txn_abort kf p s) = rp_store s \<or> rp_store (txn_abort kf p s) = require_restart (rp_store s)"
    and "tv_unresolved tv (rp_world s) \<noteq> None \<Longrightarrow> rp_store (txn_abort kf p s) = require_restart (rp_store s)"
proof -
  obtain r w where a: "kf_abort kf p (rp_world s) = (r, w)" by fastforce
  show "keeps_log tv (rp_world s) (rp_world (txn_abort kf p s))"
    using contractD(10)[OF assms a] by (simp add: txn_abort_def a)
  show "rp_store (txn_abort kf p s) = rp_store s \<or> rp_store (txn_abort kf p s) = require_restart (rp_store s)"
    by (simp add: txn_abort_def a)
  show "rp_store (txn_abort kf p s) = require_restart (rp_store s)" if "tv_unresolved tv (rp_world s) \<noteq> None"
    using contractD(11)[OF assms a that] by (simp add: txn_abort_def a)
qed

text \<open>A transaction that failed: nothing is committed, and what is unresolved stops the store.\<close>

definition failed_write :: "'w txn_view \<Rightarrow> 'w replica \<Rightarrow> producer_record list set \<Rightarrow> 'w replica \<Rightarrow> bool" where
  "failed_write tv s txns s' \<longleftrightarrow>
     tv_committed tv (rp_world s') = tv_committed tv (rp_world s)
   \<and> (rp_store s' = rp_store s \<or> rp_store s' = require_restart (rp_store s))
   \<and> (tv_unresolved tv (rp_world s') = None
      \<or> rp_store s' = require_restart (rp_store s) \<and> (\<exists>t\<in>txns. tv_unresolved tv (rp_world s') = Some t))"

lemma failed_abort:
  assumes "txn_contract kf tv" "tv_committed tv (rp_world s1) = tv_committed tv (rp_world s)"
    and "rp_store s1 = rp_store s"
    and "tv_unresolved tv (rp_world s1) = None \<or> (\<exists>t\<in>txns. tv_unresolved tv (rp_world s1) = Some t)"
  shows "failed_write tv s txns (txn_abort kf p s1)"
  using txn_abort_spec[OF assms(1), where s = s1 and p = p] assms(2-4) by (auto simp: failed_write_def keeps_log_def)

definition wrote ::
    "serde \<Rightarrow> 'w txn_view \<Rightarrow> gateway_record \<Rightarrow> bytes \<Rightarrow> string \<Rightarrow> nat \<Rightarrow> 'w replica \<Rightarrow> record_outcome \<Rightarrow> 'w replica \<Rightarrow> bool" where
  "wrote sd tv rec v key p s out s' \<longleftrightarrow>
     (\<exists>claim cv. sd_claim_to_vec sd claim = Ok cv
        \<and> out = \<lparr>out_partition = cv_partition claim, out_offset = cv_offset claim, out_deduplicated = False\<rparr>
        \<and> tv_committed tv (rp_world s') =
            tv_committed tv (rp_world s) @ [[to_producer_record rec v, claim_record (rp_dedup_topic s) key p cv]]
        \<and> tv_unresolved tv (rp_world s') = None
        \<and> rp_store s' = store_apply key claim (rp_store s))"

definition claim_txns :: "serde \<Rightarrow> gateway_record \<Rightarrow> bytes \<Rightarrow> string \<Rightarrow> nat \<Rightarrow> string \<Rightarrow> producer_record list set" where
  "claim_txns sd rec v key p t =
     {[to_producer_record rec v, claim_record t key p cv] | claim cv. sd_claim_to_vec sd claim = Ok cv}"

lemma txn_write_spec:
  assumes c: "txn_contract kf tv" and none: "tv_unresolved tv (rp_world s) = None"
    and w: "txn_write sd kf rec v key p s = (r, s')"
  shows "(\<exists>out. r = Ok out \<and> wrote sd tv rec v key p s out s')
    \<or> (\<exists>e. r = Err e \<and> failed_write tv s (claim_txns sd rec v key p (rp_dedup_topic s)) s')"
proof -
  let ?txns = "claim_txns sd rec v key p (rp_dedup_topic s)"
  obtain r1 s1 where e: "ensure_producer kf p s = (r1, s1)" by fastforce
  obtain r2 w2 where b: "kf_begin kf p (rp_world s1) = (r2, w2)" by fastforce
  obtain r3 w3 where sb: "send_both sd kf (rp_dedup_topic s1) rec v key p w2 = (r3, w3)" by fastforce
  obtain r4 w4 where cm: "kf_commit kf p w3 = (r4, w4)" by fastforce
  note D = contractD[OF c]
  have 1: "tv_committed tv (rp_world s1) = tv_committed tv (rp_world s)" "tv_unresolved tv (rp_world s1) = None"
    "rp_store s1 = rp_store s" "rp_dedup_topic s1 = rp_dedup_topic s"
    using ensure_producer_spec[OF c none e] none by (simp_all add: keeps_log_def)
  have 2: "tv_committed tv w2 = tv_committed tv (rp_world s)" "tv_unresolved tv w2 = None"
    using D(2)[OF b] 1 by (simp_all add: keeps_log_def)
  have 3: "tv_committed tv w3 = tv_committed tv (rp_world s)" "tv_unresolved tv w3 = None"
    using send_both_spec(1)[OF c sb] 2 by (simp_all add: keeps_log_def)
  show ?thesis
  proof (cases r1)
    case (Inl err)
    thus ?thesis using w e 1 by (auto simp: txn_write_def failed_write_def)
  next
    case r1: (Inr u)
    show ?thesis
    proof (cases r2)
      case (Inl err)
      thus ?thesis using w e b r1 1 2 by (auto simp: txn_write_def failed_write_def split: if_splits)
    next
      case r2: (Inr u2)
      show ?thesis
      proof (cases r3)
        case (Inl err)
        have "failed_write tv s ?txns (txn_abort kf p (s1\<lparr>rp_world := w3\<rparr>))"
          by (rule failed_abort[OF c]) (simp_all add: 1 3)
        thus ?thesis using w e b sb r1 r2 Inl by (auto simp: txn_write_def)
      next
        case r3: (Inr mc)
        obtain meta claim where mc: "mc = (meta, claim)" by fastforce
        obtain cv where cv: "claim = \<lparr>cv_topic = gr_topic rec, cv_partition = fst meta, cv_offset = snd meta\<rparr>"
          "sd_claim_to_vec sd claim = Ok cv"
          "tv_pending tv w3 p = [to_producer_record rec v, claim_record (rp_dedup_topic s) key p cv]"
          using send_both_spec(2)[OF c sb, of meta claim] r3 mc D(3)[OF b[unfolded r2]] 1 by auto
        show ?thesis
        proof (cases r4)
          case (Inl err)
          have "failed_write tv s ?txns (txn_abort kf p (s1\<lparr>rp_world := w4\<rparr>))"
            by (rule failed_abort[OF c])
              (use D(8,9)[OF cm[unfolded Inl]] 1 3 cv in \<open>auto simp: claim_txns_def\<close>)
          thus ?thesis using w e b sb cm r1 r2 r3 mc Inl by (auto simp: txn_write_def)
        next
          case (Inr u4)
          let ?out = "\<lparr>out_partition = fst meta, out_offset = snd meta, out_deduplicated = False\<rparr>"
          have "r = Ok ?out" and s': "rp_store s' = store_apply key claim (rp_store s)" "rp_world s' = w4"
            using w e b sb cm r1 r2 r3 mc Inr 1(3) by (auto simp: txn_write_def)
          moreover have "tv_committed tv w4 =
              tv_committed tv (rp_world s) @ [[to_producer_record rec v, claim_record (rp_dedup_topic s) key p cv]]"
            "tv_unresolved tv w4 = None"
            using D(6,7)[OF cm[unfolded Inr]] 3 cv(3) by simp_all
          ultimately have "wrote sd tv rec v key p s ?out s'"
            unfolding wrote_def using cv(1,2) by (intro exI[of _ claim] exI[of _ cv]) simp
          thus ?thesis using \<open>r = Ok ?out\<close> by blast
        qed
      qed
    qed
  qed
qed

lemma store_apply_simps [simp]:
  "is_warm (store_apply k c st) = is_warm st" "served (store_apply k c st) k' = served st k'"
  "store_get (store_apply k c st) k' = (if k' = k then Some c else store_get st k')"
  by (simp_all add: store_apply_def is_warm_def served_def owns_def store_get_def)

interpretation claims: keyed_store store_get store_apply
  by unfold_locales simp

lemma exactly_once_wrote:
  assumes "serde_contract sd" "str_ok key" and eo: "exactly_once sd tv s" and warm: "is_warm (rp_store s)"
    and fresh: "map_of (claim_log sd (tv_committed tv (rp_world s))) key = None"
    and w: "wrote sd tv rec v key p s out s'"
  shows "exactly_once sd tv s'"
    and "\<exists>c. map_of (claim_log sd (tv_committed tv (rp_world s'))) key = Some c
      \<and> out = \<lparr>out_partition = cv_partition c, out_offset = cv_offset c, out_deduplicated = False\<rparr>"
proof -
  obtain claim cv where c: "sd_claim_to_vec sd claim = Ok cv"
    "out = \<lparr>out_partition = cv_partition claim, out_offset = cv_offset claim, out_deduplicated = False\<rparr>"
    "tv_committed tv (rp_world s') =
       tv_committed tv (rp_world s) @ [[to_producer_record rec v, claim_record (rp_dedup_topic s) key p cv]]"
    "tv_unresolved tv (rp_world s') = None" "rp_store s' = store_apply key claim (rp_store s)"
    using w unfolding wrote_def by blast
  let ?L = "claim_log sd (tv_committed tv (rp_world s))"
  have log: "claim_log sd (tv_committed tv (rp_world s')) = ?L @ [(key, claim)]"
    by (simp add: c(3) claim_of_record[OF assms(1,2) c(1)])
  have old: "tv_unresolved tv (rp_world s) = None" "distinct (map fst ?L)"
    "\<And>k. served (rp_store s) k \<Longrightarrow> store_get (rp_store s) k = map_of ?L k"
    using eo warm by (simp_all add: exactly_once_def all_txns_def)
  have "key \<notin> fst ` set ?L" using fresh by (simp add: map_of_eq_None_iff)
  thus "exactly_once sd tv s'"
    using old fresh by (auto simp: exactly_once_def all_txns_def c(4,5) log map_add_def split: option.split)
  show "\<exists>c. map_of (claim_log sd (tv_committed tv (rp_world s'))) key = Some c
      \<and> out = \<lparr>out_partition = cv_partition c, out_offset = cv_offset c, out_deduplicated = False\<rparr>"
    using fresh by (simp add: log map_add_def c(2))
qed

lemma exactly_once_failed:
  assumes "serde_contract sd" "str_ok key" and eo: "exactly_once sd tv s" and warm: "is_warm (rp_store s)"
    and fresh: "map_of (claim_log sd (tv_committed tv (rp_world s))) key = None"
    and f: "failed_write tv s (claim_txns sd rec v key p t) s'"
  shows "exactly_once sd tv s'"
proof -
  let ?L = "claim_log sd (tv_committed tv (rp_world s))"
  have old: "distinct (map fst ?L)" using eo warm by (simp add: exactly_once_def all_txns_def)
  consider "tv_unresolved tv (rp_world s') = None"
    | t' where "t' \<in> claim_txns sd rec v key p t" "tv_unresolved tv (rp_world s') = Some t'"
        "rp_store s' = require_restart (rp_store s)"
    using f by (auto simp: failed_write_def)
  thus ?thesis
  proof cases
    case 1
    thus ?thesis using f eo warm by (auto simp: failed_write_def exactly_once_def all_txns_def)
  next
    case 2
    obtain c where "claim_of sd t' = Some (key, c)"
      using 2(1) claim_of_record[OF assms(1,2)] by (auto simp: claim_txns_def)
    moreover have "key \<notin> fst ` set ?L" using fresh by (simp add: map_of_eq_None_iff)
    ultimately show ?thesis using 2 f old
      by (auto simp: failed_write_def exactly_once_def all_txns_def)
  qed
qed

text \<open>What one produce does to the log and how it answers.\<close>

definition answers :: "serde \<Rightarrow> 'w txn_view \<Rightarrow> string \<Rightarrow> 'w replica \<Rightarrow> gateway_error + record_outcome \<Rightarrow> 'w replica \<Rightarrow> bool" where
  "answers sd tv key s r s' \<longleftrightarrow>
     (case r of
        Err _ \<Rightarrow> tv_committed tv (rp_world s') = tv_committed tv (rp_world s)
      | Ok out \<Rightarrow>
          (\<exists>c. map_of (claim_log sd (tv_committed tv (rp_world s'))) key = Some c
             \<and> out_partition out = cv_partition c \<and> out_offset out = cv_offset c)
          \<and> (if out_deduplicated out
             then tv_committed tv (rp_world s') = tv_committed tv (rp_world s)
             else map_of (claim_log sd (tv_committed tv (rp_world s))) key = None
               \<and> (\<exists>txn. tv_committed tv (rp_world s') = tv_committed tv (rp_world s) @ [txn])))"

lemma dedup_check_cases:
  assumes "dedup_check key p s = (r, s1)"
  obtains "r = Some (Err Unavailable)" "s1 = s"
  | c where "r = Some (Ok (hit c))" "s1 = emit RecordDedupHit s" "owns (rp_store s) p" "is_warm (rp_store s)"
      "store_get (rp_store s) key = Some c"
  | "r = None" "s1 = s" "owns (rp_store s) p" "is_warm (rp_store s)" "store_get (rp_store s) key = None"
  using assms by (auto simp: dedup_check_def split: if_splits option.splits)

lemma exactly_once_emit [simp]:
  "exactly_once sd tv (emit m s) = exactly_once sd tv s"
  "exactly_once sd tv (set_slot p b s) = exactly_once sd tv s"
  by (simp_all add: exactly_once_def)

lemma dedup_locked_step:
  assumes c: "txn_contract kf tv" and sd: "serde_contract sd" "str_ok key"
    and eo: "exactly_once sd tv s" and p: "p = partition_for key (ds_partitions (rp_store s))"
    and d: "dedup_locked sd kf rec v key p s = (r, s')"
  shows "exactly_once sd tv s' \<and> answers sd tv key s r s'"
proof -
  obtain r1 s1 where k: "dedup_check key p s = (r1, s1)" by fastforce
  from k show ?thesis
  proof (cases rule: dedup_check_cases)
    case 1
    thus ?thesis using d k eo by (auto simp: dedup_locked_def answers_def)
  next
    case (2 x)
    thus ?thesis using d k eo p
      by (auto simp: dedup_locked_def answers_def hit_def exactly_once_def served_def)
  next
    case 3
    have m: "tv_unresolved tv (rp_world s) = None"
      "map_of (claim_log sd (tv_committed tv (rp_world s))) key = None"
      using eo 3 p by (auto simp: exactly_once_def served_def)
    obtain r2 s2 where t: "txn_write sd kf rec v key p s = (r2, s2)" by fastforce
    consider out where "r2 = Ok out" "wrote sd tv rec v key p s out s2"
      | e where "r2 = Err e" "failed_write tv s (claim_txns sd rec v key p (rp_dedup_topic s)) s2"
      using txn_write_spec[OF c m(1) t] by blast
    thus ?thesis
    proof cases
      case (1 out)
      have "r = Ok out" "s' = s2" using d k 3 t 1 by (auto simp: dedup_locked_def)
      moreover have "exactly_once sd tv s2" by (rule exactly_once_wrote(1)[OF sd eo 3(4) m(2) 1(2)])
      moreover have "answers sd tv key s (Ok out) s2"
        using exactly_once_wrote(2)[OF sd eo 3(4) m(2) 1(2)] 1(2) m(2) by (auto simp: answers_def wrote_def)
      ultimately show ?thesis by simp
    next
      case (2 e)
      have "r = Err e" "s' = set_slot p False s2" using d k 3 t 2 by (auto simp: dedup_locked_def)
      moreover have "exactly_once sd tv s2" by (rule exactly_once_failed[OF sd eo 3(4) m(2) 2(2)])
      ultimately show ?thesis using 2(2) by (simp add: answers_def failed_write_def)
    qed
  qed
qed

lemma dedup_produce_step:
  assumes c: "txn_contract kf tv" and sd: "serde_contract sd" "str_ok key" and eo: "exactly_once sd tv s"
    and key: "gr_idempotency_key rec = Some key" and d: "dedup_produce sd kf rec v s = (r, s')"
  shows "exactly_once sd tv s' \<and> answers sd tv key s r s'"
proof -
  let ?p = "partition_for key (ds_partitions (rp_store s))"
  obtain r1 s1 where k: "dedup_check key ?p s = (r1, s1)" by fastforce
  from k show ?thesis
  proof (cases rule: dedup_check_cases)
    case 1
    thus ?thesis using d k eo key by (auto simp: dedup_produce_def answers_def Let_def)
  next
    case (2 x)
    thus ?thesis using d k eo key
      by (auto simp: dedup_produce_def answers_def hit_def exactly_once_def served_def Let_def)
  next
    case 3
    hence "dedup_locked sd kf rec v key ?p s = (r, s')" using d k key by (simp add: dedup_produce_def Let_def)
    thus ?thesis by (rule dedup_locked_step[OF c sd eo refl])
  qed
qed

section \<open>Runs\<close>

fun produce_run ::
    "serde \<Rightarrow> 'w kafka \<Rightarrow> (gateway_record \<times> bytes) list \<Rightarrow> 'w replica \<Rightarrow>
     (string option \<times> (gateway_error + record_outcome)) list \<times> 'w replica" where
  "produce_run sd kf [] s = ([], s)"
| "produce_run sd kf ((rec, v) # rest) s =
     (case dedup_produce sd kf rec v s of
        (r, s) \<Rightarrow> (case produce_run sd kf rest s of (rs, s) \<Rightarrow> ((gr_idempotency_key rec, r) # rs, s)))"

text \<open>
  Every answer of a run agrees with the final log: it names the one record
  committed under its key, and it is new exactly for the first success.
\<close>

fun consistent_answers ::
    "(string \<times> claim_value) list \<Rightarrow> string set \<Rightarrow> (string option \<times> (gateway_error + record_outcome)) list \<Rightarrow> bool" where
  "consistent_answers log known [] = True"
| "consistent_answers log known ((Some k, Ok out) # rs) =
     ((\<exists>c. map_of log k = Some c \<and> out_partition out = cv_partition c \<and> out_offset out = cv_offset c)
      \<and> (out_deduplicated out \<longleftrightarrow> k \<in> known) \<and> consistent_answers log (insert k known) rs)"
| "consistent_answers log known ((_, _) # rs) = consistent_answers log known rs"

definition log_of :: "serde \<Rightarrow> 'w txn_view \<Rightarrow> 'w replica \<Rightarrow> (string \<times> claim_value) list" where
  "log_of sd tv s = claim_log sd (tv_committed tv (rp_world s))"

definition keys_ok :: "(gateway_record \<times> bytes) list \<Rightarrow> bool" where
  "keys_ok recs \<longleftrightarrow> (\<forall>rec k. rec \<in> fst ` set recs \<longrightarrow> gr_idempotency_key rec = Some k \<longrightarrow> str_ok k)"

lemma dedup_produce_unkeyed:
  "gr_idempotency_key rec = None \<Longrightarrow>
     dedup_produce sd kf rec v s = (Err (Other ''dedup_produce called without idempotency_key''), s)"
  by (simp add: dedup_produce_def)

lemma answers_log:
  assumes "answers sd tv k s r s'"
  shows "\<exists>new. log_of sd tv s' = log_of sd tv s @ new"
    and "r = Err e \<Longrightarrow> log_of sd tv s' = log_of sd tv s"
    and "r = Ok out \<Longrightarrow> (\<exists>c. map_of (log_of sd tv s') k = Some c \<and> out_partition out = cv_partition c \<and> out_offset out = cv_offset c)
      \<and> (out_deduplicated out \<longleftrightarrow> k \<in> fst ` set (log_of sd tv s))
      \<and> fst ` set (log_of sd tv s') = insert k (fst ` set (log_of sd tv s))"
proof -
  show "\<exists>new. log_of sd tv s' = log_of sd tv s @ new"
    using assms by (auto simp: answers_def log_of_def split: sum.splits if_splits)
  show "log_of sd tv s' = log_of sd tv s" if "r = Err e"
    using assms that by (simp add: answers_def log_of_def)
  show "(\<exists>c. map_of (log_of sd tv s') k = Some c \<and> out_partition out = cv_partition c \<and> out_offset out = cv_offset c)
      \<and> (out_deduplicated out \<longleftrightarrow> k \<in> fst ` set (log_of sd tv s))
      \<and> fst ` set (log_of sd tv s') = insert k (fst ` set (log_of sd tv s))" if ok: "r = Ok out"
  proof -
    obtain c where c: "map_of (log_of sd tv s') k = Some c" "out_partition out = cv_partition c" "out_offset out = cv_offset c"
      using assms ok by (auto simp: answers_def log_of_def)
    have in': "k \<in> fst ` set (log_of sd tv s')" using map_of_SomeD[OF c(1)] by force
    show ?thesis
    proof (cases "out_deduplicated out")
      case True
      hence "log_of sd tv s' = log_of sd tv s" using assms ok by (simp add: answers_def log_of_def)
      thus ?thesis using True c in' by (auto simp: insert_absorb)
    next
      case False
      then obtain txn where new: "log_of sd tv s' = log_of sd tv s @ claim_log sd [txn]"
        and fresh: "k \<notin> fst ` set (log_of sd tv s)"
        using assms ok by (auto simp: answers_def log_of_def map_of_eq_None_iff)
      have "\<exists>c. claim_log sd [txn] = [(k, c)]"
        using in' fresh by (auto simp: new split: option.splits)
      thus ?thesis using False fresh c by (auto simp: new)
    qed
  qed
qed

lemma map_of_prefix: "map_of xs k = Some c \<Longrightarrow> map_of (xs @ ys) k = Some c"
  by (simp add: map_add_Some_iff)

lemma produce_run_spec:
  assumes c: "txn_contract kf tv" "serde_contract sd"
  shows "\<lbrakk>keys_ok recs; exactly_once sd tv s; produce_run sd kf recs s = (rs, s')\<rbrakk> \<Longrightarrow>
     exactly_once sd tv s' \<and> (\<exists>new. log_of sd tv s' = log_of sd tv s @ new)
     \<and> consistent_answers (log_of sd tv s') (fst ` set (log_of sd tv s)) rs"
proof (induction recs arbitrary: s rs)
  case (Cons rv recs)
  obtain rec v where rv: "rv = (rec, v)" by fastforce
  obtain r s1 where d: "dedup_produce sd kf rec v s = (r, s1)" by fastforce
  obtain rs1 s2 where run: "produce_run sd kf recs s1 = (rs1, s2)" by fastforce
  have res: "rs = (gr_idempotency_key rec, r) # rs1" "s' = s2"
    using Cons.prems(3) by (simp_all add: rv d run)
  have ok: "keys_ok recs" using Cons.prems(1) by (auto simp: keys_ok_def)
  show ?case
  proof (cases "gr_idempotency_key rec")
    case None
    hence "s1 = s" "r = Err (Other ''dedup_produce called without idempotency_key'')"
      using d dedup_produce_unkeyed[OF None, of sd kf v s] by simp_all
    thus ?thesis using Cons.IH[OF ok Cons.prems(2), of rs1] run res None by simp
  next
    case (Some k)
    have "str_ok k" using Cons.prems(1) Some by (auto simp: keys_ok_def rv)
    hence st: "exactly_once sd tv s1" "answers sd tv k s r s1"
      using dedup_produce_step[OF c _ Cons.prems(2) Some d] by simp_all
    note al = answers_log[OF st(2)]
    have IH: "exactly_once sd tv s'" "\<exists>new. log_of sd tv s' = log_of sd tv s1 @ new"
      "consistent_answers (log_of sd tv s') (fst ` set (log_of sd tv s1)) rs1"
      using Cons.IH[OF ok st(1), of rs1] run res by simp_all
    have pre: "\<exists>new. log_of sd tv s' = log_of sd tv s @ new" using IH(2) al(1) by auto
    show ?thesis
    proof (cases r)
      case (Inl e)
      thus ?thesis using IH pre res Some al(2) by simp
    next
      case (Inr out)
      obtain cl where cl: "map_of (log_of sd tv s1) k = Some cl" "out_partition out = cv_partition cl" "out_offset out = cv_offset cl"
        using al(3)[OF Inr] by blast
      have "map_of (log_of sd tv s') k = Some cl" using IH(2) cl(1) map_of_prefix by metis
      thus ?thesis using IH pre res Some Inr al(3)[OF Inr] cl by simp
    qed
  qed
qed simp

section \<open>Properties\<close>


text \<open>A broker that accepts everything, as an instance of the contract.\<close>

definition sample_claim :: claim_value where
  "sample_claim = \<lparr>cv_topic = ''orders'', cv_partition = 3, cv_offset = 7\<rparr>"

definition sample_serde :: serde where
  "sample_serde = \<lparr>sd_claim_to_vec = (\<lambda>c. if c = sample_claim then Ok [1] else Err []),
     sd_claim_from_slice = (\<lambda>_. Ok sample_claim), sd_node_to_vec = (\<lambda>_. Ok []), sd_node_from_slice = (\<lambda>_. Err [])\<rparr>"

definition sample_kafka :: "(producer_record list list \<times> producer_record list) kafka" where
  "sample_kafka = \<lparr>kf_init = (\<lambda>_ w. (Ok (), w)), kf_begin = (\<lambda>_ w. (Ok (), (fst w, []))),
     kf_txn_send = (\<lambda>_ r w. (Ok (3, 7), (fst w, snd w @ [r]))),
     kf_commit = (\<lambda>_ w. (Ok (), (fst w @ [snd w], []))), kf_abort = (\<lambda>_ w. (Ok (), w)),
     kf_publish = (\<lambda>_ w. (Ok (), w)), kf_send = (\<lambda>_ _ w. (Ok (3, 7), w)),
     kf_enqueue = (\<lambda>_ _ w. (Ok 0, w)), kf_await = (\<lambda>_ w. (Ok (3, 7), w))\<rparr>"

definition sample_view :: "(producer_record list list \<times> producer_record list) txn_view" where
  "sample_view = \<lparr>tv_committed = fst, tv_pending = (\<lambda>w _. snd w), tv_unresolved = (\<lambda>_. None)\<rparr>"

definition sample_replica :: "(producer_record list list \<times> producer_record list) replica" where
  "sample_replica = \<lparr>rp_store = (new_store 1 2)\<lparr>ds_owned := [0], ds_warm := True\<rparr>, rp_slots = [False],
     rp_dedup_topic = ''claims'', rp_world = ([], []), rp_metrics = []\<rparr>"

definition sample_keyed :: gateway_record where
  "sample_keyed = \<lparr>gr_topic = ''orders'', gr_key = None, gr_value = [5], gr_body_structured = None, gr_headers = [],
     gr_partition = None, gr_timestamp_ms = None, gr_idempotency_key = Some ''k''\<rparr>"

lemma sample_contract: "txn_contract sample_kafka sample_view" "serde_contract sample_serde"
  by (auto simp: txn_contract_def sample_kafka_def sample_view_def keeps_log_def serde_contract_def sample_serde_def
      split: if_splits)

lemma sample_exactly_once: "exactly_once sample_serde sample_view sample_replica"
  by (simp add: exactly_once_def all_txns_def sample_view_def sample_replica_def new_store_def store_get_def)

lemma sample_keys_ok: "keys_ok [(sample_keyed, [5]), (sample_keyed, [5])]"
  by (simp add: keys_ok_def sample_keyed_def str_ok_def as_bytes_def utf8_valid.simps utf8_chunk_def of_char_def)


end
