(* ===== verification/Gw_Replay.thy ===== *)
theory Gw_Replay
  imports Gw_ExactlyOnce
begin

text \<open>
  Recovery of the claim table: what replaying the claim topic leaves in the map,
  when the warm gate opens, and what an assignment change keeps and drops.
\<close>

section \<open>Replaying claim records\<close>

text \<open>The records of a batch that say something about a key: owned, keyed by it, and readable.\<close>

definition speaks_of :: "serde \<Rightarrow> dedup_store \<Rightarrow> string \<Rightarrow> consumer_record \<Rightarrow> bool" where
  "speaks_of sd st k r \<longleftrightarrow>
     0 \<le> cr_partition r \<and> owns st (nat (cr_partition r))
   \<and> (case cr_key r of None \<Rightarrow> False | Some kb \<Rightarrow> from_utf8_lossy kb = k)
   \<and> (case cr_value r of None \<Rightarrow> True | Some v \<Rightarrow> is_ok (sd_claim_from_slice sd v))"

definition claim_in :: "serde \<Rightarrow> consumer_record \<Rightarrow> claim_value option" where
  "claim_in sd r =
     (case cr_value r of
        None \<Rightarrow> None
      | Some v \<Rightarrow> (case sd_claim_from_slice sd v of Ok c \<Rightarrow> Some c | Err _ \<Rightarrow> None))"

definition table_after :: "serde \<Rightarrow> dedup_store \<Rightarrow> consumer_record list \<Rightarrow> string \<Rightarrow> claim_value option" where
  "table_after sd st rs k =
     (let spoken = filter (speaks_of sd st k) rs in
      if spoken = [] then store_get st k else claim_in sd (last spoken))"

lemma replay_record_frame: "replay_record sd r st = st\<lparr>ds_map := ds_map (replay_record sd r st)\<rparr>"
  by (simp add: replay_record_def store_apply_def Let_def split: option.split sum.split)

lemma replay_record_keeps [simp]:
  "ds_owned (replay_record sd r st) = ds_owned st" "ds_partitions (replay_record sd r st) = ds_partitions st"
  "is_warm (replay_record sd r st) = is_warm st" "owns (replay_record sd r st) p = owns st p"
  "ds_warmup_empty_polls (replay_record sd r st) = ds_warmup_empty_polls st"
  "ds_restart_required (replay_record sd r st) = ds_restart_required st"
  "ds_empty_polls (replay_record sd r st) = ds_empty_polls st"
  by (subst replay_record_frame, simp add: is_warm_def owns_def)+

lemma speaks_of_replay [simp]: "speaks_of sd (replay_record sd r st) = speaks_of sd st"
  by (simp add: speaks_of_def fun_eq_iff)

lemma fold_replay_keeps [simp]:
  "ds_owned (fold (replay_record sd) rs st) = ds_owned st"
  "ds_partitions (fold (replay_record sd) rs st) = ds_partitions st"
  "is_warm (fold (replay_record sd) rs st) = is_warm st"
  "ds_warmup_empty_polls (fold (replay_record sd) rs st) = ds_warmup_empty_polls st"
  "ds_restart_required (fold (replay_record sd) rs st) = ds_restart_required st"
  "ds_empty_polls (fold (replay_record sd) rs st) = ds_empty_polls st"
  "speaks_of sd (fold (replay_record sd) rs st) = speaks_of sd st"
  by (induction rs arbitrary: st) simp_all

lemma replay_record_get:
  "store_get (replay_record sd r st) k = (if speaks_of sd st k r then claim_in sd r else store_get st k)"
  by (auto simp: replay_record_def speaks_of_def claim_in_def Let_def store_get_def store_apply_def
      split: option.splits sum.splits)

lemma fold_replay_get: "store_get (fold (replay_record sd) rs st) k = table_after sd st rs k"
proof (induction rs arbitrary: st)
  case (Cons r rs)
  show ?case by (simp add: Cons.IH table_after_def Let_def replay_record_get)
qed (simp add: table_after_def)

section \<open>The warm gate\<close>

lemma fetch_positions_spec:
  "fetch_positions position ks acc = Ok ps \<Longrightarrow>
     hm_get ps k = (if k \<in> set ks then (case position k of Ok n \<Rightarrow> Some n | Err _ \<Rightarrow> None) else hm_get acc k)"
  by (induction ks arbitrary: acc) (auto split: sum.splits if_splits)

lemma fetch_positions_ok:
  "(\<exists>ps. fetch_positions position ks acc = Ok ps) \<longleftrightarrow> (\<forall>k\<in>set ks. is_ok (position k))"
  by (induction ks arbitrary: acc) (auto split: sum.splits)

text \<open>Every partition to replay has been read up to the end captured at its assignment.\<close>

definition caught_up :: "replay_offsets \<Rightarrow> (string \<times> int \<Rightarrow> string + int) \<Rightarrow> bool" where
  "caught_up targets position \<longleftrightarrow>
     targets \<noteq> [] \<and> (\<forall>(tp, stop)\<in>set targets. \<exists>n. position tp = Ok n \<and> stop \<le> n)"

lemma replay_complete_caught_up:
  assumes "fetch_positions position (map fst targets) [] = Ok ps"
  shows "replay_complete targets ps \<longleftrightarrow> caught_up targets position"
proof -
  have pos: "hm_get ps k = Some n \<longleftrightarrow> position k = Ok n" if "k \<in> fst ` set targets" for k n
    using fetch_positions_spec[OF assms, of k] that by (auto split: sum.splits)
  have "(case hm_get ps tp of Some n \<Rightarrow> stop \<le> n | None \<Rightarrow> False) \<longleftrightarrow> (\<exists>n. position tp = Ok n \<and> stop \<le> n)"
    if "(tp, stop) \<in> set targets" for tp stop
    using pos[of tp] that by (force split: option.split)
  thus ?thesis
    unfolding replay_complete_def caught_up_def list_all_iff by fastforce
qed

definition next_empty_polls :: "consumer_record list \<Rightarrow> dedup_store \<Rightarrow> nat" where
  "next_empty_polls batch st = (if batch = [] then min u32_MAX (ds_empty_polls st + 1) else 0)"

lemma ownership_poll_spec:
  assumes "ownership_poll sd targets position batch st = (r, st')" "\<not> ds_restart_required st"
  shows "store_get st' k = table_after sd st batch k"
    and "ds_owned st' = ds_owned st"
    and "is_warm st' \<longleftrightarrow> is_warm st
      \<or> ds_warmup_empty_polls st \<le> next_empty_polls batch st \<and> caught_up targets position"
proof -
  define st1 where "st1 = fold (replay_record sd) batch (st\<lparr>ds_empty_polls := next_empty_polls batch st\<rparr>)"
  have base: "speaks_of sd (st\<lparr>ds_empty_polls := n\<rparr>) = speaks_of sd st" "store_get (st\<lparr>ds_empty_polls := n\<rparr>) k' = store_get st k'"
    for n k' by (simp_all add: speaks_of_def fun_eq_iff owns_def store_get_def)
  have 1: "store_get st1 k = table_after sd st batch k" "ds_owned st1 = ds_owned st" "is_warm st1 = is_warm st"
    "ds_warmup_empty_polls st1 = ds_warmup_empty_polls st" "ds_restart_required st1 = ds_restart_required st"
    by (simp_all add: st1_def fold_replay_get table_after_def Let_def base is_warm_def[of "st\<lparr>ds_empty_polls := _\<rparr>"] is_warm_def[of st])
  have poll: "(r, st') =
      (if \<not> is_warm st1 \<and> ds_warmup_empty_polls st1 \<le> next_empty_polls batch st then
         (case fetch_positions position (map fst targets) [] of
            Err e \<Rightarrow> (Err e, st1)
          | Ok ps \<Rightarrow> if replay_complete targets ps then (Ok (), st1\<lparr>ds_warm := True, ds_warmed_once := True\<rparr>) else (Ok (), st1))
       else (Ok (), st1))"
    using assms(1)[symmetric]
    unfolding ownership_poll_def if_not_P[OF assms(2)] Let_def next_empty_polls_def[symmetric] st1_def[symmetric] .
  have cu: "caught_up targets position \<Longrightarrow> \<exists>ps. fetch_positions position (map fst targets) [] = Ok ps"
    unfolding fetch_positions_ok caught_up_def by fastforce
  show "store_get st' k = table_after sd st batch k" "ds_owned st' = ds_owned st"
    using poll 1(1,2) by (auto simp: store_get_def split: if_splits sum.splits)
  show "is_warm st' \<longleftrightarrow> is_warm st
      \<or> ds_warmup_empty_polls st \<le> next_empty_polls batch st \<and> caught_up targets position"
  proof (cases "\<not> is_warm st \<and> ds_warmup_empty_polls st \<le> next_empty_polls batch st")
    case False
    thus ?thesis using poll 1 by auto
  next
    case True
    show ?thesis
    proof (cases "fetch_positions position (map fst targets) []")
      case (Inl e)
      thus ?thesis using poll 1 True cu by auto
    next
      case (Inr ps)
      thus ?thesis using poll 1 True replay_complete_caught_up[OF Inr] assms(2) by (auto simp: is_warm_def)
    qed
  qed
qed

section \<open>Properties\<close>

text \<open>
  C18: Replaying records of the claim topic leaves, for every key, the claim of the
  last readable record about it in an owned partition, nothing if that is a
  tombstone, and the earlier entry if there is none. Records without a key, with
  malformed values or of other partitions change nothing.
\<close>

theorem replay_rebuilds_claims:
  "store_get (fold (replay_record sd) rs st) k =
     (let spoken = filter (speaks_of sd st k) rs in
      if spoken = [] then store_get st k else claim_in sd (last spoken))"
  by (simp add: fold_replay_get table_after_def)



lemma update_assignment_store:
  "\<exists>m. rp_store (update_assignment sd kf assigned s) =
     (rp_store s)\<lparr>ds_warm := False, ds_empty_polls := 0, ds_owned := assigned,
        ds_map := (if filter (\<lambda>p. p \<notin> set assigned) (ds_owned (rp_store s)) = [] then ds_map (rp_store s)
                   else hm_retain (\<lambda>key _. partition_for key (ds_partitions (rp_store s))
                          \<notin> set (filter (\<lambda>p. p \<notin> set assigned) (ds_owned (rp_store s)))) (ds_map (rp_store s))),
        ds_membership := m\<rparr>"
proof (cases "ds_membership (rp_store s)")
  case None
  thus ?thesis by (intro exI[of _ None]) (simp add: update_assignment_def Let_def)
next
  case (Some pub)
  obtain r pub' w where "publish sd kf assigned pub (rp_world s) = (r, pub', w)" by (metis prod_cases3)
  thus ?thesis using Some by (intro exI[of _ "Some pub'"]) (simp add: update_assignment_def Let_def)
qed

lemma update_assignment_log:
  assumes "txn_contract kf tv"
  shows "keeps_log tv (rp_world s) (rp_world (update_assignment sd kf assigned s))"
proof -
  have pub: "keeps_log tv w w'" if "publish sd kf assigned pub w = (r, pub', w')" for r pub pub' w w'
    using contractD(12)[OF assms] that
    by (auto simp: publish_def Let_def keeps_log_def split: sum.splits prod.splits)
  show ?thesis using pub by (auto simp: update_assignment_def Let_def keeps_log_def split: option.splits prod.splits)
qed

text \<open>
  An assignment change closes the warm gate, makes the assignment the owned set,
  drops every claim of a partition that is no longer owned and keeps every other
  claim; it never touches the committed transactions.
\<close>

theorem assignment_change_exact:
  assumes "txn_contract kf tv" "hm_ok (ds_map (rp_store s))"
  shows "(let s' = update_assignment sd kf assigned s; st = rp_store s; st' = rp_store s' in
      \<not> is_warm st' \<and> ds_owned st' = assigned \<and> hm_ok (ds_map st')
    \<and> tv_committed tv (rp_world s') = tv_committed tv (rp_world s)
    \<and> (\<forall>k. store_get st' k =
          (if owns st (partition_for k (ds_partitions st)) \<and> \<not> owns st' (partition_for k (ds_partitions st))
           then None else store_get st k)))"
proof -
  obtain m where m: "rp_store (update_assignment sd kf assigned s) =
     (rp_store s)\<lparr>ds_warm := False, ds_empty_polls := 0, ds_owned := assigned,
        ds_map := (if filter (\<lambda>p. p \<notin> set assigned) (ds_owned (rp_store s)) = [] then ds_map (rp_store s)
                   else hm_retain (\<lambda>key _. partition_for key (ds_partitions (rp_store s))
                          \<notin> set (filter (\<lambda>p. p \<notin> set assigned) (ds_owned (rp_store s)))) (ds_map (rp_store s))),
        ds_membership := m\<rparr>"
    using update_assignment_store by blast
  show ?thesis
    using update_assignment_log[OF assms(1), of s sd assigned] assms(2)
    by (auto simp: Let_def m is_warm_def owns_def store_get_def keeps_log_def hm_get_retain filter_empty_conv
        split: option.splits)
qed

theorem assignment_change_exact_witness:
  "store_get (rp_store (update_assignment sample_serde sample_kafka []
      (on_store (store_apply ''k'' sample_claim) sample_replica))) ''k'' = None"
proof -
  let ?s = "on_store (store_apply ''k'' sample_claim) sample_replica"
  have "hm_ok (ds_map (rp_store ?s))"
    by (simp add: store_apply_def sample_replica_def new_store_def hm_ok_def)
  from assignment_change_exact[OF sample_contract(1) this, of sample_serde "[]"]
  show ?thesis
    by (auto simp: Let_def owns_def partition_for_def sample_replica_def new_store_def store_apply_def on_store_def
        split: if_splits)
qed

end
