(* ===== verification/Gw_Produce.thy ===== *)
theory Gw_Produce
  imports Gw_Dedup Gw_Authz
begin

text \<open>
  The produce path across replicas: the produce core (\<open>produce.rs\<close>), the client
  and the endpoint of the internal forward protocol (\<open>forward.rs\<close>), and the
  \<open>Send\<close> and \<open>SendStream\<close> handlers (\<open>handlers.rs\<close>, \<open>streaming.rs\<close>).
\<close>

section \<open>The forward protocol\<close>

record forward_principal =
  fp_name :: string
  fp_auth_method :: string
  fp_groups :: "string list"

definition auth_method_to_str :: "auth_method \<Rightarrow> string" where
  "auth_method_to_str m =
     (case m of
        Anonymous \<Rightarrow> ''Anonymous''
      | SaslPlain \<Rightarrow> ''SaslPlain''
      | SaslScramSha256 \<Rightarrow> ''SaslScramSha256''
      | SaslScramSha512 \<Rightarrow> ''SaslScramSha512''
      | SaslOAuthBearer \<Rightarrow> ''SaslOAuthBearer''
      | SaslGssapi \<Rightarrow> ''SaslGssapi''
      | MTls \<Rightarrow> ''MTls'')"

definition auth_method_from_str :: "string \<Rightarrow> auth_method" where
  "auth_method_from_str s =
     (if s = ''SaslPlain'' then SaslPlain
      else if s = ''SaslScramSha256'' then SaslScramSha256
      else if s = ''SaslScramSha512'' then SaslScramSha512
      else if s = ''SaslOAuthBearer'' then SaslOAuthBearer
      else if s = ''SaslGssapi'' then SaslGssapi
      else if s = ''MTls'' then MTls
      else Anonymous)"

definition from_principal :: "principal \<Rightarrow> forward_principal" where
  "from_principal p =
     \<lparr>fp_name = p_name p, fp_auth_method = auth_method_to_str (p_auth_method p), fp_groups = p_groups p\<rparr>"

definition to_principal :: "forward_principal \<Rightarrow> principal" where
  "to_principal fp =
     \<lparr>p_name = fp_name fp, p_auth_method = auth_method_from_str (fp_auth_method fp), p_groups = fp_groups fp\<rparr>"

record forward_record =
  fr_topic :: string
  fr_key :: "bytes option"
  fr_value :: bytes
  fr_headers :: "header list"
  fr_partition :: "int option"
  fr_timestamp_ms :: "int option"
  fr_idempotency_key :: "string option"
  fr_principal :: "forward_principal option"

definition from_record :: "gateway_record \<Rightarrow> principal \<Rightarrow> forward_record" where
  "from_record r p =
     \<lparr>fr_topic = gr_topic r, fr_key = gr_key r, fr_value = gr_value r, fr_headers = gr_headers r,
      fr_partition = gr_partition r, fr_timestamp_ms = gr_timestamp_ms r,
      fr_idempotency_key = gr_idempotency_key r, fr_principal = Some (from_principal p)\<rparr>"

definition into_record :: "forward_record \<Rightarrow> gateway_record" where
  "into_record f =
     \<lparr>gr_topic = fr_topic f, gr_key = fr_key f, gr_value = fr_value f, gr_body_structured = None,
      gr_headers = fr_headers f, gr_partition = fr_partition f, gr_timestamp_ms = fr_timestamp_ms f,
      gr_idempotency_key = fr_idempotency_key f\<rparr>"

record forward_error =
  fe_message :: string
  fe_retriable :: bool

record forward_result =
  fo_partition :: int
  fo_offset :: int
  fo_deduplicated :: bool
  fo_error :: "forward_error option"

text \<open>
  The reply of the owner as the client sees it: its status, and the parsed body
  or the parse error with its text and whether it was a timeout.
\<close>

type_synonym forward_reply = "nat \<times> ((bool \<times> string) + forward_result)"

record 'w externals =
  ex_kafka :: "'w kafka"
  ex_serde :: serde
  ex_encode :: "string \<Rightarrow> encode_body \<Rightarrow> 'w \<Rightarrow> (codec_error + bytes) \<times> 'w"
  ex_post :: "string \<Rightarrow> forward_record \<Rightarrow> 'w \<Rightarrow> (unit + forward_reply) \<times> 'w"
  ex_elapsed :: "'w \<Rightarrow> nat"

definition http_success :: "nat \<Rightarrow> bool" where
  "http_success status \<longleftrightarrow> 200 \<le> status \<and> status < 300"

definition forward_outcome :: "unit + forward_reply \<Rightarrow> string \<times> (gateway_error + record_outcome)" where
  "forward_outcome reply =
     (case reply of
        Err _ \<Rightarrow> (''unavailable'', Err Unavailable)
      | Ok (status, Ok result) \<Rightarrow>
          (case fo_error result of
             None \<Rightarrow>
               if http_success status then
                 (''ok'', Ok \<lparr>out_partition = fo_partition result, out_offset = fo_offset result,
                              out_deduplicated = fo_deduplicated result\<rparr>)
               else (''unavailable'', Err Unavailable)
           | Some e \<Rightarrow>
               if fe_retriable e then (''unavailable'', Err Unavailable)
               else if status = 403 then (''unauthorized'', Err (Unauthorized (fe_message e)))
               else (''forward_error'', Err (Forward (fe_message e))))
      | Ok (status, Err (is_timeout, e)) \<Rightarrow>
          if is_timeout then (''unavailable'', Err Unavailable)
          else if http_success status then
            (''forward_error'', Err (Forward (''decode forward result: '' @ e)))
          else (''unavailable'', Err Unavailable))"

definition forward ::
    "'w externals \<Rightarrow> string \<Rightarrow> string \<Rightarrow> gateway_record \<Rightarrow> principal \<Rightarrow> 'w replica \<Rightarrow>
     (gateway_error + record_outcome) \<times> 'w replica" where
  "forward ex scheme owner_addr rec p s =
     (case ex_post ex (scheme @ ''://'' @ owner_addr @ ''/internal/v1/forward'') (from_record rec p) (rp_world s) of
        (reply, w) \<Rightarrow>
          (case forward_outcome reply of
             (label, r) \<Rightarrow> (r, emit (RecordForward label) (s\<lparr>rp_world := w\<rparr>))))"

section \<open>The produce core\<close>

record forwarding =
  fw_membership :: membership_store
  fw_scheme :: string
  fw_self_addr :: string

record 'w produce_core =
  co_replica :: "'w replica"
  co_dedup :: bool
  co_forwarding :: "forwarding option"

definition on_replica :: "('w replica \<Rightarrow> 'r \<times> 'w replica) \<Rightarrow> 'w produce_core \<Rightarrow> 'r \<times> 'w produce_core" where
  "on_replica f g = (case f (co_replica g) of (r, s) \<Rightarrow> (r, g\<lparr>co_replica := s\<rparr>))"

definition produce_plain ::
    "'w externals \<Rightarrow> gateway_record \<Rightarrow> bytes \<Rightarrow> acks \<Rightarrow> 'w replica \<Rightarrow> (gateway_error + record_outcome) \<times> 'w replica" where
  "produce_plain ex rec v acks s =
     (case kf_send (ex_kafka ex) acks (to_producer_record rec v) (rp_world s) of
        (Err e, w) \<Rightarrow> (Err (Producer e), s\<lparr>rp_world := w\<rparr>)
      | (Ok meta, w) \<Rightarrow>
          (Ok \<lparr>out_partition = fst meta, out_offset = snd meta, out_deduplicated = False\<rparr>, s\<lparr>rp_world := w\<rparr>))"

definition encode_value ::
    "'w externals \<Rightarrow> gateway_record \<Rightarrow> 'w replica \<Rightarrow> (gateway_error + bytes) \<times> 'w replica" where
  "encode_value ex rec s =
     (case ex_encode ex (gr_topic rec) (encode_body_of rec) (rp_world s) of
        (r, w) \<Rightarrow> (map_err Codec r, s\<lparr>rp_world := w\<rparr>))"

definition produce_local_with_acks ::
    "'w externals \<Rightarrow> gateway_record \<Rightarrow> acks \<Rightarrow> 'w produce_core \<Rightarrow> (gateway_error + record_outcome) \<times> 'w produce_core" where
  "produce_local_with_acks ex rec acks g =
     (case on_replica (encode_value ex rec) g of
        (Err e, g) \<Rightarrow> (Err e, g)
      | (Ok v, g) \<Rightarrow>
          if co_dedup g \<and> gr_idempotency_key rec \<noteq> None
          then on_replica (dedup_produce (ex_serde ex) (ex_kafka ex) rec v) g
          else on_replica (produce_plain ex rec v acks) g)"

definition produce_local ::
    "'w externals \<Rightarrow> gateway_record \<Rightarrow> 'w produce_core \<Rightarrow> (gateway_error + record_outcome) \<times> 'w produce_core" where
  "produce_local ex rec g = produce_local_with_acks ex rec AcksAll g"

text \<open>The route of a record: refused, local, or the address of the owner.\<close>

definition route_of :: "gateway_record \<Rightarrow> 'w produce_core \<Rightarrow> gateway_error + string option" where
  "route_of rec g =
     (case (co_dedup g, co_forwarding g, gr_idempotency_key rec) of
        (True, Some fwd, Some key) \<Rightarrow>
          let st = rp_store (co_replica g); p = partition_for key (ds_partitions st) in
          if owns st p then Ok None
          else (case owner_of (fw_membership fwd) p of
                  Some addr \<Rightarrow> if addr = fw_self_addr fwd then Ok None else Ok (Some addr)
                | None \<Rightarrow> Err Unavailable)
      | _ \<Rightarrow> Ok None)"

definition produce_with_acks ::
    "'w externals \<Rightarrow> gateway_record \<Rightarrow> principal \<Rightarrow> acks \<Rightarrow> 'w produce_core \<Rightarrow>
     (gateway_error + record_outcome) \<times> 'w produce_core" where
  "produce_with_acks ex rec p acks g =
     (if gr_idempotency_key rec \<noteq> None \<and> acks \<noteq> AcksAll
      then (Err (Other ''idempotency_key requires ACKS_ALL''), g)
      else case route_of rec g of
             Err e \<Rightarrow> (Err e, g)
           | Ok (Some addr) \<Rightarrow>
               (case co_forwarding g of
                  None \<Rightarrow> (Err (Other ''forwarding route has no forwarder''), g)
                | Some fwd \<Rightarrow> on_replica (forward ex (fw_scheme fwd) addr rec p) g)
           | Ok None \<Rightarrow> produce_local_with_acks ex rec acks g)"

definition produce ::
    "'w externals \<Rightarrow> gateway_record \<Rightarrow> principal \<Rightarrow> 'w produce_core \<Rightarrow>
     (gateway_error + record_outcome) \<times> 'w produce_core" where
  "produce ex rec p g = produce_with_acks ex rec p AcksAll g"

definition enqueue_plain_with_acks ::
    "'w externals \<Rightarrow> gateway_record \<Rightarrow> acks \<Rightarrow> 'w replica \<Rightarrow> (gateway_error + nat) \<times> 'w replica" where
  "enqueue_plain_with_acks ex rec acks s =
     (if gr_idempotency_key rec \<noteq> None
      then (Err (Other ''idempotency_key requires the dedup produce path''), s)
      else case encode_value ex rec s of
             (Err e, s) \<Rightarrow> (Err e, s)
           | (Ok v, s) \<Rightarrow>
               (case kf_enqueue (ex_kafka ex) acks (to_producer_record rec v) (rp_world s) of
                  (r, w) \<Rightarrow> (map_err Producer r, s\<lparr>rp_world := w\<rparr>)))"

section \<open>The forward endpoint\<close>

datatype forward_body = BodyTooLarge | BodyMalformed | BodyParsed forward_record

definition refuse_forward :: "string \<Rightarrow> bool \<Rightarrow> forward_result" where
  "refuse_forward m retriable =
     \<lparr>fo_partition = - 1, fo_offset = - 1, fo_deduplicated = False,
      fo_error = Some \<lparr>fe_message = m, fe_retriable = retriable\<rparr>\<rparr>"

definition forward_handler ::
    "'w externals \<Rightarrow> gateway_authz \<Rightarrow> bool \<Rightarrow> principal option \<Rightarrow> forward_body \<Rightarrow> 'w produce_core \<Rightarrow>
     (nat \<times> forward_result option) \<times> 'w produce_core" where
  "forward_handler ex a tls peer body g =
     (case body of
        BodyTooLarge \<Rightarrow> ((413, None), g)
      | BodyMalformed \<Rightarrow> ((400, None), g)
      | BodyParsed req \<Rightarrow>
          if tls \<and> peer = None then
            ((403, Some (refuse_forward ''forward requires an authenticated mTLS peer'' False)), g)
          else
            let caller = (case fr_principal req of None \<Rightarrow> anonymous_principal | Some fp \<Rightarrow> to_principal fp) in
            if authorize_resource a caller unknown_host Topic (fr_topic req) Write = Deny then
              ((403, Some (refuse_forward (''Write Topic:'' @ fr_topic req) False)), g)
            else
              (case produce_local ex (into_record req) g of
                 (Ok out, g) \<Rightarrow>
                   ((200, Some \<lparr>fo_partition = out_partition out, fo_offset = out_offset out,
                                fo_deduplicated = out_deduplicated out, fo_error = None\<rparr>), g)
               | (Err e, g) \<Rightarrow>
                   ((200, Some (refuse_forward (display_gateway_error e) (e = Unavailable))), g)))"

section \<open>Sending\<close>

definition send_result ::
    "'w externals \<Rightarrow> gateway_error + record_outcome \<Rightarrow> 'w replica \<Rightarrow> record_result \<times> 'w replica" where
  "send_result ex r s =
     (let s = emit (ObserveProduceLatency (ex_elapsed ex (rp_world s))) s in
      case r of
        Ok out \<Rightarrow> (ok_result out, emit (RecordSend (if out_deduplicated out then ''deduplicated'' else ''ok'')) s)
      | Err e \<Rightarrow>
          (error_result e,
           emit (RecordSend (case e of Unauthorized _ \<Rightarrow> ''unauthorized'' | _ \<Rightarrow> ''error'')) s))"

definition SEND_WINDOW_CAPACITY :: nat where
  "SEND_WINDOW_CAPACITY = 64"

text \<open>
  A pending future: a result that is there already, or a delivery to wait for.
  The source polls the futures of the window together, so their completion
  metrics may interleave; the results are collected in this order.
\<close>

datatype delivery = Ready record_result | Awaiting "gateway_error + nat"

record send_window =
  sw_pending :: "delivery list"
  sw_results :: "record_result list"

definition complete_delivery ::
    "'w externals \<Rightarrow> delivery \<Rightarrow> 'w replica \<Rightarrow> record_result \<times> 'w replica" where
  "complete_delivery ex d s =
     (case d of
        Ready r \<Rightarrow> (r, s)
      | Awaiting (Err e) \<Rightarrow> send_result ex (Err e) s
      | Awaiting (Ok h) \<Rightarrow>
          (case kf_await (ex_kafka ex) h (rp_world s) of
             (Err e, w) \<Rightarrow> send_result ex (Err (Producer e)) (s\<lparr>rp_world := w\<rparr>)
           | (Ok meta, w) \<Rightarrow>
               send_result ex (Ok \<lparr>out_partition = fst meta, out_offset = snd meta, out_deduplicated = False\<rparr>)
                 (s\<lparr>rp_world := w\<rparr>)))"

fun complete_all :: "'w externals \<Rightarrow> delivery list \<Rightarrow> 'w replica \<Rightarrow> record_result list \<times> 'w replica" where
  "complete_all ex [] s = ([], s)"
| "complete_all ex (d # ds) s =
     (case complete_delivery ex d s of
        (r, s) \<Rightarrow> (case complete_all ex ds s of (rs, s) \<Rightarrow> (r # rs, s)))"

definition window_drain :: "'w externals \<Rightarrow> send_window \<times> 'w replica \<Rightarrow> send_window \<times> 'w replica" where
  "window_drain ex ws =
     (case complete_all ex (sw_pending (fst ws)) (snd ws) of
        (rs, s) \<Rightarrow> (\<lparr>sw_pending = [], sw_results = sw_results (fst ws) @ rs\<rparr>, s))"

definition window_push ::
    "'w externals \<Rightarrow> delivery \<Rightarrow> send_window \<times> 'w replica \<Rightarrow> send_window \<times> 'w replica" where
  "window_push ex d ws =
     (let win = (fst ws)\<lparr>sw_pending := sw_pending (fst ws) @ [d]\<rparr> in
      if length (sw_pending win) = SEND_WINDOW_CAPACITY then window_drain ex (win, snd ws) else (win, snd ws))"

definition denied :: "string \<Rightarrow> gateway_error" where
  "denied t = Unauthorized (''Write Topic:'' @ t)"

definition send_one ::
    "'w externals \<Rightarrow> gateway_authz \<Rightarrow> principal \<Rightarrow> string \<Rightarrow> acks \<Rightarrow> gateway_record \<Rightarrow>
     send_window \<times> 'w produce_core \<Rightarrow> send_window \<times> 'w produce_core" where
  "send_one ex a p host acks rec wg =
     (let (win, g) = wg in
      if authorize_resource a p host Topic (gr_topic rec) Write = Deny then
        (case window_push ex (Ready (error_result (denied (gr_topic rec))))
                (win, emit (RecordSend ''unauthorized'') (co_replica g)) of
           (win, s) \<Rightarrow> (win, g\<lparr>co_replica := s\<rparr>))
      else if gr_idempotency_key rec \<noteq> None then
        (case window_drain ex (win, co_replica g) of
           (win, s) \<Rightarrow>
             (case produce_with_acks ex rec p acks (g\<lparr>co_replica := s\<rparr>) of
                (r, g) \<Rightarrow>
                  (case send_result ex r (co_replica g) of
                     (rr, s) \<Rightarrow> (win\<lparr>sw_results := sw_results win @ [rr]\<rparr>, g\<lparr>co_replica := s\<rparr>))))
      else
        (case enqueue_plain_with_acks ex rec acks (co_replica g) of
           (d, s) \<Rightarrow>
             (case window_push ex (Awaiting d) (win, s) of (win, s) \<Rightarrow> (win, g\<lparr>co_replica := s\<rparr>))))"

definition send ::
    "'w externals \<Rightarrow> gateway_authz \<Rightarrow> principal option \<Rightarrow> string option \<Rightarrow> int \<Rightarrow> pb_record list \<Rightarrow> 'w produce_core \<Rightarrow>
     (connect_error + record_result list) \<times> 'w produce_core" where
  "send ex a caller peer acks records g =
     (let g = g\<lparr>co_replica := emit IncInflight (co_replica g)\<rparr>;
          (r, g) =
            (case producer_acks_from_pb acks of
               None \<Rightarrow> (Err (mk_error InvalidArgument (''unknown acknowledgement mode '' @ show_int acks)), g)
             | Some acks \<Rightarrow>
                 let eff = (case caller of None \<Rightarrow> anonymous_principal | Some p \<Rightarrow> p);
                     host = (case peer of None \<Rightarrow> unknown_host | Some h \<Rightarrow> h);
                     (win, g) = fold (\<lambda>r. send_one ex a eff host acks (to_gateway_record r)) records
                       (\<lparr>sw_pending = [], sw_results = []\<rparr>, g);
                     (win, s) = window_drain ex (win, co_replica g)
                 in (Ok (sw_results win), g\<lparr>co_replica := s\<rparr>));
          s = co_replica g
      in (r, g\<lparr>co_replica := emit DecInflight (emit (ObserveRequestDuration ''send'' (ex_elapsed ex (rp_world s))) s)\<rparr>))"

section \<open>The send stream\<close>

definition stream_one ::
    "'w externals \<Rightarrow> gateway_authz \<Rightarrow> principal \<Rightarrow> string \<Rightarrow> acks \<Rightarrow> gateway_record \<Rightarrow> 'w produce_core \<Rightarrow>
     record_result \<times> 'w produce_core" where
  "stream_one ex a p host acks rec g =
     (if authorize_resource a p host Topic (gr_topic rec) Write = Deny
      then (error_result (denied (gr_topic rec)), g)
      else case produce_with_acks ex rec p acks g of
             (Ok out, g) \<Rightarrow> (ok_result out, g)
           | (Err e, g) \<Rightarrow> (error_result e, g))"

fun stream_records ::
    "'w externals \<Rightarrow> gateway_authz \<Rightarrow> principal \<Rightarrow> string \<Rightarrow> acks \<Rightarrow> pb_record list \<Rightarrow> 'w produce_core \<Rightarrow>
     record_result list \<times> 'w produce_core" where
  "stream_records ex a p host acks [] g = ([], g)"
| "stream_records ex a p host acks (r # rs) g =
     (case stream_one ex a p host acks (to_gateway_record r) g of
        (x, g) \<Rightarrow> (case stream_records ex a p host acks rs g of (xs, g) \<Rightarrow> (x # xs, g)))"

text \<open>Each inbound item is a transport error or a request: its acknowledgement mode and records.\<close>

fun send_stream_inner ::
    "'w externals \<Rightarrow> gateway_authz \<Rightarrow> principal \<Rightarrow> string \<Rightarrow> (connect_error + (int \<times> pb_record list)) list \<Rightarrow>
     'w produce_core \<Rightarrow> (connect_error + record_result list) list \<times> 'w produce_core" where
  "send_stream_inner ex a p host [] g = ([], g)"
| "send_stream_inner ex a p host (Err e # _) g = ([Err e], g)"
| "send_stream_inner ex a p host (Ok (acks, records) # rest) g =
     (case producer_acks_from_pb acks of
        None \<Rightarrow> ([Err (mk_error InvalidArgument (''unknown acknowledgement mode '' @ show_int acks))], g)
      | Some acks \<Rightarrow>
          (case stream_records ex a p host acks records g of
             (results, g) \<Rightarrow>
               (case send_stream_inner ex a p host rest g of (ys, g) \<Rightarrow> (Ok results # ys, g))))"

definition send_stream ::
    "'w externals \<Rightarrow> gateway_authz \<Rightarrow> principal option \<Rightarrow> string option \<Rightarrow>
     (connect_error + (int \<times> pb_record list)) list \<Rightarrow> 'w produce_core \<Rightarrow>
     (connect_error + record_result list) list \<times> 'w produce_core" where
  "send_stream ex a caller peer inbound g =
     send_stream_inner ex a
       (case caller of None \<Rightarrow> anonymous_principal | Some p \<Rightarrow> p)
       (case peer of None \<Rightarrow> unknown_host | Some h \<Rightarrow> h) inbound g"

end
