(* ===== verification/Gw_Send.thy ===== *)
theory Gw_Send
  imports Gw_Produce Gw_ExactlyOnce
begin

text \<open>
  Properties of the produce path: forwarding relays the caller and the owner's
  answer, the bounded delivery window of \<open>Send\<close> is invisible in the results, and
  no denied record reaches a producer.
\<close>

section \<open>The forward protocol\<close>

lemma auth_method_str_inverse [simp]: "auth_method_from_str (auth_method_to_str m) = m"
  by (cases m) (simp_all add: auth_method_from_str_def auth_method_to_str_def)

lemma principal_wire_inverse [simp]: "to_principal (from_principal p) = p"
  by (simp add: to_principal_def from_principal_def)

lemma into_from_record: "into_record (from_record rec p) = rec\<lparr>gr_body_structured := None\<rparr>"
  by (simp add: into_record_def from_record_def)

text \<open>How the origin reports what the owner answered.\<close>

definition relayed :: "gateway_error + record_outcome \<Rightarrow> gateway_error + record_outcome" where
  "relayed r =
     (case r of
        Ok out \<Rightarrow> Ok out
      | Err e \<Rightarrow> if e = Unavailable then Err Unavailable else Err (Forward (display_gateway_error e)))"

section \<open>Metrics do not matter\<close>

text \<open>Two replica states that differ at most in the metrics recorded so far.\<close>

definition same :: "'w replica \<Rightarrow> 'w replica \<Rightarrow> bool" where
  "same s s' \<longleftrightarrow> rp_store s = rp_store s' \<and> rp_slots s = rp_slots s'
     \<and> rp_dedup_topic s = rp_dedup_topic s' \<and> rp_world s = rp_world s'"

lemma same_refl [simp]: "same s s"
  by (simp add: same_def)

lemma same_sym: "same s s' \<Longrightarrow> same s' s"
  by (simp add: same_def)

lemma same_trans [trans]: "same s t \<Longrightarrow> same t u \<Longrightarrow> same s u"
  by (simp add: same_def)

lemma same_updates [simp]:
  "same (emit m s) t = same s t" "same s (emit m t) = same s t"
  by (simp_all add: same_def)

lemma same_congs:
  "same s t \<Longrightarrow> same (s\<lparr>rp_world := w\<rparr>) (t\<lparr>rp_world := w\<rparr>)"
  "same s t \<Longrightarrow> same (on_store f s) (on_store f t)"
  "same s t \<Longrightarrow> same (set_slot p b s) (set_slot p b t)"
  "same s t \<Longrightarrow> same (s\<lparr>rp_world := w, rp_slots := x\<rparr>) (t\<lparr>rp_world := w, rp_slots := x\<rparr>)"
  by (simp_all add: same_def on_store_def set_slot_def)

text \<open>An operation whose answer and effect do not depend on the metrics.\<close>

definition blind :: "('w replica \<Rightarrow> 'r \<times> 'w replica) \<Rightarrow> bool" where
  "blind f \<longleftrightarrow> (\<forall>s t. same s t \<longrightarrow> fst (f s) = fst (f t) \<and> same (snd (f s)) (snd (f t)))"

lemma blindD: "blind f \<Longrightarrow> same s t \<Longrightarrow> fst (f s) = fst (f t) \<and> same (snd (f s)) (snd (f t))"
  by (simp add: blind_def)

lemma blind_ensure_producer: "blind (ensure_producer kf p)"
  by (auto simp: blind_def ensure_producer_def init_producer_def same_def set_slot_def split: prod.splits sum.splits)

lemma same_txn_abort: "same s t \<Longrightarrow> same (txn_abort kf p s) (txn_abort kf p t)"
  by (auto simp: txn_abort_def same_def split: prod.splits)

lemma blind_txn_write: "blind (txn_write sd kf rec v key p)"
  unfolding blind_def
proof (intro allI impI)
  fix s t :: "'a replica"
  assume st: "same s t"
  obtain r1 s1 where e: "ensure_producer kf p s = (r1, s1)" by fastforce
  obtain r2 t1 where e': "ensure_producer kf p t = (r2, t1)" by fastforce
  have s1: "r2 = r1" "same s1 t1" using blindD[OF blind_ensure_producer st, of kf p] e e' by simp_all
  hence w: "rp_world t1 = rp_world s1" "rp_dedup_topic t1 = rp_dedup_topic s1" by (simp_all add: same_def)
  show "fst (txn_write sd kf rec v key p s) = fst (txn_write sd kf rec v key p t)
      \<and> same (snd (txn_write sd kf rec v key p s)) (snd (txn_write sd kf rec v key p t))"
    using s1 by (simp add: txn_write_def e e' w same_congs same_txn_abort split: sum.split prod.split)
qed

lemma blind_dedup_check: "blind (dedup_check key p)"
  by (auto simp: blind_def dedup_check_def same_def split: option.splits)

lemma blind_dedup_locked: "blind (dedup_locked sd kf rec v key p)"
  unfolding blind_def
proof (intro allI impI)
  fix s t :: "'a replica"
  assume st: "same s t"
  obtain r1 s1 where c: "dedup_check key p s = (r1, s1)" by fastforce
  obtain t1 where c': "dedup_check key p t = (r1, t1)" and st1: "same s1 t1"
    using blindD[OF blind_dedup_check st, of key p] c by (metis fst_conv prod.collapse snd_conv)
  show "fst (dedup_locked sd kf rec v key p s) = fst (dedup_locked sd kf rec v key p t)
      \<and> same (snd (dedup_locked sd kf rec v key p s)) (snd (dedup_locked sd kf rec v key p t))"
    using blindD[OF blind_txn_write st1, of sd kf rec v key p] st1
    by (auto simp: dedup_locked_def c c' same_congs split: option.splits prod.splits sum.splits)
qed

lemma blind_dedup_produce: "blind (dedup_produce sd kf rec v)"
  unfolding blind_def
proof (intro allI impI)
  fix s t :: "'a replica"
  assume st: "same s t"
  show "fst (dedup_produce sd kf rec v s) = fst (dedup_produce sd kf rec v t)
      \<and> same (snd (dedup_produce sd kf rec v s)) (snd (dedup_produce sd kf rec v t))"
  proof (cases "gr_idempotency_key rec")
    case None
    thus ?thesis using st by (simp add: dedup_produce_def)
  next
    case (Some key)
    let ?p = "partition_for key (ds_partitions (rp_store s))"
    have p: "partition_for key (ds_partitions (rp_store t)) = ?p" using st by (simp add: same_def)
    obtain r1 s1 where c: "dedup_check key ?p s = (r1, s1)" by fastforce
    obtain t1 where c': "dedup_check key ?p t = (r1, t1)" and st1: "same s1 t1"
      using blindD[OF blind_dedup_check st, of key ?p] c by (metis fst_conv prod.collapse snd_conv)
    show ?thesis
      using blindD[OF blind_dedup_locked st1, of sd kf rec v key ?p] st1
      by (simp add: dedup_produce_def Some Let_def c c' p split: option.split)
  qed
qed

lemma blind_encode_value: "blind (encode_value ex rec)"
  by (auto simp: blind_def encode_value_def same_def split: prod.splits)

lemma blind_produce_plain: "blind (produce_plain ex rec v acks)"
  by (auto simp: blind_def produce_plain_def same_def split: prod.splits sum.splits)

lemma blind_forward: "blind (forward ex scheme addr rec p)"
  by (auto simp: blind_def forward_def same_def split: prod.splits)

lemma blind_enqueue: "blind (enqueue_plain_with_acks ex rec acks)"
  by (auto simp: blind_def enqueue_plain_with_acks_def encode_value_def same_def split: prod.splits sum.splits)

text \<open>The same for the produce core.\<close>

definition same_core :: "'w produce_core \<Rightarrow> 'w produce_core \<Rightarrow> bool" where
  "same_core g h \<longleftrightarrow> same (co_replica g) (co_replica h) \<and> co_dedup g = co_dedup h \<and> co_forwarding g = co_forwarding h"

lemma same_core_refl [simp]: "same_core g g"
  by (simp add: same_core_def)

lemma same_coreI: "same_core g h \<Longrightarrow> same s t \<Longrightarrow> same_core (g\<lparr>co_replica := s\<rparr>) (h\<lparr>co_replica := t\<rparr>)"
  by (simp add: same_core_def)

lemma on_replica_blind:
  assumes "blind f" "same_core g h"
  shows "fst (on_replica f g) = fst (on_replica f h) \<and> same_core (snd (on_replica f g)) (snd (on_replica f h))"
  using blindD[OF assms(1), of "co_replica g" "co_replica h"] assms(2)
  by (auto simp: on_replica_def same_core_def split: prod.splits)

lemma produce_local_same:
  assumes gh: "same_core g h"
  shows "fst (produce_local_with_acks ex rec acks g) = fst (produce_local_with_acks ex rec acks h)
     \<and> same_core (snd (produce_local_with_acks ex rec acks g)) (snd (produce_local_with_acks ex rec acks h))"
proof -
  obtain r g1 where e: "on_replica (encode_value ex rec) g = (r, g1)" by fastforce
  obtain h1 where e': "on_replica (encode_value ex rec) h = (r, h1)" and gh1: "same_core g1 h1"
    using on_replica_blind[OF blind_encode_value gh, of ex rec] e by (metis fst_conv prod.collapse snd_conv)
  have "co_dedup h1 = co_dedup g1" using gh1 by (simp add: same_core_def)
  thus ?thesis
    using gh1 on_replica_blind[OF blind_dedup_produce gh1] on_replica_blind[OF blind_produce_plain gh1]
    by (auto simp: produce_local_with_acks_def e e' split: sum.split)
qed

lemma route_of_same:
  assumes "same_core g h"
  shows "route_of rec g = route_of rec h"
proof -
  have "co_dedup g = co_dedup h" "co_forwarding g = co_forwarding h"
    "rp_store (co_replica g) = rp_store (co_replica h)"
    using assms by (simp_all add: same_core_def same_def)
  thus ?thesis by (simp only: route_of_def)
qed

lemma produce_with_acks_same:
  assumes gh: "same_core g h"
  shows "fst (produce_with_acks ex rec p acks g) = fst (produce_with_acks ex rec p acks h)
     \<and> same_core (snd (produce_with_acks ex rec p acks g)) (snd (produce_with_acks ex rec p acks h))"
proof -
  have "co_forwarding h = co_forwarding g" using gh by (simp add: same_core_def)
  thus ?thesis
    using gh produce_local_same[OF gh] on_replica_blind[OF blind_forward gh]
    by (simp add: produce_with_acks_def route_of_same[OF gh] split: sum.split option.split)
qed

section \<open>The delivery window\<close>

text \<open>The results when every record is completed before the next is looked at.\<close>

definition result_of :: "gateway_error + record_outcome \<Rightarrow> record_result" where
  "result_of r = (case r of Ok out \<Rightarrow> ok_result out | Err e \<Rightarrow> error_result e)"

definition direct_one ::
    "'w externals \<Rightarrow> gateway_authz \<Rightarrow> principal \<Rightarrow> string \<Rightarrow> acks \<Rightarrow> gateway_record \<Rightarrow> 'w produce_core \<Rightarrow>
     record_result \<times> 'w produce_core" where
  "direct_one ex a p host acks rec g =
     (if authorize_resource a p host Topic (gr_topic rec) Write = Deny
      then (error_result (denied (gr_topic rec)), g)
      else if gr_idempotency_key rec \<noteq> None then
        (case produce_with_acks ex rec p acks g of (r, g) \<Rightarrow> (result_of r, g))
      else
        (case enqueue_plain_with_acks ex rec acks (co_replica g) of
           (d, s) \<Rightarrow>
             (case complete_delivery ex (Awaiting d) s of (r, s) \<Rightarrow> (r, g\<lparr>co_replica := s\<rparr>))))"

fun direct_all ::
    "'w externals \<Rightarrow> gateway_authz \<Rightarrow> principal \<Rightarrow> string \<Rightarrow> acks \<Rightarrow> pb_record list \<Rightarrow> 'w produce_core \<Rightarrow>
     record_result list \<times> 'w produce_core" where
  "direct_all ex a p host acks [] g = ([], g)"
| "direct_all ex a p host acks (r # rs) g =
     (case direct_one ex a p host acks (to_gateway_record r) g of
        (x, g) \<Rightarrow> (case direct_all ex a p host acks rs g of (xs, g) \<Rightarrow> (x # xs, g)))"

text \<open>A delivery handle resolves to the result of its own record, whenever it is awaited.\<close>

definition stable_deliveries :: "'w externals \<Rightarrow> (nat \<Rightarrow> producer_error + (int \<times> int)) \<Rightarrow> bool" where
  "stable_deliveries ex ans \<longleftrightarrow> (\<forall>h w. kf_await (ex_kafka ex) h w = (ans h, w))"

definition delivered :: "(nat \<Rightarrow> producer_error + (int \<times> int)) \<Rightarrow> delivery \<Rightarrow> record_result" where
  "delivered ans d =
     (case d of
        Ready r \<Rightarrow> r
      | Awaiting (Err e) \<Rightarrow> error_result e
      | Awaiting (Ok h) \<Rightarrow>
          (case ans h of
             Err e \<Rightarrow> error_result (Producer e)
           | Ok meta \<Rightarrow> ok_result \<lparr>out_partition = fst meta, out_offset = snd meta, out_deduplicated = False\<rparr>))"

lemma send_result_spec: "fst (send_result ex r s) = result_of r" "same (snd (send_result ex r s)) s"
  by (auto simp: send_result_def result_of_def Let_def split: sum.splits)

lemma complete_delivery_spec:
  assumes "stable_deliveries ex ans"
  shows "fst (complete_delivery ex d s) = delivered ans d" "same (snd (complete_delivery ex d s)) s"
  using assms send_result_spec[of ex]
  by (auto simp: complete_delivery_def delivered_def stable_deliveries_def result_of_def split: delivery.splits sum.splits)

lemma complete_all_spec:
  assumes "stable_deliveries ex ans"
  shows "fst (complete_all ex ds s) = map (delivered ans) ds \<and> same (snd (complete_all ex ds s)) s"
proof (induction ds arbitrary: s)
  case (Cons d ds)
  obtain r s1 where c: "complete_delivery ex d s = (r, s1)" by fastforce
  hence "r = delivered ans d" "same s1 s" using complete_delivery_spec[OF assms, of d s] by simp_all
  thus ?case using Cons.IH[of s1] by (auto simp: c split: prod.splits intro: same_trans)
qed simp

text \<open>What the window will have returned once it is drained.\<close>

definition eventually :: "(nat \<Rightarrow> producer_error + (int \<times> int)) \<Rightarrow> send_window \<Rightarrow> record_result list" where
  "eventually ans win = sw_results win @ map (delivered ans) (sw_pending win)"

lemma window_drain_spec:
  assumes "stable_deliveries ex ans" "window_drain ex (win, s) = (win', s')"
  shows "sw_pending win' = [] \<and> sw_results win' = eventually ans win \<and> same s' s"
  using complete_all_spec[OF assms(1), of "sw_pending win" s] assms(2)
  by (auto simp: window_drain_def eventually_def split: prod.splits)

lemma window_push_spec:
  assumes "stable_deliveries ex ans" "window_push ex d (win, s) = (win', s')" "length (sw_pending win) < SEND_WINDOW_CAPACITY"
  shows "eventually ans win' = eventually ans win @ [delivered ans d] \<and> same s' s
     \<and> length (sw_pending win') < SEND_WINDOW_CAPACITY"
proof (cases "length (sw_pending win @ [d]) = SEND_WINDOW_CAPACITY")
  case True
  hence "window_drain ex (win\<lparr>sw_pending := sw_pending win @ [d]\<rparr>, s) = (win', s')"
    using assms(2) by (simp add: window_push_def)
  from window_drain_spec[OF assms(1) this] show ?thesis
    by (simp add: eventually_def SEND_WINDOW_CAPACITY_def)
next
  case False
  hence "win' = win\<lparr>sw_pending := sw_pending win @ [d]\<rparr>" "s' = s"
    using assms(2) by (simp_all add: window_push_def)
  thus ?thesis using False assms(3) by (simp add: eventually_def)
qed

lemma send_one_spec:
  assumes st: "stable_deliveries ex ans" and lt: "length (sw_pending win) < SEND_WINDOW_CAPACITY"
    and gh: "same_core g h" and one: "send_one ex a p host acks rec (win, g) = (win', g')"
  shows "eventually ans win' = eventually ans win @ [fst (direct_one ex a p host acks rec h)]
     \<and> same_core g' (snd (direct_one ex a p host acks rec h)) \<and> length (sw_pending win') < SEND_WINDOW_CAPACITY"
proof -
  have gsame: "same (co_replica g) (co_replica h)" using gh by (simp add: same_core_def)
  consider (deny) "authorize_resource a p host Topic (gr_topic rec) Write = Deny"
    | (keyed) "authorize_resource a p host Topic (gr_topic rec) Write \<noteq> Deny" "gr_idempotency_key rec \<noteq> None"
    | (plain) "authorize_resource a p host Topic (gr_topic rec) Write \<noteq> Deny" "gr_idempotency_key rec = None"
    by blast
  thus ?thesis
  proof cases
    case deny
    let ?d = "Ready (error_result (denied (gr_topic rec)))"
    obtain win1 s1 where w: "window_push ex ?d (win, emit (RecordSend ''unauthorized'') (co_replica g)) = (win1, s1)" by fastforce
    have "win' = win1" "g' = g\<lparr>co_replica := s1\<rparr>" using one deny w by (simp_all add: send_one_def)
    thus ?thesis using window_push_spec[OF st w lt] deny gh
      by (auto simp: direct_one_def delivered_def same_core_def intro: same_trans)
  next
    case keyed
    obtain win1 s1 where w: "window_drain ex (win, co_replica g) = (win1, s1)" by fastforce
    obtain r g1 where pr: "produce_with_acks ex rec p acks (g\<lparr>co_replica := s1\<rparr>) = (r, g1)" by fastforce
    obtain rr s2 where sr: "send_result ex r (co_replica g1) = (rr, s2)" by fastforce
    have res: "win' = win1\<lparr>sw_results := sw_results win1 @ [rr]\<rparr>" "g' = g1\<lparr>co_replica := s2\<rparr>"
      using one keyed w pr sr by (simp_all add: send_one_def)
    have d: "sw_pending win1 = []" "sw_results win1 = eventually ans win" "same s1 (co_replica g)"
      using window_drain_spec[OF st w] by simp_all
    have "same_core (g\<lparr>co_replica := s1\<rparr>) h" using gh d(3) by (auto simp: same_core_def intro: same_trans)
    from produce_with_acks_same[OF this, of ex rec p acks]
    have "r = fst (produce_with_acks ex rec p acks h)" "same_core g1 (snd (produce_with_acks ex rec p acks h))"
      using pr by simp_all
    moreover have "rr = result_of r" "same s2 (co_replica g1)" using send_result_spec[of ex r "co_replica g1"] sr by simp_all
    ultimately show ?thesis using keyed res d
      by (auto simp: direct_one_def eventually_def same_core_def SEND_WINDOW_CAPACITY_def split: prod.splits intro: same_trans)
  next
    case plain
    obtain d s1 where e: "enqueue_plain_with_acks ex rec acks (co_replica g) = (d, s1)" by fastforce
    obtain win1 s2 where w: "window_push ex (Awaiting d) (win, s1) = (win1, s2)" by fastforce
    obtain t1 where e': "enqueue_plain_with_acks ex rec acks (co_replica h) = (d, t1)" and st1: "same s1 t1"
      using blindD[OF blind_enqueue gsame, of ex rec acks] e by (metis fst_conv prod.collapse snd_conv)
    obtain r t2 where c: "complete_delivery ex (Awaiting d) t1 = (r, t2)" by fastforce
    have "win' = win1" "g' = g\<lparr>co_replica := s2\<rparr>" using one plain e w by (simp_all add: send_one_def)
    moreover have "r = delivered ans (Awaiting d)" "same t2 t1"
      using complete_delivery_spec[OF st, of "Awaiting d" t1] c by simp_all
    moreover have "same s2 t2"
      using window_push_spec[OF st w lt] st1 \<open>same t2 t1\<close> by (meson same_sym same_trans)
    ultimately show ?thesis using window_push_spec[OF st w lt] plain gh
      by (auto simp: direct_one_def e' c same_core_def)
  qed
qed

lemma send_all_spec:
  assumes st: "stable_deliveries ex ans"
  shows "\<lbrakk>length (sw_pending win) < SEND_WINDOW_CAPACITY; same_core g h;
     fold (\<lambda>r. send_one ex a p host acks (to_gateway_record r)) records (win, g) = (win', g')\<rbrakk> \<Longrightarrow>
     eventually ans win' = eventually ans win @ fst (direct_all ex a p host acks records h)
     \<and> same_core g' (snd (direct_all ex a p host acks records h))
     \<and> length (sw_pending win') < SEND_WINDOW_CAPACITY"
proof (induction records arbitrary: win g h)
  case (Cons r rs)
  obtain win1 g1 where o: "send_one ex a p host acks (to_gateway_record r) (win, g) = (win1, g1)" by fastforce
  obtain x h1 where d: "direct_one ex a p host acks (to_gateway_record r) h = (x, h1)" by fastforce
  have 1: "eventually ans win1 = eventually ans win @ [x]" "same_core g1 h1" "length (sw_pending win1) < SEND_WINDOW_CAPACITY"
    using send_one_spec[OF st Cons.prems(1,2) o] d by simp_all
  show ?case using Cons.IH[OF 1(3,2)] Cons.prems(3) 1(1) by (auto simp: o d split: prod.splits)
qed simp

lemma send_results:
  assumes st: "stable_deliveries ex ans"
  shows "fst (send ex a caller peer acks records g) =
    (case producer_acks_from_pb acks of
       None \<Rightarrow> Err (mk_error InvalidArgument (''unknown acknowledgement mode '' @ show_int acks))
     | Some acks \<Rightarrow> Ok (fst (direct_all ex a
         (case caller of None \<Rightarrow> anonymous_principal | Some p \<Rightarrow> p)
         (case peer of None \<Rightarrow> unknown_host | Some h \<Rightarrow> h) acks records g)))"
proof (cases "producer_acks_from_pb acks")
  case None
  thus ?thesis by (simp add: send_def Let_def)
next
  case (Some k)
  let ?p = "case caller of None \<Rightarrow> anonymous_principal | Some p \<Rightarrow> p"
  let ?h = "case peer of None \<Rightarrow> unknown_host | Some h \<Rightarrow> h"
  let ?g = "g\<lparr>co_replica := emit IncInflight (co_replica g)\<rparr>"
  let ?w = "\<lparr>sw_pending = [], sw_results = []\<rparr>"
  obtain win g1 where f: "fold (\<lambda>r. send_one ex a ?p ?h k (to_gateway_record r)) records (?w, ?g) = (win, g1)" by fastforce
  obtain win2 s where d: "window_drain ex (win, co_replica g1) = (win2, s)" by fastforce
  have "eventually ans win = eventually ans ?w @ fst (direct_all ex a ?p ?h k records g)"
    using send_all_spec[OF st _ _ f, of g] by (simp add: SEND_WINDOW_CAPACITY_def same_core_def)
  moreover have "sw_results win2 = eventually ans win" using window_drain_spec[OF st d] by simp
  ultimately show ?thesis using Some f d by (simp add: send_def Let_def eventually_def)
qed

lemma forward_relays_owner_holds:
  assumes "tls \<Longrightarrow> peer \<noteq> None"
    and "forward_handler ex a tls peer (BodyParsed (from_record rec p)) g = ((status, Some result), g')"
  shows "(snd (forward_outcome (Ok (status, Ok result))), g') =
    (if authorize_resource a p unknown_host Topic (gr_topic rec) Write = Deny
     then (Err (Unauthorized (''Write Topic:'' @ gr_topic rec)), g)
     else (case produce_local ex (rec\<lparr>gr_body_structured := None\<rparr>) g of (r, g1) \<Rightarrow> (relayed r, g1)))"
proof -
  have t: "fr_topic (from_record rec p) = gr_topic rec" "fr_principal (from_record rec p) = Some (from_principal p)"
    by (simp_all add: from_record_def)
  obtain r g1 where pl: "produce_local ex (rec\<lparr>gr_body_structured := None\<rparr>) g = (r, g1)" by fastforce
  show ?thesis
  proof (cases "authorize_resource a p unknown_host Topic (gr_topic rec) Write = Deny")
    case True
    thus ?thesis using assms
      by (auto simp: forward_handler_def t Let_def refuse_forward_def forward_outcome_def split: if_splits)
  next
    case False
    thus ?thesis using assms
      by (cases r)
        (auto simp: forward_handler_def t Let_def into_from_record pl refuse_forward_def forward_outcome_def
          http_success_def relayed_def split: if_splits)
  qed
qed

section \<open>Properties\<close>


definition sample_externals :: "(producer_record list list \<times> producer_record list) externals" where
  "sample_externals = \<lparr>ex_kafka = sample_kafka, ex_serde = sample_serde,
     ex_encode = (\<lambda>t b w. (raw_codec_encode t b, w)), ex_post = (\<lambda>_ _ w. (Err (), w)), ex_elapsed = (\<lambda>_. 0)\<rparr>"

definition sample_core :: "(producer_record list list \<times> producer_record list) produce_core" where
  "sample_core = \<lparr>co_replica = sample_replica, co_dedup = False, co_forwarding = None\<rparr>"

definition allow_all :: gateway_authz where
  "allow_all = \<lparr>ga_authorizer = (\<lambda>_ _. Allow), ga_cache = []\<rparr>"



text \<open>
  A registry failure is retriable for a record produced locally, and is not once
  the same failure happens on the owner behind a forward.
\<close>

theorem forwarded_registry_error_not_retriable:
  assumes "tls \<Longrightarrow> peer \<noteq> None"
    and "forward_handler ex a tls peer (BodyParsed (from_record rec p)) g = ((status, Some result), g')"
    and "fst (produce_local ex (rec\<lparr>gr_body_structured := None\<rparr>) g) = Err (Codec (Registry m))"
  shows "(case snd (forward_outcome (Ok (status, Ok result))) of
            Err e \<Rightarrow> \<not> ei_retriable (the (rr_error (error_result e))) | Ok _ \<Rightarrow> False)
    \<and> ei_retriable (the (rr_error (error_result (Codec (Registry m)))))"
  using forward_relays_owner_holds[OF assms(1,2)] assms(3)
  by (auto simp: relayed_def error_result_def split: if_splits prod.splits)

theorem forwarded_registry_error_not_retriable_witness:
  "\<exists>status result g'. forward_handler (sample_externals\<lparr>ex_encode := (\<lambda>_ _ w. (Err (Registry ''down''), w))\<rparr>) allow_all False None
       (BodyParsed (from_record sample_keyed anonymous_principal)) sample_core = ((status, Some result), g')
     \<and> (case snd (forward_outcome (Ok (status, Ok result))) of
            Err e \<Rightarrow> \<not> ei_retriable (the (rr_error (error_result e))) | Ok _ \<Rightarrow> False)"
proof -
  let ?ex = "sample_externals\<lparr>ex_encode := (\<lambda>_ _ w. (Err (Registry ''down''), w))\<rparr>"
  have pl: "fst (produce_local ?ex (sample_keyed\<lparr>gr_body_structured := None\<rparr>) sample_core) = Err (Codec (Registry ''down''))"
    by (simp add: produce_local_def produce_local_with_acks_def on_replica_def encode_value_def)
  have "\<exists>status result g'. forward_handler ?ex allow_all False None
       (BodyParsed (from_record sample_keyed anonymous_principal)) sample_core = ((status, Some result), g')"
    by (auto simp: forward_handler_def Let_def allow_all_def authorize_resource_def split: prod.splits sum.splits)
  then obtain status result g' where f: "forward_handler ?ex allow_all False None
       (BodyParsed (from_record sample_keyed anonymous_principal)) sample_core = ((status, Some result), g')" by blast
  from forwarded_registry_error_not_retriable[OF _ f pl] f show ?thesis by blast
qed

text \<open>
  C10: The delivery window of \<open>Send\<close> is invisible: for every batch, however plain,
  keyed and denied records are mixed, the response is the list of results that
  completing each record before the next one gives, in input order.
\<close>

theorem send_window_transparent:
  assumes "stable_deliveries ex ans"
  shows "fst (send ex a caller peer acks records g) =
    (case producer_acks_from_pb acks of
       None \<Rightarrow> Err (mk_error InvalidArgument (''unknown acknowledgement mode '' @ show_int acks))
     | Some acks \<Rightarrow> Ok (fst (direct_all ex a
         (case caller of None \<Rightarrow> anonymous_principal | Some p \<Rightarrow> p)
         (case peer of None \<Rightarrow> unknown_host | Some h \<Rightarrow> h) acks records g)))"
  by (rule send_results[OF assms])

definition sample_plain :: pb_record where
  "sample_plain = \<lparr>pr_topic = ''t'', pr_key = None, pr_body = Some (BodyRaw [1]), pr_headers = [],
     pr_partition = None, pr_timestamp_ms = None, pr_idempotency_key = None, pr_schema = None\<rparr>"

theorem send_window_transparent_witness:
  "fst (send sample_externals allow_all None None 0 [sample_plain, sample_plain] sample_core)
     = Ok [ok_result \<lparr>out_partition = 3, out_offset = 7, out_deduplicated = False\<rparr>,
           ok_result \<lparr>out_partition = 3, out_offset = 7, out_deduplicated = False\<rparr>]"
proof -
  have "stable_deliveries sample_externals (\<lambda>_. Ok (3, 7))"
    by (simp add: stable_deliveries_def sample_externals_def sample_kafka_def)
  from send_window_transparent[OF this, of allow_all None None 0 "[sample_plain, sample_plain]" sample_core]
  show ?thesis
    by (simp add: producer_acks_from_pb_def direct_one_def allow_all_def authorize_resource_def to_gateway_record_def
        sample_plain_def enqueue_plain_with_acks_def encode_value_def encode_body_of_def sample_externals_def sample_kafka_def
        complete_delivery_def send_result_def sample_core_def Let_def)
qed

text \<open>
  C21: A denied record never reaches a producer: it is answered with the
  non-retriable permission error and changes nothing but metrics.
\<close>

theorem denied_record_not_produced:
  assumes "authorize_resource a p host Topic (gr_topic rec) Write = Deny"
    and "stable_deliveries ex ans" "length (sw_pending win) < SEND_WINDOW_CAPACITY"
    and "send_one ex a p host acks rec (win, g) = (win', g')"
  shows "same_core g' g
     \<and> eventually ans win' = eventually ans win @ [error_result (Unauthorized (''Write Topic:'' @ gr_topic rec))]"
  using send_one_spec[OF assms(2,3) same_core_refl assms(4)] assms(1) by (simp add: direct_one_def denied_def)

theorem denied_record_not_produced_witness:
  "\<exists>win' g'. send_one sample_externals (allow_all\<lparr>ga_authorizer := (\<lambda>_ _. Deny)\<rparr>) anonymous_principal ''h'' AcksAll sample_keyed
       (\<lparr>sw_pending = [], sw_results = []\<rparr>, sample_core) = (win', g')
     \<and> same_core g' sample_core"
proof -
  obtain win' g' where o: "send_one sample_externals (allow_all\<lparr>ga_authorizer := (\<lambda>_ _. Deny)\<rparr>) anonymous_principal ''h'' AcksAll sample_keyed
       (\<lparr>sw_pending = [], sw_results = []\<rparr>, sample_core) = (win', g')" by fastforce
  have "same_core g' sample_core"
    by (rule conjunct1[OF denied_record_not_produced[OF _ _ _ o, of "\<lambda>_. Ok (3, 7)"]])
      (simp_all add: authorize_resource_def allow_all_def stable_deliveries_def sample_externals_def sample_kafka_def
        SEND_WINDOW_CAPACITY_def)
  thus ?thesis using o by blast
qed

end
