(* ===== verification/Gw_Queue.thy ===== *)
theory Gw_Queue
  imports Gw_Proto Gw_Authz "HOL-Library.Multiset"
begin

text \<open>
  The work queues of \<open>queue.rs\<close>: sessions over native share-group consumers, the
  table that keeps them between unary calls, and the acquire, acknowledge and
  renew handlers.

  Session objects are shared (\<open>Arc\<close>): the table, the calls in progress and the
  tasks that close a removed session hold addresses into a heap of sessions, and
  a session gives its capacity permit back when its last reference goes. Each
  handler is the sequence of its phases; a phase is what runs without waiting
  for anything but the consumer it has locked. The step relation interleaves the
  phases of any number of calls with the sweeper, the closing tasks and the
  clock, which counts milliseconds.

  The share consumer client is a parameter: its handles, polls, acknowledgements,
  commits, renewals, and the text of its errors. So is the source of session ids.
\<close>

section \<open>Requests, sessions and the client\<close>

definition MAX_SESSIONS :: nat where "MAX_SESSIONS = 1024"
definition MAX_MESSAGES :: nat where "MAX_MESSAGES = 500"
definition MAX_WAIT_MS :: nat where "MAX_WAIT_MS = 30000"
definition SUPPORTED_QUEUE_LOCK_DURATION_MS :: nat where "SUPPORTED_QUEUE_LOCK_DURATION_MS = 30000"
definition SESSION_IDLE :: nat where "SESSION_IDLE = 60000"

datatype timestamp_type = CreateTime | LogAppendTime

record share_record =
  sh_topic :: string
  sh_partition :: int
  sh_offset :: int
  sh_timestamp :: int
  sh_timestamp_type :: timestamp_type
  sh_key :: "bytes option"
  sh_value :: "bytes option"
  sh_headers :: "header list"
  sh_delivery_count :: int

datatype share_error =
    ShareServer int
  | ShareClient string
  | ShareCoordinatorUnavailable
  | ShareCommitInvalid
  | ShareRebalanceFailed string
  | ShareIllegalState string
  | ShareOther string

datatype share_ack = Accept | Release | Reject

record 'w share_client =
  sc_build :: "string \<Rightarrow> string list \<Rightarrow> nat \<Rightarrow> 'w \<Rightarrow> (string + nat) \<times> 'w"
  sc_poll :: "nat \<Rightarrow> nat \<Rightarrow> 'w \<Rightarrow> (share_error + share_record list) \<times> 'w"
  sc_acknowledge :: "nat \<Rightarrow> share_record \<Rightarrow> share_ack \<Rightarrow> 'w \<Rightarrow> share_error option \<times> 'w"
  sc_commit :: "nat \<Rightarrow> 'w \<Rightarrow> share_error option \<times> 'w"
  sc_renew :: "nat \<Rightarrow> share_record \<Rightarrow> 'w \<Rightarrow> share_error option \<times> 'w"
  sc_close :: "nat \<Rightarrow> 'w \<Rightarrow> 'w"
  sc_uuid :: "'w \<Rightarrow> string \<times> 'w"
  sc_show :: "share_error \<Rightarrow> string"

record acquire_request =
  aq_group_id :: string
  aq_topics :: "string list"
  aq_max_messages :: nat
  aq_wait_ms :: nat
  aq_session_id :: string
  aq_lock_duration_ms :: nat

record ack_entry =
  ae_topic :: string
  ae_partition :: int
  ae_offset :: int
  ae_type :: int

record ack_result =
  ar_entry :: ack_entry
  ar_error :: "error_info option"

record pb_queued_message =
  qm_topic :: string
  qm_partition :: int
  qm_offset :: int
  qm_key :: "bytes option"
  qm_value :: "bytes option"
  qm_headers :: "header list"
  qm_timestamp_ms :: int
  qm_delivery_count :: int

section \<open>Acquisitions\<close>

type_synonym queue_coordinate = "string \<times> int \<times> int"

text \<open>The \<open>HashSet\<close> of coordinates, as a list without duplicates.\<close>

record queue_acquisitions =
  qa_coordinates :: "queue_coordinate list"

definition can_poll :: "queue_acquisitions \<Rightarrow> bool" where
  "can_poll acq \<longleftrightarrow> qa_coordinates acq = []"

fun record_coordinates ::
    "queue_coordinate list \<Rightarrow> nat \<Rightarrow> queue_acquisitions \<Rightarrow> (unit + unit) \<times> queue_acquisitions" where
  "record_coordinates [] maximum acq = (Ok (), acq)"
| "record_coordinates (c # cs) maximum acq =
     (if length (qa_coordinates acq) = maximum \<and> c \<notin> set (qa_coordinates acq) then (Err (), acq)
      else record_coordinates cs maximum (acq\<lparr>qa_coordinates := List.insert c (qa_coordinates acq)\<rparr>))"

definition record_batch ::
    "queue_coordinate list \<Rightarrow> nat \<Rightarrow> queue_acquisitions \<Rightarrow> (unit + unit) \<times> queue_acquisitions" where
  "record_batch cs maximum acq =
     (if \<not> can_poll acq then (Err (), acq) else record_coordinates cs maximum acq)"

definition finish :: "queue_coordinate \<Rightarrow> queue_acquisitions \<Rightarrow> queue_acquisitions" where
  "finish c acq = acq\<lparr>qa_coordinates := removeAll c (qa_coordinates acq)\<rparr>"

datatype queue_poll_error = Outstanding | Backend share_error | LimitExceeded

definition record_coordinate :: "share_record \<Rightarrow> queue_coordinate" where
  "record_coordinate r = (sh_topic r, sh_partition r, sh_offset r)"

definition poll_tracked_batch ::
    "nat \<Rightarrow> ('w \<Rightarrow> (share_error + share_record list) \<times> 'w) \<Rightarrow> queue_acquisitions \<Rightarrow> 'w \<Rightarrow>
     (queue_poll_error + share_record list) \<times> queue_acquisitions \<times> 'w" where
  "poll_tracked_batch maximum poll acq w =
     (if \<not> can_poll acq then (Err Outstanding, acq, w)
      else case poll w of
             (Err e, w) \<Rightarrow> (Err (Backend e), acq, w)
           | (Ok records, w) \<Rightarrow>
               if maximum < length records then (Err LimitExceeded, acq, w)
               else (case record_batch (map record_coordinate records) maximum acq of
                       (Err _, acq) \<Rightarrow> (Err LimitExceeded, acq, w)
                     | (Ok _, acq) \<Rightarrow> (Ok records, acq, w)))"

section \<open>The session table\<close>

record queue_session =
  se_principal :: principal
  se_group_id :: string
  se_topics :: "string list"
  se_consumer :: nat
  se_acquired :: queue_acquisitions
  se_max_messages :: nat
  se_last_used :: nat

text \<open>
  The table with the sessions it and others refer to: \<open>qt_heap\<close> holds the session
  objects by address, \<open>qt_live\<close> the addresses still referenced, \<open>qt_closing\<close>
  those handed to closing tasks, \<open>qt_permits\<close> the free permits.
\<close>

record 'w queue =
  qt_sessions :: "(string, nat) hashmap"
  qt_heap :: "nat \<Rightarrow> queue_session"
  qt_live :: "nat list"
  qt_next :: nat
  qt_permits :: nat
  qt_cleanup_started :: bool
  qt_closing :: "nat list"
  qt_now :: nat
  qt_world :: 'w

definition touch :: "nat \<Rightarrow> 'w queue \<Rightarrow> 'w queue" where
  "touch a q = q\<lparr>qt_heap := (qt_heap q)(a := (qt_heap q a)\<lparr>se_last_used := qt_now q\<rparr>)\<rparr>"

definition is_expired :: "'w queue \<Rightarrow> nat \<Rightarrow> bool" where
  "is_expired q a \<longleftrightarrow> SESSION_IDLE \<le> qt_now q - se_last_used (qt_heap q a)"

definition close_removed :: "nat \<Rightarrow> 'w queue \<Rightarrow> 'w queue" where
  "close_removed a q = q\<lparr>qt_closing := a # qt_closing q\<rparr>"

text \<open>\<open>DashMap::remove_if\<close> followed by the closing of what it removed.\<close>

definition remove_if :: "string \<Rightarrow> (nat \<Rightarrow> bool) \<Rightarrow> 'w queue \<Rightarrow> 'w queue" where
  "remove_if sid P q =
     (case hm_get (qt_sessions q) sid of
        Some a \<Rightarrow> if P a then close_removed a (q\<lparr>qt_sessions := hm_remove sid (qt_sessions q)\<rparr>) else q
      | None \<Rightarrow> q)"

definition remove_expired :: "'w queue \<Rightarrow> 'w queue" where
  "remove_expired q = fold (\<lambda>sid q. remove_if sid (is_expired q) q) (map fst (qt_sessions q)) q"

definition start_cleanup :: "'w queue \<Rightarrow> 'w queue" where
  "start_cleanup q = (if qt_cleanup_started q then q else q\<lparr>qt_cleanup_started := True\<rparr>)"

definition reserve :: "'w queue \<Rightarrow> (connect_error + unit) \<times> 'w queue" where
  "reserve q =
     (let q = start_cleanup q in
      if qt_permits q = 0 then (Err (mk_error ResourceExhausted ''queue session limit reached''), q)
      else (Ok (), q\<lparr>qt_permits := qt_permits q - 1\<rparr>))"

definition insert_session ::
    "('w \<Rightarrow> string \<times> 'w) \<Rightarrow> queue_session \<Rightarrow> 'w queue \<Rightarrow> (string \<times> nat) \<times> 'w queue" where
  "insert_session uuid s q =
     (case uuid (qt_world q) of
        (sid, w) \<Rightarrow>
          ((sid, qt_next q),
           q\<lparr>qt_sessions := hm_insert sid (qt_next q) (qt_sessions q),
             qt_heap := (qt_heap q)(qt_next q := s),
             qt_live := qt_next q # qt_live q,
             qt_next := Suc (qt_next q),
             qt_world := w\<rparr>))"

definition remove_session :: "string \<Rightarrow> nat \<Rightarrow> 'w queue \<Rightarrow> 'w queue" where
  "remove_session sid expected q = remove_if sid (\<lambda>current. current = expected) q"

definition get_session :: "string \<Rightarrow> principal \<Rightarrow> 'w queue \<Rightarrow> (connect_error + nat) \<times> 'w queue" where
  "get_session sid p q =
     (case hm_get (qt_sessions q) sid of
        Some a \<Rightarrow>
          if \<not> is_expired q a then
            if se_principal (qt_heap q a) \<noteq> p
            then (Err (mk_error PermissionDenied ''queue session belongs to another principal''), q)
            else (Ok a, touch a q)
          else (Err (mk_error FailedPrecondition ''queue session expired; re-acquire''),
                remove_if sid (is_expired q) q)
      | None \<Rightarrow> (Err (mk_error FailedPrecondition ''queue session expired; re-acquire''), q))"

section \<open>Acquiring\<close>

definition effective_identity :: "principal option \<Rightarrow> string option \<Rightarrow> principal \<times> string" where
  "effective_identity p peer =
     (case p of None \<Rightarrow> anonymous_principal | Some p \<Rightarrow> p, case peer of None \<Rightarrow> unknown_host | Some h \<Rightarrow> h)"

definition authorize_queue ::
    "gateway_authz \<Rightarrow> principal \<Rightarrow> string \<Rightarrow> string \<Rightarrow> string list \<Rightarrow> connect_error + unit" where
  "authorize_queue a p host group_id topics =
     (if authorize_resource a p host Group group_id Read = Deny
      then Err (mk_error PermissionDenied (''Read Group:'' @ group_id))
      else case find (\<lambda>t. authorize_resource a p host Topic t Read = Deny) topics of
             Some t \<Rightarrow> Err (mk_error PermissionDenied (''Read Topic:'' @ t))
           | None \<Rightarrow> Ok ())"

definition start_session ::
    "'w share_client \<Rightarrow> nat \<Rightarrow> principal \<Rightarrow> string \<Rightarrow> string list \<Rightarrow> nat \<Rightarrow> 'w \<Rightarrow>
     (connect_error + queue_session) \<times> 'w" where
  "start_session sc now p group_id topics max_messages w =
     (if group_id = [] then (Err (mk_error InvalidArgument ''queue group is required''), w)
      else if topics = [] \<or> (\<exists>t\<in>set topics. t = []) then
        (Err (mk_error InvalidArgument ''queue topic is required''), w)
      else case sc_build sc group_id topics max_messages w of
             (Err e, w) \<Rightarrow> (Err (mk_error UnavailableCode e), w)
           | (Ok consumer, w) \<Rightarrow>
               (Ok \<lparr>se_principal = p, se_group_id = group_id, se_topics = topics, se_consumer = consumer,
                    se_acquired = \<lparr>qa_coordinates = []\<rparr>, se_max_messages = max_messages,
                    se_last_used = now\<rparr>, w))"

definition validate_session_subscription ::
    "string \<Rightarrow> string list \<Rightarrow> string \<Rightarrow> string list \<Rightarrow> connect_error + unit" where
  "validate_session_subscription session_group_id session_topics request_group_id request_topics =
     (if session_group_id = request_group_id \<and> session_topics = request_topics then Ok ()
      else Err (mk_error InvalidArgument ''group_id and topics are fixed when a queue session is created''))"

definition queued_message :: "share_record \<Rightarrow> pb_queued_message" where
  "queued_message r =
     \<lparr>qm_topic = sh_topic r, qm_partition = sh_partition r, qm_offset = sh_offset r, qm_key = sh_key r,
      qm_value = sh_value r, qm_headers = sh_headers r, qm_timestamp_ms = sh_timestamp r,
      qm_delivery_count = sh_delivery_count r\<rparr>"

definition validate_lock_duration :: "nat \<Rightarrow> string + unit" where
  "validate_lock_duration ms =
     (if ms = SUPPORTED_QUEUE_LOCK_DURATION_MS then Ok ()
      else Err (''queue lock_duration_ms must be '' @ show_nat SUPPORTED_QUEUE_LOCK_DURATION_MS
                  @ ''; per-acquire lock durations are not supported''))"

text \<open>A call between two of its phases, with the locals it carries over.\<close>

datatype queue_call =
    Starting principal acquire_request nat
  | Polling principal bool string nat nat
  | Polled principal bool string nat "queue_poll_error + share_record list"
  | Acking principal nat "ack_entry list"
  | Renewing principal nat "ack_entry list"

definition acquire_begin ::
    "gateway_authz \<Rightarrow> principal option \<Rightarrow> string option \<Rightarrow> acquire_request \<Rightarrow> 'w queue \<Rightarrow>
     (connect_error + queue_call) \<times> 'w queue" where
  "acquire_begin a caller peer req q =
     (case validate_lock_duration (aq_lock_duration_ms req) of
        Err m \<Rightarrow> (Err (mk_error InvalidArgument m), q)
      | Ok _ \<Rightarrow>
          let (p, host) = effective_identity caller peer;
              requested_max = min (max (aq_max_messages req) 1) MAX_MESSAGES in
          if aq_session_id req = [] then
            (case authorize_queue a p host (aq_group_id req) (aq_topics req) of
               Err e \<Rightarrow> (Err e, q)
             | Ok _ \<Rightarrow>
                 (case reserve q of
                    (Err e, q) \<Rightarrow> (Err e, q)
                  | (Ok _, q) \<Rightarrow> (Ok (Starting p req requested_max), q)))
          else
            (case get_session (aq_session_id req) p q of
               (Err e, q) \<Rightarrow> (Err e, q)
             | (Ok s, q) \<Rightarrow>
                 (case validate_session_subscription (se_group_id (qt_heap q s)) (se_topics (qt_heap q s))
                         (aq_group_id req) (aq_topics req) of
                    Err e \<Rightarrow> (Err e, q)
                  | Ok _ \<Rightarrow>
                      if aq_max_messages req \<noteq> 0 \<and> requested_max \<noteq> se_max_messages (qt_heap q s)
                      then (Err (mk_error InvalidArgument ''max_messages is fixed when a queue session is created''), q)
                      else (Ok (Polling p False (aq_session_id req) s (min (aq_wait_ms req) MAX_WAIT_MS)), q))))"

text \<open>Build the consumer under the reserved permit; a failure gives the permit back.\<close>

definition acquire_start ::
    "'w share_client \<Rightarrow> principal \<Rightarrow> acquire_request \<Rightarrow> nat \<Rightarrow> 'w queue \<Rightarrow>
     (connect_error + queue_call) \<times> 'w queue" where
  "acquire_start sc p req requested_max q =
     (case start_session sc (qt_now q) p (aq_group_id req) (aq_topics req) requested_max (qt_world q) of
        (Err e, w) \<Rightarrow> (Err e, q\<lparr>qt_world := w, qt_permits := Suc (qt_permits q)\<rparr>)
      | (Ok s, w) \<Rightarrow>
          (case insert_session (sc_uuid sc) s (q\<lparr>qt_world := w\<rparr>) of
             ((sid, s), q) \<Rightarrow> (Ok (Polling p True sid s (min (aq_wait_ms req) MAX_WAIT_MS)), q)))"

definition acquire_poll ::
    "'w share_client \<Rightarrow> nat \<Rightarrow> nat \<Rightarrow> 'w queue \<Rightarrow> (queue_poll_error + share_record list) \<times> 'w queue" where
  "acquire_poll sc s wait_ms q =
     (case poll_tracked_batch (se_max_messages (qt_heap q s)) (sc_poll sc (se_consumer (qt_heap q s)) wait_ms)
             (se_acquired (qt_heap q s)) (qt_world q) of
        (r, acq, w) \<Rightarrow>
          (r, q\<lparr>qt_heap := (qt_heap q)(s := (qt_heap q s)\<lparr>se_acquired := acq\<rparr>), qt_world := w\<rparr>))"

definition acquire_end ::
    "'w share_client \<Rightarrow> bool \<Rightarrow> string \<Rightarrow> nat \<Rightarrow> queue_poll_error + share_record list \<Rightarrow> 'w queue \<Rightarrow>
     (connect_error + string \<times> pb_queued_message list) \<times> 'w queue" where
  "acquire_end sc is_new sid s r q =
     (case r of
        Err Outstanding \<Rightarrow>
          (Err (mk_error ResourceExhausted
             (''acknowledge the outstanding queue batch before acquiring more; ''
                @ ''retry acknowledgements for expired messages or start a new session'')), q)
      | Err (Backend e) \<Rightarrow>
          (Err (mk_error UnavailableCode (sc_show sc e)), if is_new then remove_session sid s q else q)
      | Err LimitExceeded \<Rightarrow>
          (Err (mk_error UnavailableCode
             ''broker exceeded the queue session's outstanding record limit; re-acquire''), remove_session sid s q)
      | Ok records \<Rightarrow> (Ok (sid, map queued_message records), touch s q))"

definition queue_acquire ::
    "'w share_client \<Rightarrow> gateway_authz \<Rightarrow> principal option \<Rightarrow> string option \<Rightarrow> acquire_request \<Rightarrow> 'w queue \<Rightarrow>
     (connect_error + string \<times> pb_queued_message list) \<times> 'w queue" where
  "queue_acquire sc a caller peer req q =
     (let poll = (\<lambda>c q. case c of
                    Polling p is_new sid s wait_ms \<Rightarrow>
                      (case acquire_poll sc s wait_ms q of (r, q) \<Rightarrow> acquire_end sc is_new sid s r q)
                  | _ \<Rightarrow> (Err (mk_error Internal ''unreachable''), q))
      in case acquire_begin a caller peer req q of
           (Err e, q) \<Rightarrow> (Err e, q)
         | (Ok (Starting p req requested_max), q) \<Rightarrow>
             (case acquire_start sc p req requested_max q of
                (Err e, q) \<Rightarrow> (Err e, q)
              | (Ok c, q) \<Rightarrow> poll c q)
         | (Ok c, q) \<Rightarrow> poll c q)"

section \<open>Acknowledging and renewing\<close>

definition ack_error :: "'w share_client \<Rightarrow> share_error \<Rightarrow> error_info" where
  "ack_error sc e =
     \<lparr>ei_code = (case e of ShareServer code \<Rightarrow> code | _ \<Rightarrow> 13),
      ei_message = sc_show sc e,
      ei_retriable =
        (case e of
           ShareClient _ \<Rightarrow> True
         | ShareCoordinatorUnavailable \<Rightarrow> True
         | ShareCommitInvalid \<Rightarrow> True
         | ShareRebalanceFailed _ \<Rightarrow> True
         | ShareServer c \<Rightarrow> c \<in> set [3, 5, 6, 7, 8, 9, 13, 14, 15, 16, 19, 20, 41, 56, 80, 88, 89]
         | _ \<Rightarrow> False)\<rparr>"

definition ack_record :: "ack_entry \<Rightarrow> share_record" where
  "ack_record e =
     \<lparr>sh_topic = ae_topic e, sh_partition = ae_partition e, sh_offset = ae_offset e, sh_timestamp = 0,
      sh_timestamp_type = CreateTime, sh_key = None, sh_value = None, sh_headers = [], sh_delivery_count = 0\<rparr>"

definition not_acquired_error :: error_info where
  "not_acquired_error =
     \<lparr>ei_code = 9, ei_message = ''record is not acquired by this session'', ei_retriable = False\<rparr>"

definition coordinate :: "ack_entry \<Rightarrow> queue_coordinate" where
  "coordinate e = (ae_topic e, ae_partition e, ae_offset e)"

definition is_acquired :: "queue_session \<Rightarrow> ack_entry \<Rightarrow> bool" where
  "is_acquired s e \<longleftrightarrow> coordinate e \<in> set (qa_coordinates (se_acquired s))"

definition finish_acquired :: "ack_entry \<Rightarrow> queue_session \<Rightarrow> queue_session" where
  "finish_acquired e s = s\<lparr>se_acquired := finish (coordinate e) (se_acquired s)\<rparr>"

datatype queue_operation = Disposition | Renew

definition acknowledgement_releases_tracking :: "share_error option \<Rightarrow> queue_operation \<Rightarrow> bool" where
  "acknowledgement_releases_tracking e op \<longleftrightarrow> op = Disposition \<and> (e = None \<or> e = Some (ShareServer 121))"

definition acknowledge_entry ::
    "'w share_client \<Rightarrow> nat \<Rightarrow> ack_entry \<Rightarrow> share_ack \<Rightarrow> 'w \<Rightarrow> share_error option \<times> 'w" where
  "acknowledge_entry sc consumer e ack w =
     (case sc_acknowledge sc consumer (ack_record e) ack w of
        (Some err, w) \<Rightarrow> (Some err, w)
      | (None, w) \<Rightarrow> sc_commit sc consumer w)"

definition ack_type_from_pb :: "int \<Rightarrow> share_ack option" where
  "ack_type_from_pb t = (if t = 1 then Some Accept else if t = 2 then Some Release
                         else if t = 3 then Some Reject else None)"

text \<open>The end of one entry, common to both handlers: release what the verdict retires, and report it.\<close>

definition settle_entry ::
    "'w share_client \<Rightarrow> nat \<Rightarrow> ack_entry \<Rightarrow> queue_operation \<Rightarrow> share_error option \<times> 'w \<Rightarrow> 'w queue \<Rightarrow>
     ack_result \<times> 'w queue" where
  "settle_entry sc s e op verdict q =
     (case verdict of
        (err, w) \<Rightarrow>
          (\<lparr>ar_entry = e, ar_error = map_option (ack_error sc) err\<rparr>,
           if acknowledgement_releases_tracking err op
           then q\<lparr>qt_heap := (qt_heap q)(s := finish_acquired e (qt_heap q s)), qt_world := w\<rparr>
           else q\<lparr>qt_world := w\<rparr>))"

definition acknowledge_one ::
    "'w share_client \<Rightarrow> nat \<Rightarrow> ack_entry \<Rightarrow> 'w queue \<Rightarrow> ack_result \<times> 'w queue" where
  "acknowledge_one sc s e q =
     (let ack = ack_type_from_pb (ae_type e) in
      if ack \<noteq> None \<and> \<not> is_acquired (qt_heap q s) e then
        (\<lparr>ar_entry = e, ar_error = Some not_acquired_error\<rparr>, q)
      else
        settle_entry sc s e Disposition
          (case ack of
             Some ack \<Rightarrow> acknowledge_entry sc (se_consumer (qt_heap q s)) e ack (qt_world q)
           | None \<Rightarrow> (Some (ShareIllegalState ''queue acknowledgement type is required''), qt_world q)) q)"

definition renew_one ::
    "'w share_client \<Rightarrow> nat \<Rightarrow> ack_entry \<Rightarrow> 'w queue \<Rightarrow> ack_result \<times> 'w queue" where
  "renew_one sc s e q =
     (if \<not> is_acquired (qt_heap q s) e then
        (\<lparr>ar_entry = e, ar_error = Some not_acquired_error\<rparr>, q)
      else
        settle_entry sc s e Renew (sc_renew sc (se_consumer (qt_heap q s)) (ack_record e) (qt_world q)) q)"

fun each_entry ::
    "(ack_entry \<Rightarrow> 'w queue \<Rightarrow> ack_result \<times> 'w queue) \<Rightarrow> ack_entry list \<Rightarrow> 'w queue \<Rightarrow> ack_result list \<times> 'w queue" where
  "each_entry f [] q = ([], q)"
| "each_entry f (e # es) q =
     (case f e q of (r, q) \<Rightarrow> (case each_entry f es q of (rs, q) \<Rightarrow> (r # rs, q)))"

definition acknowledge_entries :: "'w share_client \<Rightarrow> nat \<Rightarrow> ack_entry list \<Rightarrow> 'w queue \<Rightarrow> ack_result list \<times> 'w queue" where
  "acknowledge_entries sc s es q =
     (case each_entry (acknowledge_one sc s) es q of (rs, q) \<Rightarrow> (rs, touch s q))"

definition renew_entries :: "'w share_client \<Rightarrow> nat \<Rightarrow> ack_entry list \<Rightarrow> 'w queue \<Rightarrow> ack_result list \<times> 'w queue" where
  "renew_entries sc s es q =
     (case each_entry (renew_one sc s) es q of (rs, q) \<Rightarrow> (rs, touch s q))"

definition queue_acknowledge ::
    "'w share_client \<Rightarrow> principal option \<Rightarrow> string \<Rightarrow> ack_entry list \<Rightarrow> 'w queue \<Rightarrow>
     (connect_error + ack_result list) \<times> 'w queue" where
  "queue_acknowledge sc caller sid es q =
     (case get_session sid (fst (effective_identity caller None)) q of
        (Err e, q) \<Rightarrow> (Err e, q)
      | (Ok s, q) \<Rightarrow> (case acknowledge_entries sc s es q of (rs, q) \<Rightarrow> (Ok rs, q)))"

definition queue_renew ::
    "'w share_client \<Rightarrow> principal option \<Rightarrow> string \<Rightarrow> ack_entry list \<Rightarrow> 'w queue \<Rightarrow>
     (connect_error + ack_result list) \<times> 'w queue" where
  "queue_renew sc caller sid es q =
     (case get_session sid (fst (effective_identity caller None)) q of
        (Err e, q) \<Rightarrow> (Err e, q)
      | (Ok s, q) \<Rightarrow> (case renew_entries sc s es q of (rs, q) \<Rightarrow> (Ok rs, q)))"

section \<open>Interleaved calls\<close>

definition close_session :: "'w share_client \<Rightarrow> nat \<Rightarrow> 'w queue \<Rightarrow> 'w queue" where
  "close_session sc s q =
     q\<lparr>qt_closing := remove1 s (qt_closing q), qt_world := sc_close sc (se_consumer (qt_heap q s)) (qt_world q)\<rparr>"

fun held_by :: "queue_call \<Rightarrow> nat list" where
  "held_by (Starting p req m) = []"
| "held_by (Polling p is_new sid s wait_ms) = [s]"
| "held_by (Polled p is_new sid s r) = [s]"
| "held_by (Acking p s es) = [s]"
| "held_by (Renewing p s es) = [s]"

definition referenced :: "'w queue \<Rightarrow> queue_call multiset \<Rightarrow> nat \<Rightarrow> bool" where
  "referenced q M s \<longleftrightarrow> s \<in> snd ` set (qt_sessions q) \<or> s \<in> set (qt_closing q) \<or> (\<exists>c\<in>#M. s \<in> set (held_by c))"

text \<open>A session whose last reference went gives its permit back.\<close>

definition drop_unreferenced :: "queue_call multiset \<Rightarrow> 'w queue \<Rightarrow> 'w queue" where
  "drop_unreferenced M q =
     q\<lparr>qt_live := filter (referenced q M) (qt_live q),
       qt_permits := qt_permits q + length (filter (\<lambda>s. \<not> referenced q M s) (qt_live q))\<rparr>"

record 'w queue_system =
  sy_queue :: "'w queue"
  sy_calls :: "queue_call multiset"

definition settle :: "'w queue \<Rightarrow> queue_call multiset \<Rightarrow> 'w queue_system" where
  "settle q M = \<lparr>sy_queue = drop_unreferenced M q, sy_calls = M\<rparr>"

fun continues :: "connect_error + queue_call \<Rightarrow> queue_call multiset" where
  "continues (Ok c) = {#c#}"
| "continues (Err e) = {#}"

text \<open>What a step shows of a session: a batch handed out, or the results of a call on it.\<close>

datatype queue_event =
    Silent
  | Acquired principal nat "share_record list"
  | Acknowledged principal nat "ack_result list"
  | Renewed principal nat "ack_result list"

definition poll_event :: "principal \<Rightarrow> nat \<Rightarrow> queue_poll_error + share_record list \<Rightarrow> queue_event" where
  "poll_event p s r = (case r of Ok records \<Rightarrow> Acquired p s records | Err _ \<Rightarrow> Silent)"

inductive queue_step ::
    "'w share_client \<Rightarrow> gateway_authz \<Rightarrow> 'w queue_system \<Rightarrow> queue_event \<Rightarrow> 'w queue_system \<Rightarrow> bool"
  for sc a where
  acquire_begins:
    "acquire_begin a caller peer req q = (r, q') \<Longrightarrow>
     queue_step sc a \<lparr>sy_queue = q, sy_calls = M\<rparr> Silent (settle q' (M + continues r))"
| acquire_starts:
    "acquire_start sc p req m q = (r, q') \<Longrightarrow>
     queue_step sc a \<lparr>sy_queue = q, sy_calls = add_mset (Starting p req m) M\<rparr> Silent (settle q' (M + continues r))"
| acquire_polls:
    "acquire_poll sc s wait_ms q = (r, q') \<Longrightarrow>
     queue_step sc a \<lparr>sy_queue = q, sy_calls = add_mset (Polling p is_new sid s wait_ms) M\<rparr>
       (poll_event p s r)
       (settle q' (add_mset (Polled p is_new sid s r) M))"
| acquire_ends:
    "acquire_end sc is_new sid s r q = (response, q') \<Longrightarrow>
     queue_step sc a \<lparr>sy_queue = q, sy_calls = add_mset (Polled p is_new sid s r) M\<rparr> Silent (settle q' M)"
| acknowledge_begins:
    "get_session sid p q = (r, q') \<Longrightarrow>
     queue_step sc a \<lparr>sy_queue = q, sy_calls = M\<rparr> Silent
       (settle q' (M + continues (map_sum (\<lambda>e. e) (\<lambda>s. Acking p s es) r)))"
| acknowledges:
    "acknowledge_entries sc s es q = (results, q') \<Longrightarrow>
     queue_step sc a \<lparr>sy_queue = q, sy_calls = add_mset (Acking p s es) M\<rparr> (Acknowledged p s results) (settle q' M)"
| renew_begins:
    "get_session sid p q = (r, q') \<Longrightarrow>
     queue_step sc a \<lparr>sy_queue = q, sy_calls = M\<rparr> Silent
       (settle q' (M + continues (map_sum (\<lambda>e. e) (\<lambda>s. Renewing p s es) r)))"
| renews:
    "renew_entries sc s es q = (results, q') \<Longrightarrow>
     queue_step sc a \<lparr>sy_queue = q, sy_calls = add_mset (Renewing p s es) M\<rparr> (Renewed p s results) (settle q' M)"
| sweeps:
    "qt_cleanup_started q \<Longrightarrow>
     queue_step sc a \<lparr>sy_queue = q, sy_calls = M\<rparr> Silent (settle (remove_expired q) M)"
| closes:
    "s \<in> set (qt_closing q) \<Longrightarrow>
     queue_step sc a \<lparr>sy_queue = q, sy_calls = M\<rparr> Silent (settle (close_session sc s q) M)"
| ticks:
    "queue_step sc a \<lparr>sy_queue = q, sy_calls = M\<rparr> Silent \<lparr>sy_queue = q\<lparr>qt_now := qt_now q + ms\<rparr>, sy_calls = M\<rparr>"

definition new_queue :: "'w \<Rightarrow> 'w queue" where
  "new_queue w =
     \<lparr>qt_sessions = [],
      qt_heap = (\<lambda>_. \<lparr>se_principal = anonymous_principal, se_group_id = [], se_topics = [], se_consumer = 0,
                     se_acquired = \<lparr>qa_coordinates = []\<rparr>, se_max_messages = 1, se_last_used = 0\<rparr>),
      qt_live = [], qt_next = 0, qt_permits = MAX_SESSIONS, qt_cleanup_started = False, qt_closing = [],
      qt_now = 0, qt_world = w\<rparr>"

text \<open>The events of a run, the latest first.\<close>

inductive queue_run :: "'w share_client \<Rightarrow> gateway_authz \<Rightarrow> queue_event list \<Rightarrow> 'w queue_system \<Rightarrow> bool"
  for sc a where
  run_init: "queue_run sc a [] \<lparr>sy_queue = new_queue w, sy_calls = {#}\<rparr>"
| run_step: "\<lbrakk>queue_run sc a tr y; queue_step sc a y ev y'\<rbrakk> \<Longrightarrow> queue_run sc a (ev # tr) y'"

section \<open>The view of a client\<close>

text \<open>
  What the holder of a session computes from the responses alone: the messages
  of the last batch, less every entry whose acknowledgement came back without
  an error or with the code of a record that is no longer held.
\<close>

definition retires :: "ack_result \<Rightarrow> bool" where
  "retires r = (case ar_error r of None \<Rightarrow> True | Some e \<Rightarrow> ei_code e = 121)"

fun client_view :: "nat \<Rightarrow> queue_event list \<Rightarrow> queue_coordinate set" where
  "client_view s [] = {}"
| "client_view s (Silent # tr) = client_view s tr"
| "client_view s (Acquired p s' records # tr) =
     (if s' = s then record_coordinate ` set records else client_view s tr)"
| "client_view s (Acknowledged p s' results # tr) =
     (if s' = s then client_view s tr - {coordinate (ar_entry r) | r. r \<in> set results \<and> retires r}
      else client_view s tr)"
| "client_view s (Renewed p s' results # tr) = client_view s tr"

fun one_batch :: "queue_event list \<Rightarrow> bool" where
  "one_batch [] = True"
| "one_batch (Acquired p s records # tr) = (client_view s tr = {} \<and> length records \<le> MAX_MESSAGES \<and> one_batch tr)"
| "one_batch (_ # tr) = one_batch tr"

fun acts_for :: "queue_event \<Rightarrow> (principal \<times> nat) option" where
  "acts_for Silent = None"
| "acts_for (Acquired p s _) = Some (p, s)"
| "acts_for (Acknowledged p s _) = Some (p, s)"
| "acts_for (Renewed p s _) = Some (p, s)"

section \<open>The invariant\<close>

definition session_ok :: "queue_session \<Rightarrow> bool" where
  "session_ok s \<longleftrightarrow> distinct (qa_coordinates (se_acquired s))
     \<and> length (qa_coordinates (se_acquired s)) \<le> se_max_messages s \<and> se_max_messages s \<le> MAX_MESSAGES"

fun call_ok :: "'w queue \<Rightarrow> queue_call \<Rightarrow> bool" where
  "call_ok q (Starting p req m) = (m \<le> MAX_MESSAGES)"
| "call_ok q (Polling p is_new sid s wait_ms) = (s < qt_next q \<and> se_principal (qt_heap q s) = p)"
| "call_ok q (Polled p is_new sid s r) = (s < qt_next q \<and> se_principal (qt_heap q s) = p)"
| "call_ok q (Acking p s es) = (s < qt_next q \<and> se_principal (qt_heap q s) = p)"
| "call_ok q (Renewing p s es) = (s < qt_next q \<and> se_principal (qt_heap q s) = p)"

fun starting :: "queue_call \<Rightarrow> bool" where
  "starting (Starting p req m) = True"
| "starting _ = False"

definition table_ok :: "'w queue \<Rightarrow> bool" where
  "table_ok q \<longleftrightarrow> hm_ok (qt_sessions q) \<and> distinct (map snd (qt_sessions q))
     \<and> distinct (qt_live q) \<and> (\<forall>s\<in>set (qt_live q). s < qt_next q)"

definition views_ok :: "'w queue \<Rightarrow> queue_event list \<Rightarrow> bool" where
  "views_ok q tr \<longleftrightarrow>
     (\<forall>s. s < qt_next q \<longrightarrow> session_ok (qt_heap q s)
            \<and> set (qa_coordinates (se_acquired (qt_heap q s))) = client_view s tr)
     \<and> (\<forall>s. qt_next q \<le> s \<longrightarrow> client_view s tr = {})
     \<and> one_batch tr
     \<and> (\<forall>ev p s. ev \<in> set tr \<longrightarrow> acts_for ev = Some (p, s) \<longrightarrow> s < qt_next q \<and> se_principal (qt_heap q s) = p)"

definition queue_inv :: "'w queue \<Rightarrow> queue_call multiset \<Rightarrow> queue_event list \<Rightarrow> bool" where
  "queue_inv q M tr \<longleftrightarrow> table_ok q
     \<and> (\<forall>s. referenced q M s \<longrightarrow> s \<in> set (qt_live q))
     \<and> qt_permits q + length (qt_live q) + size (filter_mset starting M) = MAX_SESSIONS
     \<and> (\<forall>c. c \<in># M \<longrightarrow> call_ok q c)
     \<and> views_ok q tr"

lemma queue_inv_settle: "queue_inv q M tr \<Longrightarrow> queue_inv (drop_unreferenced M q) M tr"
proof -
  assume inv: "queue_inv q M tr"
  have r: "referenced (drop_unreferenced M q) M s = referenced q M s" for s
    by (simp add: referenced_def drop_unreferenced_def)
  have c: "call_ok (drop_unreferenced M q) c = call_ok q c" for c
    by (cases c) (simp_all add: drop_unreferenced_def)
  have n: "qt_permits (drop_unreferenced M q) + length (qt_live (drop_unreferenced M q)) = qt_permits q + length (qt_live q)"
    using sum_length_filter_compl[of "referenced q M" "qt_live q"] by (simp add: drop_unreferenced_def)
  show ?thesis using inv n
    unfolding queue_inv_def r c
    by (auto simp: table_ok_def views_ok_def drop_unreferenced_def)
qed

text \<open>The steps that only move sessions between their holders or the clock.\<close>

definition quiet :: "'w queue \<Rightarrow> 'w queue \<Rightarrow> bool" where
  "quiet q q' \<longleftrightarrow> qt_next q' = qt_next q \<and> qt_live q' = qt_live q \<and> qt_permits q' = qt_permits q
     \<and> (\<forall>s. se_principal (qt_heap q' s) = se_principal (qt_heap q s)
          \<and> se_acquired (qt_heap q' s) = se_acquired (qt_heap q s)
          \<and> se_max_messages (qt_heap q' s) = se_max_messages (qt_heap q s))
     \<and> (\<forall>s. referenced q' {#} s \<longrightarrow> referenced q {#} s)
     \<and> (hm_ok (qt_sessions q) \<longrightarrow> hm_ok (qt_sessions q'))
     \<and> (distinct (map snd (qt_sessions q)) \<longrightarrow> distinct (map snd (qt_sessions q')))"

lemma quiet_refl [simp]: "quiet q q"
  by (simp add: quiet_def)

lemma quiet_trans: "\<lbrakk>quiet q q1; quiet q1 q2\<rbrakk> \<Longrightarrow> quiet q q2"
  by (simp add: quiet_def)

lemma quiet_inv:
  assumes "quiet q q'" "queue_inv q M tr"
  shows "queue_inv q' M tr"
proof -
  have c: "call_ok q' c = call_ok q c" for c using assms(1) by (cases c) (auto simp: quiet_def)
  have r: "referenced q' M s \<Longrightarrow> referenced q M s" for s
    using assms(1) by (auto simp: quiet_def referenced_def)
  show ?thesis using assms
    unfolding queue_inv_def c
    by (auto simp: quiet_def table_ok_def views_ok_def session_ok_def dest: r)
qed

lemma quiet_touch: "quiet q (touch s q)"
  by (auto simp: quiet_def touch_def referenced_def)

lemma quiet_remove_if: "quiet q (remove_if sid P q)"
proof (cases "hm_get (qt_sessions q) sid")
  case (Some s)
  have "s \<in> snd ` set (qt_sessions q)" using Some by (force dest: map_of_SomeD)
  moreover have "snd ` set (hm_remove sid (qt_sessions q)) \<subseteq> snd ` set (qt_sessions q)"
    by (auto simp: AList.delete_eq)
  moreover have "distinct (map snd (qt_sessions q)) \<Longrightarrow> distinct (map snd (hm_remove sid (qt_sessions q)))"
    by (simp add: AList.delete_eq distinct_map_filter)
  ultimately show ?thesis using Some
    by (auto simp: quiet_def remove_if_def close_removed_def referenced_def)
qed (simp add: remove_if_def)

lemma quiet_remove_expired: "quiet q (remove_expired q)"
proof -
  have "quiet q (fold (\<lambda>sid q. remove_if sid (is_expired q) q) sids q)" for sids
    by (induction sids arbitrary: q) (auto intro: quiet_trans quiet_remove_if)
  thus ?thesis by (simp add: remove_expired_def)
qed

lemma quiet_close_session: "quiet q (close_session sc s q)"
  by (auto simp: quiet_def close_session_def referenced_def dest: notin_set_remove1)

lemma quiet_acquire_end: "acquire_end sc is_new sid s r q = (response, q') \<Longrightarrow> quiet q q'"
  by (auto simp: acquire_end_def remove_session_def intro: quiet_remove_if quiet_touch
      split: sum.splits queue_poll_error.splits if_splits)

lemma get_session_spec:
  assumes "get_session sid p q = (r, q')"
  shows "quiet q q' \<and> (\<forall>s. r = Ok s \<longrightarrow> s \<in> snd ` set (qt_sessions q') \<and> se_principal (qt_heap q' s) = p)"
proof (cases "hm_get (qt_sessions q) sid")
  case (Some s)
  hence "s \<in> snd ` set (qt_sessions q)" by (force dest: map_of_SomeD)
  thus ?thesis using assms Some
    by (auto simp: get_session_def intro: quiet_touch quiet_remove_if split: if_splits) (force simp: touch_def)+
qed (use assms in \<open>auto simp: get_session_def\<close>)

lemma queue_inv_less: "\<lbrakk>queue_inv q M tr; referenced q M s\<rbrakk> \<Longrightarrow> s < qt_next q"
  by (auto simp: queue_inv_def table_ok_def)

lemma queue_inv_drop_call:
  "\<lbrakk>queue_inv q (add_mset c M) tr; \<not> starting c\<rbrakk> \<Longrightarrow> queue_inv q M tr"
  by (auto simp: queue_inv_def referenced_def)

lemma queue_inv_add_call:
  assumes "queue_inv q M tr" "\<not> starting c" "call_ok q c" "\<And>s. s \<in> set (held_by c) \<Longrightarrow> s \<in> set (qt_live q)"
  shows "queue_inv q (add_mset c M) tr"
  using assms by (auto simp: queue_inv_def referenced_def)

lemma queue_inv_add_held:
  assumes inv: "queue_inv q M tr" and s: "s \<in> snd ` set (qt_sessions q)" "se_principal (qt_heap q s) = p"
  shows "queue_inv q (add_mset (Polling p is_new sid s wait_ms) M) tr"
    "queue_inv q (add_mset (Acking p s es) M) tr" "queue_inv q (add_mset (Renewing p s es) M) tr"
proof -
  have r: "referenced q M s" using s by (auto simp: referenced_def)
  hence l: "s \<in> set (qt_live q)" "s < qt_next q" using inv queue_inv_less[OF inv] by (auto simp: queue_inv_def)
  show "queue_inv q (add_mset (Polling p is_new sid s wait_ms) M) tr"
    "queue_inv q (add_mset (Acking p s es) M) tr" "queue_inv q (add_mset (Renewing p s es) M) tr"
    by (rule queue_inv_add_call[OF inv]; use l s in simp)+
qed

lemma queue_inv_silent: "queue_inv q M (Silent # tr) \<longleftrightarrow> queue_inv q M tr"
  by (auto simp: queue_inv_def views_ok_def)

text \<open>The steps that work on one session under its consumer lock.\<close>

definition works_on :: "nat \<Rightarrow> 'w queue \<Rightarrow> 'w queue \<Rightarrow> bool" where
  "works_on s q q' \<longleftrightarrow> qt_next q' = qt_next q \<and> qt_live q' = qt_live q \<and> qt_permits q' = qt_permits q
     \<and> qt_sessions q' = qt_sessions q \<and> qt_closing q' = qt_closing q
     \<and> (\<forall>t. t \<noteq> s \<longrightarrow> qt_heap q' t = qt_heap q t)
     \<and> se_principal (qt_heap q' s) = se_principal (qt_heap q s)
     \<and> se_max_messages (qt_heap q' s) = se_max_messages (qt_heap q s)"

lemma works_on_refl [simp]: "works_on s q q"
  by (simp add: works_on_def)

lemma works_on_trans: "\<lbrakk>works_on s q q1; works_on s q1 q2\<rbrakk> \<Longrightarrow> works_on s q q2"
  by (simp add: works_on_def)

lemma works_on_touch: "works_on s q (touch s q)"
  by (simp add: works_on_def touch_def)

lemma client_view_other: "\<lbrakk>acts_for ev = Some (p, s); t \<noteq> s\<rbrakk> \<Longrightarrow> client_view t (ev # tr) = client_view t tr"
  by (cases ev) auto

lemma queue_inv_event:
  assumes inv: "queue_inv q M tr" and s: "s < qt_next q" "se_principal (qt_heap q s) = p"
    and ev: "acts_for ev = Some (p, s)" "one_batch (ev # tr)" and w: "works_on s q q'"
    and ok: "session_ok (qt_heap q' s)" "set (qa_coordinates (se_acquired (qt_heap q' s))) = client_view s (ev # tr)"
  shows "queue_inv q' M (ev # tr)"
proof -
  have pr: "se_principal (qt_heap q' t) = se_principal (qt_heap q t)" for t using w by (cases "t = s") (auto simp: works_on_def)
  have c: "call_ok q' c = call_ok q c" for c using w pr by (cases c) (auto simp: works_on_def)
  have r: "referenced q' M t = referenced q M t" for t using w by (auto simp: works_on_def referenced_def)
  have "table_ok q'" using inv w by (auto simp: queue_inv_def table_ok_def works_on_def)
  moreover have "views_ok q' (ev # tr)"
    unfolding views_ok_def
  proof (intro conjI allI impI)
    fix t assume t: "t < qt_next q'"
    show "session_ok (qt_heap q' t)" and "set (qa_coordinates (se_acquired (qt_heap q' t))) = client_view t (ev # tr)"
      using inv w ok t client_view_other[OF ev(1), of t tr]
      by (cases "t = s"; auto simp: queue_inv_def views_ok_def works_on_def)+
  next
    fix t assume "qt_next q' \<le> t"
    hence "t \<noteq> s" "qt_next q \<le> t" using s w by (auto simp: works_on_def)
    thus "client_view t (ev # tr) = {}"
      using inv client_view_other[OF ev(1), of t tr] by (auto simp: queue_inv_def views_ok_def)
  next
    fix e p' t assume "e \<in> set (ev # tr)" "acts_for e = Some (p', t)"
    thus "t < qt_next q'" "se_principal (qt_heap q' t) = p'"
      using inv w s ev(1) unfolding pr by (auto simp: queue_inv_def views_ok_def works_on_def)
  qed (rule ev(2))
  ultimately show ?thesis using inv w by (auto simp: queue_inv_def c r works_on_def)
qed

section \<open>Each phase keeps the invariant\<close>

lemma record_coordinates_spec:
  "\<lbrakk>distinct (qa_coordinates acq); length (qa_coordinates acq) + length cs \<le> maximum\<rbrakk> \<Longrightarrow>
     \<exists>acq'. record_coordinates cs maximum acq = (Ok (), acq') \<and> distinct (qa_coordinates acq')
       \<and> set (qa_coordinates acq') = set (qa_coordinates acq) \<union> set cs \<and> length (qa_coordinates acq') \<le> maximum"
proof (induction cs arbitrary: acq)
  case (Cons c cs)
  let ?acq = "acq\<lparr>qa_coordinates := List.insert c (qa_coordinates acq)\<rparr>"
  have l: "length (List.insert c (qa_coordinates acq)) \<le> Suc (length (qa_coordinates acq))"
    by (simp add: List.insert_def)
  hence "distinct (qa_coordinates ?acq)" "length (qa_coordinates ?acq) + length cs \<le> maximum"
    using Cons.prems by simp_all
  from Cons.IH[OF this] Cons.prems show ?case by auto
qed simp

lemma poll_tracked_batch_spec:
  assumes "poll_tracked_batch maximum poll acq w = (r, acq', w')"
  shows "case r of
      Ok records \<Rightarrow> qa_coordinates acq = [] \<and> length records \<le> maximum \<and> distinct (qa_coordinates acq')
        \<and> set (qa_coordinates acq') = record_coordinate ` set records \<and> length (qa_coordinates acq') \<le> maximum
    | Err e \<Rightarrow> acq' = acq"
proof (cases "can_poll acq")
  case True
  hence nil: "qa_coordinates acq = []" by (simp add: can_poll_def)
  obtain res w1 where p: "poll w = (res, w1)" by fastforce
  show ?thesis
  proof (cases res)
    case (Inr records)
    show ?thesis
    proof (cases "maximum < length records")
      case False
      hence "distinct (qa_coordinates acq)"
        "length (qa_coordinates acq) + length (map record_coordinate records) \<le> maximum" using nil by simp_all
      from record_coordinates_spec[OF this] show ?thesis
        using assms True False p Inr nil by (auto simp: poll_tracked_batch_def record_batch_def)
    qed (use assms True p Inr in \<open>auto simp: poll_tracked_batch_def\<close>)
  qed (use assms True p in \<open>auto simp: poll_tracked_batch_def\<close>)
qed (use assms in \<open>auto simp: poll_tracked_batch_def\<close>)

lemma acquire_poll_inv:
  assumes inv: "queue_inv q M tr" and s: "s < qt_next q" "se_principal (qt_heap q s) = p"
    and poll: "acquire_poll sc s wait_ms q = (r, q')"
  shows "queue_inv q' M (poll_event p s r # tr)"
proof -
  obtain acq w where pt: "poll_tracked_batch (se_max_messages (qt_heap q s))
      (sc_poll sc (se_consumer (qt_heap q s)) wait_ms) (se_acquired (qt_heap q s)) (qt_world q) = (r, acq, w)"
    and q': "q' = q\<lparr>qt_heap := (qt_heap q)(s := (qt_heap q s)\<lparr>se_acquired := acq\<rparr>), qt_world := w\<rparr>"
    using poll by (auto simp: acquire_poll_def split: prod.splits)
  note spec = poll_tracked_batch_spec[OF pt]
  have ok: "session_ok (qt_heap q s)" "set (qa_coordinates (se_acquired (qt_heap q s))) = client_view s tr" "one_batch tr"
    using inv s by (auto simp: queue_inv_def views_ok_def)
  show ?thesis
  proof (cases r)
    case (Inl e)
    hence "quiet q q'" using spec by (auto simp: q' quiet_def referenced_def)
    thus ?thesis using Inl quiet_inv[OF _ inv] by (simp add: poll_event_def queue_inv_silent)
  next
    case (Inr records)
    hence r: "qa_coordinates (se_acquired (qt_heap q s)) = []" "length records \<le> se_max_messages (qt_heap q s)"
      "distinct (qa_coordinates acq)" "set (qa_coordinates acq) = record_coordinate ` set records"
      "length (qa_coordinates acq) \<le> se_max_messages (qt_heap q s)"
      using spec by simp_all
    have "queue_inv q' M (Acquired p s records # tr)"
    proof (rule queue_inv_event[OF inv s])
      show "one_batch (Acquired p s records # tr)" using ok r by (auto simp: session_ok_def)
      show "works_on s q q'" by (simp add: works_on_def q')
    qed (use ok r in \<open>auto simp: q' session_ok_def\<close>)
    thus ?thesis by (simp add: poll_event_def Inr)
  qed
qed

lemma settle_entry_spec:
  assumes "settle_entry sc s e op v q = (r, q')" "session_ok (qt_heap q s)"
  shows "works_on s q q' \<and> session_ok (qt_heap q' s) \<and> ar_entry r = e
     \<and> set (qa_coordinates (se_acquired (qt_heap q' s)))
       = set (qa_coordinates (se_acquired (qt_heap q s))) - (if op = Disposition \<and> retires r then {coordinate e} else {})"
proof -
  obtain err w where v: "v = (err, w)" by fastforce
  have "acknowledgement_releases_tracking err op \<longleftrightarrow>
      op = Disposition \<and> retires \<lparr>ar_entry = e, ar_error = map_option (ack_error sc) err\<rparr>"
    by (auto simp: acknowledgement_releases_tracking_def retires_def ack_error_def split: option.splits share_error.splits)
  thus ?thesis using assms
    by (auto simp: settle_entry_def v works_on_def finish_acquired_def finish_def session_ok_def distinct_removeAll
        intro: order_trans[OF length_removeAll_less_eq] split: if_splits)
qed

lemma acknowledge_one_spec:
  assumes "acknowledge_one sc s e q = (r, q')" "session_ok (qt_heap q s)"
  shows "works_on s q q' \<and> session_ok (qt_heap q' s) \<and> ar_entry r = e
     \<and> set (qa_coordinates (se_acquired (qt_heap q' s)))
       = set (qa_coordinates (se_acquired (qt_heap q s))) - (if retires r then {coordinate e} else {})"
proof (cases "ack_type_from_pb (ae_type e) \<noteq> None \<and> \<not> is_acquired (qt_heap q s) e")
  case True
  thus ?thesis using assms by (auto simp: acknowledge_one_def retires_def not_acquired_error_def)
next
  case False
  thus ?thesis
    using settle_entry_spec[OF _ assms(2)] assms(1) unfolding acknowledge_one_def Let_def if_not_P[OF False] by fastforce
qed

lemma renew_one_spec:
  assumes "renew_one sc s e q = (r, q')" "session_ok (qt_heap q s)"
  shows "works_on s q q' \<and> session_ok (qt_heap q' s) \<and> ar_entry r = e
     \<and> set (qa_coordinates (se_acquired (qt_heap q' s))) = set (qa_coordinates (se_acquired (qt_heap q s)))"
  using assms settle_entry_spec[OF _ assms(2), of sc e Renew]
  by (auto simp: renew_one_def split: if_splits)

text \<open>
  The contract both entry handlers meet: an entry works on its session alone and
  removes exactly the coordinates the caller can tell are retired.
\<close>

locale entry_handler =
  fixes one :: "nat \<Rightarrow> ack_entry \<Rightarrow> 'w queue \<Rightarrow> ack_result \<times> 'w queue"
    and releases :: "ack_result \<Rightarrow> bool"
  assumes one_spec: "\<lbrakk>one s e q = (r, q'); session_ok (qt_heap q s)\<rbrakk> \<Longrightarrow>
      works_on s q q' \<and> session_ok (qt_heap q' s) \<and> ar_entry r = e
      \<and> set (qa_coordinates (se_acquired (qt_heap q' s)))
        = set (qa_coordinates (se_acquired (qt_heap q s))) - (if releases r then {coordinate e} else {})"
begin

lemma each_entry_spec:
  "\<lbrakk>each_entry (one s) es q = (rs, q'); session_ok (qt_heap q s)\<rbrakk> \<Longrightarrow>
     works_on s q q' \<and> session_ok (qt_heap q' s) \<and> map ar_entry rs = es
     \<and> set (qa_coordinates (se_acquired (qt_heap q' s)))
       = set (qa_coordinates (se_acquired (qt_heap q s))) - {coordinate (ar_entry r) | r. r \<in> set rs \<and> releases r}"
proof (induction es arbitrary: q rs)
  case (Cons e es)
  obtain r q1 where 1: "one s e q = (r, q1)" by fastforce
  obtain rs1 where 2: "each_entry (one s) es q1 = (rs1, q')" and rs: "rs = r # rs1"
    using Cons.prems 1 by (auto split: prod.splits)
  note s1 = one_spec[OF 1 Cons.prems(2)]
  note s2 = Cons.IH[OF 2 conjunct1[OF conjunct2[OF s1]]]
  show ?case using s1 s2 works_on_trans[of s q q1 q'] by (auto simp: rs split: if_splits)
qed simp

lemma entries_spec:
  assumes "each_entry (one s) es q = (rs, q')" "session_ok (qt_heap q s)"
  shows "works_on s q (touch s q') \<and> session_ok (qt_heap (touch s q') s) \<and> map ar_entry rs = es
     \<and> set (qa_coordinates (se_acquired (qt_heap (touch s q') s)))
       = set (qa_coordinates (se_acquired (qt_heap q s))) - {coordinate (ar_entry r) | r. r \<in> set rs \<and> releases r}"
  using each_entry_spec[OF assms] works_on_trans[OF _ works_on_touch, of s q q']
  by (auto simp: touch_def session_ok_def)

end

interpretation acknowledging: entry_handler "acknowledge_one sc" retires
  by unfold_locales (rule acknowledge_one_spec)

interpretation renewing: entry_handler "renew_one sc" "\<lambda>_. False"
  by unfold_locales (use renew_one_spec in fastforce)

lemma acknowledge_entries_inv:
  assumes inv: "queue_inv q M tr" and s: "s < qt_next q" "se_principal (qt_heap q s) = p"
    and ack: "acknowledge_entries sc s es q = (rs, q')"
  shows "queue_inv q' M (Acknowledged p s rs # tr)"
proof -
  obtain q1 where 1: "each_entry (acknowledge_one sc s) es q = (rs, q1)" and q': "q' = touch s q1"
    using ack by (auto simp: acknowledge_entries_def split: prod.splits)
  have ok: "session_ok (qt_heap q s)" "set (qa_coordinates (se_acquired (qt_heap q s))) = client_view s tr" "one_batch tr"
    using inv s by (auto simp: queue_inv_def views_ok_def)
  note sp = acknowledging.entries_spec[OF 1 ok(1), folded q']
  show ?thesis by (rule queue_inv_event[OF inv s]) (use sp ok in auto)
qed

lemma renew_entries_inv:
  assumes inv: "queue_inv q M tr" and s: "s < qt_next q" "se_principal (qt_heap q s) = p"
    and ren: "renew_entries sc s es q = (rs, q')"
  shows "queue_inv q' M (Renewed p s rs # tr)"
proof -
  obtain q1 where 1: "each_entry (renew_one sc s) es q = (rs, q1)" and q': "q' = touch s q1"
    using ren by (auto simp: renew_entries_def split: prod.splits)
  have ok: "session_ok (qt_heap q s)" "set (qa_coordinates (se_acquired (qt_heap q s))) = client_view s tr" "one_batch tr"
    using inv s by (auto simp: queue_inv_def views_ok_def)
  note sp = renewing.entries_spec[OF 1 ok(1), folded q']
  show ?thesis by (rule queue_inv_event[OF inv s]) (use sp ok in auto)
qed

lemma queue_inv_reserve:
  assumes inv: "queue_inv q M tr" and r: "reserve q = (r, q')" and m: "m \<le> MAX_MESSAGES"
  shows "queue_inv q' (case r of Ok _ \<Rightarrow> add_mset (Starting p req m) M | Err _ \<Rightarrow> M) tr"
proof -
  have q: "quiet q (start_cleanup q)" by (auto simp: quiet_def start_cleanup_def referenced_def)
  note inv1 = quiet_inv[OF q inv]
  show ?thesis
  proof (cases "qt_permits (start_cleanup q) = 0")
    case True
    thus ?thesis using r inv1 by (auto simp: reserve_def)
  next
    case False
    have c: "call_ok (start_cleanup q\<lparr>qt_permits := n\<rparr>) c = call_ok (start_cleanup q) c" for c n
      by (cases c) simp_all
    have f: "referenced (start_cleanup q\<lparr>qt_permits := n\<rparr>) (add_mset (Starting p req m) M) s
        = referenced (start_cleanup q) M s" for n s
      by (simp add: referenced_def)
    show ?thesis using False r inv1 m
      by (auto simp: reserve_def Let_def queue_inv_def c f table_ok_def views_ok_def)
  qed
qed

lemma acquire_begin_inv:
  assumes inv: "queue_inv q M tr" and b: "acquire_begin a caller peer req q = (r, q')"
  shows "queue_inv q' (M + continues r) tr"
proof -
  obtain p host where id: "effective_identity caller peer = (p, host)" by fastforce
  let ?m = "min (max (aq_max_messages req) 1) MAX_MESSAGES"
  show ?thesis
  proof (cases "aq_session_id req = []")
    case True
    obtain r1 q1 where res: "reserve q = (r1, q1)" by fastforce
    have "queue_inv q1 (case r1 of Ok _ \<Rightarrow> add_mset (Starting p req ?m) M | Err _ \<Rightarrow> M) tr"
      by (rule queue_inv_reserve[OF inv res]) simp
    thus ?thesis using b True id res inv
      by (auto simp: acquire_begin_def Let_def split: sum.splits)
  next
    case False
    obtain r1 q1 where g: "get_session (aq_session_id req) p q = (r1, q1)" by fastforce
    note gs = get_session_spec[OF g]
    have inv1: "queue_inv q1 M tr" using quiet_inv[OF _ inv] gs by blast
    have held: "queue_inv q1 (add_mset (Polling p False (aq_session_id req) s w) M) tr" if "r1 = Ok s" for s w
      using queue_inv_add_held(1)[OF inv1] gs that by blast
    show ?thesis using b False id g inv inv1 held
      by (auto simp: acquire_begin_def Let_def split: sum.splits if_splits)
  qed
qed

lemma values_update: "snd ` set (hm_insert k v m) \<subseteq> insert v (snd ` set m)"
  by (induction m) auto

lemma distinct_values_update:
  "\<lbrakk>distinct (map snd m); v \<notin> snd ` set m\<rbrakk> \<Longrightarrow> distinct (map snd (hm_insert k v m))"
proof (induction m)
  case (Cons x m)
  thus ?case using values_update[of k v m] by (cases x) (auto simp: image_iff)
qed simp

lemma start_session_ok:
  "\<lbrakk>start_session sc now p g ts m w = (Ok s, w'); m \<le> MAX_MESSAGES\<rbrakk> \<Longrightarrow>
     session_ok s \<and> qa_coordinates (se_acquired s) = [] \<and> se_principal s = p"
  by (auto simp: start_session_def session_ok_def split: if_splits prod.splits sum.splits)

lemma queue_inv_insert:
  assumes inv: "queue_inv q (add_mset (Starting p req m) M) tr"
    and s: "session_ok s" "qa_coordinates (se_acquired s) = []"
    and i: "insert_session uuid s (q\<lparr>qt_world := w\<rparr>) = ((sid, t), q')"
  shows "queue_inv q' M tr \<and> t \<in> snd ` set (qt_sessions q') \<and> qt_heap q' t = s"
proof -
  obtain sid1 w' where u: "uuid w = (sid1, w')" by fastforce
  have q': "q' = q\<lparr>qt_sessions := hm_insert sid (qt_next q) (qt_sessions q),
        qt_heap := (qt_heap q)(qt_next q := s), qt_live := qt_next q # qt_live q, qt_next := Suc (qt_next q), qt_world := w'\<rparr>"
    and t: "t = qt_next q"
    using i by (simp_all add: insert_session_def u) blast
  have lt: "u < qt_next q" if "referenced q (add_mset (Starting p req m) M) u" for u
    using queue_inv_less[OF inv that] .
  have fresh: "qt_next q \<notin> snd ` set (qt_sessions q)" "qt_next q \<notin> set (qt_live q)"
    using lt[of "qt_next q"] inv by (auto simp: referenced_def queue_inv_def table_ok_def)
  have tab: "table_ok q'"
    using inv fresh distinct_values_update[of "qt_sessions q" "qt_next q" sid]
    by (auto simp: queue_inv_def table_ok_def q' less_Suc_eq)
  have ref: "referenced q' M u \<longrightarrow> u \<in> set (qt_live q')" for u
    using inv values_update[of sid "qt_next q" "qt_sessions q"] by (auto simp: queue_inv_def referenced_def q')
  have calls: "call_ok q' c" if "c \<in># M" for c
  proof -
    have "call_ok q c" using inv that by (auto simp: queue_inv_def)
    thus ?thesis by (cases c) (auto simp: q')
  qed
  have views: "views_ok q' tr"
  proof -
    have v: "views_ok q tr" using inv by (simp add: queue_inv_def)
    hence "client_view (qt_next q) tr = {}" by (simp add: views_ok_def)
    with v s show ?thesis unfolding views_ok_def q' by (auto simp: less_Suc_eq)
  qed
  have "sid \<in> fst ` set (hm_insert sid (qt_next q) (qt_sessions q))" by (simp add: dom_update)
  hence "hm_get (hm_insert sid (qt_next q) (qt_sessions q)) sid = Some (qt_next q)" by simp
  hence "(sid, qt_next q) \<in> set (hm_insert sid (qt_next q) (qt_sessions q))" by (rule map_of_SomeD)
  hence "t \<in> snd ` set (qt_sessions q')" unfolding q' t by force
  thus ?thesis using inv tab ref calls views by (auto simp: queue_inv_def q' t)
qed

lemma acquire_start_inv:
  assumes inv: "queue_inv q (add_mset (Starting p req m) M) tr" and st: "acquire_start sc p req m q = (r, q')"
  shows "queue_inv q' (M + continues r) tr"
proof -
  have m: "m \<le> MAX_MESSAGES" using inv by (auto simp: queue_inv_def)
  obtain r1 w where s: "start_session sc (qt_now q) p (aq_group_id req) (aq_topics req) m (qt_world q) = (r1, w)"
    by fastforce
  show ?thesis
  proof (cases r1)
    case (Inl e)
    have c: "call_ok (q\<lparr>qt_world := w, qt_permits := n\<rparr>) c = call_ok q c" for c n by (cases c) simp_all
    have f: "referenced (q\<lparr>qt_world := w, qt_permits := n\<rparr>) M u = referenced q (add_mset (Starting p req m) M) u" for u n
      by (simp add: referenced_def)
    show ?thesis using st s Inl inv
      by (auto simp: acquire_start_def queue_inv_def c f table_ok_def views_ok_def)
  next
    case (Inr sess)
    note ok = start_session_ok[OF s[unfolded Inr] m]
    obtain sid t q1 where i: "insert_session (sc_uuid sc) sess (q\<lparr>qt_world := w\<rparr>) = ((sid, t), q1)"
      by (metis surj_pair)
    have "queue_inv q1 M tr \<and> t \<in> snd ` set (qt_sessions q1) \<and> qt_heap q1 t = sess"
      by (rule queue_inv_insert[OF inv _ _ i]) (use ok in auto)
    hence "queue_inv q1 (add_mset (Polling p True sid t wait_ms) M) tr" for wait_ms
      using queue_inv_add_held(1)[of q1 M tr t p] ok by auto
    thus ?thesis using st s Inr i by (auto simp: acquire_start_def)
  qed
qed

lemma queue_step_inv:
  assumes "queue_step sc a y ev y'" "queue_inv (sy_queue y) (sy_calls y) tr"
  shows "queue_inv (sy_queue y') (sy_calls y') (ev # tr)"
  using assms
proof (induction rule: queue_step.induct)
  case (acquire_begins caller peer req q r q' M)
  thus ?case by (simp add: settle_def queue_inv_silent queue_inv_settle acquire_begin_inv)
next
  case (acquire_starts p req m q r q' M)
  thus ?case by (simp add: settle_def queue_inv_silent queue_inv_settle acquire_start_inv)
next
  case (acquire_polls s wait_ms q r q' p is_new sid M)
  let ?M = "add_mset (Polling p is_new sid s wait_ms) M"
  have inv: "queue_inv q ?M tr" using acquire_polls by simp
  have s: "s < qt_next q" "se_principal (qt_heap q s) = p" "s \<in> set (qt_live q)"
    using inv by (auto simp: queue_inv_def referenced_def)
  have wo: "works_on s q q'" using acquire_polls(1) by (auto simp: acquire_poll_def works_on_def split: prod.splits)
  have "queue_inv q' M (poll_event p s r # tr)"
    by (rule acquire_poll_inv[OF queue_inv_drop_call[OF inv] s(1,2) acquire_polls(1)]) simp
  hence "queue_inv q' (add_mset (Polled p is_new sid s r) M) (poll_event p s r # tr)"
    by (rule queue_inv_add_call) (use s wo in \<open>auto simp: works_on_def\<close>)
  thus ?case by (simp add: settle_def queue_inv_settle)
next
  case (acquire_ends is_new sid s r q response q' p M)
  hence "queue_inv q M tr" using queue_inv_drop_call by force
  thus ?case using quiet_inv[OF quiet_acquire_end[OF acquire_ends(1)]]
    by (simp add: settle_def queue_inv_silent queue_inv_settle)
next
  case (acknowledge_begins sid p q r q' M es)
  note g = get_session_spec[OF acknowledge_begins(1)]
  have "queue_inv q' M tr" using g acknowledge_begins(2) quiet_inv by auto
  hence "queue_inv q' (M + continues (map_sum (\<lambda>e. e) (\<lambda>s. Acking p s es) r)) tr"
    using g by (cases r) (auto intro: queue_inv_add_held)
  thus ?case by (simp add: settle_def queue_inv_silent queue_inv_settle)
next
  case (acknowledges s es q results q' p M)
  hence inv: "queue_inv q (add_mset (Acking p s es) M) tr" by simp
  have s: "s < qt_next q" "se_principal (qt_heap q s) = p" using inv by (auto simp: queue_inv_def)
  have "queue_inv q' M (Acknowledged p s results # tr)"
    by (rule acknowledge_entries_inv[OF queue_inv_drop_call[OF inv] s acknowledges(1)]) simp
  thus ?case by (simp add: settle_def queue_inv_settle)
next
  case (renew_begins sid p q r q' M es)
  note g = get_session_spec[OF renew_begins(1)]
  have "queue_inv q' M tr" using g renew_begins(2) quiet_inv by auto
  hence "queue_inv q' (M + continues (map_sum (\<lambda>e. e) (\<lambda>s. Renewing p s es) r)) tr"
    using g by (cases r) (auto intro: queue_inv_add_held)
  thus ?case by (simp add: settle_def queue_inv_silent queue_inv_settle)
next
  case (renews s es q results q' p M)
  hence inv: "queue_inv q (add_mset (Renewing p s es) M) tr" by simp
  have s: "s < qt_next q" "se_principal (qt_heap q s) = p" using inv by (auto simp: queue_inv_def)
  have "queue_inv q' M (Renewed p s results # tr)"
    by (rule renew_entries_inv[OF queue_inv_drop_call[OF inv] s renews(1)]) simp
  thus ?case by (simp add: settle_def queue_inv_settle)
next
  case (sweeps q M)
  have "queue_inv (remove_expired q) M tr" using sweeps by (intro quiet_inv[OF quiet_remove_expired]) simp
  thus ?case by (simp add: settle_def queue_inv_silent queue_inv_settle)
next
  case (closes s q M)
  have "queue_inv (close_session sc s q) M tr" using closes by (intro quiet_inv[OF quiet_close_session]) simp
  thus ?case by (simp add: settle_def queue_inv_silent queue_inv_settle)
next
  case (ticks q M ms)
  have "quiet q (q\<lparr>qt_now := qt_now q + ms\<rparr>)" by (simp add: quiet_def referenced_def)
  from quiet_inv[OF this] ticks show ?case by (simp add: queue_inv_silent)
qed

lemma queue_run_inv: "queue_run sc a tr y \<Longrightarrow> queue_inv (sy_queue y) (sy_calls y) tr"
proof (induction rule: queue_run.induct)
  case (run_init w)
  show ?case
    by (simp add: queue_inv_def new_queue_def table_ok_def views_ok_def referenced_def)
qed (auto intro: queue_step_inv)

text \<open>A broker that accepts every acknowledgement.\<close>

definition accepting :: "'w share_client \<Rightarrow> bool" where
  "accepting sc \<longleftrightarrow> (\<forall>h r k w. fst (sc_acknowledge sc h r k w) = None) \<and> (\<forall>h w. fst (sc_commit sc h w) = None)"

lemma acknowledge_one_accepted:
  assumes "accepting sc" "acknowledge_one sc s e q = (r, q')" "ae_type e = 1" "is_acquired (qt_heap q s) e"
  shows "ar_error r = None \<and> set (qa_coordinates (se_acquired (qt_heap q' s)))
    = set (qa_coordinates (se_acquired (qt_heap q s))) - {coordinate e}"
proof -
  obtain w1 where a: "sc_acknowledge sc (se_consumer (qt_heap q s)) (ack_record e) Accept (qt_world q) = (None, w1)"
    using assms(1) by (metis accepting_def prod.collapse)
  obtain w2 where c: "sc_commit sc (se_consumer (qt_heap q s)) w1 = (None, w2)"
    using assms(1) by (metis accepting_def prod.collapse)
  show ?thesis using assms(2-4)
    by (auto simp: acknowledge_one_def ack_type_from_pb_def acknowledge_entry_def a c settle_entry_def
        acknowledgement_releases_tracking_def finish_acquired_def finish_def)
qed

lemma each_entry_accepted:
  "\<lbrakk>accepting sc; each_entry (acknowledge_one sc s) es q = (rs, q'); distinct (map coordinate es); \<forall>e\<in>set es. ae_type e = 1;
    coordinate ` set es \<subseteq> set (qa_coordinates (se_acquired (qt_heap q s)))\<rbrakk> \<Longrightarrow>
     set (qa_coordinates (se_acquired (qt_heap q' s)))
       = set (qa_coordinates (se_acquired (qt_heap q s))) - coordinate ` set es \<and> (\<forall>r\<in>set rs. ar_error r = None)"
proof (induction es arbitrary: q rs)
  case (Cons e es)
  obtain r q1 where 1: "acknowledge_one sc s e q = (r, q1)" by fastforce
  obtain rs1 where 2: "each_entry (acknowledge_one sc s) es q1 = (rs1, q')" "rs = r # rs1"
    using Cons.prems(2) 1 by (auto split: prod.splits)
  have o: "ar_error r = None \<and> set (qa_coordinates (se_acquired (qt_heap q1 s)))
      = set (qa_coordinates (se_acquired (qt_heap q s))) - {coordinate e}"
    by (rule acknowledge_one_accepted[OF Cons.prems(1) 1]) (use Cons.prems in \<open>auto simp: is_acquired_def\<close>)
  have "coordinate ` set es \<subseteq> set (qa_coordinates (se_acquired (qt_heap q1 s)))" using o Cons.prems by auto
  from Cons.IH[OF Cons.prems(1) 2(1) _ _ this] o Cons.prems 2 show ?case by auto
qed simp

section \<open>Properties\<close>

text \<open>
  C5: Whatever the interleaving of acquire, acknowledge and renew calls with the
  sweeper, closing tasks and the clock, what a session tracks is what its client
  computes from the responses alone, and it never exceeds the session's limit of
  at most 500 messages. A batch was handed out only when every message of the
  previous one had been retired by a verdict of the broker. Every event on a
  session was caused by the principal that opened it. At most 1,024 sessions
  hold a permit.
\<close>

theorem queue_tracks_client_view:
  assumes "queue_run sc a tr y"
  shows "(\<forall>s. s < qt_next (sy_queue y) \<longrightarrow>
       set (qa_coordinates (se_acquired (qt_heap (sy_queue y) s))) = client_view s tr
       \<and> length (qa_coordinates (se_acquired (qt_heap (sy_queue y) s))) \<le> se_max_messages (qt_heap (sy_queue y) s)
       \<and> se_max_messages (qt_heap (sy_queue y) s) \<le> 500)
     \<and> one_batch tr
     \<and> (\<forall>ev p s. ev \<in> set tr \<longrightarrow> acts_for ev = Some (p, s) \<longrightarrow> se_principal (qt_heap (sy_queue y) s) = p)
     \<and> length (qt_sessions (sy_queue y)) \<le> length (qt_live (sy_queue y))
     \<and> length (qt_live (sy_queue y)) + qt_permits (sy_queue y) \<le> 1024"
proof -
  note inv = queue_run_inv[OF assms]
  let ?q = "sy_queue y"
  have "set (map snd (qt_sessions ?q)) \<subseteq> set (qt_live ?q)" "distinct (map snd (qt_sessions ?q))" "distinct (qt_live ?q)"
    using inv by (auto simp: queue_inv_def table_ok_def referenced_def)
  hence "length (map snd (qt_sessions ?q)) \<le> length (qt_live ?q)"
    by (metis card_mono distinct_card finite_set)
  thus ?thesis using inv
    by (auto simp: queue_inv_def views_ok_def session_ok_def MAX_MESSAGES_def MAX_SESSIONS_def)
qed

definition sample_share :: "unit share_client" where
  "sample_share =
     \<lparr>sc_build = (\<lambda>_ _ _ w. (Ok 7, w)),
      sc_poll = (\<lambda>_ _ w. (Ok [ack_record \<lparr>ae_topic = ''jobs'', ae_partition = 0, ae_offset = 5, ae_type = 0\<rparr>], w)),
      sc_acknowledge = (\<lambda>_ _ _ w. (None, w)), sc_commit = (\<lambda>_ w. (None, w)), sc_renew = (\<lambda>_ _ w. (None, w)),
      sc_close = (\<lambda>_ w. w), sc_uuid = (\<lambda>w. (''s1'', w)), sc_show = (\<lambda>_. ''error'')\<rparr>"

definition sample_acquire :: acquire_request where
  "sample_acquire = \<lparr>aq_group_id = ''g'', aq_topics = [''jobs''], aq_max_messages = 10, aq_wait_ms = 0,
     aq_session_id = [], aq_lock_duration_ms = 30000\<rparr>"

lemma sample_queue_run:
  "\<exists>tr y p records. queue_run sample_share \<lparr>ga_authorizer = \<lambda>_ _. Allow, ga_cache = []\<rparr> tr y
     \<and> qt_next (sy_queue y) = 1 \<and> client_view 0 tr = {(''jobs'', 0, 5)} \<and> hd tr = Acquired p 0 records"
proof -
  let ?a = "\<lparr>ga_authorizer = \<lambda>_ _. Allow, ga_cache = []\<rparr> :: gateway_authz"
  let ?req = sample_acquire
  obtain q1 where b: "acquire_begin ?a None None ?req (new_queue ()) = (Ok (Starting anonymous_principal ?req 10), q1)"
    and n1: "qt_next q1 = 0" "qt_live q1 = []"
    by (simp add: acquire_begin_def validate_lock_duration_def sample_acquire_def SUPPORTED_QUEUE_LOCK_DURATION_MS_def
        effective_identity_def MAX_MESSAGES_def authorize_queue_def authorize_resource_def reserve_def new_queue_def
        MAX_SESSIONS_def start_cleanup_def Let_def)
  define q1' where "q1' = drop_unreferenced {#Starting anonymous_principal ?req 10#} q1"
  have n1': "qt_next q1' = 0" by (simp add: q1'_def drop_unreferenced_def n1)
  obtain q2 wait_ms where st: "acquire_start sample_share anonymous_principal ?req 10 q1'
      = (Ok (Polling anonymous_principal True ''s1'' 0 wait_ms), q2)" and n2: "qt_next q2 = 1"
      "se_acquired (qt_heap q2 0) = \<lparr>qa_coordinates = []\<rparr>" "se_max_messages (qt_heap q2 0) = 10"
    by (simp add: acquire_start_def start_session_def sample_acquire_def sample_share_def insert_session_def n1')
  define c where "c = Polling anonymous_principal True ''s1'' 0 wait_ms"
  define q2' where "q2' = drop_unreferenced {#c#} q2"
  have n2': "qt_next q2' = 1" "se_acquired (qt_heap q2' 0) = \<lparr>qa_coordinates = []\<rparr>" "se_max_messages (qt_heap q2' 0) = 10"
    by (simp_all add: q2'_def drop_unreferenced_def n2)
  let ?recs = "[ack_record \<lparr>ae_topic = ''jobs'', ae_partition = 0, ae_offset = 5, ae_type = 0\<rparr>]"
  obtain q3 where po: "acquire_poll sample_share 0 wait_ms q2' = (Ok ?recs, q3)" and n3: "qt_next q3 = 1"
    by (simp add: acquire_poll_def poll_tracked_batch_def can_poll_def sample_share_def n2' record_batch_def)
  have "queue_run sample_share ?a [Silent] (settle q1 {#Starting anonymous_principal ?req 10#})"
    using run_step[OF run_init acquire_begins[OF b]] by simp
  hence "queue_run sample_share ?a [Silent]
      \<lparr>sy_queue = q1', sy_calls = add_mset (Starting anonymous_principal ?req 10) {#}\<rparr>"
    by (simp add: settle_def q1'_def)
  from run_step[OF this acquire_starts[OF st]]
  have "queue_run sample_share ?a [Silent, Silent]
      \<lparr>sy_queue = q2', sy_calls = add_mset (Polling anonymous_principal True ''s1'' 0 wait_ms) {#}\<rparr>"
    by (simp add: settle_def q2'_def c_def)
  note final = run_step[OF this acquire_polls[OF po]]
  show ?thesis
    by (intro exI conjI, rule final)
      (auto simp: settle_def drop_unreferenced_def n3 poll_event_def record_coordinate_def ack_record_def)
qed

theorem queue_tracks_client_view_witness:
  "\<exists>tr y. queue_run sample_share \<lparr>ga_authorizer = \<lambda>_ _. Allow, ga_cache = []\<rparr> tr y
     \<and> set (qa_coordinates (se_acquired (qt_heap (sy_queue y) 0))) = {(''jobs'', 0, 5)}"
proof -
  obtain tr y where r: "queue_run sample_share \<lparr>ga_authorizer = \<lambda>_ _. Allow, ga_cache = []\<rparr> tr y"
    "qt_next (sy_queue y) = 1" "client_view 0 tr = {(''jobs'', 0, 5)}"
    using sample_queue_run by blast
  from queue_tracks_client_view[OF r(1)] r show ?thesis by auto
qed

text \<open>
  C23: Acknowledging makes progress: when the broker accepts every acknowledgement,
  acknowledging each tracked message once gives no errors, and the session may
  acquire its next batch.
\<close>

theorem acknowledging_all_reopens_session:
  assumes "accepting sc" "distinct (map coordinate es)" "\<forall>e\<in>set es. ae_type e = 1"
    and "coordinate ` set es = set (qa_coordinates (se_acquired (qt_heap q s)))"
    and "acknowledge_entries sc s es q = (results, q')"
  shows "can_poll (se_acquired (qt_heap q' s)) \<and> (\<forall>r\<in>set results. ar_error r = None)"
proof -
  obtain q1 where 1: "each_entry (acknowledge_one sc s) es q = (results, q1)" "q' = touch s q1"
    using assms(5) by (auto simp: acknowledge_entries_def split: prod.splits)
  from each_entry_accepted[OF assms(1) 1(1) assms(2,3)] assms(4) 1(2)
  show ?thesis by (simp add: can_poll_def touch_def)
qed

theorem acknowledging_all_reopens_session_witness:
  "\<exists>q results q'. \<not> can_poll (se_acquired (qt_heap q 0))
     \<and> acknowledge_entries sample_share 0 [\<lparr>ae_topic = ''jobs'', ae_partition = 0, ae_offset = 5, ae_type = 1\<rparr>] q = (results, q')
     \<and> can_poll (se_acquired (qt_heap q' 0))"
proof -
  let ?e = "\<lparr>ae_topic = ''jobs'', ae_partition = 0, ae_offset = 5, ae_type = 1\<rparr>"
  define q where "q = (new_queue ())\<lparr>qt_heap := (\<lambda>s. (qt_heap (new_queue ()) s)\<lparr>se_acquired := \<lparr>qa_coordinates = [(''jobs'', 0, 5)]\<rparr>\<rparr>)\<rparr>"
  obtain results q' where r: "acknowledge_entries sample_share 0 [?e] q = (results, q')" by fastforce
  have "can_poll (se_acquired (qt_heap q' 0))"
    by (rule conjunct1[OF acknowledging_all_reopens_session[OF _ _ _ _ r]])
      (simp_all add: accepting_def sample_share_def coordinate_def q_def)
  moreover have "\<not> can_poll (se_acquired (qt_heap q 0))" by (simp add: q_def can_poll_def)
  ultimately show ?thesis using r by blast
qed

end
