(* ===== verification/Gw_Text.thy ===== *)
theory Gw_Text
  imports Complex_Main Gw_Prelude
begin

text \<open>
  The text functions of the Rust standard library the configuration, filter and
  webhook code uses: ASCII classes and case, \<open>trim\<close>, \<open>split\<close>, \<open>join\<close>, the
  integer parsers, and the \<open>f64\<close> parser with its rounding. Strings are their
  UTF-8 bytes, as everywhere; on valid UTF-8 the functions below agree with the
  character-wise ones of the source, since every byte of a non-ASCII character
  is outside the ASCII classes they test.

  A finite \<open>f64\<close> is the rational number it denotes. Zero has one sign, which no
  comparison of the source distinguishes.
\<close>

section \<open>Characters\<close>

abbreviation code :: "char \<Rightarrow> nat" where "code \<equiv> of_char"

definition is_ascii_digit :: "char \<Rightarrow> bool" where
  "is_ascii_digit c \<longleftrightarrow> 48 \<le> code c \<and> code c \<le> 57"

definition is_ascii_alphabetic :: "char \<Rightarrow> bool" where
  "is_ascii_alphabetic c \<longleftrightarrow> 65 \<le> code c \<and> code c \<le> 90 \<or> 97 \<le> code c \<and> code c \<le> 122"

definition is_ascii_alphanumeric :: "char \<Rightarrow> bool" where
  "is_ascii_alphanumeric c \<longleftrightarrow> is_ascii_alphabetic c \<or> is_ascii_digit c"

definition to_ascii_lowercase :: "char \<Rightarrow> char" where
  "to_ascii_lowercase c = (if 65 \<le> code c \<and> code c \<le> 90 then char_of (code c + 32) else c)"

definition eq_ignore_ascii_case :: "string \<Rightarrow> string \<Rightarrow> bool" where
  "eq_ignore_ascii_case s t \<longleftrightarrow> map to_ascii_lowercase s = map to_ascii_lowercase t"

section \<open>Substrings\<close>

definition starts_with :: "string \<Rightarrow> string \<Rightarrow> bool" where
  "starts_with t s \<longleftrightarrow> take (length t) s = t"

definition ends_with :: "string \<Rightarrow> string \<Rightarrow> bool" where
  "ends_with t s \<longleftrightarrow> starts_with (rev t) (rev s)"

definition slice :: "nat \<Rightarrow> nat \<Rightarrow> string \<Rightarrow> string" where
  "slice i j s = take (j - i) (drop i s)"

text \<open>The characters with the Unicode property \<open>White_Space\<close>, in UTF-8.\<close>

definition white_space :: "string list" where
  "white_space = map (map char_of)
     ([[9], [10], [11], [12], [13], [32], [0xC2, 0x85], [0xC2, 0xA0], [0xE1, 0x9A, 0x80]]
       @ map (\<lambda>b. [0xE2, 0x80, b]) [0x80, 0x81, 0x82, 0x83, 0x84, 0x85, 0x86, 0x87, 0x88, 0x89, 0x8A, 0xA8, 0xA9, 0xAF]
       @ [[0xE2, 0x81, 0x9F], [0xE3, 0x80, 0x80 :: nat]])"

function strip_all :: "string list \<Rightarrow> string \<Rightarrow> string" where
  "strip_all ws s =
     (case find (\<lambda>w. w \<noteq> [] \<and> starts_with w s) ws of
        None \<Rightarrow> s
      | Some w \<Rightarrow> strip_all ws (drop (length w) s))"
  by auto
termination
proof (relation "measure (length o snd)")
  fix ws s w assume "find (\<lambda>w. w \<noteq> [] \<and> starts_with w s) ws = Some w"
  hence "w \<noteq> []" "starts_with w s" by (auto simp: find_Some_iff)
  moreover from this have "s \<noteq> []" by (auto simp: starts_with_def)
  ultimately show "((ws, drop (length w) s), (ws, s)) \<in> measure (length o snd)" by simp
qed simp

declare strip_all.simps [simp del]

definition trim_start :: "string \<Rightarrow> string" where
  "trim_start s = strip_all white_space s"

definition trim_end :: "string \<Rightarrow> string" where
  "trim_end s = rev (strip_all (map rev white_space) (rev s))"

definition trim :: "string \<Rightarrow> string" where
  "trim s = trim_end (trim_start s)"

fun split_on :: "char \<Rightarrow> string \<Rightarrow> string list" where
  "split_on c [] = [[]]"
| "split_on c (x # xs) =
     (if x = c then [] # split_on c xs
      else case split_on c xs of [] \<Rightarrow> [[x]] | p # ps \<Rightarrow> (x # p) # ps)"

fun join :: "string \<Rightarrow> string list \<Rightarrow> string" where
  "join sep [] = []"
| "join sep [s] = s"
| "join sep (s # t # ss) = s @ sep @ join sep (t # ss)"

definition last_char :: "string \<Rightarrow> char option" where
  "last_char s = (if s = [] then None else Some (last s))"

definition first_char :: "string \<Rightarrow> char option" where
  "first_char s = (case s of [] \<Rightarrow> None | c # _ \<Rightarrow> Some c)"

section \<open>Integers\<close>

definition digits_value :: "string \<Rightarrow> nat" where
  "digits_value s = foldl (\<lambda>n c. 10 * n + (code c - 48)) 0 s"

definition parse_digits :: "string \<Rightarrow> nat option" where
  "parse_digits s = (if s \<noteq> [] \<and> list_all is_ascii_digit s then Some (digits_value s) else None)"

definition parse_signed :: "string \<Rightarrow> int option" where
  "parse_signed s =
     (case s of
        [] \<Rightarrow> None
      | c # cs \<Rightarrow>
          if c = CHR ''-'' then map_option (\<lambda>n. - int n) (parse_digits cs)
          else if c = CHR ''+'' then map_option int (parse_digits cs)
          else map_option int (parse_digits s))"

definition in_bounds :: "int \<Rightarrow> int \<Rightarrow> int option \<Rightarrow> int option" where
  "in_bounds lo hi r = (case r of Some n \<Rightarrow> if lo \<le> n \<and> n \<le> hi then Some n else None | None \<Rightarrow> None)"

definition parse_i64 :: "string \<Rightarrow> int option" where
  "parse_i64 s = in_bounds i64_MIN i64_MAX (parse_signed s)"

definition parse_unsigned :: "string \<Rightarrow> int option" where
  "parse_unsigned s =
     (case s of
        [] \<Rightarrow> None
      | c # cs \<Rightarrow> map_option int (parse_digits (if c = CHR ''+'' then cs else s)))"

definition u64_MAX :: int where "u64_MAX = 18446744073709551615"

definition parse_u64 :: "string \<Rightarrow> int option" where
  "parse_u64 s = in_bounds 0 u64_MAX (parse_unsigned s)"

section \<open>Floating point\<close>

definition pow2 :: "int \<Rightarrow> rat" where
  "pow2 e = (if 0 \<le> e then 2 ^ nat e else 1 / 2 ^ nat (- e))"

definition round_half_even :: "rat \<Rightarrow> int" where
  "round_half_even x =
     (let f = \<lfloor>x\<rfloor>; d = x - of_int f in
      if d < 1 / 2 then f else if 1 / 2 < d then f + 1 else if even f then f else f + 1)"

text \<open>
  Binary floating point numbers of precision \<open>p\<close>: the unit in the last place
  around a magnitude has the least exponent whose \<open>p\<close> bits reach it, not below
  that of the subnormals.
\<close>

definition ulp_exponent :: "int \<Rightarrow> int \<Rightarrow> int \<Rightarrow> rat \<Rightarrow> int" where
  "ulp_exponent p emin emax x = (case find (\<lambda>e. x < pow2 (e + p)) [emin..emax] of Some e \<Rightarrow> e | None \<Rightarrow> emax)"

definition nearest_magnitude :: "int \<Rightarrow> int \<Rightarrow> int \<Rightarrow> rat \<Rightarrow> rat" where
  "nearest_magnitude p emin emax x =
     (let e = ulp_exponent p emin emax x in of_int (round_half_even (x / pow2 e)) * pow2 e)"

definition nearest :: "int \<Rightarrow> int \<Rightarrow> int \<Rightarrow> rat \<Rightarrow> rat" where
  "nearest p emin emax x =
     (if x < 0 then - nearest_magnitude p emin emax (- x) else nearest_magnitude p emin emax x)"

definition f64_nearest :: "rat \<Rightarrow> rat" where
  "f64_nearest = nearest 53 (- 1074) 971"

definition f32_nearest :: "rat \<Rightarrow> rat" where
  "f32_nearest = nearest 24 (- 149) 104"

text \<open>Rounding, when the result is finite.\<close>

definition f64_finite :: "rat \<Rightarrow> rat option" where
  "f64_finite x = (if \<bar>f64_nearest x\<bar> < 2 ^ 1024 then Some (f64_nearest x) else None)"

definition f32_finite :: "rat \<Rightarrow> rat option" where
  "f32_finite x = (if \<bar>f32_nearest x\<bar> < 2 ^ 128 then Some (f32_nearest x) else None)"

text \<open>
  The value of a decimal literal, by the grammar of \<open>f64::from_str\<close>. The words
  for infinities and NaN are not numbers here.
\<close>

definition parse_exponent :: "string \<Rightarrow> int option" where
  "parse_exponent s =
     (case s of
        [] \<Rightarrow> Some 0
      | c # cs \<Rightarrow> if c = CHR ''e'' \<or> c = CHR ''E'' then parse_signed cs else None)"

definition pow10 :: "int \<Rightarrow> rat" where
  "pow10 e = (if 0 \<le> e then 10 ^ nat e else 1 / 10 ^ nat (- e))"

definition parse_decimal :: "string \<Rightarrow> rat option" where
  "parse_decimal s =
     (let neg = first_char s = Some CHR ''-'';
          body = (if neg \<or> first_char s = Some CHR ''+'' then tl s else s);
          whole = takeWhile is_ascii_digit body;
          rest = dropWhile is_ascii_digit body;
          point = first_char rest = Some CHR ''.'';
          part = (if point then takeWhile is_ascii_digit (tl rest) else []);
          rest = (if point then dropWhile is_ascii_digit (tl rest) else rest)
      in if whole = [] \<and> part = [] then None
         else map_option (\<lambda>e. (if neg then - 1 else 1) * of_nat (digits_value (whole @ part)) * pow10 (e - int (length part)))
                (parse_exponent rest))"

text \<open>
  The decimal \<open>Display\<close> prints for an \<open>f64\<close>: the fewest significant digits
  that read back as the same number, and of those the closest.
\<close>

definition decimal_candidates :: "rat \<Rightarrow> int \<Rightarrow> nat \<Rightarrow> rat list" where
  "decimal_candidates x d k =
     (let unit = pow10 (d + 1 - int k); lo = of_int \<lfloor>x / unit\<rfloor> * unit in
      filter (\<lambda>c. f64_nearest c = x) [lo, lo + unit])"

definition shortest_magnitude :: "rat \<Rightarrow> rat" where
  "shortest_magnitude x =
     (case find (\<lambda>d. pow10 d \<le> x \<and> x < pow10 (d + 1)) [-324..308] of
        None \<Rightarrow> x
      | Some d \<Rightarrow>
          (case filter (\<lambda>cs. cs \<noteq> []) (map (decimal_candidates x d) [1..<18]) of
             (lo # hi # _) # _ \<Rightarrow> if x - lo \<le> hi - x then lo else hi
           | [c] # _ \<Rightarrow> c
           | _ \<Rightarrow> x))"

definition shortest_decimal :: "rat \<Rightarrow> rat" where
  "shortest_decimal x = (if x < 0 then - shortest_magnitude (- x) else shortest_magnitude x)"

definition parse_f64 :: "string \<Rightarrow> rat option" where
  "parse_f64 s = Option.bind (parse_decimal s) f64_finite"

end
