(* ===== verification/Gw_Filter.thy ===== *)
theory Gw_Filter
  imports Gw_Text Gw_Wire
begin

text \<open>
  Subscription filters (\<open>filter.rs\<close>, in the default build with Arrow): the
  parser of conjunctions of comparisons, their evaluation on JSON rows, and the
  Arrow side with its cache of filters compiled per schema, the projection of
  numeric enums to their symbol names and the lowering of predicates to
  DataFusion expressions.

  JSON parsing, Arrow arrays and IPC streams, and DataFusion are parameters
  (\<open>filter_lib\<close>). Arrow columns show what the code reads of them: the keys and
  values of a dictionary column, and an opaque rest. The texts of the errors
  about unsupported SQL are kept as their format arguments.
\<close>

section \<open>Values and errors\<close>

datatype numeric_value = Integer int | Float rat

datatype field_value = FieldString string | FieldNumber numeric_value | FieldBool bool | FieldNull

datatype filter_value = FilterString string | FilterNumber numeric_value | FilterBool bool | FilterNull

datatype comparison_operator =
  Equal | NotEqual | GreaterThan | GreaterThanOrEqual | LessThan | LessThanOrEqual

datatype field_path = FieldPath "string list"

record predicate =
  pd_field :: field_path
  pd_operator :: comparison_operator
  pd_expected :: filter_value

datatype arrow_type =
    Int8 | Int16 | Int32 | Int64 | UInt8 | UInt16 | UInt32 | UInt64 | Float32 | Float64 | Utf8
  | Dictionary arrow_type arrow_type
  | OtherType string

datatype sql_fault =
    ReservedField string
  | UnterminatedFilter
  | UnterminatedLiteral string
  | NoOperator string
  | ExtraOperator string
  | OrderedLiteral string
  | EmptyPredicate
  | FieldPathFault string
  | NestedField
  | LiteralFault string
  | OrderedNull
  | NullLiteral
  | NumericLiteral numeric_value arrow_type

datatype filter_error = UnsupportedSql sql_fault | DataFusion string

definition RESERVED_ROW_MARKER_FIELD :: string where
  "RESERVED_ROW_MARKER_FIELD = ''__krabka_row_marker''"

section \<open>Numbers\<close>

definition numeric_parse :: "string \<Rightarrow> numeric_value option" where
  "numeric_parse s =
     (if \<not> list_ex (\<lambda>c. c = CHR ''.'' \<or> c = CHR ''e'' \<or> c = CHR ''E'') s then
        (case parse_i64 s of
           Some n \<Rightarrow> Some (Integer n)
         | None \<Rightarrow> (case parse_u64 s of Some n \<Rightarrow> Some (Integer n) | None \<Rightarrow> None))
      else map_option Float (parse_f64 s))"

definition as_f64 :: "numeric_value \<Rightarrow> rat" where
  "as_f64 v = (case v of Integer n \<Rightarrow> f64_nearest (of_int n) | Float x \<Rightarrow> x)"

definition i128_MAX :: int where "i128_MAX = 170141183460469231731687303715884105727"

definition as_integer :: "numeric_value \<Rightarrow> int option" where
  "as_integer v =
     (case v of
        Integer n \<Rightarrow> Some n
      | Float x \<Rightarrow>
          if x = of_int \<lfloor>x\<rfloor> then in_bounds (- i128_MAX - 1) i128_MAX (Some \<lfloor>shortest_decimal x\<rfloor>) else None)"

datatype ordering = Less | Eq | Greater

definition cmp :: "'a::linorder \<Rightarrow> 'a \<Rightarrow> ordering" where
  "cmp x y = (if x < y then Less else if x = y then Eq else Greater)"

definition numeric_compare :: "numeric_value \<Rightarrow> numeric_value \<Rightarrow> ordering" where
  "numeric_compare l r =
     (case (l, r) of
        (Integer a, Integer b) \<Rightarrow> cmp a b
      | (l, r) \<Rightarrow> cmp (as_f64 l) (as_f64 r))"

definition compare_order :: "comparison_operator \<Rightarrow> ordering \<Rightarrow> bool" where
  "compare_order op ord =
     (case op of
        Equal \<Rightarrow> ord = Eq
      | NotEqual \<Rightarrow> ord \<noteq> Eq
      | GreaterThan \<Rightarrow> ord = Greater
      | GreaterThanOrEqual \<Rightarrow> ord \<noteq> Less
      | LessThan \<Rightarrow> ord = Less
      | LessThanOrEqual \<Rightarrow> ord \<noteq> Greater)"

text \<open>Strings compare by their bytes.\<close>

definition str_cmp :: "string \<Rightarrow> string \<Rightarrow> ordering" where
  "str_cmp s t = cmp (map code s) (map code t)"

definition filter_value_matches :: "filter_value \<Rightarrow> comparison_operator \<Rightarrow> field_value \<Rightarrow> bool" where
  "filter_value_matches expected op actual =
     (case (expected, actual) of
        (FilterString e, FieldString a) \<Rightarrow> compare_order op (str_cmp a e)
      | (FilterNumber e, FieldNumber a) \<Rightarrow> compare_order op (numeric_compare a e)
      | (FilterNumber e, FieldString a) \<Rightarrow>
          (case numeric_parse a of Some a \<Rightarrow> compare_order op (numeric_compare a e) | None \<Rightarrow> False)
      | (FilterBool e, FieldBool a) \<Rightarrow>
          (case op of Equal \<Rightarrow> a = e | NotEqual \<Rightarrow> a \<noteq> e | _ \<Rightarrow> False)
      | (FilterNull, FieldNull) \<Rightarrow> (case op of Equal \<Rightarrow> True | _ \<Rightarrow> False)
      | (FilterNull, _) \<Rightarrow> op = NotEqual
      | _ \<Rightarrow> False)"

section \<open>Scanning outside string literals\<close>

abbreviation quote :: char where "quote \<equiv> CHR 0x27"

text \<open>
  The scan the parser's helpers repeat: the positions outside string literals,
  in order, and whether a literal is open at the end. A doubled quote inside a
  literal does not close it.
\<close>

fun scan :: "nat \<Rightarrow> bool \<Rightarrow> string \<Rightarrow> nat list \<times> bool" where
  "scan i in_string [] = ([], in_string)"
| "scan i in_string (c # cs) =
     (if c = quote then
        if in_string \<and> first_char cs = Some quote then scan (i + 2) in_string (tl cs)
        else scan (Suc i) (\<not> in_string) cs
      else if in_string then scan (Suc i) in_string cs
      else case scan (Suc i) in_string cs of (ps, b) \<Rightarrow> (i # ps, b))"

definition is_identifier_char :: "char \<Rightarrow> bool" where
  "is_identifier_char c \<longleftrightarrow> c = CHR ''_'' \<or> is_ascii_alphanumeric c"

definition word_boundary :: "string \<Rightarrow> nat \<Rightarrow> nat \<Rightarrow> bool" where
  "word_boundary s i n \<longleftrightarrow>
     \<not> (case last_char (take i s) of Some c \<Rightarrow> is_identifier_char c | None \<Rightarrow> False)
     \<and> \<not> (case first_char (drop (i + n) s) of Some c \<Rightarrow> is_identifier_char c | None \<Rightarrow> False)"

definition starts_with_field_reference :: "string \<Rightarrow> nat \<Rightarrow> string \<Rightarrow> bool" where
  "starts_with_field_reference sql i field \<longleftrightarrow>
     starts_with field (drop i sql) \<and> word_boundary sql i (length field)"

definition starts_with_keyword_at :: "string \<Rightarrow> nat \<Rightarrow> string \<Rightarrow> bool" where
  "starts_with_keyword_at s i keyword \<longleftrightarrow>
     i + length keyword \<le> length s \<and> eq_ignore_ascii_case (slice i (i + length keyword) s) keyword
     \<and> word_boundary s i (length keyword)"

definition sql_references_reserved_row_marker :: "string \<Rightarrow> bool" where
  "sql_references_reserved_row_marker sql =
     list_ex (\<lambda>i. starts_with_field_reference sql i RESERVED_ROW_MARKER_FIELD) (fst (scan 0 False sql))"

definition contains_unquoted_word :: "string \<Rightarrow> string \<Rightarrow> bool" where
  "contains_unquoted_word s word = list_ex (\<lambda>i. starts_with_keyword_at s i word) (fst (scan 0 False s))"

definition contains_unquoted_char :: "string \<Rightarrow> char \<Rightarrow> bool" where
  "contains_unquoted_char s c = list_ex (\<lambda>i. s ! i = c) (fst (scan 0 False s))"

definition is_decimal_literal_point :: "string \<Rightarrow> nat \<Rightarrow> bool" where
  "is_decimal_literal_point s i \<longleftrightarrow>
     (case last_char (take i s) of Some c \<Rightarrow> is_ascii_digit c | None \<Rightarrow> False)
     \<and> (case first_char (drop (Suc i) s) of Some c \<Rightarrow> is_ascii_digit c | None \<Rightarrow> False)"

definition contains_unquoted_field_path_separator :: "string \<Rightarrow> bool" where
  "contains_unquoted_field_path_separator s =
     list_ex (\<lambda>i. s ! i = CHR ''.'' \<and> \<not> is_decimal_literal_point s i) (fst (scan 0 False s))"

definition sql_requires_arrow_datafusion :: "string \<Rightarrow> bool" where
  "sql_requires_arrow_datafusion sql \<longleftrightarrow>
     contains_unquoted_word sql ''OR'' \<or> contains_unquoted_word sql ''IN''
     \<or> contains_unquoted_word sql ''IS'' \<or> contains_unquoted_word sql ''LIKE''
     \<or> contains_unquoted_char sql CHR ''('' \<or> contains_unquoted_char sql CHR '')''
     \<or> contains_unquoted_char sql CHR ''['' \<or> contains_unquoted_char sql CHR '']''
     \<or> contains_unquoted_field_path_separator sql"

definition find_unquoted_token :: "string \<Rightarrow> string \<Rightarrow> filter_error + nat option" where
  "find_unquoted_token s token =
     (case scan 0 False s of
        (ps, in_string) \<Rightarrow>
          (case find (\<lambda>i. starts_with token (drop i s)) ps of
             Some i \<Rightarrow> Ok (Some i)
           | None \<Rightarrow> if in_string then Err (UnsupportedSql UnterminatedFilter) else Ok None))"

section \<open>Parsing predicates\<close>

fun cut_clauses :: "string \<Rightarrow> nat \<Rightarrow> nat list \<Rightarrow> string list" where
  "cut_clauses sql start [] = [drop start sql]"
| "cut_clauses sql start (i # ps) = slice start i sql # cut_clauses sql (i + length ''AND'') ps"

definition split_and_clauses :: "string \<Rightarrow> filter_error + string list" where
  "split_and_clauses sql =
     (case scan 0 False sql of
        (ps, in_string) \<Rightarrow>
          if in_string then Err (UnsupportedSql UnterminatedFilter)
          else Ok (cut_clauses sql 0 (filter (\<lambda>i. starts_with_keyword_at sql i ''AND'') ps)))"

fun reject_tokens :: "string \<Rightarrow> string \<Rightarrow> string list \<Rightarrow> filter_error + unit" where
  "reject_tokens clause literal [] = Ok ()"
| "reject_tokens clause literal (t # ts) =
     and_then (find_unquoted_token literal t) (\<lambda>r.
       if r \<noteq> None then Err (UnsupportedSql (ExtraOperator clause)) else reject_tokens clause literal ts)"

definition reject_extra_operator :: "string \<Rightarrow> string \<Rightarrow> filter_error + unit" where
  "reject_extra_operator clause literal =
     reject_tokens clause literal [''!='', ''>='', ''<='', ''='', ''>'', ''<'']"

fun parse_operators ::
    "(string \<times> comparison_operator) list \<Rightarrow> string \<Rightarrow> filter_error + comparison_operator \<times> string \<times> string" where
  "parse_operators [] clause = Err (UnsupportedSql (NoOperator clause))"
| "parse_operators ((token, op) # ts) clause =
     and_then (find_unquoted_token clause token) (\<lambda>r.
       case r of
         None \<Rightarrow> parse_operators ts clause
       | Some i \<Rightarrow>
           let literal = drop (i + length token) clause in
           and_then (reject_extra_operator clause literal) (\<lambda>_. Ok (op, take i clause, literal)))"

definition operator_tokens :: "(string \<times> comparison_operator) list" where
  "operator_tokens =
     [(''!='', NotEqual), (''>='', GreaterThanOrEqual), (''<='', LessThanOrEqual),
      (''='', Equal), (''>'', GreaterThan), (''<'', LessThan)]"

definition operator_parse :: "string \<Rightarrow> filter_error + comparison_operator \<times> string \<times> string" where
  "operator_parse clause = parse_operators operator_tokens clause"

definition accepts_literal :: "comparison_operator \<Rightarrow> filter_value \<Rightarrow> bool" where
  "accepts_literal op v \<longleftrightarrow>
     (if op \<notin> set [GreaterThan, GreaterThanOrEqual, LessThan, LessThanOrEqual] then True
      else (case v of FilterString _ \<Rightarrow> True | FilterNumber _ \<Rightarrow> True | _ \<Rightarrow> False))"

definition is_identifier :: "string \<Rightarrow> bool" where
  "is_identifier s =
     (case s of
        [] \<Rightarrow> False
      | c # cs \<Rightarrow> (c = CHR ''_'' \<or> is_ascii_alphabetic c)
          \<and> list_all (\<lambda>c. c = CHR ''_'' \<or> is_ascii_alphanumeric c) cs)"

fun parse_segments :: "string \<Rightarrow> string list \<Rightarrow> filter_error + string list" where
  "parse_segments input [] = Ok []"
| "parse_segments input (raw # rest) =
     (let segment = trim raw in
      if \<not> is_identifier segment then Err (UnsupportedSql (FieldPathFault input))
      else and_then (parse_segments input rest) (\<lambda>ss. Ok (segment # ss)))"

definition field_path_parse :: "string \<Rightarrow> filter_error + field_path" where
  "field_path_parse input =
     and_then (parse_segments input (split_on CHR ''.'' input)) (\<lambda>segments.
       if length segments \<noteq> 1 then Err (UnsupportedSql NestedField) else Ok (FieldPath segments))"

fun as_top_level_name :: "field_path \<Rightarrow> string" where
  "as_top_level_name (FieldPath segments) = segments ! 0"

fun unescape_quotes :: "string \<Rightarrow> string" where
  "unescape_quotes [] = []"
| "unescape_quotes (c # cs) =
     (if c = quote \<and> first_char cs = Some quote then quote # unescape_quotes (tl cs)
      else c # unescape_quotes cs)"

definition parse_quoted_string :: "string \<Rightarrow> filter_error + string option" where
  "parse_quoted_string literal =
     (if \<not> starts_with [quote] literal then Ok None
      else if \<not> ends_with [quote] literal \<or> length literal < 2 then
        Err (UnsupportedSql (UnterminatedLiteral literal))
      else Ok (Some (unescape_quotes (slice 1 (length literal - 1) literal))))"

definition filter_value_parse :: "string \<Rightarrow> filter_error + filter_value" where
  "filter_value_parse input =
     (let literal = trim input in
      if eq_ignore_ascii_case literal ''true'' then Ok (FilterBool True)
      else if eq_ignore_ascii_case literal ''false'' then Ok (FilterBool False)
      else if eq_ignore_ascii_case literal ''null'' then Ok FilterNull
      else and_then (parse_quoted_string literal) (\<lambda>r.
        case r of
          Some s \<Rightarrow> Ok (FilterString s)
        | None \<Rightarrow>
            (case numeric_parse literal of
               Some n \<Rightarrow> Ok (FilterNumber n)
             | None \<Rightarrow> Err (UnsupportedSql (LiteralFault literal)))))"

definition parse_predicate :: "string \<Rightarrow> filter_error + predicate" where
  "parse_predicate clause =
     (if clause = [] then Err (UnsupportedSql EmptyPredicate)
      else and_then (operator_parse clause) (\<lambda>(op, field, literal).
        and_then (filter_value_parse (trim literal)) (\<lambda>expected.
          if \<not> accepts_literal op expected then Err (UnsupportedSql (OrderedLiteral clause))
          else and_then (field_path_parse (trim field)) (\<lambda>path.
            Ok \<lparr>pd_field = path, pd_operator = op, pd_expected = expected\<rparr>))))"

fun parse_clauses :: "string list \<Rightarrow> filter_error + predicate list" where
  "parse_clauses [] = Ok []"
| "parse_clauses (c # cs) =
     and_then (parse_predicate (trim c)) (\<lambda>p. and_then (parse_clauses cs) (\<lambda>ps. Ok (p # ps)))"

definition parse_legacy_predicates :: "string \<Rightarrow> filter_error + predicate list" where
  "parse_legacy_predicates sql = and_then (split_and_clauses sql) parse_clauses"

section \<open>JSON rows\<close>

datatype json_number = PosInt nat | NegInt int | FloatNum rat

datatype json =
    JNull
  | JBool bool
  | JNumber json_number
  | JString string
  | JArray "json list"
  | JObject "(string \<times> json) list"

definition json_as_i64 :: "json_number \<Rightarrow> int option" where
  "json_as_i64 n =
     (case n of PosInt k \<Rightarrow> if int k \<le> i64_MAX then Some (int k) else None | NegInt k \<Rightarrow> Some k | FloatNum _ \<Rightarrow> None)"

definition json_as_u64 :: "json_number \<Rightarrow> int option" where
  "json_as_u64 n = (case n of PosInt k \<Rightarrow> Some (int k) | _ \<Rightarrow> None)"

definition json_as_f64 :: "json_number \<Rightarrow> rat" where
  "json_as_f64 n =
     (case n of PosInt k \<Rightarrow> f64_nearest (of_nat k) | NegInt k \<Rightarrow> f64_nearest (of_int k) | FloatNum x \<Rightarrow> x)"

definition from_scalar_json :: "json \<Rightarrow> field_value option" where
  "from_scalar_json v =
     (case v of
        JString s \<Rightarrow> Some (FieldString s)
      | JNumber n \<Rightarrow>
          Some (FieldNumber
            (case json_as_i64 n of
               Some k \<Rightarrow> Integer k
             | None \<Rightarrow> (case json_as_u64 n of Some k \<Rightarrow> Integer k | None \<Rightarrow> Float (json_as_f64 n))))
      | JBool b \<Rightarrow> Some (FieldBool b)
      | JNull \<Rightarrow> Some FieldNull
      | JArray _ \<Rightarrow> None
      | JObject _ \<Rightarrow> None)"

definition unknown_enum_name :: "json \<Rightarrow> field_value option" where
  "unknown_enum_name v =
     (case v of
        JNumber n \<Rightarrow>
          (case json_as_i64 n of
             Some k \<Rightarrow> if k < 0 then None else Some (FieldString (''UNKNOWN_'' @ show_int k))
           | None \<Rightarrow> None)
      | _ \<Rightarrow> None)"

definition from_dictionary_like_json :: "json \<Rightarrow> field_value option" where
  "from_dictionary_like_json v =
     (case v of
        JObject object \<Rightarrow>
          if hm_get object ''$type'' = Some (JString ''dictionary'') then
            Option.bind (hm_get object ''value'') from_scalar_json
          else if hm_get object ''$type'' = Some (JString ''enum'') then
            (case hm_get object ''name'' of
               Some name \<Rightarrow> from_scalar_json name
             | None \<Rightarrow> Option.bind (hm_get object ''number'') unknown_enum_name)
          else None
      | _ \<Rightarrow> None)"

definition from_json :: "json \<Rightarrow> field_value option" where
  "from_json v =
     (case from_scalar_json v of Some scalar \<Rightarrow> Some scalar | None \<Rightarrow> from_dictionary_like_json v)"

type_synonym row_value = "(string, field_value) hashmap"

fun row_fields :: "(string \<times> json) list \<Rightarrow> predicate list \<Rightarrow> row_value \<Rightarrow> row_value option" where
  "row_fields object [] acc = Some acc"
| "row_fields object (p # ps) acc =
     (let name = as_top_level_name (pd_field p) in
      case hm_get object name of
        None \<Rightarrow> row_fields object ps acc
      | Some v \<Rightarrow>
          (case from_json v of
             None \<Rightarrow> None
           | Some field \<Rightarrow> row_fields object ps (hm_insert name field acc)))"

definition row_from_json :: "json \<Rightarrow> predicate list \<Rightarrow> row_value option" where
  "row_from_json v ps = (case v of JObject object \<Rightarrow> row_fields object ps [] | _ \<Rightarrow> None)"

type_synonym typed_row_batch = "row_value list"

definition batch_from_json :: "json \<Rightarrow> predicate list \<Rightarrow> typed_row_batch option" where
  "batch_from_json v ps = map_option (\<lambda>row. [row]) (row_from_json v ps)"

definition batch_field_value :: "typed_row_batch \<Rightarrow> nat \<Rightarrow> field_path \<Rightarrow> field_value option" where
  "batch_field_value batch row path =
     (if row < length batch then hm_get (batch ! row) (as_top_level_name path) else None)"

definition predicate_matches :: "predicate \<Rightarrow> typed_row_batch \<Rightarrow> nat \<Rightarrow> bool" where
  "predicate_matches p batch row =
     (case batch_field_value batch row (pd_field p) of
        None \<Rightarrow> False
      | Some actual \<Rightarrow> filter_value_matches (pd_expected p) (pd_operator p) actual)"

section \<open>Arrow batches and DataFusion\<close>

record arrow_field =
  af_name :: string
  af_type :: arrow_type
  af_nullable :: bool
  af_metadata :: "(string, string) hashmap"

type_synonym arrow_schema = "arrow_field list"

datatype dictionary_values = Int32Values "int list" | Int64Values "int list" | OtherValues arrow_type

datatype 'c arrow_column =
    DictionaryInt32 "int option list" dictionary_values
  | Symbols "string option list"
  | OtherColumn 'c

record 'c record_batch =
  rb_schema :: arrow_schema
  rb_columns :: "'c arrow_column list"
  rb_num_rows :: nat

datatype df_operator = DfEq | DfNotEq | DfGt | DfGtEq | DfLt | DfLtEq | DfAnd

datatype df_literal = LitString string | LitBool bool | LitInt arrow_type int | LitFloat32 rat | LitFloat64 rat

record ('x, 'c) filter_lib =
  fl_from_slice :: "bytes \<Rightarrow> json option"
  fl_json_str :: "string \<Rightarrow> json option"
  fl_df_schema :: "arrow_schema \<Rightarrow> string + unit"
  fl_parse_sql :: "string \<Rightarrow> arrow_schema \<Rightarrow> string + 'x"
  fl_col :: "string \<Rightarrow> arrow_schema \<Rightarrow> string + 'x"
  fl_field_with_name :: "string \<Rightarrow> arrow_schema \<Rightarrow> string + arrow_field"
  fl_lit :: "df_literal \<Rightarrow> 'x"
  fl_binary :: "'x \<Rightarrow> df_operator \<Rightarrow> 'x \<Rightarrow> arrow_schema \<Rightarrow> string + 'x"
  fl_is_null :: "'x \<Rightarrow> string + 'x"
  fl_is_not_null :: "'x \<Rightarrow> string + 'x"
  fl_evaluate :: "'x \<Rightarrow> 'c record_batch \<Rightarrow> string + (arrow_type + bool option list)"
  fl_try_new :: "arrow_schema \<Rightarrow> 'c arrow_column list \<Rightarrow> string + 'c record_batch"
  fl_stream :: "bytes \<Rightarrow> (string + 'c record_batch) list option"
  fl_type_debug :: "arrow_type \<Rightarrow> string"
  fl_type_display :: "arrow_type \<Rightarrow> string"

definition datafusion_error :: "string + 'a \<Rightarrow> filter_error + 'a" where
  "datafusion_error r = map_err DataFusion r"

section \<open>Numeric enums by their symbols\<close>

record enum_symbol_column =
  es_index :: nat
  es_field_name :: string
  es_symbols :: "(int, string) hashmap"

definition symbol_name :: "enum_symbol_column \<Rightarrow> int \<Rightarrow> string" where
  "symbol_name ec number =
     (case hm_get (es_symbols ec) number of Some s \<Rightarrow> s | None \<Rightarrow> ''UNKNOWN_'' @ show_int number)"

fun symbol_names :: "enum_symbol_column \<Rightarrow> int list \<Rightarrow> int option list \<Rightarrow> filter_error + string option list" where
  "symbol_names ec values [] = Ok []"
| "symbol_names ec values (None # keys) =
     and_then (symbol_names ec values keys) (\<lambda>ss. Ok (None # ss))"
| "symbol_names ec values (Some key # keys) =
     (if key < 0 then
        Err (DataFusion (''arrow enum field '' @ es_field_name ec @ '' dictionary key '' @ show_int key @ '' is negative''))
      else if length values \<le> nat key then
        Err (DataFusion (''arrow enum field '' @ es_field_name ec @ '' dictionary key '' @ show_int key
               @ '' is out of bounds for '' @ show_nat (length values) @ '' values''))
      else and_then (symbol_names ec values keys) (\<lambda>ss. Ok (Some (symbol_name ec (values ! nat key)) # ss)))"

definition to_symbol_array ::
    "('x, 'c) filter_lib \<Rightarrow> enum_symbol_column \<Rightarrow> 'c arrow_column \<Rightarrow> filter_error + 'c arrow_column" where
  "to_symbol_array lib ec column =
     (case column of
        DictionaryInt32 keys (Int32Values values) \<Rightarrow>
          and_then (symbol_names ec values keys) (\<lambda>ss. Ok (Symbols ss))
      | DictionaryInt32 keys (Int64Values values) \<Rightarrow>
          and_then (symbol_names ec values keys) (\<lambda>ss. Ok (Symbols ss))
      | DictionaryInt32 keys (OtherValues t) \<Rightarrow>
          Err (DataFusion (''arrow enum field '' @ es_field_name ec @ '' has unsupported dictionary value type ''
                 @ fl_type_display lib t))
      | _ \<Rightarrow>
          Err (DataFusion (''arrow enum field '' @ es_field_name ec
                 @ '' expected Dictionary<Int32, Int32|Int64> array values'')))"

definition arrow_field_needs_enum_symbol_projection :: "arrow_field \<Rightarrow> bool" where
  "arrow_field_needs_enum_symbol_projection f \<longleftrightarrow>
     (hm_get (af_metadata f) ''krabka.enum'' = Some ''true'' \<or> hm_get (af_metadata f) ''krabka.enum.symbols'' \<noteq> None)
     \<and> (case af_type f of Dictionary _ t \<Rightarrow> t = Int32 \<or> t = Int64 | _ \<Rightarrow> False)"

definition invalid_enum_symbols :: "arrow_field \<Rightarrow> filter_error" where
  "invalid_enum_symbols f =
     DataFusion (''arrow enum field '' @ af_name f @ '' has invalid krabka.enum.symbols metadata'')"

fun collect_symbols :: "arrow_field \<Rightarrow> (string \<times> json) list \<Rightarrow> filter_error + (int, string) hashmap" where
  "collect_symbols f [] = Ok []"
| "collect_symbols f ((number, name) # rest) =
     (case parse_i64 number of
        None \<Rightarrow> Err (invalid_enum_symbols f)
      | Some n \<Rightarrow>
          (case name of
             JString s \<Rightarrow>
               and_then (collect_symbols f rest) (\<lambda>m.
                 Ok (case hm_get m n of Some _ \<Rightarrow> m | None \<Rightarrow> hm_insert n s m))
           | _ \<Rightarrow> Err (invalid_enum_symbols f)))"

definition parse_arrow_enum_symbols ::
    "('x, 'c) filter_lib \<Rightarrow> arrow_field \<Rightarrow> filter_error + (int, string) hashmap" where
  "parse_arrow_enum_symbols lib f =
     (case hm_get (af_metadata f) ''krabka.enum.symbols'' of
        None \<Rightarrow>
          Err (DataFusion (''arrow enum field '' @ af_name f
                 @ '' stores numeric values but has no krabka.enum.symbols descriptor metadata''))
      | Some symbols \<Rightarrow>
          (case fl_json_str lib symbols of
             Some (JObject object) \<Rightarrow> collect_symbols f object
           | _ \<Rightarrow> Err (invalid_enum_symbols f)))"

fun collect_enum_columns ::
    "('x, 'c) filter_lib \<Rightarrow> nat \<Rightarrow> arrow_schema \<Rightarrow> filter_error + enum_symbol_column list" where
  "collect_enum_columns lib i [] = Ok []"
| "collect_enum_columns lib i (f # fs) =
     (if \<not> arrow_field_needs_enum_symbol_projection f then collect_enum_columns lib (Suc i) fs
      else and_then (parse_arrow_enum_symbols lib f) (\<lambda>symbols.
        and_then (collect_enum_columns lib (Suc i) fs) (\<lambda>cs.
          Ok (\<lparr>es_index = i, es_field_name = af_name f, es_symbols = symbols\<rparr> # cs))))"

definition arrow_enum_symbol_columns ::
    "('x, 'c) filter_lib \<Rightarrow> arrow_schema \<Rightarrow> filter_error + enum_symbol_column list" where
  "arrow_enum_symbol_columns lib schema = collect_enum_columns lib 0 schema"

definition arrow_filter_schema :: "arrow_schema \<Rightarrow> enum_symbol_column list \<Rightarrow> arrow_schema" where
  "arrow_filter_schema schema ecs =
     map (\<lambda>(i, f). if \<not> list_ex (\<lambda>ec. es_index ec = i) ecs then f else f\<lparr>af_type := Utf8\<rparr>) (enumerate 0 schema)"

fun symbol_columns ::
    "('x, 'c) filter_lib \<Rightarrow> enum_symbol_column list \<Rightarrow> (nat \<times> 'c arrow_column) list \<Rightarrow> filter_error + 'c arrow_column list" where
  "symbol_columns lib ecs [] = Ok []"
| "symbol_columns lib ecs ((i, column) # rest) =
     and_then (case find (\<lambda>ec. es_index ec = i) ecs of
                 None \<Rightarrow> Ok column
               | Some ec \<Rightarrow> to_symbol_array lib ec column) (\<lambda>c.
       and_then (symbol_columns lib ecs rest) (\<lambda>cs. Ok (c # cs)))"

definition enum_symbol_filter_batch ::
    "('x, 'c) filter_lib \<Rightarrow> enum_symbol_column list \<Rightarrow> 'c record_batch \<Rightarrow> filter_error + 'c record_batch" where
  "enum_symbol_filter_batch lib ecs batch =
     (if ecs = [] then Ok batch
      else and_then (symbol_columns lib ecs (enumerate 0 (rb_columns batch))) (\<lambda>columns.
        datafusion_error (fl_try_new lib (arrow_filter_schema (rb_schema batch) ecs) columns)))"

section \<open>Quoting complex field names\<close>

definition is_complex_field :: "string \<Rightarrow> bool" where
  "is_complex_field name = list_ex (\<lambda>c. c = CHR ''.'' \<or> c = CHR ''['' \<or> c = CHR '']'') name"

abbreviation dquote :: char where "dquote \<equiv> CHR 0x22"

definition quoted_field :: "string \<Rightarrow> string" where
  "quoted_field f = dquote # concat (map (\<lambda>c. if c = dquote then [dquote, dquote] else [c]) f) @ [dquote]"

function quote_loop :: "string \<Rightarrow> string list \<Rightarrow> nat \<Rightarrow> bool \<Rightarrow> string \<Rightarrow> string" where
  "quote_loop sql fs i in_string rest =
     (case rest of
        [] \<Rightarrow> []
      | c # cs \<Rightarrow>
          if c = quote then
            if in_string \<and> first_char cs = Some quote then quote # quote # quote_loop sql fs (i + 2) in_string (tl cs)
            else c # quote_loop sql fs (Suc i) (\<not> in_string) cs
          else if in_string then c # quote_loop sql fs (Suc i) in_string cs
          else case find (\<lambda>f. f \<noteq> [] \<and> starts_with_field_reference sql i f) fs of
                 Some f \<Rightarrow> quoted_field f @ quote_loop sql fs (i + length f) in_string (drop (length f) rest)
               | None \<Rightarrow> c # quote_loop sql fs (Suc i) in_string cs)"
  by auto
termination
  by (relation "measure (\<lambda>(sql, fs, i, b, rest). length rest)") (auto simp: find_Some_iff)

declare quote_loop.simps [simp del]

definition quote_complex_arrow_field_references :: "string \<Rightarrow> arrow_schema \<Rightarrow> string" where
  "quote_complex_arrow_field_references sql schema =
     (let complex_fields = filter is_complex_field (map af_name schema) in
      if complex_fields = [] then sql
      else quote_loop sql (sort_key (\<lambda>f. - int (length f)) complex_fields) 0 False sql)"

section \<open>Lowering predicates\<close>

definition numeric_literal_type_error :: "numeric_value \<Rightarrow> arrow_type \<Rightarrow> filter_error" where
  "numeric_literal_type_error v t = UnsupportedSql (NumericLiteral v t)"

definition integer_datafusion_literal ::
    "('x, 'c) filter_lib \<Rightarrow> int \<Rightarrow> int \<Rightarrow> numeric_value \<Rightarrow> arrow_type \<Rightarrow> filter_error + 'x" where
  "integer_datafusion_literal lib lo hi v t =
     (case as_integer v of
        None \<Rightarrow> Err (numeric_literal_type_error v t)
      | Some n \<Rightarrow>
          (case in_bounds lo hi (Some n) of
             None \<Rightarrow> Err (numeric_literal_type_error v t)
           | Some n \<Rightarrow> Ok (fl_lit lib (LitInt t n))))"

definition numeric_display :: "numeric_value \<Rightarrow> rat" where
  "numeric_display v = (case v of Integer n \<Rightarrow> of_int n | Float x \<Rightarrow> shortest_decimal x)"

fun numeric_datafusion_literal ::
    "('x, 'c) filter_lib \<Rightarrow> numeric_value \<Rightarrow> arrow_type \<Rightarrow> filter_error + 'x" where
  "numeric_datafusion_literal lib v Int8 = integer_datafusion_literal lib (- (2 ^ 7)) (2 ^ 7 - 1) v Int8"
| "numeric_datafusion_literal lib v Int16 = integer_datafusion_literal lib (- (2 ^ 15)) (2 ^ 15 - 1) v Int16"
| "numeric_datafusion_literal lib v Int32 = integer_datafusion_literal lib i32_MIN i32_MAX v Int32"
| "numeric_datafusion_literal lib v Int64 = integer_datafusion_literal lib i64_MIN i64_MAX v Int64"
| "numeric_datafusion_literal lib v UInt8 = integer_datafusion_literal lib 0 (2 ^ 8 - 1) v UInt8"
| "numeric_datafusion_literal lib v UInt16 = integer_datafusion_literal lib 0 (2 ^ 16 - 1) v UInt16"
| "numeric_datafusion_literal lib v UInt32 = integer_datafusion_literal lib 0 (2 ^ 32 - 1) v UInt32"
| "numeric_datafusion_literal lib v UInt64 = integer_datafusion_literal lib 0 u64_MAX v UInt64"
| "numeric_datafusion_literal lib v Float32 =
     (case f32_finite (numeric_display v) of
        Some x \<Rightarrow> Ok (fl_lit lib (LitFloat32 x))
      | None \<Rightarrow> Err (numeric_literal_type_error v Float32))"
| "numeric_datafusion_literal lib v Float64 = Ok (fl_lit lib (LitFloat64 (as_f64 v)))"
| "numeric_datafusion_literal lib v (Dictionary k t) = numeric_datafusion_literal lib v t"
| "numeric_datafusion_literal lib v t = Err (numeric_literal_type_error v t)"

definition to_datafusion_operator :: "comparison_operator \<Rightarrow> df_operator" where
  "to_datafusion_operator op =
     (case op of Equal \<Rightarrow> DfEq | NotEqual \<Rightarrow> DfNotEq | GreaterThan \<Rightarrow> DfGt | GreaterThanOrEqual \<Rightarrow> DfGtEq
      | LessThan \<Rightarrow> DfLt | LessThanOrEqual \<Rightarrow> DfLtEq)"

definition to_datafusion_literal :: "('x, 'c) filter_lib \<Rightarrow> filter_value \<Rightarrow> arrow_type \<Rightarrow> filter_error + 'x" where
  "to_datafusion_literal lib v t =
     (case v of
        FilterString s \<Rightarrow> Ok (fl_lit lib (LitString s))
      | FilterNumber n \<Rightarrow> numeric_datafusion_literal lib n t
      | FilterBool b \<Rightarrow> Ok (fl_lit lib (LitBool b))
      | FilterNull \<Rightarrow> Err (UnsupportedSql NullLiteral))"

definition to_datafusion_expr :: "('x, 'c) filter_lib \<Rightarrow> predicate \<Rightarrow> arrow_schema \<Rightarrow> filter_error + 'x" where
  "to_datafusion_expr lib p schema =
     (let name = as_top_level_name (pd_field p) in
      and_then (datafusion_error (fl_col lib name schema)) (\<lambda>column.
        if pd_expected p = FilterNull then
          (case pd_operator p of
             Equal \<Rightarrow> datafusion_error (fl_is_null lib column)
           | NotEqual \<Rightarrow> datafusion_error (fl_is_not_null lib column)
           | _ \<Rightarrow> Err (UnsupportedSql OrderedNull))
        else and_then (datafusion_error (fl_field_with_name lib name schema)) (\<lambda>field.
          and_then (to_datafusion_literal lib (pd_expected p) (af_type field)) (\<lambda>literal.
            datafusion_error (fl_binary lib column (to_datafusion_operator (pd_operator p)) literal schema)))))"

fun fold_predicates ::
    "('x, 'c) filter_lib \<Rightarrow> arrow_schema \<Rightarrow> 'x \<Rightarrow> predicate list \<Rightarrow> filter_error + 'x" where
  "fold_predicates lib schema combined [] = Ok combined"
| "fold_predicates lib schema combined (p # ps) =
     and_then (to_datafusion_expr lib p schema) (\<lambda>e.
       and_then (datafusion_error (fl_binary lib combined DfAnd e schema)) (\<lambda>combined.
         fold_predicates lib schema combined ps))"

definition datafusion_predicate_for_schema ::
    "('x, 'c) filter_lib \<Rightarrow> predicate list \<Rightarrow> arrow_schema \<Rightarrow> filter_error + 'x" where
  "datafusion_predicate_for_schema lib ps schema =
     (case ps of
        [] \<Rightarrow> Ok (fl_lit lib (LitBool True))
      | p # ps \<Rightarrow> and_then (to_datafusion_expr lib p schema) (\<lambda>e. fold_predicates lib schema e ps))"

section \<open>Filters compiled for a schema\<close>

record 'x arrow_compiled_filter =
  ac_expr :: 'x
  ac_enum_symbol_columns :: "enum_symbol_column list"

definition arrow_compile ::
    "('x, 'c) filter_lib \<Rightarrow> string \<Rightarrow> arrow_schema \<Rightarrow> filter_error + 'x arrow_compiled_filter" where
  "arrow_compile lib sql schema =
     and_then (arrow_enum_symbol_columns lib schema) (\<lambda>ecs.
       let transformed = arrow_filter_schema schema ecs in
       and_then (datafusion_error (fl_df_schema lib transformed)) (\<lambda>_.
         let sql = quote_complex_arrow_field_references sql schema in
         and_then (case parse_legacy_predicates sql of
                     Ok predicates \<Rightarrow> datafusion_predicate_for_schema lib predicates transformed
                   | Err _ \<Rightarrow> datafusion_error (fl_parse_sql lib sql transformed)) (\<lambda>expr.
           Ok \<lparr>ac_expr = expr, ac_enum_symbol_columns = ecs\<rparr>)))"

definition arrow_evaluate ::
    "('x, 'c) filter_lib \<Rightarrow> 'x arrow_compiled_filter \<Rightarrow> 'c record_batch \<Rightarrow> filter_error + bool list" where
  "arrow_evaluate lib ac batch =
     and_then (enum_symbol_filter_batch lib (ac_enum_symbol_columns ac) batch) (\<lambda>filter_batch.
       and_then (datafusion_error (fl_evaluate lib (ac_expr ac) filter_batch)) (\<lambda>values.
         case values of
           Err t \<Rightarrow> Err (DataFusion (''predicate returned '' @ fl_type_display lib t @ '', expected Boolean''))
         | Ok m \<Rightarrow> Ok (map (\<lambda>v. v = Some True) m)))"

definition arrow_schema_key :: "('x, 'c) filter_lib \<Rightarrow> arrow_schema \<Rightarrow> string" where
  "arrow_schema_key lib schema =
     join ''|'' (map (\<lambda>f.
       af_name f @ '':'' @ fl_type_debug lib (af_type f) @ '':'' @ (if af_nullable f then ''true'' else ''false'')
         @ '':'' @ join '','' (sort (map (\<lambda>(k, v). k @ ''='' @ v) (af_metadata f)))) schema)"

section \<open>The compiled filter\<close>

record 'x compiled_filter =
  cf_sql :: string
  cf_predicates :: "predicate list"
  cf_arrow_cache :: "(int option \<times> string, 'x arrow_compiled_filter) hashmap"

definition is_unfiltered :: "'x compiled_filter \<Rightarrow> bool" where
  "is_unfiltered cf \<longleftrightarrow> cf_sql cf = []"

definition filter_compile :: "string \<Rightarrow> filter_error + 'x compiled_filter" where
  "filter_compile sql =
     (let sql = trim sql in
      if sql = [] then Ok \<lparr>cf_sql = [], cf_predicates = [], cf_arrow_cache = []\<rparr>
      else if sql_references_reserved_row_marker sql then
        Err (UnsupportedSql (ReservedField RESERVED_ROW_MARKER_FIELD))
      else
        and_then (case parse_legacy_predicates sql of
                    Ok predicates \<Rightarrow> Ok predicates
                  | Err e \<Rightarrow> if sql_requires_arrow_datafusion sql then Ok [] else Err e) (\<lambda>predicates.
          Ok \<lparr>cf_sql = sql, cf_predicates = predicates, cf_arrow_cache = []\<rparr>))"

definition evaluate_arrow_batch_for_schema_id ::
    "('x, 'c) filter_lib \<Rightarrow> int option \<Rightarrow> 'c record_batch \<Rightarrow> 'x compiled_filter \<Rightarrow>
     (filter_error + bool list) \<times> 'x compiled_filter" where
  "evaluate_arrow_batch_for_schema_id lib schema_id batch cf =
     (if cf_sql cf = [] then (Ok (replicate (rb_num_rows batch) True), cf)
      else
        let key = (schema_id, arrow_schema_key lib (rb_schema batch)) in
        case hm_get (cf_arrow_cache cf) key of
          Some compiled \<Rightarrow> (arrow_evaluate lib compiled batch, cf)
        | None \<Rightarrow>
            (case arrow_compile lib (cf_sql cf) (rb_schema batch) of
               Err e \<Rightarrow> (Err e, cf)
             | Ok compiled \<Rightarrow>
                 (arrow_evaluate lib compiled batch,
                  cf\<lparr>cf_arrow_cache := hm_insert key compiled (cf_arrow_cache cf)\<rparr>)))"

definition evaluate_arrow_batch ::
    "('x, 'c) filter_lib \<Rightarrow> 'c record_batch \<Rightarrow> 'x compiled_filter \<Rightarrow>
     (filter_error + bool list) \<times> 'x compiled_filter" where
  "evaluate_arrow_batch lib batch cf = evaluate_arrow_batch_for_schema_id lib None batch cf"

definition matches_row :: "'x compiled_filter \<Rightarrow> typed_row_batch \<Rightarrow> nat \<Rightarrow> bool" where
  "matches_row cf batch row =
     (if cf_sql cf = [] then row < length batch
      else if cf_predicates cf = [] then False
      else if length batch \<le> row then False
      else list_all (\<lambda>p. predicate_matches p batch row) (cf_predicates cf))"

definition matches_structured_json :: "('x, 'c) filter_lib \<Rightarrow> 'x compiled_filter \<Rightarrow> bytes option \<Rightarrow> bool" where
  "matches_structured_json lib cf json =
     (if cf_sql cf = [] then True
      else if cf_predicates cf = [] then False
      else case json of
             None \<Rightarrow> False
           | Some json \<Rightarrow>
               (case fl_from_slice lib json of
                  None \<Rightarrow> False
                | Some v \<Rightarrow>
                    (case batch_from_json v (cf_predicates cf) of
                       None \<Rightarrow> False
                     | Some batch \<Rightarrow> matches_row cf batch 0)))"

datatype filter_decision = Deliver | Drop | ArrowIpcBatch nat nat

fun should_deliver :: "filter_decision \<Rightarrow> bool" where
  "should_deliver Deliver = True"
| "should_deliver Drop = False"
| "should_deliver (ArrowIpcBatch row_count matching_rows) = (0 < matching_rows)"

definition evaluate_json_decoded_record ::
    "('x, 'c) filter_lib \<Rightarrow> 'x compiled_filter \<Rightarrow> bytes option \<Rightarrow> filter_decision" where
  "evaluate_json_decoded_record lib cf json =
     (if cf_sql cf = [] then Deliver else if matches_structured_json lib cf json then Deliver else Drop)"

definition ARROW_IPC_CONTINUATION_MARKER :: bytes where
  "ARROW_IPC_CONTINUATION_MARKER = [0xFF, 0xFF, 0xFF, 0xFF]"

definition arrow_ipc_stream_reader ::
    "('x, 'c) filter_lib \<Rightarrow> bytes \<Rightarrow> (string + 'c record_batch) list option" where
  "arrow_ipc_stream_reader lib value =
     (let framed = (if take 4 value = ARROW_IPC_CONTINUATION_MARKER then drop 4 value else value) in
      if length framed < 4 then None
      else let len = i32_from_be_bytes (framed ! 3) (framed ! 2) (framed ! 1) (framed ! 0) in
           if len < 0 then None
           else if len = 0 \<or> length (drop 4 framed) < nat len then None
           else fl_stream lib value)"

fun count_matching ::
    "('x, 'c) filter_lib \<Rightarrow> (string + 'c record_batch) list \<Rightarrow> nat \<Rightarrow> nat \<Rightarrow> 'x compiled_filter \<Rightarrow>
     (filter_error + filter_decision) \<times> 'x compiled_filter" where
  "count_matching lib [] row_count matching_rows cf = (Ok (ArrowIpcBatch row_count matching_rows), cf)"
| "count_matching lib (Err e # bs) row_count matching_rows cf = (Err (DataFusion e), cf)"
| "count_matching lib (Ok batch # bs) row_count matching_rows cf =
     (case evaluate_arrow_batch lib batch cf of
        (Err e, cf) \<Rightarrow> (Err e, cf)
      | (Ok m, cf) \<Rightarrow>
          count_matching lib bs (row_count + rb_num_rows batch) (matching_rows + length (filter id m)) cf)"

definition matches_arrow_ipc_record ::
    "('x, 'c) filter_lib \<Rightarrow> bytes \<Rightarrow> 'x compiled_filter \<Rightarrow>
     (filter_error + filter_decision option) \<times> 'x compiled_filter" where
  "matches_arrow_ipc_record lib value cf =
     (case arrow_ipc_stream_reader lib value of
        None \<Rightarrow> (Ok None, cf)
      | Some reader \<Rightarrow>
          (case count_matching lib reader 0 0 cf of
             (Err e, cf) \<Rightarrow> (Err e, cf)
           | (Ok d, cf) \<Rightarrow> (Ok (Some d), cf)))"

definition evaluate_decoded_record ::
    "('x, 'c) filter_lib \<Rightarrow> bytes option \<Rightarrow> bytes \<Rightarrow> 'x compiled_filter \<Rightarrow>
     (filter_error + filter_decision) \<times> 'x compiled_filter" where
  "evaluate_decoded_record lib json value cf =
     (if cf_sql cf = [] then (Ok Deliver, cf)
      else case matches_arrow_ipc_record lib value cf of
             (Ok (Some d), cf) \<Rightarrow> (Ok d, cf)
           | (Ok None, cf) \<Rightarrow>
               if cf_predicates cf = [] \<and> cf_sql cf \<noteq> [] then (Ok Drop, cf)
               else (Ok (evaluate_json_decoded_record lib cf json), cf)
           | (Err e, cf) \<Rightarrow> (Err e, cf))"

definition matches_decoded_record :: "('x, 'c) filter_lib \<Rightarrow> bytes option \<Rightarrow> bytes \<Rightarrow> 'x compiled_filter \<Rightarrow> bool" where
  "matches_decoded_record lib json value cf =
     (case fst (evaluate_decoded_record lib json value cf) of Ok d \<Rightarrow> should_deliver d | Err _ \<Rightarrow> False)"

end
