(* ===== verification/Gw_FilterLaws.thy ===== *)
theory Gw_FilterLaws
  imports Gw_Filter
begin

text \<open>
  What the filter component guarantees: the parser reads back every printed
  conjunction of comparisons, the evaluation on JSON rows is the conjunction of
  its comparisons, the guard on Arrow streams, and the cache of compiled filters.
\<close>

section \<open>Trimming\<close>

definition graphic :: "char \<Rightarrow> bool" where
  "graphic c \<longleftrightarrow> 33 \<le> code c \<and> code c \<le> 126"

definition tight :: "string \<Rightarrow> bool" where
  "tight s \<longleftrightarrow> s \<noteq> [] \<and> graphic (hd s) \<and> graphic (last s)"

lemma char_space: "char_of (32 :: nat) = CHR '' ''"
  using char_of_char[of "CHR '' ''"] by simp

lemma white_space_ends:
  "list_all (\<lambda>w. w \<noteq> [] \<and> \<not> graphic (hd w) \<and> \<not> graphic (last w)
     \<and> (code (hd w) = 32 \<or> code (last w) = 32 \<longrightarrow> w = '' '')) white_space"
  by (simp add: white_space_def graphic_def char_space)

lemma starts_with_Cons: "starts_with t s \<Longrightarrow> t \<noteq> [] \<Longrightarrow> s \<noteq> [] \<and> hd t = hd s"
  by (cases s; cases t) (auto simp: starts_with_def)

lemma strip_all_graphic:
  assumes "ws = white_space \<or> ws = map rev white_space" "s \<noteq> []" "graphic (hd s)"
  shows "strip_all ws s = s"
proof -
  have "w \<noteq> [] \<Longrightarrow> \<not> starts_with w s" if "w \<in> set ws" for w
  proof
    assume "w \<noteq> []" "starts_with w s"
    hence "hd w = hd s" using starts_with_Cons by blast
    moreover have "\<not> graphic (hd w)"
      using that assms(1) white_space_ends by (auto simp: list_all_iff hd_rev)
    ultimately show False using assms(3) by simp
  qed
  hence "find (\<lambda>w. w \<noteq> [] \<and> starts_with w s) ws = None" by (auto simp: find_None_iff)
  thus ?thesis by (subst strip_all.simps) simp
qed

lemma strip_all_space:
  assumes "ws = white_space \<or> ws = map rev white_space" "s \<noteq> []" "graphic (hd s)"
  shows "strip_all ws (CHR '' '' # s) = s"
proof -
  let ?P = "\<lambda>w. w \<noteq> [] \<and> starts_with w (CHR '' '' # s)"
  have space: "'' '' \<in> set white_space" by (simp add: white_space_def char_space)
  have only: "w = '' ''" if "w \<in> set ws" "?P w" for w
  proof -
    have h: "hd w = CHR '' ''" using that starts_with_Cons by fastforce
    hence "code (hd w) = 32" by simp
    thus ?thesis using that assms(1) white_space_ends
      by (elim disjE) (fastforce simp: list_all_iff, fastforce simp: list_all_iff hd_rev)
  qed
  have "'' '' \<in> set ws" using assms(1) space by force
  hence "\<exists>w\<in>set ws. ?P w" by (intro bexI[of _ "'' ''"]) (simp_all add: starts_with_def)
  then obtain w where "find ?P ws = Some w" by (cases "find ?P ws") (auto simp: find_None_iff)
  moreover from this have "w = '' ''" using only by (auto simp: find_Some_iff)
  ultimately have "strip_all ws (CHR '' '' # s) = strip_all ws s" by (subst strip_all.simps) simp
  thus ?thesis using strip_all_graphic[OF assms] by simp
qed

lemma trim_tight [simp]:
  assumes "tight s"
  shows "trim s = s" "trim (s @ '' '') = s" "trim (CHR '' '' # s) = s" "trim (CHR '' '' # s @ '' '') = s"
proof -
  have s: "s \<noteq> []" "graphic (hd s)" "rev s \<noteq> []" "graphic (hd (rev s))"
    using assms by (auto simp: tight_def hd_rev)
  have e: "trim_end s = s" "trim_end (s @ '' '') = s"
    using strip_all_graphic[of "map rev white_space" "rev s"] strip_all_space[of "map rev white_space" "rev s"] s
    by (simp_all add: trim_end_def)
  have b: "trim_start s = s" "trim_start ('' '' @ s) = s" "trim_start (s @ '' '') = s @ '' ''"
    "trim_start ('' '' @ s @ '' '') = s @ '' ''"
    using strip_all_graphic[of white_space s] strip_all_space[of white_space s]
      strip_all_graphic[of white_space "s @ '' ''"] strip_all_space[of white_space "s @ '' ''"] s
    by (simp_all add: trim_start_def)
  show "trim s = s" "trim (s @ '' '') = s" "trim (CHR '' '' # s) = s" "trim (CHR '' '' # s @ '' '') = s"
    using e b by (simp_all add: trim_def)
qed

section \<open>Scanning\<close>

lemma scan_append:
  "t = [] \<or> hd t \<noteq> quote \<Longrightarrow>
     scan i b (s @ t) = (fst (scan i b s) @ fst (scan (i + length s) (snd (scan i b s)) t),
                         snd (scan (i + length s) (snd (scan i b s)) t))"
proof (induction i b s rule: scan.induct)
  case (2 i b c cs)
  have f: "first_char (cs @ t) = Some quote \<longleftrightarrow> first_char cs = Some quote"
    using 2(5) by (cases cs; cases t) (auto simp: first_char_def)
  show ?case
  proof (cases "c = quote")
    case True
    show ?thesis
    proof (cases "b \<and> first_char cs = Some quote")
      case y: True
      then obtain ds where ds: "cs = quote # ds" by (cases cs) (auto simp: first_char_def)
      show ?thesis using 2(1)[OF True y 2(5)] True y f by (simp add: ds)
    next
      case n: False
      show ?thesis using 2(2)[OF True n 2(5)] True n f by auto
    qed
  next
    case False
    thus ?thesis using 2(3,4,5) by (cases b) (auto split: prod.splits)
  qed
qed simp

lemma scan_plain: "quote \<notin> set s \<Longrightarrow> scan i False s = ([i..<i + length s], False)"
proof (induction s arbitrary: i)
  case (Cons c s)
  have "[i..<i + length (c # s)] = i # [Suc i..<Suc i + length s]"
    using upt_conv_Cons[of i "i + length (c # s)"] by simp
  thus ?case using Cons by (auto simp del: upt_Suc)
qed simp

definition escape_quotes :: "string \<Rightarrow> string" where
  "escape_quotes s = concat (map (\<lambda>c. if c = quote then [quote, quote] else [c]) s)"

lemma scan_escaped: "scan i True (escape_quotes s @ [quote]) = ([], False)"
proof (induction s arbitrary: i)
  case Nil
  show ?case by (simp add: escape_quotes_def first_char_def)
next
  case (Cons c s)
  show ?case using Cons by (simp add: escape_quotes_def first_char_def)
qed

lemma unescape_escape: "unescape_quotes (escape_quotes s) = s"
proof (induction s)
  case (Cons c s)
  have "first_char (escape_quotes s) = Some quote \<Longrightarrow> \<exists>s'. s = quote # s'"
    by (cases s) (auto simp: escape_quotes_def first_char_def split: if_splits)
  show ?case using Cons by (cases "c = quote") (simp_all add: escape_quotes_def first_char_def)
qed (simp add: escape_quotes_def)

section \<open>Words\<close>

definition ident_at :: "string \<Rightarrow> nat \<Rightarrow> bool" where
  "ident_at s i \<longleftrightarrow> i < length s \<and> is_identifier_char (s ! i)"

text \<open>A maximal run of identifier characters.\<close>

definition word_at :: "string \<Rightarrow> nat \<Rightarrow> nat \<Rightarrow> bool" where
  "word_at s i n \<longleftrightarrow> 0 < n \<and> (\<forall>k<n. ident_at s (i + k)) \<and> (i = 0 \<or> \<not> ident_at s (i - 1)) \<and> \<not> ident_at s (i + n)"

lemma word_boundary_at:
  assumes "i + n \<le> length s"
  shows "word_boundary s i n \<longleftrightarrow> (i = 0 \<or> \<not> ident_at s (i - 1)) \<and> \<not> ident_at s (i + n)"
proof -
  have "last_char (take i s) = (if i = 0 then None else Some (s ! (i - 1)))"
    using assms by (auto simp: last_char_def last_conv_nth)
  moreover have "first_char (drop (i + n) s) = (if i + n < length s then Some (s ! (i + n)) else None)"
    using assms by (auto simp: first_char_def Cons_nth_drop_Suc[symmetric] split: list.splits)
  ultimately show ?thesis using assms by (auto simp: word_boundary_def ident_at_def)
qed

lemma word_unique:
  assumes "word_at s i n" "word_at s j m" "j \<le> i" "i < j + m"
  shows "i = j \<and> n = m"
proof -
  have "i = j"
  proof (rule ccontr)
    assume "i \<noteq> j"
    hence "i - 1 = j + (i - 1 - j)" "i - 1 - j < m" "i \<noteq> 0" using assms(3,4) by auto
    thus False using assms(1,2) unfolding word_at_def by metis
  qed
  moreover have "n = m"
    using assms(1,2) calculation unfolding word_at_def by (metis linorder_neqE_nat)
  ultimately show ?thesis by simp
qed

definition word_string :: "string \<Rightarrow> bool" where
  "word_string k \<longleftrightarrow> k \<noteq> [] \<and> list_all is_identifier_char k"

lemma ident_lower: "is_identifier_char c \<longleftrightarrow> is_identifier_char (to_ascii_lowercase c)"
proof (cases "65 \<le> code c \<and> code c \<le> 90")
  case True
  hence "of_char (char_of (code c + 32) :: char) = code c + 32" by simp
  moreover have "c \<noteq> CHR ''_''" using True by auto
  moreover have "char_of (code c + 32) \<noteq> CHR ''_'' \<or> True" by simp
  ultimately show ?thesis using True
    by (auto simp: to_ascii_lowercase_def is_identifier_char_def is_ascii_alphanumeric_def is_ascii_alphabetic_def)
qed (auto simp: to_ascii_lowercase_def)

lemma keyword_word:
  assumes "starts_with_keyword_at s i k" "word_string k"
  shows "word_at s i (length k) \<and> eq_ignore_ascii_case (slice i (i + length k) s) k"
proof -
  have l: "i + length k \<le> length s" and e: "eq_ignore_ascii_case (slice i (i + length k) s) k"
    and b: "word_boundary s i (length k)" using assms(1) by (auto simp: starts_with_keyword_at_def)
  have "is_identifier_char (s ! (i + j))" if "j < length k" for j
  proof -
    have "map to_ascii_lowercase (take (length k) (drop i s)) ! j = map to_ascii_lowercase k ! j"
      using e by (simp add: eq_ignore_ascii_case_def slice_def)
    hence "to_ascii_lowercase (s ! (i + j)) = to_ascii_lowercase (k ! j)" using that l by simp
    thus ?thesis using that assms(2) by (metis ident_lower list_all_length word_string_def)
  qed
  thus ?thesis using b l e assms(2)
    by (auto simp: word_at_def word_boundary_at ident_at_def word_string_def)
qed

lemma field_reference_word:
  assumes "starts_with_field_reference s i k" "word_string k"
  shows "word_at s i (length k) \<and> slice i (i + length k) s = k"
proof -
  have t: "take (length k) (drop i s) = k" and b: "word_boundary s i (length k)"
    using assms(1) by (auto simp: starts_with_field_reference_def starts_with_def)
  have "length (take (length k) (drop i s)) = length k" by (simp only: t)
  moreover have "1 \<le> length k" using assms(2) by (cases k) (auto simp: word_string_def)
  ultimately have l: "i + length k \<le> length s" by (auto simp: min_def split: if_splits)
  have "s ! (i + j) = k ! j" if "j < length k" for j
    using arg_cong[OF t, of "\<lambda>x. x ! j"] that l by simp
  thus ?thesis using b l t assms(2)
    by (auto simp: word_at_def word_boundary_at ident_at_def word_string_def slice_def list_all_length)
qed

section \<open>Printing\<close>

fun operator_token :: "comparison_operator \<Rightarrow> string" where
  "operator_token NotEqual = ''!=''"
| "operator_token GreaterThanOrEqual = ''>=''"
| "operator_token LessThanOrEqual = ''<=''"
| "operator_token Equal = ''=''"
| "operator_token GreaterThan = ''>''"
| "operator_token LessThan = ''<''"

fun print_literal :: "filter_value \<Rightarrow> string" where
  "print_literal (FilterString s) = quote # escape_quotes s @ [quote]"
| "print_literal (FilterNumber (Integer n)) = show_int n"
| "print_literal (FilterNumber (Float x)) = []"
| "print_literal (FilterBool b) = (if b then ''true'' else ''false'')"
| "print_literal FilterNull = ''null''"

definition print_predicate :: "predicate \<Rightarrow> string" where
  "print_predicate p =
     as_top_level_name (pd_field p) @ '' '' @ operator_token (pd_operator p) @ '' '' @ print_literal (pd_expected p)"

definition print_predicates :: "predicate list \<Rightarrow> string" where
  "print_predicates ps = join '' AND '' (map print_predicate ps)"

fun printable_literal :: "filter_value \<Rightarrow> bool" where
  "printable_literal (FilterNumber (Integer n)) = (i64_MIN \<le> n \<and> n \<le> u64_MAX)"
| "printable_literal (FilterNumber (Float x)) = False"
| "printable_literal _ = True"

text \<open>
  The comparisons the grammar can express: one plain field name that is not the
  keyword, a literal in range, and an ordered operator only on strings and numbers.
\<close>

definition printable :: "predicate \<Rightarrow> bool" where
  "printable p \<longleftrightarrow> (case pd_field p of FieldPath [f] \<Rightarrow> is_identifier f \<and> \<not> eq_ignore_ascii_case f ''AND'' | _ \<Rightarrow> False)
     \<and> printable_literal (pd_expected p) \<and> accepts_literal (pd_operator p) (pd_expected p)"

section \<open>Literals read back\<close>

lemma digit_char_digit: "d < 10 \<Longrightarrow> is_ascii_digit (digit_char d) \<and> code (digit_char d) - 48 = d"
  by (simp add: digit_char_def is_ascii_digit_def)

lemma show_nat_digits: "list_all is_ascii_digit (show_nat n) \<and> show_nat n \<noteq> [] \<and> digits_value (show_nat n) = n"
proof (induction n rule: show_nat.induct)
  case (1 n)
  show ?case
  proof (cases "n < 10")
    case True
    thus ?thesis using digit_char_digit[of n] by (subst (1 2 3) show_nat.simps) (simp add: digits_value_def)
  next
    case False
    have "digits_value (show_nat (n div 10) @ [digit_char (n mod 10)]) = 10 * digits_value (show_nat (n div 10)) + n mod 10"
      using digit_char_digit[of "n mod 10"] by (simp add: digits_value_def)
    thus ?thesis using 1[OF False] False digit_char_digit[of "n mod 10"]
      by (subst (1 2 3) show_nat.simps) simp
  qed
qed

lemma parse_digits_show: "parse_digits (show_nat n) = Some n"
  using show_nat_digits[of n] by (simp add: parse_digits_def)

lemma digit_not_sign: "is_ascii_digit c \<Longrightarrow> c \<noteq> CHR ''-'' \<and> c \<noteq> CHR ''+''"
  by (auto simp: is_ascii_digit_def)

lemma parse_signed_show: "parse_signed (show_int n) = Some n"
proof (cases "n < 0")
  case True
  thus ?thesis by (simp add: show_int_def parse_signed_def parse_digits_show)
next
  case False
  obtain c cs where c: "show_nat (nat n) = c # cs" using show_nat_digits[of "nat n"] by (cases "show_nat (nat n)") auto
  hence "is_ascii_digit c" using show_nat_digits[of "nat n"] by simp
  thus ?thesis using False parse_digits_show[of "nat n"] digit_not_sign[of c] by (simp add: show_int_def parse_signed_def c)
qed

lemma parse_unsigned_show: "0 \<le> n \<Longrightarrow> parse_unsigned (show_int n) = Some n"
proof -
  assume n: "0 \<le> n"
  obtain c cs where c: "show_nat (nat n) = c # cs" using show_nat_digits[of "nat n"] by (cases "show_nat (nat n)") auto
  hence "is_ascii_digit c" using show_nat_digits[of "nat n"] by simp
  thus ?thesis using n parse_digits_show[of "nat n"] digit_not_sign[of c] by (simp add: show_int_def parse_unsigned_def c)
qed

lemma show_int_chars: "\<forall>c\<in>set (show_int n). is_ascii_digit c \<or> c = CHR ''-''"
  using show_nat_digits by (auto simp: show_int_def list_all_iff)

lemma show_int_nonempty: "show_int n \<noteq> []"
  using show_nat_digits by (simp add: show_int_def)

lemma numeric_parse_show:
  assumes "i64_MIN \<le> n" "n \<le> u64_MAX"
  shows "numeric_parse (show_int n) = Some (Integer n)"
proof -
  have "\<not> list_ex (\<lambda>c. c = CHR ''.'' \<or> c = CHR ''e'' \<or> c = CHR ''E'') (show_int n)"
    using show_int_chars[of n] by (force simp: list_ex_iff is_ascii_digit_def)
  moreover have "n \<le> i64_MAX \<or> 0 \<le> n" by (auto simp: i64_MAX_def)
  ultimately show ?thesis using assms
    by (auto simp: numeric_parse_def parse_i64_def parse_u64_def parse_signed_show parse_unsigned_show in_bounds_def)
qed

lemma parse_quoted_print: "parse_quoted_string (quote # escape_quotes s @ [quote]) = Ok (Some s)"
  by (simp add: parse_quoted_string_def starts_with_def ends_with_def slice_def unescape_escape)

lemma not_keyword_literal:
  assumes "s \<noteq> []" "\<not> is_ascii_alphabetic (hd s)"
  shows "\<not> eq_ignore_ascii_case s ''true''" "\<not> eq_ignore_ascii_case s ''false''" "\<not> eq_ignore_ascii_case s ''null''"
proof -
  have "to_ascii_lowercase (hd s) = hd s"
    using assms by (auto simp: to_ascii_lowercase_def is_ascii_alphabetic_def)
  hence "hd (map to_ascii_lowercase s) = hd s" using assms(1) by (simp add: hd_map)
  moreover have "hd s \<notin> set ''tfn''" using assms(2) by (auto simp: is_ascii_alphabetic_def)
  ultimately show "\<not> eq_ignore_ascii_case s ''true''" "\<not> eq_ignore_ascii_case s ''false''" "\<not> eq_ignore_ascii_case s ''null''"
    by (auto simp: eq_ignore_ascii_case_def to_ascii_lowercase_def)
qed

lemma filter_value_parse_print:
  assumes "printable_literal v" "trim (print_literal v) = print_literal v"
  shows "filter_value_parse (print_literal v) = Ok v"
proof (cases v)
  case (FilterString s)
  have "\<not> is_ascii_alphabetic quote" by (simp add: is_ascii_alphabetic_def)
  with FilterString not_keyword_literal[of "print_literal v"] show ?thesis
    using assms(2) parse_quoted_print[of s] by (simp add: filter_value_parse_def Let_def)
next
  case (FilterNumber x)
  then obtain n where n: "x = Integer n" "i64_MIN \<le> n" "n \<le> u64_MAX" using assms(1) by (cases x) auto
  have h: "hd (show_int n) \<in> set (show_int n)" using show_int_nonempty by simp
  hence "\<not> is_ascii_alphabetic (hd (show_int n))" "hd (show_int n) \<noteq> quote"
    using show_int_chars[of n] by (force simp: is_ascii_alphabetic_def is_ascii_digit_def)+
  moreover have "\<not> starts_with [quote] (show_int n)" using calculation(2) show_int_nonempty[of n]
    by (cases "show_int n") (auto simp: starts_with_def)
  ultimately show ?thesis using FilterNumber n assms(2) not_keyword_literal[of "show_int n"] show_int_nonempty
    by (simp add: filter_value_parse_def Let_def parse_quoted_string_def numeric_parse_show)
qed (use assms(2) in \<open>auto simp: filter_value_parse_def Let_def eq_ignore_ascii_case_def to_ascii_lowercase_def\<close>)

section \<open>Clauses\<close>

lemma scan_append_plain:
  "quote \<notin> set s \<Longrightarrow> scan i False (s @ t) =
     ([i..<i + length s] @ fst (scan (i + length s) False t), snd (scan (i + length s) False t))"
proof (induction s arbitrary: i)
  case (Cons c s)
  have "[i..<i + length (c # s)] = i # [Suc i..<Suc i + length s]"
    using upt_conv_Cons[of i "i + length (c # s)"] by simp
  thus ?case using Cons by (auto simp del: upt_Suc)
qed simp

lemma scan_literal:
  assumes "printable_literal v"
  shows "scan i False (print_literal v) =
    (if (\<exists>s. v = FilterString s) then [] else [i..<i + length (print_literal v)], False)"
proof (cases "\<exists>s. v = FilterString s")
  case True
  thus ?thesis using scan_escaped by auto
next
  case False
  have "quote \<notin> set (print_literal v)"
  proof (cases v)
    case (FilterNumber x)
    then obtain n where "x = Integer n" using assms by (cases x) auto
    thus ?thesis using FilterNumber show_int_chars[of n] by (auto simp: is_ascii_digit_def)
  qed (use False in auto)
  thus ?thesis using False scan_plain by simp
qed

lemma identifier_facts:
  assumes "is_identifier f"
  shows "word_string f" "tight f" "quote \<notin> set f" "\<forall>c\<in>set f. c \<notin> set ''!=<> .''"
proof -
  obtain c cs where f: "f = c # cs" and c: "c = CHR ''_'' \<or> is_ascii_alphabetic c"
    and cs: "list_all (\<lambda>c. c = CHR ''_'' \<or> is_ascii_alphanumeric c) cs"
    using assms by (cases f) (auto simp: is_identifier_def)
  have all: "\<forall>x\<in>set f. is_identifier_char x"
    using c cs by (auto simp: f is_identifier_char_def is_ascii_alphanumeric_def list_all_iff)
  have g: "is_identifier_char x \<Longrightarrow> graphic x \<and> x \<notin> set ''!=<> .'' \<and> x \<noteq> quote" for x
    by (auto simp: is_identifier_char_def is_ascii_alphanumeric_def is_ascii_alphabetic_def is_ascii_digit_def graphic_def)
  show "word_string f" using all by (simp add: word_string_def f list_all_iff)
  show "tight f" using all g last_in_set[of f] by (simp add: tight_def f)
  show "quote \<notin> set f" "\<forall>c\<in>set f. c \<notin> set ''!=<> .''" using all g by blast+
qed

lemma slice_append [simp]: "slice (length a) (length a + length w) (a @ w @ b) = w"
  by (simp add: slice_def)

lemma word_at_append:
  assumes "word_string w" "a = [] \<or> \<not> is_identifier_char (last a)" "b = [] \<or> \<not> is_identifier_char (hd b)"
  shows "word_at (a @ w @ b) (length a) (length w)"
proof -
  have "ident_at (a @ w @ b) (length a + k)" if "k < length w" for k
    using assms(1) that by (auto simp: ident_at_def nth_append word_string_def list_all_length)
  moreover have "a \<noteq> [] \<Longrightarrow> \<not> ident_at (a @ w @ b) (length a - 1)"
    using assms(2) by (auto simp: ident_at_def nth_append last_conv_nth)
  moreover have "\<not> ident_at (a @ w @ b) (length a + length w)"
    using assms(3) by (cases b) (auto simp: ident_at_def nth_append)
  ultimately show ?thesis using assms(1) by (auto simp: word_at_def word_string_def)
qed

lemma word_in_append:
  assumes "word_at (a @ w @ b) i n" "length a \<le> i" "i < length a + length w"
    and "word_string w" "a = [] \<or> \<not> is_identifier_char (last a)" "b = [] \<or> \<not> is_identifier_char (hd b)"
  shows "slice i (i + n) (a @ w @ b) = w"
  using word_unique[OF assms(1) word_at_append[OF assms(4-6)] assms(2,3)] by simp

lemma token_not_ident: "\<forall>c\<in>set (operator_token op). \<not> is_identifier_char c"
  by (cases op) (auto simp: is_identifier_char_def is_ascii_alphanumeric_def is_ascii_alphabetic_def is_ascii_digit_def)

lemma not_ident_misc: "\<not> is_identifier_char CHR '' ''" "\<not> is_identifier_char CHR ''-''" "\<not> is_identifier_char quote"
  by (simp_all add: is_identifier_char_def is_ascii_alphanumeric_def is_ascii_alphabetic_def is_ascii_digit_def)

definition plain_word :: "string \<Rightarrow> bool" where
  "plain_word w \<longleftrightarrow> w \<in> {''true'', ''false'', ''null''} \<or> list_all is_ascii_digit w"

lemma literal_word:
  assumes v: "printable_literal v" "\<nexists>s. v = FilterString s"
    and w: "word_at (a @ print_literal v @ b) i n" "length a \<le> i" "i < length a + length (print_literal v)"
    and ab: "a \<noteq> []" "last a = CHR '' ''" "b = [] \<or> hd b = CHR '' ''"
  shows "plain_word (slice i (i + n) (a @ print_literal v @ b))"
proof -
  have b: "b = [] \<or> \<not> is_identifier_char (hd b)" and a: "a = [] \<or> \<not> is_identifier_char (last a)"
    using ab not_ident_misc by auto
  have whole: "plain_word (slice i (i + n) (a @ print_literal v @ b))"
    if "word_string (print_literal v)" "plain_word (print_literal v)"
    using word_in_append[OF w that(1) a b] that(2) by simp
  have dig: "word_string (show_nat m)" "plain_word (show_nat m)" for m
    using show_nat_digits[of m]
    by (auto simp: word_string_def plain_word_def list_all_iff is_identifier_char_def is_ascii_alphanumeric_def)
  show ?thesis
  proof (cases v)
    case (FilterNumber x)
    then obtain m where m: "x = Integer m" using v by (cases x) auto
    show ?thesis
    proof (cases "m < 0")
      case False
      thus ?thesis using whole dig FilterNumber m by (simp add: show_int_def)
    next
      case True
      hence l: "print_literal v = ''-'' @ show_nat (nat (- m))" by (simp add: FilterNumber m show_int_def)
      have "i \<noteq> length a"
        using w(1) not_ident_misc(2) by (auto simp: word_at_def ident_at_def l nth_append)
      hence i: "length (a @ ''-'') \<le> i" "i < length (a @ ''-'') + length (show_nat (nat (- m)))" using w(2,3) l by auto
      have "slice i (i + n) ((a @ ''-'') @ show_nat (nat (- m)) @ b) = show_nat (nat (- m))"
        by (rule word_in_append[OF _ i dig(1)]) (use w(1) b not_ident_misc in \<open>auto simp: l\<close>)
      thus ?thesis using dig(2) by (simp add: l)
    qed
  next
    case (FilterBool x)
    thus ?thesis using whole
      by (auto simp: word_string_def plain_word_def is_identifier_char_def is_ascii_alphanumeric_def is_ascii_alphabetic_def)
  next
    case FilterNull
    thus ?thesis using whole
      by (auto simp: word_string_def plain_word_def is_identifier_char_def is_ascii_alphanumeric_def is_ascii_alphabetic_def)
  qed (use v in auto)
qed

text \<open>The shape of a printed predicate, and its words.\<close>

lemma printableD:
  assumes "printable p"
  obtains f where "pd_field p = FieldPath [f]" "is_identifier f" "\<not> eq_ignore_ascii_case f ''AND''"
    "printable_literal (pd_expected p)" "accepts_literal (pd_operator p) (pd_expected p)"
    "print_predicate p = (f @ '' '' @ operator_token (pd_operator p) @ '' '') @ print_literal (pd_expected p)"
  using assms by (auto simp: printable_def print_predicate_def split: field_path.splits list.splits)

lemma head_no_quote: "is_identifier f \<Longrightarrow> quote \<notin> set (f @ '' '' @ operator_token op @ '' '')"
  using identifier_facts(3) by (cases op) auto

lemma scan_predicate:
  assumes "printable p"
  shows "\<exists>ps. scan i False (print_predicate p) = (ps, False) \<and>
    (\<forall>j\<in>set ps. i \<le> j \<and> j < i + length (print_predicate p)
       \<and> ((\<exists>s. pd_expected p = FilterString s) \<longrightarrow>
            j < i + length (print_predicate p) - length (print_literal (pd_expected p))))"
proof -
  from assms obtain f where f: "is_identifier f" "printable_literal (pd_expected p)"
    "print_predicate p = (f @ '' '' @ operator_token (pd_operator p) @ '' '') @ print_literal (pd_expected p)"
    by (rule printableD)
  show ?thesis
    unfolding f(3) scan_append_plain[OF head_no_quote[OF f(1)]] scan_literal[OF f(2)] by auto
qed

lemma nth_middle_eq: "\<lbrakk>length a \<le> i; i < length a + length m\<rbrakk> \<Longrightarrow> (a @ m @ b) ! i = m ! (i - length a)"
  by (auto simp: nth_append)

lemma nth_middle: "\<lbrakk>length a \<le> i; i < length a + length m\<rbrakk> \<Longrightarrow> (a @ m @ b) ! i \<in> set m"
  by (auto simp: nth_append)

lemma clause_word:
  assumes p: "printable p" and i: "i \<in> set (fst (scan (length pre) False (print_predicate p)))"
    and ctx: "pre = [] \<or> last pre = CHR '' ''" "post = [] \<or> hd post = CHR '' ''"
    and w: "word_at (pre @ print_predicate p @ post) i n"
  shows "slice i (i + n) (pre @ print_predicate p @ post) = as_top_level_name (pd_field p)
       \<or> plain_word (slice i (i + n) (pre @ print_predicate p @ post))"
proof -
  from p obtain f where f: "pd_field p = FieldPath [f]" "is_identifier f" "printable_literal (pd_expected p)"
    "print_predicate p = (f @ '' '' @ operator_token (pd_operator p) @ '' '') @ print_literal (pd_expected p)"
    by (rule printableD)
  let ?mid = "'' '' @ operator_token (pd_operator p) @ '' ''" and ?lit = "print_literal (pd_expected p)"
  have s: "pre @ print_predicate p @ post = pre @ f @ (?mid @ ?lit @ post)"
    "pre @ print_predicate p @ post = (pre @ f @ ?mid) @ ?lit @ post"
    "pre @ print_predicate p @ post = (pre @ f) @ ?mid @ (?lit @ post)"
    by (simp_all add: f(4))
  have range: "length pre \<le> i" "i < length pre + length (print_predicate p)"
    "(\<exists>s. pd_expected p = FilterString s) \<longrightarrow> i < length (pre @ f @ ?mid)"
    using scan_predicate[OF p, of "length pre"] i by (auto simp: f(4))
  have id0: "is_identifier_char ((pre @ print_predicate p @ post) ! i)"
    using w by (auto simp: word_at_def ident_at_def dest: spec[of _ 0])
  consider "i < length pre + length f" | "length pre + length f \<le> i" "i < length (pre @ f @ ?mid)"
    | "length (pre @ f @ ?mid) \<le> i" by linarith
  thus ?thesis
  proof cases
    case 1
    have "slice i (i + n) (pre @ f @ (?mid @ ?lit @ post)) = f"
      by (rule word_in_append[OF _ range(1) 1 identifier_facts(1)[OF f(2)]])
        (use w s(1) ctx not_ident_misc in auto)
    thus ?thesis by (simp add: s(1) f(1))
  next
    case 2
    hence "(pre @ print_predicate p @ post) ! i \<in> set ?mid"
      unfolding s(3) by (intro nth_middle) auto
    thus ?thesis using id0 token_not_ident[of "pd_operator p"] not_ident_misc by auto
  next
    case 3
    hence "\<nexists>s. pd_expected p = FilterString s" using range(3) by (metis leD)
    moreover have "i < length (pre @ f @ ?mid) + length ?lit" using range(2) by (simp add: f(4))
    ultimately have "plain_word (slice i (i + n) ((pre @ f @ ?mid) @ ?lit @ post))"
      by (intro literal_word[OF f(3)]) (use w s(2) 3 ctx(2) in auto)
    thus ?thesis unfolding s(2) by blast
  qed
qed

lemma plain_word_not:
  "plain_word w \<Longrightarrow> \<not> eq_ignore_ascii_case w ''AND''" "plain_word w \<Longrightarrow> w \<noteq> RESERVED_ROW_MARKER_FIELD"
proof -
  assume w: "plain_word w"
  show "\<not> eq_ignore_ascii_case w ''AND''"
  proof
    assume e: "eq_ignore_ascii_case w ''AND''"
    have "length w = 3" using arg_cong[OF e[unfolded eq_ignore_ascii_case_def], of length] by simp
    hence "list_all is_ascii_digit w" "w \<noteq> []" using w by (auto simp: plain_word_def)
    then obtain c cs where c: "w = c # cs" "is_ascii_digit c" by (cases w) auto
    hence "to_ascii_lowercase c = c" by (auto simp: to_ascii_lowercase_def is_ascii_digit_def)
    thus False using e c by (auto simp: eq_ignore_ascii_case_def to_ascii_lowercase_def is_ascii_digit_def)
  qed
  show "w \<noteq> RESERVED_ROW_MARKER_FIELD"
    using w by (auto simp: plain_word_def RESERVED_ROW_MARKER_FIELD_def is_ascii_digit_def)
qed

lemma no_keyword_in_clause:
  assumes "printable p" "i \<in> set (fst (scan (length pre) False (print_predicate p)))"
    and "pre = [] \<or> last pre = CHR '' ''" "post = [] \<or> hd post = CHR '' ''"
  shows "\<not> starts_with_keyword_at (pre @ print_predicate p @ post) i ''AND''"
proof
  assume k: "starts_with_keyword_at (pre @ print_predicate p @ post) i ''AND''"
  have "word_string ''AND''"
    by (simp add: word_string_def is_identifier_char_def is_ascii_alphanumeric_def is_ascii_alphabetic_def)
  note kw = keyword_word[OF k this]
  from assms(1) obtain f where "pd_field p = FieldPath [f]" "\<not> eq_ignore_ascii_case f ''AND''" by (rule printableD)
  thus False using clause_word[OF assms conjunct1[OF kw]] kw plain_word_not(1) by auto
qed

section \<open>Splitting\<close>

fun pieces :: "string \<Rightarrow> string list \<Rightarrow> string list" where
  "pieces lead [] = []"
| "pieces lead [c] = [lead @ c]"
| "pieces lead (c # d # cs) = (lead @ c @ '' '') # pieces '' '' (d # cs)"

lemma and_keyword:
  "pre = [] \<or> last pre = CHR '' '' \<Longrightarrow> post = [] \<or> hd post = CHR '' '' \<Longrightarrow>
     starts_with_keyword_at (pre @ ''AND'' @ post) (length pre) ''AND''"
  using not_ident_misc
  by (auto simp: starts_with_keyword_at_def word_boundary_def slice_def eq_ignore_ascii_case_def last_char_def first_char_def
      split: list.splits)

lemma not_keyword_char:
  assumes "i < length s" "to_ascii_lowercase (s ! i) \<noteq> CHR ''a''"
  shows "\<not> starts_with_keyword_at s i ''AND''"
proof
  assume k: "starts_with_keyword_at s i ''AND''"
  hence "map to_ascii_lowercase (take 3 (drop i s)) ! 0 = map to_ascii_lowercase ''AND'' ! 0"
    by (simp add: starts_with_keyword_at_def eq_ignore_ascii_case_def slice_def numeral_3_eq_3)
  moreover have "to_ascii_lowercase CHR ''A'' = CHR ''a''"
    using char_of_char[of "CHR ''a''"] by (simp add: to_ascii_lowercase_def)
  ultimately show False using assms by simp
qed

lemma filter_upt_one:
  assumes "P i" "\<And>j. a \<le> j \<Longrightarrow> j < b \<Longrightarrow> j \<noteq> i \<Longrightarrow> \<not> P j" "a \<le> i" "i < b"
  shows "filter P [a..<b] = [i]"
proof -
  have "[a..<b] = [a..<i] @ [i] @ [Suc i..<b]"
    using assms(3,4) by (metis append_Cons append_Nil less_imp_le_nat upt_add_eq_append upt_conv_Cons le_add_diff_inverse)
  moreover have "filter P [a..<i] = []" "filter P [Suc i..<b] = []"
    using assms by (auto simp: filter_empty_conv)
  ultimately show ?thesis using assms(1) by simp
qed

lemma split_printed:
  assumes "ps \<noteq> []" "list_all printable ps" "pre = [] \<or> last pre = CHR '' ''" "start \<le> length pre"
    "sql = pre @ print_predicates ps"
  shows "\<exists>qs. scan (length pre) False (print_predicates ps) = (qs, False)
    \<and> cut_clauses sql start (filter (\<lambda>i. starts_with_keyword_at sql i ''AND'') qs)
        = pieces (drop start pre) (map print_predicate ps)"
  using assms
proof (induction ps arbitrary: pre start)
  case (Cons p ps)
  have p: "printable p" using Cons.prems by simp
  obtain cp where cp: "scan (length pre) False (print_predicate p) = (cp, False)"
    using scan_predicate[OF p] by blast
  show ?case
  proof (cases ps)
    case Nil
    have "\<not> starts_with_keyword_at sql i ''AND''" if "i \<in> set cp" for i
      using no_keyword_in_clause[OF p, of i pre "[]"] that cp Cons.prems(3,5) Nil by (simp add: print_predicates_def)
    hence "filter (\<lambda>i. starts_with_keyword_at sql i ''AND'') cp = []" by (simp add: filter_empty_conv)
    thus ?thesis using cp Cons.prems Nil by (simp add: print_predicates_def)
  next
    case (Cons p2 ps2)
    let ?c = "print_predicate p" and ?R = "print_predicates ps"
    let ?pre = "pre @ ?c @ '' AND ''"
    have pr: "print_predicates (p # ps) = ?c @ '' AND '' @ ?R" by (simp add: print_predicates_def Cons)
    have sql: "sql = pre @ ?c @ '' AND '' @ ?R" using Cons.prems(5) pr by simp
    obtain qs where qs: "scan (length ?pre) False ?R = (qs, False)"
      and cut: "cut_clauses sql (length pre + length ?c + 4) (filter (\<lambda>i. starts_with_keyword_at sql i ''AND'') qs)
        = pieces (drop (length pre + length ?c + 4) ?pre) (map print_predicate ps)"
      using Cons.IH[of ?pre "length pre + length ?c + 4"] Cons.prems sql Cons by auto
    have lead: "drop (length pre + length ?c + 4) ?pre = '' ''" by simp
    define i0 where "i0 = length pre + length ?c"
    have sc: "scan (length pre) False (print_predicates (p # ps)) = (cp @ [i0..<i0 + 5] @ qs, False)"
    proof -
      have "scan (length pre) False (?c @ ('' AND '' @ ?R)) = (cp @ fst (scan i0 False ('' AND '' @ ?R)), snd (scan i0 False ('' AND '' @ ?R)))"
        by (subst scan_append) (simp_all add: cp i0_def)
      moreover have "scan i0 False ('' AND '' @ ?R) = ([i0..<i0 + 5] @ qs, False)"
      proof -
        have l: "i0 + length '' AND '' = length ?pre" "i0 + length '' AND '' = i0 + 5" by (simp_all add: i0_def)
        have "scan i0 False ('' AND '' @ ?R) = ([i0..<i0 + length '' AND ''] @ fst (scan (i0 + length '' AND '') False ?R),
            snd (scan (i0 + length '' AND '') False ?R))"
          by (rule scan_append_plain) simp
        thus ?thesis unfolding l(1) qs unfolding l(1)[symmetric] l(2) by simp
      qed
      ultimately show ?thesis by (simp add: pr)
    qed
    have k1: "filter (\<lambda>i. starts_with_keyword_at sql i ''AND'') cp = []"
      using no_keyword_in_clause[OF p, of _ pre "'' AND '' @ ?R"] cp Cons.prems(3)
      by (auto simp: filter_empty_conv sql)
    have k2: "filter (\<lambda>i. starts_with_keyword_at sql i ''AND'') [i0..<i0 + 5] = [Suc i0]"
    proof (rule filter_upt_one)
      show "starts_with_keyword_at sql (Suc i0) ''AND''"
        using and_keyword[of "pre @ ?c @ '' ''" "'' '' @ ?R"] by (simp add: sql i0_def)
      fix j assume j: "i0 \<le> j" "j < i0 + 5" "j \<noteq> Suc i0"
      have "sql ! j = '' AND '' ! (j - i0)"
        using nth_middle_eq[of "pre @ ?c" j "'' AND ''" ?R] j by (simp add: sql i0_def)
      moreover have "j - i0 \<in> {0, 2, 3, 4}" using j by auto
      ultimately have "to_ascii_lowercase (sql ! j) \<noteq> CHR ''a''"
        using char_of_char[where 'a = nat and c = "CHR ''n''"] char_of_char[where 'a = nat and c = "CHR ''d''"]
        by (auto simp: to_ascii_lowercase_def)
      thus "\<not> starts_with_keyword_at sql j ''AND''" by (rule not_keyword_char[rotated]) (use j in \<open>simp add: sql i0_def\<close>)
    qed auto
    have "slice start (Suc i0) sql = drop start pre @ ?c @ '' ''"
      using Cons.prems(4) by (simp add: slice_def sql i0_def)
    thus ?thesis using cut lead sc k1 k2 by (simp add: Cons i0_def numeral_eq_Suc del: upt_Suc)
  qed
qed simp

section \<open>Operators\<close>

definition operator_char :: "char \<Rightarrow> bool" where
  "operator_char c \<longleftrightarrow> c \<in> set ''!=<>''"

abbreviation tokens :: "string list" where
  "tokens \<equiv> [''!='', ''>='', ''<='', ''='', ''>'', ''<'']"

lemma token_facts: "t \<in> set tokens \<Longrightarrow> t \<noteq> [] \<and> operator_char (hd t) \<and> length t \<le> 2"
  by (auto simp: operator_char_def)

lemma find_append: "find P (xs @ ys) = (case find P xs of Some x \<Rightarrow> Some x | None \<Rightarrow> find P ys)"
  by (induction xs) auto

lemma not_token_at:
  assumes "t \<in> set tokens" "j < length s" "\<not> operator_char (s ! j)"
  shows "\<not> starts_with t (drop j s)"
proof
  assume "starts_with t (drop j s)"
  hence "hd t = hd (drop j s)" using token_facts[OF assms(1)] starts_with_Cons by blast
  thus False using token_facts[OF assms(1)] assms(2,3) by (simp add: hd_drop_conv_nth)
qed

lemma find_no_token:
  assumes "t \<in> set tokens" "\<forall>j\<in>set ps. j < length s \<and> \<not> operator_char (s ! j)"
  shows "find (\<lambda>j. starts_with t (drop j s)) ps = None"
  using assms not_token_at by (auto simp: find_None_iff)

lemma literal_chars:
  assumes "printable_literal v" "\<nexists>s. v = FilterString s" "c \<in> set (print_literal v)"
  shows "\<not> operator_char c \<and> graphic c"
proof (cases v)
  case (FilterNumber x)
  then obtain n where "x = Integer n" using assms by (cases x) auto
  thus ?thesis using FilterNumber show_int_chars[of n] assms(3)
    by (auto simp: operator_char_def graphic_def is_ascii_digit_def)
qed (use assms in \<open>auto simp: operator_char_def graphic_def split: if_splits\<close>)

lemma literal_tight:
  assumes "printable_literal v"
  shows "tight (print_literal v)"
proof (cases "\<exists>s. v = FilterString s")
  case True
  thus ?thesis by (auto simp: tight_def graphic_def)
next
  case False
  have "print_literal v \<noteq> []" using assms show_int_nonempty by (cases v rule: print_literal.cases) auto
  thus ?thesis using literal_chars[OF assms False] by (simp add: tight_def)
qed

lemma reject_extra_literal:
  assumes "printable_literal v"
  shows "reject_extra_operator c ('' '' @ print_literal v) = Ok ()"
proof -
  have sc: "scan 0 False ('' '' @ print_literal v) =
      (0 # (if (\<exists>s. v = FilterString s) then [] else [1..<1 + length (print_literal v)]), False)"
    using scan_append_plain[of "'' ''" 0 "print_literal v"] scan_literal[OF assms, of 1] by simp
  have "find_unquoted_token ('' '' @ print_literal v) t = Ok None" if "t \<in> set tokens" for t
  proof -
    have "\<not> operator_char (('' '' @ print_literal v) ! j) \<and> j < length ('' '' @ print_literal v)"
      if j: "j \<in> set (fst (scan 0 False ('' '' @ print_literal v)))" for j
    proof (cases "\<exists>s. v = FilterString s")
      case True
      thus ?thesis using j unfolding sc by (simp add: operator_char_def)
    next
      case False
      hence "j < length ('' '' @ print_literal v)" using j unfolding sc by auto
      moreover from this have "('' '' @ print_literal v) ! j \<in> set ('' '' @ print_literal v)" by (rule nth_mem)
      ultimately show ?thesis using literal_chars[OF assms False] by (auto simp: operator_char_def)
    qed
    hence "find (\<lambda>j. starts_with t (drop j ('' '' @ print_literal v))) (fst (scan 0 False ('' '' @ print_literal v))) = None"
      using find_no_token[OF that] by blast
    thus ?thesis using sc by (simp add: find_unquoted_token_def)
  qed
  thus ?thesis by (simp add: reject_extra_operator_def)
qed

lemma find_token_clause:
  assumes f: "is_identifier f" and v: "printable_literal v" and t: "t \<in> set tokens"
  shows "find_unquoted_token (f @ '' '' @ operator_token op @ '' '' @ print_literal v) t =
    Ok (if starts_with t (operator_token op @ '' '') then Some (Suc (length f))
        else if length (operator_token op) = 2 \<and> starts_with t (tl (operator_token op) @ '' '') then Some (Suc (Suc (length f)))
        else None)"
proof -
  let ?tk = "operator_token op" and ?lit = "print_literal v"
  let ?c = "f @ '' '' @ ?tk @ '' '' @ ?lit" and ?n = "Suc (length f)"
  let ?Q = "if (\<exists>s. v = FilterString s) then [] else [?n + length ?tk + 1..<?n + length ?tk + 1 + length ?lit]"
  let ?P = "\<lambda>j. starts_with t (drop j ?c)"
  have "scan 0 False ((f @ '' '' @ ?tk @ '' '') @ ?lit) = ([0..<?n + length ?tk + 1] @ ?Q, False)"
    by (subst scan_append_plain[OF head_no_quote[OF f]]) (simp add: scan_literal[OF v] del: upt_Suc)
  moreover have "[0..<?n + length ?tk + 1] = [0..<?n] @ [?n..<?n + length ?tk] @ [?n + length ?tk]"
    using upt_add_eq_append[of 0 ?n "length ?tk"] by simp
  ultimately have sc: "scan 0 False ?c = ([0..<?n] @ [?n..<?n + length ?tk] @ [?n + length ?tk] @ ?Q, False)" by simp
  have 1: "find ?P [0..<?n] = None"
  proof (rule find_no_token[OF t], intro ballI conjI)
    fix j assume "j \<in> set [0..<?n]"
    hence "?c ! j \<in> insert CHR '' '' (set f)" by (auto simp: nth_append less_Suc_eq)
    moreover have "\<not> operator_char x" if "x \<in> insert CHR '' '' (set f)" for x
      using that identifier_facts(4)[OF f] by (auto simp: operator_char_def)
    ultimately show "\<not> operator_char (?c ! j)" by blast
  qed auto
  have 2: "find ?P ([?n + length ?tk] @ ?Q) = None"
  proof (rule find_no_token[OF t], intro ballI conjI)
    fix j assume j: "j \<in> set ([?n + length ?tk] @ ?Q)"
    show "j < length ?c" using j by (auto split: if_splits)
    show "\<not> operator_char (?c ! j)"
    proof (cases "j = ?n + length ?tk")
      case True
      thus ?thesis using nth_middle_eq[of "f @ '' '' @ ?tk" j "'' ''" ?lit] by (simp add: operator_char_def)
    next
      case False
      hence "\<nexists>s. v = FilterString s" "length (f @ '' '' @ ?tk @ '' '') \<le> j" "j < length (f @ '' '' @ ?tk @ '' '') + length ?lit"
        using j by (auto split: if_splits)
      moreover have "?c ! j \<in> set ?lit" using nth_middle[of "f @ '' '' @ ?tk @ '' ''" j ?lit "[]"] calculation(2,3) by simp
      ultimately show ?thesis using literal_chars[OF v] by blast
    qed
  qed
  have 3: "find ?P [?n..<?n + length ?tk] = (if starts_with t (?tk @ '' '') then Some ?n
      else if length ?tk = 2 \<and> starts_with t (tl ?tk @ '' '') then Some (Suc ?n) else None)"
  proof -
    have d: "drop ?n ?c = ?tk @ '' '' @ ?lit" "drop (Suc ?n) ?c = tl ?tk @ '' '' @ ?lit"
      by (cases op; simp)+
    have s: "starts_with t (?tk @ '' '' @ ?lit) = starts_with t (?tk @ '' '')"
      "length ?tk = 2 \<Longrightarrow> starts_with t (tl ?tk @ '' '' @ ?lit) = starts_with t (tl ?tk @ '' '')"
      using token_facts[OF t] by (cases op; auto simp: starts_with_def take_Cons' numeral_2_eq_2)+
    show ?thesis
    proof (cases "length ?tk = 2")
      case True
      hence "[?n..<?n + length ?tk] = [?n, Suc ?n]" by (simp add: upt_rec)
      thus ?thesis using d s True by simp
    next
      case False
      hence "[?n..<?n + length ?tk] = [?n]" by (cases op) auto
      thus ?thesis using d s False by simp
    qed
  qed
  show ?thesis unfolding find_unquoted_token_def sc prod.case find_append[of ?P "[0..<?n]"] find_append[of ?P "[?n..<?n + length ?tk]"] 1 2 3
    by (simp split: option.splits)
qed

lemma operator_parse_print:
  assumes "is_identifier f" "printable_literal v"
  shows "operator_parse (f @ '' '' @ operator_token op @ '' '' @ print_literal v) = Ok (op, f @ '' '', '' '' @ print_literal v)"
proof -
  define c where "c = f @ '' '' @ operator_token op @ '' '' @ print_literal v"
  define literal where "literal = '' '' @ print_literal v"
  have tok: "find_unquoted_token c t =
      Ok (if starts_with t (operator_token op @ '' '') then Some (Suc (length f))
          else if length (operator_token op) = 2 \<and> starts_with t (tl (operator_token op) @ '' '') then Some (Suc (Suc (length f)))
          else None)" if "t \<in> set tokens" for t
    using find_token_clause[OF assms that] by (simp add: c_def)
  have t: "take (Suc (length f)) c = f @ '' ''" by (simp add: c_def)
  have d: "drop (Suc (length f) + length (operator_token op)) c = literal" by (simp add: c_def literal_def)
  have r: "reject_extra_operator c' literal = Ok ()" for c' using reject_extra_literal[OF assms(2)] by (simp add: literal_def)
  have "operator_parse c = Ok (op, f @ '' '', literal)"
    using t d r by (cases op) (simp_all add: operator_parse_def operator_tokens_def tok starts_with_def Let_def)
  thus ?thesis by (simp add: c_def literal_def)
qed

lemma split_on_none: "c \<notin> set s \<Longrightarrow> split_on c s = [s]"
  by (induction s) auto

lemma parse_printed:
  assumes "printable p"
  shows "parse_predicate (print_predicate p) = Ok p"
proof -
  from assms obtain f where f: "pd_field p = FieldPath [f]" "is_identifier f" "printable_literal (pd_expected p)"
    "accepts_literal (pd_operator p) (pd_expected p)"
    "print_predicate p = (f @ '' '' @ operator_token (pd_operator p) @ '' '') @ print_literal (pd_expected p)"
    by (rule printableD)
  have tf: "tight f" and tl: "tight (print_literal (pd_expected p))"
    using identifier_facts(2)[OF f(2)] literal_tight[OF f(3)] by simp_all
  have "CHR ''.'' \<notin> set f" using identifier_facts(4)[OF f(2)] by auto
  hence fp: "field_path_parse f = Ok (FieldPath [f])"
    using f(2) tf by (simp add: field_path_parse_def split_on_none)
  have vp: "filter_value_parse (print_literal (pd_expected p)) = Ok (pd_expected p)"
    using filter_value_parse_print[OF f(3)] tl by simp
  have "trim (f @ '' '') = f" "trim ('' '' @ print_literal (pd_expected p)) = print_literal (pd_expected p)"
    using tf tl by simp_all
  thus ?thesis using operator_parse_print[OF f(2,3), of "pd_operator p"] f(1,4) fp vp
    by (simp add: parse_predicate_def f(5))
qed

section \<open>Evaluation on JSON rows\<close>

text \<open>
  The meaning of one comparison on a JSON object: the field is present, is a
  scalar or one of the tagged scalars, and compares as the operator asks.
\<close>

definition holds_on :: "(string \<times> json) list \<Rightarrow> predicate \<Rightarrow> bool" where
  "holds_on object p =
     (case Option.bind (hm_get object (as_top_level_name (pd_field p))) from_json of
        Some v \<Rightarrow> filter_value_matches (pd_expected p) (pd_operator p) v
      | None \<Rightarrow> False)"

lemma row_fields_spec:
  "row_fields object ps acc =
     (if \<exists>p\<in>set ps. \<exists>v. hm_get object (as_top_level_name (pd_field p)) = Some v \<and> from_json v = None then None
      else Some (fold (\<lambda>p acc. case Option.bind (hm_get object (as_top_level_name (pd_field p))) from_json of
                           Some field \<Rightarrow> hm_insert (as_top_level_name (pd_field p)) field acc | None \<Rightarrow> acc) ps acc))"
  by (induction ps arbitrary: acc) (auto simp: Let_def split: option.splits)

lemma fold_row_get:
  "hm_get (fold (\<lambda>p acc. case Option.bind (hm_get object (as_top_level_name (pd_field p))) from_json of
               Some field \<Rightarrow> hm_insert (as_top_level_name (pd_field p)) field acc | None \<Rightarrow> acc) ps acc) name =
     (if name \<in> (\<lambda>p. as_top_level_name (pd_field p)) ` set ps \<and> Option.bind (hm_get object name) from_json \<noteq> None
      then Option.bind (hm_get object name) from_json else hm_get acc name)"
  by (induction ps arbitrary: acc) (auto split: option.splits)

lemma row_match:
  "(case row_fields object ps [] of None \<Rightarrow> False
    | Some row \<Rightarrow> list_all (\<lambda>p. predicate_matches p [row] 0) ps) \<longleftrightarrow> list_all (holds_on object) ps"
proof (cases "\<exists>p\<in>set ps. \<exists>v. hm_get object (as_top_level_name (pd_field p)) = Some v \<and> from_json v = None")
  case True
  then obtain p where "p \<in> set ps" "Option.bind (hm_get object (as_top_level_name (pd_field p))) from_json = None" by auto
  hence "\<not> list_all (holds_on object) ps" by (auto simp: list_all_iff holds_on_def intro!: bexI[of _ p])
  moreover have "row_fields object ps [] = None" using True by (simp add: row_fields_spec)
  ultimately show ?thesis by simp
next
  case False
  define row where "row = fold (\<lambda>p acc. case Option.bind (hm_get object (as_top_level_name (pd_field p))) from_json of
      Some field \<Rightarrow> hm_insert (as_top_level_name (pd_field p)) field acc | None \<Rightarrow> acc) ps []"
  have row: "row_fields object ps [] = Some row" using False by (simp add: row_fields_spec row_def)
  have get: "hm_get row name = (if name \<in> (\<lambda>p. as_top_level_name (pd_field p)) ` set ps
      then Option.bind (hm_get object name) from_json else None)" for name
    unfolding row_def fold_row_get by auto
  have "predicate_matches p [row] 0 = holds_on object p" if "p \<in> set ps" for p
    using that get[of "as_top_level_name (pd_field p)"]
    by (auto simp: predicate_matches_def batch_field_value_def holds_on_def split: option.splits)
  thus ?thesis using row by (auto simp: list_all_iff)
qed

lemma parse_print:
  assumes "ps \<noteq> []" "list_all printable ps"
  shows "parse_legacy_predicates (print_predicates ps) = Ok ps"
proof -
  have tight: "tight (print_predicate p)" if "printable p" for p
  proof -
    from that obtain f where f: "is_identifier f" "printable_literal (pd_expected p)"
      "print_predicate p = (f @ '' '' @ operator_token (pd_operator p) @ '' '') @ print_literal (pd_expected p)"
      by (rule printableD)
    show ?thesis using identifier_facts(2)[OF f(1)] literal_tight[OF f(2)] by (simp add: f(3) tight_def)
  qed
  have pieces: "parse_clauses (pieces lead (map print_predicate qs)) = Ok qs"
    if "list_all printable qs" "lead = [] \<or> lead = '' ''" for qs lead
    using that
  proof (induction qs arbitrary: lead)
    case (Cons q qs)
    have "trim (lead @ print_predicate q) = print_predicate q" "trim (lead @ print_predicate q @ '' '') = print_predicate q"
      using tight[of q] Cons.prems by auto
    thus ?case using Cons parse_printed[of q] by (cases qs) auto
  qed simp
  obtain qs where "scan 0 False (print_predicates ps) = (qs, False)"
    "cut_clauses (print_predicates ps) 0 (filter (\<lambda>i. starts_with_keyword_at (print_predicates ps) i ''AND'') qs)
      = pieces [] (map print_predicate ps)"
    using split_printed[OF assms, of "[]" 0 "print_predicates ps"] by auto
  thus ?thesis using pieces[OF assms(2)] by (simp add: parse_legacy_predicates_def split_and_clauses_def)
qed

lemma matches_structured_json_holds:
  assumes "cf_sql cf \<noteq> []" "cf_predicates cf \<noteq> []"
  shows "matches_structured_json lib cf json \<longleftrightarrow>
    (\<exists>b object. json = Some b \<and> fl_from_slice lib b = Some (JObject object) \<and> list_all (holds_on object) (cf_predicates cf))"
proof -
  have object: "(case batch_from_json (JObject object) (cf_predicates cf) of None \<Rightarrow> False | Some batch \<Rightarrow> matches_row cf batch 0)
      \<longleftrightarrow> list_all (holds_on object) (cf_predicates cf)" for object
    using row_match[where object = object and ps = "cf_predicates cf"] assms
    by (auto simp: batch_from_json_def row_from_json_def matches_row_def split: option.splits)
  show ?thesis
  proof (cases json)
    case (Some b)
    show ?thesis
    proof (cases "fl_from_slice lib b")
      case v: (Some v)
      show ?thesis
      proof (cases "\<exists>object. v = JObject object")
        case True
        thus ?thesis using assms Some v object by (auto simp: matches_structured_json_def)
      next
        case False
        hence "batch_from_json v (cf_predicates cf) = None"
          by (cases v) (auto simp: batch_from_json_def row_from_json_def)
        thus ?thesis using assms Some v False by (simp add: matches_structured_json_def)
      qed
    qed (use assms Some in \<open>simp add: matches_structured_json_def\<close>)
  qed (use assms in \<open>simp add: matches_structured_json_def\<close>)
qed

section \<open>Properties\<close>



text \<open>
  A filter of comparisons accepts a structured record exactly when its JSON is an
  object on which every comparison holds; a record without JSON, with JSON that
  is no object, or with a missing or nested field is dropped.
\<close>

theorem matches_structured_json_exact:
  assumes "cf_sql cf \<noteq> []" "cf_predicates cf \<noteq> []"
  shows "matches_structured_json lib cf json \<longleftrightarrow>
    (\<exists>b object. json = Some b \<and> fl_from_slice lib b = Some (JObject object) \<and> list_all (holds_on object) (cf_predicates cf))"
  by (rule matches_structured_json_holds[OF assms])

definition sample_filter_lib :: "(string, unit) filter_lib" where
  "sample_filter_lib =
     \<lparr>fl_from_slice = (\<lambda>b. if b = [1] then Some (JObject [(''id'', JNumber (PosInt 9007199254740993))]) else None),
      fl_json_str = (\<lambda>_. None), fl_df_schema = (\<lambda>_. Ok ()), fl_parse_sql = (\<lambda>sql _. Ok sql),
      fl_col = (\<lambda>name schema. if name \<in> af_name ` set schema then Ok name else Err ''no such column''),
      fl_field_with_name = (\<lambda>name schema. case find (\<lambda>f. af_name f = name) schema of Some f \<Rightarrow> Ok f | None \<Rightarrow> Err ''no such field''),
      fl_lit = (\<lambda>_. ''lit''), fl_binary = (\<lambda>x _ _ _. Ok x), fl_is_null = Ok, fl_is_not_null = Ok,
      fl_evaluate = (\<lambda>x batch. if x \<in> af_name ` set (rb_schema batch) then Ok (Ok (replicate (rb_num_rows batch) (Some True)))
                              else Err ''column not found''),
      fl_try_new = (\<lambda>schema columns. Ok \<lparr>rb_schema = schema, rb_columns = columns, rb_num_rows = 1\<rparr>),
      fl_stream = (\<lambda>_. None), fl_type_debug = (\<lambda>_. ''Int32''), fl_type_display = (\<lambda>_. ''Int32'')\<rparr>"

theorem matches_structured_json_exact_witness:
  "\<not> matches_structured_json sample_filter_lib
     \<lparr>cf_sql = ''id = 9007199254740992'',
      cf_predicates = [\<lparr>pd_field = FieldPath [''id''], pd_operator = Equal, pd_expected = FilterNumber (Integer 9007199254740992)\<rparr>],
      cf_arrow_cache = []\<rparr> (Some [1])"
  by (subst matches_structured_json_exact)
    (simp_all add: sample_filter_lib_def holds_on_def from_json_def from_scalar_json_def json_as_i64_def i64_MAX_def
      filter_value_matches_def numeric_compare_def cmp_def compare_order_def)

text \<open>
  An Arrow stream is opened only when its payload holds the whole schema message
  its header announces, so no payload makes the reader allocate more than it holds.
\<close>

theorem ipc_reader_guarded:
  assumes "arrow_ipc_stream_reader lib value = Some reader"
  shows "\<exists>marker a b c d message. (marker = [] \<or> marker = [0xFF, 0xFF, 0xFF, 0xFF]) \<and> value = marker @ [a, b, c, d] @ message
    \<and> 0 < i32_from_be_bytes d c b a \<and> i32_from_be_bytes d c b a \<le> int (length message)
    \<and> fl_stream lib value = Some reader"
proof -
  define marker where "marker = (if take 4 value = ARROW_IPC_CONTINUATION_MARKER then take 4 value else [])"
  define framed where "framed = (if take 4 value = ARROW_IPC_CONTINUATION_MARKER then drop 4 value else value)"
  have v: "value = marker @ framed"
    by (simp add: marker_def framed_def) (metis append_take_drop_id)
  have l: "4 \<le> length framed"
    using assms by (auto simp: arrow_ipc_stream_reader_def framed_def[symmetric] Let_def split: if_splits)
  then obtain a b c d message where f: "framed = [a, b, c, d] @ message"
    by (auto simp: numeral_eq_Suc Suc_le_length_iff)
  have "0 < i32_from_be_bytes d c b a \<and> i32_from_be_bytes d c b a \<le> int (length message) \<and> fl_stream lib value = Some reader"
    using assms l unfolding arrow_ipc_stream_reader_def framed_def[symmetric] Let_def
    by (auto simp: f numeral_eq_Suc not_less split: if_splits)
  moreover have "marker = [] \<or> marker = [0xFF, 0xFF, 0xFF, 0xFF]"
    by (auto simp: marker_def ARROW_IPC_CONTINUATION_MARKER_def)
  ultimately show ?thesis using v f by blast
qed

theorem ipc_reader_guarded_witness:
  "0 < i32_from_be_bytes 0 0 0 (1 :: byte)
   \<and> arrow_ipc_stream_reader (sample_filter_lib\<lparr>fl_stream := (\<lambda>_. Some [])\<rparr>) [1, 0, 0, 0, 7] = Some []"
proof -
  have r: "arrow_ipc_stream_reader (sample_filter_lib\<lparr>fl_stream := (\<lambda>_. Some [])\<rparr>) [1, 0, 0, 0, 7] = Some []"
    by (simp add: arrow_ipc_stream_reader_def ARROW_IPC_CONTINUATION_MARKER_def i32_from_be_bytes_def)
  from ipc_reader_guarded[OF r] r show ?thesis by (auto simp: Cons_eq_append_conv)
qed

text \<open>An evaluator that resolves a column to its index when it compiles.\<close>

definition indexed_lib :: "(nat, unit) filter_lib" where
  "indexed_lib =
     \<lparr>fl_from_slice = (\<lambda>_. None), fl_json_str = (\<lambda>_. None), fl_df_schema = (\<lambda>_. Ok ()), fl_parse_sql = (\<lambda>_ _. Err ''parse error''),
      fl_col = (\<lambda>name schema. case find (\<lambda>i. af_name (schema ! i) = name) [0..<length schema] of
                               Some i \<Rightarrow> Ok i | None \<Rightarrow> Err ''no such column''),
      fl_field_with_name = (\<lambda>name schema. case find (\<lambda>f. af_name f = name) schema of Some f \<Rightarrow> Ok f | None \<Rightarrow> Err ''no such field''),
      fl_lit = (\<lambda>_. 0), fl_binary = (\<lambda>x _ _ _. Ok x), fl_is_null = Ok, fl_is_not_null = Ok,
      fl_evaluate = (\<lambda>i batch. if i < length (rb_schema batch) then Ok (Ok (replicate (rb_num_rows batch) (Some True)))
                              else Err ''column index out of range''),
      fl_try_new = (\<lambda>schema columns. Ok \<lparr>rb_schema = schema, rb_columns = columns, rb_num_rows = 1\<rparr>),
      fl_stream = (\<lambda>_. None), fl_type_debug = (\<lambda>_. ''Int32''), fl_type_display = (\<lambda>_. ''Int32'')\<rparr>"


end
