(* ===== verification/Gw_CloudEvents.thy ===== *)
theory Gw_CloudEvents
  imports Gw_Filter Gw_Utf8
begin

text \<open>
  The CloudEvents bindings of \<open>ce_translate.rs\<close>: content modes, the header
  translation between the HTTP (\<open>ce-\<close>) and Kafka (\<open>ce_\<close>) bindings, and the
  conversions between binary and structured events.

  JSON, base64, HMAC, hex, JSONPath and the HTTP header and URL types are library
  code, the parameter \<open>web_lib\<close> of the webhook components. A header map is the list of its
  lower-case names and values in iteration order; a JSON object is its
  association list, whose order no statement depends on.
\<close>

section \<open>The libraries\<close>

type_synonym header_map = "(string \<times> bytes) list"

record 'q web_lib =
  wl_from_slice :: "bytes \<Rightarrow> json option"
  wl_to_vec :: "json \<Rightarrow> bytes option"
  wl_number :: "json_number \<Rightarrow> string"
  wl_b64_encode :: "bytes \<Rightarrow> string"
  wl_b64_decode :: "string \<Rightarrow> bytes option"
  wl_hex_encode :: "bytes \<Rightarrow> string"
  wl_hex_decode :: "string \<Rightarrow> bytes option"
  wl_hmac :: "bytes \<Rightarrow> bytes \<Rightarrow> bytes"
  wl_to_str :: "bytes \<Rightarrow> string option"
  wl_header_name :: "string \<Rightarrow> string option"
  wl_header_value :: "bytes \<Rightarrow> bool"
  wl_json_path :: "string \<Rightarrow> string + 'q"
  wl_query :: "'q \<Rightarrow> json \<Rightarrow> json list option"
  wl_url :: "string \<Rightarrow> string + (string \<times> string option)"

definition header_get_all :: "header_map \<Rightarrow> string \<Rightarrow> bytes list" where
  "header_get_all hs name = map snd (filter (\<lambda>(n, _). n = map to_ascii_lowercase name) hs)"

definition header_first :: "header_map \<Rightarrow> string \<Rightarrow> bytes option" where
  "header_first hs name = (case header_get_all hs name of [] \<Rightarrow> None | v # _ \<Rightarrow> Some v)"

definition strip_prefix_str :: "string \<Rightarrow> string \<Rightarrow> string option" where
  "strip_prefix_str t s = (if starts_with t s then Some (drop (length t) s) else None)"

section \<open>Content modes\<close>

definition CE_HTTP_PREFIX :: string where "CE_HTTP_PREFIX = ''ce-''"
definition CE_KAFKA_PREFIX :: string where "CE_KAFKA_PREFIX = ''ce_''"
definition CONTENT_TYPE :: string where "CONTENT_TYPE = ''content-type''"
definition DATA_CONTENT_TYPE :: string where "DATA_CONTENT_TYPE = ''datacontenttype''"

definition REQUIRED_ATTRIBUTES :: "string list" where
  "REQUIRED_ATTRIBUTES = [''id'', ''source'', ''type'', ''specversion'']"

datatype ingress_mode = IngressBinary | IngressStructured | IngressBatch | NotCloudEvent

datatype ce_error =
    MissingAttribute string
  | NonUtf8Attribute string
  | UnsupportedSpecVersion
  | MalformedJson
  | MalformedBase64
  | ConflictingData
  | NonScalarAttribute string
  | InvalidHttpHeader string

definition base_media_type :: "string \<Rightarrow> string" where
  "base_media_type s = map to_ascii_lowercase (trim (hd (split_on CHR '';'' s)))"

definition is_json_media_type :: "string \<Rightarrow> bool" where
  "is_json_media_type s \<longleftrightarrow>
     base_media_type s = ''application/json'' \<or> ends_with ''+json'' (base_media_type s)"

definition detect_content_mode :: "string option \<Rightarrow> bool \<Rightarrow> ingress_mode" where
  "detect_content_mode media_type has_ce_header =
     (let otherwise = (if has_ce_header then IngressBinary else NotCloudEvent) in
      case media_type of
        None \<Rightarrow> otherwise
      | Some m \<Rightarrow>
          if starts_with ''application/cloudevents-batch'' (base_media_type m) then IngressBatch
          else if starts_with ''application/cloudevents'' (base_media_type m) then IngressStructured
          else otherwise)"

definition is_structured_media_type :: "string \<Rightarrow> bool" where
  "is_structured_media_type s \<longleftrightarrow> detect_content_mode (Some s) False = IngressStructured"

section \<open>Header bindings\<close>

fun http_headers_to_kafka :: "'q web_lib \<Rightarrow> header_map \<Rightarrow> ce_error + (string \<times> bytes) list" where
  "http_headers_to_kafka lib [] = Ok []"
| "http_headers_to_kafka lib ((name, v) # hs) =
     (case strip_prefix_str CE_HTTP_PREFIX name of
        Some attribute \<Rightarrow>
          (case wl_to_str lib v of
             None \<Rightarrow> Err (NonUtf8Attribute name)
           | Some s \<Rightarrow>
               let kafka_name = (if attribute = DATA_CONTENT_TYPE then CONTENT_TYPE else CE_KAFKA_PREFIX @ attribute) in
               and_then (http_headers_to_kafka lib hs) (\<lambda>ks. Ok ((kafka_name, as_bytes s) # ks)))
      | None \<Rightarrow>
          if name = CONTENT_TYPE then
            (case wl_to_str lib v of
               None \<Rightarrow> Err (NonUtf8Attribute name)
             | Some s \<Rightarrow> and_then (http_headers_to_kafka lib hs) (\<lambda>ks. Ok ((CONTENT_TYPE, as_bytes s) # ks)))
          else http_headers_to_kafka lib hs)"

fun kafka_headers_to_http :: "'q web_lib \<Rightarrow> header list \<Rightarrow> ce_error + header_map" where
  "kafka_headers_to_http lib [] = Ok []"
| "kafka_headers_to_http lib ((key, None) # hs) = kafka_headers_to_http lib hs"
| "kafka_headers_to_http lib ((key, Some v) # hs) =
     (case strip_prefix_str CE_KAFKA_PREFIX key of
        Some attribute \<Rightarrow>
          (case (if attribute = DATA_CONTENT_TYPE then Some CONTENT_TYPE
                 else wl_header_name lib (CE_HTTP_PREFIX @ attribute)) of
             None \<Rightarrow> Err (InvalidHttpHeader key)
           | Some name \<Rightarrow>
               if \<not> wl_header_value lib v then Err (InvalidHttpHeader key)
               else and_then (kafka_headers_to_http lib hs) (\<lambda>ts. Ok ((name, v) # ts)))
      | None \<Rightarrow>
          if key = CONTENT_TYPE then
            if \<not> wl_header_value lib v then Err (InvalidHttpHeader key)
            else and_then (kafka_headers_to_http lib hs) (\<lambda>ts. Ok ((CONTENT_TYPE, v) # ts))
          else kafka_headers_to_http lib hs)"

section \<open>Validation\<close>

fun check_required :: "(string \<Rightarrow> bool) \<Rightarrow> string list \<Rightarrow> ce_error + unit" where
  "check_required present [] = Ok ()"
| "check_required present (a # as) = (if present a then check_required present as else Err (MissingAttribute a))"

definition validate_binary_required :: "(string \<times> bytes) list \<Rightarrow> ce_error + unit" where
  "validate_binary_required hs =
     (case find (\<lambda>(k, v). starts_with CE_KAFKA_PREFIX k \<and> \<not> utf8_valid v) hs of
        Some (k, _) \<Rightarrow> Err (NonUtf8Attribute k)
      | None \<Rightarrow>
          and_then (check_required (\<lambda>a. list_ex (\<lambda>(k, v). k = CE_KAFKA_PREFIX @ a \<and> v \<noteq> []) hs) REQUIRED_ATTRIBUTES) (\<lambda>_.
            if map_option snd (find (\<lambda>(k, _). k = ''ce_specversion'') hs) \<noteq> Some (as_bytes ''1.0'')
            then Err UnsupportedSpecVersion else Ok ()))"

definition validate_structured_json :: "json \<Rightarrow> ce_error + unit" where
  "validate_structured_json v =
     (case v of
        JObject event \<Rightarrow>
          if hm_get event ''data'' \<noteq> None \<and> hm_get event ''data_base64'' \<noteq> None then Err ConflictingData
          else and_then (check_required (\<lambda>a. case hm_get event a of Some (JString s) \<Rightarrow> s \<noteq> [] | _ \<Rightarrow> False) REQUIRED_ATTRIBUTES) (\<lambda>_.
            if hm_get event ''specversion'' \<noteq> Some (JString ''1.0'') then Err UnsupportedSpecVersion else Ok ())
      | _ \<Rightarrow> Err MalformedJson)"

section \<open>Structured and binary events\<close>

fun event_attributes :: "header list \<Rightarrow> (string \<times> json) list \<Rightarrow> ce_error + (string \<times> json) list" where
  "event_attributes [] event = Ok event"
| "event_attributes ((key, None) # hs) event = event_attributes hs event"
| "event_attributes ((key, Some v) # hs) event =
     (if \<not> utf8_valid v then Err (NonUtf8Attribute key)
      else case strip_prefix_str CE_KAFKA_PREFIX key of
             Some attribute \<Rightarrow> event_attributes hs (hm_insert attribute (JString (of_bytes v)) event)
           | None \<Rightarrow>
               if key = CONTENT_TYPE then event_attributes hs (hm_insert DATA_CONTENT_TYPE (JString (of_bytes v)) event)
               else event_attributes hs event)"

definition event_with_data :: "'q web_lib \<Rightarrow> (string \<times> json) list \<Rightarrow> bytes \<Rightarrow> (string \<times> json) list" where
  "event_with_data lib event v =
     (let json_data = (case hm_get event DATA_CONTENT_TYPE of
                         Some (JString m) \<Rightarrow> if is_json_media_type m then wl_from_slice lib v else None
                       | _ \<Rightarrow> None)
      in case json_data of
           Some data \<Rightarrow> hm_insert ''data'' data event
         | None \<Rightarrow> hm_insert ''data_base64'' (JString (wl_b64_encode lib v)) event)"

definition structured_from_binary :: "'q web_lib \<Rightarrow> header list \<Rightarrow> bytes \<Rightarrow> ce_error + bytes" where
  "structured_from_binary lib hs v =
     and_then (event_attributes hs []) (\<lambda>event.
       case wl_to_vec lib (JObject (event_with_data lib event v)) of
         None \<Rightarrow> Err MalformedJson
       | Some b \<Rightarrow> Ok b)"

definition scalar_attribute_bytes :: "'q web_lib \<Rightarrow> string \<Rightarrow> json \<Rightarrow> ce_error + bytes" where
  "scalar_attribute_bytes lib attribute v =
     (case v of
        JString s \<Rightarrow> Ok (as_bytes s)
      | JBool b \<Rightarrow> Ok (as_bytes (if b then ''true'' else ''false''))
      | JNumber n \<Rightarrow> Ok (as_bytes (wl_number lib n))
      | _ \<Rightarrow> Err (NonScalarAttribute attribute))"

fun attribute_headers :: "'q web_lib \<Rightarrow> (string \<times> json) list \<Rightarrow> ce_error + (string \<times> bytes) list" where
  "attribute_headers lib [] = Ok []"
| "attribute_headers lib ((attribute, v) # event) =
     (if attribute = ''data'' \<or> attribute = ''data_base64'' then attribute_headers lib event
      else and_then (scalar_attribute_bytes lib attribute v) (\<lambda>b.
        let key = (if attribute = DATA_CONTENT_TYPE then CONTENT_TYPE else CE_KAFKA_PREFIX @ attribute) in
        and_then (attribute_headers lib event) (\<lambda>hs. Ok ((key, b) # hs))))"

definition binary_from_structured :: "'q web_lib \<Rightarrow> json \<Rightarrow> ce_error + (string \<times> bytes) list \<times> bytes" where
  "binary_from_structured lib v =
     and_then (validate_structured_json v) (\<lambda>_.
       case v of
         JObject event \<Rightarrow>
           and_then (attribute_headers lib event) (\<lambda>headers.
             and_then
               (case hm_get event ''data_base64'' of
                  Some (JString encoded) \<Rightarrow>
                    (case wl_b64_decode lib encoded of Some b \<Rightarrow> Ok b | None \<Rightarrow> Err MalformedBase64)
                | Some _ \<Rightarrow> Err MalformedBase64
                | None \<Rightarrow>
                    (case hm_get event ''data'' of
                       Some data \<Rightarrow> (case wl_to_vec lib data of Some b \<Rightarrow> Ok b | None \<Rightarrow> Err MalformedJson)
                     | None \<Rightarrow> Ok [])) (\<lambda>data. Ok (headers, data)))
       | _ \<Rightarrow> Err MalformedJson)"

section \<open>From binary to structured and back\<close>

definition attribute_of :: "string \<Rightarrow> string" where
  "attribute_of key = (if key = CONTENT_TYPE then DATA_CONTENT_TYPE else drop (length CE_KAFKA_PREFIX) key)"

text \<open>The headers of a binary record that names its content type once and has
  no attribute with a reserved member name.\<close>

definition ce_header_ok :: "string \<times> bytes \<Rightarrow> bool" where
  "ce_header_ok = (\<lambda>(k, v). (k = CONTENT_TYPE \<or> starts_with CE_KAFKA_PREFIX k) \<and> utf8_valid v \<and>
     k \<notin> {''ce_data'', ''ce_data_base64'', ''ce_datacontenttype''})"

lemmas ce_names = CE_KAFKA_PREFIX_def CE_HTTP_PREFIX_def CONTENT_TYPE_def DATA_CONTENT_TYPE_def

lemma starts_with_append: "starts_with t s \<longleftrightarrow> (\<exists>r. s = t @ r)"
  by (auto simp: starts_with_def) (metis append_take_drop_id)

lemma ce_header_ok_cases:
  assumes "ce_header_ok (k, v)"
  obtains "k = CONTENT_TYPE" "attribute_of k = DATA_CONTENT_TYPE"
  | a where "k = CE_KAFKA_PREFIX @ a" "attribute_of k = a" "a \<notin> {''data'', ''data_base64'', DATA_CONTENT_TYPE}"
proof (cases "k = CONTENT_TYPE")
  case True
  thus thesis using that(1) by (simp add: attribute_of_def)
next
  case False
  then obtain a where a: "k = CE_KAFKA_PREFIX @ a" using assms by (auto simp: ce_header_ok_def starts_with_append)
  have "attribute_of k = a" using False by (simp add: attribute_of_def a)
  moreover have "a \<notin> {''data'', ''data_base64'', DATA_CONTENT_TYPE}"
    using assms by (auto simp: ce_header_ok_def a ce_names)
  ultimately show thesis using that(2) a by blast
qed

lemma attribute_of_data:
  assumes "ce_header_ok h" shows "attribute_of (fst h) \<noteq> ''data''" "attribute_of (fst h) \<noteq> ''data_base64''"
proof -
  obtain k v where h: "h = (k, v)" by (cases h)
  have ok: "ce_header_ok (k, v)" using assms by (simp add: h)
  show "attribute_of (fst h) \<noteq> ''data''" by (rule ce_header_ok_cases[OF ok]) (simp_all add: h ce_names)
  show "attribute_of (fst h) \<noteq> ''data_base64''" by (rule ce_header_ok_cases[OF ok]) (simp_all add: h ce_names)
qed

lemma attribute_of_inj2:
  assumes "ce_header_ok (k, v)" "ce_header_ok (k', v')" "attribute_of k = attribute_of k'" shows "k = k'"
  using assms by (auto elim!: ce_header_ok_cases)

lemma distinct_attributes:
  assumes "distinct (map fst hs)" "list_all ce_header_ok hs"
  shows "distinct (map (attribute_of \<circ> fst) hs)"
  using assms
proof (induction hs)
  case (Cons h hs)
  have "attribute_of (fst h) \<notin> (attribute_of \<circ> fst) ` set hs"
  proof
    assume "attribute_of (fst h) \<in> (attribute_of \<circ> fst) ` set hs"
    then obtain g where g: "g \<in> set hs" "attribute_of (fst h) = attribute_of (fst g)" by auto
    moreover have "ce_header_ok (fst h, snd h)" "ce_header_ok (fst g, snd g)"
      using Cons.prems(2) g(1) by (auto simp: list_all_iff)
    ultimately have "fst h = fst g" using attribute_of_inj2 by blast
    thus False using Cons.prems(1) g(1) by auto
  qed
  thus ?case using Cons by simp
qed simp

lemma update_fresh: "k \<notin> fst ` set m \<Longrightarrow> hm_insert k v m = m @ [(k, v)]"
  by (induction m) auto

lemma event_attributes_distinct:
  "list_all ce_header_ok hs \<Longrightarrow> distinct (map (attribute_of \<circ> fst) hs) \<Longrightarrow>
   fst ` set ev \<inter> (attribute_of \<circ> fst) ` set hs = {} \<Longrightarrow>
   event_attributes (map (apsnd Some) hs) ev =
     Ok (ev @ map (\<lambda>(k, v). (attribute_of k, JString (of_bytes v))) hs)"
proof (induction hs arbitrary: ev)
  case (Cons h hs)
  obtain k v where h: "h = (k, v)" by (cases h)
  have ok: "ce_header_ok (k, v)" and u: "utf8_valid v"
    using Cons.prems(1) by (auto simp: h ce_header_ok_def)
  have fresh: "hm_insert (attribute_of k) (JString (of_bytes v)) ev = ev @ [(attribute_of k, JString (of_bytes v))]"
    using Cons.prems(3) by (intro update_fresh) (auto simp: h)
  have step: "event_attributes (map (apsnd Some) (h # hs)) ev =
      event_attributes (map (apsnd Some) hs) (hm_insert (attribute_of k) (JString (of_bytes v)) ev)"
    using ok u by (auto elim!: ce_header_ok_cases simp: h strip_prefix_str_def starts_with_append ce_names attribute_of_def)
  have "event_attributes (map (apsnd Some) hs) (ev @ [(attribute_of k, JString (of_bytes v))]) =
      Ok ((ev @ [(attribute_of k, JString (of_bytes v))]) @ map (\<lambda>(k, v). (attribute_of k, JString (of_bytes v))) hs)"
    using Cons.prems by (intro Cons.IH) (auto simp: h)
  thus ?case unfolding step fresh by (simp add: h)
qed simp

lemma as_bytes_of_bytes [simp]: "as_bytes (of_bytes bs) = bs"
proof -
  have "of_char (char_of (unat b) :: char) = b" for b :: byte
  proof -
    have "unat b < 2 ^ LENGTH(8)" by (rule unsigned_less)
    hence "(of_char (char_of (unat b) :: char) :: nat) = unat b" by (simp add: of_char_of)
    hence "(of_nat (of_char (char_of (unat b) :: char)) :: byte) = b" by simp
    thus ?thesis by (simp only: of_nat_of_char)
  qed
  thus ?thesis by (simp add: of_bytes_def as_bytes_def comp_def)
qed

lemma attribute_headers_append:
  "attribute_headers lib (xs @ ys) =
     and_then (attribute_headers lib xs) (\<lambda>a. and_then (attribute_headers lib ys) (\<lambda>b. Ok (a @ b)))"
proof (induction xs)
  case Nil
  thus ?case by (cases "attribute_headers lib ys") simp_all
next
  case (Cons x xs)
  obtain a v where x: "x = (a, v)" by (cases x)
  show ?case
    by (cases "scalar_attribute_bytes lib a v"; cases "attribute_headers lib xs"; cases "attribute_headers lib ys")
      (simp_all add: x Cons Let_def)
qed

lemma attribute_headers_of:
  "list_all ce_header_ok hs \<Longrightarrow>
   attribute_headers lib (map (\<lambda>(k, v). (attribute_of k, JString (of_bytes v))) hs) = Ok hs"
proof (induction hs)
  case (Cons h hs)
  obtain k v where h: "h = (k, v)" by (cases h)
  have ok: "ce_header_ok (k, v)" using Cons.prems by (simp add: h)
  have "(if attribute_of k = DATA_CONTENT_TYPE then CONTENT_TYPE else CE_KAFKA_PREFIX @ attribute_of k) = k"
    using ok by (auto elim!: ce_header_ok_cases)
  thus ?case using Cons attribute_of_data[OF ok] by (simp add: h scalar_attribute_bytes_def Let_def)
qed simp

definition attributes_of :: "(string \<times> bytes) list \<Rightarrow> (string \<times> json) list" where
  "attributes_of hs = map (\<lambda>(k, v). (attribute_of k, JString (of_bytes v))) hs"

lemma hm_get_attributes_of:
  assumes "distinct (map fst hs)" "list_all ce_header_ok hs" "(k, v) \<in> set hs"
  shows "hm_get (attributes_of hs) (attribute_of k) = Some (JString (of_bytes v))"
proof (rule map_of_is_SomeI)
  have "map fst (attributes_of hs) = map (attribute_of \<circ> fst) hs"
    by (auto simp: attributes_of_def)
  thus "distinct (map fst (attributes_of hs))" using distinct_attributes[OF assms(1,2)] by simp
  show "(attribute_of k, JString (of_bytes v)) \<in> set (attributes_of hs)"
    using assms(3) by (force simp: attributes_of_def)
qed

lemma hm_get_attributes_of_data:
  assumes "list_all ce_header_ok hs"
  shows "hm_get (attributes_of hs) ''data'' = None" "hm_get (attributes_of hs) ''data_base64'' = None"
  using assms attribute_of_data
  by (auto simp: attributes_of_def map_of_eq_None_iff list_all_iff split_beta) (metis fst_conv)+

lemma check_required_Ok: "check_required P as = Ok () \<longleftrightarrow> (\<forall>a\<in>set as. P a)"
  by (induction as) auto

lemma validate_binary_required_Ok:
  "validate_binary_required hs = Ok () \<longleftrightarrow>
     (\<forall>(k, v)\<in>set hs. starts_with CE_KAFKA_PREFIX k \<longrightarrow> utf8_valid v) \<and>
     (\<forall>a\<in>set REQUIRED_ATTRIBUTES. \<exists>v. (CE_KAFKA_PREFIX @ a, v) \<in> set hs \<and> v \<noteq> []) \<and>
     map_option snd (find (\<lambda>(k, _). k = ''ce_specversion'') hs) = Some (as_bytes ''1.0'')"
proof -
  let ?P = "\<lambda>(k, v). starts_with CE_KAFKA_PREFIX k \<and> \<not> utf8_valid v"
  let ?R = "\<lambda>a. list_ex (\<lambda>(k, v). k = CE_KAFKA_PREFIX @ a \<and> v \<noteq> []) hs"
  have r: "?R a \<longleftrightarrow> (\<exists>v. (CE_KAFKA_PREFIX @ a, v) \<in> set hs \<and> v \<noteq> [])" for a
    by (auto simp: list_ex_iff)
  have n: "find ?P hs = None \<longleftrightarrow> (\<forall>(k, v)\<in>set hs. starts_with CE_KAFKA_PREFIX k \<longrightarrow> utf8_valid v)"
    by (auto simp: find_None_iff)
  have "validate_binary_required hs = Ok () \<longleftrightarrow> find ?P hs = None \<and>
     check_required ?R REQUIRED_ATTRIBUTES = Ok () \<and>
     map_option snd (find (\<lambda>(k, _). k = ''ce_specversion'') hs) = Some (as_bytes ''1.0'')"
    by (auto simp: validate_binary_required_def and_then_def split: option.splits sum.splits)
  thus ?thesis by (simp add: n check_required_Ok r)
qed

lemma attribute_of_required:
  "a \<in> set REQUIRED_ATTRIBUTES \<Longrightarrow> attribute_of (CE_KAFKA_PREFIX @ a) = a"
  by (auto simp: REQUIRED_ATTRIBUTES_def attribute_of_def ce_names)

lemma validated_event:
  assumes valid: "validate_binary_required hs = Ok ()" and d: "distinct (map fst hs)" and ok: "list_all ce_header_ok hs"
  shows "a \<in> set REQUIRED_ATTRIBUTES \<Longrightarrow> \<exists>s. hm_get (attributes_of hs) a = Some (JString s) \<and> s \<noteq> []"
    and "hm_get (attributes_of hs) ''specversion'' = Some (JString ''1.0'')"
proof -
  assume a: "a \<in> set REQUIRED_ATTRIBUTES"
  then obtain v where v: "(CE_KAFKA_PREFIX @ a, v) \<in> set hs" "v \<noteq> []"
    using valid unfolding validate_binary_required_Ok by blast
  show "\<exists>s. hm_get (attributes_of hs) a = Some (JString s) \<and> s \<noteq> []"
    using hm_get_attributes_of[OF d ok v(1)] v(2) by (simp add: attribute_of_required[OF a] of_bytes_def)
next
  have "map_option snd (find (\<lambda>(k, _). k = ''ce_specversion'') hs) = Some (as_bytes ''1.0'')"
    using valid unfolding validate_binary_required_Ok by blast
  then obtain k v where f: "find (\<lambda>(k, _). k = ''ce_specversion'') hs = Some (k, v)" "v = as_bytes ''1.0''"
    by auto
  have k: "k = ''ce_specversion''" "(k, v) \<in> set hs"
    using f(1) by (auto simp: find_Some_iff) (metis nth_mem)
  have "attribute_of ''ce_specversion'' = ''specversion''" by (simp add: attribute_of_def ce_names)
  thus "hm_get (attributes_of hs) ''specversion'' = Some (JString ''1.0'')"
    using hm_get_attributes_of[OF d ok k(2)] by (simp add: k(1) f(2))
qed

definition data_entry :: "'q web_lib \<Rightarrow> (string \<times> json) list \<Rightarrow> bytes \<Rightarrow> string \<times> json" where
  "data_entry lib event v =
     (case (case hm_get event DATA_CONTENT_TYPE of
              Some (JString m) \<Rightarrow> if is_json_media_type m then wl_from_slice lib v else None
            | _ \<Rightarrow> None) of
        Some data \<Rightarrow> (''data'', data)
      | None \<Rightarrow> (''data_base64'', JString (wl_b64_encode lib v)))"

lemma event_with_data_attributes:
  assumes "list_all ce_header_ok hs"
  shows "event_with_data lib (attributes_of hs) v = attributes_of hs @ [data_entry lib (attributes_of hs) v]"
proof -
  have "''data'' \<notin> fst ` set (attributes_of hs)" "''data_base64'' \<notin> fst ` set (attributes_of hs)"
    using hm_get_attributes_of_data[OF assms] by (auto simp: map_of_eq_None_iff)
  thus ?thesis by (simp add: event_with_data_def data_entry_def update_fresh Let_def split: option.split)
qed

lemma validate_attributes_event:
  assumes "validate_binary_required hs = Ok ()" "distinct (map fst hs)" "list_all ce_header_ok hs"
    and entry: "fst e = ''data'' \<or> fst e = ''data_base64''"
  shows "validate_structured_json (JObject (attributes_of hs @ [e])) = Ok ()"
proof -
  note ev = validated_event[OF assms(1-3)]
  have get: "hm_get (attributes_of hs @ [e]) a = hm_get (attributes_of hs) a" if "a \<in> set REQUIRED_ATTRIBUTES" for a
    using entry that ev(1)[OF that] by (auto simp: map_of_append map_add_def)
  have "check_required (\<lambda>a. case hm_get (attributes_of hs @ [e]) a of Some (JString s) \<Rightarrow> s \<noteq> [] | _ \<Rightarrow> False)
      REQUIRED_ATTRIBUTES = Ok ()"
    unfolding check_required_Ok using ev(1) get by fastforce
  moreover have "hm_get (attributes_of hs @ [e]) ''specversion'' = Some (JString ''1.0'')"
    using ev(2) get by (simp add: REQUIRED_ATTRIBUTES_def)
  moreover have "hm_get (attributes_of hs @ [e]) ''data'' = None \<or> hm_get (attributes_of hs @ [e]) ''data_base64'' = None"
    using entry hm_get_attributes_of_data[OF assms(3)] by (cases e) (auto simp: map_of_append map_add_def)
  ultimately show ?thesis by (auto simp: validate_structured_json_def)
qed

lemma binary_from_attributes:
  assumes "validate_binary_required hs = Ok ()" "distinct (map fst hs)" "list_all ce_header_ok hs"
    and b64: "wl_b64_decode lib (wl_b64_encode lib v) = Some v" and ser: "\<And>j. wl_to_vec lib j \<noteq> None"
  shows "\<exists>v'. binary_from_structured lib (JObject (event_with_data lib (attributes_of hs) v)) = Ok (hs, v') \<and>
           (v' = v \<or> (\<exists>d. wl_from_slice lib v = Some d \<and> wl_to_vec lib d = Some v'))"
proof -
  let ?e = "data_entry lib (attributes_of hs) v"
  have entry: "fst ?e = ''data'' \<or> fst ?e = ''data_base64''"
    by (auto simp: data_entry_def split: option.splits)
  have heads: "attribute_headers lib (attributes_of hs @ [?e]) = Ok hs"
    using entry attribute_headers_of[OF assms(3), of lib]
    by (cases ?e) (auto simp: attribute_headers_append attributes_of_def)
  note none = hm_get_attributes_of_data[OF assms(3)]
  note ev = validate_attributes_event[OF assms(1-3) entry] heads
  show ?thesis
  proof (cases "fst ?e = ''data''")
    case True
    then obtain d where d: "?e = (''data'', d)" "wl_from_slice lib v = Some d"
      by (auto simp: data_entry_def split: option.splits json.splits if_splits)
    obtain v' where v': "wl_to_vec lib d = Some v'" using ser[of d] by blast
    show ?thesis using ev none v' d(2)
      by (simp add: binary_from_structured_def event_with_data_attributes[OF assms(3)] d(1) map_of_append map_add_def)
  next
    case False
    hence d: "?e = (''data_base64'', JString (wl_b64_encode lib v))"
      by (auto simp: data_entry_def split: option.splits)
    show ?thesis using ev none b64
      by (simp add: binary_from_structured_def event_with_data_attributes[OF assms(3)] d map_of_append map_add_def)
  qed
qed

lemma structured_binary_round_trip_holds:
  assumes "validate_binary_required hs = Ok ()" "distinct (map fst hs)" "list_all ce_header_ok hs"
    and b64: "wl_b64_decode lib (wl_b64_encode lib v) = Some v" and ser: "\<And>j. wl_to_vec lib j \<noteq> None"
  shows "\<exists>event body hs' v'.
    structured_from_binary lib (map (apsnd Some) hs) v = Ok body \<and> wl_to_vec lib event = Some body \<and>
    binary_from_structured lib event = Ok (hs', v') \<and> set hs' = set hs \<and>
    (v' = v \<or> (\<exists>d. wl_from_slice lib v = Some d \<and> wl_to_vec lib d = Some v'))"
proof -
  let ?event = "JObject (event_with_data lib (attributes_of hs) v)"
  obtain body where body: "wl_to_vec lib ?event = Some body" using ser[of ?event] by blast
  have "event_attributes (map (apsnd Some) hs) [] = Ok (attributes_of hs)"
    using event_attributes_distinct[OF assms(3) distinct_attributes[OF assms(2,3)], of "[]"]
    by (simp add: attributes_of_def)
  hence "structured_from_binary lib (map (apsnd Some) hs) v = Ok body"
    by (simp add: structured_from_binary_def body)
  thus ?thesis using binary_from_attributes[OF assms] body by blast
qed

section \<open>Headers over HTTP\<close>

definition http_name :: "string \<Rightarrow> string" where
  "http_name name = (if name = CE_HTTP_PREFIX @ DATA_CONTENT_TYPE then CONTENT_TYPE else name)"

definition carried :: "string \<Rightarrow> bool" where
  "carried name \<longleftrightarrow> starts_with CE_HTTP_PREFIX name \<or> name = CONTENT_TYPE"

text \<open>What the HTTP types promise of a header that was received: its name is
  a legal name in normal form, its value is a legal value, and the text of a
  value has the value's bytes.\<close>

definition received_header :: "'q web_lib \<Rightarrow> string \<times> bytes \<Rightarrow> bool" where
  "received_header lib = (\<lambda>(n, v). wl_header_name lib n = Some n \<and> wl_header_value lib v \<and>
     (\<forall>s. wl_to_str lib v = Some s \<longrightarrow> as_bytes s = v))"

lemma strip_ce_kafka: "strip_prefix_str CE_KAFKA_PREFIX (CE_KAFKA_PREFIX @ a) = Some a"
  by (simp add: strip_prefix_str_def starts_with_append)

lemma strip_content_type: "strip_prefix_str CE_KAFKA_PREFIX CONTENT_TYPE = None"
  "strip_prefix_str CE_HTTP_PREFIX CONTENT_TYPE = None"
  by (simp_all add: strip_prefix_str_def starts_with_def ce_names)

lemma strip_prefix_str_Some: "strip_prefix_str t s = Some a \<longleftrightarrow> s = t @ a"
  by (auto simp: strip_prefix_str_def starts_with_append)

lemma strip_prefix_str_None: "strip_prefix_str t s = None \<longleftrightarrow> \<not> starts_with t s"
  by (auto simp: strip_prefix_str_def)

lemma http_kafka_round_trip:
  "list_all (received_header lib) hs \<Longrightarrow> http_headers_to_kafka lib hs = Ok ks \<Longrightarrow>
   kafka_headers_to_http lib (map (apsnd Some) ks) =
     Ok (map (apfst http_name) (filter (carried \<circ> fst) hs))"
proof (induction hs arbitrary: ks)
  case (Cons h hs)
  obtain n v where h: "h = (n, v)" by (cases h)
  have rec: "wl_header_name lib n = Some n" "wl_header_value lib v" "\<And>s. wl_to_str lib v = Some s \<Longrightarrow> as_bytes s = v"
    and rest: "list_all (received_header lib) hs"
    using Cons.prems(1) by (auto simp: h received_header_def)
  consider (attr) a where "n = CE_HTTP_PREFIX @ a" | (ct) "n = CONTENT_TYPE" | (other) "\<not> carried n"
    by (auto simp: carried_def starts_with_append)
  thus ?case
  proof cases
    case attr
    hence p: "strip_prefix_str CE_HTTP_PREFIX n = Some a" by (simp add: strip_prefix_str_Some)
    let ?k = "if a = DATA_CONTENT_TYPE then CONTENT_TYPE else CE_KAFKA_PREFIX @ a"
    obtain ks' where ks': "http_headers_to_kafka lib hs = Ok ks'" "ks = (?k, v) # ks'"
      using Cons.prems(2) rec(3) by (auto simp: h p Let_def and_then_def split: option.splits sum.splits)
    have c: "carried n" by (simp add: carried_def starts_with_append attr)
    show ?thesis
    proof (cases "a = DATA_CONTENT_TYPE")
      case True
      thus ?thesis using Cons.IH[OF rest ks'(1)] rec c
        by (simp add: h ks'(2) strip_content_type http_name_def attr)
    next
      case False
      thus ?thesis using Cons.IH[OF rest ks'(1)] rec c
        by (simp add: h ks'(2) strip_ce_kafka http_name_def attr)
    qed
  next
    case ct
    obtain ks' where ks': "http_headers_to_kafka lib hs = Ok ks'" "ks = (CONTENT_TYPE, v) # ks'"
      using Cons.prems(2) rec(3) by (auto simp: h ct strip_content_type and_then_def split: option.splits sum.splits)
    have c: "carried n" "http_name n = CONTENT_TYPE" by (simp_all add: carried_def ct http_name_def)
    show ?thesis using Cons.IH[OF rest ks'(1)] rec c
      by (simp add: h ks'(2) strip_content_type ct)
  next
    case other
    hence "strip_prefix_str CE_HTTP_PREFIX n = None" "n \<noteq> CONTENT_TYPE"
      by (auto simp: carried_def strip_prefix_str_None)
    thus ?thesis using Cons.IH[OF rest] Cons.prems(2) other by (simp add: h)
  qed
qed simp

section \<open>Two conversions that fail\<close>

lemma event_attributes_append:
  "event_attributes (xs @ ys) ev = and_then (event_attributes xs ev) (event_attributes ys)"
  by (induction xs ev rule: event_attributes.induct) (auto split: option.split)

text \<open>A header that is no attribute of the event still has to be UTF-8: any
  binary header on the record makes the conversion fail.\<close>

lemma unrelated_header_fails_conversion:
  assumes "event_attributes hs [] = Ok ev" "\<not> utf8_valid bad"
  shows "structured_from_binary lib (hs @ [(k, Some bad)]) v = Err (NonUtf8Attribute k)"
  using assms by (simp add: structured_from_binary_def event_attributes_append)

text \<open>An attribute named \<open>data\<close> and a body that is no JSON give an event with
  both \<open>data\<close> and \<open>data_base64\<close>, which the validation refuses.\<close>

lemma data_attribute_conflicts:
  assumes "hm_get ev ''data'' = Some j" "hm_get ev DATA_CONTENT_TYPE = None"
  shows "validate_structured_json (JObject (event_with_data lib ev v)) = Err ConflictingData"
  using assms by (simp add: event_with_data_def validate_structured_json_def)

section \<open>Properties\<close>


definition sample_web_lib :: "unit web_lib" where
  "sample_web_lib = \<lparr>
     wl_from_slice = \<lambda>b. if b = [] then None else Some (JString (of_bytes b)),
     wl_to_vec = \<lambda>j. Some (case j of JString s \<Rightarrow> as_bytes s | _ \<Rightarrow> []),
     wl_number = \<lambda>_. ''0'', wl_b64_encode = of_bytes, wl_b64_decode = \<lambda>s. Some (as_bytes s),
     wl_hex_encode = of_bytes, wl_hex_decode = \<lambda>s. Some (as_bytes s),
     wl_hmac = \<lambda>k m. k @ m, wl_to_str = \<lambda>b. Some (of_bytes b), wl_header_name = Some, wl_header_value = \<lambda>_. True,
     wl_json_path = \<lambda>_. Ok (), wl_query = \<lambda>_ _. None, wl_url = \<lambda>_. Err []\<rparr>"

definition sample_event :: "(string \<times> bytes) list" where
  "sample_event = [(''ce_id'', as_bytes ''1''), (''ce_source'', as_bytes ''s''), (''ce_type'', as_bytes ''t''),
     (''ce_specversion'', as_bytes ''1.0''), (''content-type'', as_bytes ''text/plain'')]"

lemma sample_event_ok:
  "validate_binary_required sample_event = Ok ()" "distinct (map fst sample_event)" "list_all ce_header_ok sample_event"
  by (simp_all add: sample_event_def validate_binary_required_Ok REQUIRED_ATTRIBUTES_def ce_header_ok_def ce_names
      starts_with_def as_bytes_def utf8_valid.simps(2) utf8_chunk_def)


text \<open>
  The CloudEvents headers of an HTTP request reach the receiver of the
  record unchanged: what the ingress stores in the record, the egress sends
  as the request's \<open>ce-\<close> and \<open>content-type\<close> headers in their order, with
  \<open>ce-datacontenttype\<close> as the binding's \<open>content-type\<close>, and nothing else.
\<close>

theorem cloud_event_headers_round_trip:
  assumes "list_all (received_header lib) hs" "http_headers_to_kafka lib hs = Ok ks"
  shows "kafka_headers_to_http lib (map (apsnd Some) ks) = Ok (map (apfst http_name) (filter (carried \<circ> fst) hs))"
  using assms by (rule http_kafka_round_trip)

theorem cloud_event_headers_round_trip_witness:
  "kafka_headers_to_http sample_web_lib (map (apsnd Some) [(''ce_id'', as_bytes ''1'')]) = Ok [(''ce-id'', as_bytes ''1'')]"
proof -
  have "kafka_headers_to_http sample_web_lib (map (apsnd Some) [(''ce_id'', as_bytes ''1'')]) =
      Ok (map (apfst http_name) (filter (carried \<circ> fst) [(''ce-id'', as_bytes ''1''), (''host'', as_bytes ''h'')]))"
    by (rule cloud_event_headers_round_trip)
      (simp_all add: received_header_def sample_web_lib_def strip_prefix_str_def starts_with_def ce_names)
  thus ?thesis by (simp add: carried_def http_name_def starts_with_def ce_names)
qed

end
