(* ===== verification/Gw_WebhookConfig.thy ===== *)
theory Gw_WebhookConfig
  imports Gw_CloudEvents
begin

text \<open>
  The webhook endpoints of the configuration file (\<open>webhook_config.rs\<close>): the
  raw and the compiled form, the compiler with every check it makes, HMAC
  signing and verification, and the extraction of a value from a request. The
  range checks are those of \<open>config_value.rs\<close>. A time is a rational number of
  seconds and a byte size a number of bytes; a message of the compiler is the
  context it names and a value of \<open>config_fault\<close>.
\<close>

section \<open>Validated scalars\<close>

datatype config_fault =
    NotPositive string
  | Negative string
  | NotARatio string
  | OutOfRange
  | NotAnInteger
  | StandardSetsHeaders
  | StandardNeedsToken
  | InvalidToken
  | EmptyToken
  | SecretHeaderPair
  | EmptySecret
  | UnknownSignatureEncoding string
  | StandardDedupSource
  | InvalidJsonPath string string
  | UnknownSourcePrefix
  | InvalidForwardHeader
  | ForwardsAuthentication
  | UnknownSchemaFormat string
  | EmptyGroupId
  | BackoffOrder
  | InvalidTargetUrl string string
  | NoTargetHost
  | TargetNotAllowed string string
  | InvalidFilter string
  | UnsupportedFilter
  | ReservedHeader string
  | DecodeWithBinary

definition refined_new :: "int \<Rightarrow> int \<Rightarrow> int \<Rightarrow> config_fault + int" where
  "refined_new lo hi v = (if lo \<le> v \<and> v \<le> hi then Ok v else Err OutOfRange)"

definition refined_from_str :: "int \<Rightarrow> int \<Rightarrow> (string \<Rightarrow> int option) \<Rightarrow> string \<Rightarrow> config_fault + int" where
  "refined_from_str lo hi parse s =
     (case parse s of None \<Rightarrow> Err NotAnInteger | Some v \<Rightarrow> refined_new lo hi v)"

definition PositiveI16 :: "int \<Rightarrow> config_fault + int" where "PositiveI16 = refined_new 1 32767"
definition PositiveU32 :: "int \<Rightarrow> config_fault + int" where "PositiveU32 = refined_new 1 4294967295"
definition PartitionCount :: "int \<Rightarrow> config_fault + int" where "PartitionCount = refined_new 1 2147483647"

definition positive_time :: "string \<Rightarrow> rat \<Rightarrow> config_fault + rat" where
  "positive_time field v = (if 0 < v then Ok v else Err (NotPositive field))"

definition non_negative_time :: "string \<Rightarrow> rat \<Rightarrow> config_fault + rat" where
  "non_negative_time field v = (if 0 \<le> v then Ok v else Err (Negative field))"

definition positive_byte_size :: "string \<Rightarrow> nat \<Rightarrow> config_fault + nat" where
  "positive_byte_size field v = (if 0 < v then Ok v else Err (NotPositive field))"

definition unit_ratio :: "string \<Rightarrow> rat \<Rightarrow> config_fault + rat" where
  "unit_ratio field v = (if 0 \<le> v \<and> v \<le> 1 then Ok v else Err (NotARatio field))"

type_synonym config_error = "string \<times> config_fault"

section \<open>Endpoints\<close>

datatype signature_mode = StandardWebhooks

record webhook_endpoint =
  we_name :: string
  we_target_topic :: string
  we_signature_mode :: "signature_mode option"
  we_principal :: "string option"
  we_secret :: "string option"
  we_signature_header :: "string option"
  we_signature_encoding :: "string option"
  we_signature_prefix :: "string option"
  we_timestamp_header :: "string option"
  we_timestamp_tolerance :: "rat option"
  we_idempotency_source :: "string option"
  we_key_source :: "string option"
  we_forward_headers :: "string list option"
  we_max_body :: "nat option"
  we_schema_subject :: "string option"
  we_schema_format :: "string option"

datatype 'q source = SourceHeader string | SourceJsonPath 'q

datatype sig_encoding = Hex | Base64

record 'q compiled_webhook =
  cw_target_topic :: string
  cw_signature_mode :: "signature_mode option"
  cw_principal :: string
  cw_secret :: "bytes option"
  cw_signature_header :: "string option"
  cw_signature_encoding :: sig_encoding
  cw_signature_prefix :: "string option"
  cw_timestamp_header :: "string option"
  cw_timestamp_tolerance :: rat
  cw_idempotency_source :: "'q source option"
  cw_key_source :: "'q source option"
  cw_forward_headers :: "string list"
  cw_max_body :: nat
  cw_schema_subject :: "string option"
  cw_schema_format :: schema_format

definition source_parse :: "'q web_lib \<Rightarrow> string \<Rightarrow> string \<Rightarrow> config_error + 'q source" where
  "source_parse lib spec ctx =
     (case strip_prefix_str ''header:'' spec of
        Some h \<Rightarrow> Ok (SourceHeader h)
      | None \<Rightarrow>
          (case strip_prefix_str ''json:'' spec of
             Some jp \<Rightarrow> (case wl_json_path lib jp of Err e \<Rightarrow> Err (ctx, InvalidJsonPath jp e) | Ok q \<Rightarrow> Ok (SourceJsonPath q))
           | None \<Rightarrow> Err (ctx, UnknownSourcePrefix)))"

definition opt_source :: "'q web_lib \<Rightarrow> string option \<Rightarrow> string \<Rightarrow> config_error + 'q source option" where
  "opt_source lib spec ctx =
     (case spec of None \<Rightarrow> Ok None | Some s \<Rightarrow> and_then (source_parse lib s ctx) (\<lambda>x. Ok (Some x)))"

definition parse_schema_format :: "string option \<Rightarrow> string \<Rightarrow> config_error + schema_format" where
  "parse_schema_format spec ctx =
     (case spec of
        None \<Rightarrow> Ok Json
      | Some f \<Rightarrow>
          if f = ''json'' then Ok Json
          else if f = ''avro'' then Ok Avro
          else if f = ''protobuf'' then Ok Protobuf
          else Err (ctx, UnknownSchemaFormat f))"

definition compile_secret :: "'q web_lib \<Rightarrow> string \<Rightarrow> webhook_endpoint \<Rightarrow> config_error + bytes option" where
  "compile_secret lib ctx e =
     (if we_signature_mode e = Some StandardWebhooks then
        if we_signature_header e \<noteq> None \<or> we_signature_encoding e \<noteq> None \<or>
           we_signature_prefix e \<noteq> None \<or> we_timestamp_header e \<noteq> None
        then Err (ctx, StandardSetsHeaders)
        else
          (case we_secret e of
             None \<Rightarrow> Err (ctx, StandardNeedsToken)
           | Some token \<Rightarrow>
               (case wl_b64_decode lib (case strip_prefix_str ''whsec_'' token of Some t \<Rightarrow> t | None \<Rightarrow> token) of
                  None \<Rightarrow> Err (ctx, InvalidToken)
                | Some key \<Rightarrow> if key = [] then Err (ctx, EmptyToken) else Ok (Some key)))
      else Ok (map_option as_bytes (we_secret e)))"

definition compile_encoding :: "string \<Rightarrow> string option \<Rightarrow> config_error + sig_encoding" where
  "compile_encoding ctx enc =
     (case enc of
        None \<Rightarrow> Ok Hex
      | Some s \<Rightarrow> if s = ''hex'' then Ok Hex else if s = ''base64'' then Ok Base64
                  else Err (ctx, UnknownSignatureEncoding s))"

definition authentication_headers :: "string list" where
  "authentication_headers = [''authorization'', ''cookie'', ''x-gitlab-token'', ''webhook-signature'']"

fun compile_forward_headers ::
    "'q web_lib \<Rightarrow> string \<Rightarrow> string option \<Rightarrow> string list \<Rightarrow> config_error + string list" where
  "compile_forward_headers lib ctx sig [] = Ok []"
| "compile_forward_headers lib ctx sig (name # names) =
     (case wl_header_name lib name of
        None \<Rightarrow> Err (ctx, InvalidForwardHeader)
      | Some header \<Rightarrow>
          if header \<in> set authentication_headers \<or>
             (case sig of Some s \<Rightarrow> eq_ignore_ascii_case s header | None \<Rightarrow> False)
          then Err (ctx, ForwardsAuthentication)
          else and_then (compile_forward_headers lib ctx sig names) (\<lambda>hs. Ok (header # hs)))"

definition compile_endpoint :: "'q web_lib \<Rightarrow> webhook_endpoint \<Rightarrow> config_error + 'q compiled_webhook" where
  "compile_endpoint lib e =
     (let ctx = ''[webhooks '' @ we_name e @ '']'' in
      and_then (compile_secret lib ctx e) (\<lambda>secret.
      if we_signature_mode e = None \<and> (we_secret e \<noteq> None) \<noteq> (we_signature_header e \<noteq> None)
      then Err (ctx, SecretHeaderPair)
      else if we_secret e = Some [] then Err (ctx, EmptySecret)
      else and_then (compile_encoding ctx (we_signature_encoding e)) (\<lambda>encoding.
      if we_signature_mode e \<noteq> None \<and>
         (case we_idempotency_source e of Some s \<Rightarrow> s \<noteq> ''header:webhook-id'' | None \<Rightarrow> False)
      then Err (ctx, StandardDedupSource)
      else and_then
        (opt_source lib
          (case we_idempotency_source e of
             Some s \<Rightarrow> Some s
           | None \<Rightarrow> map_option (\<lambda>_. ''header:webhook-id'') (we_signature_mode e))
          (ctx @ ''.idempotency_source'')) (\<lambda>idempotency_source.
      and_then (opt_source lib (we_key_source e) (ctx @ ''.key_source'')) (\<lambda>key_source.
      and_then (compile_forward_headers lib ctx (we_signature_header e)
                 (case we_forward_headers e of None \<Rightarrow> [] | Some hs \<Rightarrow> hs)) (\<lambda>forward_headers.
      and_then (parse_schema_format (we_schema_format e) ctx) (\<lambda>schema_format.
      and_then (map_err (Pair ctx) (non_negative_time ''timestamp_tolerance''
                 (case we_timestamp_tolerance e of None \<Rightarrow> 300 | Some t \<Rightarrow> t))) (\<lambda>timestamp_tolerance.
      and_then (map_err (Pair ctx) (positive_byte_size ''max_body''
                 (case we_max_body e of None \<Rightarrow> 1048576 | Some b \<Rightarrow> b))) (\<lambda>max_body.
      Ok \<lparr>cw_target_topic = we_target_topic e, cw_signature_mode = we_signature_mode e,
          cw_principal = (case we_principal e of Some p \<Rightarrow> p | None \<Rightarrow> ''webhook:'' @ we_name e),
          cw_secret = secret, cw_signature_header = we_signature_header e, cw_signature_encoding = encoding,
          cw_signature_prefix = we_signature_prefix e, cw_timestamp_header = we_timestamp_header e,
          cw_timestamp_tolerance = timestamp_tolerance, cw_idempotency_source = idempotency_source,
          cw_key_source = key_source, cw_forward_headers = forward_headers, cw_max_body = max_body,
          cw_schema_subject = we_schema_subject e, cw_schema_format = schema_format\<rparr>)))))))))"

fun compile_webhooks_from ::
    "'q web_lib \<Rightarrow> webhook_endpoint list \<Rightarrow> (string, 'q compiled_webhook) hashmap \<Rightarrow>
     config_error + (string, 'q compiled_webhook) hashmap" where
  "compile_webhooks_from lib [] out = Ok out"
| "compile_webhooks_from lib (e # es) out =
     and_then (compile_endpoint lib e) (\<lambda>cw. compile_webhooks_from lib es (hm_insert (we_name e) cw out))"

definition compile_webhooks :: "'q web_lib \<Rightarrow> webhook_endpoint list \<Rightarrow> config_error + (string, 'q compiled_webhook) hashmap" where
  "compile_webhooks lib endpoints = compile_webhooks_from lib endpoints []"

section \<open>Signatures\<close>

definition sign_hmac_hex :: "'q web_lib \<Rightarrow> bytes \<Rightarrow> bytes \<Rightarrow> string" where
  "sign_hmac_hex lib secret body = wl_hex_encode lib (wl_hmac lib secret body)"

definition sign_hmac_base64 :: "'q web_lib \<Rightarrow> bytes \<Rightarrow> bytes \<Rightarrow> string" where
  "sign_hmac_base64 lib secret body = wl_b64_encode lib (wl_hmac lib secret body)"

definition sig_decode :: "'q web_lib \<Rightarrow> sig_encoding \<Rightarrow> string \<Rightarrow> bytes option" where
  "sig_decode lib encoding s = (case encoding of Hex \<Rightarrow> wl_hex_decode lib s | Base64 \<Rightarrow> wl_b64_decode lib s)"

definition verify_signature ::
    "'q web_lib \<Rightarrow> bytes \<Rightarrow> bytes \<Rightarrow> string \<Rightarrow> sig_encoding \<Rightarrow> string option \<Rightarrow> bool" where
  "verify_signature lib secret body provided encoding prefix =
     (let computed = wl_hmac lib secret body in
      case (case prefix of Some p \<Rightarrow> strip_prefix_str p provided | None \<Rightarrow> Some provided) of
        None \<Rightarrow> False
      | Some sig_str \<Rightarrow>
          (case sig_decode lib encoding sig_str of
             None \<Rightarrow> False
           | Some decoded \<Rightarrow> length computed = length decoded \<and> computed = decoded))"

section \<open>Extracting a value\<close>

fun first_scalar :: "'q web_lib \<Rightarrow> json list \<Rightarrow> string option" where
  "first_scalar lib [] = None"
| "first_scalar lib (v # vs) =
     (case v of
        JString s \<Rightarrow> if s \<noteq> [] then Some s else first_scalar lib vs
      | JNumber n \<Rightarrow> Some (wl_number lib n)
      | _ \<Rightarrow> first_scalar lib vs)"

definition extract_source :: "'q web_lib \<Rightarrow> 'q source \<Rightarrow> header_map \<Rightarrow> json option \<Rightarrow> string option" where
  "extract_source lib src headers body_json =
     (case src of
        SourceHeader h \<Rightarrow> Option.bind (header_first headers h) (wl_to_str lib)
      | SourceJsonPath q \<Rightarrow>
          Option.bind body_json (\<lambda>j. Option.bind (wl_query lib q j) (first_scalar lib)))"

section \<open>What the compiler guarantees\<close>

definition webhook_ok :: "'q compiled_webhook \<Rightarrow> bool" where
  "webhook_ok cw \<longleftrightarrow>
     (case cw_signature_mode cw of
        Some StandardWebhooks \<Rightarrow>
          (\<exists>key. cw_secret cw = Some key \<and> key \<noteq> []) \<and> cw_signature_header cw = None \<and>
          cw_timestamp_header cw = None \<and> cw_idempotency_source cw = Some (SourceHeader ''webhook-id'')
      | None \<Rightarrow> (cw_secret cw \<noteq> None) = (cw_signature_header cw \<noteq> None) \<and> cw_secret cw \<noteq> Some []) \<and>
     set (cw_forward_headers cw) \<inter> set authentication_headers = {} \<and>
     (\<forall>s. cw_signature_header cw = Some s \<longrightarrow> (\<forall>h\<in>set (cw_forward_headers cw). \<not> eq_ignore_ascii_case s h)) \<and>
     0 \<le> cw_timestamp_tolerance cw \<and> 0 < cw_max_body cw"

lemma compile_forward_headers_Ok:
  "compile_forward_headers lib ctx sig names = Ok hs \<Longrightarrow>
   set hs \<inter> set authentication_headers = {} \<and>
   (\<forall>s. sig = Some s \<longrightarrow> (\<forall>h\<in>set hs. \<not> eq_ignore_ascii_case s h))"
proof (induction names arbitrary: hs)
  case (Cons name names)
  obtain h hs' where h: "wl_header_name lib name = Some h" "hs = h # hs'" "h \<notin> set authentication_headers"
    "\<And>s. sig = Some s \<Longrightarrow> \<not> eq_ignore_ascii_case s h" "compile_forward_headers lib ctx sig names = Ok hs'"
    using Cons.prems by (auto simp: and_then_Ok_iff split: option.splits if_splits)
  show ?case using Cons.IH[OF h(5)] h(2-4) by auto
qed simp

lemma compile_secret_Ok:
  assumes "compile_secret lib ctx e = Ok secret"
  shows "we_signature_mode e = Some StandardWebhooks \<Longrightarrow>
      (\<exists>key. secret = Some key \<and> key \<noteq> []) \<and> we_signature_header e = None \<and> we_timestamp_header e = None"
    and "we_signature_mode e = None \<Longrightarrow> secret = map_option as_bytes (we_secret e)"
  using assms by (auto simp: compile_secret_def split: if_splits option.splits)

lemma source_parse_webhook_id: "source_parse lib ''header:webhook-id'' ctx = Ok (SourceHeader ''webhook-id'')"
  by (simp add: source_parse_def strip_prefix_str_def starts_with_def)

lemma as_bytes_Nil_iff [simp]: "as_bytes s = [] \<longleftrightarrow> s = []"
  by (simp add: as_bytes_def)

lemma mode_cases: obtains "m = None" | "m = Some StandardWebhooks"
  by (cases m) (auto, metis signature_mode.exhaust)

lemma and_then_OkE: "and_then r f = Ok b \<Longrightarrow> (\<And>a. r = Ok a \<Longrightarrow> f a = Ok b \<Longrightarrow> P) \<Longrightarrow> P"
  by (auto simp: and_then_Ok_iff)

lemma guard_OkE: "(if c then Err x else t) = Ok b \<Longrightarrow> (\<not> c \<Longrightarrow> t = Ok b \<Longrightarrow> P) \<Longrightarrow> P"
  by (auto split: if_splits)

lemma map_err_Ok [simp]: "map_err f r = Ok b \<longleftrightarrow> r = Ok b"
  by (cases r) (simp_all add: map_err_def)

lemma non_negative_time_Ok [simp]: "non_negative_time n v = Ok t \<longleftrightarrow> 0 \<le> v \<and> t = v"
  by (auto simp: non_negative_time_def)

lemma positive_byte_size_Ok [simp]: "positive_byte_size n v = Ok t \<longleftrightarrow> 0 < v \<and> t = v"
  by (auto simp: positive_byte_size_def)

lemma compile_endpoint_ok:
  assumes "compile_endpoint lib e = Ok cw" shows "webhook_ok cw"
proof -
  define ctx where "ctx = ''[webhooks '' @ we_name e @ '']''"
  obtain secret idem fwd tol max_body where
    s: "compile_secret lib ctx e = Ok secret"
    and pair: "we_signature_mode e = None \<Longrightarrow> (we_secret e \<noteq> None) = (we_signature_header e \<noteq> None)"
    and empty: "we_secret e \<noteq> Some []"
    and dedup: "\<not> (we_signature_mode e \<noteq> None \<and>
         (case we_idempotency_source e of Some s \<Rightarrow> s \<noteq> ''header:webhook-id'' | None \<Rightarrow> False))"
    and idem: "opt_source lib (case we_idempotency_source e of Some s \<Rightarrow> Some s
           | None \<Rightarrow> map_option (\<lambda>_. ''header:webhook-id'') (we_signature_mode e)) (ctx @ ''.idempotency_source'') = Ok idem"
    and fwd: "compile_forward_headers lib ctx (we_signature_header e)
                 (case we_forward_headers e of None \<Rightarrow> [] | Some hs \<Rightarrow> hs) = Ok fwd"
    and tol: "0 \<le> tol" and mb: "0 < max_body"
    and cw: "cw_signature_mode cw = we_signature_mode e" "cw_secret cw = secret"
      "cw_signature_header cw = we_signature_header e" "cw_timestamp_header cw = we_timestamp_header e"
      "cw_idempotency_source cw = idem" "cw_forward_headers cw = fwd" "cw_timestamp_tolerance cw = tol"
      "cw_max_body cw = max_body"
    using assms unfolding compile_endpoint_def Let_def ctx_def[symmetric]
    apply (elim and_then_OkE guard_OkE)
    subgoal premises p for secret enc idem key fwd fmt tol mb
    proof (rule p(1)[OF p(2) _ p(4) p(6) p(7) p(9)])
      show "(we_secret e \<noteq> None) = (we_signature_header e \<noteq> None)" if "we_signature_mode e = None"
        using p(3) that by blast
      show "0 \<le> tol" using p(11) unfolding map_err_Ok non_negative_time_Ok by simp
      show "0 < mb" using p(12) unfolding map_err_Ok positive_byte_size_Ok by simp
    qed (use p(13) in auto)
    done
  have f: "set fwd \<inter> set authentication_headers = {} \<and>
      (\<forall>s. we_signature_header e = Some s \<longrightarrow> (\<forall>h\<in>set fwd. \<not> eq_ignore_ascii_case s h))"
    by (rule compile_forward_headers_Ok[OF fwd])
  show ?thesis
  proof (cases "we_signature_mode e" rule: mode_cases)
    case 1
    thus ?thesis using compile_secret_Ok(2)[OF s 1] pair empty f tol mb by (auto simp: webhook_ok_def cw)
  next
    case 2
    have "idem = Some (SourceHeader ''webhook-id'')"
      using idem dedup 2 by (cases "we_idempotency_source e") (auto simp: opt_source_def source_parse_webhook_id)
    thus ?thesis using compile_secret_Ok(1)[OF s 2] f tol mb by (auto simp: webhook_ok_def cw 2)
  qed
qed

lemma compile_webhooks_from_ok:
  "compile_webhooks_from lib es out = Ok m \<Longrightarrow> \<forall>cw\<in>ran (hm_get out). webhook_ok cw \<Longrightarrow>
   \<forall>cw\<in>ran (hm_get m). webhook_ok cw"
proof (induction es arbitrary: out)
  case (Cons e es)
  obtain cw where c: "compile_endpoint lib e = Ok cw" "compile_webhooks_from lib es (hm_insert (we_name e) cw out) = Ok m"
    using Cons.prems(1) by (auto simp: and_then_Ok_iff)
  have "\<forall>x\<in>ran (hm_get (hm_insert (we_name e) cw out)). webhook_ok x"
    using compile_endpoint_ok[OF c(1)] Cons.prems(2) by (auto simp: ran_def split: if_splits)
  thus ?case by (rule Cons.IH[OF c(2)])
qed simp

lemma compile_webhooks_ok:
  assumes "compile_webhooks lib es = Ok m" "hm_get m name = Some cw" shows "webhook_ok cw"
  using compile_webhooks_from_ok[of lib es "[]" m] assms
  by (auto simp: compile_webhooks_def ran_def)

text \<open>A signature that the gateway makes is one that it accepts.\<close>

lemma sign_verify:
  assumes "\<And>b. wl_hex_decode lib (wl_hex_encode lib b) = Some b" "\<And>b. wl_b64_decode lib (wl_b64_encode lib b) = Some b"
  shows "verify_signature lib secret body (p @ sign_hmac_hex lib secret body) Hex (Some p)"
    and "verify_signature lib secret body (p @ sign_hmac_base64 lib secret body) Base64 (Some p)"
  using assms by (simp_all add: verify_signature_def sign_hmac_hex_def sign_hmac_base64_def sig_decode_def
      strip_prefix_str_def starts_with_def)

section \<open>Properties\<close>

text \<open>
  Every endpoint of a configuration that the compiler accepts is sound. A
  Standard Webhooks endpoint has a signing key that is not empty, and takes its
  deduplication key from the signed message id; any other endpoint verifies
  signatures exactly when it has a secret, and the secret is not empty. No
  endpoint copies a header that carries a credential into a record, the body
  limit is positive and the timestamp tolerance is not negative.
\<close>

theorem compiled_webhook_ok:
  assumes "compile_webhooks lib es = Ok m" "hm_get m name = Some cw"
  shows "webhook_ok cw"
  using assms by (rule compile_webhooks_ok)

definition sample_endpoint :: webhook_endpoint where
  "sample_endpoint = \<lparr>we_name = ''gl'', we_target_topic = ''t'', we_signature_mode = Some StandardWebhooks,
     we_principal = None, we_secret = Some ''whsec_k'', we_signature_header = None, we_signature_encoding = None,
     we_signature_prefix = None, we_timestamp_header = None, we_timestamp_tolerance = None,
     we_idempotency_source = None, we_key_source = None, we_forward_headers = None, we_max_body = None,
     we_schema_subject = None, we_schema_format = None\<rparr>"

definition sample_webhook :: "unit compiled_webhook" where
  "sample_webhook = \<lparr>cw_target_topic = ''t'', cw_signature_mode = Some StandardWebhooks, cw_principal = ''webhook:gl'',
     cw_secret = Some (as_bytes ''k''), cw_signature_header = None, cw_signature_encoding = Hex,
     cw_signature_prefix = None, cw_timestamp_header = None, cw_timestamp_tolerance = 300,
     cw_idempotency_source = Some (SourceHeader ''webhook-id''), cw_key_source = None, cw_forward_headers = [],
     cw_max_body = 1048576, cw_schema_subject = None, cw_schema_format = Json\<rparr>"

lemma compile_sample: "compile_webhooks sample_web_lib [sample_endpoint] = Ok [(''gl'', sample_webhook)]"
proof -
  have b64: "wl_b64_decode sample_web_lib s = Some (as_bytes s)" for s by (simp add: sample_web_lib_def)
  show ?thesis
    by (simp add: compile_webhooks_def compile_endpoint_def compile_secret_def sample_endpoint_def sample_webhook_def
        b64 strip_prefix_str_def starts_with_def compile_encoding_def opt_source_def source_parse_webhook_id
        parse_schema_format_def non_negative_time_def positive_byte_size_def map_err_def)
qed

theorem compiled_webhook_ok_witness: "webhook_ok sample_webhook"
  by (rule compiled_webhook_ok[OF compile_sample, of "''gl''"]) simp

end
