(* ===== verification/Gw_Webhook.thy ===== *)
theory Gw_Webhook
  imports Gw_WebhookConfig Gw_Send
begin

text \<open>
  The inbound webhook routes: Standard Webhooks authentication
  (\<open>standard_webhooks.rs\<close>) and the two handlers of \<open>webhook.rs\<close>, the named
  endpoint and the generic produce endpoint, over the produce core of
  \<open>Gw_Produce\<close>. A request is its headers, the body the client sends, whether
  reading it fails and whether it misses the deadline. An early return is the
  metrics it records and its status.
\<close>

section \<open>Standard Webhooks\<close>

definition ascii_whitespace :: "char \<Rightarrow> bool" where
  "ascii_whitespace c \<longleftrightarrow> code c \<in> {9, 10, 12, 13, 32}"

function split_ascii_whitespace :: "string \<Rightarrow> string list" where
  "split_ascii_whitespace s =
     (let t = dropWhile ascii_whitespace s in
      if t = [] then []
      else takeWhile (\<lambda>c. \<not> ascii_whitespace c) t # split_ascii_whitespace (dropWhile (\<lambda>c. \<not> ascii_whitespace c) t))"
  by pat_completeness auto
termination
proof (relation "measure length", goal_cases)
  case (2 s t)
  obtain c cs where t: "t = c # cs" using 2(2) by (cases t) auto
  have "\<not> ascii_whitespace c" using 2(1) t by (metis hd_dropWhile list.sel(1) list.discI)
  hence "length (dropWhile (\<lambda>c. \<not> ascii_whitespace c) t) \<le> length cs"
    by (simp add: t length_dropWhile_le)
  also have "length cs < length t" by (simp add: t)
  also have "length t \<le> length s" unfolding 2(1) by (rule length_dropWhile_le)
  finally show ?case by simp
qed simp

definition std_header :: "'q web_lib \<Rightarrow> header_map \<Rightarrow> string \<Rightarrow> string option" where
  "std_header lib headers name =
     (case header_get_all headers name of
        [v] \<Rightarrow> (case wl_to_str lib v of Some s \<Rightarrow> if s \<noteq> [] then Some s else None | None \<Rightarrow> None)
      | _ \<Rightarrow> None)"

definition signed_content :: "string \<Rightarrow> string \<Rightarrow> bytes \<Rightarrow> bytes" where
  "signed_content mid timestamp body = as_bytes mid @ as_bytes ''.'' @ as_bytes timestamp @ as_bytes ''.'' @ body"

definition v1_signature :: "'q web_lib \<Rightarrow> string \<Rightarrow> bytes option" where
  "v1_signature lib s = Option.bind (strip_prefix_str ''v1,'' s) (wl_b64_decode lib)"

definition authenticate ::
    "'q web_lib \<Rightarrow> 'q compiled_webhook \<Rightarrow> header_map \<Rightarrow> bytes \<Rightarrow> int \<Rightarrow> (string \<times> string) option" where
  "authenticate lib cfg headers body now =
     Option.bind (std_header lib headers ''webhook-id'') (\<lambda>mid.
     if 512 < length mid then None
     else Option.bind (std_header lib headers ''webhook-timestamp'') (\<lambda>timestamp.
     if \<not> list_all is_ascii_digit timestamp then None
     else Option.bind (parse_i64 timestamp) (\<lambda>epoch.
     let skew = \<bar>now - epoch\<bar> in
     if \<not> in_i64 skew \<or> cw_timestamp_tolerance cfg < of_int skew then None
     else Option.bind (std_header lib headers ''webhook-signature'') (\<lambda>signatures.
     Option.bind (cw_secret cfg) (\<lambda>secret.
     if list_ex (\<lambda>s. v1_signature lib s = Some (wl_hmac lib secret (signed_content mid timestamp body)))
          (split_ascii_whitespace signatures)
     then Some (mid, timestamp) else None)))))"

section \<open>Requests\<close>

record webhook_request =
  wq_headers :: header_map
  wq_body :: bytes
  wq_broken :: bool
  wq_late :: bool

type_synonym refusal = "metric list \<times> nat"

definition unauthenticated :: refusal where
  "unauthenticated = ([RecordWebhookIn ''unauthenticated''], 401)"

definition to_bytes :: "webhook_request \<Rightarrow> nat \<Rightarrow> bytes option" where
  "to_bytes rq limit = (if wq_broken rq \<or> limit < length (wq_body rq) then None else Some (wq_body rq))"

definition is_standard :: "'q compiled_webhook \<Rightarrow> bool" where
  "is_standard cfg \<longleftrightarrow> cw_signature_mode cfg = Some StandardWebhooks"

definition collect_body :: "'q compiled_webhook \<Rightarrow> webhook_request \<Rightarrow> refusal + bytes" where
  "collect_body cfg rq =
     (if is_standard cfg \<and> wq_late rq then Err ([], 408)
      else case to_bytes rq (cw_max_body cfg) of
             None \<Rightarrow> Err ([RecordWebhookIn ''too_large''], 413)
           | Some body \<Rightarrow> Ok body)"

definition check_standard ::
    "'q web_lib \<Rightarrow> 'q compiled_webhook \<Rightarrow> header_map \<Rightarrow> bytes \<Rightarrow> int \<Rightarrow> bool \<Rightarrow> refusal + unit" where
  "check_standard lib cfg headers body now has_dedup =
     (if is_standard cfg then
        if authenticate lib cfg headers body now = None then Err unauthenticated
        else if \<not> has_dedup then Err ([], 503)
        else Ok ()
      else Ok ())"

definition check_timestamp :: "'q web_lib \<Rightarrow> 'q compiled_webhook \<Rightarrow> header_map \<Rightarrow> int \<Rightarrow> bool" where
  "check_timestamp lib cfg headers now =
     (case cw_timestamp_header cfg of
        None \<Rightarrow> True
      | Some ts_header \<Rightarrow>
          (case Option.bind (Option.bind (header_first headers ts_header) (wl_to_str lib)) parse_i64 of
             None \<Rightarrow> False
           | Some ts \<Rightarrow>
               let skew = (if in_i64 \<bar>now - ts\<bar> then \<bar>now - ts\<bar> else i64_MAX)
               in of_int skew \<le> cw_timestamp_tolerance cfg))"

definition check_hmac ::
    "'q web_lib \<Rightarrow> 'q compiled_webhook \<Rightarrow> header_map \<Rightarrow> bytes \<Rightarrow> int \<Rightarrow> refusal + unit" where
  "check_hmac lib cfg headers body now =
     (case cw_signature_header cfg of
        None \<Rightarrow> Ok ()
      | Some sig_header \<Rightarrow>
          (case Option.bind (header_first headers sig_header) (wl_to_str lib) of
             None \<Rightarrow> Err unauthenticated
           | Some provided \<Rightarrow>
               if \<not> check_timestamp lib cfg headers now then Err unauthenticated
               else if \<not> verify_signature lib (case cw_secret cfg of Some s \<Rightarrow> s | None \<Rightarrow> []) body provided
                         (cw_signature_encoding cfg) (cw_signature_prefix cfg)
               then Err unauthenticated
               else Ok ()))"

definition needs_json :: "'q compiled_webhook \<Rightarrow> bool" where
  "needs_json cfg =
     (let json_src = (\<lambda>src. case src of Some (SourceJsonPath _) \<Rightarrow> True | _ \<Rightarrow> False)
      in json_src (cw_idempotency_source cfg) \<or> json_src (cw_key_source cfg))"

definition extract_keys ::
    "'q web_lib \<Rightarrow> 'q compiled_webhook \<Rightarrow> header_map \<Rightarrow> bytes \<Rightarrow> refusal + string option \<times> string option" where
  "extract_keys lib cfg headers body =
     (let body_json = (if needs_json cfg then wl_from_slice lib body else None) in
      and_then
        (case cw_idempotency_source cfg of
           None \<Rightarrow> Ok None
         | Some src \<Rightarrow>
             (case extract_source lib src headers body_json of
                Some k \<Rightarrow> Ok (Some k)
              | None \<Rightarrow> Err ([RecordWebhookIn ''bad_request''], 400))) (\<lambda>idempotency_key.
      and_then
        (case cw_key_source cfg of
           None \<Rightarrow> Ok None
         | Some src \<Rightarrow>
             (case extract_source lib src headers body_json of
                Some k \<Rightarrow> Ok (Some k)
              | None \<Rightarrow> Err ([], 400))) (\<lambda>key.
      Ok (idempotency_key, key))))"

section \<open>CloudEvents ingress\<close>

record translated_ingress =
  ti_headers :: "header list"
  ti_value :: bytes
  ti_is_cloud_event :: bool

definition translate_cloudevent_ingress ::
    "'q web_lib \<Rightarrow> header_map \<Rightarrow> bytes \<Rightarrow> nat + translated_ingress" where
  "translate_cloudevent_ingress lib headers body =
     (let media_type = Option.bind (header_first headers ''content-type'') (wl_to_str lib);
          has_ce_header = list_ex (\<lambda>(name, _). starts_with ''ce-'' name) headers
      in case detect_content_mode media_type has_ce_header of
           IngressBatch \<Rightarrow> Err 415
         | NotCloudEvent \<Rightarrow> Ok \<lparr>ti_headers = [], ti_value = body, ti_is_cloud_event = False\<rparr>
         | IngressBinary \<Rightarrow>
             and_then (map_err (\<lambda>_. 400) (http_headers_to_kafka lib headers)) (\<lambda>translated.
             and_then (map_err (\<lambda>_. 400) (validate_binary_required translated)) (\<lambda>_.
             Ok \<lparr>ti_headers = map (apsnd Some) translated, ti_value = body, ti_is_cloud_event = True\<rparr>))
         | IngressStructured \<Rightarrow>
             (case wl_from_slice lib body of
                None \<Rightarrow> Err 400
              | Some event \<Rightarrow>
                  and_then (map_err (\<lambda>_. 400) (validate_structured_json event)) (\<lambda>_.
                  let content_type = (case media_type of Some m \<Rightarrow> m | None \<Rightarrow> ''application/cloudevents+json'') in
                  Ok \<lparr>ti_headers = [(''content-type'', Some (as_bytes content_type))],
                      ti_value = body, ti_is_cloud_event = True\<rparr>)))"

section \<open>The record of a request\<close>

definition forwarded_headers :: "'q compiled_webhook \<Rightarrow> header_map \<Rightarrow> header list" where
  "forwarded_headers cfg headers =
     concat (map (\<lambda>name. map (\<lambda>v. (name, Some v)) (header_get_all headers name)) (cw_forward_headers cfg)) @
     (if cw_signature_mode cfg \<noteq> None then
        map (\<lambda>name. (name, header_first headers name))
          (filter (\<lambda>name. name \<notin> set (cw_forward_headers cfg)) [''webhook-id'', ''webhook-timestamp''])
      else [])"

definition webhook_record ::
    "'q compiled_webhook \<Rightarrow> header_map \<Rightarrow> translated_ingress \<Rightarrow> string option \<Rightarrow> string option \<Rightarrow> gateway_record" where
  "webhook_record cfg headers translated idempotency_key key =
     \<lparr>gr_topic = cw_target_topic cfg,
      gr_key = map_option as_bytes key,
      gr_value = ti_value translated,
      gr_body_structured =
        (if ti_is_cloud_event translated then None
         else map_option (\<lambda>subject. (ti_value translated,
                \<lparr>sel_subject = Some subject, sel_id = None, sel_format = cw_schema_format cfg\<rparr>)) (cw_schema_subject cfg)),
      gr_headers = ti_headers translated @ forwarded_headers cfg headers,
      gr_partition = None, gr_timestamp_ms = None, gr_idempotency_key = idempotency_key\<rparr>"

text \<open>Steps 2 to 7 of the handler: everything up to the record, with the first
  refusal on the way.\<close>

definition accept_request ::
    "'q web_lib \<Rightarrow> 'q compiled_webhook \<Rightarrow> webhook_request \<Rightarrow> int \<Rightarrow> bool \<Rightarrow> refusal + gateway_record" where
  "accept_request lib cfg rq now has_dedup =
     and_then (collect_body cfg rq) (\<lambda>body.
     and_then (check_standard lib cfg (wq_headers rq) body now has_dedup) (\<lambda>_.
     and_then (check_hmac lib cfg (wq_headers rq) body now) (\<lambda>_.
     and_then (extract_keys lib cfg (wq_headers rq) body) (\<lambda>(idempotency_key, key).
     and_then
       (if cw_signature_mode cfg \<noteq> None
        then Ok \<lparr>ti_headers = [], ti_value = body, ti_is_cloud_event = False\<rparr>
        else map_err (\<lambda>status. ([RecordWebhookIn ''bad_request''], status))
               (translate_cloudevent_ingress lib (wq_headers rq) body)) (\<lambda>translated.
     Ok (webhook_record cfg (wq_headers rq) translated idempotency_key key))))))"

section \<open>Producing and responding\<close>

record webhook_response =
  wp_partition :: int
  wp_offset :: int
  wp_deduplicated :: bool

type_synonym http_reply = "nat \<times> webhook_response option"

definition emit_core :: "metric \<Rightarrow> 'w produce_core \<Rightarrow> 'w produce_core" where
  "emit_core m g = g\<lparr>co_replica := emit m (co_replica g)\<rparr>"

definition refuse :: "refusal \<Rightarrow> 'w produce_core \<Rightarrow> http_reply \<times> 'w produce_core" where
  "refuse rf g = ((snd rf, None), fold emit_core (fst rf) g)"

definition error_status :: "gateway_error \<Rightarrow> string \<times> nat" where
  "error_status e =
     (case e of
        Unauthorized _ \<Rightarrow> (''unauthorized'', 403)
      | Unavailable \<Rightarrow> (''error'', 503)
      | Codec (Registry _) \<Rightarrow> (''error'', 503)
      | Codec _ \<Rightarrow> (''bad_request'', 400)
      | _ \<Rightarrow> (''error'', 500))"

definition produce_and_respond ::
    "'w externals \<Rightarrow> gateway_authz \<Rightarrow> gateway_record \<Rightarrow> principal \<Rightarrow> string \<Rightarrow> 'w produce_core \<Rightarrow>
     http_reply \<times> 'w produce_core" where
  "produce_and_respond ex a rec p host g =
     (if authorize_resource a p host Topic (gr_topic rec) Write = Deny
      then refuse ([RecordWebhookIn ''unauthorized''], 403) g
      else case produce ex rec p g of
             (Ok out, g) \<Rightarrow>
               ((200, Some \<lparr>wp_partition = out_partition out, wp_offset = out_offset out,
                            wp_deduplicated = out_deduplicated out\<rparr>), emit_core (RecordWebhookIn ''ok'') g)
           | (Err e, g) \<Rightarrow> refuse ([RecordWebhookIn (fst (error_status e))], snd (error_status e)) g)"

text \<open>The drop guard of a request: the gauge goes up on entry; the duration is
  observed and the gauge goes down on every return path.\<close>

definition with_request_guard ::
    "'w externals \<Rightarrow> string \<Rightarrow> ('w produce_core \<Rightarrow> 'r \<times> 'w produce_core) \<Rightarrow> 'w produce_core \<Rightarrow> 'r \<times> 'w produce_core" where
  "with_request_guard ex method f g =
     (case f (emit_core IncInflight g) of
        (r, g) \<Rightarrow> (r, emit_core DecInflight
                       (emit_core (ObserveRequestDuration method (ex_elapsed ex (rp_world (co_replica g)))) g)))"

definition webhook_principal :: "'q compiled_webhook \<Rightarrow> principal" where
  "webhook_principal cfg = \<lparr>p_name = cw_principal cfg, p_auth_method = MTls, p_groups = []\<rparr>"

text \<open>The named endpoint. On a Standard Webhooks endpoint the produce runs in a task of
  its own: when it misses the deadline (\<open>produce_late\<close>) the client gets 503
  and the produce still completes.\<close>

definition webhook_handler ::
    "'w externals \<Rightarrow> 'q web_lib \<Rightarrow> gateway_authz \<Rightarrow> (string, 'q compiled_webhook) hashmap \<Rightarrow> int \<Rightarrow> bool \<Rightarrow>
     string \<Rightarrow> string option \<Rightarrow> webhook_request \<Rightarrow> 'w produce_core \<Rightarrow> http_reply \<times> 'w produce_core" where
  "webhook_handler ex lib a webhooks now produce_late name peer rq =
     with_request_guard ex ''webhook_in'' (\<lambda>g.
       case hm_get webhooks name of
         None \<Rightarrow> refuse ([RecordWebhookIn ''not_found''], 404) g
       | Some cfg \<Rightarrow>
           (case accept_request lib cfg rq now (co_dedup g) of
              Err rf \<Rightarrow> refuse rf g
            | Ok rec \<Rightarrow>
                (case produce_and_respond ex a rec (webhook_principal cfg) (peer_or_default peer) g of
                   (reply, g) \<Rightarrow>
                     if cw_signature_mode cfg \<noteq> None \<and> produce_late
                     then refuse ([RecordWebhookIn ''error''], 503) g
                     else (reply, g))))"

definition produce_handler ::
    "'w externals \<Rightarrow> 'q web_lib \<Rightarrow> gateway_authz \<Rightarrow> nat \<Rightarrow> string \<Rightarrow> string option \<Rightarrow> principal option \<Rightarrow>
     webhook_request \<Rightarrow> 'w produce_core \<Rightarrow> http_reply \<times> 'w produce_core" where
  "produce_handler ex lib a produce_max_body topic peer caller rq =
     with_request_guard ex ''produce_http'' (\<lambda>g.
       case to_bytes rq produce_max_body of
         None \<Rightarrow> refuse ([], 413) g
       | Some body \<Rightarrow>
           let idempotency_key = Option.bind (header_first (wq_headers rq) ''Idempotency-Key'') (wl_to_str lib) in
           (case translate_cloudevent_ingress lib (wq_headers rq) body of
              Err status \<Rightarrow> refuse ([RecordWebhookIn ''bad_request''], status) g
            | Ok translated \<Rightarrow>
                produce_and_respond ex a
                  \<lparr>gr_topic = topic, gr_key = None, gr_value = ti_value translated, gr_body_structured = None,
                   gr_headers = ti_headers translated, gr_partition = None, gr_timestamp_ms = None,
                   gr_idempotency_key = idempotency_key\<rparr>
                  (case caller of None \<Rightarrow> anonymous_principal | Some p \<Rightarrow> p) (peer_or_default peer) g))"

section \<open>What reaches the producer\<close>

lemma same_emit_core [simp]: "same_core g (emit_core m h) = same_core g h" "same_core (emit_core m g) h = same_core g h"
  by (auto simp: emit_core_def same_core_def same_def emit_def)

lemma same_fold_emit_core [simp]: "same_core g (fold emit_core ms h) = same_core g h"
  by (induction ms arbitrary: h) simp_all

lemma same_refuse [simp]: "same_core g (snd (refuse rf h)) = same_core g h"
  by (simp add: refuse_def)

lemma co_dedup_emit_core [simp]: "co_dedup (emit_core m g) = co_dedup g"
  by (simp add: emit_core_def)

lemma same_request_guard:
  "same_core g (snd (with_request_guard ex method f g)) = same_core g (snd (f (emit_core IncInflight g)))"
  by (simp add: with_request_guard_def split: prod.split)

text \<open>The request carries an HMAC of its own content under the endpoint's
  secret: of the message id, the timestamp and the body for Standard Webhooks, with
  the timestamp in the tolerance; of the body for a generic endpoint.\<close>

definition authentic_standard :: "'q web_lib \<Rightarrow> 'q compiled_webhook \<Rightarrow> webhook_request \<Rightarrow> int \<Rightarrow> bool" where
  "authentic_standard lib cfg rq now \<longleftrightarrow>
     (\<exists>secret mid timestamp epoch signatures s.
        cw_secret cfg = Some secret \<and> secret \<noteq> [] \<and>
        std_header lib (wq_headers rq) ''webhook-id'' = Some mid \<and>
        std_header lib (wq_headers rq) ''webhook-timestamp'' = Some timestamp \<and>
        parse_i64 timestamp = Some epoch \<and> of_int \<bar>now - epoch\<bar> \<le> cw_timestamp_tolerance cfg \<and>
        std_header lib (wq_headers rq) ''webhook-signature'' = Some signatures \<and>
        s \<in> set (split_ascii_whitespace signatures) \<and>
        v1_signature lib s = Some (wl_hmac lib secret (signed_content mid timestamp (wq_body rq))))"

definition authentic_generic :: "'q web_lib \<Rightarrow> 'q compiled_webhook \<Rightarrow> webhook_request \<Rightarrow> int \<Rightarrow> bool" where
  "authentic_generic lib cfg rq now \<longleftrightarrow>
     (\<forall>secret. cw_secret cfg = Some secret \<longrightarrow> secret \<noteq> [] \<and>
        (\<exists>sig_header v provided sig_str.
           cw_signature_header cfg = Some sig_header \<and> header_first (wq_headers rq) sig_header = Some v \<and>
           wl_to_str lib v = Some provided \<and>
           provided = (case cw_signature_prefix cfg of Some p \<Rightarrow> p | None \<Rightarrow> []) @ sig_str \<and>
           sig_decode lib (cw_signature_encoding cfg) sig_str = Some (wl_hmac lib secret (wq_body rq)) \<and>
           check_timestamp lib cfg (wq_headers rq) now))"

definition authentic :: "'q web_lib \<Rightarrow> 'q compiled_webhook \<Rightarrow> webhook_request \<Rightarrow> int \<Rightarrow> bool" where
  "authentic lib cfg rq now =
     (case cw_signature_mode cfg of
        Some StandardWebhooks \<Rightarrow> authentic_standard lib cfg rq now
      | None \<Rightarrow> authentic_generic lib cfg rq now)"

lemma authenticate_Some:
  assumes "authenticate lib cfg headers body now = Some r"
  shows "\<exists>secret mid timestamp epoch signatures s.
        r = (mid, timestamp) \<and> cw_secret cfg = Some secret \<and>
        std_header lib headers ''webhook-id'' = Some mid \<and>
        std_header lib headers ''webhook-timestamp'' = Some timestamp \<and>
        parse_i64 timestamp = Some epoch \<and> of_int \<bar>now - epoch\<bar> \<le> cw_timestamp_tolerance cfg \<and>
        std_header lib headers ''webhook-signature'' = Some signatures \<and>
        s \<in> set (split_ascii_whitespace signatures) \<and>
        v1_signature lib s = Some (wl_hmac lib secret (signed_content mid timestamp body))"
  using assms unfolding authenticate_def Let_def
  by (auto simp: bind_eq_Some_conv list_ex_iff not_less simp del: split_ascii_whitespace.simps split: if_splits)

lemma verify_signature_sound:
  assumes "verify_signature lib secret body provided enc prefix"
  shows "\<exists>sig_str. provided = (case prefix of Some p \<Rightarrow> p | None \<Rightarrow> []) @ sig_str \<and>
           sig_decode lib enc sig_str = Some (wl_hmac lib secret body)"
  using assms by (auto simp: verify_signature_def Let_def strip_prefix_str_Some split: option.splits)

lemma accept_request_Ok:
  assumes "accept_request lib cfg rq now has_dedup = Ok rec"
  shows "collect_body cfg rq = Ok (wq_body rq)"
    and "check_standard lib cfg (wq_headers rq) (wq_body rq) now has_dedup = Ok ()"
    and "check_hmac lib cfg (wq_headers rq) (wq_body rq) now = Ok ()"
    and "\<exists>ik key translated. extract_keys lib cfg (wq_headers rq) (wq_body rq) = Ok (ik, key) \<and>
      (if cw_signature_mode cfg \<noteq> None
       then translated = \<lparr>ti_headers = [], ti_value = wq_body rq, ti_is_cloud_event = False\<rparr>
       else translate_cloudevent_ingress lib (wq_headers rq) (wq_body rq) = Ok translated) \<and>
      rec = webhook_record cfg (wq_headers rq) translated ik key"
proof -
  obtain body where b: "collect_body cfg rq = Ok body"
    and s: "check_standard lib cfg (wq_headers rq) body now has_dedup = Ok ()"
    and h: "check_hmac lib cfg (wq_headers rq) body now = Ok ()"
    and k: "\<exists>ik key translated. extract_keys lib cfg (wq_headers rq) body = Ok (ik, key) \<and>
      (if cw_signature_mode cfg \<noteq> None
        then Ok \<lparr>ti_headers = [], ti_value = body, ti_is_cloud_event = False\<rparr>
        else map_err (\<lambda>status. ([RecordWebhookIn ''bad_request''], status))
               (translate_cloudevent_ingress lib (wq_headers rq) body)) = Ok translated \<and>
      rec = webhook_record cfg (wq_headers rq) translated ik key"
    using assms unfolding accept_request_def and_then_Ok_iff by (auto simp: and_then_Ok_iff simp del: map_err_Ok)
  have body: "body = wq_body rq" using b by (auto simp: collect_body_def to_bytes_def split: if_splits)
  show "collect_body cfg rq = Ok (wq_body rq)" using b body by simp
  show "check_standard lib cfg (wq_headers rq) (wq_body rq) now has_dedup = Ok ()" using s body by simp
  show "check_hmac lib cfg (wq_headers rq) (wq_body rq) now = Ok ()" using h body by simp
  show "\<exists>ik key translated. extract_keys lib cfg (wq_headers rq) (wq_body rq) = Ok (ik, key) \<and>
      (if cw_signature_mode cfg \<noteq> None
       then translated = \<lparr>ti_headers = [], ti_value = wq_body rq, ti_is_cloud_event = False\<rparr>
       else translate_cloudevent_ingress lib (wq_headers rq) (wq_body rq) = Ok translated) \<and>
      rec = webhook_record cfg (wq_headers rq) translated ik key"
    using k unfolding body by (cases "cw_signature_mode cfg = None") auto
qed

lemma check_hmac_Ok:
  "check_hmac lib cfg headers body now = Ok () \<longleftrightarrow>
   (case cw_signature_header cfg of
      None \<Rightarrow> True
    | Some h \<Rightarrow> (\<exists>v provided. header_first headers h = Some v \<and> wl_to_str lib v = Some provided \<and>
        check_timestamp lib cfg headers now \<and>
        verify_signature lib (case cw_secret cfg of Some s \<Rightarrow> s | None \<Rightarrow> []) body provided
          (cw_signature_encoding cfg) (cw_signature_prefix cfg)))"
  by (auto simp: check_hmac_def bind_eq_Some_conv split: option.split)

lemma accepted_authentic:
  assumes ok: "webhook_ok cfg" and acc: "accept_request lib cfg rq now has_dedup = Ok rec"
  shows "authentic lib cfg rq now \<and> length (wq_body rq) \<le> cw_max_body cfg"
proof
  show "length (wq_body rq) \<le> cw_max_body cfg"
    using accept_request_Ok(1)[OF acc] by (auto simp: collect_body_def to_bytes_def split: if_splits)
  show "authentic lib cfg rq now"
  proof (cases "cw_signature_mode cfg" rule: mode_cases)
    case 1
    have g: "authentic_generic lib cfg rq now"
      unfolding authentic_generic_def
    proof (intro allI impI)
      fix secret assume secret: "cw_secret cfg = Some secret"
      have ne: "secret \<noteq> []" using ok 1 secret by (auto simp: webhook_ok_def)
      obtain h where h: "cw_signature_header cfg = Some h" using ok 1 secret by (auto simp: webhook_ok_def)
      obtain v provided where v: "header_first (wq_headers rq) h = Some v" "wl_to_str lib v = Some provided"
        "check_timestamp lib cfg (wq_headers rq) now"
        "verify_signature lib secret (wq_body rq) provided (cw_signature_encoding cfg) (cw_signature_prefix cfg)"
        using accept_request_Ok(3)[OF acc] by (auto simp: check_hmac_Ok h secret)
      show "secret \<noteq> [] \<and> (\<exists>sig_header v provided sig_str.
           cw_signature_header cfg = Some sig_header \<and> header_first (wq_headers rq) sig_header = Some v \<and>
           wl_to_str lib v = Some provided \<and>
           provided = (case cw_signature_prefix cfg of Some p \<Rightarrow> p | None \<Rightarrow> []) @ sig_str \<and>
           sig_decode lib (cw_signature_encoding cfg) sig_str = Some (wl_hmac lib secret (wq_body rq)) \<and>
           check_timestamp lib cfg (wq_headers rq) now)"
        using ne h v(1-3) verify_signature_sound[OF v(4)] by blast
    qed
    thus ?thesis by (simp add: authentic_def 1)
  next
    case 2
    then obtain r where "authenticate lib cfg (wq_headers rq) (wq_body rq) now = Some r"
      using accept_request_Ok(2)[OF acc] by (auto simp: check_standard_def is_standard_def split: if_splits)
    moreover obtain key where "cw_secret cfg = Some key" "key \<noteq> []" using ok 2 by (auto simp: webhook_ok_def)
    ultimately have "authentic_standard lib cfg rq now"
      using authenticate_Some[of lib cfg "wq_headers rq" "wq_body rq" now r] unfolding authentic_standard_def by fastforce
    thus ?thesis by (simp add: authentic_def 2)
  qed
qed

lemma produce_and_respond_denied:
  "authorize_resource a p host Topic (gr_topic rec) Write = Deny \<Longrightarrow>
   same_core g (snd (produce_and_respond ex a rec p host h)) = same_core g h"
  by (simp add: produce_and_respond_def)

lemma accept_request_not_200:
  assumes "accept_request lib cfg rq now has_dedup = Err rf" shows "snd rf \<noteq> 200"
proof -
  have t: "snd rf \<noteq> 200" if "translate_cloudevent_ingress lib hs b = Err (snd rf)" for hs b
    using that by (auto simp: translate_cloudevent_ingress_def Let_def map_err_def and_then_def
        split: ingress_mode.splits option.splits sum.splits)
  have k: "snd rf \<noteq> 200" if "extract_keys lib cfg hs b = Err rf" for hs b
    using that by (auto simp: extract_keys_def Let_def and_then_def split: option.splits sum.splits)
  show ?thesis
    using assms k t
    by (auto simp: accept_request_def and_then_def collect_body_def check_standard_def check_hmac_def
        unauthenticated_def map_err_def split: sum.splits option.splits if_splits)
qed

lemma produce_and_respond_denied_403:
  "authorize_resource a p host Topic (gr_topic rec) Write = Deny \<Longrightarrow>
   fst (produce_and_respond ex a rec p host h) = (403, None)"
  by (simp add: produce_and_respond_def refuse_def)

lemma fst_with_request_guard: "fst (with_request_guard ex method f g) = fst (f (emit_core IncInflight g))"
  by (simp add: with_request_guard_def split: prod.split)

lemma fst_refuse [simp]: "fst (refuse rf g) = (snd rf, None)"
  by (simp add: refuse_def)

text \<open>The request took effect: the client was told so, or something other than
  the metrics changed.\<close>

definition took_effect :: "'w produce_core \<Rightarrow> http_reply \<times> 'w produce_core \<Rightarrow> bool" where
  "took_effect g r \<longleftrightarrow> fst (fst r) = 200 \<or> \<not> same_core g (snd r)"

lemma took_effect_guard:
  "took_effect g (with_request_guard ex method f g) = took_effect g (f (emit_core IncInflight g))"
  by (simp add: took_effect_def same_request_guard fst_with_request_guard)

lemma took_effect_refuse: "snd rf \<noteq> 200 \<Longrightarrow> took_effect g (refuse rf h) = (\<not> same_core g h)"
  by (simp add: took_effect_def)

lemma took_effect_denied:
  assumes "authorize_resource a p host Topic (gr_topic rec) Write = Deny"
  shows "took_effect g (produce_and_respond ex a rec p host h) = (\<not> same_core g h)"
  using produce_and_respond_denied[OF assms, of g ex h] produce_and_respond_denied_403[OF assms, of ex h]
  by (simp add: took_effect_def)

lemma webhook_authentic_holds:
  assumes c: "compile_webhooks lib es = Ok m"
    and ch: "took_effect g (webhook_handler ex lib a m now late name peer rq g)"
  shows "\<exists>cfg. hm_get m name = Some cfg \<and> webhook_ok cfg \<and> authentic lib cfg rq now \<and>
           length (wq_body rq) \<le> cw_max_body cfg \<and>
           authorize_resource a (webhook_principal cfg) (peer_or_default peer) Topic (cw_target_topic cfg) Write \<noteq> Deny"
proof -
  let ?g = "emit_core IncInflight g"
  note ch = ch[unfolded webhook_handler_def took_effect_guard]
  obtain cfg where cfg: "hm_get m name = Some cfg"
    using ch by (cases "hm_get m name") (auto simp: took_effect_refuse)
  have ok: "webhook_ok cfg" by (rule compile_webhooks_ok[OF c cfg])
  obtain rec where rec: "accept_request lib cfg rq now (co_dedup g) = Ok rec"
  proof (cases "accept_request lib cfg rq now (co_dedup g)")
    case (Inl rf)
    thus ?thesis using ch accept_request_not_200[OF Inl] by (simp add: cfg took_effect_refuse)
  qed simp
  have topic: "gr_topic rec = cw_target_topic cfg"
    using accept_request_Ok(4)[OF rec] by (auto simp: webhook_record_def)
  have "authorize_resource a (webhook_principal cfg) (peer_or_default peer) Topic (gr_topic rec) Write \<noteq> Deny"
  proof
    assume d: "authorize_resource a (webhook_principal cfg) (peer_or_default peer) Topic (gr_topic rec) Write = Deny"
    obtain reply h where r: "produce_and_respond ex a rec (webhook_principal cfg) (peer_or_default peer) ?g = (reply, h)"
      by (cases "produce_and_respond ex a rec (webhook_principal cfg) (peer_or_default peer) ?g")
    have "\<not> took_effect g (reply, h)" "same_core g h"
      using took_effect_denied[OF d, of g ex ?g] produce_and_respond_denied[OF d, of g ex ?g] by (simp_all add: r)
    thus False using ch by (auto simp: cfg rec r took_effect_refuse split: if_splits)
  qed
  thus ?thesis using cfg ok accepted_authentic[OF ok rec] topic by auto
qed

section \<open>What a signed request produces\<close>

text \<open>The record of a Standard Webhooks request as a function of what the
  signature covers: the message id, the timestamp and the body.\<close>

definition signed_record :: "'q web_lib \<Rightarrow> 'q compiled_webhook \<Rightarrow> string \<Rightarrow> string \<Rightarrow> bytes \<Rightarrow> gateway_record" where
  "signed_record lib cfg mid timestamp body =
     \<lparr>gr_topic = cw_target_topic cfg,
      gr_key = (case cw_key_source cfg of
                  Some src \<Rightarrow> map_option as_bytes (extract_source lib src [] (wl_from_slice lib body))
                | None \<Rightarrow> None),
      gr_value = body,
      gr_body_structured = map_option (\<lambda>subject. (body,
                \<lparr>sel_subject = Some subject, sel_id = None, sel_format = cw_schema_format cfg\<rparr>)) (cw_schema_subject cfg),
      gr_headers = [(''webhook-id'', Some (as_bytes mid)), (''webhook-timestamp'', Some (as_bytes timestamp))],
      gr_partition = None, gr_timestamp_ms = None, gr_idempotency_key = Some mid\<rparr>"

lemma std_header_get:
  assumes "std_header lib hs n = Some s"
  obtains v where "header_first hs n = Some v" "wl_to_str lib v = Some s"
  using assms by (auto simp: std_header_def header_first_def split: list.splits option.splits if_splits)

lemma extract_keys_standard:
  assumes ik: "cw_idempotency_source cfg = Some (SourceHeader ''webhook-id'')"
    and ks: "\<And>h. cw_key_source cfg \<noteq> Some (SourceHeader h)"
    and ex: "extract_keys lib cfg hs body = Ok (ik, key)"
    and v: "header_first hs ''webhook-id'' = Some v" "wl_to_str lib v = Some mid"
  shows "ik = Some mid \<and> key = (case cw_key_source cfg of
           Some src \<Rightarrow> extract_source lib src [] (wl_from_slice lib body) | None \<Rightarrow> None)"
proof (cases "cw_key_source cfg")
  case None
  thus ?thesis using ex v by (simp add: extract_keys_def ik extract_source_def Let_def)
next
  case (Some src)
  then obtain q where q: "src = SourceJsonPath q" using ks by (cases src) auto
  have "needs_json cfg" by (simp add: needs_json_def Some q)
  thus ?thesis using ex v
    by (auto simp: extract_keys_def ik Some q extract_source_def Let_def split: option.splits)
qed

lemma standard_record_signed_holds:
  assumes ok: "webhook_ok cfg" and std: "cw_signature_mode cfg = Some StandardWebhooks"
    and fwd: "cw_forward_headers cfg = []" and ks: "\<And>h. cw_key_source cfg \<noteq> Some (SourceHeader h)"
    and str: "\<And>v s. wl_to_str lib v = Some s \<Longrightarrow> as_bytes s = v"
    and acc: "accept_request lib cfg rq now has_dedup = Ok rec"
  shows "\<exists>mid timestamp. authenticate lib cfg (wq_headers rq) (wq_body rq) now = Some (mid, timestamp) \<and>
           rec = signed_record lib cfg mid timestamp (wq_body rq)"
proof -
  obtain mid ts where a: "authenticate lib cfg (wq_headers rq) (wq_body rq) now = Some (mid, ts)"
    using accept_request_Ok(2)[OF acc] std by (auto simp: check_standard_def is_standard_def split: if_splits)
  have h: "std_header lib (wq_headers rq) ''webhook-id'' = Some mid" "std_header lib (wq_headers rq) ''webhook-timestamp'' = Some ts"
    using authenticate_Some[OF a] by auto
  obtain v where v: "header_first (wq_headers rq) ''webhook-id'' = Some v" "wl_to_str lib v = Some mid"
    using std_header_get[OF h(1)] .
  obtain w where w: "header_first (wq_headers rq) ''webhook-timestamp'' = Some w" "wl_to_str lib w = Some ts"
    using std_header_get[OF h(2)] .
  obtain ik key where k: "extract_keys lib cfg (wq_headers rq) (wq_body rq) = Ok (ik, key)"
    and rec: "rec = webhook_record cfg (wq_headers rq) \<lparr>ti_headers = [], ti_value = wq_body rq, ti_is_cloud_event = False\<rparr> ik key"
    using accept_request_Ok(4)[OF acc] std by auto
  have "cw_idempotency_source cfg = Some (SourceHeader ''webhook-id'')" using ok std by (simp add: webhook_ok_def)
  note keys = extract_keys_standard[OF this ks k v]
  have "rec = signed_record lib cfg mid ts (wq_body rq)"
    using keys v w str[OF v(2)] str[OF w(2)]
    by (simp add: rec webhook_record_def signed_record_def forwarded_headers_def std fwd split: option.splits)
  thus ?thesis using a by blast
qed

section \<open>The replay guard of a generic endpoint\<close>

definition set_header :: "string \<Rightarrow> bytes \<Rightarrow> header_map \<Rightarrow> header_map" where
  "set_header name v hs = (map to_ascii_lowercase name, v) # filter (\<lambda>(n, _). n \<noteq> map to_ascii_lowercase name) hs"

lemma header_first_set:
  "header_first (set_header name v hs) name' =
     (if map to_ascii_lowercase name' = map to_ascii_lowercase name then Some v else header_first hs name')"
proof (cases "map to_ascii_lowercase name' = map to_ascii_lowercase name")
  case True
  thus ?thesis by (simp add: header_first_def header_get_all_def set_header_def)
next
  case False
  have "filter (\<lambda>(n, _). n = map to_ascii_lowercase name') (filter (\<lambda>(n, _). n \<noteq> map to_ascii_lowercase name) hs) =
      filter (\<lambda>(n, _). n = map to_ascii_lowercase name') hs"
    using False by (auto simp: filter_filter intro!: filter_cong)
  thus ?thesis using False by (simp add: header_first_def header_get_all_def set_header_def eq_commute[of "map to_ascii_lowercase name"])
qed

lemma replay_guard_not_signed_holds:
  assumes "cw_signature_header cfg = Some sh" "cw_timestamp_header cfg = Some th" "\<not> eq_ignore_ascii_case sh th"
    and "0 \<le> cw_timestamp_tolerance cfg"
    and "check_hmac lib cfg hs body now = Ok ()"
    and "wl_to_str lib v = Some s" "parse_i64 s = Some now'"
  shows "check_hmac lib cfg (set_header th v hs) body now' = Ok ()"
proof -
  have "check_timestamp lib cfg (set_header th v hs) now'"
    using assms by (simp add: check_timestamp_def header_first_set int_bounds)
  moreover have "header_first (set_header th v hs) sh = header_first hs sh"
    using assms(3) by (simp add: header_first_set eq_ignore_ascii_case_def)
  ultimately show ?thesis using assms(1,5) by (auto simp: check_hmac_Ok)
qed

section \<open>Properties\<close>


definition generic_endpoint :: webhook_endpoint where
  "generic_endpoint = sample_endpoint\<lparr>we_signature_mode := None, we_secret := Some ''k'',
     we_signature_header := Some ''X-Sig''\<rparr>"

definition generic_webhook :: "unit compiled_webhook" where
  "generic_webhook = sample_webhook\<lparr>cw_signature_mode := None, cw_signature_header := Some ''X-Sig'',
     cw_idempotency_source := None\<rparr>"

definition sample_request :: webhook_request where
  "sample_request = \<lparr>wq_headers = [(''x-sig'', as_bytes ''kb'')], wq_body = as_bytes ''b'', wq_broken = False, wq_late = False\<rparr>"

lemma compile_generic: "compile_webhooks sample_web_lib [generic_endpoint] = Ok [(''gl'', generic_webhook)]"
  by (simp add: compile_webhooks_def compile_endpoint_def compile_secret_def generic_endpoint_def sample_endpoint_def
      generic_webhook_def sample_webhook_def compile_encoding_def opt_source_def parse_schema_format_def
      non_negative_time_def positive_byte_size_def map_err_def)

lemma x_sig_lower: "map to_ascii_lowercase ''X-Sig'' = ''x-sig''"
  by (simp add: to_ascii_lowercase_def)
     (use char_of_char[where 'a = nat and c = "CHR ''x''"] char_of_char[where 'a = nat and c = "CHR ''s''"] in simp)

lemma sample_header: "header_first (wq_headers sample_request) ''X-Sig'' = Some (as_bytes ''kb'')"
  unfolding header_first_def header_get_all_def x_sig_lower by (simp add: sample_request_def)

definition generic_record :: gateway_record where
  "generic_record = \<lparr>gr_topic = ''t'', gr_key = None, gr_value = as_bytes ''b'', gr_body_structured = None, gr_headers = [],
     gr_partition = None, gr_timestamp_ms = None, gr_idempotency_key = None\<rparr>"

lemma length_of_bytes [simp]: "length (of_bytes bs) = length bs"
  by (simp add: of_bytes_def)

lemma accept_sample: "accept_request sample_web_lib generic_webhook sample_request 0 d = Ok generic_record"
proof -
  have kb: "as_bytes ''kb'' = as_bytes ''k'' @ as_bytes ''b''" by (simp add: as_bytes_def)
  have cfg: "cw_signature_mode generic_webhook = None" "map_err f (Ok x) = Ok x"
    "webhook_record generic_webhook (wq_headers sample_request)
       \<lparr>ti_headers = [], ti_value = as_bytes ''b'', ti_is_cloud_event = False\<rparr> None None = generic_record"
    for f :: "nat \<Rightarrow> refusal" and x :: translated_ingress
    by (simp_all add: generic_webhook_def sample_webhook_def webhook_record_def forwarded_headers_def generic_record_def)
  have c: "collect_body generic_webhook sample_request = Ok (as_bytes ''b'')"
    by (simp add: collect_body_def generic_webhook_def sample_webhook_def is_standard_def to_bytes_def sample_request_def)
  have "check_hmac sample_web_lib generic_webhook (wq_headers sample_request) (as_bytes ''b'') 0 = Ok ()"
    using sample_header kb
    by (simp add: check_hmac_Ok generic_webhook_def sample_webhook_def check_timestamp_def verify_signature_def
        sig_decode_def sample_web_lib_def)
  moreover have "check_standard sample_web_lib generic_webhook (wq_headers sample_request) (as_bytes ''b'') 0 d = Ok ()"
    by (simp add: check_standard_def is_standard_def generic_webhook_def)
  moreover have "extract_keys sample_web_lib generic_webhook (wq_headers sample_request) (as_bytes ''b'') = Ok (None, None)"
    by (simp add: extract_keys_def generic_webhook_def sample_webhook_def)
  moreover have "map to_ascii_lowercase ''content-type'' = ''content-type''"
    by (simp add: to_ascii_lowercase_def)
  hence "translate_cloudevent_ingress sample_web_lib (wq_headers sample_request) (as_bytes ''b'') =
      Ok \<lparr>ti_headers = [], ti_value = as_bytes ''b'', ti_is_cloud_event = False\<rparr>"
    unfolding translate_cloudevent_ingress_def header_first_def header_get_all_def
    by (simp add: sample_request_def detect_content_mode_def starts_with_def)
  ultimately show ?thesis
    by (simp add: accept_request_def c cfg)
qed

lemma sample_took_effect:
  "took_effect sample_core (webhook_handler sample_externals sample_web_lib allow_all [(''gl'', generic_webhook)] 0 False
     ''gl'' None sample_request sample_core)"
proof -
  let ?out = "\<lparr>out_partition = 3, out_offset = 7, out_deduplicated = False\<rparr>"
  have pr: "produce sample_externals generic_record p (emit_core m sample_core) = (Ok ?out, emit_core m sample_core)" for p m
    by (simp add: produce_def produce_with_acks_def route_of_def produce_local_with_acks_def on_replica_def encode_value_def
        produce_plain_def sample_externals_def sample_core_def sample_kafka_def sample_replica_def encode_body_of_def
        generic_record_def emit_core_def emit_def)
  have "fst (produce_and_respond sample_externals allow_all generic_record p h (emit_core m sample_core)) =
      (200, Some \<lparr>wp_partition = 3, wp_offset = 7, wp_deduplicated = False\<rparr>)" for p h m
    by (simp add: produce_and_respond_def pr authorize_resource_def allow_all_def)
  thus ?thesis unfolding webhook_handler_def took_effect_guard
    by (simp add: took_effect_def accept_sample split_beta)
qed



definition standard_request :: webhook_request where
  "standard_request = \<lparr>wq_headers = [(''webhook-id'', as_bytes ''1''), (''webhook-timestamp'', as_bytes ''0''),
       (''webhook-signature'', as_bytes ''v1,k1.0.b'')], wq_body = as_bytes ''b'', wq_broken = False, wq_late = False\<rparr>"

lemma standard_lower:
  "map to_ascii_lowercase ''webhook-id'' = ''webhook-id''"
  "map to_ascii_lowercase ''webhook-timestamp'' = ''webhook-timestamp''"
  "map to_ascii_lowercase ''webhook-signature'' = ''webhook-signature''"
  by (simp_all add: to_ascii_lowercase_def)

lemma standard_headers:
  "header_get_all (wq_headers standard_request) ''webhook-id'' = [as_bytes ''1'']"
  "header_get_all (wq_headers standard_request) ''webhook-timestamp'' = [as_bytes ''0'']"
  "header_get_all (wq_headers standard_request) ''webhook-signature'' = [as_bytes ''v1,k1.0.b'']"
  unfolding header_get_all_def standard_lower by (simp_all add: standard_request_def)

lemma accept_standard:
  "\<exists>rec. accept_request sample_web_lib sample_webhook standard_request 0 True = Ok rec"
proof -
  have str: "wl_to_str sample_web_lib (as_bytes s) = Some s" for s by (simp add: sample_web_lib_def)
  have h: "std_header sample_web_lib (wq_headers standard_request) ''webhook-id'' = Some ''1''"
    "std_header sample_web_lib (wq_headers standard_request) ''webhook-timestamp'' = Some ''0''"
    "std_header sample_web_lib (wq_headers standard_request) ''webhook-signature'' = Some ''v1,k1.0.b''"
    by (simp_all add: std_header_def standard_headers str)
  have split: "split_ascii_whitespace ''v1,k1.0.b'' = [''v1,k1.0.b'']"
    by (simp add: ascii_whitespace_def)
  have v1: "v1_signature sample_web_lib ''v1,k1.0.b'' = Some (as_bytes ''k1.0.b'')"
    by (simp add: v1_signature_def strip_prefix_str_def starts_with_def sample_web_lib_def)
  have content: "wl_hmac sample_web_lib (as_bytes ''k'') (signed_content ''1'' ''0'' (as_bytes ''b'')) = as_bytes ''k1.0.b''"
    by (simp add: sample_web_lib_def signed_content_def as_bytes_def)
  have ts: "parse_i64 ''0'' = Some 0" "list_all is_ascii_digit ''0''"
    by (simp_all add: parse_i64_def parse_signed_def parse_digits_def in_bounds_def int_bounds is_ascii_digit_def digits_value_def)
  have "authenticate sample_web_lib sample_webhook (wq_headers standard_request) (as_bytes ''b'') 0 = Some (''1'', ''0'')"
    unfolding authenticate_def
    by (simp add: h split v1 content ts is_ascii_digit_def sample_webhook_def int_bounds del: split_ascii_whitespace.simps)
  hence "check_standard sample_web_lib sample_webhook (wq_headers standard_request) (as_bytes ''b'') 0 True = Ok ()"
    by (simp add: check_standard_def)
  moreover have "extract_keys sample_web_lib sample_webhook (wq_headers standard_request) (as_bytes ''b'') = Ok (Some ''1'', None)"
    by (simp add: extract_keys_def sample_webhook_def extract_source_def header_first_def standard_headers str)
  ultimately show ?thesis
    by (simp add: accept_request_def collect_body_def to_bytes_def standard_request_def sample_webhook_def check_hmac_def)
qed


text \<open>
  C26: The replay guard of a generic endpoint protects nothing that is signed. The
  signature covers the body only, so a request that was accepted once is
  accepted at any later time \<open>now'\<close> with its timestamp header replaced by
  the new time and the old signature.
\<close>

theorem replay_guard_not_signed:
  assumes "cw_signature_header cfg = Some sh" "cw_timestamp_header cfg = Some th" "\<not> eq_ignore_ascii_case sh th"
    and "0 \<le> cw_timestamp_tolerance cfg"
    and "check_hmac lib cfg hs body now = Ok ()"
    and "wl_to_str lib v = Some s" "parse_i64 s = Some now'"
  shows "check_hmac lib cfg (set_header th v hs) body now' = Ok ()"
  using assms by (rule replay_guard_not_signed_holds)

theorem replay_guard_not_signed_witness:
  "check_hmac sample_web_lib (generic_webhook\<lparr>cw_timestamp_header := Some ''ts''\<rparr>)
     (set_header ''ts'' (as_bytes ''9'') (set_header ''ts'' (as_bytes ''0'') (wq_headers sample_request))) (as_bytes ''b'') 9 = Ok ()"
proof -
  let ?cfg = "generic_webhook\<lparr>cw_timestamp_header := Some ''ts''\<rparr>"
  have num: "parse_i64 ''0'' = Some 0" "parse_i64 ''9'' = Some 9"
    by (simp_all add: parse_i64_def parse_signed_def parse_digits_def in_bounds_def int_bounds is_ascii_digit_def digits_value_def)
  have ne: "\<not> eq_ignore_ascii_case ''X-Sig'' ''ts''" by (simp add: eq_ignore_ascii_case_def)
  have str: "wl_to_str sample_web_lib (as_bytes s) = Some s" for s by (simp add: sample_web_lib_def)
  have kb: "as_bytes ''kb'' = as_bytes ''k'' @ as_bytes ''b''" by (simp add: as_bytes_def)
  have "header_first (set_header ''ts'' (as_bytes ''0'') (wq_headers sample_request)) ''X-Sig'' = Some (as_bytes ''kb'')"
    using ne sample_header by (simp add: header_first_set eq_ignore_ascii_case_def)
  moreover have "header_first (set_header ''ts'' (as_bytes ''0'') (wq_headers sample_request)) ''ts'' = Some (as_bytes ''0'')"
    by (simp add: header_first_set)
  moreover have "verify_signature sample_web_lib (as_bytes ''k'') (as_bytes ''b'') ''kb'' Hex None"
    using kb by (simp add: verify_signature_def sig_decode_def sample_web_lib_def)
  ultimately have acc: "check_hmac sample_web_lib ?cfg (set_header ''ts'' (as_bytes ''0'') (wq_headers sample_request)) (as_bytes ''b'') 0 = Ok ()"
    by (simp add: check_hmac_Ok generic_webhook_def sample_webhook_def check_timestamp_def str num int_bounds)
  show ?thesis
    by (rule replay_guard_not_signed[OF _ _ ne _ acc str num(2)]) (simp_all add: generic_webhook_def sample_webhook_def)
qed

end
