(* ===== verification/Gw_Outbound.thy ===== *)
theory Gw_Outbound
  imports "HOL-Library.Multiset" Gw_WebhookConfig Gw_Consume Gw_Kafka
begin

text \<open>
  Outbound webhook delivery: the subscriptions of the configuration file
  (\<open>outbound_config.rs\<close>) and the delivery task (\<open>outbound.rs\<close>). A record is
  delivered by \<open>deliver_begin\<close>, which filters and renders it, and a
  sequence of \<open>deliver_attempt\<close> steps, one per POST. The partitions of a batch
  run concurrently, so a batch is any interleaving of the steps of its partitions.

  The HTTP client, the producer of the dead-letter topic, the codec and the
  clock are the parameter \<open>outbound_lib\<close>. The task keeps a ghost log of what it did.
\<close>

section \<open>Subscriptions\<close>

datatype outbound_content_mode = Envelope | CloudEventsBinary | CloudEventsStructured

record allowed_target =
  at_scheme :: string
  at_host :: string

record outbound_subscription =
  os_name :: string
  os_group_id :: "string option"
  os_source_topics :: "string list"
  os_target_url :: string
  os_signing_secret :: "string option"
  os_dead_letter_topic :: "string option"
  os_max_attempts :: nat
  os_base_backoff :: rat
  os_max_backoff :: rat
  os_request_timeout :: rat
  os_filter :: "string option"
  os_headers :: "(string \<times> string) list"
  os_content_mode :: outbound_content_mode
  os_decode_to_json :: bool

definition default_max_attempts :: nat where "default_max_attempts = 5"
definition default_base_backoff :: rat where "default_base_backoff = 1 / 2"
definition default_max_backoff :: rat where "default_max_backoff = 30"
definition default_request_timeout :: rat where "default_request_timeout = 10"

record 'q compiled_subscription =
  cs_name :: string
  cs_group_id :: string
  cs_source_topics :: "string list"
  cs_target_url :: string
  cs_signing_secret :: "bytes option"
  cs_dead_letter_topic :: "string option"
  cs_max_attempts :: nat
  cs_base_backoff :: rat
  cs_max_backoff :: rat
  cs_request_timeout :: rat
  cs_filter :: "'q option"
  cs_headers :: "(string \<times> string) list"
  cs_content_mode :: outbound_content_mode
  cs_decode_to_json :: bool

definition is_cloudevents :: "outbound_content_mode \<Rightarrow> bool" where
  "is_cloudevents m \<longleftrightarrow> m = CloudEventsBinary \<or> m = CloudEventsStructured"

definition reserved_header :: "string \<Rightarrow> bool" where
  "reserved_header name \<longleftrightarrow>
     map to_ascii_lowercase name = ''content-type'' \<or> starts_with ''ce-'' (map to_ascii_lowercase name)"

definition reject_cloudevents_header_overrides :: "string \<Rightarrow> (string \<times> string) list \<Rightarrow> config_error + unit" where
  "reject_cloudevents_header_overrides ctx headers =
     (case find (\<lambda>(name, _). reserved_header name) headers of
        Some (name, _) \<Rightarrow> Err (ctx, ReservedHeader name)
      | None \<Rightarrow> Ok ())"

definition target_allowed :: "allowed_target list \<Rightarrow> string \<Rightarrow> string \<Rightarrow> bool" where
  "target_allowed allowed scheme host \<longleftrightarrow>
     list_ex (\<lambda>a. eq_ignore_ascii_case (at_scheme a) scheme \<and> eq_ignore_ascii_case (at_host a) host) allowed"

definition check_target :: "'q web_lib \<Rightarrow> string \<Rightarrow> allowed_target list \<Rightarrow> string \<Rightarrow> config_error + unit" where
  "check_target lib ctx allowed target_url =
     (case wl_url lib target_url of
        Err e \<Rightarrow> Err (ctx, InvalidTargetUrl target_url e)
      | Ok (scheme, None) \<Rightarrow> Err (ctx, NoTargetHost)
      | Ok (scheme, Some host) \<Rightarrow>
          if target_allowed allowed scheme host then Ok () else Err (ctx, TargetNotAllowed scheme host))"

definition compile_filter :: "'q web_lib \<Rightarrow> string \<Rightarrow> string option \<Rightarrow> config_error + 'q option" where
  "compile_filter lib ctx f =
     (case f of
        None \<Rightarrow> Ok None
      | Some f \<Rightarrow>
          (case strip_prefix_str ''json:'' f of
             Some jp \<Rightarrow> (case wl_json_path lib jp of Err e \<Rightarrow> Err (ctx, InvalidFilter e) | Ok q \<Rightarrow> Ok (Some q))
           | None \<Rightarrow> Err (ctx, UnsupportedFilter)))"

definition compile_subscription ::
    "'q web_lib \<Rightarrow> allowed_target list \<Rightarrow> outbound_subscription \<Rightarrow> config_error + 'q compiled_subscription" where
  "compile_subscription lib allowed s =
     (let ctx = ''[outbound '' @ os_name s @ '']'' in
      and_then
        (case os_group_id s of
           Some g \<Rightarrow> if g = [] then Err (ctx, EmptyGroupId) else Ok g
         | None \<Rightarrow> Ok (''__krabka_grpc_wh_'' @ os_name s)) (\<lambda>group_id.
      and_then (map_err (Pair ctx) (PositiveU32 (int (os_max_attempts s)))) (\<lambda>max_attempts.
      and_then (map_err (Pair ctx) (positive_time ''base_backoff'' (os_base_backoff s))) (\<lambda>base_backoff.
      and_then (map_err (Pair ctx) (positive_time ''max_backoff'' (os_max_backoff s))) (\<lambda>max_backoff.
      and_then (map_err (Pair ctx) (positive_time ''request_timeout'' (os_request_timeout s))) (\<lambda>request_timeout.
      if max_backoff < base_backoff then Err (ctx, BackoffOrder)
      else and_then (check_target lib ctx allowed (os_target_url s)) (\<lambda>_.
      and_then (compile_filter lib ctx (os_filter s)) (\<lambda>flt.
      and_then (if is_cloudevents (os_content_mode s) then reject_cloudevents_header_overrides ctx (os_headers s) else Ok ()) (\<lambda>_.
      if os_content_mode s = CloudEventsBinary \<and> os_decode_to_json s then Err (ctx, DecodeWithBinary)
      else Ok \<lparr>cs_name = os_name s, cs_group_id = group_id, cs_source_topics = os_source_topics s,
               cs_target_url = os_target_url s, cs_signing_secret = map_option as_bytes (os_signing_secret s),
               cs_dead_letter_topic = os_dead_letter_topic s, cs_max_attempts = nat max_attempts,
               cs_base_backoff = base_backoff, cs_max_backoff = max_backoff, cs_request_timeout = request_timeout,
               cs_filter = flt, cs_headers = os_headers s, cs_content_mode = os_content_mode s,
               cs_decode_to_json = os_decode_to_json s\<rparr>)))))))))"

fun compile_outbound ::
    "'q web_lib \<Rightarrow> allowed_target list \<Rightarrow> outbound_subscription list \<Rightarrow> config_error + 'q compiled_subscription list" where
  "compile_outbound lib allowed [] = Ok []"
| "compile_outbound lib allowed (s # ss) =
     and_then (compile_subscription lib allowed s) (\<lambda>c.
       and_then (compile_outbound lib allowed ss) (\<lambda>cs. Ok (c # cs)))"

section \<open>Rendering\<close>

record http_request =
  hr_url :: string
  hr_headers :: header_map
  hr_body :: bytes

record 'w outbound_lib =
  ob_post :: "http_request \<Rightarrow> 'w \<Rightarrow> nat option \<times> 'w"
  ob_dlq_send :: "producer_record \<Rightarrow> 'w \<Rightarrow> bool \<times> 'w"
  ob_decode :: "string \<Rightarrow> bytes \<Rightarrow> 'w \<Rightarrow> (codec_error + decoded) \<times> 'w"
  ob_sleep :: "rat \<Rightarrow> 'w \<Rightarrow> 'w"
  ob_now_ms :: "'w \<Rightarrow> int"
  ob_subsec_nanos :: "'w \<Rightarrow> nat"
  ob_commit :: "'w \<Rightarrow> bool \<times> 'w"
  ob_close :: "'w \<Rightarrow> 'w"

definition event_id_of :: "consumer_record \<Rightarrow> string" where
  "event_id_of r = cr_topic r @ ''-'' @ show_int (cr_partition r) @ ''-'' @ show_int (cr_offset r)"

definition json_of_int :: "int \<Rightarrow> json" where
  "json_of_int n = JNumber (if 0 \<le> n then PosInt (nat n) else NegInt n)"

definition b64_or_null :: "'q web_lib \<Rightarrow> bytes option \<Rightarrow> json" where
  "b64_or_null lib v = (case v of None \<Rightarrow> JNull | Some b \<Rightarrow> JString (wl_b64_encode lib b))"

definition value_field :: "'q web_lib \<Rightarrow> consumer_record \<Rightarrow> json" where
  "value_field lib r =
     (case cr_value r of
        None \<Rightarrow> JNull
      | Some v \<Rightarrow> (case wl_from_slice lib v of
                     Some j \<Rightarrow> j
                   | None \<Rightarrow> JObject [(''_base64'', JString (wl_b64_encode lib v))]))"

definition envelope_json :: "'q web_lib \<Rightarrow> string \<Rightarrow> consumer_record \<Rightarrow> json" where
  "envelope_json lib event_id r = JObject [
     (''event_id'', JString event_id),
     (''topic'', JString (cr_topic r)),
     (''partition'', json_of_int (cr_partition r)),
     (''offset'', json_of_int (cr_offset r)),
     (''timestamp_ms'', json_of_int (cr_timestamp r)),
     (''key'', b64_or_null lib (cr_key r)),
     (''value'', value_field lib r),
     (''headers'', JArray (map (\<lambda>(k, v). JObject [(''key'', JString k), (''value'', b64_or_null lib v)]) (cr_headers r)))]"

definition render_envelope :: "'q web_lib \<Rightarrow> string \<Rightarrow> consumer_record \<Rightarrow> bytes" where
  "render_envelope lib event_id r =
     (case wl_to_vec lib (envelope_json lib event_id r) of Some b \<Rightarrow> b | None \<Rightarrow> [])"

definition decoded_body ::
    "'w outbound_lib \<Rightarrow> 'q compiled_subscription \<Rightarrow> consumer_record \<Rightarrow> 'w \<Rightarrow> bytes option \<times> 'w" where
  "decoded_body ob sub r w =
     (if \<not> cs_decode_to_json sub then (None, w)
      else case cr_value r of
             None \<Rightarrow> (None, w)
           | Some v \<Rightarrow>
               (case ob_decode ob (cr_topic r) v w of
                  (Ok d, w) \<Rightarrow> (dec_json d, w)
                | (Err _, w) \<Rightarrow> (None, w)))"

fun is_structured_at_rest :: "header list \<Rightarrow> ce_error + bool" where
  "is_structured_at_rest [] = Ok False"
| "is_structured_at_rest ((key, v) # hs) =
     (if key \<noteq> ''content-type'' then is_structured_at_rest hs
      else case v of
             None \<Rightarrow> is_structured_at_rest hs
           | Some b \<Rightarrow>
               if \<not> utf8_valid b then Err (NonUtf8Attribute key)
               else if is_structured_media_type (of_bytes b) then Ok True
               else is_structured_at_rest hs)"

definition value_or_empty :: "consumer_record \<Rightarrow> bytes" where
  "value_or_empty r = (case cr_value r of None \<Rightarrow> [] | Some v \<Rightarrow> v)"

definition parse_structured_record :: "'q web_lib \<Rightarrow> consumer_record \<Rightarrow> ce_error + json" where
  "parse_structured_record lib r =
     (case wl_from_slice lib (value_or_empty r) of None \<Rightarrow> Err MalformedJson | Some j \<Rightarrow> Ok j)"

definition validate_record_cloudevent :: "header list \<Rightarrow> ce_error + unit" where
  "validate_record_cloudevent hs =
     validate_binary_required (List.map_filter (\<lambda>(k, v). map_option (Pair k) v) hs)"

definition render_cloudevents_binary ::
    "'q web_lib \<Rightarrow> consumer_record \<Rightarrow> ce_error + bytes \<times> header_map" where
  "render_cloudevents_binary lib r =
     and_then (is_structured_at_rest (cr_headers r)) (\<lambda>structured.
     and_then
       (if structured then
          and_then (parse_structured_record lib r) (\<lambda>event.
          and_then (binary_from_structured lib event) (\<lambda>(headers, body).
          Ok (map (apsnd Some) headers, body)))
        else
          and_then (validate_record_cloudevent (cr_headers r)) (\<lambda>_.
          Ok (cr_headers r, value_or_empty r))) (\<lambda>(headers, body).
     and_then (kafka_headers_to_http lib headers) (\<lambda>http. Ok (body, http))))"

definition CLOUDEVENTS_JSON_CONTENT_TYPE :: string where
  "CLOUDEVENTS_JSON_CONTENT_TYPE = ''application/cloudevents+json; charset=UTF-8''"

definition render_cloudevents_structured ::
    "'q web_lib \<Rightarrow> consumer_record \<Rightarrow> ce_error + bytes \<times> header_map" where
  "render_cloudevents_structured lib r =
     and_then (is_structured_at_rest (cr_headers r)) (\<lambda>structured.
     and_then
       (if structured then
          and_then (parse_structured_record lib r) (\<lambda>event.
          and_then (validate_structured_json event) (\<lambda>_. Ok (value_or_empty r)))
        else
          and_then (validate_record_cloudevent (cr_headers r)) (\<lambda>_.
          structured_from_binary lib (cr_headers r) (value_or_empty r))) (\<lambda>body.
     Ok (body, [(CONTENT_TYPE, as_bytes CLOUDEVENTS_JSON_CONTENT_TYPE)])))"

definition render_delivery ::
    "'q web_lib \<Rightarrow> 'w outbound_lib \<Rightarrow> 'q compiled_subscription \<Rightarrow> string \<Rightarrow> consumer_record \<Rightarrow> 'w \<Rightarrow>
     (ce_error + bytes \<times> header_map) \<times> 'w" where
  "render_delivery lib ob sub event_id r w =
     (case cs_content_mode sub of
        Envelope \<Rightarrow>
          (case decoded_body ob sub r w of
             (body, w) \<Rightarrow>
               (Ok (case body of Some b \<Rightarrow> b | None \<Rightarrow> render_envelope lib event_id r,
                    [(CONTENT_TYPE, as_bytes ''application/json'')]), w))
      | CloudEventsBinary \<Rightarrow> (render_cloudevents_binary lib r, w)
      | CloudEventsStructured \<Rightarrow> (render_cloudevents_structured lib r, w))"

definition passes_filter :: "'q web_lib \<Rightarrow> 'q \<Rightarrow> consumer_record \<Rightarrow> bool" where
  "passes_filter lib q r =
     (case cr_value r of
        None \<Rightarrow> False
      | Some b \<Rightarrow>
          (case wl_from_slice lib b of
             None \<Rightarrow> False
           | Some v \<Rightarrow>
               (case wl_query lib q v of
                  None \<Rightarrow> False
                | Some refs \<Rightarrow> refs \<noteq> [] \<and> list_all (\<lambda>r. r \<noteq> JNull \<and> r \<noteq> JBool False) refs)))"

section \<open>Backoff\<close>

definition saturating_pow2 :: "nat \<Rightarrow> nat" where
  "saturating_pow2 n = (if n < 32 then 2 ^ n else 4294967295)"

definition backoff_with_jitter :: "nat \<Rightarrow> nat \<Rightarrow> rat \<Rightarrow> rat \<Rightarrow> rat" where
  "backoff_with_jitter nanos attempt base_backoff max_backoff =
     (let doubled = base_backoff * of_nat (saturating_pow2 (attempt - 1));
          capped = (if max_backoff < doubled then max_backoff else doubled);
          half = capped / 2
      in half + half * (of_nat nanos / 1000000000))"

section \<open>One record\<close>

datatype outcome = Skipped | Delivered | DeadLettered | DeadLetterFailed | Dropped

datatype delivery_event =
    Posted string nat "nat option"
  | Finished consumer_record outcome
  | BatchCommitted

record 'w outbound_state =
  dl_world :: 'w
  dl_metrics :: "metric list"
  dl_log :: "delivery_event list"

definition dl_emit :: "metric \<Rightarrow> 'w outbound_state \<Rightarrow> 'w outbound_state" where
  "dl_emit m s = s\<lparr>dl_metrics := dl_metrics s @ [m]\<rparr>"

definition note_event :: "delivery_event \<Rightarrow> 'w outbound_state \<Rightarrow> 'w outbound_state" where
  "note_event e s = s\<lparr>dl_log := dl_log s @ [e]\<rparr>"

definition dlq_record :: "string \<Rightarrow> string \<Rightarrow> consumer_record \<Rightarrow> producer_record" where
  "dlq_record dlq event_id r =
     \<lparr>kr_topic = dlq, kr_partition = None, kr_key = cr_key r, kr_value = cr_value r,
      kr_headers = [(''x-krabka-dlq-source'', Some (as_bytes event_id)),
                    (''x-krabka-dlq-reason'', Some (as_bytes ''delivery exhausted''))],
      kr_timestamp_ms = None\<rparr>"

definition dead_letter ::
    "'w outbound_lib \<Rightarrow> 'q compiled_subscription \<Rightarrow> consumer_record \<Rightarrow> string \<Rightarrow> 'w outbound_state \<Rightarrow> 'w outbound_state" where
  "dead_letter ob sub r event_id s =
     (case cs_dead_letter_topic sub of
        None \<Rightarrow> note_event (Finished r Dropped) (dl_emit (RecordWebhookOut ''dropped'') s)
      | Some dlq \<Rightarrow>
          let s = dl_emit (RecordWebhookOut ''dead_letter'') (dl_emit RecordDeadLetter s) in
          (case ob_dlq_send ob (dlq_record dlq event_id r) (dl_world s) of
             (sent, w) \<Rightarrow> note_event (Finished r (if sent then DeadLettered else DeadLetterFailed)) (s\<lparr>dl_world := w\<rparr>)))"

definition delivery_request ::
    "'q web_lib \<Rightarrow> 'q compiled_subscription \<Rightarrow> string \<Rightarrow> int \<Rightarrow> bytes \<times> header_map \<Rightarrow> http_request" where
  "delivery_request lib sub event_id ts delivery =
     \<lparr>hr_url = cs_target_url sub,
      hr_headers =
        [(''x-krabka-event-id'', as_bytes event_id), (''x-krabka-timestamp'', as_bytes (show_int ts))] @
        snd delivery @
        (case cs_signing_secret sub of
           None \<Rightarrow> []
         | Some secret \<Rightarrow> [(''x-krabka-signature'', as_bytes (sign_hmac_hex lib secret (fst delivery)))]) @
        map (\<lambda>(k, v). (map to_ascii_lowercase k, as_bytes v)) (cs_headers sub),
      hr_body = fst delivery\<rparr>"

text \<open>Filter and render: the request to post, or \<open>None\<close> when the record is done.\<close>

definition deliver_begin ::
    "'q web_lib \<Rightarrow> 'w outbound_lib \<Rightarrow> 'q compiled_subscription \<Rightarrow> consumer_record \<Rightarrow> 'w outbound_state \<Rightarrow>
     http_request option \<times> 'w outbound_state" where
  "deliver_begin lib ob sub r s =
     (if (case cs_filter sub of Some q \<Rightarrow> \<not> passes_filter lib q r | None \<Rightarrow> False)
      then (None, note_event (Finished r Skipped) s)
      else
        let event_id = event_id_of r in
        (case render_delivery lib ob sub event_id r (dl_world s) of
           (Err e, w) \<Rightarrow> (None, dead_letter ob sub r event_id (s\<lparr>dl_world := w\<rparr>))
         | (Ok delivery, w) \<Rightarrow> (Some (delivery_request lib sub event_id (ob_now_ms ob w) delivery), s\<lparr>dl_world := w\<rparr>)))"

definition delivery_success :: "nat option \<Rightarrow> bool" where
  "delivery_success status = (case status of Some n \<Rightarrow> 200 \<le> n \<and> n < 300 | None \<Rightarrow> False)"

text \<open>One pass of the retry loop, with \<open>attempt\<close> already counted: the number of
  the next attempt, or \<open>None\<close> when the record is done.\<close>

definition deliver_attempt ::
    "'w outbound_lib \<Rightarrow> 'q compiled_subscription \<Rightarrow> consumer_record \<Rightarrow> http_request \<Rightarrow> nat \<Rightarrow> 'w outbound_state \<Rightarrow>
     nat option \<times> 'w outbound_state" where
  "deliver_attempt ob sub r req attempt s =
     (case ob_post ob req (dl_world s) of
        (status, w) \<Rightarrow>
          let s = note_event (Posted (event_id_of r) attempt status) (s\<lparr>dl_world := w\<rparr>) in
          if delivery_success status
          then (None, note_event (Finished r Delivered) (dl_emit (RecordWebhookOut ''delivered'') s))
          else if cs_max_attempts sub \<le> attempt then (None, dead_letter ob sub r (event_id_of r) s)
          else
            let s = dl_emit RecordWebhookRetry s;
                pause = backoff_with_jitter (ob_subsec_nanos ob (dl_world s)) attempt (cs_base_backoff sub) (cs_max_backoff sub)
            in (Some (attempt + 1), s\<lparr>dl_world := ob_sleep ob pause (dl_world s)\<rparr>))"

function deliver_attempts ::
    "'w outbound_lib \<Rightarrow> 'q compiled_subscription \<Rightarrow> consumer_record \<Rightarrow> http_request \<Rightarrow> nat \<Rightarrow> 'w outbound_state \<Rightarrow> 'w outbound_state" where
  "deliver_attempts ob sub r req attempt s =
     (case deliver_attempt ob sub r req attempt s of
        (None, s) \<Rightarrow> s
      | (Some attempt, s) \<Rightarrow> deliver_attempts ob sub r req attempt s)"
  by pat_completeness auto
termination
  by (relation "measure (\<lambda>(_, sub, _, _, attempt, _). cs_max_attempts sub - attempt)")
    (auto simp: deliver_attempt_def Let_def split: prod.splits if_splits)

definition deliver_one ::
    "'q web_lib \<Rightarrow> 'w outbound_lib \<Rightarrow> 'q compiled_subscription \<Rightarrow> consumer_record \<Rightarrow> 'w outbound_state \<Rightarrow> 'w outbound_state" where
  "deliver_one lib ob sub r s =
     (case deliver_begin lib ob sub r s of
        (None, s) \<Rightarrow> s
      | (Some req, s) \<Rightarrow> deliver_attempts ob sub r req 1 s)"

section \<open>A batch\<close>

type_synonym part_key = "string \<times> int"

definition part_of :: "consumer_record \<Rightarrow> part_key" where
  "part_of r = (cr_topic r, cr_partition r)"

definition part_records :: "consumer_record list \<Rightarrow> part_key \<Rightarrow> consumer_record list" where
  "part_records batch k = sort_key cr_offset (filter (\<lambda>r. part_of r = k) batch)"

text \<open>The future of one partition: the records that are left, and the one in
  flight with its request and the number of its next attempt.\<close>

record part_task =
  pt_queue :: "consumer_record list"
  pt_flight :: "(consumer_record \<times> http_request \<times> nat) option"

definition part_done :: "part_task \<Rightarrow> bool" where
  "part_done t \<longleftrightarrow> pt_queue t = [] \<and> pt_flight t = None"

definition part_step ::
    "'q web_lib \<Rightarrow> 'w outbound_lib \<Rightarrow> 'q compiled_subscription \<Rightarrow> part_task \<Rightarrow> 'w outbound_state \<Rightarrow> part_task \<times> 'w outbound_state" where
  "part_step lib ob sub t s =
     (case pt_flight t of
        Some (r, req, attempt) \<Rightarrow>
          (case deliver_attempt ob sub r req attempt s of
             (next_attempt, s) \<Rightarrow> (t\<lparr>pt_flight := map_option (\<lambda>n. (r, req, n)) next_attempt\<rparr>, s))
      | None \<Rightarrow>
          (case pt_queue t of
             [] \<Rightarrow> (t, s)
           | r # rs \<Rightarrow>
               (case deliver_begin lib ob sub r s of
                  (req, s) \<Rightarrow> (\<lparr>pt_queue = rs, pt_flight = map_option (\<lambda>req. (r, req, 1)) req\<rparr>, s))))"

definition deliver_batch_start :: "consumer_record list \<Rightarrow> part_key \<Rightarrow> part_task" where
  "deliver_batch_start batch k = \<lparr>pt_queue = part_records batch k, pt_flight = None\<rparr>"

fun deliver_batch ::
    "'q web_lib \<Rightarrow> 'w outbound_lib \<Rightarrow> 'q compiled_subscription \<Rightarrow> part_key list \<Rightarrow>
     (part_key \<Rightarrow> part_task) \<times> 'w outbound_state \<Rightarrow> (part_key \<Rightarrow> part_task) \<times> 'w outbound_state" where
  "deliver_batch lib ob sub [] (ts, s) = (ts, s)"
| "deliver_batch lib ob sub (k # ks) (ts, s) =
     (case part_step lib ob sub (ts k) s of (t, s) \<Rightarrow> deliver_batch lib ob sub ks (ts(k := t), s))"

section \<open>The subscription task\<close>

text \<open>What the task waits for: a batch with the interleaving that delivers it,
  a poll error, or the shutdown signal.\<close>

datatype outbound_event = Polled "consumer_record list" "part_key list" | PollFailed string | ShutdownSignal

definition all_done :: "consumer_record list \<Rightarrow> (part_key \<Rightarrow> part_task) \<Rightarrow> bool" where
  "all_done batch ts \<longleftrightarrow> list_all (\<lambda>r. part_done (ts (part_of r))) batch"

datatype loop_exit = Running | Stopped | PollError string

text \<open>The loop over the events so far. It is still \<open>Running\<close> when it waits for the
  next event and when the interleaving has not finished the batch, which is also where a crash
  leaves it.\<close>

fun subscription_loop ::
    "'q web_lib \<Rightarrow> 'w outbound_lib \<Rightarrow> 'q compiled_subscription \<Rightarrow> outbound_event list \<Rightarrow> 'w outbound_state \<Rightarrow>
     loop_exit \<times> 'w outbound_state" where
  "subscription_loop lib ob sub [] s = (Running, s)"
| "subscription_loop lib ob sub (ShutdownSignal # es) s = (Stopped, s)"
| "subscription_loop lib ob sub (PollFailed e # es) s = (PollError e, s)"
| "subscription_loop lib ob sub (Polled batch sched # es) s =
     (if batch = [] then subscription_loop lib ob sub es s
      else
        (case deliver_batch lib ob sub sched (deliver_batch_start batch, s) of
           (ts, s) \<Rightarrow>
             if \<not> all_done batch ts then (Running, s)
             else
               (case ob_commit ob (dl_world s) of
                  (ok, w) \<Rightarrow>
                    let s = s\<lparr>dl_world := w\<rparr> in
                    subscription_loop lib ob sub es (if ok then note_event BatchCommitted s else s))))"

definition run_subscription ::
    "'q web_lib \<Rightarrow> 'w outbound_lib \<Rightarrow> 'q compiled_subscription \<Rightarrow> outbound_event list \<Rightarrow> 'w outbound_state \<Rightarrow>
     (gateway_error + unit) option \<times> 'w outbound_state" where
  "run_subscription lib ob sub es s =
     (case subscription_loop lib ob sub es (dl_emit IncActiveSubscriptions s) of
        (Running, s) \<Rightarrow> (None, s)
      | (exit, s) \<Rightarrow>
          (Some (case exit of PollError e \<Rightarrow> Err (Consumer e) | _ \<Rightarrow> Ok ()),
           dl_emit DecActiveSubscriptions (s\<lparr>dl_world := ob_close ob (dl_world s)\<rparr>)))"

section \<open>One record: what is posted and how it ends\<close>

lemma log_simps [simp]:
  "dl_log (note_event e s) = dl_log s @ [e]" "dl_log (dl_emit m s) = dl_log s" "dl_log (s\<lparr>dl_world := w\<rparr>) = dl_log s"
  by (simp_all add: note_event_def dl_emit_def)

definition letter_outcome :: "outcome \<Rightarrow> bool" where
  "letter_outcome o1 \<longleftrightarrow> o1 \<in> {DeadLettered, DeadLetterFailed, Dropped}"

lemma dead_letter_log:
  "\<exists>o1. dl_log (dead_letter ob sub r eid s) = dl_log s @ [Finished r o1] \<and> letter_outcome o1"
  by (auto simp: dead_letter_def letter_outcome_def Let_def split: option.split prod.split)

lemma deliver_begin_log:
  assumes "deliver_begin lib ob sub r s = (req, s')"
  shows "(req \<noteq> None \<and> dl_log s' = dl_log s) \<or>
         (req = None \<and> (\<exists>o1. dl_log s' = dl_log s @ [Finished r o1] \<and> o1 \<noteq> Delivered))"
proof -
  obtain o1 where "dl_log (dead_letter ob sub r (event_id_of r) (s\<lparr>dl_world := w\<rparr>)) = dl_log s @ [Finished r (o1 w)]"
    "letter_outcome (o1 w)" for w
    using dead_letter_log[of ob sub r "event_id_of r" "s\<lparr>dl_world := _\<rparr>"] by simp metis
  thus ?thesis using assms
    by (auto simp: deliver_begin_def letter_outcome_def Let_def split: if_splits prod.splits sum.splits)
      (metis outcome.distinct)+
qed

lemma deliver_attempt_log:
  assumes "deliver_attempt ob sub r req n s = (nxt, s')"
  obtains (delivered) status where "nxt = None" "delivery_success status"
      "dl_log s' = dl_log s @ [Posted (event_id_of r) n status, Finished r Delivered]"
  | (exhausted) status o1 where "nxt = None" "\<not> delivery_success status" "cs_max_attempts sub \<le> n" "letter_outcome o1"
      "dl_log s' = dl_log s @ [Posted (event_id_of r) n status, Finished r o1]"
  | (retry) status where "nxt = Some (n + 1)" "\<not> delivery_success status" "n < cs_max_attempts sub"
      "dl_log s' = dl_log s @ [Posted (event_id_of r) n status]"
proof -
  obtain status w where p: "ob_post ob req (dl_world s) = (status, w)" by (cases "ob_post ob req (dl_world s)")
  let ?s = "note_event (Posted (event_id_of r) n status) (s\<lparr>dl_world := w\<rparr>)"
  obtain o1 where o1: "dl_log (dead_letter ob sub r (event_id_of r) ?s) = dl_log ?s @ [Finished r o1]" "letter_outcome o1"
    using dead_letter_log by blast
  consider "delivery_success status" | "\<not> delivery_success status" "cs_max_attempts sub \<le> n" | "\<not> delivery_success status" "n < cs_max_attempts sub"
    by fastforce
  thus thesis
  proof cases
    case 1
    thus ?thesis using assms delivered[of status] by (auto simp: deliver_attempt_def p Let_def)
  next
    case 2
    thus ?thesis using assms exhausted[of status o1] o1 by (auto simp: deliver_attempt_def p Let_def)
  next
    case 3
    thus ?thesis using assms retry[of status] by (auto simp: deliver_attempt_def p Let_def)
  qed
qed

text \<open>The log of a record from attempt \<open>n\<close> on: every POST but the last fails,
  the attempts count up from \<open>n\<close> to at most the limit, and the record ends delivered exactly
  if the last POST succeeded.\<close>

definition attempts_log :: "nat \<Rightarrow> consumer_record \<Rightarrow> nat \<Rightarrow> delivery_event list \<Rightarrow> bool" where
  "attempts_log limit r n es \<longleftrightarrow>
     (\<exists>sts o1. es = map (\<lambda>(i, st). Posted (event_id_of r) (n + i) st) (enumerate 0 sts) @ [Finished r o1] \<and>
        sts \<noteq> [] \<and> (\<forall>st\<in>set (butlast sts). \<not> delivery_success st) \<and> n + length sts - 1 \<le> max n limit \<and>
        (if delivery_success (last sts) then o1 = Delivered
         else letter_outcome o1 \<and> limit \<le> n + length sts - 1))"

lemma enumerate_Suc_map:
  "map (\<lambda>(i, st). f (Suc n + i) st) (enumerate 0 sts) = map (\<lambda>(i, st). f (n + i) st) (enumerate 1 sts)"
  by (rule nth_equalityI) (auto simp: nth_enumerate_eq)

lemma attempts_log_retry:
  assumes "attempts_log limit r (Suc n) es" "\<not> delivery_success st" "n < limit"
  shows "attempts_log limit r n (Posted (event_id_of r) n st # es)"
proof -
  obtain sts o1 where e: "es = map (\<lambda>(i, st). Posted (event_id_of r) (Suc n + i) st) (enumerate 0 sts) @ [Finished r o1]"
    and s: "sts \<noteq> []" "\<forall>st\<in>set (butlast sts). \<not> delivery_success st" "Suc n + length sts - 1 \<le> max (Suc n) limit"
    and f: "if delivery_success (last sts) then o1 = Delivered else letter_outcome o1 \<and> limit \<le> Suc n + length sts - 1"
    using assms(1) unfolding attempts_log_def by blast
  have "Posted (event_id_of r) n st # es =
      map (\<lambda>(i, st). Posted (event_id_of r) (n + i) st) (enumerate 0 (st # sts)) @ [Finished r o1]"
    unfolding e enumerate_Suc_map by simp
  thus ?thesis unfolding attempts_log_def using s f assms(2,3)
    by (intro exI[of _ "st # sts"] exI[of _ o1]) auto
qed

lemma deliver_attempts_log:
  "\<exists>es. dl_log (deliver_attempts ob sub r req n s) = dl_log s @ es \<and> attempts_log (cs_max_attempts sub) r n es"
proof (induction ob sub r req n s rule: deliver_attempts.induct)
  case (1 ob sub r req n s)
  obtain nxt s' where d: "deliver_attempt ob sub r req n s = (nxt, s')" by (cases "deliver_attempt ob sub r req n s")
  from d show ?case
  proof (cases rule: deliver_attempt_log)
    case (delivered status)
    thus ?thesis using d
      by (auto simp: attempts_log_def intro!: exI[of _ "[status]"])
  next
    case (exhausted status o1)
    thus ?thesis using d
      by (auto simp: attempts_log_def intro!: exI[of _ "[status]"])
  next
    case (retry status)
    obtain es where es: "dl_log (deliver_attempts ob sub r req (Suc n) s') = dl_log s' @ es"
      "attempts_log (cs_max_attempts sub) r (Suc n) es"
      using "1.IH"[OF d[symmetric] retry(1)] by auto
    have "dl_log (deliver_attempts ob sub r req n s) = dl_log s @ (Posted (event_id_of r) n status # es)"
      using d retry es(1) by (subst deliver_attempts.simps) simp
    thus ?thesis using attempts_log_retry[OF es(2) retry(2,3)] by blast
  qed
qed

lemma deliver_one_log_holds:
  "\<exists>es. dl_log (deliver_one lib ob sub r s) = dl_log s @ es \<and>
     ((\<exists>o1. es = [Finished r o1] \<and> o1 \<noteq> Delivered) \<or> attempts_log (cs_max_attempts sub) r 1 es)"
proof -
  obtain req s' where b: "deliver_begin lib ob sub r s = (req, s')" by (cases "deliver_begin lib ob sub r s")
  show ?thesis
  proof (cases req)
    case None
    thus ?thesis using deliver_begin_log[OF b] b by (auto simp: deliver_one_def)
  next
    case (Some q)
    thus ?thesis using deliver_begin_log[OF b] b deliver_attempts_log[of ob sub r q 1 s']
      by (auto simp: deliver_one_def)
  qed
qed

section \<open>Batches: order and completion\<close>

definition finished :: "delivery_event list \<Rightarrow> consumer_record list" where
  "finished es = List.map_filter (\<lambda>e. case e of Finished r _ \<Rightarrow> Some r | _ \<Rightarrow> None) es"

lemma finished_simps [simp]:
  "finished [] = []" "finished (xs @ ys) = finished xs @ finished ys"
  "finished (Posted a b c # es) = finished es" "finished (Finished r o1 # es) = r # finished es"
  "finished (BatchCommitted # es) = finished es"
  by (simp_all add: finished_def List.map_filter_def)

definition part_pending :: "part_task \<Rightarrow> consumer_record list" where
  "part_pending t = (case pt_flight t of None \<Rightarrow> [] | Some (r, _) \<Rightarrow> [r]) @ pt_queue t"

lemma part_pending_done: "part_done t \<longleftrightarrow> part_pending t = []"
  by (auto simp: part_done_def part_pending_def split: option.split)

definition no_commit :: "delivery_event list \<Rightarrow> bool" where
  "no_commit es \<longleftrightarrow> BatchCommitted \<notin> set es"

lemma part_step_finishes:
  assumes "part_step lib ob sub t s = (t', s')"
  shows "\<exists>es. dl_log s' = dl_log s @ es \<and> finished es @ part_pending t' = part_pending t \<and> no_commit es"
proof (cases "pt_flight t")
  case None
  show ?thesis
  proof (cases "pt_queue t")
    case Nil
    thus ?thesis using assms None by (auto simp: part_step_def no_commit_def)
  next
    case (Cons r rs)
    obtain req s1 where b: "deliver_begin lib ob sub r s = (req, s1)" by (cases "deliver_begin lib ob sub r s")
    show ?thesis using assms None Cons b deliver_begin_log[OF b]
      by (auto simp: part_step_def part_pending_def no_commit_def split: option.splits)
  qed
next
  case (Some f)
  obtain r req n where f: "f = (r, req, n)" by (cases f)
  obtain nxt s1 where d: "deliver_attempt ob sub r req n s = (nxt, s1)" by (cases "deliver_attempt ob sub r req n s")
  have t': "t' = t\<lparr>pt_flight := map_option (\<lambda>n. (r, req, n)) nxt\<rparr>" "s' = s1"
    using assms Some f d by (auto simp: part_step_def)
  from d show ?thesis
    by (cases rule: deliver_attempt_log) (auto simp: t' Some f part_pending_def no_commit_def)
qed

definition tasks_ok :: "(part_key \<Rightarrow> part_task) \<Rightarrow> bool" where
  "tasks_ok ts \<longleftrightarrow> (\<forall>k. \<forall>r\<in>set (part_pending (ts k)). part_of r = k)"

lemma tasks_ok_start: "tasks_ok (deliver_batch_start batch)"
  by (simp add: tasks_ok_def deliver_batch_start_def part_pending_def part_records_def)

lemma deliver_batch_finishes:
  "deliver_batch lib ob sub sched (ts, s) = (ts', s') \<Longrightarrow> tasks_ok ts \<Longrightarrow>
   \<exists>es. dl_log s' = dl_log s @ es \<and> no_commit es \<and>
     (\<forall>k. filter (\<lambda>r. part_of r = k) (finished es) @ part_pending (ts' k) = part_pending (ts k))"
proof (induction sched arbitrary: ts s)
  case (Cons k ks)
  obtain t s1 where p: "part_step lib ob sub (ts k) s = (t, s1)" by (cases "part_step lib ob sub (ts k) s")
  obtain e1 where e1: "dl_log s1 = dl_log s @ e1" "finished e1 @ part_pending t = part_pending (ts k)" "no_commit e1"
    using part_step_finishes[OF p] by blast
  have sub: "set (finished e1) \<subseteq> set (part_pending (ts k))" "set (part_pending t) \<subseteq> set (part_pending (ts k))"
    using arg_cong[OF e1(2), of set] by auto
  have ok1: "\<And>r. r \<in> set (part_pending (ts k)) \<Longrightarrow> part_of r = k" using Cons.prems(2) unfolding tasks_ok_def by blast
  have ok: "tasks_ok (ts(k := t))" using Cons.prems(2) sub(2) ok1 by (auto simp: tasks_ok_def)
  have rest: "deliver_batch lib ob sub ks (ts(k := t), s1) = (ts', s')" using Cons.prems(1) p by simp
  obtain e2 where e2: "dl_log s' = dl_log s1 @ e2" "no_commit e2"
    "\<And>j. filter (\<lambda>r. part_of r = j) (finished e2) @ part_pending (ts' j) = part_pending ((ts(k := t)) j)"
    using Cons.IH[OF rest ok] by blast
  have f1: "filter (\<lambda>r. part_of r = j) (finished e1) = (if j = k then finished e1 else [])" for j
    using sub(1) ok1 by (auto simp: filter_empty_conv filter_id_conv)
  have "filter (\<lambda>r. part_of r = j) (finished (e1 @ e2)) @ part_pending (ts' j) = part_pending (ts j)" for j
    using e2(3)[of j] e1(2) f1[of j] by (auto split: if_splits)
  thus ?case using e1 e2 by (intro exI[of _ "e1 @ e2"]) (auto simp: no_commit_def)
qed (auto simp: no_commit_def)

lemma part_pending_start: "part_pending (deliver_batch_start batch k) = part_records batch k"
  by (simp add: deliver_batch_start_def part_pending_def)

lemma part_records_Nil: "k \<notin> part_of ` set batch \<Longrightarrow> part_records batch k = []"
proof -
  assume "k \<notin> part_of ` set batch"
  hence "filter (\<lambda>r. part_of r = k) batch = []" unfolding filter_empty_conv by blast
  thus ?thesis by (simp add: part_records_def)
qed

lemma mset_by_parts:
  assumes "\<And>k. mset (filter (\<lambda>r. f r = k) xs) = mset (filter (\<lambda>r. f r = k) ys)" shows "mset xs = mset ys"
proof (rule multiset_eqI)
  fix r
  have "count (mset xs) r = count (filter_mset (\<lambda>x. f x = f r) (mset xs)) r" by simp
  also have "\<dots> = count (filter_mset (\<lambda>x. f x = f r) (mset ys)) r" using assms[of "f r"] by simp
  finally show "count (mset xs) r = count (mset ys) r" by simp
qed

lemma deliver_batch_in_order_holds:
  assumes b: "deliver_batch lib ob sub sched (deliver_batch_start batch, s) = (ts, s')" and d: "all_done batch ts"
  shows "\<exists>es. dl_log s' = dl_log s @ es \<and> no_commit es \<and> mset (finished es) = mset batch \<and>
           (\<forall>k. filter (\<lambda>r. part_of r = k) (finished es) = part_records batch k)"
proof -
  obtain es where es: "dl_log s' = dl_log s @ es" "no_commit es"
    "\<And>k. filter (\<lambda>r. part_of r = k) (finished es) @ part_pending (ts k) = part_records batch k"
    using deliver_batch_finishes[OF b tasks_ok_start] by (auto simp: part_pending_start)
  have e: "filter (\<lambda>r. part_of r = k) (finished es) = part_records batch k" for k
  proof (cases "k \<in> part_of ` set batch")
    case True
    hence "part_pending (ts k) = []" using d by (auto simp: all_done_def list_all_iff part_pending_done)
    thus ?thesis using es(3)[of k] by simp
  next
    case False
    thus ?thesis using es(3)[of k] part_records_Nil[OF False] by simp
  qed
  have "mset (finished es) = mset batch"
    by (rule mset_by_parts[of part_of]) (simp add: e part_records_def)
  thus ?thesis using es(1,2) e by blast
qed

text \<open>Work that is left in a partition: it shrinks with every step.\<close>

definition work :: "'q compiled_subscription \<Rightarrow> part_task \<Rightarrow> nat" where
  "work sub t = length (pt_queue t) * (cs_max_attempts sub + 2) +
     (case pt_flight t of None \<Rightarrow> 0 | Some (_, _, n) \<Rightarrow> cs_max_attempts sub - n + 1)"

lemma part_step_work:
  assumes "part_step lib ob sub t s = (t', s')" "\<not> part_done t" shows "work sub t' < work sub t"
proof (cases "pt_flight t")
  case None
  then obtain r rs where q: "pt_queue t = r # rs" using assms(2) by (cases "pt_queue t") (auto simp: part_done_def)
  obtain req s1 where b: "deliver_begin lib ob sub r s = (req, s1)" by (cases "deliver_begin lib ob sub r s")
  show ?thesis using assms(1) None q b by (cases req) (auto simp: part_step_def work_def)
next
  case (Some f)
  obtain r req n where f: "f = (r, req, n)" by (cases f)
  obtain nxt s1 where d: "deliver_attempt ob sub r req n s = (nxt, s1)" by (cases "deliver_attempt ob sub r req n s")
  have t': "t' = t\<lparr>pt_flight := map_option (\<lambda>n. (r, req, n)) nxt\<rparr>"
    using assms Some f d by (auto simp: part_step_def)
  from d show ?thesis
    by (cases rule: deliver_attempt_log) (auto simp: t' Some f work_def)
qed

lemma work_0: "work sub t = 0 \<longleftrightarrow> part_done t"
  by (auto simp: work_def part_done_def split: option.splits)

lemma part_step_done: "part_done t \<Longrightarrow> part_step lib ob sub t s = (t, s)"
  by (simp add: part_step_def part_done_def)

lemma deliver_batch_work:
  "deliver_batch lib ob sub sched (ts, s) = (ts', s') \<Longrightarrow>
   work sub (ts' k) + count_list sched k \<le> work sub (ts k) \<or> part_done (ts' k)"
proof (induction sched arbitrary: ts s)
  case (Cons j js)
  obtain t s1 where p: "part_step lib ob sub (ts j) s = (t, s1)" by (cases "part_step lib ob sub (ts j) s")
  have IH: "work sub (ts' k) + count_list js k \<le> work sub ((ts(j := t)) k) \<or> part_done (ts' k)"
  proof (rule Cons.IH)
    show "deliver_batch lib ob sub js (ts(j := t), s1) = (ts', s')" using Cons.prems p by simp
  qed
  show ?case
  proof (cases "k = j")
    case True
    show ?thesis
    proof (cases "part_done (ts j)")
      case d: True
      hence "t = ts j" using part_step_done[OF d, of lib ob sub s] p by simp
      hence "work sub (ts' k) \<le> 0 \<or> part_done (ts' k)" using IH True d work_0[of sub "ts j"] by auto
      thus ?thesis using work_0[of sub "ts' k"] by auto
    next
      case False
      thus ?thesis using part_step_work[OF p False] IH True by auto
    qed
  next
    case False
    thus ?thesis using IH by auto
  qed
qed simp

lemma deliver_batch_completes_holds:
  assumes "\<And>r. r \<in> set batch \<Longrightarrow>
      length (part_records batch (part_of r)) * (cs_max_attempts sub + 2) \<le> count_list sched (part_of r)"
  shows "all_done batch (fst (deliver_batch lib ob sub sched (deliver_batch_start batch, s)))"
proof -
  obtain ts s' where b: "deliver_batch lib ob sub sched (deliver_batch_start batch, s) = (ts, s')"
    by (cases "deliver_batch lib ob sub sched (deliver_batch_start batch, s)")
  have "part_done (ts (part_of r))" if r: "r \<in> set batch" for r
  proof -
    have "work sub (deliver_batch_start batch (part_of r)) \<le> count_list sched (part_of r)"
      using assms[OF r] by (simp add: work_def deliver_batch_start_def)
    hence "work sub (ts (part_of r)) = 0 \<or> part_done (ts (part_of r))"
      using deliver_batch_work[OF b, of "part_of r"] by linarith
    thus ?thesis by (simp add: work_0)
  qed
  thus ?thesis by (simp add: b all_done_def list_all_iff)
qed

section \<open>Commits\<close>

definition polled_batches :: "outbound_event list \<Rightarrow> consumer_record list list" where
  "polled_batches es = List.map_filter (\<lambda>e. case e of Polled batch _ \<Rightarrow> Some batch | _ \<Rightarrow> None) es"

lemma polled_batches_simps [simp]:
  "polled_batches [] = []" "polled_batches (Polled b k # es) = b # polled_batches es"
  "polled_batches (PollFailed e # es) = polled_batches es" "polled_batches (ShutdownSignal # es) = polled_batches es"
  by (simp_all add: polled_batches_def List.map_filter_def)

text \<open>Every commit in a log comes after exactly the records of the first \<open>n\<close> batches.\<close>

definition commits_cover :: "consumer_record list list \<Rightarrow> delivery_event list \<Rightarrow> bool" where
  "commits_cover batches es \<longleftrightarrow>
     (\<forall>pre post. es = pre @ BatchCommitted # post \<longrightarrow>
        (\<exists>n\<le>length batches. mset (finished pre) = mset (concat (take n batches))))"

lemma commits_cover_none: "no_commit es \<Longrightarrow> commits_cover bs es"
  by (auto simp: commits_cover_def no_commit_def)

lemma append_commit_split:
  assumes "xs @ ys = pre @ BatchCommitted # post" "no_commit xs"
  obtains zs where "pre = xs @ zs" "ys = zs @ BatchCommitted # post"
proof -
  have "\<not> length pre < length xs"
  proof
    assume l: "length pre < length xs"
    have "(xs @ ys) ! length pre = BatchCommitted" using assms(1) by simp
    hence "xs ! length pre = BatchCommitted" using l by (simp add: nth_append)
    thus False using l assms(2) nth_mem unfolding no_commit_def by metis
  qed
  hence "xs = take (length xs) pre" using assms(1) by (metis append_eq_conv_conj append_eq_append_conv_if not_less take_all_iff take_append)
  then obtain zs where "pre = xs @ zs" by (metis append_take_drop_id)
  thus thesis using that assms(1) by simp
qed

lemma commits_cover_batch:
  assumes "commits_cover bs es" "no_commit xs" "mset (finished xs) = mset b"
  shows "commits_cover (b # bs) (xs @ es)" "commits_cover (b # bs) (xs @ BatchCommitted # es)"
proof -
  have step: "\<exists>n\<le>length (b # bs). mset (finished (xs @ zs)) = mset (concat (take n (b # bs)))"
    if "n \<le> length bs" "mset (finished zs) = mset (concat (take n bs))" for zs n
    using that assms(3) by (intro exI[of _ "Suc n"]) simp
  show "commits_cover (b # bs) (xs @ es)"
    unfolding commits_cover_def
  proof (intro allI impI)
    fix pre post assume "xs @ es = pre @ BatchCommitted # post"
    then obtain zs where z: "pre = xs @ zs" "es = zs @ BatchCommitted # post" using append_commit_split assms(2) by metis
    then obtain n where "n \<le> length bs" "mset (finished zs) = mset (concat (take n bs))"
      using assms(1) unfolding commits_cover_def by blast
    thus "\<exists>n\<le>length (b # bs). mset (finished pre) = mset (concat (take n (b # bs)))" unfolding z(1) by (rule step)
  qed
  show "commits_cover (b # bs) (xs @ BatchCommitted # es)"
    unfolding commits_cover_def
  proof (intro allI impI)
    fix pre post assume "xs @ BatchCommitted # es = pre @ BatchCommitted # post"
    then obtain zs where z: "pre = xs @ zs" "BatchCommitted # es = zs @ BatchCommitted # post" using append_commit_split assms(2) by metis
    show "\<exists>n\<le>length (b # bs). mset (finished pre) = mset (concat (take n (b # bs)))"
    proof (cases zs)
      case Nil
      thus ?thesis unfolding z(1) using step[of 0 "[]"] by simp
    next
      case (Cons c zs')
      hence zs: "zs = BatchCommitted # zs'" "es = zs' @ BatchCommitted # post" using z(2) by auto
      then obtain n where "n \<le> length bs" "mset (finished zs') = mset (concat (take n bs))"
        using assms(1) unfolding commits_cover_def by blast
      thus ?thesis unfolding z(1) zs(1) using step[of n "BatchCommitted # zs'"] by simp
    qed
  qed
qed

lemma subscription_loop_commits:
  "subscription_loop lib ob sub evs s = (x, s') \<Longrightarrow>
   \<exists>es. dl_log s' = dl_log s @ es \<and> commits_cover (polled_batches evs) es"
proof (induction lib ob sub evs s arbitrary: x s' rule: subscription_loop.induct)
  case (4 lib ob sub batch sched evs s)
  show ?case
  proof (cases "batch = []")
    case True
    then obtain es where es: "dl_log s' = dl_log s @ es" "commits_cover (polled_batches evs) es"
      using 4 by auto
    hence "commits_cover ([] # polled_batches evs) ([] @ es)"
      by (intro commits_cover_batch) (auto simp: no_commit_def)
    thus ?thesis using es True by auto
  next
    case False
    obtain ts s1 where b: "deliver_batch lib ob sub sched (deliver_batch_start batch, s) = (ts, s1)"
      by (cases "deliver_batch lib ob sub sched (deliver_batch_start batch, s)")
    show ?thesis
    proof (cases "all_done batch ts")
      case nd: False
      thus ?thesis using "4.prems" False b deliver_batch_finishes[OF b tasks_ok_start] commits_cover_none by auto
    next
      case True
      obtain xs where xs: "dl_log s1 = dl_log s @ xs" "no_commit xs" "mset (finished xs) = mset batch"
        using deliver_batch_in_order_holds[OF b True] by blast
      obtain ok w where c: "ob_commit ob (dl_world s1) = (ok, w)" by (cases "ob_commit ob (dl_world s1)")
      obtain es where es: "dl_log s' = dl_log (if ok then note_event BatchCommitted (s1\<lparr>dl_world := w\<rparr>) else s1\<lparr>dl_world := w\<rparr>) @ es"
        "commits_cover (polled_batches evs) es"
        using "4.IH"(2)[OF False b[symmetric] _ c[symmetric] refl] "4.prems" False b True c by (auto simp: Let_def)
      thus ?thesis using xs commits_cover_batch[OF es(2) xs(2,3)]
        by (cases ok) (auto intro: exI[of _ "xs @ BatchCommitted # es"] exI[of _ "xs @ es"])
    qed
  qed
qed (auto simp: commits_cover_none no_commit_def)

section \<open>A partition on its own\<close>

lemma flight_runs_attempts:
  "\<exists>m. deliver_batch lib ob sub (replicate m k) (ts(k := \<lparr>pt_queue = rs, pt_flight = Some (r, req, n)\<rparr>), s) =
     (ts(k := \<lparr>pt_queue = rs, pt_flight = None\<rparr>), deliver_attempts ob sub r req n s)"
proof (induction ob sub r req n s rule: deliver_attempts.induct)
  case (1 ob sub r req n s)
  obtain nxt s1 where d: "deliver_attempt ob sub r req n s = (nxt, s1)" by (cases "deliver_attempt ob sub r req n s")
  have step: "part_step lib ob sub \<lparr>pt_queue = rs, pt_flight = Some (r, req, n)\<rparr> s =
      (\<lparr>pt_queue = rs, pt_flight = map_option (\<lambda>n. (r, req, n)) nxt\<rparr>, s1)"
    by (simp add: part_step_def d)
  show ?case
  proof (cases nxt)
    case None
    thus ?thesis using step d by (intro exI[of _ 1]) (simp add: deliver_attempts.simps[of ob sub r req n s] fun_upd_same del: fun_upd_apply)
  next
    case (Some n')
    obtain m where m: "deliver_batch lib ob sub (replicate m k) (ts(k := \<lparr>pt_queue = rs, pt_flight = Some (r, req, n')\<rparr>), s1) =
        (ts(k := \<lparr>pt_queue = rs, pt_flight = None\<rparr>), deliver_attempts ob sub r req n' s1)"
      using "1.IH"[OF d[symmetric] Some] by blast
    thus ?thesis using step d Some
      by (intro exI[of _ "Suc m"]) (simp add: deliver_attempts.simps[of ob sub r req n s] fun_upd_same del: fun_upd_apply)
  qed
qed

lemma part_runs_deliver_one:
  "\<exists>m. deliver_batch lib ob sub (replicate m k) (ts(k := \<lparr>pt_queue = r # rs, pt_flight = None\<rparr>), s) =
     (ts(k := \<lparr>pt_queue = rs, pt_flight = None\<rparr>), deliver_one lib ob sub r s)"
proof -
  obtain req s1 where b: "deliver_begin lib ob sub r s = (req, s1)" by (cases "deliver_begin lib ob sub r s")
  have step: "part_step lib ob sub \<lparr>pt_queue = r # rs, pt_flight = None\<rparr> s =
      (\<lparr>pt_queue = rs, pt_flight = map_option (\<lambda>q. (r, q, 1)) req\<rparr>, s1)"
    by (simp add: part_step_def b)
  show ?thesis
  proof (cases req)
    case None
    thus ?thesis using step b by (intro exI[of _ 1]) (simp add: deliver_one_def fun_upd_same del: fun_upd_apply)
  next
    case (Some q)
    obtain m where "deliver_batch lib ob sub (replicate m k) (ts(k := \<lparr>pt_queue = rs, pt_flight = Some (r, q, 1)\<rparr>), s1) =
        (ts(k := \<lparr>pt_queue = rs, pt_flight = None\<rparr>), deliver_attempts ob sub r q 1 s1)"
      using flight_runs_attempts by blast
    thus ?thesis using step b Some by (intro exI[of _ "Suc m"]) (simp add: deliver_one_def fun_upd_same del: fun_upd_apply)
  qed
qed

lemma deliver_batch_append:
  "deliver_batch lib ob sub (xs @ ys) st = deliver_batch lib ob sub ys (deliver_batch lib ob sub xs st)"
  by (induction xs arbitrary: st) (auto split: prod.splits)

text \<open>Scheduled alone, the future of a partition is the loop of the code: its
  records one after the other.\<close>

lemma part_runs_records:
  "\<exists>m. deliver_batch lib ob sub (replicate m k) (ts(k := \<lparr>pt_queue = rs, pt_flight = None\<rparr>), s) =
     (ts(k := \<lparr>pt_queue = [], pt_flight = None\<rparr>), fold (deliver_one lib ob sub) rs s)"
proof (induction rs arbitrary: s)
  case Nil
  show ?case by (intro exI[of _ 0]) simp
next
  case (Cons r rs)
  obtain m n where
    "deliver_batch lib ob sub (replicate m k) (ts(k := \<lparr>pt_queue = r # rs, pt_flight = None\<rparr>), s) =
       (ts(k := \<lparr>pt_queue = rs, pt_flight = None\<rparr>), deliver_one lib ob sub r s)"
    "deliver_batch lib ob sub (replicate n k) (ts(k := \<lparr>pt_queue = rs, pt_flight = None\<rparr>), deliver_one lib ob sub r s) =
       (ts(k := \<lparr>pt_queue = [], pt_flight = None\<rparr>), fold (deliver_one lib ob sub) rs (deliver_one lib ob sub r s))"
    using part_runs_deliver_one Cons.IH by blast
  thus ?case by (intro exI[of _ "m + n"]) (simp add: replicate_add deliver_batch_append fun_upd_same del: fun_upd_apply)
qed

section \<open>The compiled policy\<close>

definition subscription_ok :: "'q web_lib \<Rightarrow> allowed_target list \<Rightarrow> 'q compiled_subscription \<Rightarrow> bool" where
  "subscription_ok lib allowed c \<longleftrightarrow>
     (\<exists>scheme host. wl_url lib (cs_target_url c) = Ok (scheme, Some host) \<and> target_allowed allowed scheme host) \<and>
     1 \<le> cs_max_attempts c \<and> cs_max_attempts c < 2 ^ 32 \<and>
     0 < cs_base_backoff c \<and> cs_base_backoff c \<le> cs_max_backoff c \<and> 0 < cs_request_timeout c \<and> cs_group_id c \<noteq> [] \<and>
     (is_cloudevents (cs_content_mode c) \<longrightarrow> (\<forall>(name, _)\<in>set (cs_headers c). \<not> reserved_header name))"

lemma positive_time_Ok [simp]: "positive_time n v = Ok t \<longleftrightarrow> 0 < v \<and> t = v"
  by (auto simp: positive_time_def)

lemma check_target_Ok:
  "check_target lib ctx allowed url = Ok () \<Longrightarrow>
   \<exists>scheme host. wl_url lib url = Ok (scheme, Some host) \<and> target_allowed allowed scheme host"
  by (auto simp: check_target_def split: sum.splits prod.splits option.splits if_splits)

lemma reject_overrides_Ok:
  "reject_cloudevents_header_overrides ctx hs = Ok () \<Longrightarrow> \<forall>(name, _)\<in>set hs. \<not> reserved_header name"
  by (auto simp: reject_cloudevents_header_overrides_def find_None_iff split: option.splits)

lemma compile_subscription_ok:
  assumes "compile_subscription lib allowed o1 = Ok c" shows "subscription_ok lib allowed c"
proof -
  define ctx where "ctx = ''[outbound '' @ os_name o1 @ '']''"
  show ?thesis
    using assms unfolding compile_subscription_def Let_def ctx_def[symmetric]
    apply (elim and_then_OkE guard_OkE)
    subgoal premises p for g ma bb mb rt u flt v
    proof -
      have c: "c = \<lparr>cs_name = os_name o1, cs_group_id = g, cs_source_topics = os_source_topics o1,
               cs_target_url = os_target_url o1, cs_signing_secret = map_option as_bytes (os_signing_secret o1),
               cs_dead_letter_topic = os_dead_letter_topic o1, cs_max_attempts = nat ma,
               cs_base_backoff = bb, cs_max_backoff = mb, cs_request_timeout = rt,
               cs_filter = flt, cs_headers = os_headers o1, cs_content_mode = os_content_mode o1,
               cs_decode_to_json = os_decode_to_json o1\<rparr>"
        using p by simp
      have "g \<noteq> []" using p(1) by (auto split: option.splits if_splits)
      moreover have "1 \<le> ma" "ma < 2 ^ 32" using p(2) by (auto simp: PositiveU32_def refined_new_def split: if_splits)
      moreover have "0 < bb" "0 < rt" "bb \<le> mb" using p(3-6) by (auto simp: not_less)
      moreover have "\<exists>scheme host. wl_url lib (os_target_url o1) = Ok (scheme, Some host) \<and> target_allowed allowed scheme host"
        using p(7) check_target_Ok by (cases u) blast
      moreover have "is_cloudevents (os_content_mode o1) \<longrightarrow> (\<forall>(name, _)\<in>set (os_headers o1). \<not> reserved_header name)"
        using p(9) reject_overrides_Ok by (cases v) (auto split: if_splits)
      ultimately show ?thesis by (simp add: subscription_ok_def c nat_less_iff)
    qed
    done
qed

lemma compile_outbound_ok:
  "compile_outbound lib allowed ss = Ok cs \<Longrightarrow> c \<in> set cs \<Longrightarrow> subscription_ok lib allowed c"
proof (induction ss arbitrary: cs)
  case (Cons o1 ss)
  then obtain c' cs' where "compile_subscription lib allowed o1 = Ok c'" "compile_outbound lib allowed ss = Ok cs'" "cs = c' # cs'"
    by (auto simp: and_then_Ok_iff)
  thus ?case using Cons compile_subscription_ok by auto
qed simp

lemma deliver_begin_url: "deliver_begin lib ob sub r s = (Some req, s') \<Longrightarrow> hr_url req = cs_target_url sub"
  by (auto simp: deliver_begin_def delivery_request_def Let_def split: if_splits prod.splits sum.splits)

lemma saturating_pow2_pos: "0 < saturating_pow2 n"
  by (simp add: saturating_pow2_def)

lemma saturating_pow2_min: "saturating_pow2 n = min (2 ^ n) (2 ^ 32 - 1)"
proof (cases "n < 32")
  case True
  hence "(2::nat) ^ n \<le> 2 ^ 31" by (intro power_increasing) auto
  thus ?thesis using True by (simp add: saturating_pow2_def)
next
  case False
  hence "(2::nat) ^ 32 \<le> 2 ^ n" by (intro power_increasing) auto
  thus ?thesis using False by (simp add: saturating_pow2_def)
qed

lemma backoff_bounds_holds:
  fixes attempt :: nat
  assumes "0 < b" "b \<le> mx" "nanos < 1000000000"
  defines "cap \<equiv> min mx (b * of_nat (min (2 ^ (attempt - 1)) (2 ^ 32 - 1)))"
  shows "cap / 2 \<le> backoff_with_jitter nanos attempt b mx" "backoff_with_jitter nanos attempt b mx < cap"
    "b \<le> cap" "cap \<le> mx"
proof -
  have cap: "cap = (if mx < b * of_nat (saturating_pow2 (attempt - 1)) then mx else b * of_nat (saturating_pow2 (attempt - 1)))"
    by (simp add: cap_def saturating_pow2_min min_def)
  have "1 \<le> (of_nat (saturating_pow2 (attempt - 1)) :: rat)" using saturating_pow2_pos[of "attempt - 1"] by simp
  hence "b * 1 \<le> b * of_nat (saturating_pow2 (attempt - 1))" using assms(1) by (intro mult_left_mono) auto
  thus b: "b \<le> cap" using assms(2) by (simp add: cap)
  show "cap \<le> mx" by (simp add: cap_def)
  have d: "backoff_with_jitter nanos attempt b mx = cap / 2 + cap / 2 * (of_nat nanos / 1000000000)"
    by (simp add: backoff_with_jitter_def cap Let_def)
  have j: "0 \<le> (of_nat nanos / 1000000000 :: rat)" "(of_nat nanos / 1000000000 :: rat) < 1"
    using assms(3) by (simp_all add: divide_less_eq)
  have "0 < cap" using b assms(1) by simp
  thus "cap / 2 \<le> backoff_with_jitter nanos attempt b mx" using j(1) unfolding d by simp
  have "cap / 2 * (of_nat nanos / 1000000000) < cap / 2 * 1"
    using j(2) \<open>0 < cap\<close> by (intro mult_strict_left_mono) auto
  thus "backoff_with_jitter nanos attempt b mx < cap" unfolding d by simp
qed

section \<open>Properties\<close>


text \<open>
  C13: However the partitions of a batch interleave, once the batch is done
  every record of it has been finished exactly once, and the records of each partition
  were finished in offset order. Nothing was committed on the way.
\<close>

theorem deliver_batch_in_order:
  assumes "deliver_batch lib ob sub sched (deliver_batch_start batch, s) = (ts, s')" "all_done batch ts"
  shows "\<exists>es. dl_log s' = dl_log s @ es \<and> no_commit es \<and> mset (finished es) = mset batch \<and>
           (\<forall>k. sorted (map cr_offset (filter (\<lambda>r. part_of r = k) (finished es))))"
  using deliver_batch_in_order_holds[OF assms] by (auto simp: part_records_def)

text \<open>
  C14: A batch always ends: when every partition gets a turn for each attempt of each of its
  records, in any order, the batch is done, whatever the receiver answers.
\<close>

theorem deliver_batch_completes:
  assumes "\<And>r. r \<in> set batch \<Longrightarrow>
      length (filter (\<lambda>x. part_of x = part_of r) batch) * (cs_max_attempts sub + 2) \<le> count_list sched (part_of r)"
  shows "all_done batch (fst (deliver_batch lib ob sub sched (deliver_batch_start batch, s)))"
  using assms by (intro deliver_batch_completes_holds) (simp add: part_records_def)


text \<open>
  C16: Every request of a subscription that the compiler accepted goes to a URL whose scheme
  and host the operator listed, and the delivery policy is sane: at least one attempt,
  positive times, a backoff cap not below its base, and no static header in the way
  of a CloudEvents header. With an empty list there is no subscription.
\<close>

theorem outbound_target_allowed:
  assumes "compile_outbound lib allowed subs = Ok cs" "c \<in> set cs" "deliver_begin lib ob c r s = (Some req, s')"
  shows "subscription_ok lib allowed c \<and> allowed \<noteq> [] \<and>
    (\<exists>scheme host a. wl_url lib (hr_url req) = Ok (scheme, Some host) \<and> a \<in> set allowed \<and>
       eq_ignore_ascii_case (at_scheme a) scheme \<and> eq_ignore_ascii_case (at_host a) host)"
proof -
  have ok: "subscription_ok lib allowed c" by (rule compile_outbound_ok[OF assms(1,2)])
  then obtain scheme host where u: "wl_url lib (cs_target_url c) = Ok (scheme, Some host)" "target_allowed allowed scheme host"
    by (auto simp: subscription_ok_def)
  then obtain a where a: "a \<in> set allowed" "eq_ignore_ascii_case (at_scheme a) scheme" "eq_ignore_ascii_case (at_host a) host"
    by (auto simp: target_allowed_def list_ex_iff)
  show ?thesis using ok u a deliver_begin_url[OF assms(3)] by auto
qed

text \<open>
  C28: The pause before a retry lies between half of the capped exponential delay and
  the capped delay itself, for every attempt number: the doubling saturates and
  never overflows, and the pause is never below half of the base nor above the maximum.
\<close>

theorem backoff_bounds:
  assumes "0 < b" "b \<le> mx" "nanos < 1000000000"
    and "cap = min mx (b * of_nat (min (2 ^ (attempt - 1)) (2 ^ 32 - 1)))"
  shows "cap / 2 \<le> backoff_with_jitter nanos attempt b mx \<and> backoff_with_jitter nanos attempt b mx < cap \<and> b \<le> cap \<and> cap \<le> mx"
  using backoff_bounds_holds[OF assms(1-3), of attempt] unfolding assms(4) by blast

definition failing_lib :: "unit outbound_lib" where
  "failing_lib = \<lparr>ob_post = \<lambda>_ w. (None, w), ob_dlq_send = \<lambda>_ w. (False, w), ob_decode = \<lambda>_ _ w. (Err (Framing []), w),
     ob_sleep = \<lambda>_ w. w, ob_now_ms = \<lambda>_. 0, ob_subsec_nanos = \<lambda>_. 0, ob_commit = \<lambda>w. (True, w), ob_close = \<lambda>w. w\<rparr>"


definition sample_consumed :: consumer_record where
  "sample_consumed = \<lparr>cr_topic = ''t'', cr_partition = 0, cr_offset = 5, cr_timestamp = 0, cr_key = None, cr_value = None, cr_headers = []\<rparr>"

definition sample_subscription :: "unit compiled_subscription" where
  "sample_subscription = \<lparr>cs_name = ''s'', cs_group_id = ''g'', cs_source_topics = [''t''], cs_target_url = ''https://h'',
     cs_signing_secret = None, cs_dead_letter_topic = Some ''dlq'', cs_max_attempts = 1, cs_base_backoff = 1 / 2,
     cs_max_backoff = 30, cs_request_timeout = 10, cs_filter = None, cs_headers = [], cs_content_mode = Envelope,
     cs_decode_to_json = False\<rparr>"

definition fresh_delivery :: "unit outbound_state" where
  "fresh_delivery = \<lparr>dl_world = (), dl_metrics = [], dl_log = []\<rparr>"


theorem deliver_batch_completes_witness:
  "all_done [sample_consumed] (fst (deliver_batch sample_web_lib failing_lib sample_subscription
     (replicate 3 (part_of sample_consumed)) (deliver_batch_start [sample_consumed], fresh_delivery)))"
  by (rule deliver_batch_completes) (simp_all add: sample_subscription_def numeral_3_eq_3)

lemma sample_batch_done:
  "\<exists>ts s'. deliver_batch sample_web_lib failing_lib sample_subscription (replicate 3 (part_of sample_consumed))
     (deliver_batch_start [sample_consumed], fresh_delivery) = (ts, s') \<and> all_done [sample_consumed] ts"
proof -
  have "all_done [sample_consumed] (fst (deliver_batch sample_web_lib failing_lib sample_subscription
     (replicate 3 (part_of sample_consumed)) (deliver_batch_start [sample_consumed], fresh_delivery)))"
    by (rule deliver_batch_completes_holds) (simp_all add: part_records_def sample_subscription_def numeral_3_eq_3)
  thus ?thesis by (metis prod.collapse)
qed

theorem deliver_batch_in_order_witness:
  "\<exists>ts s' es. deliver_batch sample_web_lib failing_lib sample_subscription (replicate 3 (part_of sample_consumed))
       (deliver_batch_start [sample_consumed], fresh_delivery) = (ts, s') \<and>
     dl_log s' = dl_log fresh_delivery @ es \<and> mset (finished es) = mset [sample_consumed] \<and>
     sorted (map cr_offset (filter (\<lambda>r. part_of r = part_of sample_consumed) (finished es)))"
  using sample_batch_done deliver_batch_in_order by blast


theorem backoff_bounds_witness:
  "backoff_with_jitter 500000000 40 (1 / 2) 30 < 30 \<and> 15 \<le> backoff_with_jitter 500000000 40 (1 / 2) 30"
  using backoff_bounds[of "1 / 2" 30 500000000 30 40] by simp

definition sample_outbound :: outbound_subscription where
  "sample_outbound = \<lparr>os_name = ''s'', os_group_id = Some ''g'', os_source_topics = [''t''], os_target_url = ''https://h'',
     os_signing_secret = None, os_dead_letter_topic = Some ''dlq'', os_max_attempts = 1, os_base_backoff = 1 / 2,
     os_max_backoff = 30, os_request_timeout = 10, os_filter = None, os_headers = [], os_content_mode = Envelope,
     os_decode_to_json = False\<rparr>"

definition url_lib :: "unit web_lib" where
  "url_lib = sample_web_lib\<lparr>wl_url := \<lambda>_. Ok (''https'', Some ''h'')\<rparr>"

theorem outbound_target_allowed_witness:
  "subscription_ok url_lib [\<lparr>at_scheme = ''https'', at_host = ''h''\<rparr>] sample_subscription"
proof -
  have c: "compile_outbound url_lib [\<lparr>at_scheme = ''https'', at_host = ''h''\<rparr>] [sample_outbound] = Ok [sample_subscription]"
    by (simp add: compile_subscription_def sample_outbound_def sample_subscription_def PositiveU32_def refined_new_def
        map_err_def positive_time_def check_target_def url_lib_def target_allowed_def eq_ignore_ascii_case_def
        compile_filter_def is_cloudevents_def)
  have "\<exists>req s'. deliver_begin url_lib failing_lib sample_subscription sample_consumed fresh_delivery = (Some req, s')"
    by (simp add: deliver_begin_def render_delivery_def decoded_body_def sample_subscription_def Let_def)
  then obtain req s' where b: "deliver_begin url_lib failing_lib sample_subscription sample_consumed fresh_delivery = (Some req, s')"
    by blast
  show ?thesis using outbound_target_allowed[OF c _ b] by simp
qed

end
