(* ===== verification/Gw_SdkConnect.thy ===== *)
theory Gw_SdkConnect
  imports Gw_Wire Gw_Utf8
begin

text \<open>
  The Connect client of the Rust SDK (\<open>connect_client.rs\<close> of \<open>app-sdk\<close>) and the
  SDK's error taxonomy (\<open>error.rs\<close>): the envelope codec, the reader of a
  streaming response, and how failures reach the application. The JSON bodies
  of trailers and errors and the Protobuf messages are decoded by library
  code, the parameter \<open>connect_lib\<close>; a \<open>usize\<close> has 64 bits, so a frame length
  never overflows it.
\<close>

section \<open>Errors\<close>

datatype client_error =
    InvalidEndpoint string
  | Io string
  | Hyper string
  | Http string
  | Prost string
  | ProstEncode string
  | JsonError string
  | HttpStatus nat string
  | Connect string string
  | PartialFrame nat
  | CompressedFrame
  | UnknownFrameFlags byte

definition show_hex :: "byte \<Rightarrow> string" where
  "show_hex b = ''0x'' @ (if unat b < 16 then [hex_digit (unat b)] else show_hex2 b)"

fun display_client_error :: "client_error \<Rightarrow> string" where
  "display_client_error (InvalidEndpoint m) = ''invalid endpoint: '' @ m"
| "display_client_error (Io m) = ''io: '' @ m"
| "display_client_error (Hyper m) = ''hyper: '' @ m"
| "display_client_error (Http m) = ''http: '' @ m"
| "display_client_error (Prost m) = ''protobuf: '' @ m"
| "display_client_error (ProstEncode m) = ''protobuf encode: '' @ m"
| "display_client_error (JsonError m) = ''json: '' @ m"
| "display_client_error (HttpStatus status m) = ''http status '' @ show_nat status @ '': '' @ m"
| "display_client_error (Connect code m) = ''connect '' @ code @ '': '' @ m"
| "display_client_error (PartialFrame needed) = ''partial frame; need '' @ show_nat needed @ '' more bytes''"
| "display_client_error CompressedFrame = ''compressed connect frames are unsupported''"
| "display_client_error (UnknownFrameFlags f) = ''unknown connect frame flags '' @ show_hex f"

datatype krabka_error =
    Transport string
  | Unauthenticated string
  | InvalidArg string
  | NotFound string
  | ServerError string
  | Unimplemented string string

definition from_connect_code :: "string \<Rightarrow> string \<Rightarrow> krabka_error" where
  "from_connect_code code message =
     (if code = ''not_found'' then NotFound message
      else if code \<in> {''invalid_argument'', ''failed_precondition'', ''out_of_range''} then InvalidArg message
      else if code = ''unauthenticated'' then Unauthenticated message
      else if code \<in> {''unavailable'', ''deadline_exceeded''} then Transport message
      else ServerError message)"

definition from_client_error :: "client_error \<Rightarrow> krabka_error" where
  "from_client_error e =
     (case e of
        Connect code message \<Rightarrow> from_connect_code code message
      | HttpStatus status message \<Rightarrow>
          if status = 400 then InvalidArg message
          else if status = 401 then Unauthenticated message
          else if status = 404 then NotFound message
          else if status = 408 \<or> status = 429 \<or> (502 \<le> status \<and> status \<le> 504) then Transport message
          else ServerError message
      | other \<Rightarrow> Transport (display_client_error other))"

section \<open>Envelopes\<close>

type_synonym trailer_error = "string \<times> string"

datatype frame = FrameMessage bytes | FrameEndStream "trailer_error option"

record 'm connect_lib =
  cl_trailer :: "bytes \<Rightarrow> string + trailer_error option"
  cl_error_body :: "bytes \<Rightarrow> trailer_error option"
  cl_decode :: "bytes \<Rightarrow> string + 'm"

definition MESSAGE_FLAGS :: byte where "MESSAGE_FLAGS = 0"
definition END_STREAM_FLAGS :: byte where "END_STREAM_FLAGS = 2"

definition u32_to_be_bytes :: "32 word \<Rightarrow> bytes" where
  "u32_to_be_bytes w = [ucast (drop_bit 24 w), ucast (drop_bit 16 w), ucast (drop_bit 8 w), ucast w]"

definition u32_from_be_bytes :: "byte \<Rightarrow> byte \<Rightarrow> byte \<Rightarrow> byte \<Rightarrow> 32 word" where
  "u32_from_be_bytes a b c d = push_bit 24 (ucast a) OR push_bit 16 (ucast b) OR push_bit 8 (ucast c) OR ucast d"

text \<open>\<open>None\<close> is the panic on a message whose length has no \<open>u32\<close>.\<close>

definition envelope_encode :: "byte \<Rightarrow> bytes \<Rightarrow> bytes option" where
  "envelope_encode flags message =
     (if length message < 2 ^ 32
      then Some ([flags] @ u32_to_be_bytes (word_of_nat (length message)) @ message)
      else None)"

definition decode_frame_body :: "'m connect_lib \<Rightarrow> byte \<Rightarrow> bytes \<Rightarrow> client_error + frame" where
  "decode_frame_body lib flags body =
     (if flags = MESSAGE_FLAGS then Ok (FrameMessage body)
      else if flags = END_STREAM_FLAGS then
        if body = [] then Ok (FrameEndStream None)
        else (case cl_trailer lib body of Err e \<Rightarrow> Err (JsonError e) | Ok err \<Rightarrow> Ok (FrameEndStream err))
      else if flags AND 1 = 1 then Err CompressedFrame
      else Err (UnknownFrameFlags flags))"

definition decode_next :: "'m connect_lib \<Rightarrow> bytes \<Rightarrow> client_error + (frame \<times> nat) option" where
  "decode_next lib input =
     (if length input < 5 then Ok None
      else
        let flags = input ! 0;
            len = unat (u32_from_be_bytes (input ! 1) (input ! 2) (input ! 3) (input ! 4));
            frame_len = 5 + len
        in if length input < frame_len then Ok None
           else and_then (decode_frame_body lib flags (take len (drop 5 input))) (\<lambda>f. Ok (Some (f, frame_len))))"

definition decode_one :: "'m connect_lib \<Rightarrow> bytes \<Rightarrow> client_error + frame" where
  "decode_one lib input =
     (case decode_next lib input of
        Err e \<Rightarrow> Err e
      | Ok None \<Rightarrow> Err (PartialFrame 1)
      | Ok (Some (f, _)) \<Rightarrow> Ok f)"

definition response_error :: "'m connect_lib \<Rightarrow> nat \<Rightarrow> bytes \<Rightarrow> client_error" where
  "response_error lib status body =
     (case cl_error_body lib body of
        Some (code, message) \<Rightarrow> Connect code message
      | None \<Rightarrow> HttpStatus status (from_utf8_lossy body))"

section \<open>Streaming responses\<close>

datatype body_event = BodyData bytes | BodyTrailers | BodyFailed string

lemma decode_next_consumed:
  assumes "decode_next lib buf = Ok (Some (f, n))" shows "5 \<le> n \<and> n \<le> length buf"
  using assms by (auto simp: decode_next_def Let_def and_then_Ok_iff split: if_splits)

text \<open>The inner loop: the items sent, and the bytes that are left, or \<open>None\<close> when
  the task has returned. An item that finds the receiver gone also ends the task;
  the receiver has then seen the items before it.\<close>

function drain_buffer :: "'m connect_lib \<Rightarrow> bytes \<Rightarrow> (client_error + 'm) list \<times> bytes option" where
  "drain_buffer lib buffer =
     (case decode_next lib buffer of
        Err e \<Rightarrow> ([Err e], None)
      | Ok None \<Rightarrow> ([], Some buffer)
      | Ok (Some (FrameMessage message, consumed)) \<Rightarrow>
          (case drain_buffer lib (drop consumed buffer) of
             (items, rest) \<Rightarrow> (map_err Prost (cl_decode lib message) # items, rest))
      | Ok (Some (FrameEndStream err, consumed)) \<Rightarrow>
          ((case err of None \<Rightarrow> [] | Some (code, m) \<Rightarrow> [Err (Connect code m)]), None))"
  by pat_completeness auto
termination
  by (relation "measure (\<lambda>(_, b). length b)") (auto dest!: decode_next_consumed)

declare drain_buffer.simps [simp del]

fun read_streaming_response :: "'m connect_lib \<Rightarrow> body_event list \<Rightarrow> bytes \<Rightarrow> (client_error + 'm) list" where
  "read_streaming_response lib [] buffer = (if buffer = [] then [] else [Err (PartialFrame 1)])"
| "read_streaming_response lib (BodyFailed e # es) buffer = [Err (Hyper e)]"
| "read_streaming_response lib (BodyTrailers # es) buffer = read_streaming_response lib es buffer"
| "read_streaming_response lib (BodyData d # es) buffer =
     (case drain_buffer lib (buffer @ d) of
        (items, None) \<Rightarrow> items
      | (items, Some rest) \<Rightarrow> items @ read_streaming_response lib es rest)"

section \<open>Requests\<close>

record connect_client =
  cn_endpoint :: string
  cn_bearer :: "string option"

record uri =
  ur_text :: string
  ur_scheme :: "string option"
  ur_authority :: "string option"

record connect_request =
  cq_authority :: string
  cq_uri :: uri
  cq_headers :: "(string \<times> string) list"
  cq_body :: bytes

text \<open>
  The HTTP client: parsing a URI, and one exchange on a fresh connection, which
  answers with the status and the events of the body or fails to connect, to
  build the request or to send it.
\<close>

record 'w http_client =
  hc_parse_uri :: "string \<Rightarrow> string + uri"
  hc_exchange :: "connect_request \<Rightarrow> 'w \<Rightarrow> (client_error + nat \<times> body_event list) \<times> 'w"

definition trim_end_slashes :: "string \<Rightarrow> string" where
  "trim_end_slashes s = rev (dropWhile (\<lambda>c. c = CHR ''/'') (rev s))"

definition uri_for :: "'w http_client \<Rightarrow> connect_client \<Rightarrow> string \<Rightarrow> client_error + uri" where
  "uri_for hc c path =
     and_then (map_err InvalidEndpoint (hc_parse_uri hc (trim_end_slashes (cn_endpoint c) @ path))) (\<lambda>u.
       if ur_scheme u \<noteq> Some ''http'' then Err (InvalidEndpoint ''only plaintext http endpoints are supported'')
       else if ur_authority u = None then Err (InvalidEndpoint ''missing authority'')
       else Ok u)"

definition authority_for :: "uri \<Rightarrow> client_error + string" where
  "authority_for u = (case ur_authority u of None \<Rightarrow> Err (InvalidEndpoint ''missing authority'') | Some a \<Rightarrow> Ok a)"

definition bearer_header :: "connect_client \<Rightarrow> (string \<times> string) list" where
  "bearer_header c = (case cn_bearer c of None \<Rightarrow> [] | Some b \<Rightarrow> [(''authorization'', ''Bearer '' @ b)])"

fun collect_response :: "body_event list \<Rightarrow> client_error + bytes" where
  "collect_response [] = Ok []"
| "collect_response (BodyFailed e # es) = Err (Hyper e)"
| "collect_response (BodyTrailers # es) = collect_response es"
| "collect_response (BodyData d # es) = and_then (collect_response es) (\<lambda>b. Ok (d @ b))"

definition is_success_status :: "nat \<Rightarrow> bool" where
  "is_success_status status \<longleftrightarrow> 200 \<le> status \<and> status < 300"

definition unary ::
    "'w http_client \<Rightarrow> 'm connect_lib \<Rightarrow> connect_client \<Rightarrow> string \<Rightarrow> string + bytes \<Rightarrow> 'w \<Rightarrow> (client_error + 'm) \<times> 'w" where
  "unary hc lib c path encoded w =
     (case and_then (uri_for hc c path) (\<lambda>u. and_then (authority_for u) (\<lambda>a.
             and_then (map_err ProstEncode encoded) (\<lambda>b. Ok (u, a, b)))) of
        Err e \<Rightarrow> (Err e, w)
      | Ok (u, a, b) \<Rightarrow>
          (case hc_exchange hc \<lparr>cq_authority = a, cq_uri = u,
                  cq_headers = [(''content-type'', ''application/proto'')] @ bearer_header c, cq_body = b\<rparr> w of
             (Err e, w) \<Rightarrow> (Err e, w)
           | (Ok (status, events), w) \<Rightarrow>
               (and_then (collect_response events) (\<lambda>body.
                  if \<not> is_success_status status then Err (response_error lib status body)
                  else map_err Prost (cl_decode lib body)), w)))"

text \<open>\<open>None\<close> is the panic of the envelope; otherwise the items of the stream, until it ends.\<close>

definition streaming ::
    "'w http_client \<Rightarrow> 'm connect_lib \<Rightarrow> connect_client \<Rightarrow> string \<Rightarrow> string + bytes \<Rightarrow> 'w \<Rightarrow>
     ((client_error + (client_error + 'm) list) \<times> 'w) option" where
  "streaming hc lib c path encoded w =
     (case and_then (uri_for hc c path) (\<lambda>u. and_then (authority_for u) (\<lambda>a.
             and_then (map_err ProstEncode encoded) (\<lambda>b. Ok (u, a, b)))) of
        Err e \<Rightarrow> Some (Err e, w)
      | Ok (u, a, b) \<Rightarrow>
          (case envelope_encode MESSAGE_FLAGS b of
             None \<Rightarrow> None
           | Some frame_bytes \<Rightarrow>
               (case hc_exchange hc \<lparr>cq_authority = a, cq_uri = u,
                       cq_headers = [(''content-type'', ''application/connect+proto''), (''connect-protocol-version'', ''1'')]
                         @ bearer_header c, cq_body = frame_bytes\<rparr> w of
                  (Err e, w) \<Rightarrow> Some (Err e, w)
                | (Ok (status, events), w) \<Rightarrow>
                    if \<not> is_success_status status then
                      Some (and_then (collect_response events) (\<lambda>body. Err (response_error lib status body)), w)
                    else Some (Ok (read_streaming_response lib events []), w))))"

section \<open>Cutting the stream\<close>

lemma decode_next_append:
  assumes "decode_next lib a \<noteq> Ok None" shows "decode_next lib (a @ b) = decode_next lib a"
proof -
  let ?len = "unat (u32_from_be_bytes (a ! 1) (a ! 2) (a ! 3) (a ! 4))"
  have l: "5 \<le> length a" "5 + ?len \<le> length a"
    using assms by (auto simp: decode_next_def Let_def split: if_splits)
  have n: "(a @ b) ! i = a ! i" if "i < 5" for i using l that by (simp add: nth_append)
  have "take ?len (drop 5 (a @ b)) = take ?len (drop 5 a)" using l by simp
  thus ?thesis using l by (simp add: decode_next_def Let_def n)
qed

lemma drain_buffer_append:
  "drain_buffer lib (a @ b) =
     (case drain_buffer lib a of
        (items, None) \<Rightarrow> (items, None)
      | (items, Some rest) \<Rightarrow> (case drain_buffer lib (rest @ b) of (items', r) \<Rightarrow> (items @ items', r)))"
proof (induction lib a rule: drain_buffer.induct)
  case (1 lib a)
  show ?case
  proof (cases "decode_next lib a = Ok None")
    case True
    thus ?thesis by (simp add: drain_buffer.simps[of lib a] split: prod.split)
  next
    case False
    note same = decode_next_append[OF False, of b]
    show ?thesis
    proof (cases "decode_next lib a")
      case (Inl e)
      thus ?thesis using same by (simp add: drain_buffer.simps[of lib a] drain_buffer.simps[of lib "a @ b"])
    next
      case (Inr r)
      then obtain f n where r: "decode_next lib a = Ok (Some (f, n))" using False by (cases r) auto
      have d: "drop n (a @ b) = drop n a @ b" using decode_next_consumed[OF r] by simp
      show ?thesis
      proof (cases f)
        case (FrameMessage m)
        note IH = "1.IH"[OF Inr _ _ FrameMessage]
        have IH: "drain_buffer lib (drop n a @ b) =
            (case drain_buffer lib (drop n a) of
               (items, None) \<Rightarrow> (items, None)
             | (items, Some rest) \<Rightarrow> (case drain_buffer lib (rest @ b) of (items', r) \<Rightarrow> (items @ items', r)))"
          by (rule IH) (use r Inr in auto)
        show ?thesis using r same d
          by (auto simp: drain_buffer.simps[of lib a] drain_buffer.simps[of lib "a @ b"] FrameMessage IH
              split: prod.splits option.splits)
      next
        case (FrameEndStream err)
        thus ?thesis using r same by (simp add: drain_buffer.simps[of lib a] drain_buffer.simps[of lib "a @ b"])
      qed
    qed
  qed
qed

definition drained :: "'m connect_lib \<Rightarrow> bytes \<Rightarrow> bool" where
  "drained lib b \<longleftrightarrow> decode_next lib b = Ok None"

lemma drain_drained: "drained lib b \<Longrightarrow> drain_buffer lib b = ([], Some b)"
  by (simp add: drained_def drain_buffer.simps)

lemma drain_rest_drained: "drain_buffer lib a = (items, Some rest) \<Longrightarrow> drained lib rest"
proof (induction lib a arbitrary: items rule: drain_buffer.induct)
  case (1 lib a)
  show ?case
  proof (cases "decode_next lib a")
    case (Inl e)
    thus ?thesis using "1.prems" by (simp add: drain_buffer.simps[of lib a])
  next
    case (Inr r)
    show ?thesis
    proof (cases r)
      case None
      thus ?thesis using "1.prems" Inr by (simp add: drain_buffer.simps[of lib a] drained_def)
    next
      case (Some fn)
      obtain f n where fn: "fn = (f, n)" by (cases fn)
      show ?thesis
      proof (cases f)
        case (FrameMessage m)
        thus ?thesis using "1.prems" "1.IH"[OF Inr Some fn[symmetric] FrameMessage] Inr Some fn
          by (auto simp: drain_buffer.simps[of lib a] split: prod.splits)
      next
        case (FrameEndStream e)
        thus ?thesis using "1.prems" Inr Some fn by (simp add: drain_buffer.simps[of lib a])
      qed
    qed
  qed
qed

lemma read_chunks_concat:
  "drained lib buf \<Longrightarrow>
   read_streaming_response lib (map BodyData cs) buf = read_streaming_response lib [BodyData (concat cs)] buf"
proof (induction cs arbitrary: buf)
  case Nil
  thus ?case by (simp add: drain_drained)
next
  case (Cons c cs)
  obtain items rest where d: "drain_buffer lib (buf @ c) = (items, rest)" by (cases "drain_buffer lib (buf @ c)")
  show ?case
  proof (cases rest)
    case None
    thus ?thesis using d drain_buffer_append[of lib "buf @ c" "concat cs"] by simp
  next
    case (Some r)
    have "drained lib r" using drain_rest_drained d Some by auto
    note IH = Cons.IH[OF this]
    show ?thesis using d Some IH drain_buffer_append[of lib "buf @ c" "concat cs"]
      by (auto split: prod.splits option.splits)
  qed
qed

section \<open>Round trip of a stream\<close>

lemma u32_round_trip: "u32_from_be_bytes (ucast (drop_bit 24 w)) (ucast (drop_bit 16 w)) (ucast (drop_bit 8 w)) (ucast (w :: 32 word)) = w"
proof (rule bit_word_eqI)
  fix n assume n: "n < LENGTH(32)"
  consider "n < 8" | "8 \<le> n" "n < 16" | "16 \<le> n" "n < 24" | "24 \<le> n" "n < 32" using n by fastforce
  thus "bit (u32_from_be_bytes (ucast (drop_bit 24 w)) (ucast (drop_bit 16 w)) (ucast (drop_bit 8 w)) (ucast w)) n \<longleftrightarrow> bit w n"
    by cases (auto simp: u32_from_be_bytes_def bit_simps)
qed

lemma length_u32_to_be_bytes [simp]: "length (u32_to_be_bytes w) = 4"
  by (simp add: u32_to_be_bytes_def)

lemma decode_next_encode:
  assumes "envelope_encode flags m = Some e"
  shows "decode_next lib (e @ rest) = and_then (decode_frame_body lib flags m) (\<lambda>f. Ok (Some (f, length e)))"
proof -
  let ?w = "word_of_nat (length m) :: 32 word"
  have l: "length m < 2 ^ 32" and e: "e = [flags] @ u32_to_be_bytes ?w @ m"
    using assms by (auto simp: envelope_encode_def split: if_splits)
  have unat: "unat ?w = length m" using l by (simp add: unat_of_nat)
  have idx: "(e @ rest) ! 0 = flags"
    "u32_from_be_bytes ((e @ rest) ! 1) ((e @ rest) ! 2) ((e @ rest) ! 3) ((e @ rest) ! 4) = ?w"
    using u32_round_trip[of ?w] by (simp_all add: e u32_to_be_bytes_def nth_append numeral_eq_Suc)
  have d5: "take (length m) (drop 5 (e @ rest)) = m"
    by (simp add: e u32_to_be_bytes_def numeral_eq_Suc)
  have "length e = 5 + length m" by (simp add: e)
  thus ?thesis unfolding decode_next_def Let_def idx unat d5 by simp
qed

lemma drain_message:
  assumes "envelope_encode MESSAGE_FLAGS m = Some e"
  shows "drain_buffer lib (e @ rest) =
    (case drain_buffer lib rest of (items, r) \<Rightarrow> (map_err Prost (cl_decode lib m) # items, r))"
  using decode_next_encode[OF assms, of lib rest]
  by (subst drain_buffer.simps) (simp add: decode_frame_body_def)

lemma drain_end:
  assumes "envelope_encode END_STREAM_FLAGS [] = Some e"
  shows "drain_buffer lib (e @ rest) = ([], None)"
  using decode_next_encode[OF assms, of lib rest]
  by (subst drain_buffer.simps) (simp add: decode_frame_body_def END_STREAM_FLAGS_def MESSAGE_FLAGS_def)

lemma drain_stream:
  assumes "list_all2 (\<lambda>m e. envelope_encode MESSAGE_FLAGS m = Some e) ms es" "envelope_encode END_STREAM_FLAGS [] = Some fin"
  shows "drain_buffer lib (concat es @ fin) = (map (\<lambda>m. map_err Prost (cl_decode lib m)) ms, None)"
  using assms(1)
proof (induction ms es rule: list_all2_induct)
  case Nil
  show ?case using drain_end[OF assms(2), of lib "[]"] by simp
next
  case (Cons m ms e es)
  thus ?case using drain_message[of m e lib "concat es @ fin"] by simp
qed

lemma stream_round_trip_holds:
  assumes "list_all2 (\<lambda>m e. envelope_encode MESSAGE_FLAGS m = Some e) ms es" "envelope_encode END_STREAM_FLAGS [] = Some fin"
    and "concat cs = concat es @ fin"
  shows "read_streaming_response lib (map BodyData cs) [] = map (\<lambda>m. map_err Prost (cl_decode lib m)) ms"
proof -
  have "drained lib []" by (simp add: drained_def decode_next_def)
  from read_chunks_concat[OF this, of cs] drain_stream[OF assms(1,2), of lib] show ?thesis
    by (simp add: assms(3))
qed

section \<open>Properties\<close>

text \<open>
  C34: How the network cuts a streaming response into chunks is invisible: the
  receiver gets the same items, errors included, as from the whole body in one piece.
\<close>

theorem stream_chunking_invisible:
  "read_streaming_response lib (map BodyData cs) [] = read_streaming_response lib [BodyData (concat cs)] []"
  by (rule read_chunks_concat) (simp add: drained_def decode_next_def)

text \<open>
  A stream of encoded messages that ends with an empty end-of-stream frame, cut
  anywhere, comes out as exactly these messages, each once and in order, and no error.
\<close>

theorem stream_round_trip:
  assumes "list_all2 (\<lambda>m e. envelope_encode MESSAGE_FLAGS m = Some e) ms es" "envelope_encode END_STREAM_FLAGS [] = Some fin"
    and "concat cs = concat es @ fin"
  shows "read_streaming_response lib (map BodyData cs) [] = map (\<lambda>m. map_err Prost (cl_decode lib m)) ms"
  using assms by (rule stream_round_trip_holds)

definition raw_messages :: "bytes connect_lib" where
  "raw_messages = \<lparr>cl_trailer = \<lambda>_. Err [], cl_error_body = \<lambda>_. None, cl_decode = Ok\<rparr>"

theorem stream_round_trip_witness:
  "read_streaming_response raw_messages [BodyData [0, 0, 0], BodyData [0, 1, 9, 2, 0, 0], BodyData [0, 0]] [] = [Ok [9]]"
proof -
  have "read_streaming_response raw_messages (map BodyData [[0, 0, 0], [0, 1, 9, 2, 0, 0], [0, 0]]) [] =
      map (\<lambda>m. map_err Prost (cl_decode raw_messages m)) [[9]]"
    by (rule stream_round_trip[where es = "[[0, 0, 0, 0, 1, 9]]" and fin = "[2, 0, 0, 0, 0]"])
      (simp_all add: envelope_encode_def u32_to_be_bytes_def MESSAGE_FLAGS_def END_STREAM_FLAGS_def drop_bit_eq_div)
  thus ?thesis by (simp add: raw_messages_def map_err_def)
qed

end
