(* ===== verification/Gw_Sdk.thy ===== *)
theory Gw_Sdk
  imports Gw_SdkConnect Gw_FilterLaws Gw_Send Gw_Queue
begin

text \<open>
  The Rust application SDK: the client and its in-memory backend (\<open>client.rs\<close>),
  publishing and subscribing (\<open>messaging.rs\<close>) and the queue client with the gated
  modules (\<open>stubs.rs\<close>). The unary and streaming calls of the Connect client are
  the fields of \<open>gateway_rpc\<close> and act on a world that stands for the gateway; the
  properties instantiate them with the gateway's own handlers. The JSON library
  is \<open>sdk_lib\<close>. The mutex around the in-memory state makes its operations atomic,
  and no operation panics while it holds the lock, so the lock is never poisoned.
\<close>

section \<open>The client\<close>

record mock_message =
  mm_topic :: string
  mm_partition :: int
  mm_offset :: int
  mm_value :: bytes
  mm_headers :: "header list"

record mock_session =
  ms_id :: string
  ms_topic :: string
  ms_group :: string
  ms_max_messages :: nat

type_synonym mock_delivery = queue_coordinate

datatype mock_disposition = MockAvailable | MockAcquired string | MockAccepted | MockRejected

record mock_queue_state =
  mq_group :: string
  mq_delivery :: mock_delivery
  mq_disposition :: mock_disposition
  mq_delivery_count :: int

record mock_state =
  mk_messages :: "mock_message list"
  mk_sessions :: "mock_session list"
  mk_states :: "mock_queue_state list"

definition mock_default :: mock_state where
  "mock_default = \<lparr>mk_messages = [], mk_sessions = [], mk_states = []\<rparr>"

record 'w krabka_client =
  kc_endpoint :: string
  kc_bearer :: "string option"
  kc_mock :: mock_state
  kc_world :: 'w

record client_builder =
  cb_endpoint :: "string option"
  cb_bearer :: "string option"

definition client_build :: "'w \<Rightarrow> client_builder \<Rightarrow> krabka_error + 'w krabka_client" where
  "client_build w b =
     (case cb_endpoint b of
        None \<Rightarrow> Err (InvalidArg ''endpoint is required'')
      | Some endpoint \<Rightarrow>
          Ok \<lparr>kc_endpoint = endpoint, kc_bearer = cb_bearer b, kc_mock = mock_default, kc_world = w\<rparr>)"

definition is_mock :: "'w krabka_client \<Rightarrow> bool" where
  "is_mock c \<longleftrightarrow> starts_with ''mock://'' (kc_endpoint c)"

definition is_unreachable :: "'w krabka_client \<Rightarrow> bool" where
  "is_unreachable c \<longleftrightarrow> starts_with ''unreachable://'' (kc_endpoint c)"

record pb_ack_result =
  pa_entry :: "ack_entry option"
  pa_error :: "error_info option"

record 'w gateway_rpc =
  rpc_send :: "pb_record list \<Rightarrow> int \<Rightarrow> 'w \<Rightarrow> (client_error + record_result list) \<times> 'w"
  rpc_subscribe :: "subscribe_start \<Rightarrow> 'w \<Rightarrow> (client_error + (client_error + inbound) list) \<times> 'w"
  rpc_acquire :: "acquire_request \<Rightarrow> 'w \<Rightarrow> (client_error + string \<times> pb_queued_message list) \<times> 'w"
  rpc_acknowledge :: "string \<Rightarrow> ack_entry list \<Rightarrow> 'w \<Rightarrow> (client_error + pb_ack_result list) \<times> 'w"
  rpc_renew :: "string \<Rightarrow> ack_entry list \<Rightarrow> 'w \<Rightarrow> (client_error + pb_ack_result list) \<times> 'w"

record sdk_lib =
  sl_from_slice :: "bytes \<Rightarrow> json option"
  sl_number :: "json_number \<Rightarrow> string"

section \<open>Publishing\<close>

record publish_options =
  po_key :: "bytes option"
  po_headers :: "header list"
  po_partition :: "int option"
  po_idempotency_key :: "string option"

definition default_options :: publish_options where
  "default_options = \<lparr>po_key = None, po_headers = [], po_partition = None, po_idempotency_key = None\<rparr>"

record publish_result =
  pu_partition :: int
  pu_offset :: int
  pu_deduplicated :: bool

definition record_result_from_pb :: "record_result \<Rightarrow> krabka_error + publish_result" where
  "record_result_from_pb r =
     (case rr_error r of
        Some e \<Rightarrow>
          Err (from_connect_code
            (if ei_code e = 3 then ''invalid_argument'' else if ei_code e = 5 then ''not_found''
             else if ei_code e = 7 then ''unauthenticated'' else if ei_code e = 14 then ''unavailable''
             else ''internal'') (ei_message e))
      | None \<Rightarrow> Ok \<lparr>pu_partition = rr_partition r, pu_offset = rr_offset r, pu_deduplicated = rr_deduplicated r\<rparr>)"

definition publish_mock ::
    "string \<Rightarrow> bytes \<Rightarrow> publish_options \<Rightarrow> mock_state \<Rightarrow> (krabka_error + publish_result) \<times> mock_state" where
  "publish_mock topic value options st =
     (if topic = [] then (Err (InvalidArg ''topic is required''), st)
      else if topic = ''__missing_topic'' then (Err (krabka_error.NotFound ''topic not found''), st)
      else
        let offset = int (length (filter (\<lambda>m. mm_topic m = topic) (mk_messages st))) in
        (Ok \<lparr>pu_partition = 0, pu_offset = offset, pu_deduplicated = False\<rparr>,
         st\<lparr>mk_messages := mk_messages st @
              [\<lparr>mm_topic = topic, mm_partition = 0, mm_offset = offset, mm_value = value, mm_headers = po_headers options\<rparr>]\<rparr>))"

definition publish_record :: "string \<Rightarrow> bytes \<Rightarrow> publish_options \<Rightarrow> pb_record" where
  "publish_record topic value options =
     \<lparr>pr_topic = topic, pr_key = po_key options, pr_body = Some (BodyRaw value), pr_headers = po_headers options,
      pr_partition = po_partition options, pr_timestamp_ms = None,
      pr_idempotency_key = po_idempotency_key options, pr_schema = None\<rparr>"

definition publish ::
    "'w gateway_rpc \<Rightarrow> string \<Rightarrow> bytes \<Rightarrow> publish_options \<Rightarrow> 'w krabka_client \<Rightarrow>
     (krabka_error + publish_result) \<times> 'w krabka_client" where
  "publish rpc topic value options c =
     (if is_mock c then
        (case publish_mock topic value options (kc_mock c) of (r, st) \<Rightarrow> (r, c\<lparr>kc_mock := st\<rparr>))
      else if is_unreachable c then (Err (Transport ''endpoint unreachable''), c)
      else if topic = [] then (Err (InvalidArg ''topic is required''), c)
      else
        (case rpc_send rpc [publish_record topic value options] 0 (kc_world c) of
           (r, w) \<Rightarrow>
             (case r of
                Err e \<Rightarrow> Err (from_client_error e)
              | Ok [] \<Rightarrow> Err (ServerError ''gateway returned no record result'')
              | Ok (x # xs) \<Rightarrow> record_result_from_pb x,
              c\<lparr>kc_world := w\<rparr>)))"

record sdk_cloud_event =
  ev_id :: string
  ev_source :: string
  ev_type :: string
  ev_specversion :: string
  ev_datacontenttype :: "string option"
  ev_data :: bytes

definition event_headers :: "sdk_cloud_event \<Rightarrow> header list" where
  "event_headers e =
     [(''ce_id'', Some (as_bytes (ev_id e))), (''ce_source'', Some (as_bytes (ev_source e))),
      (''ce_type'', Some (as_bytes (ev_type e))), (''ce_specversion'', Some (as_bytes (ev_specversion e)))]
     @ (case ev_datacontenttype e of Some t \<Rightarrow> [(''content-type'', Some (as_bytes t))] | None \<Rightarrow> [])"

definition publish_event ::
    "'w gateway_rpc \<Rightarrow> string \<Rightarrow> sdk_cloud_event \<Rightarrow> 'w krabka_client \<Rightarrow>
     (krabka_error + publish_result) \<times> 'w krabka_client" where
  "publish_event rpc topic event c =
     (if ev_id event = [] then (Err (InvalidArg ''CloudEvent id is required''), c)
      else publish rpc topic (ev_data event) (default_options\<lparr>po_headers := event_headers event\<rparr>) c)"

section \<open>Subscribing\<close>

record sdk_filter =
  sf_path :: string
  sf_value :: json

definition strip_dollar :: "string \<Rightarrow> string option" where
  "strip_dollar path = (if starts_with ''$.'' path then Some (drop 2 path) else None)"

definition valid_filter_segment :: "string \<Rightarrow> bool" where
  "valid_filter_segment segment =
     (case segment of
        [] \<Rightarrow> False
      | c # cs \<Rightarrow> (c = CHR ''_'' \<or> is_ascii_alphabetic c) \<and> list_all (\<lambda>c. c = CHR ''_'' \<or> is_ascii_alphanumeric c) cs)"

definition gateway_filter_literal :: "sdk_lib \<Rightarrow> json \<Rightarrow> krabka_error + string" where
  "gateway_filter_literal lib v =
     (case v of
        JString s \<Rightarrow> Ok ([quote] @ concat (map (\<lambda>c. if c = quote then [quote, quote] else [c]) s) @ [quote])
      | JBool b \<Rightarrow> Ok (if b then ''true'' else ''false'')
      | JNumber n \<Rightarrow> Ok (sl_number lib n)
      | JNull \<Rightarrow> Ok ''null''
      | _ \<Rightarrow> Err (InvalidArg ''filter value must be a string, number, boolean, or null''))"

definition to_gateway_filter :: "sdk_lib \<Rightarrow> sdk_filter \<Rightarrow> krabka_error + string" where
  "to_gateway_filter lib f =
     (case strip_dollar (sf_path f) of
        None \<Rightarrow> Err (InvalidArg ''filter path must start with $.'')
      | Some field \<Rightarrow>
          if field = [] \<or> \<not> list_all valid_filter_segment (split_on CHR ''.'' field)
          then Err (InvalidArg ''filter path must contain identifier segments'')
          else and_then (gateway_filter_literal lib (sf_value f)) (\<lambda>literal. Ok (field @ '' = '' @ literal)))"

fun json_at :: "json \<Rightarrow> string list \<Rightarrow> json option" where
  "json_at v [] = Some v"
| "json_at v (s # ss) =
     (case v of JObject object \<Rightarrow> Option.bind (hm_get object s) (\<lambda>v. json_at v ss) | _ \<Rightarrow> None)"

definition sdk_filter_matches :: "sdk_lib \<Rightarrow> sdk_filter option \<Rightarrow> bytes \<Rightarrow> bool" where
  "sdk_filter_matches lib filt value =
     (case filt of
        None \<Rightarrow> True
      | Some f \<Rightarrow>
          (case sl_from_slice lib value of
             None \<Rightarrow> False
           | Some v \<Rightarrow>
               (case strip_dollar (sf_path f) of
                  None \<Rightarrow> False
                | Some field \<Rightarrow> json_at v (split_on CHR ''.'' field) = Some (sf_value f))))"

record sdk_inbound =
  si_topic :: string
  si_partition :: int
  si_offset :: int
  si_value :: bytes
  si_headers :: "header list"

definition inbound_from_pb :: "inbound \<Rightarrow> sdk_inbound" where
  "inbound_from_pb m =
     \<lparr>si_topic = in_topic m, si_partition = in_partition m, si_offset = in_offset m,
      si_value = in_value m, si_headers = in_headers m\<rparr>"

definition inbound_from_mock :: "mock_message \<Rightarrow> sdk_inbound" where
  "inbound_from_mock m =
     \<lparr>si_topic = mm_topic m, si_partition = mm_partition m, si_offset = mm_offset m,
      si_value = mm_value m, si_headers = mm_headers m\<rparr>"

text \<open>
  A subscription is the list of items its stream yields until it ends. The channel
  of the in-memory backend has room for every stored message; the channel of a live
  subscription is bounded, but its sender waits, so it loses nothing.
\<close>

definition subscribe_mock :: "sdk_lib \<Rightarrow> string list \<Rightarrow> sdk_filter option \<Rightarrow> mock_state \<Rightarrow> (krabka_error + sdk_inbound) list" where
  "subscribe_mock lib topics filt st =
     take (max (length (mk_messages st)) 1)
       (map (\<lambda>m. Ok (inbound_from_mock m))
         (filter (\<lambda>m. mm_topic m \<in> set topics \<and> sdk_filter_matches lib filt (mm_value m)) (mk_messages st)))"

definition subscribe_live ::
    "'w gateway_rpc \<Rightarrow> string list \<Rightarrow> string \<Rightarrow> string option \<Rightarrow> 'w krabka_client \<Rightarrow>
     (krabka_error + (krabka_error + sdk_inbound) list) \<times> 'w krabka_client" where
  "subscribe_live rpc topics grp filt c =
     (if is_unreachable c then (Err (Transport ''endpoint unreachable''), c)
      else if topics = [] then (Err (InvalidArg ''at least one topic is required''), c)
      else if grp = [] then (Err (InvalidArg ''group is required''), c)
      else
        (case rpc_subscribe rpc \<lparr>ss_group_id = grp, ss_topics = topics, ss_auto_commit = True,
                ss_filter = (case filt of None \<Rightarrow> [] | Some t \<Rightarrow> t)\<rparr> (kc_world c) of
           (r, w) \<Rightarrow>
             (Ok (case r of
                    Err e \<Rightarrow> [Err (from_client_error e)]
                  | Ok items \<Rightarrow> map (\<lambda>i. case i of Err e \<Rightarrow> Err (from_client_error e) | Ok m \<Rightarrow> Ok (inbound_from_pb m)) items),
              c\<lparr>kc_world := w\<rparr>)))"

definition subscribe ::
    "sdk_lib \<Rightarrow> 'w gateway_rpc \<Rightarrow> string list \<Rightarrow> string \<Rightarrow> sdk_filter option \<Rightarrow> 'w krabka_client \<Rightarrow>
     (krabka_error + (krabka_error + sdk_inbound) list) \<times> 'w krabka_client" where
  "subscribe lib rpc topics grp filt c =
     (case (case filt of None \<Rightarrow> Ok None | Some f \<Rightarrow> and_then (to_gateway_filter lib f) (\<lambda>t. Ok (Some t))) of
        Err e \<Rightarrow> (Err e, c)
      | Ok gateway_filter \<Rightarrow>
          if \<not> is_mock c then subscribe_live rpc topics grp gateway_filter c
          else (Ok (subscribe_mock lib topics filt (kc_mock c)), c))"

section \<open>Queues\<close>

record acquire_options =
  ao_max :: nat
  ao_lock_duration_ms :: nat
  ao_wait_ms :: nat

definition default_acquire_options :: acquire_options where
  "default_acquire_options = \<lparr>ao_max = 1, ao_lock_duration_ms = 30000, ao_wait_ms = 1000\<rparr>"

record queue_message =
  qu_topic :: string
  qu_partition :: int
  qu_offset :: int
  qu_value :: "bytes option"
  qu_headers :: "header list"
  qu_delivery_count :: int

definition message_id :: "queue_message \<Rightarrow> string" where
  "message_id m = qu_topic m @ '':'' @ show_int (qu_partition m) @ '':'' @ show_int (qu_offset m)"

definition queue_message_from_pb :: "pb_queued_message \<Rightarrow> queue_message" where
  "queue_message_from_pb m =
     \<lparr>qu_topic = qm_topic m, qu_partition = qm_partition m, qu_offset = qm_offset m,
      qu_value = qm_value m, qu_headers = qm_headers m, qu_delivery_count = qm_delivery_count m\<rparr>"

datatype queue_ack_type = AckAccept | AckRelease | AckReject

record queue_ack_entry =
  qa_topic :: string
  qa_partition :: int
  qa_offset :: int
  qa_type :: queue_ack_type

type_synonym queue_renew_entry = queue_coordinate

definition renew_entry_of :: "queue_ack_entry \<Rightarrow> queue_renew_entry" where
  "renew_entry_of e = (qa_topic e, qa_partition e, qa_offset e)"

definition ack_entry_to_pb :: "queue_ack_entry \<Rightarrow> ack_entry" where
  "ack_entry_to_pb e =
     \<lparr>ae_topic = qa_topic e, ae_partition = qa_partition e, ae_offset = qa_offset e,
      ae_type = (case qa_type e of AckAccept \<Rightarrow> 1 | AckRelease \<Rightarrow> 2 | AckReject \<Rightarrow> 3)\<rparr>"

definition renew_entry_to_pb :: "queue_renew_entry \<Rightarrow> ack_entry" where
  "renew_entry_to_pb e =
     (case e of (topic, p, offset) \<Rightarrow> \<lparr>ae_topic = topic, ae_partition = p, ae_offset = offset, ae_type = 0\<rparr>)"

record queue_ack_result =
  qx_entry :: queue_renew_entry
  qx_error :: "krabka_error option"

definition error_info_to_krabka :: "error_info \<Rightarrow> krabka_error" where
  "error_info_to_krabka e =
     (if ei_retriable e then Transport (ei_message e)
      else if ei_code e = 3 \<or> ei_code e = 9 then InvalidArg (ei_message e)
      else if ei_code e = 16 then Unauthenticated (ei_message e)
      else if ei_code e = 5 then krabka_error.NotFound (ei_message e)
      else ServerError (ei_message e))"

definition ack_result_from_pb :: "pb_ack_result \<Rightarrow> queue_ack_result" where
  "ack_result_from_pb r =
     \<lparr>qx_entry = (case pa_entry r of None \<Rightarrow> ([], 0, 0) | Some e \<Rightarrow> (ae_topic e, ae_partition e, ae_offset e)),
      qx_error = map_option error_info_to_krabka (pa_error r)\<rparr>"

definition queue_result_error :: "queue_renew_entry \<Rightarrow> string \<Rightarrow> queue_ack_result" where
  "queue_result_error e m = \<lparr>qx_entry = e, qx_error = Some (InvalidArg m)\<rparr>"

subsection \<open>The in-memory backend\<close>

definition mock_session_id ::
    "mock_session list \<Rightarrow> string \<Rightarrow> string \<Rightarrow> string \<Rightarrow> nat \<Rightarrow> nat \<Rightarrow> (krabka_error + string) \<times> mock_session list" where
  "mock_session_id sessions requested topic grp requested_max effective_max =
     (if requested \<noteq> [] then
        (case find (\<lambda>s. ms_id s = requested) sessions of
           None \<Rightarrow> Err (InvalidArg ''queue session expired; re-acquire'')
         | Some s \<Rightarrow>
             if ms_topic s \<noteq> topic \<or> ms_group s \<noteq> grp then
               Err (InvalidArg ''group_id and topics are fixed when a queue session is created'')
             else if requested_max \<noteq> 0 \<and> effective_max \<noteq> ms_max_messages s then
               Err (InvalidArg ''max_messages is fixed when a queue session is created'')
             else Ok requested, sessions)
      else
        let sid = ''mock-queue-session-'' @ show_nat (length sessions + 1) in
        (Ok sid, sessions @ [\<lparr>ms_id = sid, ms_topic = topic, ms_group = grp, ms_max_messages = effective_max\<rparr>]))"

definition delivery_of :: "mock_message \<Rightarrow> mock_delivery" where
  "delivery_of m = (mm_topic m, mm_partition m, mm_offset m)"

definition is_state_of :: "string \<Rightarrow> mock_delivery \<Rightarrow> mock_queue_state \<Rightarrow> bool" where
  "is_state_of grp d s \<longleftrightarrow> mq_group s = grp \<and> mq_delivery s = d"

definition mock_message_is_available :: "mock_queue_state list \<Rightarrow> string \<Rightarrow> mock_message \<Rightarrow> bool" where
  "mock_message_is_available states grp m =
     (case find (is_state_of grp (delivery_of m)) states of
        None \<Rightarrow> True
      | Some s \<Rightarrow> mq_disposition s = MockAvailable)"

text \<open>The mutable reference to the state of one message, as an update applied in place.\<close>

fun mock_queue_state_mut ::
    "(mock_queue_state \<Rightarrow> mock_queue_state) \<Rightarrow> string \<Rightarrow> mock_delivery \<Rightarrow> mock_queue_state list \<Rightarrow>
     mock_queue_state \<times> mock_queue_state list" where
  "mock_queue_state_mut f grp d [] =
     (let s = f \<lparr>mq_group = grp, mq_delivery = d, mq_disposition = MockAvailable, mq_delivery_count = 0\<rparr> in (s, [s]))"
| "mock_queue_state_mut f grp d (s # ss) =
     (if is_state_of grp d s then (f s, f s # ss)
      else (case mock_queue_state_mut f grp d ss of (x, ss) \<Rightarrow> (x, s # ss)))"

definition queue_message_from_mock :: "mock_message \<Rightarrow> int \<Rightarrow> queue_message" where
  "queue_message_from_mock m n =
     \<lparr>qu_topic = mm_topic m, qu_partition = mm_partition m, qu_offset = mm_offset m,
      qu_value = Some (mm_value m), qu_headers = mm_headers m, qu_delivery_count = n\<rparr>"

definition mark_acquired :: "string \<Rightarrow> mock_queue_state \<Rightarrow> mock_queue_state" where
  "mark_acquired sid s =
     s\<lparr>mq_disposition := MockAcquired sid, mq_delivery_count := min i32_MAX (mq_delivery_count s + 1)\<rparr>"

fun deliver_mock ::
    "string \<Rightarrow> string \<Rightarrow> mock_message list \<Rightarrow> mock_queue_state list \<Rightarrow> queue_message list \<times> mock_queue_state list" where
  "deliver_mock sid grp [] states = ([], states)"
| "deliver_mock sid grp (m # ms) states =
     (case mock_queue_state_mut (mark_acquired sid) grp (delivery_of m) states of
        (s, states) \<Rightarrow>
          (case deliver_mock sid grp ms states of
             (qs, states) \<Rightarrow> (queue_message_from_mock m (mq_delivery_count s) # qs, states)))"

definition acquire_mock ::
    "string \<Rightarrow> string \<Rightarrow> acquire_options \<Rightarrow> string \<Rightarrow> mock_state \<Rightarrow>
     (krabka_error + string \<times> queue_message list) \<times> mock_state" where
  "acquire_mock topic grp options requested st =
     (let effective_max = min (max (ao_max options) 1) 500 in
      case mock_session_id (mk_sessions st) requested topic grp (ao_max options) effective_max of
        (Err e, sessions) \<Rightarrow> (Err e, st\<lparr>mk_sessions := sessions\<rparr>)
      | (Ok sid, sessions) \<Rightarrow>
          let delivered = take effective_max
                (filter (\<lambda>m. mm_topic m = topic \<and> mock_message_is_available (mk_states st) grp m) (mk_messages st))
          in case deliver_mock sid grp delivered (mk_states st) of
               (messages, states) \<Rightarrow> (Ok (sid, messages), st\<lparr>mk_sessions := sessions, mk_states := states\<rparr>))"

definition acquired_by :: "string \<Rightarrow> string \<Rightarrow> mock_delivery \<Rightarrow> mock_queue_state \<Rightarrow> bool" where
  "acquired_by sid grp d s \<longleftrightarrow> is_state_of grp d s \<and> mq_disposition s = MockAcquired sid"

fun set_disposition ::
    "(mock_queue_state \<Rightarrow> bool) \<Rightarrow> mock_disposition \<Rightarrow> mock_queue_state list \<Rightarrow> mock_queue_state list option" where
  "set_disposition P x [] = None"
| "set_disposition P x (s # ss) =
     (if P s then Some (s\<lparr>mq_disposition := x\<rparr> # ss) else map_option (\<lambda>ss. s # ss) (set_disposition P x ss))"

fun disposition_of :: "queue_ack_type \<Rightarrow> mock_disposition" where
  "disposition_of AckAccept = MockAccepted"
| "disposition_of AckRelease = MockAvailable"
| "disposition_of AckReject = MockRejected"

fun acknowledge_mock_entries ::
    "string \<Rightarrow> string \<Rightarrow> queue_ack_entry list \<Rightarrow> mock_queue_state list \<Rightarrow> queue_ack_result list \<times> mock_queue_state list" where
  "acknowledge_mock_entries sid grp [] states = ([], states)"
| "acknowledge_mock_entries sid grp (e # es) states =
     (case (case set_disposition (acquired_by sid grp (renew_entry_of e)) (disposition_of (qa_type e)) states of
              None \<Rightarrow> (queue_result_error (renew_entry_of e) ''queue message is not acquired'', states)
            | Some states \<Rightarrow> (\<lparr>qx_entry = renew_entry_of e, qx_error = None\<rparr>, states)) of
        (r, states) \<Rightarrow> (case acknowledge_mock_entries sid grp es states of (rs, states) \<Rightarrow> (r # rs, states)))"

definition acknowledge_mock ::
    "string \<Rightarrow> queue_ack_entry list \<Rightarrow> mock_state \<Rightarrow> (krabka_error + queue_ack_result list) \<times> mock_state" where
  "acknowledge_mock sid entries st =
     (case find (\<lambda>s. ms_id s = sid) (mk_sessions st) of
        None \<Rightarrow> (Err (InvalidArg ''queue session expired; re-acquire''), st)
      | Some session \<Rightarrow>
          (case acknowledge_mock_entries sid (ms_group session) entries (mk_states st) of
             (rs, states) \<Rightarrow> (Ok rs, st\<lparr>mk_states := states\<rparr>)))"

definition renew_mock :: "string \<Rightarrow> queue_renew_entry list \<Rightarrow> mock_state \<Rightarrow> krabka_error + queue_ack_result list" where
  "renew_mock sid entries st =
     (case find (\<lambda>s. ms_id s = sid) (mk_sessions st) of
        None \<Rightarrow> Err (InvalidArg ''queue session expired; re-acquire'')
      | Some session \<Rightarrow>
          Ok (map (\<lambda>e. if list_ex (acquired_by sid (ms_group session) e) (mk_states st)
                       then \<lparr>qx_entry = e, qx_error = None\<rparr>
                       else queue_result_error e ''queue message is not acquired'') entries))"

subsection \<open>The queue client\<close>

definition acquire_with_session ::
    "'w gateway_rpc \<Rightarrow> string \<Rightarrow> string \<Rightarrow> acquire_options \<Rightarrow> string \<Rightarrow> 'w krabka_client \<Rightarrow>
     (krabka_error + string \<times> queue_message list) \<times> 'w krabka_client" where
  "acquire_with_session rpc topic grp options sid c =
     (if grp = [] then (Err (InvalidArg ''queue group is required''), c)
      else if topic = [] then (Err (InvalidArg ''queue topic is required''), c)
      else if ao_lock_duration_ms options \<noteq> SUPPORTED_QUEUE_LOCK_DURATION_MS then
        (Err (InvalidArg (''queue lock_duration_ms must be '' @ show_nat SUPPORTED_QUEUE_LOCK_DURATION_MS
              @ ''; per-acquire lock durations are not supported'')), c)
      else if is_mock c then
        (case acquire_mock topic grp options sid (kc_mock c) of (r, st) \<Rightarrow> (r, c\<lparr>kc_mock := st\<rparr>))
      else if is_unreachable c then (Err (Transport ''endpoint unreachable''), c)
      else
        (case rpc_acquire rpc \<lparr>aq_group_id = grp, aq_topics = [topic], aq_max_messages = ao_max options,
                aq_wait_ms = ao_wait_ms options, aq_session_id = sid,
                aq_lock_duration_ms = ao_lock_duration_ms options\<rparr> (kc_world c) of
           (r, w) \<Rightarrow>
             (case r of
                Err e \<Rightarrow> Err (from_client_error e)
              | Ok (sid, messages) \<Rightarrow> Ok (sid, map queue_message_from_pb messages),
              c\<lparr>kc_world := w\<rparr>)))"

definition acquire ::
    "'w gateway_rpc \<Rightarrow> string \<Rightarrow> string \<Rightarrow> acquire_options \<Rightarrow> 'w krabka_client \<Rightarrow>
     (krabka_error + string \<times> queue_message list) \<times> 'w krabka_client" where
  "acquire rpc topic grp options c = acquire_with_session rpc topic grp options [] c"

definition acknowledge ::
    "'w gateway_rpc \<Rightarrow> string \<Rightarrow> queue_ack_entry list \<Rightarrow> 'w krabka_client \<Rightarrow>
     (krabka_error + queue_ack_result list) \<times> 'w krabka_client" where
  "acknowledge rpc sid entries c =
     (if is_mock c then
        (case acknowledge_mock sid entries (kc_mock c) of (r, st) \<Rightarrow> (r, c\<lparr>kc_mock := st\<rparr>))
      else if is_unreachable c then (Err (Transport ''endpoint unreachable''), c)
      else
        (case rpc_acknowledge rpc sid (map ack_entry_to_pb entries) (kc_world c) of
           (r, w) \<Rightarrow>
             (case r of Err e \<Rightarrow> Err (from_client_error e) | Ok rs \<Rightarrow> Ok (map ack_result_from_pb rs),
              c\<lparr>kc_world := w\<rparr>)))"

definition renew ::
    "'w gateway_rpc \<Rightarrow> string \<Rightarrow> queue_renew_entry list \<Rightarrow> 'w krabka_client \<Rightarrow>
     (krabka_error + queue_ack_result list) \<times> 'w krabka_client" where
  "renew rpc sid entries c =
     (if is_mock c then (renew_mock sid entries (kc_mock c), c)
      else if is_unreachable c then (Err (Transport ''endpoint unreachable''), c)
      else
        (case rpc_renew rpc sid (map renew_entry_to_pb entries) (kc_world c) of
           (r, w) \<Rightarrow>
             (case r of Err e \<Rightarrow> Err (from_client_error e) | Ok rs \<Rightarrow> Ok (map ack_result_from_pb rs),
              c\<lparr>kc_world := w\<rparr>)))"

subsection \<open>Gated modules\<close>

definition database_connect :: "string \<Rightarrow> krabka_error + unit" where
  "database_connect name = Err (krabka_error.Unimplemented ''database'' ''chapter-f-control-plane'')"

definition sign_in :: "string \<Rightarrow> string \<Rightarrow> krabka_error + unit" where
  "sign_in username password = Err (Unauthenticated ''identity APIs are not part of contract v1'')"

definition blob_put :: "string \<Rightarrow> bytes \<Rightarrow> krabka_error + unit" where
  "blob_put key value = Err (krabka_error.Unimplemented ''blob'' ''chapter-b-blob-api'')"

definition blob_get :: "string \<Rightarrow> krabka_error + bytes" where
  "blob_get key = Err (krabka_error.Unimplemented ''blob'' ''chapter-b-blob-api'')"


section \<open>The filter text and the gateway's filter language\<close>

text \<open>The literals a filter can compare with, and how the gateway reads them. A fractional number is left out: its text is the library's.\<close>

fun filter_value_of :: "json \<Rightarrow> filter_value option" where
  "filter_value_of (JString s) = Some (FilterString s)"
| "filter_value_of (JBool b) = Some (FilterBool b)"
| "filter_value_of (JNumber (PosInt n)) = (if int n \<le> u64_MAX then Some (FilterNumber (Integer (int n))) else None)"
| "filter_value_of (JNumber (NegInt k)) = (if i64_MIN \<le> k \<and> k < 0 then Some (FilterNumber (Integer k)) else None)"
| "filter_value_of JNull = Some FilterNull"
| "filter_value_of _ = None"

definition decimal_numbers :: "sdk_lib \<Rightarrow> bool" where
  "decimal_numbers lib \<longleftrightarrow> (\<forall>n. sl_number lib (PosInt n) = show_nat n) \<and> (\<forall>k. sl_number lib (NegInt k) = show_int k)"

lemma gateway_filter_literal_print:
  assumes "filter_value_of v = Some x" "decimal_numbers lib"
  shows "gateway_filter_literal lib v = Ok (print_literal x)" "printable_literal x"
  using assms
  by (induction v rule: filter_value_of.induct)
    (auto simp: gateway_filter_literal_def decimal_numbers_def escape_quotes_def show_int_def i64_MIN_def u64_MAX_def split: if_splits)

lemma valid_filter_segment_identifier: "valid_filter_segment s = is_identifier s"
  by (simp add: valid_filter_segment_def is_identifier_def)

definition equality_on :: "string \<Rightarrow> filter_value \<Rightarrow> predicate" where
  "equality_on field x = \<lparr>pd_field = FieldPath [field], pd_operator = Equal, pd_expected = x\<rparr>"

lemma print_equality: "print_predicates [equality_on field x] = field @ '' = '' @ print_literal x"
  by (simp add: print_predicates_def print_predicate_def equality_on_def)

lemma equality_printable:
  assumes "is_identifier field" "\<not> eq_ignore_ascii_case field ''AND''" "printable_literal x"
  shows "printable (equality_on field x)"
  using assms by (simp add: printable_def equality_on_def accepts_literal_def)

lemma same_scalar_matches:
  assumes "filter_value_of v = Some x"
  shows "\<exists>fv. from_json v = Some fv \<and> filter_value_matches x Equal fv"
  using assms
  by (induction v rule: filter_value_of.induct)
    (auto simp: from_json_def from_scalar_json_def json_as_i64_def json_as_u64_def filter_value_matches_def compare_order_def
      str_cmp_def numeric_compare_def cmp_def split: if_splits)

lemma sdk_filter_compiles_holds:
  fixes flib :: "('x, 'c) filter_lib"
  assumes path: "sf_path f = ''$.'' @ field" "valid_filter_segment field" "\<not> eq_ignore_ascii_case field ''AND''"
    and v: "filter_value_of (sf_value f) = Some x" "decimal_numbers lib"
    and sql: "sql = field @ '' = '' @ print_literal x" "\<not> sql_references_reserved_row_marker sql"
    and same: "fl_from_slice flib = sl_from_slice lib"
  shows "to_gateway_filter lib f = Ok sql \<and>
    (\<exists>cf. filter_compile sql = Ok cf \<and> cf_predicates cf = [equality_on field x] \<and>
       (\<forall>b. sdk_filter_matches lib (Some f) b \<longrightarrow> matches_structured_json flib cf (Some b)))"
proof -
  have field: "is_identifier field" using path(2) by (simp add: valid_filter_segment_identifier)
  have dot: "CHR ''.'' \<notin> set field" using identifier_facts(4)[OF field] by auto
  have ne: "field \<noteq> []" using field by (auto simp: is_identifier_def)
  note lit = gateway_filter_literal_print[OF v]
  have strip: "strip_dollar (sf_path f) = Some field" using path(1) by (simp add: strip_dollar_def starts_with_def)
  have rendered: "to_gateway_filter lib f = Ok sql"
    using lit(1) ne path(2) by (simp add: to_gateway_filter_def strip split_on_none[OF dot] sql(1) and_then_def)
  have tight: "tight sql"
    using identifier_facts(2)[OF field] literal_tight[OF lit(2)] by (simp add: sql(1) tight_def)
  have parse: "parse_legacy_predicates sql = Ok [equality_on field x]"
    using parse_print[of "[equality_on field x]"] equality_printable[OF field path(3) lit(2)] by (simp add: print_equality sql(1))
  define cf :: "'x compiled_filter" where "cf = \<lparr>cf_sql = sql, cf_predicates = [equality_on field x], cf_arrow_cache = []\<rparr>"
  have compile: "filter_compile sql = Ok cf"
    using tight sql(2) parse by (auto simp: filter_compile_def cf_def and_then_def tight_def)
  have "matches_structured_json flib cf (Some b)" if m: "sdk_filter_matches lib (Some f) b" for b
  proof -
    obtain object where o: "sl_from_slice lib b = Some (JObject object)" "hm_get object field = Some (sf_value f)"
      using m by (auto simp: sdk_filter_matches_def strip split_on_none[OF dot] split: option.splits json.splits Option.bind_splits)
    have "holds_on object (equality_on field x)"
      using same_scalar_matches[OF v(1)] o(2) by (auto simp: holds_on_def equality_on_def)
    thus ?thesis using o(1) tight
      by (subst matches_structured_json_holds) (auto simp: cf_def same tight_def)
  qed
  thus ?thesis using rendered compile by (auto simp: cf_def)
qed

section \<open>Runs of the in-memory backend\<close>

datatype mock_event =
    MockPublished string bytes "header list"
  | MockDelivered string mock_delivery
  | MockReleased string mock_delivery

definition message_coordinate :: "queue_message \<Rightarrow> mock_delivery" where
  "message_coordinate m = (qu_topic m, qu_partition m, qu_offset m)"

fun released :: "string \<Rightarrow> queue_ack_entry list \<Rightarrow> queue_ack_result list \<Rightarrow> mock_event list" where
  "released grp (e # es) (r # rs) =
     (if qa_type e = AckRelease \<and> qx_error r = None then [MockReleased grp (renew_entry_of e)] else []) @ released grp es rs"
| "released grp _ _ = []"

definition session_group :: "string \<Rightarrow> mock_state \<Rightarrow> string" where
  "session_group sid st = (case find (\<lambda>s. ms_id s = sid) (mk_sessions st) of Some s \<Rightarrow> ms_group s | None \<Rightarrow> [])"

definition deliveries :: "string \<Rightarrow> krabka_error + string \<times> queue_message list \<Rightarrow> mock_event list" where
  "deliveries grp r =
     (case r of Ok (_, ms) \<Rightarrow> map (\<lambda>m. MockDelivered grp (message_coordinate m)) ms | Err _ \<Rightarrow> [])"

definition releases :: "string \<Rightarrow> queue_ack_entry list \<Rightarrow> krabka_error + queue_ack_result list \<Rightarrow> mock_event list" where
  "releases grp entries r = (case r of Ok rs \<Rightarrow> released grp entries rs | Err _ \<Rightarrow> [])"

inductive mock_run :: "mock_state \<Rightarrow> mock_event list \<Rightarrow> bool" where
  run_new: "mock_run mock_default []"
| run_publish: "\<lbrakk>mock_run st tr; publish_mock topic value options st = (r, st')\<rbrakk> \<Longrightarrow>
    mock_run st' (tr @ (if is_ok r then [MockPublished topic value (po_headers options)] else []))"
| run_acquire: "\<lbrakk>mock_run st tr; acquire_mock topic grp options sid st = (r, st')\<rbrakk> \<Longrightarrow>
    mock_run st' (tr @ (deliveries grp r))"
| run_acknowledge: "\<lbrakk>mock_run st tr; acknowledge_mock sid entries st = (r, st')\<rbrakk> \<Longrightarrow>
    mock_run st' (tr @ (releases (session_group sid st) entries r))"

abbreviation state_key :: "mock_queue_state \<Rightarrow> string \<times> mock_delivery" where
  "state_key s \<equiv> (mq_group s, mq_delivery s)"

definition disposition :: "mock_queue_state list \<Rightarrow> string \<Rightarrow> mock_delivery \<Rightarrow> mock_disposition" where
  "disposition ss grp d = (case find (is_state_of grp d) ss of Some s \<Rightarrow> mq_disposition s | None \<Rightarrow> MockAvailable)"

definition taken :: "mock_disposition \<Rightarrow> nat" where
  "taken x = (if x = MockAvailable then 0 else 1)"

lemma disposition_simps [simp]:
  "disposition [] g d = MockAvailable"
  "disposition (s # ss) g d = (if is_state_of g d s then mq_disposition s else disposition ss g d)"
  by (simp_all add: disposition_def)

lemma available_disposition:
  "mock_message_is_available ss grp m \<longleftrightarrow> disposition ss grp (delivery_of m) = MockAvailable"
  by (simp add: mock_message_is_available_def disposition_def split: option.splits)

lemma mark_key [simp]: "mq_group (mark_acquired sid s) = mq_group s" "mq_delivery (mark_acquired sid s) = mq_delivery s"
  "mq_disposition (mark_acquired sid s) = MockAcquired sid"
  by (simp_all add: mark_acquired_def)

lemma state_mut_keys:
  assumes "mock_queue_state_mut (mark_acquired sid) grp d ss = (x, ss')"
  shows "map state_key ss' = map state_key ss @ (if (grp, d) \<in> set (map state_key ss) then [] else [(grp, d)])"
  using assms by (induction ss arbitrary: x ss') (auto simp: is_state_of_def Let_def split: prod.splits if_splits)

lemma state_mut_disposition:
  assumes "mock_queue_state_mut (mark_acquired sid) grp d ss = (x, ss')"
  shows "disposition ss' g e = (if g = grp \<and> e = d then MockAcquired sid else disposition ss g e)"
  using assms
proof (induction ss arbitrary: x ss')
  case Nil
  thus ?case by (auto simp: is_state_of_def Let_def)
next
  case (Cons s ss)
  show ?case
  proof (cases "is_state_of grp d s")
    case True
    thus ?thesis using Cons.prems by (auto simp: is_state_of_def)
  next
    case False
    obtain ss1 where u: "mock_queue_state_mut (mark_acquired sid) grp d ss = (x, ss1)" "ss' = s # ss1"
      using Cons.prems False by (auto split: prod.splits)
    show ?thesis using Cons.IH[OF u(1)] False by (auto simp: u(2) is_state_of_def)
  qed
qed

lemma deliver_mock_spec:
  assumes "deliver_mock sid grp ms ss = (qs, ss')"
  shows "map message_coordinate qs = map delivery_of ms"
    and "distinct (map state_key ss) \<Longrightarrow> distinct (map state_key ss')"
    and "disposition ss' g d = (if g = grp \<and> d \<in> delivery_of ` set ms then MockAcquired sid else disposition ss g d)"
  using assms
proof (induction ms arbitrary: ss qs)
  case (Cons m ms)
  case 1
  thus ?case using Cons.IH(1)
    by (auto simp: message_coordinate_def queue_message_from_mock_def delivery_of_def split: prod.splits)
next
  case (Cons m ms)
  case 2
  obtain s ss1 where u: "mock_queue_state_mut (mark_acquired sid) grp (delivery_of m) ss = (s, ss1)" by fastforce
  have "distinct (map state_key ss1)" using 2(1) unfolding state_mut_keys[OF u] by auto
  thus ?case using Cons.IH(2) 2 u by (auto split: prod.splits)
next
  case (Cons m ms)
  case 3
  obtain s ss1 where u: "mock_queue_state_mut (mark_acquired sid) grp (delivery_of m) ss = (s, ss1)" by fastforce
  obtain qs1 where "deliver_mock sid grp ms ss1 = (qs1, ss')" using 3 u by (auto split: prod.splits)
  from Cons.IH(3)[OF this] show ?case using state_mut_disposition[OF u] by auto
qed auto

lemma set_disposition_spec:
  assumes "set_disposition (acquired_by sid grp d) x ss = Some ss'" "distinct (map state_key ss)"
  shows "map state_key ss' = map state_key ss" "disposition ss grp d = MockAcquired sid"
    and "disposition ss' g e = (if g = grp \<and> e = d then x else disposition ss g e)"
proof -
  from assms show k: "map state_key ss' = map state_key ss"
    by (induction ss arbitrary: ss') (auto simp: acquired_by_def is_state_of_def split: if_splits)
  from assms show "disposition ss grp d = MockAcquired sid"
  proof (induction ss arbitrary: ss')
    case (Cons s ss)
    show ?case
    proof (cases "acquired_by sid grp d s")
      case True
      thus ?thesis by (simp add: acquired_by_def)
    next
      case False
      then obtain ss1 where s1: "set_disposition (acquired_by sid grp d) x ss = Some ss1" using Cons.prems by auto
      hence "\<exists>s\<in>set ss. state_key s = (grp, d)"
        by (induction ss arbitrary: ss1) (auto simp: acquired_by_def is_state_of_def split: if_splits)
      hence "\<not> is_state_of grp d s" using Cons.prems(2) by (auto simp: is_state_of_def image_iff)
      thus ?thesis using Cons.IH[OF s1] Cons.prems(2) by simp
    qed
  qed simp
  from assms show "disposition ss' g e = (if g = grp \<and> e = d then x else disposition ss g e)"
  proof (induction ss arbitrary: ss')
    case (Cons s ss)
    show ?case
    proof (cases "acquired_by sid grp d s")
      case True
      thus ?thesis using Cons.prems by (auto simp: acquired_by_def is_state_of_def)
    next
      case False
      then obtain ss1 where s1: "set_disposition (acquired_by sid grp d) x ss = Some ss1" "ss' = s # ss1" using Cons.prems by auto
      hence "\<exists>s\<in>set ss. state_key s = (grp, d)"
        by (induction ss arbitrary: ss1 ss') (auto simp: acquired_by_def is_state_of_def split: if_splits)
      hence "\<not> is_state_of grp d s" using Cons.prems(2) by (auto simp: is_state_of_def image_iff)
      thus ?thesis using Cons.IH[OF s1(1)] Cons.prems(2) s1(2) by (auto simp: is_state_of_def)
    qed
  qed simp
qed

lemma acknowledge_mock_entries_spec:
  assumes "acknowledge_mock_entries sid grp es ss = (rs, ss')" "distinct (map state_key ss)"
  shows "map state_key ss' = map state_key ss \<and>
     taken (disposition ss' g d) + count_list (released grp es rs) (MockReleased g d) = taken (disposition ss g d)"
  using assms
proof (induction es arbitrary: ss rs)
  case (Cons e es)
  let ?x = "disposition_of (qa_type e)"
  show ?case
  proof (cases "set_disposition (acquired_by sid grp (renew_entry_of e)) ?x ss")
    case None
    thus ?thesis using Cons by (auto simp: queue_result_error_def split: prod.splits)
  next
    case (Some ss1)
    note spec = set_disposition_spec[OF Some Cons.prems(2)]
    obtain rs1 where a: "acknowledge_mock_entries sid grp es ss1 = (rs1, ss')"
      "rs = \<lparr>qx_entry = renew_entry_of e, qx_error = None\<rparr> # rs1"
      using Cons.prems(1) Some by (auto split: prod.splits)
    have "distinct (map state_key ss1)" using spec(1) Cons.prems(2) by simp
    note ih = Cons.IH[OF a(1) this]
    show ?thesis using ih spec a(2) by (cases "qa_type e") (auto simp: taken_def)
  qed
qed simp

definition mock_ok :: "mock_state \<Rightarrow> bool" where
  "mock_ok st \<longleftrightarrow> distinct (map state_key (mk_states st))
     \<and> (\<forall>m\<in>set (mk_messages st). mm_partition m = 0)
     \<and> (\<forall>t. map mm_offset (filter (\<lambda>m. mm_topic m = t) (mk_messages st))
            = map int [0..<length (filter (\<lambda>m. mm_topic m = t) (mk_messages st))])"

lemma mock_ok_distinct:
  assumes "mock_ok st" shows "distinct (map delivery_of (mk_messages st))"
proof -
  have "distinct (map delivery_of ms)"
    if "\<forall>t. distinct (map mm_offset (filter (\<lambda>m. mm_topic m = t) ms))" for ms
    using that
  proof (induction ms)
    case (Cons m ms)
    have "distinct (map mm_offset (filter (\<lambda>m. mm_topic m = t) ms))" for t
      using Cons.prems[rule_format, of t] by (auto split: if_splits)
    moreover have "mm_offset m \<notin> mm_offset ` set (filter (\<lambda>x. mm_topic x = mm_topic m) ms)"
      using Cons.prems[rule_format, of "mm_topic m"] by simp
    ultimately show ?case using Cons.IH by (auto simp: delivery_of_def)
  qed simp
  moreover have "distinct (map mm_offset (filter (\<lambda>m. mm_topic m = t) (mk_messages st)))" for t
  proof -
    have "map mm_offset (filter (\<lambda>m. mm_topic m = t) (mk_messages st))
        = map int [0..<length (filter (\<lambda>m. mm_topic m = t) (mk_messages st))]" using assms by (simp add: mock_ok_def)
    thus ?thesis by (simp add: distinct_map)
  qed
  ultimately show ?thesis by blast
qed

fun published :: "mock_event list \<Rightarrow> (string \<times> bytes \<times> header list) list" where
  "published [] = []"
| "published (MockPublished t v h # es) = (t, v, h) # published es"
| "published (_ # es) = published es"

lemma published_append [simp]: "published (xs @ ys) = published xs @ published ys"
  by (induction xs rule: published.induct) auto

lemma published_delivered [simp]: "published (map (\<lambda>m. MockDelivered g (f m)) ms) = []"
  by (induction ms) simp_all

lemma published_released [simp]: "published (released g es rs) = []"
  by (induction g es rs rule: released.induct) auto

lemma count_released_delivered [simp]: "count_list (map (\<lambda>m. MockDelivered g (f m)) ms) (MockReleased g' d) = 0"
  by (induction ms) simp_all

lemma count_delivered_released [simp]: "count_list (released g es rs) (MockDelivered g' d) = 0"
  by (induction g es rs rule: released.induct) auto

definition settled_counts :: "mock_state \<Rightarrow> mock_event list \<Rightarrow> bool" where
  "settled_counts st tr \<longleftrightarrow> (\<forall>g d. count_list tr (MockDelivered g d)
     = count_list tr (MockReleased g d) + taken (disposition (mk_states st) g d))"

lemma count_delivered:
  "count_list (map (\<lambda>m. MockDelivered grp (message_coordinate m)) qs) (MockDelivered g d)
   = (if g = grp then count_list (map message_coordinate qs) d else 0)"
  by (induction qs) auto

lemma count_list_distinct: "distinct xs \<Longrightarrow> count_list xs x = (if x \<in> set xs then 1 else 0)"
  by (induction xs) auto

lemma acquire_mock_spec:
  assumes ok: "mock_ok st" and a: "acquire_mock topic grp options sid st = (r, st')"
  shows "mk_messages st' = mk_messages st" "distinct (map state_key (mk_states st'))"
    and "taken (disposition (mk_states st') g d) = taken (disposition (mk_states st) g d) +
      count_list (deliveries grp r) (MockDelivered g d)"
proof -
  define ms where "ms = take (min (max (ao_max options) 1) 500)
    (filter (\<lambda>m. mm_topic m = topic \<and> mock_message_is_available (mk_states st) grp m) (mk_messages st))"
  have dk: "distinct (map state_key (mk_states st))" using ok by (simp add: mock_ok_def)
  have dm: "distinct (map delivery_of ms)"
    using mock_ok_distinct[OF ok] by (simp add: ms_def take_map[symmetric] distinct_map_filter)
  have av: "disposition (mk_states st) grp d = MockAvailable" if "d \<in> delivery_of ` set ms" for d
    using that by (auto simp: ms_def available_disposition dest!: in_set_takeD)
  define qs where "qs sd = fst (deliver_mock sd grp ms (mk_states st))" for sd
  define ss where "ss sd = snd (deliver_mock sd grp ms (mk_states st))" for sd
  have dl: "deliver_mock sd grp ms (mk_states st) = (qs sd, ss sd)" for sd by (simp add: qs_def ss_def)
  have cases: "(\<exists>e. r = Err e \<and> mk_states st' = mk_states st) \<or> (\<exists>sd. r = Ok (sd, qs sd) \<and> mk_states st' = ss sd)"
    "mk_messages st' = mk_messages st"
    using a unfolding acquire_mock_def Let_def ms_def[symmetric] by (auto simp: dl split: prod.splits sum.splits)
  show "mk_messages st' = mk_messages st" by (rule cases(2))
  show "distinct (map state_key (mk_states st'))" using cases(1) dk deliver_mock_spec(2)[OF dl] by auto
  show "taken (disposition (mk_states st') g d) = taken (disposition (mk_states st) g d) +
      count_list (deliveries grp r) (MockDelivered g d)"
    using cases(1)
  proof
    assume "\<exists>sd. r = Ok (sd, qs sd) \<and> mk_states st' = ss sd"
    then obtain sd where s: "r = Ok (sd, qs sd)" "mk_states st' = ss sd" by blast
    show ?thesis using deliver_mock_spec(1)[OF dl, of sd] deliver_mock_spec(3)[OF dl, of sd g d] av[of d] dm
      by (auto simp: s deliveries_def count_delivered count_list_distinct taken_def)
  qed (auto simp: deliveries_def)
qed

lemma mock_run_inv:
  "mock_run st tr \<Longrightarrow> mock_ok st \<and> settled_counts st tr
     \<and> map (\<lambda>m. (mm_topic m, mm_value m, mm_headers m)) (mk_messages st) = published tr"
proof (induction rule: mock_run.induct)
  case run_new
  show ?case by (simp add: mock_ok_def settled_counts_def mock_default_def disposition_def taken_def)
next
  case (run_publish st tr topic v options r st')
  thus ?case by (auto simp: publish_mock_def mock_ok_def settled_counts_def Let_def is_ok_def split: if_splits)
next
  case (run_acquire st tr topic grp options sid r st')
  note spec = acquire_mock_spec[OF conjunct1[OF run_acquire.IH] run_acquire.hyps(2)]
  show ?case using run_acquire.IH spec
    by (auto simp: mock_ok_def settled_counts_def deliveries_def split: sum.splits prod.splits)
next
  case (run_acknowledge st tr sid entries r st')
  show ?case
  proof (cases "find (\<lambda>s. ms_id s = sid) (mk_sessions st)")
    case None
    thus ?thesis using run_acknowledge by (auto simp: acknowledge_mock_def releases_def)
  next
    case (Some s)
    obtain rs ss where a: "acknowledge_mock_entries sid (ms_group s) entries (mk_states st) = (rs, ss)" by fastforce
    have r: "r = Ok rs" "st' = st\<lparr>mk_states := ss\<rparr>" using run_acknowledge.hyps(2) Some a by (auto simp: acknowledge_mock_def)
    have g: "session_group sid st = ms_group s" using Some by (simp add: session_group_def)
    have "distinct (map state_key (mk_states st))" using run_acknowledge.IH by (simp add: mock_ok_def)
    note spec = acknowledge_mock_entries_spec[OF a this]
    show ?thesis unfolding r using run_acknowledge.IH spec
      by (auto simp: mock_ok_def settled_counts_def g releases_def) (metis add.commute add.left_commute)
  qed
qed

section \<open>Publishing through the gateway\<close>

text \<open>The \<open>Send\<close> call served by the gateway's handler; a Connect error arrives by the name of its code.\<close>

definition served_send ::
    "(connect_code \<Rightarrow> string) \<Rightarrow> 'w externals \<Rightarrow> gateway_authz \<Rightarrow> principal option \<Rightarrow> string option \<Rightarrow>
     pb_record list \<Rightarrow> int \<Rightarrow> 'w produce_core \<Rightarrow> (client_error + record_result list) \<times> 'w produce_core" where
  "served_send code_name ex a caller peer records acks g =
     (case send ex a caller peer acks records g of
        (Err e, g) \<Rightarrow> (Err (Connect (code_name (ce_code e)) (ce_message e)), g)
      | (Ok rs, g) \<Rightarrow> (Ok rs, g))"

lemma publish_through_gateway_holds:
  assumes "stable_deliveries ex ans" "rpc_send rpc = served_send code_name ex a caller peer"
    and "\<not> is_mock c" "\<not> is_unreachable c" "topic \<noteq> []"
  shows "fst (publish rpc topic v options c) = record_result_from_pb (fst (direct_one ex a
     (case caller of None \<Rightarrow> anonymous_principal | Some p \<Rightarrow> p) (case peer of None \<Rightarrow> unknown_host | Some h \<Rightarrow> h) AcksAll
     \<lparr>gr_topic = topic, gr_key = po_key options, gr_value = v, gr_body_structured = None, gr_headers = po_headers options,
      gr_partition = po_partition options, gr_timestamp_ms = None, gr_idempotency_key = po_idempotency_key options\<rparr> (kc_world c)))"
  using send_results[OF assms(1), of a caller peer 0 "[publish_record topic v options]" "kc_world c"] assms(2-)
  by (auto simp: publish_def served_send_def producer_acks_from_pb_def to_gateway_record_def publish_record_def Let_def
      split: prod.splits sum.splits list.splits)

section \<open>Properties\<close>


definition sample_sdk_lib :: sdk_lib where
  "sample_sdk_lib = \<lparr>sl_from_slice = fl_from_slice sample_filter_lib,
     sl_number = (\<lambda>n. case n of PosInt k \<Rightarrow> show_nat k | NegInt k \<Rightarrow> show_int k | FloatNum _ \<Rightarrow> [])\<rparr>"


text \<open>
  A record published through the SDK is answered with the gateway's own outcome for that record: whatever the
  delivery window does, the caller gets the partition, offset and deduplication flag of the record it sent, or the
  gateway's error for it.
\<close>

theorem publish_through_gateway:
  assumes "stable_deliveries ex ans" "rpc_send rpc = served_send code_name ex a caller peer"
    and "\<not> is_mock c" "\<not> is_unreachable c" "topic \<noteq> []"
  shows "fst (publish rpc topic v options c) = record_result_from_pb (fst (direct_one ex a
     (case caller of None \<Rightarrow> anonymous_principal | Some p \<Rightarrow> p) (case peer of None \<Rightarrow> unknown_host | Some h \<Rightarrow> h) AcksAll
     \<lparr>gr_topic = topic, gr_key = po_key options, gr_value = v, gr_body_structured = None, gr_headers = po_headers options,
      gr_partition = po_partition options, gr_timestamp_ms = None, gr_idempotency_key = po_idempotency_key options\<rparr> (kc_world c)))"
  using assms by (rule publish_through_gateway_holds)

definition sample_rpc :: "gateway_authz \<Rightarrow> (producer_record list list \<times> producer_record list) produce_core gateway_rpc" where
  "sample_rpc a =
     \<lparr>rpc_send = served_send (\<lambda>_. ''internal'') sample_externals a None None,
      rpc_subscribe = (\<lambda>_ g. (Ok [], g)), rpc_acquire = (\<lambda>_ g. (Ok ([], []), g)),
      rpc_acknowledge = (\<lambda>_ _ g. (Ok [], g)), rpc_renew = (\<lambda>_ _ g. (Ok [], g))\<rparr>"

definition sample_client :: "(producer_record list list \<times> producer_record list) produce_core krabka_client" where
  "sample_client = \<lparr>kc_endpoint = ''http://gateway'', kc_bearer = None, kc_mock = mock_default, kc_world = sample_core\<rparr>"

lemma sample_stable: "stable_deliveries sample_externals (\<lambda>_. Ok (3, 7))"
  by (simp add: stable_deliveries_def sample_externals_def sample_kafka_def)

lemma sample_client_live: "\<not> is_mock sample_client" "\<not> is_unreachable sample_client"
  by (simp_all add: is_mock_def is_unreachable_def sample_client_def starts_with_def)

theorem publish_through_gateway_witness:
  "fst (publish (sample_rpc allow_all) ''t'' [1] default_options sample_client)
     = Ok \<lparr>pu_partition = 3, pu_offset = 7, pu_deduplicated = False\<rparr>"
proof -
  have "rpc_send (sample_rpc allow_all) = served_send (\<lambda>_. ''internal'') sample_externals allow_all None None"
    by (simp add: sample_rpc_def)
  from publish_through_gateway[OF sample_stable this sample_client_live, of "''t''" "[1]" default_options]
  show ?thesis
    by (simp add: direct_one_def allow_all_def authorize_resource_def default_options_def sample_client_def
        enqueue_plain_with_acks_def encode_value_def encode_body_of_def sample_externals_def sample_kafka_def
        complete_delivery_def send_result_def sample_core_def Let_def record_result_from_pb_def ok_result_def)
qed

text \<open>
  A publish the gateway denies is reported to the application as a failure to authenticate, although the caller was
  authenticated and the queue client reports the same code of the gateway as a server error.
\<close>

theorem publish_denied_unauthenticated:
  assumes "stable_deliveries ex ans" "rpc_send rpc = served_send code_name ex a caller peer"
    and "\<not> is_mock c" "\<not> is_unreachable c" "topic \<noteq> []"
    and "authorize_resource a (case caller of None \<Rightarrow> anonymous_principal | Some p \<Rightarrow> p)
           (case peer of None \<Rightarrow> unknown_host | Some h \<Rightarrow> h) Topic topic Write = Deny"
  shows "fst (publish rpc topic v options c) = Err (Unauthenticated (display_gateway_error (denied topic)))
     \<and> error_info_to_krabka (the (rr_error (error_result (denied topic)))) = ServerError (display_gateway_error (denied topic))"
  using publish_through_gateway_holds[OF assms(1-5), of v options] assms(6)
  by (simp add: direct_one_def denied_def error_result_def record_result_from_pb_def from_connect_code_def error_info_to_krabka_def)

theorem publish_denied_unauthenticated_witness:
  "\<exists>m. fst (publish (sample_rpc (allow_all\<lparr>ga_authorizer := (\<lambda>_ _. Deny)\<rparr>)) ''t'' [1] default_options sample_client)
     = Err (Unauthenticated m)"
proof -
  let ?a = "allow_all\<lparr>ga_authorizer := (\<lambda>_ _. Deny)\<rparr>"
  have r: "rpc_send (sample_rpc ?a) = served_send (\<lambda>_. ''internal'') sample_externals ?a None None"
    by (simp add: sample_rpc_def)
  have d: "authorize_resource ?a (case None of None \<Rightarrow> anonymous_principal | Some p \<Rightarrow> p)
           (case None of None \<Rightarrow> unknown_host | Some h \<Rightarrow> h) Topic ''t'' Write = Deny"
    by (simp add: authorize_resource_def allow_all_def)
  from publish_denied_unauthenticated[OF sample_stable r sample_client_live _ d, of "[1]" default_options]
  show ?thesis by simp
qed

text \<open>
  C36: In the in-memory backend a message belongs to one holder of its group at a time: over any sequence of operations,
  it is delivered to a group at most once more often than the group has given it back.
\<close>

theorem mock_exclusive_delivery:
  assumes "mock_run st tr"
  shows "count_list tr (MockDelivered g d) \<le> count_list tr (MockReleased g d) + 1"
proof -
  have "count_list tr (MockDelivered g d) = count_list tr (MockReleased g d) + taken (disposition (mk_states st) g d)"
    using mock_run_inv[OF assms] unfolding settled_counts_def by blast
  thus ?thesis by (simp add: taken_def)
qed

theorem mock_exclusive_delivery_witness:
  "\<exists>st tr. mock_run st tr \<and> count_list tr (MockDelivered ''g'' (''t'', 0, 0)) = 1
     \<and> count_list tr (MockDelivered ''g'' (''t'', 0, 0)) \<le> count_list tr (MockReleased ''g'' (''t'', 0, 0)) + 1"
proof -
  let ?s1 = "snd (publish_mock ''t'' [1] default_options mock_default)"
  have p: "publish_mock ''t'' [1] default_options mock_default =
      (Ok \<lparr>pu_partition = 0, pu_offset = 0, pu_deduplicated = False\<rparr>, ?s1)"
    by (simp add: publish_mock_def mock_default_def Let_def)
  from run_publish[OF run_new p] have r1: "mock_run ?s1 [MockPublished ''t'' [1] []]"
    by (simp add: is_ok_def default_options_def)
  obtain r s2 where a: "acquire_mock ''t'' ''g'' default_acquire_options [] ?s1 = (r, s2)" by fastforce
  have d: "deliveries ''g'' r = [MockDelivered ''g'' (''t'', 0, 0)]"
    using a by (auto simp: acquire_mock_def publish_mock_def mock_default_def mock_session_id_def default_acquire_options_def
        mock_message_is_available_def delivery_of_def deliveries_def message_coordinate_def queue_message_from_mock_def Let_def
        split: prod.splits)
  from run_acquire[OF r1 a] have r2: "mock_run s2 [MockPublished ''t'' [1] [], MockDelivered ''g'' (''t'', 0, 0)]"
    by (simp add: d)
  from mock_exclusive_delivery[OF r2, of "''g''" "(''t'', 0, 0)"] r2 show ?thesis by fastforce
qed

text \<open>
  A subscription to the in-memory backend yields what was published to its topics, in order, each record at the
  offset its publisher was told, and only records the filter accepts.
\<close>

theorem mock_subscribe_published:
  assumes "mock_run st tr"
  shows "subscribe_mock lib [t] filt st =
    map (\<lambda>(i, x, v, h). Ok \<lparr>si_topic = t, si_partition = 0, si_offset = int i, si_value = v, si_headers = h\<rparr>)
      (filter (\<lambda>(i, x, v, h). sdk_filter_matches lib filt v)
        (enumerate 0 (filter (\<lambda>(x, v, h). x = t) (published tr))))"
proof -
  note inv = mock_run_inv[OF assms]
  define ms where "ms = filter (\<lambda>m. mm_topic m = t) (mk_messages st)"
  have pub: "filter (\<lambda>(x, v, h). x = t) (published tr) = map (\<lambda>m. (mm_topic m, mm_value m, mm_headers m)) ms"
    using inv by (simp add: ms_def filter_map comp_def flip: inv[THEN conjunct2, THEN conjunct2])
  have off: "map mm_offset ms = map int [0..<length ms]" using inv by (simp add: mock_ok_def ms_def)
  have shape: "inbound_from_mock (ms ! i) = \<lparr>si_topic = t, si_partition = 0, si_offset = int i,
      si_value = mm_value (ms ! i), si_headers = mm_headers (ms ! i)\<rparr>" if "i < length ms" for i
  proof -
    have "ms ! i \<in> set ms" using that by simp
    moreover have "mm_offset (ms ! i) = int i" using arg_cong[OF off, of "\<lambda>l. l ! i"] that by simp
    ultimately show ?thesis using inv by (simp add: inbound_from_mock_def ms_def mock_ok_def)
  qed
  have list: "map (\<lambda>m. Ok (inbound_from_mock m)) (filter (\<lambda>m. P (mm_value m)) ms)
    = map (\<lambda>(i, x, v, h). Ok \<lparr>si_topic = t, si_partition = 0, si_offset = int i, si_value = v, si_headers = h\<rparr>)
        (filter (\<lambda>(i, x, v, h). P v) (enumerate 0 (map (\<lambda>m. (mm_topic m, mm_value m, mm_headers m)) ms)))" for P
  proof -
    have "ms = map (\<lambda>i. ms ! i) [0..<length ms]" by (simp add: map_nth)
    hence "map (\<lambda>m. Ok (inbound_from_mock m)) (filter (\<lambda>m. P (mm_value m)) ms)
       = map (\<lambda>m. Ok (inbound_from_mock m)) (filter (\<lambda>m. P (mm_value m)) (map (\<lambda>i. ms ! i) [0..<length ms]))" by metis
    also have "\<dots> = map (\<lambda>i. Ok (inbound_from_mock (ms ! i))) (filter (\<lambda>i. P (mm_value (ms ! i))) [0..<length ms])"
      by (simp add: filter_map comp_def)
    also have "\<dots> = map (\<lambda>i. Ok \<lparr>si_topic = t, si_partition = 0, si_offset = int i, si_value = mm_value (ms ! i),
        si_headers = mm_headers (ms ! i)\<rparr>) (filter (\<lambda>i. P (mm_value (ms ! i))) [0..<length ms])"
      by (rule map_cong) (auto simp: shape)
    also have "\<dots> = map (\<lambda>(i, x, v, h). Ok \<lparr>si_topic = t, si_partition = 0, si_offset = int i, si_value = v, si_headers = h\<rparr>)
        (filter (\<lambda>(i, x, v, h). P v) (map (\<lambda>i. (i, mm_topic (ms ! i), mm_value (ms ! i), mm_headers (ms ! i))) [0..<length ms]))"
      by (simp add: filter_map comp_def)
    also have "map (\<lambda>i. (i, mm_topic (ms ! i), mm_value (ms ! i), mm_headers (ms ! i))) [0..<length ms]
        = enumerate 0 (map (\<lambda>m. (mm_topic m, mm_value m, mm_headers m)) ms)"
      by (rule nth_equalityI) (auto simp: nth_enumerate_eq)
    finally show ?thesis .
  qed
  have "filter (\<lambda>m. mm_topic m \<in> set [t] \<and> sdk_filter_matches lib filt (mm_value m)) (mk_messages st)
      = filter (\<lambda>m. sdk_filter_matches lib filt (mm_value m)) ms"
    by (simp add: ms_def conj_commute)
  moreover have "length (filter (\<lambda>m. sdk_filter_matches lib filt (mm_value m)) ms) \<le> length (mk_messages st)"
    by (metis ms_def length_filter_le order_trans)
  ultimately have "subscribe_mock lib [t] filt st
      = map (\<lambda>m. Ok (inbound_from_mock m)) (filter (\<lambda>m. sdk_filter_matches lib filt (mm_value m)) ms)"
    by (simp add: subscribe_mock_def)
  thus ?thesis unfolding pub list .
qed

theorem mock_subscribe_published_witness:
  "\<exists>st. subscribe_mock sample_sdk_lib [''t''] None st =
     [Ok \<lparr>si_topic = ''t'', si_partition = 0, si_offset = 0, si_value = [1], si_headers = []\<rparr>]"
proof -
  let ?s1 = "snd (publish_mock ''t'' [1] default_options mock_default)"
  have p: "publish_mock ''t'' [1] default_options mock_default =
      (Ok \<lparr>pu_partition = 0, pu_offset = 0, pu_deduplicated = False\<rparr>, ?s1)"
    by (simp add: publish_mock_def mock_default_def Let_def)
  from run_publish[OF run_new p] have r1: "mock_run ?s1 [MockPublished ''t'' [1] []]"
    by (simp add: is_ok_def default_options_def)
  from mock_subscribe_published[OF r1, of sample_sdk_lib "''t''" None]
  have "subscribe_mock sample_sdk_lib [''t''] None ?s1 =
     [Ok \<lparr>si_topic = ''t'', si_partition = 0, si_offset = 0, si_value = [1], si_headers = []\<rparr>]"
    by (simp add: sdk_filter_matches_def)
  thus ?thesis by blast
qed

end
