(* ===== verification/Gw_Startup.thy ===== *)
theory Gw_Startup
  imports Gw_Outbound Gw_Authz Gw_Text
begin

text \<open>
  The gateway's configuration: the settings of \<open>config.rs\<close>, the command line of
  \<open>bin/gateway.rs\<close> and what its builders make of it, and the creation of the
  internal topics (\<open>dedup/topic.rs\<close>). Durations are exact rationals in seconds;
  their conversion to milliseconds is \<open>units_lib\<close>, whose laws are not assumed
  where the code checks them itself. The file system, the TOML parser and the
  admin client are parameters.
\<close>

section \<open>Settings\<close>

datatype client_auth_mode = ClientAuthDisabled | ClientAuthOptional | ClientAuthRequired

record tls_settings =
  ts_cert_chain_path :: string
  ts_private_key_path :: string
  ts_trust_roots_path :: "string option"
  ts_client_ca_path :: "string option"
  ts_client_auth :: client_auth_mode
  ts_reload_interval :: rat

record tls_config =
  tc_cert_chain_path :: string
  tc_private_key_path :: string
  tc_trust_roots_path :: "string option"
  tc_client_ca_path :: "string option"
  tc_client_auth :: client_auth_mode

definition to_security :: "tls_settings \<Rightarrow> tls_config" where
  "to_security t =
     \<lparr>tc_cert_chain_path = ts_cert_chain_path t, tc_private_key_path = ts_private_key_path t,
      tc_trust_roots_path = ts_trust_roots_path t, tc_client_ca_path = ts_client_ca_path t,
      tc_client_auth = ts_client_auth t\<rparr>"

record bearer_settings =
  be_principal_claim_name :: string
  be_allowable_clock_skew :: rat

definition bearer_build :: "(string \<Rightarrow> rat \<Rightarrow> 'v) \<Rightarrow> bearer_settings \<Rightarrow> string + 'v" where
  "bearer_build unsecured b = Ok (unsecured (be_principal_claim_name b) (be_allowable_clock_skew b))"

record authz_settings =
  as_super_users :: "string list"
  as_acl_refresh :: rat

record runtime_config =
  rc_dispatch_queue_capacity :: nat
  rc_frame_max :: nat
  rc_replication_factor :: int
  rc_allow_replication_fallback :: bool
  rc_create_timeout :: rat
  rc_segment :: rat
  rc_min_cleanable_dirty_ratio :: rat
  rc_consumer_poll_timeout :: rat
  rc_ownership_warmup_empty_polls :: nat
  rc_readiness_poll_interval :: rat
  rc_produce_max_body :: nat
  rc_forward_max_body :: nat
  rc_latest_cache_ttl :: rat
  rc_frame_raw :: bool

text \<open>The client library's limits: its defaults and the checks of its two validated values, with the text of a number that does not parse.\<close>

record client_limits =
  li_default_capacity :: nat
  li_default_frame_max :: nat
  li_capacity :: "nat \<Rightarrow> string + nat"
  li_parse_error :: "string \<Rightarrow> string"
  li_frame_max :: "nat \<Rightarrow> string + nat"

definition default_runtime :: "client_limits \<Rightarrow> runtime_config" where
  "default_runtime li =
     \<lparr>rc_dispatch_queue_capacity = li_default_capacity li, rc_frame_max = li_default_frame_max li,
      rc_replication_factor = 3, rc_allow_replication_fallback = True,
      rc_create_timeout = 10, rc_segment = 60, rc_min_cleanable_dirty_ratio = 1 / 100,
      rc_consumer_poll_timeout = 1 / 2, rc_ownership_warmup_empty_polls = 2, rc_readiness_poll_interval = 1 / 4,
      rc_produce_max_body = 2 * 1024 * 1024, rc_forward_max_body = 2 * 1024 * 1024,
      rc_latest_cache_ttl = 5, rc_frame_raw = False\<rparr>"

record units_lib =
  ul_millis :: "rat \<Rightarrow> int"
  ul_from_millis :: "int \<Rightarrow> rat"
  ul_finite :: "rat \<Rightarrow> bool"
  ul_ratio_text :: "rat \<Rightarrow> string"

definition protocol_millis_i32 :: "units_lib \<Rightarrow> string \<Rightarrow> rat \<Rightarrow> string + int" where
  "protocol_millis_i32 ul name v =
     (let ms = ul_millis ul v;
          fault = name @ '' must be a positive whole number of milliseconds within 1..=i32::MAX'' in
      if \<not> ul_finite ul v \<or> ul_from_millis ul ms \<noteq> v then Err fault
      else if \<not> in_i32 ms then Err fault
      else if 0 < ms then Ok ms else Err fault)"

definition FIRST_AMBIGUOUS_F64_MILLIS :: int where "FIRST_AMBIGUOUS_F64_MILLIS = 9007199254740992"

definition protocol_millis_i64 :: "units_lib \<Rightarrow> string \<Rightarrow> rat \<Rightarrow> string + int" where
  "protocol_millis_i64 ul name v =
     (let ms = ul_millis ul v;
          fault = name @ '' must be a positive whole number of milliseconds within 1..=i64::MAX'' in
      if FIRST_AMBIGUOUS_F64_MILLIS \<le> ms then
        Err (name @ '' must be below '' @ show_int FIRST_AMBIGUOUS_F64_MILLIS @ ''ms because UOM quantities use f64'')
      else if \<not> ul_finite ul v \<or> ul_from_millis ul ms \<noteq> v then Err fault
      else if 0 < ms then Ok ms else Err fault)"

definition validate_protocol_units :: "units_lib \<Rightarrow> runtime_config \<Rightarrow> string + unit" where
  "validate_protocol_units ul rc =
     and_then (protocol_millis_i32 ul ''internal topic create timeout'' (rc_create_timeout rc)) (\<lambda>_.
     and_then (protocol_millis_i64 ul ''internal topic segment'' (rc_segment rc)) (\<lambda>_. Ok ()))"

definition validate_dedup_window :: "units_lib \<Rightarrow> rat \<Rightarrow> string + unit" where
  "validate_dedup_window ul v = and_then (protocol_millis_i64 ul ''dedup window'' v) (\<lambda>_. Ok ())"

record trust_and_keys =
  tk_trust_store :: "string option"
  tk_server_name :: string
  tk_certificate_chain :: string
  tk_private_key :: string

datatype client_security = SslSecurity trust_and_keys

record 'q gateway_config =
  gc_bootstrap :: string
  gc_listen_addr :: string
  gc_client_id :: string
  gc_dedup_topic :: string
  gc_dedup_partitions :: nat
  gc_dedup_window :: rat
  gc_dedup_ownership_group :: string
  gc_dedup_txn_id_prefix :: string
  gc_advertised_addr :: string
  gc_membership_topic :: string
  gc_tls :: "tls_settings option"
  gc_broker_security :: "client_security option"
  gc_authz :: "authz_settings option"
  gc_webhooks :: "(string, 'q compiled_webhook) hashmap"
  gc_outbound :: "'q compiled_subscription list"
  gc_schema_registry_url :: "string option"
  gc_runtime :: runtime_config

section \<open>Internal topics\<close>

record topic_policy =
  tp_replication_factor :: int
  tp_allow_replication_fallback :: bool
  tp_create_timeout :: rat
  tp_segment :: rat
  tp_min_cleanable_dirty_ratio :: rat

definition internal_topic_policy :: "runtime_config \<Rightarrow> topic_policy" where
  "internal_topic_policy rc =
     \<lparr>tp_replication_factor = rc_replication_factor rc,
      tp_allow_replication_fallback = rc_allow_replication_fallback rc,
      tp_create_timeout = rc_create_timeout rc, tp_segment = rc_segment rc,
      tp_min_cleanable_dirty_ratio = rc_min_cleanable_dirty_ratio rc\<rparr>"

type_synonym topic_configs = "(string, string) hashmap"

definition compaction_configs :: "units_lib \<Rightarrow> topic_policy \<Rightarrow> topic_configs" where
  "compaction_configs ul policy =
     hm_insert ''segment.ms'' (show_int (ul_millis ul (tp_segment policy)))
      (hm_insert ''min.cleanable.dirty.ratio'' (ul_ratio_text ul (tp_min_cleanable_dirty_ratio policy))
        (hm_insert ''cleanup.policy'' ''compact'' []))"

definition dedup_topic_configs :: "units_lib \<Rightarrow> rat \<Rightarrow> topic_policy \<Rightarrow> topic_configs" where
  "dedup_topic_configs ul window policy =
     hm_insert ''retention.ms'' (show_int (ul_millis ul window))
      (hm_insert ''cleanup.policy'' ''compact,delete'' (compaction_configs ul policy))"

definition topic_partition_count :: "nat \<Rightarrow> gateway_error + int" where
  "topic_partition_count partitions =
     (if in_i32 (int partitions) then Ok (int partitions)
      else Err (Other ''internal topic partition count exceeds i32::MAX''))"

record topic_spec =
  sp_name :: string
  sp_partitions :: int
  sp_replicas :: int
  sp_configs :: topic_configs

record connection_options =
  co_setup_timeout :: rat
  co_request_timeout :: rat
  co_client_id :: string
  co_dispatch_queue_capacity :: nat
  co_frame_max :: nat
  co_security :: "client_security option"

definition admin_options :: "client_security option \<Rightarrow> runtime_config \<Rightarrow> connection_options" where
  "admin_options security rc =
     \<lparr>co_setup_timeout = 5, co_request_timeout = 30, co_client_id = ''krabka-operator'',
      co_dispatch_queue_capacity = rc_dispatch_queue_capacity rc, co_frame_max = rc_frame_max rc,
      co_security = security\<rparr>"

text \<open>The admin client: connecting, and the error code of each created topic.\<close>

record 'w admin_lib =
  al_connect :: "string list \<Rightarrow> connection_options \<Rightarrow> 'w \<Rightarrow> (string + unit) \<times> 'w"
  al_create :: "topic_spec \<Rightarrow> rat \<Rightarrow> 'w \<Rightarrow> (string + int option list) \<times> 'w"

definition INVALID_REPLICATION_FACTOR :: int where "INVALID_REPLICATION_FACTOR = 38"
definition TOPIC_ALREADY_EXISTS :: int where "TOPIC_ALREADY_EXISTS = 36"

text \<open>The scan of the outcomes: done, an error, or the request to try again with one replica.\<close>

datatype created = Created | CreateFailed int | RetryWithOneReplica

fun scan_outcomes :: "topic_policy \<Rightarrow> int option list \<Rightarrow> created" where
  "scan_outcomes policy [] = Created"
| "scan_outcomes policy (x # xs) =
     (case x of
        None \<Rightarrow> scan_outcomes policy xs
      | Some ec \<Rightarrow>
          if ec = 0 \<or> ec = TOPIC_ALREADY_EXISTS then scan_outcomes policy xs
          else if ec = INVALID_REPLICATION_FACTOR \<and> tp_allow_replication_fallback policy \<and> 1 < tp_replication_factor policy
          then RetryWithOneReplica
          else CreateFailed ec)"

lemma scan_retry: "scan_outcomes policy xs = RetryWithOneReplica \<Longrightarrow> 1 < tp_replication_factor policy"
  by (induction policy xs rule: scan_outcomes.induct) (auto split: option.splits if_splits)

function create_with_rf ::
    "'w admin_lib \<Rightarrow> string \<Rightarrow> nat \<Rightarrow> topic_policy \<Rightarrow> topic_configs \<Rightarrow> 'w \<Rightarrow> (gateway_error + unit) \<times> 'w" where
  "create_with_rf al name partitions policy configs w =
     (case topic_partition_count partitions of
        Err e \<Rightarrow> (Err e, w)
      | Ok n \<Rightarrow>
          (case al_create al \<lparr>sp_name = name, sp_partitions = n, sp_replicas = tp_replication_factor policy,
                              sp_configs = configs\<rparr> (tp_create_timeout policy) w of
             (Err e, w) \<Rightarrow> (Err (Other (''create_topics: '' @ e)), w)
           | (Ok outcomes, w) \<Rightarrow>
               (case scan_outcomes policy outcomes of
                  Created \<Rightarrow> (Ok (), w)
                | CreateFailed ec \<Rightarrow> (Err (Other (''create internal topic failed: code '' @ show_int ec)), w)
                | RetryWithOneReplica \<Rightarrow>
                    create_with_rf al name partitions (policy\<lparr>tp_replication_factor := 1\<rparr>) configs w)))"
  by pat_completeness auto
termination
  by (relation "measure (\<lambda>(_, _, _, policy, _, _). nat (tp_replication_factor policy))") (auto dest!: scan_retry)

declare create_with_rf.simps [simp del]

definition bootstrap_addrs :: "string \<Rightarrow> string list" where
  "bootstrap_addrs bootstrap = map trim (split_on CHR '','' bootstrap)"

definition ensure_dedup_topic_with_policy ::
    "units_lib \<Rightarrow> 'w admin_lib \<Rightarrow> string \<Rightarrow> string \<Rightarrow> nat \<Rightarrow> rat \<Rightarrow> topic_policy \<Rightarrow> client_security option \<Rightarrow>
     runtime_config \<Rightarrow> 'w \<Rightarrow> (gateway_error + unit) \<times> 'w" where
  "ensure_dedup_topic_with_policy ul al bootstrap name partitions window policy security rc w =
     (case al_connect al (bootstrap_addrs bootstrap) (admin_options security rc) w of
        (Err e, w) \<Rightarrow> (Err (Other (''admin connect: '' @ e)), w)
      | (Ok _, w) \<Rightarrow> create_with_rf al name partitions policy (dedup_topic_configs ul window policy) w)"

definition ensure_membership_topic_with_policy ::
    "units_lib \<Rightarrow> 'w admin_lib \<Rightarrow> string \<Rightarrow> string \<Rightarrow> topic_policy \<Rightarrow> client_security option \<Rightarrow>
     runtime_config \<Rightarrow> 'w \<Rightarrow> (gateway_error + unit) \<times> 'w" where
  "ensure_membership_topic_with_policy ul al bootstrap name policy security rc w =
     (case al_connect al (bootstrap_addrs bootstrap) (admin_options security rc) w of
        (Err e, w) \<Rightarrow> (Err (Other (''admin connect: '' @ e)), w)
      | (Ok _, w) \<Rightarrow> create_with_rf al name 1 policy (compaction_configs ul policy) w)"

section \<open>The command line\<close>

record args =
  ar_bootstrap_servers :: string
  ar_client_dispatch_queue_capacity :: nat
  ar_client_frame_max :: nat
  ar_listen_addr :: string
  ar_client_id :: string
  ar_dedup_topic :: string
  ar_dedup_partitions :: nat
  ar_dedup_window :: rat
  ar_dedup_ownership_group :: "string option"
  ar_dedup_txn_id_prefix :: string
  ar_advertised_addr :: string
  ar_membership_topic :: string
  ar_tls_cert :: "string option"
  ar_tls_key :: "string option"
  ar_tls_client_ca :: "string option"
  ar_tls_client_auth :: string
  ar_tls_trust_roots :: "string option"
  ar_tls_reload_interval :: rat
  ar_authz :: string
  ar_authz_super_users :: string
  ar_acl_refresh_interval :: rat
  ar_bearer :: string
  ar_bearer_principal_claim :: string
  ar_bearer_allowable_clock_skew :: rat
  ar_replication_factor :: "int option"
  ar_allow_replication_fallback :: "bool option"
  ar_create_timeout :: "rat option"
  ar_segment :: "rat option"
  ar_min_cleanable_dirty_ratio :: "rat option"
  ar_consumer_poll_timeout :: "rat option"
  ar_ownership_warmup_empty_polls :: "nat option"
  ar_readiness_poll_interval :: "rat option"
  ar_produce_max_body :: "nat option"
  ar_forward_max_body :: "nat option"
  ar_latest_cache_ttl :: "rat option"
  ar_frame_raw :: "bool option"
  ar_broker_tls_ca :: "string option"
  ar_broker_tls_cert :: "string option"
  ar_broker_tls_key :: "string option"
  ar_broker_tls_server_name :: "string option"
  ar_webhooks_config :: "string option"
  ar_outbound_webhooks_config :: "string option"
  ar_schema_registry_url :: "string option"

definition or_default :: "'a option \<Rightarrow> 'a \<Rightarrow> 'a" where
  "or_default x d = (case x of Some v \<Rightarrow> v | None \<Rightarrow> d)"

definition parse_client_dispatch_queue_capacity :: "client_limits \<Rightarrow> string \<Rightarrow> string + nat" where
  "parse_client_dispatch_queue_capacity li s =
     (case parse_u64 s of
        None \<Rightarrow> Err (li_parse_error li s)
      | Some n \<Rightarrow> li_capacity li (nat n))"

text \<open>\<open>None\<close> is the panic of an \<open>expect\<close> on a limit the client library rejects.\<close>

definition args_runtime_config :: "client_limits \<Rightarrow> args \<Rightarrow> runtime_config option" where
  "args_runtime_config li a =
     (case (li_capacity li (ar_client_dispatch_queue_capacity a), li_frame_max li (ar_client_frame_max a)) of
        (Ok capacity, Ok frame_max) \<Rightarrow>
          (let d = default_runtime li in
           Some \<lparr>rc_dispatch_queue_capacity = capacity, rc_frame_max = frame_max,
             rc_replication_factor = or_default (ar_replication_factor a) (rc_replication_factor d),
             rc_allow_replication_fallback = or_default (ar_allow_replication_fallback a) (rc_allow_replication_fallback d),
             rc_create_timeout = or_default (ar_create_timeout a) (rc_create_timeout d),
             rc_segment = or_default (ar_segment a) (rc_segment d),
             rc_min_cleanable_dirty_ratio = or_default (ar_min_cleanable_dirty_ratio a) (rc_min_cleanable_dirty_ratio d),
             rc_consumer_poll_timeout = or_default (ar_consumer_poll_timeout a) (rc_consumer_poll_timeout d),
             rc_ownership_warmup_empty_polls = or_default (ar_ownership_warmup_empty_polls a) (rc_ownership_warmup_empty_polls d),
             rc_readiness_poll_interval = or_default (ar_readiness_poll_interval a) (rc_readiness_poll_interval d),
             rc_produce_max_body = or_default (ar_produce_max_body a) (rc_produce_max_body d),
             rc_forward_max_body = or_default (ar_forward_max_body a) (rc_forward_max_body d),
             rc_latest_cache_ttl = or_default (ar_latest_cache_ttl a) (rc_latest_cache_ttl d),
             rc_frame_raw = or_default (ar_frame_raw a) (rc_frame_raw d)\<rparr>)
      | _ \<Rightarrow> None)"

definition validate_protocol_runtime :: "units_lib \<Rightarrow> client_limits \<Rightarrow> args \<Rightarrow> (string + runtime_config) option" where
  "validate_protocol_runtime ul li a =
     map_option (\<lambda>rc.
       and_then (validate_protocol_units ul rc) (\<lambda>_.
       and_then (validate_dedup_window ul (ar_dedup_window a)) (\<lambda>_. Ok rc))) (args_runtime_config li a)"

definition resolved_dedup_ownership_group :: "args \<Rightarrow> string" where
  "resolved_dedup_ownership_group a =
     (case ar_dedup_ownership_group a of Some g \<Rightarrow> g | None \<Rightarrow> ar_client_id a @ ''-dedup-owners'')"

definition build_tls :: "args \<Rightarrow> string + tls_settings option" where
  "build_tls a =
     (case (ar_tls_cert a, ar_tls_key a) of
        (Some cert, Some key) \<Rightarrow>
          and_then
            (if ar_tls_client_auth a = ''disabled'' then Ok ClientAuthDisabled
             else if ar_tls_client_auth a = ''optional'' then Ok ClientAuthOptional
             else if ar_tls_client_auth a = ''required'' then Ok ClientAuthRequired
             else Err (''invalid --tls-client-auth: '' @ ar_tls_client_auth a))
            (\<lambda>client_auth.
               Ok (Some \<lparr>ts_cert_chain_path = cert, ts_private_key_path = key,
                   ts_trust_roots_path = (case ar_tls_trust_roots a of Some t \<Rightarrow> Some t | None \<Rightarrow> ar_tls_client_ca a),
                   ts_client_ca_path = ar_tls_client_ca a, ts_client_auth = client_auth,
                   ts_reload_interval = ar_tls_reload_interval a\<rparr>))
      | (None, None) \<Rightarrow> Ok None
      | _ \<Rightarrow> Err ''--tls-cert and --tls-key must be set together'')"

definition build_broker_security ::
    "string option \<Rightarrow> string option \<Rightarrow> string option \<Rightarrow> string option \<Rightarrow> string + client_security option" where
  "build_broker_security cert key ca sni =
     (case (cert, key) of
        (Some cert_path, Some key_path) \<Rightarrow>
          (case sni of
             None \<Rightarrow> Err ''--broker-tls-server-name required with broker TLS''
           | Some server_name \<Rightarrow>
               Ok (Some (SslSecurity \<lparr>tk_trust_store = ca, tk_server_name = server_name,
                                      tk_certificate_chain = cert_path, tk_private_key = key_path\<rparr>)))
      | (None, None) \<Rightarrow> Ok None
      | _ \<Rightarrow> Err ''--broker-tls-cert and --broker-tls-key must be set together'')"

definition build_authz_settings :: "args \<Rightarrow> string + authz_settings option" where
  "build_authz_settings a =
     (if ar_authz a = ''off'' then Ok None
      else if ar_authz a = ''simple'' then
        Ok (Some \<lparr>as_super_users = filter (\<lambda>s. s \<noteq> []) (map trim (split_on CHR '','' (ar_authz_super_users a))),
                  as_acl_refresh = ar_acl_refresh_interval a\<rparr>)
      else Err (''invalid --authz: '' @ ar_authz a))"

record config_files =
  fs_read :: "string \<Rightarrow> string + string"
  fs_webhooks_toml :: "string \<Rightarrow> string + webhook_endpoint list"
  fs_outbound_toml :: "string \<Rightarrow> string + allowed_target list \<times> outbound_subscription list"
  fs_show :: "config_error \<Rightarrow> string"

definition load_webhooks :: "config_files \<Rightarrow> 'q web_lib \<Rightarrow> args \<Rightarrow> string + (string, 'q compiled_webhook) hashmap" where
  "load_webhooks fs lib a =
     (case ar_webhooks_config a of
        None \<Rightarrow> Ok []
      | Some path \<Rightarrow>
          and_then (map_err (\<lambda>e. ''read webhooks config '' @ path @ '': '' @ e) (fs_read fs path)) (\<lambda>raw.
          and_then (map_err (\<lambda>e. ''parse webhooks config: '' @ e) (fs_webhooks_toml fs raw)) (\<lambda>endpoints.
            map_err (\<lambda>e. ''webhooks config: '' @ fs_show fs e) (compile_webhooks lib endpoints))))"

definition load_outbound :: "config_files \<Rightarrow> 'q web_lib \<Rightarrow> args \<Rightarrow> string + 'q compiled_subscription list" where
  "load_outbound fs lib a =
     (case ar_outbound_webhooks_config a of
        None \<Rightarrow> Ok []
      | Some path \<Rightarrow>
          and_then (map_err (\<lambda>e. ''read outbound webhooks config '' @ path @ '': '' @ e) (fs_read fs path)) (\<lambda>raw.
          and_then (map_err (\<lambda>e. ''parse outbound webhooks config: '' @ e) (fs_outbound_toml fs raw)) (\<lambda>(allowed, subscriptions).
            map_err (\<lambda>e. ''outbound config: '' @ fs_show fs e) (compile_outbound lib allowed subscriptions))))"

definition build_bearer :: "(string \<Rightarrow> rat \<Rightarrow> 'v) \<Rightarrow> args \<Rightarrow> string + 'v option" where
  "build_bearer unsecured a =
     (if ar_bearer a = ''off'' then Ok None
      else if ar_bearer a = ''unsecured'' then
        and_then (map_err (\<lambda>e. ''bearer: '' @ e) (bearer_build unsecured
            \<lparr>be_principal_claim_name = ar_bearer_principal_claim a,
             be_allowable_clock_skew = ar_bearer_allowable_clock_skew a\<rparr>)) (\<lambda>v. Ok (Some v))
      else Err (''invalid --bearer: '' @ ar_bearer a))"

text \<open>What \<open>main\<close> hands to \<open>run\<close>: the configuration and the bearer validator, or the error it exits with.\<close>

definition main_config ::
    "units_lib \<Rightarrow> client_limits \<Rightarrow> config_files \<Rightarrow> 'q web_lib \<Rightarrow> (string \<Rightarrow> rat \<Rightarrow> 'v) \<Rightarrow> args \<Rightarrow>
     (string + 'q gateway_config \<times> 'v option) option" where
  "main_config ul li fs lib unsecured a =
     map_option (\<lambda>validated.
       and_then validated (\<lambda>rc.
       and_then (build_tls a) (\<lambda>tls.
       and_then (build_broker_security (ar_broker_tls_cert a) (ar_broker_tls_key a) (ar_broker_tls_ca a)
                   (ar_broker_tls_server_name a)) (\<lambda>security.
       and_then (build_authz_settings a) (\<lambda>authz.
       and_then (load_webhooks fs lib a) (\<lambda>webhooks.
       and_then (load_outbound fs lib a) (\<lambda>outbound.
       and_then (build_bearer unsecured a) (\<lambda>bearer.
         Ok (\<lparr>gc_bootstrap = ar_bootstrap_servers a, gc_listen_addr = ar_listen_addr a, gc_client_id = ar_client_id a,
              gc_dedup_topic = ar_dedup_topic a, gc_dedup_partitions = ar_dedup_partitions a,
              gc_dedup_window = ar_dedup_window a, gc_dedup_ownership_group = resolved_dedup_ownership_group a,
              gc_dedup_txn_id_prefix = ar_dedup_txn_id_prefix a, gc_advertised_addr = ar_advertised_addr a,
              gc_membership_topic = ar_membership_topic a, gc_tls = tls, gc_broker_security = security,
              gc_authz = authz, gc_webhooks = webhooks, gc_outbound = outbound,
              gc_schema_registry_url = ar_schema_registry_url a, gc_runtime = rc\<rparr>, bearer)))))))))
       (validate_protocol_runtime ul li a)"

definition ownership_consumer_inputs :: "'q gateway_config \<Rightarrow> string \<times> string \<times> string \<times> string" where
  "ownership_consumer_inputs c =
     (gc_bootstrap c, gc_client_id c @ ''-dedup-owner'', gc_dedup_topic c, gc_dedup_ownership_group c)"

definition build_gateway_authz ::
    "(acl_entry list \<Rightarrow> authorization_request \<Rightarrow> authorization_result) \<Rightarrow>
     (string list \<Rightarrow> acl_entry list \<Rightarrow> authorization_request \<Rightarrow> authorization_result) \<Rightarrow>
     'q gateway_config \<Rightarrow> gateway_authz \<times> rat option" where
  "build_gateway_authz allow_all simple c =
     (case gc_authz c of
        Some a \<Rightarrow> (\<lparr>ga_authorizer = simple (as_super_users a), ga_cache = []\<rparr>, Some (as_acl_refresh a))
      | None \<Rightarrow> (\<lparr>ga_authorizer = allow_all, ga_cache = []\<rparr>, None))"

section \<open>Validated durations\<close>

lemma protocol_millis_i32_Ok:
  "protocol_millis_i32 ul name v = Ok n \<longleftrightarrow>
     ul_finite ul v \<and> n = ul_millis ul v \<and> ul_from_millis ul n = v \<and> 0 < n \<and> n \<le> i32_MAX"
  by (auto simp: protocol_millis_i32_def Let_def in_i32_def i32_MIN_def)

lemma protocol_millis_i64_Ok:
  "protocol_millis_i64 ul name v = Ok n \<longleftrightarrow>
     ul_finite ul v \<and> n = ul_millis ul v \<and> ul_from_millis ul n = v \<and> 0 < n \<and> n < FIRST_AMBIGUOUS_F64_MILLIS"
  by (auto simp: protocol_millis_i64_def Let_def)

definition exact_millis :: "units_lib \<Rightarrow> rat \<Rightarrow> bool" where
  "exact_millis ul v \<longleftrightarrow> ul_from_millis ul (ul_millis ul v) = v \<and> 0 < ul_millis ul v \<and> ul_millis ul v < 2 ^ 53"

lemma validated_runtime:
  assumes "validate_protocol_runtime ul li a = Some (Ok rc)"
  shows "args_runtime_config li a = Some rc" "exact_millis ul (rc_create_timeout rc)"
    "ul_millis ul (rc_create_timeout rc) \<le> i32_MAX" "exact_millis ul (rc_segment rc)" "exact_millis ul (ar_dedup_window a)"
  using assms
  by (auto simp: validate_protocol_runtime_def validate_protocol_units_def validate_dedup_window_def and_then_Ok_iff
      protocol_millis_i32_Ok protocol_millis_i64_Ok exact_millis_def FIRST_AMBIGUOUS_F64_MILLIS_def i32_MAX_def)

section \<open>The configuration a gateway starts with\<close>

definition config_ok :: "units_lib \<Rightarrow> 'q web_lib \<Rightarrow> 'q gateway_config \<Rightarrow> bool" where
  "config_ok ul lib c \<longleftrightarrow>
     exact_millis ul (gc_dedup_window c) \<and> exact_millis ul (rc_segment (gc_runtime c))
     \<and> exact_millis ul (rc_create_timeout (gc_runtime c)) \<and> ul_millis ul (rc_create_timeout (gc_runtime c)) \<le> i32_MAX
     \<and> (\<forall>cw\<in>ran (hm_get (gc_webhooks c)). webhook_ok cw)
     \<and> (\<exists>allowed. \<forall>s\<in>set (gc_outbound c). subscription_ok lib allowed s)
     \<and> (\<forall>a. gc_authz c = Some a \<longrightarrow> [] \<notin> set (as_super_users a))"

lemma load_webhooks_ok: "load_webhooks fs lib a = Ok m \<Longrightarrow> \<forall>cw\<in>ran (hm_get m). webhook_ok cw"
  by (auto simp: load_webhooks_def and_then_Ok_iff ran_def split: option.splits intro: compile_webhooks_ok)

lemma load_outbound_ok: "load_outbound fs lib a = Ok ss \<Longrightarrow> \<exists>allowed. \<forall>s\<in>set ss. subscription_ok lib allowed s"
  using compile_outbound_ok by (fastforce simp: load_outbound_def and_then_Ok_iff split: option.splits)

lemma main_config_parts:
  assumes "main_config ul li fs lib unsecured a = Some (Ok (c, bearer))"
  shows "validate_protocol_runtime ul li a = Some (Ok (gc_runtime c))" "build_tls a = Ok (gc_tls c)"
    "build_broker_security (ar_broker_tls_cert a) (ar_broker_tls_key a) (ar_broker_tls_ca a) (ar_broker_tls_server_name a)
       = Ok (gc_broker_security c)"
    "build_authz_settings a = Ok (gc_authz c)" "load_webhooks fs lib a = Ok (gc_webhooks c)"
    "load_outbound fs lib a = Ok (gc_outbound c)" "build_bearer unsecured a = Ok bearer"
    "gc_dedup_window c = ar_dedup_window a"
  using assms by (auto simp: main_config_def and_then_Ok_iff)

lemma main_config_ok:
  assumes "main_config ul li fs lib unsecured a = Some (Ok (c, bearer))" shows "config_ok ul lib c"
proof -
  note p = main_config_parts[OF assms]
  note v = validated_runtime[OF p(1)]
  have "[] \<notin> set (as_super_users s)" if "gc_authz c = Some s" for s
    using p(4) that by (auto simp: build_authz_settings_def split: if_splits)
  thus ?thesis using v p(8) load_webhooks_ok[OF p(5)] load_outbound_ok[OF p(6)] by (simp add: config_ok_def)
qed

section \<open>Creating a topic\<close>

text \<open>One request for the topic with a given replication factor, and what its answer means.\<close>

definition create_once ::
    "'w admin_lib \<Rightarrow> string \<Rightarrow> int \<Rightarrow> topic_policy \<Rightarrow> topic_configs \<Rightarrow> 'w \<Rightarrow> (string + created) \<times> 'w" where
  "create_once al name n policy configs w =
     (case al_create al \<lparr>sp_name = name, sp_partitions = n, sp_replicas = tp_replication_factor policy, sp_configs = configs\<rparr>
             (tp_create_timeout policy) w of
        (Err e, w) \<Rightarrow> (Err e, w)
      | (Ok outcomes, w) \<Rightarrow> (Ok (scan_outcomes policy outcomes), w))"

definition settle_create :: "(string + created) \<times> 'w \<Rightarrow> (gateway_error + unit) \<times> 'w" where
  "settle_create r =
     (case r of
        (Err e, w) \<Rightarrow> (Err (Other (''create_topics: '' @ e)), w)
      | (Ok (CreateFailed ec), w) \<Rightarrow> (Err (Other (''create internal topic failed: code '' @ show_int ec)), w)
      | (Ok _, w) \<Rightarrow> (Ok (), w))"

lemma create_step:
  assumes "topic_partition_count partitions = Ok n"
  shows "create_with_rf al name partitions policy configs w =
    (case create_once al name n policy configs w of
       (Ok RetryWithOneReplica, w) \<Rightarrow> create_with_rf al name partitions (policy\<lparr>tp_replication_factor := 1\<rparr>) configs w
     | r \<Rightarrow> settle_create r)"
  unfolding create_with_rf.simps[of al name partitions policy] create_once_def settle_create_def assms
  by (simp split: prod.split sum.split created.split)

lemma create_once_retry:
  "create_once al name n policy configs w = (Ok RetryWithOneReplica, w') \<Longrightarrow> 1 < tp_replication_factor policy"
  using scan_retry by (auto simp: create_once_def split: prod.splits sum.splits)

lemma create_two_requests:
  assumes n: "topic_partition_count partitions = Ok n"
  shows "create_with_rf al name partitions policy configs w =
    (case create_once al name n policy configs w of
       (Ok RetryWithOneReplica, w) \<Rightarrow> settle_create (create_once al name n (policy\<lparr>tp_replication_factor := 1\<rparr>) configs w)
     | r \<Rightarrow> settle_create r)"
proof -
  have "create_with_rf al name partitions (policy\<lparr>tp_replication_factor := 1\<rparr>) configs w
      = settle_create (create_once al name n (policy\<lparr>tp_replication_factor := 1\<rparr>) configs w)" for w
    unfolding create_step[OF n, of al name "policy\<lparr>tp_replication_factor := 1\<rparr>"]
    using create_once_retry[of al name n "policy\<lparr>tp_replication_factor := 1\<rparr>" configs w]
    by (auto split: prod.split sum.split created.split)
  thus ?thesis unfolding create_step[OF n, of al name policy] by (simp split: prod.split sum.split created.split)
qed

lemma scan_created:
  "scan_outcomes policy xs = Created \<longleftrightarrow> (\<forall>x\<in>set xs. x = None \<or> x = Some 0 \<or> x = Some TOPIC_ALREADY_EXISTS)"
  by (induction policy xs rule: scan_outcomes.induct) (auto split: option.splits)

section \<open>Properties\<close>


definition sample_units :: units_lib where
  "sample_units = \<lparr>ul_millis = (\<lambda>v. \<lfloor>v * 1000\<rfloor>), ul_from_millis = (\<lambda>n. of_int n / 1000), ul_finite = (\<lambda>_. True),
     ul_ratio_text = (\<lambda>_. ''0.01'')\<rparr>"

definition sample_limits :: client_limits where
  "sample_limits = \<lparr>li_default_capacity = 64, li_default_frame_max = 100, li_capacity = Ok, li_parse_error = (\<lambda>_. []), li_frame_max = Ok\<rparr>"

definition sample_files :: config_files where
  "sample_files = \<lparr>fs_read = (\<lambda>_. Err ''no such file''), fs_webhooks_toml = (\<lambda>_. Ok []), fs_outbound_toml = (\<lambda>_. Ok ([], [])),
     fs_show = (\<lambda>_. [])\<rparr>"

definition sample_args :: args where
  "sample_args =
     \<lparr>ar_bootstrap_servers = ''b:9092'', ar_client_dispatch_queue_capacity = 64, ar_client_frame_max = 100,
      ar_listen_addr = ''0.0.0.0:9500'', ar_client_id = ''gw'', ar_dedup_topic = ''d'', ar_dedup_partitions = 8,
      ar_dedup_window = 3600, ar_dedup_ownership_group = None, ar_dedup_txn_id_prefix = ''p'', ar_advertised_addr = ''gw:9500'',
      ar_membership_topic = ''m'', ar_tls_cert = None, ar_tls_key = None, ar_tls_client_ca = None,
      ar_tls_client_auth = ''disabled'', ar_tls_trust_roots = None, ar_tls_reload_interval = 30, ar_authz = ''off'',
      ar_authz_super_users = [], ar_acl_refresh_interval = 30, ar_bearer = ''off'', ar_bearer_principal_claim = ''sub'',
      ar_bearer_allowable_clock_skew = 30, ar_replication_factor = None, ar_allow_replication_fallback = None,
      ar_create_timeout = None, ar_segment = None, ar_min_cleanable_dirty_ratio = None, ar_consumer_poll_timeout = None,
      ar_ownership_warmup_empty_polls = None, ar_readiness_poll_interval = None, ar_produce_max_body = None,
      ar_forward_max_body = None, ar_latest_cache_ttl = None, ar_frame_raw = None, ar_broker_tls_ca = None,
      ar_broker_tls_cert = None, ar_broker_tls_key = None, ar_broker_tls_server_name = None, ar_webhooks_config = None,
      ar_outbound_webhooks_config = None, ar_schema_registry_url = None\<rparr>"

lemma sample_runtime:
  "args_runtime_config sample_limits sample_args = Some ((default_runtime sample_limits)\<lparr>rc_frame_max := 100\<rparr>)"
  by (simp add: args_runtime_config_def sample_limits_def sample_args_def default_runtime_def or_default_def Let_def)

lemma sample_valid:
  "validate_protocol_runtime sample_units sample_limits sample_args = Some (Ok ((default_runtime sample_limits)\<lparr>rc_frame_max := 100\<rparr>))"
proof -
  let ?rc = "(default_runtime sample_limits)\<lparr>rc_frame_max := 100\<rparr>"
  have "protocol_millis_i32 sample_units ''internal topic create timeout'' (rc_create_timeout ?rc) = Ok 10000"
    by (simp add: protocol_millis_i32_Ok sample_units_def default_runtime_def i32_MAX_def)
  moreover have "protocol_millis_i64 sample_units ''internal topic segment'' (rc_segment ?rc) = Ok 60000"
    by (simp add: protocol_millis_i64_Ok sample_units_def default_runtime_def FIRST_AMBIGUOUS_F64_MILLIS_def)
  moreover have "protocol_millis_i64 sample_units ''dedup window'' (ar_dedup_window sample_args) = Ok 3600000"
    by (simp add: protocol_millis_i64_Ok sample_units_def sample_args_def FIRST_AMBIGUOUS_F64_MILLIS_def)
  ultimately show ?thesis
    by (simp add: validate_protocol_runtime_def sample_runtime validate_protocol_units_def validate_dedup_window_def)
qed


text \<open>
  Creating an internal topic terminates after at most two requests: the second, with one replica, is made exactly
  when the first was refused for its replication factor and falling back is allowed; the call succeeds exactly when
  the last request was accepted or the topic was already there.
\<close>

theorem create_topic_two_requests:
  assumes "topic_partition_count partitions = Ok n"
  shows "create_with_rf al name partitions policy configs w =
    (case create_once al name n policy configs w of
       (Ok RetryWithOneReplica, w) \<Rightarrow> settle_create (create_once al name n (policy\<lparr>tp_replication_factor := 1\<rparr>) configs w)
     | r \<Rightarrow> settle_create r)"
  using assms by (rule create_two_requests)

theorem create_topic_two_requests_witness:
  "create_with_rf \<lparr>al_connect = (\<lambda>_ _ w. (Ok (), w)),
       al_create = (\<lambda>spec _ w. (Ok [if sp_replicas spec = 1 then None else Some 38], w + 1))\<rparr> ''d'' 8
     (internal_topic_policy (default_runtime sample_limits)) [] (0 :: nat) = (Ok (), 2)"
  by (subst create_topic_two_requests[of _ 8])
    (simp_all add: topic_partition_count_def in_i32_def i32_MIN_def i32_MAX_def create_once_def settle_create_def
      internal_topic_policy_def default_runtime_def INVALID_REPLICATION_FACTOR_def TOPIC_ALREADY_EXISTS_def)

text \<open>
  A broker CA without a client certificate is silently ignored: whatever CA and server name are given, the gateway
  then connects to the brokers in plaintext.
\<close>

theorem broker_ca_only_plaintext:
  "build_broker_security None None (Some ca) sni = Ok None"
  by (simp add: build_broker_security_def)

end
