(* ===== verification/Gw_Lifecycle.thy ===== *)
theory Gw_Lifecycle
  imports Gw_Startup
begin

text \<open>
  The life of the process: the order in which \<open>run\<close> brings the parts up
  (\<open>bin/gateway.rs\<close>), the readiness flag that the watcher, the background tasks
  and the signal handler share (\<open>health.rs\<close>), and the listener that attaches the
  peer's identity to every request and drains its connections (\<open>serve.rs\<close>). The
  tasks interleave at every access to the shared flag and to the cancellation
  token; hyper, rustls and the runtime are parameters.
\<close>

section \<open>Bringing the parts up\<close>

datatype startup_effect =
    EnsureDedupTopic
  | EnsureMembershipTopic
  | SpawnMembershipReader
  | BuildPublisher
  | SetMembership
  | SpawnReadinessWatcher
  | SetEngine
  | SpawnOwnershipConsumer
  | BuildForwarder bool
  | BuildCodec bool
  | BuildDlqProducer
  | SpawnOutboundDelivery string
  | BuildProduceCore
  | SpawnAclRefresh
  | SpawnShutdownSignal
  | BuildServerTls
  | BindListener
  | Serve

definition spawn_outbound_subscriptions :: "'q gateway_config \<Rightarrow> startup_effect list" where
  "spawn_outbound_subscriptions c =
     (if gc_outbound c = [] then []
      else BuildDlqProducer # map (\<lambda>s. SpawnOutboundDelivery (cs_name s)) (gc_outbound c))"

definition run_effects :: "'q gateway_config \<Rightarrow> startup_effect list" where
  "run_effects c =
     [EnsureDedupTopic, EnsureMembershipTopic, SpawnMembershipReader, BuildPublisher, SetMembership,
      SpawnReadinessWatcher, SetEngine, SpawnOwnershipConsumer,
      BuildForwarder (gc_tls c \<noteq> None), BuildCodec (gc_schema_registry_url c \<noteq> None)]
     @ spawn_outbound_subscriptions c
     @ [BuildProduceCore]
     @ (if gc_authz c \<noteq> None then [SpawnAclRefresh] else [])
     @ [SpawnShutdownSignal]
     @ (if gc_tls c \<noteq> None then [BuildServerTls] else [])
     @ [BindListener, Serve]"

text \<open>The first effect that fails ends \<open>run\<close>: the effects that took place, and the error.\<close>

fun run_until_failure :: "(startup_effect \<Rightarrow> string option) \<Rightarrow> startup_effect list \<Rightarrow> startup_effect list \<times> (string + unit)" where
  "run_until_failure fails [] = ([], Ok ())"
| "run_until_failure fails (x # xs) =
     (case fails x of
        Some e \<Rightarrow> ([], Err e)
      | None \<Rightarrow> (case run_until_failure fails xs of (did, r) \<Rightarrow> (x # did, r)))"

section \<open>Readiness\<close>

datatype watcher_pc = WatchPoll | WatchStore bool | WatchWait | WatchStop | WatchDone

datatype task_pc = TaskRunning | TaskReturned | TaskFailed | TaskCancel | TaskDone

datatype signal_pc = SignalWait | SignalReceived | SignalCancel | SignalDone

record lifecycle =
  lc_ready :: bool
  lc_cancelled :: bool
  lc_warm :: bool
  lc_watcher :: watcher_pc
  lc_tasks :: "task_pc list"
  lc_signal :: signal_pc

definition set_ready :: "lifecycle \<Rightarrow> lifecycle" where
  "set_ready s = s\<lparr>lc_ready := True\<rparr>"

definition set_not_ready :: "lifecycle \<Rightarrow> lifecycle" where
  "set_not_ready s = s\<lparr>lc_ready := False\<rparr>"

definition healthz :: nat where "healthz = 200"

definition readyz :: "lifecycle \<Rightarrow> nat" where
  "readyz s = (if lc_ready s then 200 else 503)"

text \<open>
  One step of the watcher. \<open>prefer_cancel\<close> is the branch the unbiased \<open>select!\<close>
  takes when both are ready; without a cancellation only the sleep can end.
\<close>

definition watcher_step :: "bool \<Rightarrow> lifecycle \<Rightarrow> lifecycle" where
  "watcher_step prefer_cancel s =
     (case lc_watcher s of
        WatchPoll \<Rightarrow> s\<lparr>lc_watcher := WatchStore (lc_warm s)\<rparr>
      | WatchStore warm \<Rightarrow> (if warm then set_ready s else set_not_ready s)\<lparr>lc_watcher := WatchWait\<rparr>
      | WatchWait \<Rightarrow> s\<lparr>lc_watcher := (if lc_cancelled s \<and> prefer_cancel then WatchStop else WatchPoll)\<rparr>
      | WatchStop \<Rightarrow> (set_not_ready s)\<lparr>lc_watcher := WatchDone\<rparr>
      | WatchDone \<Rightarrow> s)"

text \<open>The tail of the membership reader, the ownership consumer and every outbound delivery task.\<close>

definition task_step :: "nat \<Rightarrow> lifecycle \<Rightarrow> lifecycle" where
  "task_step i s =
     (case lc_tasks s ! i of
        TaskRunning \<Rightarrow> s\<lparr>lc_tasks := (lc_tasks s)[i := TaskReturned]\<rparr>
      | TaskReturned \<Rightarrow> s\<lparr>lc_tasks := (lc_tasks s)[i := (if lc_cancelled s then TaskDone else TaskFailed)]\<rparr>
      | TaskFailed \<Rightarrow> (set_not_ready s)\<lparr>lc_tasks := (lc_tasks s)[i := TaskCancel]\<rparr>
      | TaskCancel \<Rightarrow> s\<lparr>lc_cancelled := True, lc_tasks := (lc_tasks s)[i := TaskDone]\<rparr>
      | TaskDone \<Rightarrow> s)"

definition signal_step :: "lifecycle \<Rightarrow> lifecycle" where
  "signal_step s =
     (case lc_signal s of
        SignalWait \<Rightarrow> s\<lparr>lc_signal := SignalReceived\<rparr>
      | SignalReceived \<Rightarrow> (set_not_ready s)\<lparr>lc_signal := SignalCancel\<rparr>
      | SignalCancel \<Rightarrow> s\<lparr>lc_cancelled := True, lc_signal := SignalDone\<rparr>
      | SignalDone \<Rightarrow> s)"

definition process_start :: "nat \<Rightarrow> lifecycle" where
  "process_start n =
     \<lparr>lc_ready = False, lc_cancelled = False, lc_warm = False, lc_watcher = WatchPoll,
      lc_tasks = replicate n TaskRunning, lc_signal = SignalWait\<rparr>"

text \<open>The interleavings, with the dedup store warming up and cooling down in between.\<close>

inductive lifecycle_run :: "nat \<Rightarrow> lifecycle \<Rightarrow> bool" for n where
  started: "lifecycle_run n (process_start n)"
| watched: "lifecycle_run n s \<Longrightarrow> lifecycle_run n (watcher_step b s)"
| worked: "\<lbrakk>lifecycle_run n s; i < n\<rbrakk> \<Longrightarrow> lifecycle_run n (task_step i s)"
| signalled: "lifecycle_run n s \<Longrightarrow> lifecycle_run n (signal_step s)"
| warmed: "lifecycle_run n s \<Longrightarrow> lifecycle_run n (s\<lparr>lc_warm := w\<rparr>)"

section \<open>The listener\<close>

record poll_view =
  pv_cancelled :: bool
  pv_joined :: "nat option"
  pv_accepted :: "(string + nat) option"

text \<open>
  The accept loop, common to both listeners: the \<open>select!\<close> is biased, a cancelled
  token ends it, then finished connections are reaped, then one is accepted. The
  result is the connections still open when it ends, and those reaped.
\<close>

fun accept_loop :: "poll_view list \<Rightarrow> nat list \<Rightarrow> nat list \<Rightarrow> nat list \<times> nat list" where
  "accept_loop [] live joined = (live, joined)"
| "accept_loop (v # vs) live joined =
     (if pv_cancelled v then (live, joined)
      else case (if live = [] then None else pv_joined v) of
        Some c \<Rightarrow> (if c \<in> set live then accept_loop vs (remove1 c live) (c # joined) else accept_loop vs live joined)
      | None \<Rightarrow>
          (case pv_accepted v of
             Some (Ok c) \<Rightarrow> accept_loop vs (c # live) joined
           | _ \<Rightarrow> accept_loop vs live joined))"

text \<open>\<open>in_time\<close> are the connections that end within the eight seconds; the rest is aborted.\<close>

definition drain_connections :: "nat set \<Rightarrow> nat list \<Rightarrow> nat list \<times> nat list" where
  "drain_connections in_time live = (filter (\<lambda>c. c \<in> in_time) live, filter (\<lambda>c. c \<notin> in_time) live)"

record served_connections =
  sv_joined :: "nat list"
  sv_drained :: "nat list"
  sv_aborted :: "nat list"

definition serve_listener :: "nat set \<Rightarrow> poll_view list \<Rightarrow> served_connections" where
  "serve_listener in_time views =
     (case accept_loop views [] [] of
        (live, joined) \<Rightarrow>
          (case drain_connections in_time live of
             (drained, aborted) \<Rightarrow> \<lparr>sv_joined = joined, sv_drained = drained, sv_aborted = aborted\<rparr>))"

text \<open>The identity of the TLS peer: the subject of its leaf certificate, when it presented one.\<close>

definition peer_principal :: "(bytes \<Rightarrow> string option) \<Rightarrow> bytes list option \<Rightarrow> principal option" where
  "peer_principal extract_principal certs =
     Option.bind certs (\<lambda>chain.
     Option.bind (case chain of [] \<Rightarrow> None | c # _ \<Rightarrow> Some c) (\<lambda>leaf.
     Option.bind (extract_principal leaf) (\<lambda>name.
       Some \<lparr>p_name = name, p_auth_method = MTls, p_groups = []\<rparr>)))"

datatype connection = PlainConnection string | TlsConnection string "bytes list option"

definition request_extensions :: "(bytes \<Rightarrow> string option) \<Rightarrow> connection \<Rightarrow> string option \<times> principal option" where
  "request_extensions extract_principal c =
     (case c of
        PlainConnection peer \<Rightarrow> (Some peer, None)
      | TlsConnection peer certs \<Rightarrow> (Some peer, peer_principal extract_principal certs))"

text \<open>\<open>None\<close> is the panic of the assertion.\<close>

definition reload_tick :: "rat \<Rightarrow> rat option" where
  "reload_tick interval = (if 0 < interval then Some interval else None)"

text \<open>The watcher of the TLS material: a reload that fails keeps the configuration in use.\<close>

definition reload_tls :: "('k \<Rightarrow> string + 'k) \<Rightarrow> 'k \<Rightarrow> 'k" where
  "reload_tls load current = (case load current of Ok fresh \<Rightarrow> fresh | Err _ \<Rightarrow> current)"

section \<open>Lemmas\<close>

lemma run_until_failure_prefix:
  "run_until_failure fails xs = (did, r) \<Longrightarrow> \<exists>rest. xs = did @ rest"
  by (induction xs arbitrary: did) (auto split: option.splits prod.splits)

lemma prefix_precedes:
  assumes "xs = ys @ b # zs" "a \<in> set ys" "b \<notin> set ys" "xs = did @ rest" "b \<in> set did"
  shows "a \<in> set did"
proof -
  have "length ys < length did"
  proof (rule ccontr)
    assume "\<not> length ys < length did"
    hence "did = take (length did) ys" using assms(1,4) by (metis append_eq_conv_conj not_less take_append diff_is_0_eq' take0 append_Nil2)
    hence "set did \<subseteq> set ys" by (metis set_take_subset)
    thus False using assms(3,5) by blast
  qed
  hence "take (length ys) did = ys" using assms(1,4) by (metis append_eq_append_conv_if append_eq_conv_conj less_or_eq_imp_le take_append)
  thus ?thesis using assms(2) by (metis in_set_takeD)
qed

lemma startup_order:
  assumes "run_until_failure fails (run_effects c) = (did, r)"
  shows "BuildPublisher \<in> set did \<Longrightarrow> EnsureMembershipTopic \<in> set did \<and> EnsureDedupTopic \<in> set did"
    and "SpawnOwnershipConsumer \<in> set did \<Longrightarrow> SetMembership \<in> set did \<and> SetEngine \<in> set did"
    and "Serve \<in> set did \<Longrightarrow> SpawnReadinessWatcher \<in> set did \<and> SpawnShutdownSignal \<in> set did \<and> BuildProduceCore \<in> set did"
proof -
  obtain rest where e: "run_effects c = did @ rest" using run_until_failure_prefix[OF assms] by blast
  have out: "x \<notin> set (spawn_outbound_subscriptions c)" if "x = Serve" for x
    using that by (auto simp: spawn_outbound_subscriptions_def)
  show "BuildPublisher \<in> set did \<Longrightarrow> EnsureMembershipTopic \<in> set did \<and> EnsureDedupTopic \<in> set did"
    using prefix_precedes[OF _ _ _ e, of "[EnsureDedupTopic, EnsureMembershipTopic, SpawnMembershipReader]" BuildPublisher]
    by (auto simp: run_effects_def)
  show "SpawnOwnershipConsumer \<in> set did \<Longrightarrow> SetMembership \<in> set did \<and> SetEngine \<in> set did"
    using prefix_precedes[OF _ _ _ e, of "[EnsureDedupTopic, EnsureMembershipTopic, SpawnMembershipReader, BuildPublisher, SetMembership,
      SpawnReadinessWatcher, SetEngine]" SpawnOwnershipConsumer]
    by (auto simp: run_effects_def)
  have s: "run_effects c = butlast (run_effects c) @ Serve # []" "Serve \<notin> set (butlast (run_effects c))"
    "{SpawnReadinessWatcher, SpawnShutdownSignal, BuildProduceCore} \<subseteq> set (butlast (run_effects c))"
    using out by (auto simp: run_effects_def butlast_append)
  show "Serve \<in> set did \<Longrightarrow> SpawnReadinessWatcher \<in> set did \<and> SpawnShutdownSignal \<in> set did \<and> BuildProduceCore \<in> set did"
    using prefix_precedes[OF s(1) _ s(2) e] s(3) by blast
qed

lemma task_step_frame [simp]: "lc_watcher (task_step i s) = lc_watcher s" "lc_warm (task_step i s) = lc_warm s"
  by (simp_all add: task_step_def set_not_ready_def split: task_pc.split)

lemma task_step_monotone: "lc_ready (task_step i s) \<Longrightarrow> lc_ready s" "lc_cancelled s \<Longrightarrow> lc_cancelled (task_step i s)"
  by (simp_all add: task_step_def set_not_ready_def split: task_pc.splits)

lemma signal_step_frame [simp]: "lc_watcher (signal_step s) = lc_watcher s" "lc_warm (signal_step s) = lc_warm s"
  by (simp_all add: signal_step_def set_not_ready_def split: signal_pc.split)

lemma signal_step_monotone: "lc_ready (signal_step s) \<Longrightarrow> lc_ready s" "lc_cancelled s \<Longrightarrow> lc_cancelled (signal_step s)"
  by (simp_all add: signal_step_def set_not_ready_def split: signal_pc.splits)

lemma lifecycle_inv:
  "lifecycle_run n s \<Longrightarrow> (lc_watcher s = WatchStop \<longrightarrow> lc_cancelled s) \<and> (lc_watcher s = WatchDone \<longrightarrow> lc_cancelled s \<and> \<not> lc_ready s)"
proof (induction rule: lifecycle_run.induct)
  case started
  show ?case by (simp add: process_start_def)
next
  case (watched s b)
  thus ?case by (auto simp: watcher_step_def set_ready_def set_not_ready_def split: watcher_pc.splits)
next
  case (worked s i)
  thus ?case using task_step_monotone[where i = i and s = s] by auto
next
  case (signalled s)
  thus ?case using signal_step_monotone[of s] by auto
qed simp

text \<open>After a cancellation four steps of the watcher, each taking the cancelled branch, bring it to its end.\<close>

lemma watcher_stops:
  assumes "lc_cancelled s" shows "lc_watcher ((watcher_step True ^^ 4) s) = WatchDone"
proof -
  have c: "lc_cancelled (watcher_step True s) = lc_cancelled s" for s
    by (simp add: watcher_step_def set_ready_def set_not_ready_def split: watcher_pc.split)
  have w: "lc_watcher (watcher_step True s) = (case lc_watcher s of WatchPoll \<Rightarrow> WatchStore (lc_warm s) | WatchStore _ \<Rightarrow> WatchWait
      | WatchWait \<Rightarrow> WatchStop | WatchStop \<Rightarrow> WatchDone | WatchDone \<Rightarrow> WatchDone)" if "lc_cancelled s" for s
    using that by (simp add: watcher_step_def set_ready_def set_not_ready_def split: watcher_pc.split)
  show ?thesis using assms by (cases "lc_watcher s") (simp_all add: eval_nat_numeral c w)
qed

text \<open>A poll that finds the store cold turns readiness off, and only a poll that found it warm turns it on.\<close>

lemma readiness_rises_only_when_warm:
  assumes "\<not> lc_ready s"
  shows "lc_ready (watcher_step b s) \<Longrightarrow> lc_watcher s = WatchStore True"
    and "\<not> lc_ready (task_step i s)" "\<not> lc_ready (signal_step s)"
  using assms task_step_monotone(1)[where i = i and s = s] signal_step_monotone(1)[of s]
  by (auto simp: watcher_step_def set_ready_def set_not_ready_def split: watcher_pc.splits if_splits)

text \<open>
  Shutting down does not keep the flag down: a poll in flight can raise it again
  after a failed task lowered it and cancelled the others, until the watcher sees
  the cancellation.
\<close>

lemma readiness_raised_after_cancellation:
  "\<exists>s. lifecycle_run 1 s \<and> lc_cancelled s \<and> lc_tasks s = [TaskDone] \<and> readyz s = 200"
proof -
  let ?s0 = "(process_start 1)\<lparr>lc_warm := True\<rparr>"
  let ?s = "watcher_step True (task_step 0 (task_step 0 (task_step 0 (task_step 0 (watcher_step True ?s0)))))"
  have "lifecycle_run 1 ?s" by (intro lifecycle_run.intros) simp_all
  moreover have "lc_cancelled ?s \<and> lc_tasks ?s = [TaskDone] \<and> readyz ?s = 200"
    by (simp add: process_start_def watcher_step_def task_step_def set_ready_def set_not_ready_def readyz_def)
  ultimately show ?thesis by blast
qed

fun accepted_of :: "poll_view list \<Rightarrow> nat list \<Rightarrow> nat list" where
  "accepted_of [] live = []"
| "accepted_of (v # vs) live =
     (if pv_cancelled v then []
      else case (if live = [] then None else pv_joined v) of
        Some c \<Rightarrow> accepted_of vs (if c \<in> set live then remove1 c live else live)
      | None \<Rightarrow> (case pv_accepted v of Some (Ok c) \<Rightarrow> c # accepted_of vs (c # live) | _ \<Rightarrow> accepted_of vs live))"

lemma accept_loop_accounts:
  "accept_loop vs live joined = (live', joined') \<Longrightarrow>
   mset live' + mset joined' = mset live + mset joined + mset (accepted_of vs live)"
  by (induction vs live joined rule: accept_loop.induct) (auto split: if_splits option.splits sum.splits)

section \<open>Properties\<close>

text \<open>
  C40: Once the readiness watcher has stopped, the replica stays out of rotation: whatever the other tasks and the
  dedup store still do, the process is shutting down and the readiness endpoint answers 503.
\<close>

theorem stopped_replica_not_ready:
  assumes "lifecycle_run n s" "lc_watcher s = WatchDone"
  shows "lc_cancelled s \<and> readyz s = 503"
  using lifecycle_inv[OF assms(1)] assms(2) by (simp add: readyz_def)

theorem stopped_replica_not_ready_witness:
  "\<exists>s. lifecycle_run 0 s \<and> lc_watcher s = WatchDone \<and> readyz s = 503"
proof -
  let ?w = "watcher_step True"
  let ?s = "?w (?w (signal_step (signal_step (signal_step (?w (?w ((process_start 0)\<lparr>lc_warm := True\<rparr>)))))))"
  have r: "lifecycle_run 0 ?s" by (intro lifecycle_run.intros)
  have d: "lc_watcher ?s = WatchDone"
    by (simp add: process_start_def watcher_step_def signal_step_def set_ready_def set_not_ready_def)
  from stopped_replica_not_ready[OF r d] r d show ?thesis by blast
qed

text \<open>
  C39: Where a caller's identity comes from: the handlers see a principal only if the configured validator accepted the
  request's bearer token, or the connection is TLS and the principal is the subject of the leaf certificate the peer
  presented. A plaintext connection by itself never carries one.
\<close>

theorem principal_provenance:
  assumes "resolve_principal validator now hs (snd (request_extensions extract_principal c)) = Some p"
  shows "(\<exists>validate token. validator = Some validate \<and> bearer_token hs = Some token \<and> validate token now = Ok p)
    \<or> (\<exists>peer leaf chain name. c = TlsConnection peer (Some (leaf # chain)) \<and> extract_principal leaf = Some name
         \<and> p = \<lparr>p_name = name, p_auth_method = MTls, p_groups = []\<rparr>)"
  using assms
  by (auto simp: resolve_principal_def request_extensions_def peer_principal_def
      split: option.splits sum.splits connection.splits list.splits Option.bind_splits)

theorem principal_provenance_witness:
  "resolve_principal None 0 [] (snd (request_extensions (\<lambda>_. Some ''CN=a'') (TlsConnection ''h:1'' (Some [[1]]))))
     = Some \<lparr>p_name = ''CN=a'', p_auth_method = MTls, p_groups = []\<rparr>"
proof -
  have r: "resolve_principal None 0 [] (snd (request_extensions (\<lambda>_. Some ''CN=a'') (TlsConnection ''h:1'' (Some [[1]]))))
     = Some \<lparr>p_name = ''CN=a'', p_auth_method = MTls, p_groups = []\<rparr>"
    by (simp add: resolve_principal_def request_extensions_def peer_principal_def)
  from principal_provenance[OF r] r show ?thesis by blast
qed

text \<open>
  The listener loses no connection: when it returns, every connection it accepted has ended by itself, ended
  within the drain deadline, or was aborted at it, exactly once.
\<close>

theorem serve_accounts_connections:
  "mset (sv_joined (serve_listener in_time views)) + mset (sv_drained (serve_listener in_time views))
     + mset (sv_aborted (serve_listener in_time views)) = mset (accepted_of views [])"
proof -
  obtain opn joined where l: "accept_loop views [] [] = (opn, joined)" by fastforce
  have "mset (filter (\<lambda>c. c \<in> in_time) opn) + mset (filter (\<lambda>c. c \<notin> in_time) opn) = mset opn"
    by (simp add: multiset_partition[symmetric])
  thus ?thesis using accept_loop_accounts[OF l] by (simp add: serve_listener_def l drain_connections_def ac_simps)
qed

end
