(* ===== verification/Gw_Protocol.thy ===== *)
theory Gw_Protocol
  imports Gw_Filter
begin

text \<open>
  The messages of the SDK conformance protocol (\<open>sdk-conformance/src/protocol.rs\<close>):
  commands, responses and errors. Their JSON text is written and read by the
  code that serde generates and is a parameter of the programs that exchange them;
  what the programs themselves put into JSON values (headers and errors) is
  converted here. Objects are ordered maps, so literals list their keys in order.
  Base64 and JSON parsing are the fields of \<open>adapter_lib\<close>.
\<close>

definition CONTRACT_MAJOR :: nat where "CONTRACT_MAJOR = 1"
definition CONTRACT_MINOR_V1_0 :: nat where "CONTRACT_MINOR_V1_0 = 0"
definition CONTRACT_MINOR_QUEUE_RPC :: nat where "CONTRACT_MINOR_QUEUE_RPC = 1"

lemmas contract_versions = CONTRACT_MAJOR_def CONTRACT_MINOR_V1_0_def CONTRACT_MINOR_QUEUE_RPC_def

record wire_header =
  wh_name :: string
  wh_value_b64 :: "string option"

record wire_message =
  wm_topic :: string
  wm_partition :: int
  wm_offset :: int
  wm_value_b64 :: string
  wm_headers :: "wire_header list"

datatype wire_ack_type = WireAccept | WireRelease | WireReject

record wire_ack_entry =
  wa_message_id :: string
  wa_ack_type :: wire_ack_type

record wire_renew_entry =
  wr_message_id :: string

record wire_event =
  we_id :: string
  we_source :: string
  we_type :: string
  we_specversion :: string
  we_datacontenttype :: "string option"
  we_data_b64 :: string

datatype filter_op = EqualsOp

record wire_filter =
  wf_path :: string
  wf_op :: filter_op
  wf_value :: json

datatype command =
    CmdHello
  | CmdConfigure string "string option"
  | CmdPublish string string "wire_header list"
  | CmdPublishEvent string wire_event
  | CmdSubscribe "string list" string "wire_filter option"
  | CmdNextMessage nat
  | CmdQueueAcquire string string nat nat string
  | CmdQueueAck string
  | CmdQueueAcknowledge string "wire_ack_entry list"
  | CmdQueueRenew string "wire_renew_entry list"
  | CmdDbConnect string
  | CmdAuthSignIn string string
  | CmdBlobPut string string
  | CmdBlobGet string

datatype error_kind =
    KindTransport | KindUnauthenticated | KindInvalidArgument | KindNotFound | KindServerError | KindUnimplemented

record adapter_error =
  wx_kind :: error_kind
  wx_module :: "string option"
  wx_gated_on :: "string option"
  wx_message :: "string option"

datatype response =
    RespHello nat nat string
  | RespOk json
  | RespMessage wire_message
  | RespError adapter_error

definition adapter_unimplemented :: "string \<Rightarrow> string \<Rightarrow> adapter_error" where
  "adapter_unimplemented m gated_on =
     \<lparr>wx_kind = KindUnimplemented, wx_module = Some m, wx_gated_on = Some gated_on, wx_message = None\<rparr>"

definition adapter_with_message :: "error_kind \<Rightarrow> string \<Rightarrow> adapter_error" where
  "adapter_with_message kind message =
     \<lparr>wx_kind = kind, wx_module = None, wx_gated_on = None, wx_message = Some message\<rparr>"

text \<open>A text split at the last occurrence of a character.\<close>

definition rsplit_once :: "char \<Rightarrow> string \<Rightarrow> (string \<times> string) option" where
  "rsplit_once c s =
     (if c \<in> set s
      then Some (rev (tl (dropWhile (\<lambda>x. x \<noteq> c) (rev s))), rev (takeWhile (\<lambda>x. x \<noteq> c) (rev s)))
      else None)"

lemma rsplit_once_last:
  assumes "c \<notin> set b"
  shows "rsplit_once c (a @ c # b) = Some (a, b)"
proof -
  have "takeWhile (\<lambda>x. x \<noteq> c) (xs @ c # ys) = xs \<and> dropWhile (\<lambda>x. x \<noteq> c) (xs @ c # ys) = c # ys"
    if "c \<notin> set xs" for xs ys
    using that by (induction xs) auto
  from this[of "rev b" "rev a"] assms show ?thesis by (simp add: rsplit_once_def)
qed

section \<open>JSON values\<close>

definition json_int :: "int \<Rightarrow> json" where
  "json_int n = JNumber (if 0 \<le> n then PosInt (nat n) else NegInt n)"

definition json_opt :: "string option \<Rightarrow> json" where
  "json_opt v = (case v of None \<Rightarrow> JNull | Some s \<Rightarrow> JString s)"

definition header_to_json :: "wire_header \<Rightarrow> json" where
  "header_to_json h = JObject [(''name'', JString (wh_name h)), (''value_b64'', json_opt (wh_value_b64 h))]"

fun kind_name :: "error_kind \<Rightarrow> string" where
  "kind_name KindTransport = ''transport''"
| "kind_name KindUnauthenticated = ''unauthenticated''"
| "kind_name KindInvalidArgument = ''invalid_argument''"
| "kind_name KindNotFound = ''not_found''"
| "kind_name KindServerError = ''server_error''"
| "kind_name KindUnimplemented = ''unimplemented''"

definition present_field :: "string \<Rightarrow> string option \<Rightarrow> (string \<times> json) list" where
  "present_field name v = (case v of None \<Rightarrow> [] | Some s \<Rightarrow> [(name, JString s)])"

definition adapter_error_to_json :: "adapter_error \<Rightarrow> json" where
  "adapter_error_to_json e =
     JObject (present_field ''gated_on'' (wx_gated_on e) @ [(''kind'', JString (kind_name (wx_kind e)))]
       @ present_field ''message'' (wx_message e) @ present_field ''module'' (wx_module e))"

record adapter_lib =
  al_encode :: "bytes \<Rightarrow> string"
  al_decode :: "string \<Rightarrow> string + bytes"
  al_from_slice :: "bytes \<Rightarrow> json option"

text \<open>
  The standard Base64 alphabet with canonical padding: a text decodes exactly if it is the encoding of the result.
\<close>

definition base64_canonical :: "adapter_lib \<Rightarrow> bool" where
  "base64_canonical al \<longleftrightarrow> (\<forall>x v. al_decode al x = Ok v \<longleftrightarrow> x = al_encode al v)"

end
