(* ===== verification/Gw_MockAdapter.thy ===== *)
theory Gw_MockAdapter
  imports Gw_Protocol
begin

text \<open>
  The reference adapter of the conformance harness (\<open>sdk-conformance/src/mock_adapter.rs\<close>):
  one function per operation on the state \<open>mock_adapter\<close>, the dispatch \<open>mock_handle\<close> and the
  loop \<open>run_stdio\<close> over the lines of its input. A mutable reference into a message is an update
  of that message in place. A session that an operation has checked is passed on, so the lookups
  the code repeats cannot fail. The number of stored messages fits an \<open>i64\<close> and a \<open>usize\<close> holds
  a \<open>u32\<close>, so the conversions the code expects to succeed do.
\<close>

section \<open>State\<close>

datatype queue_message_state = QAvailable | QAcquired | QAccepted | QRejected

record queue_delivery_state =
  qd_state :: queue_message_state
  qd_session_id :: "string option"
  qd_delivery_count :: nat

record stored_message =
  sm_topic :: string
  sm_partition :: int
  sm_offset :: int
  sm_value_b64 :: string
  sm_headers :: "wire_header list"
  sm_queue_states :: "(string, queue_delivery_state) hashmap"

record adapter_session =
  as_topic :: string
  as_group :: string
  as_max_messages :: nat

record adapter_subscription =
  ab_topics :: "string list"
  ab_filter :: "wire_filter option"
  ab_next_index :: nat

datatype fault_mode = NoFault | WrongPublish | WrongConfigure

record mock_adapter =
  ma_endpoint :: string
  ma_bearer :: "string option"
  ma_messages :: "stored_message list"
  ma_subscription :: "adapter_subscription option"
  ma_fault_mode :: fault_mode
  ma_contract_minor :: nat
  ma_next_session_id :: nat
  ma_queue_sessions :: "(string, adapter_session) hashmap"

definition mock_adapter_default :: mock_adapter where
  "mock_adapter_default =
     \<lparr>ma_endpoint = ''mock://gateway'', ma_bearer = None, ma_messages = [], ma_subscription = None,
      ma_fault_mode = NoFault, ma_contract_minor = CONTRACT_MINOR_V1_0, ma_next_session_id = 1, ma_queue_sessions = []\<rparr>"

definition with_fault_mode :: "fault_mode \<Rightarrow> mock_adapter" where
  "with_fault_mode fault = mock_adapter_default\<lparr>ma_fault_mode := fault\<rparr>"

definition with_contract_minor :: "nat \<Rightarrow> fault_mode \<Rightarrow> mock_adapter" where
  "with_contract_minor minor fault = mock_adapter_default\<lparr>ma_fault_mode := fault, ma_contract_minor := minor\<rparr>"

definition invalid_argument :: "string \<Rightarrow> response" where
  "invalid_argument message = RespError (adapter_with_message KindInvalidArgument message)"

section \<open>Publishing and subscribing\<close>

definition publish_response :: "int \<Rightarrow> int \<Rightarrow> bool \<Rightarrow> response" where
  "publish_response p offset deduplicated =
     RespOk (JObject [(''deduplicated'', JBool deduplicated), (''offset'', json_int offset), (''partition'', json_int p)])"

definition mock_publish ::
    "string \<Rightarrow> string \<Rightarrow> wire_header list \<Rightarrow> mock_adapter \<Rightarrow> response \<times> mock_adapter" where
  "mock_publish topic value_b64 headers a =
     (if ma_fault_mode a = WrongPublish then (publish_response 9 999 True, a)
      else if starts_with ''unreachable://'' (ma_endpoint a)
      then (RespError (adapter_with_message KindTransport ''endpoint unreachable''), a)
      else if topic = [] then (invalid_argument ''topic is required'', a)
      else if topic = ''__missing_topic'' then (RespError (adapter_with_message KindNotFound ''topic not found''), a)
      else
        let offset = int (length (filter (\<lambda>m. sm_topic m = topic) (ma_messages a))) in
        (publish_response 0 offset False,
         a\<lparr>ma_messages := ma_messages a @
             [\<lparr>sm_topic = topic, sm_partition = 0, sm_offset = offset, sm_value_b64 = value_b64,
               sm_headers = headers, sm_queue_states = []\<rparr>]\<rparr>))"

definition text_header :: "adapter_lib \<Rightarrow> string \<Rightarrow> string \<Rightarrow> wire_header" where
  "text_header al name v = \<lparr>wh_name = name, wh_value_b64 = Some (al_encode al (as_bytes v))\<rparr>"

definition mock_publish_event ::
    "adapter_lib \<Rightarrow> string \<Rightarrow> wire_event \<Rightarrow> mock_adapter \<Rightarrow> response \<times> mock_adapter" where
  "mock_publish_event al topic event a =
     (if we_id event = [] then (invalid_argument ''CloudEvent id is required'', a)
      else
        mock_publish topic (we_data_b64 event)
          ([text_header al ''ce_id'' (we_id event), text_header al ''ce_source'' (we_source event),
            text_header al ''ce_type'' (we_type event), text_header al ''ce_specversion'' (we_specversion event)]
           @ (case we_datacontenttype event of Some t \<Rightarrow> [text_header al ''content-type'' t] | None \<Rightarrow> [])) a)"

definition filter_field :: "string \<Rightarrow> string option" where
  "filter_field path = (if starts_with ''$.'' path then Some (drop 2 path) else None)"

definition identifier_segment :: "string \<Rightarrow> bool" where
  "identifier_segment segment =
     (case segment of
        [] \<Rightarrow> False
      | c # cs \<Rightarrow> (c = CHR ''_'' \<or> is_ascii_alphabetic c) \<and> list_all (\<lambda>c. c = CHR ''_'' \<or> is_ascii_alphanumeric c) cs)"

definition validate_filter :: "wire_filter \<Rightarrow> adapter_error option" where
  "validate_filter f =
     (if wf_op f \<noteq> EqualsOp then Some (adapter_with_message KindInvalidArgument ''only equals filters are supported'')
      else case filter_field (wf_path f) of
        None \<Rightarrow> Some (adapter_with_message KindInvalidArgument ''filter path must start with $.'')
      | Some field \<Rightarrow>
          if field = [] \<or> \<not> list_all identifier_segment (split_on CHR ''.'' field)
          then Some (adapter_with_message KindInvalidArgument ''filter path must contain identifier segments'')
          else (case wf_value f of
                  JArray _ \<Rightarrow> Some (adapter_with_message KindInvalidArgument ''filter value must be a string, number, boolean, or null'')
                | JObject _ \<Rightarrow> Some (adapter_with_message KindInvalidArgument ''filter value must be a string, number, boolean, or null'')
                | _ \<Rightarrow> None))"

definition mock_filter_matches :: "adapter_lib \<Rightarrow> wire_filter option \<Rightarrow> stored_message \<Rightarrow> bool" where
  "mock_filter_matches al filt m =
     (case filt of
        None \<Rightarrow> True
      | Some f \<Rightarrow>
          wf_op f = EqualsOp \<and>
          (case al_decode al (sm_value_b64 m) of
             Err _ \<Rightarrow> False
           | Ok bytes \<Rightarrow>
               (case al_from_slice al bytes of
                  None \<Rightarrow> False
                | Some v \<Rightarrow>
                    (case filter_field (wf_path f) of
                       None \<Rightarrow> False
                     | Some field \<Rightarrow>
                         (case v of JObject object \<Rightarrow> hm_get object field | _ \<Rightarrow> None) = Some (wf_value f)))))"

definition mock_subscribe :: "string list \<Rightarrow> wire_filter option \<Rightarrow> mock_adapter \<Rightarrow> response \<times> mock_adapter" where
  "mock_subscribe topics filt a =
     (case Option.bind filt validate_filter of
        Some e \<Rightarrow> (RespError e, a)
      | None \<Rightarrow>
          (RespOk (JObject []),
           a\<lparr>ma_subscription := Some \<lparr>ab_topics = topics, ab_filter = filt, ab_next_index = 0\<rparr>\<rparr>))"

definition stored_to_wire :: "stored_message \<Rightarrow> wire_message" where
  "stored_to_wire m =
     \<lparr>wm_topic = sm_topic m, wm_partition = sm_partition m, wm_offset = sm_offset m,
      wm_value_b64 = sm_value_b64 m, wm_headers = sm_headers m\<rparr>"

text \<open>The loop over the messages from the cursor on: the first match and the new cursor.\<close>

fun scan_messages ::
    "adapter_lib \<Rightarrow> adapter_subscription \<Rightarrow> stored_message list \<Rightarrow> stored_message option \<times> adapter_subscription" where
  "scan_messages al sub [] = (None, sub)"
| "scan_messages al sub (m # ms) =
     (let sub = sub\<lparr>ab_next_index := ab_next_index sub + 1\<rparr> in
      if sm_topic m \<notin> set (ab_topics sub) then scan_messages al sub ms
      else if \<not> mock_filter_matches al (ab_filter sub) m then scan_messages al sub ms
      else (Some m, sub))"

definition no_message :: response where
  "no_message = RespError (adapter_with_message KindNotFound ''no message available'')"

definition mock_next_message :: "adapter_lib \<Rightarrow> mock_adapter \<Rightarrow> response \<times> mock_adapter" where
  "mock_next_message al a =
     (case ma_subscription a of
        None \<Rightarrow> (invalid_argument ''subscribe before next_message'', a)
      | Some sub \<Rightarrow>
          (case scan_messages al sub (drop (ab_next_index sub) (ma_messages a)) of
             (m, sub) \<Rightarrow>
               (case m of Some m \<Rightarrow> RespMessage (stored_to_wire m) | None \<Rightarrow> no_message,
                a\<lparr>ma_subscription := Some sub\<rparr>)))"

section \<open>Queues\<close>

definition unimplemented_queues :: response where
  "unimplemented_queues = RespError (adapter_unimplemented ''queues'' ''gateway-sharegroup-rpc'')"

definition queue_message_id :: "stored_message \<Rightarrow> string" where
  "queue_message_id m = sm_topic m @ '':'' @ show_int (sm_partition m) @ '':'' @ show_int (sm_offset m)"

definition next_queue_session_id :: "mock_adapter \<Rightarrow> string \<times> mock_adapter" where
  "next_queue_session_id a =
     (''queue-session-'' @ show_nat (ma_next_session_id a),
      a\<lparr>ma_next_session_id := min (2 ^ 64 - 1) (ma_next_session_id a + 1)\<rparr>)"

definition acquirable :: "string \<Rightarrow> string \<Rightarrow> stored_message \<Rightarrow> bool" where
  "acquirable topic grp m \<longleftrightarrow>
     sm_topic m = topic \<and>
     (case hm_get (sm_queue_states m) grp of None \<Rightarrow> True | Some s \<Rightarrow> qd_state s = QAvailable)"

definition acquired_json :: "stored_message \<Rightarrow> nat \<Rightarrow> json" where
  "acquired_json m n =
     JObject [(''delivery_count'', json_int (int n)), (''headers'', JArray (map header_to_json (sm_headers m))),
       (''message_id'', JString (queue_message_id m)), (''offset'', json_int (sm_offset m)),
       (''partition'', json_int (sm_partition m)), (''topic'', JString (sm_topic m)),
       (''value_b64'', JString (sm_value_b64 m))]"

definition take_message :: "string \<Rightarrow> string \<Rightarrow> stored_message \<Rightarrow> json \<times> stored_message" where
  "take_message sid grp m =
     (let s = (case hm_get (sm_queue_states m) grp of
                 Some s \<Rightarrow> s
               | None \<Rightarrow> \<lparr>qd_state = QAvailable, qd_session_id = None, qd_delivery_count = 0\<rparr>);
          s = s\<lparr>qd_state := QAcquired, qd_session_id := Some sid,
                qd_delivery_count := min (2 ^ 32 - 1) (qd_delivery_count s + 1)\<rparr>
      in (acquired_json m (qd_delivery_count s), m\<lparr>sm_queue_states := hm_insert grp s (sm_queue_states m)\<rparr>))"

fun acquire_messages ::
    "string \<Rightarrow> string \<Rightarrow> string \<Rightarrow> nat \<Rightarrow> stored_message list \<Rightarrow> json list \<times> stored_message list" where
  "acquire_messages sid topic grp n [] = ([], [])"
| "acquire_messages sid topic grp n (m # ms) =
     (if n \<noteq> 0 \<and> acquirable topic grp m then
        (case take_message sid grp m of
           (j, m) \<Rightarrow> (case acquire_messages sid topic grp (n - 1) ms of (js, ms) \<Rightarrow> (j # js, m # ms)))
      else (case acquire_messages sid topic grp n ms of (js, ms) \<Rightarrow> (js, m # ms)))"

definition acquire_session ::
    "string \<Rightarrow> string \<Rightarrow> nat \<Rightarrow> string \<Rightarrow> mock_adapter \<Rightarrow> (string + string) \<times> mock_adapter" where
  "acquire_session topic grp maximum requested a =
     (let effective_max = min (max maximum 1) 500 in
      if requested = [] then
        (case next_queue_session_id a of
           (sid, a) \<Rightarrow>
             (Ok sid, a\<lparr>ma_queue_sessions := hm_insert sid \<lparr>as_topic = topic, as_group = grp, as_max_messages = effective_max\<rparr>
                         (ma_queue_sessions a)\<rparr>))
      else
        (case hm_get (ma_queue_sessions a) requested of
           None \<Rightarrow> Err ''queue session expired; re-acquire''
         | Some session \<Rightarrow>
             if as_topic session \<noteq> topic \<or> as_group session \<noteq> grp then
               Err ''group_id and topics are fixed when a queue session is created''
             else if maximum \<noteq> 0 \<and> effective_max \<noteq> as_max_messages session then
               Err ''max_messages is fixed when a queue session is created''
             else Ok requested, a))"

definition acquire_response :: "string \<Rightarrow> json list \<Rightarrow> response" where
  "acquire_response sid messages = RespOk (JObject [(''messages'', JArray messages), (''session_id'', JString sid)])"

definition mock_queue_acquire ::
    "string \<Rightarrow> string \<Rightarrow> nat \<Rightarrow> nat \<Rightarrow> string \<Rightarrow> mock_adapter \<Rightarrow> response \<times> mock_adapter" where
  "mock_queue_acquire topic grp maximum lock_duration_ms requested a =
     (if ma_contract_minor a < CONTRACT_MINOR_QUEUE_RPC then (unimplemented_queues, a)
      else if grp = [] then (invalid_argument ''queue group is required'', a)
      else if topic = [] then (invalid_argument ''queue topic is required'', a)
      else if lock_duration_ms \<noteq> 30000 then
        (invalid_argument ''queue lock_duration_ms must be 30000; per-acquire lock durations are not supported'', a)
      else
        (case acquire_session topic grp maximum requested a of
           (Err e, a) \<Rightarrow> (invalid_argument e, a)
         | (Ok sid, a) \<Rightarrow>
             (case acquire_messages sid topic grp (min (max maximum 1) 500) (ma_messages a) of
                (js, ms) \<Rightarrow> (acquire_response sid js, a\<lparr>ma_messages := ms\<rparr>))))"

text \<open>The state of a message that the session holds for its group, as an update of the message in place.\<close>

definition held_by :: "string \<Rightarrow> queue_delivery_state \<Rightarrow> bool" where
  "held_by sid s \<longleftrightarrow> qd_state s = QAcquired \<and> qd_session_id s = Some sid"

fun queue_state_mut ::
    "(queue_delivery_state \<Rightarrow> queue_delivery_state) \<Rightarrow> string \<Rightarrow> string \<Rightarrow> string \<Rightarrow> stored_message list \<Rightarrow>
     stored_message list option" where
  "queue_state_mut f grp sid mid [] = None"
| "queue_state_mut f grp sid mid (m # ms) =
     (if queue_message_id m = mid then
        (case hm_get (sm_queue_states m) grp of
           Some s \<Rightarrow>
             if held_by sid s then Some (m\<lparr>sm_queue_states := hm_insert grp (f s) (sm_queue_states m)\<rparr> # ms) else None
         | None \<Rightarrow> None)
      else map_option (\<lambda>ms. m # ms) (queue_state_mut f grp sid mid ms))"

definition settle_state :: "wire_ack_type \<Rightarrow> queue_delivery_state \<Rightarrow> queue_delivery_state" where
  "settle_state t s =
     s\<lparr>qd_state := (case t of WireAccept \<Rightarrow> QAccepted | WireRelease \<Rightarrow> QAvailable | WireReject \<Rightarrow> QRejected),
       qd_session_id := None\<rparr>"

definition entry_result :: "string \<Rightarrow> json \<Rightarrow> json" where
  "entry_result mid e = JObject [(''error'', e), (''message_id'', JString mid)]"

definition not_acquired_json :: json where
  "not_acquired_json = JObject [(''kind'', JString ''invalid_argument''), (''message'', JString ''queue message is not acquired'')]"

definition mock_queue_ack_result ::
    "string \<Rightarrow> string \<Rightarrow> wire_ack_entry \<Rightarrow> stored_message list \<Rightarrow> json \<times> stored_message list" where
  "mock_queue_ack_result grp sid e ms =
     (case queue_state_mut (settle_state (wa_ack_type e)) grp sid (wa_message_id e) ms of
        None \<Rightarrow> (entry_result (wa_message_id e) not_acquired_json, ms)
      | Some ms \<Rightarrow> (entry_result (wa_message_id e) JNull, ms))"

definition queue_renew_result :: "string \<Rightarrow> string \<Rightarrow> wire_renew_entry \<Rightarrow> stored_message list \<Rightarrow> json" where
  "queue_renew_result grp sid e ms =
     (if queue_state_mut (\<lambda>s. s) grp sid (wr_message_id e) ms \<noteq> None
      then entry_result (wr_message_id e) JNull
      else entry_result (wr_message_id e) not_acquired_json)"

fun ack_results ::
    "string \<Rightarrow> string \<Rightarrow> wire_ack_entry list \<Rightarrow> stored_message list \<Rightarrow> json list \<times> stored_message list" where
  "ack_results grp sid [] ms = ([], ms)"
| "ack_results grp sid (e # es) ms =
     (case mock_queue_ack_result grp sid e ms of
        (j, ms) \<Rightarrow> (case ack_results grp sid es ms of (js, ms) \<Rightarrow> (j # js, ms)))"

definition results_response :: "json list \<Rightarrow> response" where
  "results_response js = RespOk (JObject [(''results'', JArray js)])"

definition mock_queue_acknowledge :: "string \<Rightarrow> wire_ack_entry list \<Rightarrow> mock_adapter \<Rightarrow> response \<times> mock_adapter" where
  "mock_queue_acknowledge sid entries a =
     (if ma_contract_minor a < CONTRACT_MINOR_QUEUE_RPC then (unimplemented_queues, a)
      else if sid = [] then (invalid_argument ''queue session_id is required'', a)
      else case hm_get (ma_queue_sessions a) sid of
        None \<Rightarrow> (invalid_argument ''queue session expired; re-acquire'', a)
      | Some session \<Rightarrow>
          (case ack_results (as_group session) sid entries (ma_messages a) of
             (js, ms) \<Rightarrow> (results_response js, a\<lparr>ma_messages := ms\<rparr>)))"

definition mock_queue_renew :: "string \<Rightarrow> wire_renew_entry list \<Rightarrow> mock_adapter \<Rightarrow> response \<times> mock_adapter" where
  "mock_queue_renew sid entries a =
     (if ma_contract_minor a < CONTRACT_MINOR_QUEUE_RPC then (unimplemented_queues, a)
      else if sid = [] then (invalid_argument ''queue session_id is required'', a)
      else case hm_get (ma_queue_sessions a) sid of
        None \<Rightarrow> (invalid_argument ''queue session expired; re-acquire'', a)
      | Some session \<Rightarrow>
          (results_response (map (\<lambda>e. queue_renew_result (as_group session) sid e (ma_messages a)) entries), a))"

section \<open>Dispatch\<close>

definition configured_response :: "bool \<Rightarrow> response" where
  "configured_response b = RespOk (JObject [(''bearer_configured'', JBool b)])"

definition mock_configure :: "string \<Rightarrow> string option \<Rightarrow> mock_adapter \<Rightarrow> response \<times> mock_adapter" where
  "mock_configure endpoint bearer a =
     (let a = a\<lparr>ma_endpoint := endpoint, ma_bearer := bearer\<rparr>;
          bearer_configured = (ma_bearer a \<noteq> None) in
      (configured_response (if ma_fault_mode a = WrongConfigure then \<not> bearer_configured else bearer_configured), a))"

definition mock_handle :: "adapter_lib \<Rightarrow> command \<Rightarrow> mock_adapter \<Rightarrow> response \<times> mock_adapter" where
  "mock_handle al c a =
     (case c of
        CmdHello \<Rightarrow> (RespHello CONTRACT_MAJOR (ma_contract_minor a) ''mock'', a)
      | CmdConfigure endpoint bearer \<Rightarrow> mock_configure endpoint bearer a
      | CmdPublish topic value_b64 headers \<Rightarrow> mock_publish topic value_b64 headers a
      | CmdPublishEvent topic event \<Rightarrow> mock_publish_event al topic event a
      | CmdSubscribe topics grp filt \<Rightarrow> mock_subscribe topics filt a
      | CmdNextMessage timeout_ms \<Rightarrow> mock_next_message al a
      | CmdQueueAcquire topic grp maximum lock_duration_ms sid \<Rightarrow>
          mock_queue_acquire topic grp maximum lock_duration_ms sid a
      | CmdQueueAck message_id \<Rightarrow> (unimplemented_queues, a)
      | CmdQueueAcknowledge sid entries \<Rightarrow> mock_queue_acknowledge sid entries a
      | CmdQueueRenew sid entries \<Rightarrow> mock_queue_renew sid entries a
      | CmdDbConnect name \<Rightarrow> (RespError (adapter_unimplemented ''database'' ''chapter-f-control-plane''), a)
      | CmdAuthSignIn username password \<Rightarrow>
          (RespError (adapter_with_message KindUnauthenticated ''identity APIs are not part of contract v1''), a)
      | CmdBlobPut key value_b64 \<Rightarrow> (RespError (adapter_unimplemented ''blob'' ''chapter-b-blob-api''), a)
      | CmdBlobGet key \<Rightarrow> (RespError (adapter_unimplemented ''blob'' ''chapter-b-blob-api''), a))"

end
