(* ===== verification/Gw_Harness.thy ===== *)
theory Gw_Harness
  imports Gw_MockAdapter Gw_Startup
begin

text \<open>
  The conformance harness: contract versions and vectors (\<open>vectors.rs\<close>), the selection
  and execution of vectors against an adapter process (\<open>harness.rs\<close>), the live substrate
  it can start, the command line (\<open>bin/conformance.rs\<close>) and the line loop of the adapters
  (\<open>run_stdio\<close>). The file system, the adapter process, the broker and the text of the JSON
  lines are parameters; the adapter process acts on a world, in which spawning replaces
  the previous process, as the harness drops each before it starts the next.
\<close>

section \<open>Contract versions and vectors\<close>

datatype contract_version = ContractVersion (cv_major: nat) (cv_minor: nat)

instantiation contract_version :: linorder
begin

definition less_eq_contract_version :: "contract_version \<Rightarrow> contract_version \<Rightarrow> bool" where
  "v \<le> w \<longleftrightarrow> cv_major v < cv_major w \<or> (cv_major v = cv_major w \<and> cv_minor v \<le> cv_minor w)"

definition less_contract_version :: "contract_version \<Rightarrow> contract_version \<Rightarrow> bool" where
  "v < w \<longleftrightarrow> cv_major v < cv_major w \<or> (cv_major v = cv_major w \<and> cv_minor v < cv_minor w)"

instance
proof
  fix u v w :: contract_version
  show "v < w \<longleftrightarrow> v \<le> w \<and> \<not> w \<le> v" by (auto simp: less_eq_contract_version_def less_contract_version_def)
  show "v \<le> v" by (simp add: less_eq_contract_version_def)
  show "u \<le> v \<Longrightarrow> v \<le> w \<Longrightarrow> u \<le> w" by (auto simp: less_eq_contract_version_def)
  show "v \<le> w \<Longrightarrow> w \<le> v \<Longrightarrow> v = w" by (cases v; cases w) (auto simp: less_eq_contract_version_def)
  show "v \<le> w \<or> w \<le> v" by (auto simp: less_eq_contract_version_def)
qed

end

record vector_step =
  vs_name :: string
  vs_command :: command
  vs_expect :: response

record contract_vector =
  ve_id :: string
  ve_since :: contract_version
  ve_until :: "contract_version option"
  ve_live_only :: bool
  ve_steps :: "vector_step list"

definition satisfies :: "contract_version \<Rightarrow> contract_vector \<Rightarrow> bool" where
  "satisfies v vec =
     (if v < ve_since vec then False
      else case ve_until vec of Some w \<Rightarrow> v \<le> w | None \<Rightarrow> True)"

datatype vector_error = VectorIo string | VectorJson string string

record vector_files =
  vf_read_dir :: "string \<Rightarrow> string + (string + string) list"
  vf_read :: "string \<Rightarrow> string \<Rightarrow> string + string"
  vf_parse :: "string \<Rightarrow> string + contract_vector"

text \<open>The part of a file name after its last dot, if something precedes that dot.\<close>

definition extension :: "string \<Rightarrow> string option" where
  "extension name =
     (case rsplit_once CHR ''.'' name of
        Some (stem, ext) \<Rightarrow> if stem \<noteq> [] then Some ext else None
      | None \<Rightarrow> None)"

fun collect_results :: "('e + 'a) list \<Rightarrow> 'e + 'a list" where
  "collect_results [] = Ok []"
| "collect_results (r # rs) = and_then r (\<lambda>a. and_then (collect_results rs) (\<lambda>as. Ok (a # as)))"

fun read_vectors :: "vector_files \<Rightarrow> string \<Rightarrow> string list \<Rightarrow> vector_error + contract_vector list" where
  "read_vectors vf dir [] = Ok []"
| "read_vectors vf dir (name # names) =
     (if extension name \<noteq> Some ''json'' then read_vectors vf dir names
      else and_then (map_err VectorIo (vf_read vf dir name)) (\<lambda>source.
           and_then (map_err (VectorJson name) (vf_parse vf source)) (\<lambda>vec.
           and_then (read_vectors vf dir names) (\<lambda>vecs. Ok (vec # vecs)))))"

definition load_vectors :: "vector_files \<Rightarrow> string \<Rightarrow> vector_error + contract_vector list" where
  "load_vectors vf dir =
     and_then (map_err VectorIo (vf_read_dir vf dir)) (\<lambda>entries.
     and_then (map_err VectorIo (collect_results entries)) (\<lambda>names.
       read_vectors vf dir (sort names)))"

section \<open>The adapter process\<close>

datatype harness_error =
    HarnessVectors vector_error
  | HarnessSpawn string
  | MissingPipe string
  | HarnessIo string
  | HarnessJson string
  | AdapterTimeout
  | AdapterEof
  | AdapterProtocol string
  | BrokerStart string
  | HarnessAdmin string
  | HarnessClient string
  | GroupConfig string int string
  | GatewayInit gateway_error
  | GatewayServe string
  | GatewayTask string
  | SubstrateTimeout

record protocol_lib =
  pl_command_text :: "command \<Rightarrow> string"
  pl_read_command :: "string \<Rightarrow> string + command"
  pl_response_text :: "response \<Rightarrow> string"
  pl_read_response :: "string \<Rightarrow> string + response"
  pl_debug :: "response \<Rightarrow> string"

text \<open>
  Starting a program gives a process with its two pipes, if they are there. An exchange writes a line to it and
  reads a line back; \<open>None\<close> is the answer that does not come within the time limit of a call.
\<close>

record 'w adapter_os =
  os_spawn :: "string \<Rightarrow> string list \<Rightarrow> 'w \<Rightarrow> (string + bool \<times> bool) \<times> 'w"
  os_exchange :: "string \<Rightarrow> 'w \<Rightarrow> (string + string) option \<times> 'w"

definition adapter_spawn ::
    "'w adapter_os \<Rightarrow> string \<Rightarrow> string list \<Rightarrow> 'w \<Rightarrow> (harness_error + unit) \<times> 'w" where
  "adapter_spawn os adapter args w =
     (case os_spawn os adapter args w of
        (Err e, w) \<Rightarrow> (Err (HarnessSpawn e), w)
      | (Ok (stdin, stdout), w) \<Rightarrow>
          (if \<not> stdin then Err (MissingPipe ''stdin'') else if \<not> stdout then Err (MissingPipe ''stdout'') else Ok (), w))"

definition newline :: string where "newline = [CHR 0x0A]"

definition adapter_call ::
    "'w adapter_os \<Rightarrow> protocol_lib \<Rightarrow> command \<Rightarrow> 'w \<Rightarrow> (harness_error + response) \<times> 'w" where
  "adapter_call os pl c w =
     (case os_exchange os (pl_command_text pl c @ newline) w of
        (None, w) \<Rightarrow> (Err AdapterTimeout, w)
      | (Some (Err e), w) \<Rightarrow> (Err (HarnessIo e), w)
      | (Some (Ok line), w) \<Rightarrow>
          (if line = [] then Err AdapterEof else map_err HarnessJson (pl_read_response pl (trim_end line)), w))"

section \<open>Running vectors\<close>

datatype harness_substrate = External | Live

record harness_config =
  hc_adapter :: string
  hc_adapter_args :: "string list"
  hc_vectors_dir :: string
  hc_filter :: "string option"
  hc_endpoint :: string
  hc_substrate :: harness_substrate
  hc_live_compatible_only :: bool
record vector_failure =
  fa_vector_id :: string
  fa_step :: string
  fa_expected :: response
  fa_actual :: response

record skipped_vector =
  sk_vector_id :: string
  sk_reason :: string

record run_summary =
  rs_passed :: nat
  rs_failed :: "vector_failure list"
  rs_skipped :: "skipped_vector list"

definition is_success :: "run_summary \<Rightarrow> bool" where
  "is_success s \<longleftrightarrow> rs_failed s = []"

definition failure_at :: "contract_vector \<Rightarrow> string \<Rightarrow> response \<Rightarrow> response \<Rightarrow> vector_failure" where
  "failure_at vec step expected actual =
     \<lparr>fa_vector_id = ve_id vec, fa_step = step, fa_expected = expected, fa_actual = actual\<rparr>"

fun run_steps ::
    "'w adapter_os \<Rightarrow> protocol_lib \<Rightarrow> contract_vector \<Rightarrow> vector_step list \<Rightarrow> 'w \<Rightarrow>
     (harness_error + vector_failure option) \<times> 'w" where
  "run_steps os pl vec [] w = (Ok None, w)"
| "run_steps os pl vec (s # ss) w =
     (case adapter_call os pl (vs_command s) w of
        (Err e, w) \<Rightarrow> (Err e, w)
      | (Ok actual, w) \<Rightarrow>
          if actual \<noteq> vs_expect s then (Ok (Some (failure_at vec (vs_name s) (vs_expect s) actual)), w)
          else run_steps os pl vec ss w)"

definition hello_satisfies :: "contract_vector \<Rightarrow> response \<Rightarrow> bool" where
  "hello_satisfies vec r =
     (case r of RespHello major minor _ \<Rightarrow> satisfies (ContractVersion major minor) vec | _ \<Rightarrow> False)"

definition run_vector ::
    "'w adapter_os \<Rightarrow> protocol_lib \<Rightarrow> harness_config \<Rightarrow> string \<Rightarrow> contract_vector \<Rightarrow> 'w \<Rightarrow>
     (harness_error + vector_failure option) \<times> 'w" where
  "run_vector os pl hc endpoint vec w =
     (case adapter_spawn os (hc_adapter hc) (hc_adapter_args hc) w of
        (Err e, w) \<Rightarrow> (Err e, w)
      | (Ok _, w) \<Rightarrow>
          (case adapter_call os pl CmdHello w of
             (Err e, w) \<Rightarrow> (Err e, w)
           | (Ok hello, w) \<Rightarrow>
               if \<not> hello_satisfies vec hello then
                 (Ok (Some (failure_at vec ''hello'' (RespHello CONTRACT_MAJOR (cv_minor (ve_since vec)) ''<adapter>'') hello)), w)
               else
                 (case adapter_call os pl (CmdConfigure endpoint None) w of
                    (Err e, w) \<Rightarrow> (Err e, w)
                  | (Ok configured, w) \<Rightarrow>
                      if configured \<noteq> configured_response False then
                        (Ok (Some (failure_at vec ''configure'' (configured_response False) configured)), w)
                      else run_steps os pl vec (ve_steps vec) w)))"

fun run_each ::
    "'w adapter_os \<Rightarrow> protocol_lib \<Rightarrow> harness_config \<Rightarrow> string \<Rightarrow> contract_vector list \<Rightarrow> nat \<Rightarrow> vector_failure list \<Rightarrow> 'w \<Rightarrow>
     (harness_error + nat \<times> vector_failure list) \<times> 'w" where
  "run_each os pl hc endpoint [] passed failed w = (Ok (passed, failed), w)"
| "run_each os pl hc endpoint (vec # vecs) passed failed w =
     (case run_vector os pl hc endpoint vec w of
        (Err e, w) \<Rightarrow> (Err e, w)
      | (Ok (Some failure), w) \<Rightarrow> run_each os pl hc endpoint vecs passed (failed @ [failure]) w
      | (Ok None, w) \<Rightarrow> run_each os pl hc endpoint vecs (passed + 1) failed w)"

definition run_vectors_with_endpoint ::
    "'w adapter_os \<Rightarrow> protocol_lib \<Rightarrow> harness_config \<Rightarrow> contract_vector list \<Rightarrow> skipped_vector list \<Rightarrow> string \<Rightarrow> 'w \<Rightarrow>
     (harness_error + run_summary) \<times> 'w" where
  "run_vectors_with_endpoint os pl hc vecs skipped endpoint w =
     (case run_each os pl hc endpoint vecs 0 [] w of
        (Err e, w) \<Rightarrow> (Err e, w)
      | (Ok (passed, failed), w) \<Rightarrow> (Ok \<lparr>rs_passed = passed, rs_failed = failed, rs_skipped = skipped\<rparr>, w))"

definition discover_adapter_version ::
    "'w adapter_os \<Rightarrow> protocol_lib \<Rightarrow> harness_config \<Rightarrow> 'w \<Rightarrow> (harness_error + contract_version) \<times> 'w" where
  "discover_adapter_version os pl hc w =
     (case adapter_spawn os (hc_adapter hc) (hc_adapter_args hc) w of
        (Err e, w) \<Rightarrow> (Err e, w)
      | (Ok _, w) \<Rightarrow>
          (case adapter_call os pl CmdHello w of
             (Err e, w) \<Rightarrow> (Err e, w)
           | (Ok hello, w) \<Rightarrow>
               (case hello of
                  RespHello major minor _ \<Rightarrow>
                    if major \<noteq> CONTRACT_MAJOR then Err (AdapterProtocol ''adapter contract major is not supported'')
                    else Ok (ContractVersion major minor)
                | _ \<Rightarrow> Err (AdapterProtocol ''adapter hello did not return a hello response''), w)))"

section \<open>Selecting vectors\<close>

definition newer_contract_skips :: "contract_version \<Rightarrow> contract_vector list \<Rightarrow> skipped_vector list" where
  "newer_contract_skips v vecs =
     map (\<lambda>vec. \<lparr>sk_vector_id = ve_id vec,
         sk_reason = ''requires contract '' @ show_nat (cv_major (ve_since vec)) @ ''.'' @ show_nat (cv_minor (ve_since vec))
           @ ''; adapter declares '' @ show_nat (cv_major v) @ ''.'' @ show_nat (cv_minor v)\<rparr>)
       (filter (\<lambda>vec. v < ve_since vec) vecs)"

definition LIVE_COMPATIBLE_VECTOR_IDS :: "string list" where
  "LIVE_COMPATIBLE_VECTOR_IDS =
     [''messaging_roundtrip'', ''ce_binary_mapping'', ''filter_delivers_matches_only'', ''header_shape'',
      ''queue_v1_1_ack_error_shape'', ''queue_v1_1_ack_shape'', ''queue_v1_1_acquire_error_shape'',
      ''queue_v1_1_acquire_shape'', ''queue_v1_1_live_error_mapping'', ''queue_v1_1_lock_duration_error_shape'',
      ''queue_v1_1_renew_shape'', ''queue_v1_1_session_ownership'']"

fun from_full_vectors :: "contract_vector list \<Rightarrow> contract_vector list \<times> skipped_vector list" where
  "from_full_vectors [] = ([], [])"
| "from_full_vectors (vec # vecs) =
     (case from_full_vectors vecs of
        (live, skipped) \<Rightarrow>
          if ve_id vec \<notin> set LIVE_COMPATIBLE_VECTOR_IDS
          then (live, \<lparr>sk_vector_id = ve_id vec, sk_reason = ''not supported by live substrate''\<rparr> # skipped)
          else (vec # live, skipped))"

definition is_creatable_topic :: "string \<Rightarrow> bool" where
  "is_creatable_topic topic \<longleftrightarrow> topic \<noteq> [] \<and> \<not> starts_with ''__missing_'' topic"

fun command_topics :: "command \<Rightarrow> string list" where
  "command_topics (CmdPublish topic _ _) = [topic]"
| "command_topics (CmdPublishEvent topic _) = [topic]"
| "command_topics (CmdSubscribe topics _ _) = topics"
| "command_topics _ = []"

definition vector_commands :: "contract_vector list \<Rightarrow> command list" where
  "vector_commands vecs = concat (map (\<lambda>vec. map vs_command (ve_steps vec)) vecs)"

text \<open>The ordered set of the names, as the sorted list without repetitions.\<close>

definition topic_names_for_vectors :: "contract_vector list \<Rightarrow> string list" where
  "topic_names_for_vectors vecs =
     remdups (sort (filter is_creatable_topic (concat (map command_topics (vector_commands vecs)))))"

fun acquire_group :: "command \<Rightarrow> string list" where
  "acquire_group (CmdQueueAcquire _ grp _ _ _) = (if grp \<noteq> [] then [grp] else [])"
| "acquire_group _ = []"

definition queue_groups_for_vectors :: "contract_vector list \<Rightarrow> string list" where
  "queue_groups_for_vectors vecs = remdups (sort (concat (map acquire_group (vector_commands vecs))))"

section \<open>The live substrate\<close>

record alter_response =
  al_resource_name :: string
  al_error_code :: int
  al_error_message :: "string option"

text \<open>
  The broker, its clients and the sockets of the live substrate. A client is connected before it is used; stopping
  the gateway gives \<open>None\<close> if its task does not end in time, an error of the task, or what the server returned.
\<close>

record 'w live_lib =
  ll_limits :: client_limits
  ll_temp_dir :: "'w \<Rightarrow> (string + unit) \<times> 'w"
  ll_bind :: "'w \<Rightarrow> (string + string) \<times> 'w"
  ll_start_broker :: "string \<Rightarrow> 'w \<Rightarrow> (string + string) \<times> 'w"
  ll_wait_group_coordinator :: "'w \<Rightarrow> 'w"
  ll_wait_share_coordinator :: "'w \<Rightarrow> 'w"
  ll_connect_admin :: "string \<Rightarrow> 'w \<Rightarrow> (string + unit) \<times> 'w"
  ll_create_topics :: "(string \<times> nat \<times> nat) list \<Rightarrow> nat \<Rightarrow> 'w \<Rightarrow> (string + unit) \<times> 'w"
  ll_connect_client :: "string \<Rightarrow> 'w \<Rightarrow> (string + unit) \<times> 'w"
  ll_alter_configs :: "(int \<times> string \<times> string \<times> int \<times> string) list \<Rightarrow> 'w \<Rightarrow> (string + alter_response list) \<times> 'w"
  ll_produce_core :: "string \<Rightarrow> string \<Rightarrow> 'w \<Rightarrow> (gateway_error + unit) \<times> 'w"
  ll_spawn_gateway :: "unit gateway_config \<Rightarrow> 'w \<Rightarrow> 'w"
  ll_stop_gateway :: "'w \<Rightarrow> (string + string + unit) option \<times> 'w"
  ll_stop_broker :: "'w \<Rightarrow> 'w"

definition live_step ::
    "('x \<Rightarrow> harness_error) \<Rightarrow> ('x + 'a) \<times> 'w \<Rightarrow> ('a \<Rightarrow> 'w \<Rightarrow> (harness_error + 'b) \<times> 'w) \<Rightarrow> (harness_error + 'b) \<times> 'w" where
  "live_step err r k = (case r of (Err e, w) \<Rightarrow> (Err (err e), w) | (Ok x, w) \<Rightarrow> k x w)"

definition create_topics :: "'w live_lib \<Rightarrow> string \<Rightarrow> string list \<Rightarrow> 'w \<Rightarrow> (harness_error + unit) \<times> 'w" where
  "create_topics ll bootstrap names w =
     (if names = [] then (Ok (), w)
      else live_step HarnessAdmin (ll_connect_admin ll bootstrap w) (\<lambda>_ w.
             live_step HarnessAdmin (ll_create_topics ll (map (\<lambda>name. (name, 1, 1)) names) 10000 w) (\<lambda>_ w. (Ok (), w))))"

definition RESOURCE_TYPE_GROUP :: int where "RESOURCE_TYPE_GROUP = 32"
definition CONFIG_OPERATION_SET :: int where "CONFIG_OPERATION_SET = 0"

definition set_share_groups_earliest :: "'w live_lib \<Rightarrow> string \<Rightarrow> string list \<Rightarrow> 'w \<Rightarrow> (harness_error + unit) \<times> 'w" where
  "set_share_groups_earliest ll bootstrap groups w =
     (if groups = [] then (Ok (), w)
      else live_step HarnessClient (ll_connect_client ll bootstrap w) (\<lambda>_ w.
             live_step HarnessClient
               (ll_alter_configs ll
                 (map (\<lambda>g. (RESOURCE_TYPE_GROUP, g, ''share.auto.offset.reset'', CONFIG_OPERATION_SET, ''earliest'')) groups) w)
               (\<lambda>rs w.
                 (case find (\<lambda>r. al_error_code r \<noteq> 0) rs of
                    Some r \<Rightarrow> Err (GroupConfig (al_resource_name r) (al_error_code r)
                                     (case al_error_message r of None \<Rightarrow> [] | Some m \<Rightarrow> m))
                  | None \<Rightarrow> Ok (), w))))"

definition live_gateway_config :: "client_limits \<Rightarrow> string \<Rightarrow> string \<Rightarrow> unit gateway_config" where
  "live_gateway_config li bootstrap listen_addr =
     \<lparr>gc_bootstrap = bootstrap, gc_listen_addr = listen_addr, gc_client_id = ''sdk-conformance'',
      gc_dedup_topic = ''__krabka_grpc_dedup'', gc_dedup_partitions = 4, gc_dedup_window = 3600,
      gc_dedup_ownership_group = ''sdk-conformance-owners'', gc_dedup_txn_id_prefix = ''sdk-conformance-dedup'',
      gc_advertised_addr = listen_addr, gc_membership_topic = ''__krabka_gateway_membership'',
      gc_tls = None, gc_broker_security = None, gc_authz = None, gc_webhooks = [], gc_outbound = [],
      gc_schema_registry_url = None, gc_runtime = default_runtime li\<rparr>"

definition boot :: "'w live_lib \<Rightarrow> string list \<Rightarrow> string list \<Rightarrow> 'w \<Rightarrow> (harness_error + string) \<times> 'w" where
  "boot ll topic_names queue_groups w =
     live_step HarnessIo (ll_temp_dir ll w) (\<lambda>_ w.
     live_step HarnessIo (ll_bind ll w) (\<lambda>controller_addr w.
     live_step BrokerStart (ll_start_broker ll controller_addr w) (\<lambda>bootstrap w.
       let w = ll_wait_group_coordinator ll w;
           w = (if queue_groups \<noteq> [] then ll_wait_share_coordinator ll w else w) in
       live_step id (create_topics ll bootstrap topic_names w) (\<lambda>_ w.
       live_step id (set_share_groups_earliest ll bootstrap queue_groups w) (\<lambda>_ w.
       live_step HarnessIo (ll_bind ll w) (\<lambda>listen_addr w.
       live_step GatewayInit (ll_produce_core ll bootstrap ''sdk-conformance'' w) (\<lambda>_ w.
         (Ok (''http://'' @ listen_addr), ll_spawn_gateway ll (live_gateway_config (ll_limits ll) bootstrap listen_addr) w))))))))"

definition shutdown :: "'w live_lib \<Rightarrow> 'w \<Rightarrow> (harness_error + unit) \<times> 'w" where
  "shutdown ll w =
     (case ll_stop_gateway ll w of
        (None, w) \<Rightarrow> (Err SubstrateTimeout, w)
      | (Some (Err e), w) \<Rightarrow> (Err (GatewayTask e), w)
      | (Some (Ok (Err e)), w) \<Rightarrow> (Err (GatewayServe e), w)
      | (Some (Ok (Ok _)), w) \<Rightarrow> (Ok (), ll_stop_broker ll w))"

definition conformance_encode :: "string \<Rightarrow> encode_body \<Rightarrow> codec_error + bytes" where
  "conformance_encode topic body = Ok (case body of Raw v \<Rightarrow> v | Structured json _ \<Rightarrow> json)"

definition conformance_decode :: "adapter_lib \<Rightarrow> string \<Rightarrow> bytes \<Rightarrow> codec_error + decoded" where
  "conformance_decode al topic v =
     Ok \<lparr>dec_value = v, dec_schema = None, dec_json = map_option (\<lambda>_. v) (al_from_slice al v)\<rparr>"

section \<open>A run of the harness\<close>

definition select_vectors ::
    "harness_config \<Rightarrow> contract_version \<Rightarrow> contract_vector list \<Rightarrow> contract_vector list \<times> skipped_vector list" where
  "select_vectors hc v vecs =
     (let skipped = newer_contract_skips v vecs;
          vecs = filter (satisfies v) vecs;
          (vecs, skipped) =
            (case hc_filter hc of
               None \<Rightarrow> (vecs, skipped)
             | Some f \<Rightarrow> (filter (\<lambda>vec. ve_id vec = f) vecs, filter (\<lambda>s. sk_vector_id s = f) skipped));
          (vecs, skipped) =
            (if hc_substrate hc \<noteq> Live then
               (filter (\<lambda>vec. \<not> ve_live_only vec) vecs,
                skipped @ map (\<lambda>vec. \<lparr>sk_vector_id = ve_id vec, sk_reason = ''requires live substrate''\<rparr>) (filter ve_live_only vecs))
             else (vecs, skipped));
          (live, plan_skipped) = (if hc_live_compatible_only hc then from_full_vectors vecs else (vecs, []))
      in (live, skipped @ plan_skipped))"

definition harness_run ::
    "'w adapter_os \<Rightarrow> protocol_lib \<Rightarrow> vector_files \<Rightarrow> 'w live_lib \<Rightarrow> harness_config \<Rightarrow> 'w \<Rightarrow>
     (harness_error + run_summary) \<times> 'w" where
  "harness_run os pl vf ll hc w =
     (case discover_adapter_version os pl hc w of
        (Err e, w) \<Rightarrow> (Err e, w)
      | (Ok v, w) \<Rightarrow>
          (case load_vectors vf (hc_vectors_dir hc) of
             Err e \<Rightarrow> (Err (HarnessVectors e), w)
           | Ok vecs \<Rightarrow>
               (case select_vectors hc v vecs of
                  (live, skipped) \<Rightarrow>
                    (case hc_substrate hc of
                       External \<Rightarrow> run_vectors_with_endpoint os pl hc live skipped (hc_endpoint hc) w
                     | Live \<Rightarrow>
                         (case boot ll (topic_names_for_vectors live) (queue_groups_for_vectors live) w of
                            (Err e, w) \<Rightarrow> (Err e, w)
                          | (Ok endpoint, w) \<Rightarrow>
                              (case run_vectors_with_endpoint os pl hc live skipped endpoint w of
                                 (result, w) \<Rightarrow>
                                   (case shutdown ll w of
                                      (Err e, w) \<Rightarrow> (Err e, w)
                                    | (Ok _, w) \<Rightarrow> (result, w))))))))"

section \<open>The adapters as processes\<close>

text \<open>One turn of the line loop of an adapter; a line it cannot read ends the process.\<close>

definition stdio_line ::
    "protocol_lib \<Rightarrow> (command \<Rightarrow> 's \<Rightarrow> response \<times> 's) \<Rightarrow> string \<Rightarrow> 's \<Rightarrow> string + string \<times> 's" where
  "stdio_line pl handle line s =
     and_then (pl_read_command pl (trim_end line)) (\<lambda>c.
       case handle c s of (r, s) \<Rightarrow> Ok (pl_response_text pl r @ newline, s))"

fun stdio_loop ::
    "protocol_lib \<Rightarrow> (command \<Rightarrow> 's \<Rightarrow> response \<times> 's) \<Rightarrow> string list \<Rightarrow> 's \<Rightarrow> string list \<times> (string + 's)" where
  "stdio_loop pl handle [] s = ([], Ok s)"
| "stdio_loop pl handle (line # lines) s =
     (case stdio_line pl handle line s of
        Err e \<Rightarrow> ([], Err e)
      | Ok (out, s) \<Rightarrow> (case stdio_loop pl handle lines s of (outs, r) \<Rightarrow> (out # outs, r)))"

definition run_stdio ::
    "adapter_lib \<Rightarrow> protocol_lib \<Rightarrow> fault_mode \<Rightarrow> nat \<Rightarrow> string list \<Rightarrow> string list \<times> (string + mock_adapter)" where
  "run_stdio al pl fault minor lines = stdio_loop pl (mock_handle al) lines (with_contract_minor minor fault)"

definition stdio_os ::
    "protocol_lib \<Rightarrow> (command \<Rightarrow> 's \<Rightarrow> response \<times> 's) \<Rightarrow> 's \<Rightarrow> 's option adapter_os" where
  "stdio_os pl handle start =
     \<lparr>os_spawn = \<lambda>_ _ _. (Ok (True, True), Some start),
      os_exchange = \<lambda>line p.
        (case p of
           None \<Rightarrow> (Some (Ok []), None)
         | Some s \<Rightarrow> (case stdio_line pl handle line s of Err e \<Rightarrow> (Some (Ok []), None) | Ok (out, s) \<Rightarrow> (Some (Ok out), Some s)))\<rparr>"

section \<open>The command line\<close>

record cli =
  cl_adapter :: "string option"
  cl_vectors :: string
  cl_filter :: "string option"
  cl_endpoint :: string
  cl_live_substrate :: bool
  cl_live_compatible_only :: bool
  cl_mock_adapter :: bool
  cl_mock_fault :: string
  cl_mock_contract_minor :: nat

text \<open>What the program prints and how it ends: its own messages, an error of the harness, or one of the mock adapter.\<close>

datatype main_error = MainMessage string | MainHarness harness_error | MainMockAdapter string

record cli_output =
  co_stdout :: "string list"
  co_stderr :: "string list"
  co_result :: "main_error + unit"

definition fault_of_name :: "string \<Rightarrow> string + fault_mode" where
  "fault_of_name s =
     (if s = ''none'' then Ok NoFault
      else if s = ''wrong-publish'' then Ok WrongPublish
      else if s = ''wrong-configure'' then Ok WrongConfigure
      else Err (''unknown mock fault mode: '' @ s))"

definition main_mock_adapter :: "adapter_lib \<Rightarrow> protocol_lib \<Rightarrow> cli \<Rightarrow> string list \<Rightarrow> cli_output" where
  "main_mock_adapter al pl a input =
     (case fault_of_name (cl_mock_fault a) of
        Err e \<Rightarrow> \<lparr>co_stdout = [], co_stderr = [], co_result = Err (MainMessage e)\<rparr>
      | Ok fault \<Rightarrow>
          (case run_stdio al pl fault (cl_mock_contract_minor a) input of
             (outs, r) \<Rightarrow> \<lparr>co_stdout = outs, co_stderr = [], co_result = map_sum MainMockAdapter (\<lambda>_. ()) r\<rparr>))"

definition main_report :: "protocol_lib \<Rightarrow> run_summary \<Rightarrow> cli_output" where
  "main_report pl summary =
     (let skips = map (\<lambda>s. sk_vector_id s @ '' skipped: '' @ sk_reason s) (rs_skipped summary) in
      if is_success summary then
        \<lparr>co_stdout = [show_nat (rs_passed summary) @ '' vectors passed''
           @ (if rs_skipped summary = [] then [] else '', '' @ show_nat (length (rs_skipped summary)) @ '' skipped'')],
         co_stderr = skips, co_result = Ok ()\<rparr>
      else
        \<lparr>co_stdout = [],
         co_stderr = skips @ map (\<lambda>f. fa_vector_id f @ '' / '' @ fa_step f @ '' failed'' @ newline
           @ ''expected: '' @ pl_debug pl (fa_expected f) @ newline @ ''actual: '' @ pl_debug pl (fa_actual f)) (rs_failed summary),
         co_result = Err (MainMessage ''conformance failed'')\<rparr>)"

definition conformance_main ::
    "adapter_lib \<Rightarrow> 'w adapter_os \<Rightarrow> protocol_lib \<Rightarrow> vector_files \<Rightarrow> 'w live_lib \<Rightarrow> cli \<Rightarrow> string list \<Rightarrow> 'w \<Rightarrow>
     cli_output \<times> 'w" where
  "conformance_main al os pl vf ll a input w =
     (if cl_mock_adapter a then (main_mock_adapter al pl a input, w)
      else
        (case cl_adapter a of
           None \<Rightarrow> (\<lparr>co_stdout = [], co_stderr = [], co_result = Err (MainMessage ''--adapter is required'')\<rparr>, w)
         | Some adapter \<Rightarrow>
             (case harness_run os pl vf ll
                     \<lparr>hc_adapter = adapter, hc_adapter_args = [], hc_vectors_dir = cl_vectors a, hc_filter = cl_filter a,
                      hc_endpoint = cl_endpoint a, hc_substrate = (if cl_live_substrate a then Live else External),
                      hc_live_compatible_only = cl_live_compatible_only a\<rparr> w of
                (Err e, w) \<Rightarrow> (\<lparr>co_stdout = [], co_stderr = [], co_result = Err (MainHarness e)\<rparr>, w)
              | (Ok summary, w) \<Rightarrow> (main_report pl summary, w))))"

section \<open>Verdicts\<close>

text \<open>
  The two texts of an exchange come through: the adapter reads the command that was
  sent and the harness reads the response that was given.
\<close>

definition carries :: "protocol_lib \<Rightarrow> command \<Rightarrow> response \<Rightarrow> bool" where
  "carries pl c r \<longleftrightarrow>
     pl_read_command pl (trim_end (pl_command_text pl c @ newline)) = Ok c \<and>
     pl_read_response pl (trim_end (pl_response_text pl r @ newline)) = Ok r"

fun transcript :: "(command \<Rightarrow> 's \<Rightarrow> response \<times> 's) \<Rightarrow> command list \<Rightarrow> 's \<Rightarrow> response list" where
  "transcript handle [] s = []"
| "transcript handle (c # cs) s = (case handle c s of (r, s) \<Rightarrow> r # transcript handle cs s)"

lemma length_transcript [simp]: "length (transcript handle cs s) = length cs"
  by (induction cs arbitrary: s) (auto split: prod.splits)

abbreviation session_commands :: "string \<Rightarrow> contract_vector \<Rightarrow> command list" where
  "session_commands endpoint vec \<equiv> CmdHello # CmdConfigure endpoint None # map vs_command (ve_steps vec)"

lemma call_stdio:
  assumes "carries pl c r" "handle c s = (r, s')"
  shows "adapter_call (stdio_os pl handle start) pl c (Some s) = (Ok r, Some s')"
  using assms by (simp add: adapter_call_def stdio_os_def stdio_line_def carries_def newline_def)

lemma spawn_stdio: "adapter_spawn (stdio_os pl handle start) adapter args w = (Ok (), Some start)"
  by (simp add: adapter_spawn_def stdio_os_def)

lemma run_steps_stdio:
  assumes "list_all2 (carries pl) (map vs_command ss) (transcript handle (map vs_command ss) s)"
  shows "\<exists>f w. run_steps (stdio_os pl handle start) pl vec ss (Some s) = (Ok f, w) \<and>
    (f = None \<longleftrightarrow> transcript handle (map vs_command ss) s = map vs_expect ss)"
  using assms
proof (induction ss arbitrary: s)
  case (Cons x ss)
  obtain r s' where h: "handle (vs_command x) s = (r, s')" by fastforce
  have c: "carries pl (vs_command x) r" and rest: "list_all2 (carries pl) (map vs_command ss) (transcript handle (map vs_command ss) s')"
    using Cons.prems h by simp_all
  show ?case using Cons.IH[OF rest] h by (simp add: call_stdio[where handle = handle, OF c h])
qed simp

lemma vector_verdict:
  assumes "list_all2 (carries pl) (session_commands endpoint vec) (transcript handle (session_commands endpoint vec) start)"
  shows "\<exists>f w'. run_vector (stdio_os pl handle start) pl hc endpoint vec w = (Ok f, w') \<and>
    (f = None \<longleftrightarrow> hello_satisfies vec (hd (transcript handle (session_commands endpoint vec) start)) \<and>
       tl (transcript handle (session_commands endpoint vec) start) = configured_response False # map vs_expect (ve_steps vec))"
proof -
  obtain h s1 where h: "handle CmdHello start = (h, s1)" by fastforce
  obtain k s2 where k: "handle (CmdConfigure endpoint None) s1 = (k, s2)" by fastforce
  have c: "carries pl CmdHello h" "carries pl (CmdConfigure endpoint None) k"
    and rest: "list_all2 (carries pl) (map vs_command (ve_steps vec)) (transcript handle (map vs_command (ve_steps vec)) s2)"
    using assms h k by simp_all
  show ?thesis
    using run_steps_stdio[OF rest, of start vec] h k
    by (auto simp: run_vector_def spawn_stdio call_stdio[where handle = handle, OF c(1) h] call_stdio[where handle = handle, OF c(2) k])
qed

section \<open>Accounting\<close>

lemma run_each_counts:
  assumes "run_each os pl hc endpoint vecs p f w = (Ok (p', f'), w')"
  shows "p' + length f' = p + length f + length vecs"
  using assms
  by (induction vecs arbitrary: p f w) (fastforce split: prod.splits sum.splits option.splits)+

lemma from_full_vectors_ids:
  "mset (map ve_id vecs) = mset (map ve_id (fst (from_full_vectors vecs))) + mset (map sk_vector_id (snd (from_full_vectors vecs)))"
  by (induction vecs) (auto split: prod.splits)

text \<open>A vector of an earlier contract, which the adapter's version has left behind.\<close>

definition retired :: "contract_version \<Rightarrow> contract_vector \<Rightarrow> bool" where
  "retired v vec \<longleftrightarrow> ve_since vec \<le> v \<and> (\<exists>u. ve_until vec = Some u \<and> u < v)"

definition considered :: "harness_config \<Rightarrow> contract_vector list \<Rightarrow> contract_vector list" where
  "considered hc vecs = (case hc_filter hc of None \<Rightarrow> vecs | Some f \<Rightarrow> filter (\<lambda>vec. ve_id vec = f) vecs)"

lemma satisfies_cases:
  "satisfies v vec \<longleftrightarrow> \<not> v < ve_since vec \<and> \<not> retired v vec"
  by (auto simp: satisfies_def retired_def not_less split: option.splits)

lemma three_ways:
  "mset (map ve_id vecs) = mset (map ve_id (filter (satisfies v) vecs)) + mset (map sk_vector_id (newer_contract_skips v vecs))
     + mset (map ve_id (filter (retired v) vecs))"
  by (induction vecs) (auto simp: newer_contract_skips_def satisfies_cases retired_def)

lemma skips_filter:
  "filter (\<lambda>s. sk_vector_id s = f) (newer_contract_skips v vecs) = newer_contract_skips v (filter (\<lambda>vec. ve_id vec = f) vecs)"
  by (induction vecs) (auto simp: newer_contract_skips_def)

lemma live_split:
  "mset (map ve_id vecs) = mset (map ve_id (filter (\<lambda>vec. \<not> ve_live_only vec) vecs)) + mset (map ve_id (filter ve_live_only vecs))"
  by (induction vecs) auto

text \<open>The vectors that fit the substrate, and what is skipped because they do not.\<close>

definition fitting :: "harness_config \<Rightarrow> contract_vector list \<Rightarrow> contract_vector list" where
  "fitting hc vecs = (if hc_substrate hc \<noteq> Live then filter (\<lambda>vec. \<not> ve_live_only vec) vecs else vecs)"

definition unfit :: "harness_config \<Rightarrow> contract_vector list \<Rightarrow> skipped_vector list" where
  "unfit hc vecs =
     (if hc_substrate hc \<noteq> Live
      then map (\<lambda>vec. \<lparr>sk_vector_id = ve_id vec, sk_reason = ''requires live substrate''\<rparr>) (filter ve_live_only vecs) else [])"

definition live_plan :: "harness_config \<Rightarrow> contract_vector list \<Rightarrow> contract_vector list \<times> skipped_vector list" where
  "live_plan hc vecs = (if hc_live_compatible_only hc then from_full_vectors vecs else (vecs, []))"

lemma select_vectors_parts:
  "select_vectors hc v vecs =
     (let sat = filter (satisfies v) (considered hc vecs); plan = live_plan hc (fitting hc sat) in
      (fst plan, newer_contract_skips v (considered hc vecs) @ unfit hc sat @ snd plan))"
proof -
  have fil: "filter (\<lambda>vec. ve_id vec = f) (filter (satisfies v) vecs) = filter (satisfies v) (filter (\<lambda>vec. ve_id vec = f) vecs)" for f
    by (induction vecs) auto
  show ?thesis
    by (simp add: select_vectors_def Let_def fitting_def unfit_def live_plan_def considered_def skips_filter fil
        del: filter_filter split: option.splits prod.splits)
qed

lemma select_vectors_ids:
  assumes "select_vectors hc v vecs = (live, skipped)"
  shows "mset (map ve_id (considered hc vecs))
    = mset (map ve_id live) + mset (map sk_vector_id skipped) + mset (map ve_id (filter (retired v) (considered hc vecs)))"
proof -
  define sat where "sat = filter (satisfies v) (considered hc vecs)"
  have sel: "live = fst (live_plan hc (fitting hc sat))"
    "skipped = newer_contract_skips v (considered hc vecs) @ unfit hc sat @ snd (live_plan hc (fitting hc sat))"
    using assms by (auto simp: select_vectors_parts Let_def sat_def)
  have "mset (map ve_id sat) = mset (map ve_id (fitting hc sat)) + mset (map sk_vector_id (unfit hc sat))"
    using live_split[of sat] by (simp add: fitting_def unfit_def image_mset.compositionality comp_def)
  moreover have "mset (map ve_id (fitting hc sat)) = mset (map ve_id live) + mset (map sk_vector_id (snd (live_plan hc (fitting hc sat))))"
    using from_full_vectors_ids[of "fitting hc sat"] by (simp add: sel(1) live_plan_def)
  ultimately show ?thesis
    using three_ways[of "considered hc vecs" v] unfolding sel(2) sat_def[symmetric] by (simp add: ac_simps)
qed

lemma harness_accounts_holds:
  assumes "harness_run os pl vf ll hc w = (Ok summary, w')"
    and "discover_adapter_version os pl hc w = (Ok v, w1)" "load_vectors vf (hc_vectors_dir hc) = Ok vecs"
  shows "length (considered hc vecs)
    = rs_passed summary + length (rs_failed summary) + length (rs_skipped summary) + length (filter (retired v) (considered hc vecs))"
proof -
  obtain live skipped where sel: "select_vectors hc v vecs = (live, skipped)" by fastforce
  have "\<exists>endpoint w2 w3. run_vectors_with_endpoint os pl hc live skipped endpoint w2 = (Ok summary, w3)"
    using assms sel by (auto simp: harness_run_def split: harness_substrate.splits prod.splits sum.splits)
  then obtain endpoint w2 w3 where r: "run_vectors_with_endpoint os pl hc live skipped endpoint w2 = (Ok summary, w3)" by blast
  have s: "rs_skipped summary = skipped" and c: "rs_passed summary + length (rs_failed summary) = length live"
    using r run_each_counts[of os pl hc endpoint live 0 "[]" w2]
    by (auto simp: run_vectors_with_endpoint_def split: prod.splits sum.splits)
  have "length (map ve_id (considered hc vecs))
    = length (map ve_id live) + length (map sk_vector_id skipped) + length (map ve_id (filter (retired v) (considered hc vecs)))"
    using arg_cong[OF select_vectors_ids[OF sel], of size] by (simp only: size_mset size_union)
  thus ?thesis using s c by simp
qed

text \<open>The adapter gives a vector the responses it expects.\<close>

definition conforms :: "(command \<Rightarrow> 's \<Rightarrow> response \<times> 's) \<Rightarrow> 's \<Rightarrow> string \<Rightarrow> contract_vector \<Rightarrow> bool" where
  "conforms handle start endpoint vec \<longleftrightarrow>
     tl (transcript handle (session_commands endpoint vec) start) = configured_response False # map vs_expect (ve_steps vec)"

definition selected :: "harness_config \<Rightarrow> contract_version \<Rightarrow> contract_vector \<Rightarrow> bool" where
  "selected hc v vec \<longleftrightarrow> satisfies v vec \<and> (hc_substrate hc = Live \<or> \<not> ve_live_only vec)
     \<and> (hc_live_compatible_only hc \<longrightarrow> ve_id vec \<in> set LIVE_COMPATIBLE_VECTOR_IDS)"

lemma from_full_vectors_live:
  "fst (from_full_vectors vecs) = filter (\<lambda>vec. ve_id vec \<in> set LIVE_COMPATIBLE_VECTOR_IDS) vecs"
  by (induction vecs) (simp_all add: case_prod_beta)

lemma select_vectors_set:
  "set (fst (select_vectors hc v vecs)) = {vec \<in> set (considered hc vecs). selected hc v vec}"
  by (auto simp: select_vectors_parts Let_def live_plan_def fitting_def selected_def from_full_vectors_live)

definition carried_vector :: "protocol_lib \<Rightarrow> (command \<Rightarrow> 's \<Rightarrow> response \<times> 's) \<Rightarrow> 's \<Rightarrow> string \<Rightarrow> contract_vector \<Rightarrow> bool" where
  "carried_vector pl handle start endpoint vec \<longleftrightarrow>
     list_all2 (carries pl) (session_commands endpoint vec) (transcript handle (session_commands endpoint vec) start)"

lemma run_each_stdio:
  assumes "\<forall>vec\<in>set vecs. carried_vector pl handle start endpoint vec"
    and "\<forall>vec\<in>set vecs. hello_satisfies vec (fst (handle CmdHello start))"
  shows "\<exists>p' f' w'. run_each (stdio_os pl handle start) pl hc endpoint vecs p f w = (Ok (p', f'), w') \<and>
    (f' = [] \<longleftrightarrow> f = [] \<and> (\<forall>vec\<in>set vecs. conforms handle start endpoint vec))"
  using assms
proof (induction vecs arbitrary: p f w)
  case (Cons vec vecs)
  have c: "list_all2 (carries pl) (session_commands endpoint vec) (transcript handle (session_commands endpoint vec) start)"
    using Cons.prems(1) by (simp add: carried_vector_def)
  have h: "hello_satisfies vec (hd (transcript handle (session_commands endpoint vec) start))"
    using Cons.prems(2) by (cases "handle CmdHello start") simp
  obtain r w1 where r: "run_vector (stdio_os pl handle start) pl hc endpoint vec w = (Ok r, w1)"
    "r = None \<longleftrightarrow> conforms handle start endpoint vec"
    using vector_verdict[OF c, of hc w] h unfolding conforms_def by blast
  show ?case
  proof (cases r)
    case None
    thus ?thesis using Cons.IH[of "p + 1" f w1] Cons.prems r by simp
  next
    case (Some x)
    thus ?thesis using Cons.IH[of p "f @ [x]" w1] Cons.prems r by simp
  qed
qed simp

lemma harness_verdict_holds:
  assumes load: "load_vectors vf (hc_vectors_dir hc) = Ok vecs" and ext: "hc_substrate hc = External"
    and hello: "fst (handle CmdHello start) = RespHello CONTRACT_MAJOR minor lang" "carries pl CmdHello (RespHello CONTRACT_MAJOR minor lang)"
    and c: "\<forall>vec\<in>set vecs. carried_vector pl handle start (hc_endpoint hc) vec"
  shows "\<exists>summary w'. harness_run (stdio_os pl handle start) pl vf ll hc w = (Ok summary, w') \<and>
    (is_success summary \<longleftrightarrow>
      (\<forall>vec\<in>set (considered hc vecs). selected hc (ContractVersion CONTRACT_MAJOR minor) vec \<longrightarrow> conforms handle start (hc_endpoint hc) vec))"
proof -
  let ?v = "ContractVersion CONTRACT_MAJOR minor"
  obtain s1 where h: "handle CmdHello start = (RespHello CONTRACT_MAJOR minor lang, s1)" using hello(1) by (metis prod.collapse)
  have d: "discover_adapter_version (stdio_os pl handle start) pl hc w = (Ok ?v, Some s1)"
    by (simp add: discover_adapter_version_def spawn_stdio call_stdio[where handle = handle, OF hello(2) h])
  obtain live skipped where sel: "select_vectors hc ?v vecs = (live, skipped)" by fastforce
  have live: "set live = {vec \<in> set (considered hc vecs). selected hc ?v vec}" using select_vectors_set[of hc ?v vecs] sel by simp
  have "set (considered hc vecs) \<subseteq> set vecs" by (auto simp: considered_def split: option.splits)
  hence "\<forall>vec\<in>set live. carried_vector pl handle start (hc_endpoint hc) vec" using c live by auto
  moreover have "\<forall>vec\<in>set live. hello_satisfies vec (fst (handle CmdHello start))"
    using live by (simp add: hello_satisfies_def hello(1) selected_def)
  ultimately show ?thesis
    using run_each_stdio[of live pl handle start "hc_endpoint hc" hc 0 "[]" "Some s1"] live
    by (auto simp: harness_run_def d load sel ext run_vectors_with_endpoint_def is_success_def)
qed

section \<open>What a run of the harness shows\<close>

interpretation conformance_codec: record_codec conformance_encode "conformance_decode al" "\<lambda>_ _. True" body_payload for al
  by unfold_locales (auto simp: conformance_encode_def conformance_decode_def body_payload_def)

text \<open>
  A completed run accounts for every vector that the filter lets through: it passed, failed, was reported as skipped,
  or belongs to a contract that the adapter's version has left behind. The last kind is not reported.
\<close>

theorem harness_accounts:
  assumes "harness_run os pl vf ll hc w = (Ok summary, w')"
    and "discover_adapter_version os pl hc w = (Ok v, w1)" "load_vectors vf (hc_vectors_dir hc) = Ok vecs"
  shows "length (considered hc vecs)
    = rs_passed summary + length (rs_failed summary) + length (rs_skipped summary) + length (filter (retired v) (considered hc vecs))"
  using assms by (rule harness_accounts_holds)


definition sample_pl :: protocol_lib where
  "sample_pl =
     \<lparr>pl_command_text = \<lambda>c. case c of CmdHello \<Rightarrow> ''h'' | CmdConfigure _ _ \<Rightarrow> ''c'' | _ \<Rightarrow> ''d'',
      pl_read_command = \<lambda>t. Ok (if t = ''h'' then CmdHello else if t = ''c'' then CmdConfigure ''mock://gateway'' None else CmdDbConnect ''d''),
      pl_response_text = \<lambda>r. case r of RespHello _ _ _ \<Rightarrow> ''h'' | RespOk _ \<Rightarrow> ''c'' | _ \<Rightarrow> ''d'',
      pl_read_response = \<lambda>t. Ok (if t = ''h'' then RespHello CONTRACT_MAJOR 0 ''mock'' else if t = ''c'' then configured_response False
         else RespError (adapter_unimplemented ''database'' ''chapter-f-control-plane'')), pl_debug = \<lambda>_. []\<rparr>"

definition sample_vector :: contract_vector where
  "sample_vector =
     \<lparr>ve_id = ''stub_database'', ve_since = ContractVersion 1 0, ve_until = None, ve_live_only = False,
      ve_steps = [\<lparr>vs_name = ''connect'', vs_command = CmdDbConnect ''d'',
        vs_expect = RespError (adapter_unimplemented ''database'' ''chapter-f-control-plane'')\<rparr>]\<rparr>"

definition sample_vector_files :: vector_files where
  "sample_vector_files = \<lparr>vf_read_dir = \<lambda>_. Ok [Ok ''v.json''], vf_read = \<lambda>_ _. Ok [], vf_parse = \<lambda>_. Ok sample_vector\<rparr>"

definition sample_harness :: harness_config where
  "sample_harness =
     \<lparr>hc_adapter = ''adapter'', hc_adapter_args = [], hc_vectors_dir = [], hc_filter = None, hc_endpoint = ''mock://gateway'', hc_substrate = External, hc_live_compatible_only = False\<rparr>"

definition sample_live :: "'w live_lib" where
  "sample_live =
     \<lparr>ll_limits = sample_limits, ll_temp_dir = \<lambda>w. (Ok (), w), ll_bind = \<lambda>w. (Ok ''127.0.0.1:1'', w),
      ll_start_broker = \<lambda>_ w. (Ok ''127.0.0.1:2'', w), ll_wait_group_coordinator = \<lambda>w. w, ll_wait_share_coordinator = \<lambda>w. w,
      ll_connect_admin = \<lambda>_ w. (Ok (), w), ll_create_topics = \<lambda>_ _ w. (Ok (), w), ll_connect_client = \<lambda>_ w. (Ok (), w),
      ll_alter_configs = \<lambda>_ w. (Ok [], w), ll_produce_core = \<lambda>_ _ w. (Ok (), w), ll_spawn_gateway = \<lambda>_ w. w,
      ll_stop_gateway = \<lambda>w. (Some (Ok (Ok ())), w), ll_stop_broker = \<lambda>w. w\<rparr>"

definition sample_adapter_lib :: adapter_lib where
  "sample_adapter_lib = \<lparr>al_encode = of_bytes, al_decode = \<lambda>t. Ok (as_bytes t), al_from_slice = \<lambda>_. None\<rparr>"

lemma trim_end_newline:
  assumes "c \<in> {CHR ''h'', CHR ''c'', CHR ''d''}"
  shows "trim_end ([c] @ newline) = [c]"
proof -
  have conv: "x = char_of n \<longleftrightarrow> n mod 256 = of_char x" for x :: char and n :: nat
    using char_of_eq_iff[of n x] by (auto simp: take_bit_eq_mod)
  have "find (\<lambda>w. w \<noteq> [] \<and> starts_with w (CHR 0x0A # [c])) (map rev white_space) = Some [CHR 0x0A]"
    using assms char_of_char[where 'a = nat and c = "CHR 0x0A"] by (auto simp: white_space_def starts_with_def conv)
  moreover have "find (\<lambda>w. w \<noteq> [] \<and> starts_with w [c]) (map rev white_space) = None"
    using assms by (auto simp: white_space_def starts_with_def conv)
  ultimately have "strip_all (map rev white_space) (CHR 0x0A # [c]) = [c]"
    by (subst strip_all.simps, simp, subst strip_all.simps) simp
  thus ?thesis by (simp add: trim_end_def newline_def)
qed


end
