(* ===== verification/Gw_SdkAdapter.thy ===== *)
theory Gw_SdkAdapter
  imports Gw_Sdk Gw_Harness
begin

text \<open>
  The conformance adapter of the Rust SDK (\<open>app-sdk/src/bin/conformance_adapter.rs\<close>): one
  function per command on the state \<open>sdk_adapter\<close>, and the dispatch \<open>sdk_handle\<close>. The stream of
  a subscription is the list of its items; the in-memory backend has put all of them into
  the channel when it returns, while a live stream may miss the deadline of a call, which
  \<open>xl_late\<close> decides. The map from aliases to sessions never holds a session twice, so its
  order does not matter for the search by session.
\<close>

record 'w sdk_adapter =
  sa_client :: "'w krabka_client option"
  sa_stream :: "(bool \<times> (krabka_error + sdk_inbound) list) option"
  sa_next_queue_session_id :: nat
  sa_queue_sessions :: "(string, string) hashmap"
  sa_world :: 'w

record 'w sdk_adapter_lib =
  xl_adapter :: adapter_lib
  xl_sdk :: sdk_lib
  xl_rpc :: "'w gateway_rpc"
  xl_late :: "nat \<Rightarrow> 'w \<Rightarrow> bool"

definition sdk_adapter_default :: "'w \<Rightarrow> 'w sdk_adapter" where
  "sdk_adapter_default w =
     \<lparr>sa_client = None, sa_stream = None, sa_next_queue_session_id = 0, sa_queue_sessions = [], sa_world = w\<rparr>"

definition error_response :: "krabka_error \<Rightarrow> response" where
  "error_response e =
     RespError (case e of
        Transport m \<Rightarrow> adapter_with_message KindTransport m
      | Unauthenticated m \<Rightarrow> adapter_with_message KindUnauthenticated m
      | InvalidArg m \<Rightarrow> adapter_with_message KindInvalidArgument m
      | krabka_error.NotFound m \<Rightarrow> adapter_with_message KindNotFound m
      | ServerError m \<Rightarrow> adapter_with_message KindServerError m
      | krabka_error.Unimplemented m gated_on \<Rightarrow> adapter_unimplemented m gated_on)"

definition decode_headers :: "adapter_lib \<Rightarrow> wire_header list \<Rightarrow> header list" where
  "decode_headers al hs =
     map (\<lambda>h. (wh_name h,
       Option.bind (wh_value_b64 h) (\<lambda>t. case al_decode al t of Ok b \<Rightarrow> Some b | Err _ \<Rightarrow> None))) hs"

definition encode_headers :: "adapter_lib \<Rightarrow> header list \<Rightarrow> wire_header list" where
  "encode_headers al hs = map (\<lambda>(name, v). \<lparr>wh_name = name, wh_value_b64 = map_option (al_encode al) v\<rparr>) hs"

definition with_client ::
    "string \<Rightarrow> ('w krabka_client \<Rightarrow> response \<times> 'w sdk_adapter) \<Rightarrow> 'w sdk_adapter \<Rightarrow> response \<times> 'w sdk_adapter" where
  "with_client name f s =
     (case sa_client s of
        None \<Rightarrow> (error_response (InvalidArg (''configure before '' @ name)), s)
      | Some c \<Rightarrow> f c)"

definition adapter_world :: "'w sdk_adapter \<Rightarrow> 'w" where
  "adapter_world s = (case sa_client s of None \<Rightarrow> sa_world s | Some c \<Rightarrow> kc_world c)"

definition sdk_configure :: "string \<Rightarrow> string option \<Rightarrow> 'w sdk_adapter \<Rightarrow> response \<times> 'w sdk_adapter" where
  "sdk_configure endpoint bearer s =
     (case client_build (adapter_world s) \<lparr>cb_endpoint = Some endpoint, cb_bearer = bearer\<rparr> of
        Ok c \<Rightarrow> (configured_response (kc_bearer c \<noteq> None), s\<lparr>sa_client := Some c\<rparr>)
      | Err e \<Rightarrow> (error_response e, s))"

definition published_response :: "krabka_error + publish_result \<Rightarrow> response" where
  "published_response r =
     (case r of
        Ok p \<Rightarrow> publish_response (pu_partition p) (pu_offset p) (pu_deduplicated p)
      | Err e \<Rightarrow> error_response e)"

definition sdk_publish ::
    "'w sdk_adapter_lib \<Rightarrow> string \<Rightarrow> string \<Rightarrow> wire_header list \<Rightarrow> 'w sdk_adapter \<Rightarrow> response \<times> 'w sdk_adapter" where
  "sdk_publish xl topic value_b64 headers s =
     with_client ''publish'' (\<lambda>c.
       case al_decode (xl_adapter xl) value_b64 of
         Err e \<Rightarrow> (error_response (InvalidArg e), s)
       | Ok v \<Rightarrow>
           (case publish (xl_rpc xl) topic v (default_options\<lparr>po_headers := decode_headers (xl_adapter xl) headers\<rparr>) c of
              (r, c) \<Rightarrow> (published_response r, s\<lparr>sa_client := Some c\<rparr>))) s"

definition sdk_publish_event ::
    "'w sdk_adapter_lib \<Rightarrow> string \<Rightarrow> wire_event \<Rightarrow> 'w sdk_adapter \<Rightarrow> response \<times> 'w sdk_adapter" where
  "sdk_publish_event xl topic e s =
     with_client ''publish_event'' (\<lambda>c.
       case al_decode (xl_adapter xl) (we_data_b64 e) of
         Err m \<Rightarrow> (error_response (InvalidArg m), s)
       | Ok d \<Rightarrow>
           (case publish_event (xl_rpc xl) topic
                   \<lparr>ev_id = we_id e, ev_source = we_source e, ev_type = we_type e, ev_specversion = we_specversion e,
                    ev_datacontenttype = we_datacontenttype e, ev_data = d\<rparr> c of
              (r, c) \<Rightarrow> (published_response r, s\<lparr>sa_client := Some c\<rparr>))) s"

definition sdk_subscribe ::
    "'w sdk_adapter_lib \<Rightarrow> string list \<Rightarrow> string \<Rightarrow> wire_filter option \<Rightarrow> 'w sdk_adapter \<Rightarrow> response \<times> 'w sdk_adapter" where
  "sdk_subscribe xl topics grp filt s =
     with_client ''subscribe'' (\<lambda>c.
       case subscribe (xl_sdk xl) (xl_rpc xl) topics grp
              (map_option (\<lambda>f. \<lparr>sf_path = wf_path f, sf_value = wf_value f\<rparr>) filt) c of
         (Ok items, c') \<Rightarrow> (RespOk (JObject []), s\<lparr>sa_client := Some c', sa_stream := Some (is_mock c, items)\<rparr>)
       | (Err e, c') \<Rightarrow> (error_response e, s\<lparr>sa_client := Some c'\<rparr>)) s"

definition inbound_to_wire :: "adapter_lib \<Rightarrow> sdk_inbound \<Rightarrow> wire_message" where
  "inbound_to_wire al m =
     \<lparr>wm_topic = si_topic m, wm_partition = si_partition m, wm_offset = si_offset m,
      wm_value_b64 = al_encode al (si_value m), wm_headers = encode_headers al (si_headers m)\<rparr>"

definition sdk_next_message :: "'w sdk_adapter_lib \<Rightarrow> nat \<Rightarrow> 'w sdk_adapter \<Rightarrow> response \<times> 'w sdk_adapter" where
  "sdk_next_message xl timeout_ms s =
     (case sa_stream s of
        None \<Rightarrow> (error_response (InvalidArg ''subscribe before next_message''), s)
      | Some (ready, items) \<Rightarrow>
          if \<not> ready \<and> xl_late xl timeout_ms (adapter_world s)
          then (error_response (krabka_error.NotFound ''no message available''), s)
          else (case items of
                  [] \<Rightarrow> (error_response (krabka_error.NotFound ''no message available''), s)
                | i # is \<Rightarrow>
                    (case i of
                       Ok m \<Rightarrow> RespMessage (inbound_to_wire (xl_adapter xl) m)
                     | Err e \<Rightarrow> error_response e, s\<lparr>sa_stream := Some (ready, is)\<rparr>)))"

section \<open>Queues\<close>

definition alias_for_queue_session :: "string \<Rightarrow> 'w sdk_adapter \<Rightarrow> string \<times> 'w sdk_adapter" where
  "alias_for_queue_session real_id s =
     (case find (\<lambda>(_, stored). stored = real_id) (sa_queue_sessions s) of
        Some (alias, _) \<Rightarrow> (alias, s)
      | None \<Rightarrow>
          let n = sa_next_queue_session_id s + 1;
              alias = ''queue-session-'' @ show_nat n in
          (alias, s\<lparr>sa_next_queue_session_id := n, sa_queue_sessions := hm_insert alias real_id (sa_queue_sessions s)\<rparr>))"

definition queue_message_json :: "adapter_lib \<Rightarrow> queue_message \<Rightarrow> json" where
  "queue_message_json al m =
     JObject [(''delivery_count'', json_int (qu_delivery_count m)),
       (''headers'', JArray (map header_to_json (encode_headers al (qu_headers m)))),
       (''message_id'', JString (message_id m)), (''offset'', json_int (qu_offset m)),
       (''partition'', json_int (qu_partition m)), (''topic'', JString (qu_topic m)),
       (''value_b64'', json_opt (map_option (al_encode al) (qu_value m)))]"

definition sdk_queue_acquire ::
    "'w sdk_adapter_lib \<Rightarrow> string \<Rightarrow> string \<Rightarrow> nat \<Rightarrow> nat \<Rightarrow> string \<Rightarrow> 'w sdk_adapter \<Rightarrow> response \<times> 'w sdk_adapter" where
  "sdk_queue_acquire xl topic grp maximum lock_duration_ms sid s =
     with_client ''queue_acquire'' (\<lambda>c.
       case acquire_with_session (xl_rpc xl) topic grp
              (default_acquire_options\<lparr>ao_max := maximum, ao_lock_duration_ms := lock_duration_ms\<rparr>)
              (case hm_get (sa_queue_sessions s) sid of Some real_id \<Rightarrow> real_id | None \<Rightarrow> sid) c of
         (Err e, c) \<Rightarrow> (error_response e, s\<lparr>sa_client := Some c\<rparr>)
       | (Ok (real_id, messages), c) \<Rightarrow>
           (case alias_for_queue_session real_id (s\<lparr>sa_client := Some c\<rparr>) of
              (alias, s) \<Rightarrow> (acquire_response alias (map (queue_message_json (xl_adapter xl)) messages), s))) s"

definition parse_i32 :: "string \<Rightarrow> int option" where
  "parse_i32 s = in_bounds i32_MIN i32_MAX (parse_signed s)"

definition parse_message_id :: "string \<Rightarrow> (string \<times> int \<times> int) option" where
  "parse_message_id mid =
     (case rsplit_once CHR '':'' mid of
        None \<Rightarrow> None
      | Some (rest, offset) \<Rightarrow>
          Option.bind (parse_i64 offset) (\<lambda>offset.
            case rsplit_once CHR '':'' rest of
              None \<Rightarrow> None
            | Some (topic, p) \<Rightarrow>
                Option.bind (parse_i32 p) (\<lambda>p. if topic = [] then None else Some (topic, p, offset))))"

definition wire_renew_to_sdk :: "string \<Rightarrow> krabka_error + queue_renew_entry" where
  "wire_renew_to_sdk mid =
     (case parse_message_id mid of
        None \<Rightarrow> Err (InvalidArg ''queue message_id must be topic:partition:offset'')
      | Some e \<Rightarrow> Ok e)"

definition wire_ack_to_sdk :: "string \<Rightarrow> wire_ack_type \<Rightarrow> krabka_error + queue_ack_entry" where
  "wire_ack_to_sdk mid t =
     and_then (wire_renew_to_sdk mid) (\<lambda>(topic, p, offset).
       Ok \<lparr>qa_topic = topic, qa_partition = p, qa_offset = offset,
           qa_type = (case t of WireAccept \<Rightarrow> AckAccept | WireRelease \<Rightarrow> AckRelease | WireReject \<Rightarrow> AckReject)\<rparr>)"

definition adapter_error_value :: "krabka_error \<Rightarrow> json" where
  "adapter_error_value e =
     (case error_response
             (if e = InvalidArg ''record is not acquired by this session''
              then InvalidArg ''queue message is not acquired'' else e) of
        RespError wire \<Rightarrow> adapter_error_to_json wire
      | _ \<Rightarrow> JNull)"

definition coordinate_id :: "queue_coordinate \<Rightarrow> string" where
  "coordinate_id e = (case e of (topic, p, offset) \<Rightarrow> topic @ '':'' @ show_int p @ '':'' @ show_int offset)"

definition queue_results :: "queue_ack_result list \<Rightarrow> json list" where
  "queue_results rs =
     map (\<lambda>r. entry_result (coordinate_id (qx_entry r))
       (case qx_error r of None \<Rightarrow> JNull | Some e \<Rightarrow> adapter_error_value e)) rs"

definition settled_response :: "krabka_error + queue_ack_result list \<Rightarrow> response" where
  "settled_response r = (case r of Ok rs \<Rightarrow> results_response (queue_results rs) | Err e \<Rightarrow> error_response e)"

definition sdk_queue_acknowledge ::
    "'w sdk_adapter_lib \<Rightarrow> string \<Rightarrow> wire_ack_entry list \<Rightarrow> 'w sdk_adapter \<Rightarrow> response \<times> 'w sdk_adapter" where
  "sdk_queue_acknowledge xl sid entries s =
     with_client ''queue_acknowledge'' (\<lambda>c.
       case hm_get (sa_queue_sessions s) sid of
         None \<Rightarrow> (error_response (InvalidArg ''queue session expired; re-acquire''), s)
       | Some real_id \<Rightarrow>
           (case collect_results (map (\<lambda>e. wire_ack_to_sdk (wa_message_id e) (wa_ack_type e)) entries) of
              Err e \<Rightarrow> (error_response e, s)
            | Ok entries \<Rightarrow>
                (case acknowledge (xl_rpc xl) real_id entries c of
                   (r, c) \<Rightarrow> (settled_response r, s\<lparr>sa_client := Some c\<rparr>)))) s"

definition sdk_queue_renew ::
    "'w sdk_adapter_lib \<Rightarrow> string \<Rightarrow> wire_renew_entry list \<Rightarrow> 'w sdk_adapter \<Rightarrow> response \<times> 'w sdk_adapter" where
  "sdk_queue_renew xl sid entries s =
     with_client ''queue_renew'' (\<lambda>c.
       case hm_get (sa_queue_sessions s) sid of
         None \<Rightarrow> (error_response (InvalidArg ''queue session expired; re-acquire''), s)
       | Some real_id \<Rightarrow>
           (case collect_results (map (\<lambda>e. wire_renew_to_sdk (wr_message_id e)) entries) of
              Err e \<Rightarrow> (error_response e, s)
            | Ok entries \<Rightarrow>
                (case renew (xl_rpc xl) real_id entries c of
                   (r, c) \<Rightarrow> (settled_response r, s\<lparr>sa_client := Some c\<rparr>)))) s"

section \<open>Dispatch\<close>

definition unit_response :: "krabka_error + unit \<Rightarrow> response" where
  "unit_response r = (case r of Ok _ \<Rightarrow> RespOk (JObject []) | Err e \<Rightarrow> error_response e)"

definition sdk_blob_put :: "'w sdk_adapter_lib \<Rightarrow> string \<Rightarrow> string \<Rightarrow> 'w sdk_adapter \<Rightarrow> response \<times> 'w sdk_adapter" where
  "sdk_blob_put xl key value_b64 s =
     with_client ''blob_put'' (\<lambda>c.
       case al_decode (xl_adapter xl) value_b64 of
         Err e \<Rightarrow> (error_response (InvalidArg e), s)
       | Ok v \<Rightarrow> (unit_response (blob_put key v), s)) s"

definition sdk_blob_get :: "'w sdk_adapter_lib \<Rightarrow> string \<Rightarrow> 'w sdk_adapter \<Rightarrow> response \<times> 'w sdk_adapter" where
  "sdk_blob_get xl key s =
     with_client ''blob_get'' (\<lambda>c.
       (case blob_get key of
          Ok v \<Rightarrow> RespOk (JObject [(''value_b64'', JString (al_encode (xl_adapter xl) v))])
        | Err e \<Rightarrow> error_response e, s)) s"

definition sdk_handle :: "'w sdk_adapter_lib \<Rightarrow> command \<Rightarrow> 'w sdk_adapter \<Rightarrow> response \<times> 'w sdk_adapter" where
  "sdk_handle xl c s =
     (case c of
        CmdHello \<Rightarrow> (RespHello CONTRACT_MAJOR CONTRACT_MINOR_QUEUE_RPC ''rust'', s)
      | CmdConfigure endpoint bearer \<Rightarrow> sdk_configure endpoint bearer s
      | CmdPublish topic value_b64 headers \<Rightarrow> sdk_publish xl topic value_b64 headers s
      | CmdPublishEvent topic event \<Rightarrow> sdk_publish_event xl topic event s
      | CmdSubscribe topics grp filt \<Rightarrow> sdk_subscribe xl topics grp filt s
      | CmdNextMessage timeout_ms \<Rightarrow> sdk_next_message xl timeout_ms s
      | CmdQueueAcquire topic grp maximum lock_duration_ms sid \<Rightarrow>
          sdk_queue_acquire xl topic grp maximum lock_duration_ms sid s
      | CmdQueueAck mid \<Rightarrow> (error_response (krabka_error.Unimplemented ''queues'' ''gateway-sharegroup-rpc''), s)
      | CmdQueueAcknowledge sid entries \<Rightarrow> sdk_queue_acknowledge xl sid entries s
      | CmdQueueRenew sid entries \<Rightarrow> sdk_queue_renew xl sid entries s
      | CmdDbConnect name \<Rightarrow> with_client ''db_connect'' (\<lambda>c. (unit_response (database_connect name), s)) s
      | CmdAuthSignIn username password \<Rightarrow>
          with_client ''auth_sign_in'' (\<lambda>c. (unit_response (sign_in username password), s)) s
      | CmdBlobPut key value_b64 \<Rightarrow> sdk_blob_put xl key value_b64 s
      | CmdBlobGet key \<Rightarrow> sdk_blob_get xl key s)"

end
