(* ===== verification/Gw_Conformance.thy ===== *)
theory Gw_Conformance
  imports Gw_SdkAdapter
begin

text \<open>
  The Rust SDK agrees with the reference adapter: on every sequence of portable commands
  against an in-memory endpoint the adapter of the SDK gives the responses of the mock
  adapter, so a vector of such commands passes on one exactly if it passes on the other.
  The proof is a simulation: the two states hold the same messages and, for each message
  and group, the same queue cell, with the sessions of one named by aliases of the other.
\<close>

section \<open>Cells of the in-memory backend\<close>

definition sdk_cell :: "mock_queue_state list \<Rightarrow> string \<Rightarrow> mock_delivery \<Rightarrow> mock_disposition \<times> int" where
  "sdk_cell ss grp d =
     (case find (is_state_of grp d) ss of
        Some s \<Rightarrow> (mq_disposition s, mq_delivery_count s) | None \<Rightarrow> (MockAvailable, 0))"

lemma sdk_cell_simps [simp]:
  "sdk_cell [] g d = (MockAvailable, 0)"
  "sdk_cell (s # ss) g d = (if is_state_of g d s then (mq_disposition s, mq_delivery_count s) else sdk_cell ss g d)"
  by (simp_all add: sdk_cell_def)

lemma sdk_cell_disposition: "fst (sdk_cell ss g d) = disposition ss g d"
  by (simp add: sdk_cell_def disposition_def split: option.splits)

definition bumped :: "int \<Rightarrow> int" where
  "bumped n = min i32_MAX (n + 1)"

lemma state_mut_cell:
  assumes "mock_queue_state_mut (mark_acquired sid) grp d ss = (x, ss')"
  shows "sdk_cell ss' g e = (if g = grp \<and> e = d then (MockAcquired sid, bumped (snd (sdk_cell ss grp d))) else sdk_cell ss g e)"
    and "mq_delivery_count x = bumped (snd (sdk_cell ss grp d))"
  using assms
proof (induction ss arbitrary: ss')
  case Nil
  case 1
  thus ?case by (auto simp: is_state_of_def Let_def mark_acquired_def bumped_def)
next
  case Nil
  case 2
  thus ?case by (auto simp: is_state_of_def Let_def mark_acquired_def bumped_def)
next
  case (Cons s ss)
  case 1
  show ?case
  proof (cases "is_state_of grp d s")
    case True
    thus ?thesis using 1 by (auto simp: is_state_of_def mark_acquired_def bumped_def)
  next
    case False
    obtain ss1 where u: "mock_queue_state_mut (mark_acquired sid) grp d ss = (x, ss1)" "ss' = s # ss1"
      using 1 False by (auto split: prod.splits)
    show ?thesis using Cons.IH(1)[OF u(1)] False by (auto simp: u(2) is_state_of_def)
  qed
next
  case (Cons s ss)
  case 2
  show ?case
  proof (cases "is_state_of grp d s")
    case True
    thus ?thesis using 2 by (auto simp: mark_acquired_def bumped_def)
  next
    case False
    obtain ss1 where u: "mock_queue_state_mut (mark_acquired sid) grp d ss = (x, ss1)"
      using 2 False by (auto split: prod.splits)
    show ?thesis using Cons.IH(2)[OF u] False by simp
  qed
qed

lemma deliver_mock_cells:
  assumes "deliver_mock sid grp ms ss = (qs, ss')" "distinct (map delivery_of ms)"
  shows "sdk_cell ss' g d
      = (if g = grp \<and> d \<in> delivery_of ` set ms then (MockAcquired sid, bumped (snd (sdk_cell ss grp d))) else sdk_cell ss g d)"
    and "qs = map (\<lambda>m. queue_message_from_mock m (bumped (snd (sdk_cell ss grp (delivery_of m))))) ms"
  using assms
proof (induction ms arbitrary: ss qs)
  case (Cons m ms)
  case 1
  obtain x ss1 where u: "mock_queue_state_mut (mark_acquired sid) grp (delivery_of m) ss = (x, ss1)" by fastforce
  obtain qs1 where q: "deliver_mock sid grp ms ss1 = (qs1, ss')" using 1 u by (auto split: prod.splits)
  show ?case using Cons.IH(1)[OF q] 1(2) state_mut_cell(1)[OF u] by auto
next
  case (Cons m ms)
  case 2
  obtain x ss1 where u: "mock_queue_state_mut (mark_acquired sid) grp (delivery_of m) ss = (x, ss1)" by fastforce
  obtain qs1 where q: "deliver_mock sid grp ms ss1 = (qs1, ss')" "qs = queue_message_from_mock m (mq_delivery_count x) # qs1"
    using 2 u by (auto split: prod.splits)
  have "snd (sdk_cell ss1 grp (delivery_of y)) = snd (sdk_cell ss grp (delivery_of y))" if "y \<in> set ms" for y
    using that 2(2) state_mut_cell(1)[OF u, of grp "delivery_of y"] by (auto simp: image_iff)
  thus ?case using Cons.IH(2)[OF q(1)] 2(2) q(2) state_mut_cell(2)[OF u] by auto
qed auto

lemma deliver_mock_deliveries:
  assumes "deliver_mock sid grp ms ss = (qs, ss')"
  shows "mq_delivery ` set ss' = mq_delivery ` set ss \<union> delivery_of ` set ms"
  using assms
proof (induction ms arbitrary: ss qs)
  case (Cons m ms)
  obtain x ss1 where u: "mock_queue_state_mut (mark_acquired sid) grp (delivery_of m) ss = (x, ss1)" by fastforce
  obtain qs1 where q: "deliver_mock sid grp ms ss1 = (qs1, ss')" using Cons.prems u by (auto split: prod.splits)
  have "mq_delivery ` set ss1 = mq_delivery ` set ss \<union> {delivery_of m}"
    using arg_cong[OF state_mut_keys[OF u], of "\<lambda>ks. snd ` set ks"] by (force simp: image_image split: if_splits)
  thus ?case using Cons.IH[OF q] by auto
qed auto

lemma set_disposition_None:
  assumes "distinct (map state_key ss)"
  shows "set_disposition (acquired_by sid grp d) x ss = None \<longleftrightarrow> disposition ss grp d \<noteq> MockAcquired sid"
  using assms
proof (induction ss)
  case (Cons s ss)
  have "disposition ss grp d = MockAvailable" if "is_state_of grp d s"
  proof -
    have "\<not> is_state_of grp d t" if "t \<in> set ss" for t
      using Cons.prems that \<open>is_state_of grp d s\<close> by (auto simp: is_state_of_def image_iff)
    hence "find (is_state_of grp d) ss = None" by (auto simp: find_None_iff)
    thus ?thesis by (simp add: disposition_def)
  qed
  thus ?case using Cons by (auto simp: acquired_by_def)
qed simp

lemma set_disposition_cell:
  assumes "set_disposition (acquired_by sid grp d) x ss = Some ss'" "distinct (map state_key ss)"
  shows "sdk_cell ss' g e = (if g = grp \<and> e = d then (x, snd (sdk_cell ss grp d)) else sdk_cell ss g e)"
  using assms
proof (induction ss arbitrary: ss')
  case (Cons s ss)
  show ?case
  proof (cases "acquired_by sid grp d s")
    case True
    thus ?thesis using Cons.prems by (auto simp: acquired_by_def is_state_of_def)
  next
    case False
    then obtain ss1 where s1: "set_disposition (acquired_by sid grp d) x ss = Some ss1" "ss' = s # ss1" using Cons.prems by auto
    hence "disposition ss grp d = MockAcquired sid" using set_disposition_spec(2) Cons.prems(2) by fastforce
    hence "find (is_state_of grp d) ss \<noteq> None" by (auto simp: disposition_def split: option.splits)
    hence "\<not> is_state_of grp d s" using Cons.prems(2) by (auto simp: find_None_iff is_state_of_def image_iff)
    thus ?thesis using Cons.IH[OF s1(1)] Cons.prems(2) s1(2) by (auto simp: is_state_of_def)
  qed
qed simp

lemma acquired_by_list:
  assumes "distinct (map state_key ss)"
  shows "list_ex (acquired_by sid grp d) ss \<longleftrightarrow> disposition ss grp d = MockAcquired sid"
proof -
  have "list_ex P ss \<longleftrightarrow> set_disposition P x ss \<noteq> None" for P x by (induction ss) auto
  from this[of "acquired_by sid grp d" MockAvailable] show ?thesis using set_disposition_None[OF assms, of sid grp d MockAvailable] by metis
qed

section \<open>Closed forms of the mock adapter's queue\<close>

definition mock_cell :: "stored_message \<Rightarrow> string \<Rightarrow> queue_delivery_state" where
  "mock_cell m grp =
     (case hm_get (sm_queue_states m) grp of
        Some s \<Rightarrow> s | None \<Rightarrow> \<lparr>qd_state = QAvailable, qd_session_id = None, qd_delivery_count = 0\<rparr>)"

definition counted :: "nat \<Rightarrow> nat" where
  "counted n = min (2 ^ 32 - 1) (n + 1)"

definition with_cell :: "string \<Rightarrow> queue_delivery_state \<Rightarrow> stored_message \<Rightarrow> stored_message" where
  "with_cell grp s m = m\<lparr>sm_queue_states := hm_insert grp s (sm_queue_states m)\<rparr>"

lemma with_cell_fields [simp]:
  "sm_topic (with_cell grp s m) = sm_topic m" "sm_partition (with_cell grp s m) = sm_partition m"
  "sm_offset (with_cell grp s m) = sm_offset m" "sm_value_b64 (with_cell grp s m) = sm_value_b64 m"
  "sm_headers (with_cell grp s m) = sm_headers m" "mock_cell (with_cell grp s m) g = (if g = grp then s else mock_cell m g)"
  by (simp_all add: with_cell_def mock_cell_def)

definition taken_cell :: "string \<Rightarrow> string \<Rightarrow> stored_message \<Rightarrow> queue_delivery_state" where
  "taken_cell sid grp m =
     \<lparr>qd_state = QAcquired, qd_session_id = Some sid, qd_delivery_count = counted (qd_delivery_count (mock_cell m grp))\<rparr>"

lemma cell_overwritten:
  "s\<lparr>qd_state := a, qd_session_id := b, qd_delivery_count := n\<rparr> = \<lparr>qd_state = a, qd_session_id = b, qd_delivery_count = n\<rparr>"
  for s :: queue_delivery_state
  by (cases s) simp

lemma take_message_closed:
  "take_message sid grp m =
     (acquired_json m (qd_delivery_count (taken_cell sid grp m)), with_cell grp (taken_cell sid grp m) m)"
  by (simp add: take_message_def mock_cell_def with_cell_def taken_cell_def counted_def Let_def cell_overwritten split: option.splits)

lemma acquirable_cell: "acquirable topic grp m \<longleftrightarrow> sm_topic m = topic \<and> qd_state (mock_cell m grp) = QAvailable"
  by (auto simp: acquirable_def mock_cell_def split: option.splits)

lemma acquire_messages_closed:
  assumes "distinct ms"
  shows "acquire_messages sid topic grp n ms =
    (let picked = take n (filter (acquirable topic grp) ms) in
     (map (\<lambda>m. acquired_json m (qd_delivery_count (taken_cell sid grp m))) picked,
      map (\<lambda>m. if m \<in> set picked then with_cell grp (taken_cell sid grp m) m else m) ms))"
  using assms
proof (induction ms arbitrary: n)
  case (Cons m ms)
  show ?case
  proof (cases "n \<noteq> 0 \<and> acquirable topic grp m")
    case True
    then obtain k where n: "n = Suc k" using not0_implies_Suc by blast
    have "x \<noteq> m" if "x \<in> set ms" for x using Cons.prems that by auto
    thus ?thesis using Cons.IH[of k] Cons.prems True by (simp add: n take_message_closed Let_def)
  next
    case False
    have "m \<notin> set (take k (filter (acquirable topic grp) ms))" for k
      using Cons.prems by (auto dest: in_set_takeD)
    thus ?thesis using Cons.IH[of n] Cons.prems False by (cases n) (auto simp: Let_def)
  qed
qed (simp add: Let_def)

lemma queue_state_mut_closed:
  assumes "distinct (map queue_message_id ms)" "m \<in> set ms"
  shows "queue_state_mut f grp sid (queue_message_id m) ms =
    (if held_by sid (mock_cell m grp)
     then Some (map (\<lambda>x. if x = m then with_cell grp (f (mock_cell m grp)) m else x) ms) else None)"
  using assms
proof (induction ms)
  case (Cons x ms)
  have hb: "held_by sid (mock_cell x grp) \<longleftrightarrow> (\<exists>s. hm_get (sm_queue_states x) grp = Some s \<and> held_by sid s)"
    by (auto simp: mock_cell_def held_by_def split: option.splits)
  have rest: "y \<noteq> x" if "y \<in> set ms" for y using Cons.prems that by auto
  show ?case
  proof (cases "x = m")
    case True
    thus ?thesis using rest hb
      by (auto simp: mock_cell_def with_cell_def map_idI split: option.splits)
  next
    case False
    hence "queue_message_id x \<noteq> queue_message_id m" using Cons.prems by auto
    thus ?thesis using Cons False by auto
  qed
qed simp

lemma queue_state_mut_absent: "mid \<notin> queue_message_id ` set ms \<Longrightarrow> queue_state_mut f grp sid mid ms = None"
  by (induction ms) auto

section \<open>Names\<close>

definition alias_name :: "nat \<Rightarrow> string" where "alias_name n = ''queue-session-'' @ show_nat n"
definition real_name :: "nat \<Rightarrow> string" where "real_name n = ''mock-queue-session-'' @ show_nat n"

lemma show_nat_inj: "show_nat m = show_nat n \<longleftrightarrow> m = n"
  by (metis option.inject parse_digits_show)

lemma names_inj [simp]: "alias_name m = alias_name n \<longleftrightarrow> m = n" "real_name m = real_name n \<longleftrightarrow> m = n"
  by (simp_all add: alias_name_def real_name_def show_nat_inj)

lemma show_int_inj: "show_int m = show_int n \<longleftrightarrow> m = n"
  by (metis option.inject parse_signed_show)

lemma show_int_no_colon: "CHR '':'' \<notin> set (show_int n)"
  using show_int_chars[of n] by (auto simp: is_ascii_digit_def)

lemma coordinate_id_split:
  "rsplit_once CHR '':'' (coordinate_id (t, p, n)) = Some (t @ '':'' @ show_int p, show_int n)"
  "rsplit_once CHR '':'' (t @ '':'' @ show_int p) = Some (t, show_int p)"
  using rsplit_once_last[OF show_int_no_colon, of "t @ '':'' @ show_int p" n] rsplit_once_last[OF show_int_no_colon, of t p]
  by (simp_all add: coordinate_id_def)

lemma coordinate_id_inj: "coordinate_id d = coordinate_id e \<longleftrightarrow> d = e"
proof
  assume i: "coordinate_id d = coordinate_id e"
  obtain t p n t' p' n' where d: "d = (t, p, n)" "e = (t', p', n')" by (metis prod_cases3)
  have "t @ '':'' @ show_int p = t' @ '':'' @ show_int p'" "n = n'"
    using arg_cong[OF i, of "rsplit_once CHR '':''"] by (simp_all only: d coordinate_id_split option.inject prod.inject show_int_inj)
  moreover from this(1) have "Some (t, show_int p) = Some (t', show_int p')"
    by (metis coordinate_id_split(2))
  ultimately show "d = e" by (simp add: d show_int_inj)
qed simp

lemma parse_message_id_coordinate:
  assumes "t \<noteq> []" "in_i32 p" "in_i64 n"
  shows "parse_message_id (coordinate_id (t, p, n)) = Some (t, p, n)"
  using assms
  by (simp add: parse_message_id_def coordinate_id_split parse_i64_def parse_i32_def in_bounds_def parse_signed_show int_bounds del: append.simps append_Cons)

section \<open>The relation\<close>

definition same_message :: "adapter_lib \<Rightarrow> mock_message \<Rightarrow> stored_message \<Rightarrow> bool" where
  "same_message al m x \<longleftrightarrow>
     sm_topic x = mm_topic m \<and> sm_partition x = mm_partition m \<and> sm_offset x = mm_offset m \<and>
     sm_value_b64 x = al_encode al (mm_value m) \<and> sm_headers x = encode_headers al (mm_headers m)"

fun same_holder :: "queue_message_state \<Rightarrow> string option \<Rightarrow> mock_disposition \<Rightarrow> bool" where
  "same_holder st sid MockAvailable \<longleftrightarrow> st = QAvailable"
| "same_holder st sid (MockAcquired r) \<longleftrightarrow> st = QAcquired \<and> (\<exists>j. sid = Some (alias_name j) \<and> r = real_name j)"
| "same_holder st sid MockAccepted \<longleftrightarrow> st = QAccepted"
| "same_holder st sid MockRejected \<longleftrightarrow> st = QRejected"

definition same_cell :: "nat \<Rightarrow> queue_delivery_state \<Rightarrow> mock_disposition \<times> int \<Rightarrow> bool" where
  "same_cell n s c \<longleftrightarrow>
     int (qd_delivery_count s) = snd c \<and> qd_delivery_count s \<le> n \<and> same_holder (qd_state s) (qd_session_id s) (fst c)"

definition same_row :: "adapter_lib \<Rightarrow> nat \<Rightarrow> mock_queue_state list \<Rightarrow> mock_message \<Rightarrow> stored_message \<Rightarrow> bool" where
  "same_row al n ss m x \<longleftrightarrow> same_message al m x \<and> (\<forall>grp. same_cell n (mock_cell x grp) (sdk_cell ss grp (delivery_of m)))"

text \<open>The messages of a topic are numbered from 0 on in partition 0.\<close>

definition messages_ok :: "mock_message list \<Rightarrow> bool" where
  "messages_ok ms \<longleftrightarrow> distinct (map delivery_of ms) \<and>
     (\<forall>m\<in>set ms. mm_offset m < int (length (filter (\<lambda>x. mm_topic x = mm_topic m) ms)))"

definition same_queue :: "adapter_lib \<Rightarrow> nat \<Rightarrow> mock_state \<Rightarrow> stored_message list \<Rightarrow> bool" where
  "same_queue al n st ms \<longleftrightarrow>
     list_all2 (same_row al n (mk_states st)) (mk_messages st) ms \<and> messages_ok (mk_messages st) \<and>
     distinct (map state_key (mk_states st)) \<and> mq_delivery ` set (mk_states st) \<subseteq> delivery_of ` set (mk_messages st)"

definition session_info :: "mock_session \<Rightarrow> adapter_session" where
  "session_info s = \<lparr>as_topic = ms_topic s, as_group = ms_group s, as_max_messages = ms_max_messages s\<rparr>"

definition same_sessions :: "nat \<Rightarrow> mock_session list \<Rightarrow> mock_adapter \<Rightarrow> 'w sdk_adapter \<Rightarrow> bool" where
  "same_sessions n ss a s \<longleftrightarrow>
     (let k = length ss in
      k \<le> n \<and> ma_next_session_id a = k + 1 \<and> sa_next_queue_session_id s = k \<and>
      map ms_id ss = map (\<lambda>j. real_name (Suc j)) [0..<k] \<and>
      sa_queue_sessions s = map (\<lambda>j. (alias_name (Suc j), real_name (Suc j))) [0..<k] \<and>
      ma_queue_sessions a = map (\<lambda>j. (alias_name (Suc j), session_info (ss ! j))) [0..<k])"

definition sdk_filter_of :: "wire_filter option \<Rightarrow> sdk_filter option" where
  "sdk_filter_of filt = map_option (\<lambda>f. \<lparr>sf_path = wf_path f, sf_value = wf_value f\<rparr>) filt"

definition flat_filter :: "wire_filter option \<Rightarrow> bool" where
  "flat_filter filt \<longleftrightarrow> (\<forall>f. filt = Some f \<longrightarrow> CHR ''.'' \<notin> set (drop 2 (wf_path f)))"

definition wanted :: "sdk_lib \<Rightarrow> adapter_subscription \<Rightarrow> mock_message \<Rightarrow> bool" where
  "wanted lib sub m \<longleftrightarrow> mm_topic m \<in> set (ab_topics sub) \<and> sdk_filter_matches lib (sdk_filter_of (ab_filter sub)) (mm_value m)"

definition same_stream :: "sdk_lib \<Rightarrow> bool \<Rightarrow> mock_message list \<Rightarrow> adapter_subscription option \<Rightarrow>
    (bool \<times> (krabka_error + sdk_inbound) list) option \<Rightarrow> bool" where
  "same_stream lib fresh ms sub stream \<longleftrightarrow>
     (case (sub, stream) of
        (None, None) \<Rightarrow> True
      | (Some sub, Some (ready, items)) \<Rightarrow>
          ready \<and> flat_filter (ab_filter sub) \<and>
          (fresh \<longrightarrow> items = map (\<lambda>m. Ok (inbound_from_mock m)) (filter (wanted lib sub) (drop (ab_next_index sub) ms)))
      | _ \<Rightarrow> False)"

definition agree :: "'w sdk_adapter_lib \<Rightarrow> bool \<Rightarrow> nat \<Rightarrow> mock_adapter \<Rightarrow> 'w sdk_adapter \<Rightarrow> bool" where
  "agree xl fresh n a s \<longleftrightarrow>
     (\<exists>c. sa_client s = Some c \<and> is_mock c \<and>
        \<not> starts_with ''unreachable://'' (ma_endpoint a) \<and> ma_fault_mode a = NoFault \<and>
        ma_contract_minor a = CONTRACT_MINOR_QUEUE_RPC \<and>
        same_queue (xl_adapter xl) n (kc_mock c) (ma_messages a) \<and>
        same_sessions n (mk_sessions (kc_mock c)) a s \<and>
        same_stream (xl_sdk xl) fresh (mk_messages (kc_mock c)) (ma_subscription a) (sa_stream s))"

section \<open>Portable commands\<close>

definition canonical_text :: "adapter_lib \<Rightarrow> string \<Rightarrow> bool" where
  "canonical_text al t \<longleftrightarrow> is_ok (al_decode al t)"

definition canonical_headers :: "adapter_lib \<Rightarrow> wire_header list \<Rightarrow> bool" where
  "canonical_headers al hs \<longleftrightarrow> list_all (\<lambda>h. case wh_value_b64 h of None \<Rightarrow> True | Some t \<Rightarrow> canonical_text al t) hs"

text \<open>A message id as the queue prints it.\<close>

definition canonical_id :: "string \<Rightarrow> bool" where
  "canonical_id mid = (case parse_message_id mid of Some d \<Rightarrow> coordinate_id d = mid | None \<Rightarrow> False)"

fun portable :: "adapter_lib \<Rightarrow> bool \<Rightarrow> command \<Rightarrow> bool" where
  "portable al fresh (CmdPublish _ v hs) \<longleftrightarrow> canonical_text al v \<and> canonical_headers al hs"
| "portable al fresh (CmdPublishEvent _ e) \<longleftrightarrow> canonical_text al (we_data_b64 e)"
| "portable al fresh (CmdSubscribe _ _ filt) \<longleftrightarrow> flat_filter filt"
| "portable al fresh (CmdNextMessage _) \<longleftrightarrow> fresh"
| "portable al fresh (CmdQueueAcquire _ _ _ _ sid) \<longleftrightarrow> \<not> starts_with ''mock-queue-session-'' sid"
| "portable al fresh (CmdQueueAcknowledge sid es) \<longleftrightarrow> sid \<noteq> [] \<and> list_all (\<lambda>e. canonical_id (wa_message_id e)) es"
| "portable al fresh (CmdQueueRenew sid es) \<longleftrightarrow> sid \<noteq> [] \<and> list_all (\<lambda>e. canonical_id (wr_message_id e)) es"
| "portable al fresh (CmdBlobPut _ v) \<longleftrightarrow> canonical_text al v"
| "portable al fresh CmdHello \<longleftrightarrow> False"
| "portable al fresh (CmdConfigure _ _) \<longleftrightarrow> False"
| "portable al fresh _ \<longleftrightarrow> True"

text \<open>Whether nothing has been published since the current subscription was opened.\<close>

fun still_fresh :: "command \<Rightarrow> bool \<Rightarrow> bool" where
  "still_fresh (CmdPublish _ _ _) fresh = False"
| "still_fresh (CmdPublishEvent _ _) fresh = False"
| "still_fresh (CmdSubscribe _ _ filt) fresh = (fresh \<or> Option.bind filt validate_filter = None)"
| "still_fresh _ fresh = fresh"

fun portable_run :: "adapter_lib \<Rightarrow> bool \<Rightarrow> command list \<Rightarrow> bool" where
  "portable_run al fresh [] \<longleftrightarrow> True"
| "portable_run al fresh (c # cs) \<longleftrightarrow> portable al fresh c \<and> portable_run al (still_fresh c fresh) cs"

section \<open>The simulation\<close>

lemma same_cell_mono: "same_cell n s c \<Longrightarrow> n \<le> n' \<Longrightarrow> same_cell n' s c"
  by (auto simp: same_cell_def)

lemma same_row_mono: "same_row al n ss m x \<Longrightarrow> n \<le> n' \<Longrightarrow> same_row al n' ss m x"
  by (auto simp: same_row_def intro: same_cell_mono)

lemma same_queue_mono: "same_queue al n st ms \<Longrightarrow> n \<le> n' \<Longrightarrow> same_queue al n' st ms"
  by (auto simp: same_queue_def elim!: list_all2_mono intro: same_row_mono)

lemma same_sessions_mono: "same_sessions n ss a s \<Longrightarrow> n \<le> n' \<Longrightarrow> same_sessions n' ss a s"
  by (auto simp: same_sessions_def Let_def)

lemma same_sessions_update [simp]:
  "same_sessions n ss (a\<lparr>ma_subscription := x\<rparr>) s = same_sessions n ss a s"
  "same_sessions n ss (a\<lparr>ma_messages := ms\<rparr>) s = same_sessions n ss a s"
  "same_sessions n ss a (s\<lparr>sa_client := c\<rparr>) = same_sessions n ss a s"
  "same_sessions n ss a (s\<lparr>sa_stream := t\<rparr>) = same_sessions n ss a s"
  by (simp_all add: same_sessions_def)

lemma same_stream_stale: "same_stream lib fresh ms sub stream \<Longrightarrow> same_stream lib False ms' sub stream"
  by (auto simp: same_stream_def split: option.splits)

lemma agree_Suc: "agree xl fresh n a s \<Longrightarrow> agree xl fresh (Suc n) a s"
  unfolding agree_def using same_queue_mono[of _ n _ _ "Suc n"] same_sessions_mono[of n _ _ _ "Suc n"] by fastforce

lemma canonical_text_decodes:
  assumes "base64_canonical al" "canonical_text al t"
  obtains v where "al_decode al t = Ok v" "t = al_encode al v"
  using assms by (cases "al_decode al t") (auto simp: canonical_text_def base64_canonical_def)

lemma decode_encode [simp]: "base64_canonical al \<Longrightarrow> al_decode al (al_encode al v) = Ok v"
  by (simp add: base64_canonical_def)

lemma headers_canonical:
  assumes "base64_canonical al" "canonical_headers al hs"
  shows "encode_headers al (decode_headers al hs) = hs"
  using assms(2)
proof (induction hs)
  case (Cons h hs)
  have "\<lparr>wh_name = wh_name h, wh_value_b64 = map_option (al_encode al)
      (Option.bind (wh_value_b64 h) (\<lambda>t. case al_decode al t of Ok b \<Rightarrow> Some b | Err _ \<Rightarrow> None))\<rparr> = h"
  proof (cases "wh_value_b64 h")
    case (Some t)
    hence "canonical_text al t" using Cons.prems by (simp add: canonical_headers_def)
    then obtain v where "al_decode al t = Ok v" "t = al_encode al v" using canonical_text_decodes[OF assms(1)] by blast
    thus ?thesis using Some by (cases h) simp
  qed (cases h, simp)
  thus ?case using Cons by (simp add: encode_headers_def decode_headers_def canonical_headers_def)
qed (simp add: encode_headers_def decode_headers_def)

lemma same_topics:
  assumes "list_all2 (same_row al n ss) msgs ms"
  shows "length (filter (\<lambda>x. sm_topic x = t) ms) = length (filter (\<lambda>m. mm_topic m = t) msgs)"
  using assms by (induction rule: list_all2_induct) (auto simp: same_row_def same_message_def)

lemma messages_ok_append:
  assumes "messages_ok ms"
  shows "messages_ok (ms @ [\<lparr>mm_topic = t, mm_partition = 0, mm_offset = int (length (filter (\<lambda>m. mm_topic m = t) ms)),
     mm_value = v, mm_headers = hs\<rparr>])"
    and "(t, 0, int (length (filter (\<lambda>m. mm_topic m = t) ms))) \<notin> delivery_of ` set ms"
proof -
  show new: "(t, 0, int (length (filter (\<lambda>m. mm_topic m = t) ms))) \<notin> delivery_of ` set ms"
    using assms by (auto simp: messages_ok_def delivery_of_def)
  show "messages_ok (ms @ [\<lparr>mm_topic = t, mm_partition = 0, mm_offset = int (length (filter (\<lambda>m. mm_topic m = t) ms)),
     mm_value = v, mm_headers = hs\<rparr>])"
    using assms new by (auto simp: messages_ok_def delivery_of_def image_iff)
qed

lemma sdk_cell_absent: "d \<notin> mq_delivery ` set ss \<Longrightarrow> sdk_cell ss g d = (MockAvailable, 0)"
  by (induction ss) (auto simp: is_state_of_def)

lemma same_queue_append:
  assumes "same_queue al n st ms" and offset_def: "offset = int (length (filter (\<lambda>m. mm_topic m = t) (mk_messages st)))"
  shows "same_queue al n
    (st\<lparr>mk_messages := mk_messages st @ [\<lparr>mm_topic = t, mm_partition = 0, mm_offset = offset, mm_value = v, mm_headers = hs\<rparr>]\<rparr>)
    (ms @ [\<lparr>sm_topic = t, sm_partition = 0, sm_offset = offset, sm_value_b64 = al_encode al v,
       sm_headers = encode_headers al hs, sm_queue_states = []\<rparr>])"
proof -
  have ok: "messages_ok (mk_messages st)" and sub: "mq_delivery ` set (mk_states st) \<subseteq> delivery_of ` set (mk_messages st)"
    using assms by (auto simp: same_queue_def)
  have "sdk_cell (mk_states st) g (t, 0, offset) = (MockAvailable, 0)" for g
    using messages_ok_append(2)[OF ok, of t] sub unfolding offset_def by (intro sdk_cell_absent) blast
  thus ?thesis
    using assms messages_ok_append(1)[OF ok]
    by (auto simp: same_queue_def same_row_def same_message_def same_cell_def mock_cell_def delivery_of_def offset_def
        intro: list_all2_appendI)
qed

lemma publish_step:
  assumes ag: "agree xl fresh n a s" and c: "sa_client s = Some c"
  shows "fst (mock_publish topic (al_encode (xl_adapter xl) v) (encode_headers (xl_adapter xl) hs) a)
      = published_response (fst (publish rpc topic v (default_options\<lparr>po_headers := hs\<rparr>) c))"
    and "agree xl False n (snd (mock_publish topic (al_encode (xl_adapter xl) v) (encode_headers (xl_adapter xl) hs) a))
      (s\<lparr>sa_client := Some (snd (publish rpc topic v (default_options\<lparr>po_headers := hs\<rparr>) c))\<rparr>)"
proof -
  have q: "same_queue (xl_adapter xl) n (kc_mock c) (ma_messages a)" and m: "is_mock c"
    and rest: "\<not> starts_with ''unreachable://'' (ma_endpoint a)" "ma_fault_mode a = NoFault"
    using ag c by (auto simp: agree_def)
  have len: "length (filter (\<lambda>x. sm_topic x = topic) (ma_messages a)) = length (filter (\<lambda>m. mm_topic m = topic) (mk_messages (kc_mock c)))"
    using same_topics q by (auto simp: same_queue_def)
  show "fst (mock_publish topic (al_encode (xl_adapter xl) v) (encode_headers (xl_adapter xl) hs) a)
      = published_response (fst (publish rpc topic v (default_options\<lparr>po_headers := hs\<rparr>) c))"
    using m rest by (simp add: mock_publish_def publish_def publish_mock_def published_response_def error_response_def
        invalid_argument_def Let_def len)
  show "agree xl False n (snd (mock_publish topic (al_encode (xl_adapter xl) v) (encode_headers (xl_adapter xl) hs) a))
      (s\<lparr>sa_client := Some (snd (publish rpc topic v (default_options\<lparr>po_headers := hs\<rparr>) c))\<rparr>)"
    using ag c m rest same_queue_append[OF q refl, of topic v hs]
    by (auto simp: mock_publish_def publish_def publish_mock_def default_options_def Let_def len agree_def is_mock_def
        intro: same_stream_stale)
qed

lemma valid_segments: "valid_filter_segment = identifier_segment"
  by (rule ext) (simp add: valid_filter_segment_def identifier_segment_def)

lemma filter_error_same:
  "(case to_gateway_filter lib \<lparr>sf_path = wf_path f, sf_value = wf_value f\<rparr> of Err e \<Rightarrow> Some (error_response e) | Ok _ \<Rightarrow> None)
     = map_option RespError (validate_filter f)"
  by (cases "wf_op f"; cases "wf_value f")
    (auto simp: to_gateway_filter_def validate_filter_def strip_dollar_def filter_field_def gateway_filter_literal_def
      valid_segments error_response_def and_then_def)

lemma mock_filter_same:
  assumes "base64_canonical al" "al_from_slice al = sl_from_slice lib" "flat_filter filt" "same_message al m x"
  shows "mock_filter_matches al filt x = sdk_filter_matches lib (sdk_filter_of filt) (mm_value m)"
proof (cases filt)
  case (Some f)
  have op: "wf_op f = EqualsOp" by (cases "wf_op f") simp
  have dot: "CHR ''.'' \<notin> set (drop 2 (wf_path f))" using assms(3) Some by (simp add: flat_filter_def)
  show ?thesis
    using assms(1,2,4) Some op split_on_none[OF dot]
    by (auto simp: mock_filter_matches_def sdk_filter_matches_def sdk_filter_of_def same_message_def filter_field_def
        strip_dollar_def split: option.splits json.splits)
qed (simp_all add: mock_filter_matches_def sdk_filter_matches_def sdk_filter_of_def)

lemma subscribe_step:
  assumes ag: "agree xl fresh n a s" and c: "sa_client s = Some c" and flat: "flat_filter filt"
  shows "fst (mock_subscribe topics filt a) = fst (sdk_subscribe xl topics grp filt s)
    \<and> agree xl (fresh \<or> Option.bind filt validate_filter = None) n (snd (mock_subscribe topics filt a)) (snd (sdk_subscribe xl topics grp filt s))"
proof -
  have m: "is_mock c" using ag c by (auto simp: agree_def)
  let ?f = "sdk_filter_of filt"
  let ?r = "case ?f of None \<Rightarrow> Ok None | Some f \<Rightarrow> and_then (to_gateway_filter (xl_sdk xl) f) (\<lambda>t. Ok (Some t))"
  have err: "(case ?r of Err e \<Rightarrow> Some (error_response e) | Ok _ \<Rightarrow> None) = map_option RespError (Option.bind filt validate_filter)"
  proof (cases filt)
    case (Some f)
    show ?thesis
      using filter_error_same[of "xl_sdk xl" f] Some
      by (cases "to_gateway_filter (xl_sdk xl) \<lparr>sf_path = wf_path f, sf_value = wf_value f\<rparr>")
        (simp_all add: sdk_filter_of_def)
  qed (simp add: sdk_filter_of_def)
  have sub: "sdk_subscribe xl topics grp filt s =
      (case Option.bind filt validate_filter of
         Some e \<Rightarrow> (RespError e, s)
       | None \<Rightarrow> (RespOk (JObject []), s\<lparr>sa_stream := Some (True, subscribe_mock (xl_sdk xl) topics ?f (kc_mock c))\<rparr>))"
    using err m c
    by (auto simp: sdk_subscribe_def with_client_def subscribe_def sdk_filter_of_def[symmetric] split: sum.splits option.splits)
  have items: "subscribe_mock (xl_sdk xl) topics ?f (kc_mock c) =
      map (\<lambda>m. Ok (inbound_from_mock m)) (filter (wanted (xl_sdk xl) \<lparr>ab_topics = topics, ab_filter = filt, ab_next_index = 0\<rparr>) (mk_messages (kc_mock c)))"
    by (simp add: subscribe_mock_def wanted_def[abs_def] le_max_iff_disj)
  show ?thesis
    using ag c flat items
    by (cases "Option.bind filt validate_filter")
      (auto simp: sub mock_subscribe_def agree_def same_stream_def)
qed

lemma scan_messages_same:
  assumes "base64_canonical al" "al_from_slice al = sl_from_slice lib" "flat_filter (ab_filter sub)"
    and "list_all2 (same_row al n ss) msgs ms" "scan_messages al sub ms = (r, sub')"
  shows "ab_topics sub' = ab_topics sub \<and> ab_filter sub' = ab_filter sub \<and>
    (case filter (wanted lib sub) msgs of
       [] \<Rightarrow> r = None \<and> ab_next_index sub' = ab_next_index sub + length msgs
     | m # rest \<Rightarrow> (\<exists>x k. r = Some x \<and> same_message al m x \<and> ab_next_index sub' = ab_next_index sub + k \<and> rest = filter (wanted lib sub) (drop k msgs)))"
  using assms(4,5,3)
proof (induction msgs arbitrary: ms sub)
  case (Cons m msgs)
  obtain x xs where ms: "ms = x # xs" "same_message al m x" "list_all2 (same_row al n ss) msgs xs"
    using Cons.prems(1) unfolding list_all2_Cons1 same_row_def[of al n ss m] by blast
  let ?sub = "sub\<lparr>ab_next_index := ab_next_index sub + 1\<rparr>"
  have w: "wanted lib ?sub = wanted lib sub" by (rule ext) (simp add: wanted_def)
  have mw: "wanted lib sub m \<longleftrightarrow> sm_topic x \<in> set (ab_topics sub) \<and> mock_filter_matches al (ab_filter sub) x"
    using ms(2) mock_filter_same[OF assms(1,2) Cons.prems(3) ms(2)] by (auto simp: wanted_def same_message_def)
  show ?case
  proof (cases "wanted lib sub m")
    case True
    hence "r = Some x" "sub' = ?sub" using Cons.prems(2) mw by (auto simp: ms(1) Let_def)
    thus ?thesis using True ms(2) by (auto intro!: exI[of _ 1])
  next
    case False
    hence scan: "scan_messages al ?sub xs = (r, sub')" using Cons.prems(2) mw by (auto simp: ms(1) Let_def split: if_splits)
    have "flat_filter (ab_filter ?sub)" using Cons.prems(3) by simp
    note ih = Cons.IH[OF ms(3) scan this, unfolded w]
    show ?thesis
    proof (cases "filter (wanted lib sub) msgs")
      case Nil
      thus ?thesis using ih False by simp
    next
      case (Cons y rest)
      then obtain z k where "r = Some z" "same_message al y z" "ab_next_index sub' = ab_next_index sub + Suc k"
        "rest = filter (wanted lib sub) (drop k msgs)" using ih by auto
      thus ?thesis using ih Cons False by (auto intro!: exI[of _ "Suc k"])
    qed
  qed
qed auto

lemma next_step:
  assumes ag: "agree xl True n a s" and lib: "base64_canonical (xl_adapter xl)" "al_from_slice (xl_adapter xl) = sl_from_slice (xl_sdk xl)"
  shows "fst (mock_next_message (xl_adapter xl) a) = fst (sdk_next_message xl t s)
    \<and> agree xl True n (snd (mock_next_message (xl_adapter xl) a)) (snd (sdk_next_message xl t s))"
proof -
  obtain c where c: "sa_client s = Some c" "same_queue (xl_adapter xl) n (kc_mock c) (ma_messages a)"
    and st: "same_stream (xl_sdk xl) True (mk_messages (kc_mock c)) (ma_subscription a) (sa_stream s)"
    using ag by (auto simp: agree_def)
  show ?thesis
  proof (cases "ma_subscription a")
    case None
    hence "sa_stream s = None" using st by (simp add: same_stream_def split: option.splits)
    thus ?thesis using ag None by (simp add: mock_next_message_def sdk_next_message_def invalid_argument_def error_response_def)
  next
    case (Some sub)
    let ?msgs = "drop (ab_next_index sub) (mk_messages (kc_mock c))"
    let ?want = "filter (wanted (xl_sdk xl) sub)"
    have stream: "sa_stream s = Some (True, map (\<lambda>m. Ok (inbound_from_mock m)) (?want ?msgs))" and flat: "flat_filter (ab_filter sub)"
      using st Some by (auto simp: same_stream_def split: option.splits)
    obtain r sub' where scan: "scan_messages (xl_adapter xl) sub (drop (ab_next_index sub) (ma_messages a)) = (r, sub')" by fastforce
    have rows: "list_all2 (same_row (xl_adapter xl) n (mk_states (kc_mock c))) ?msgs (drop (ab_next_index sub) (ma_messages a))"
      using c(2) by (auto simp: same_queue_def intro: list_all2_dropI)
    note sp = scan_messages_same[OF lib flat rows scan]
    have w: "wanted (xl_sdk xl) sub' = wanted (xl_sdk xl) sub" using sp by (intro ext) (simp add: wanted_def)
    show ?thesis
    proof (cases "?want ?msgs")
      case Nil
      hence "r = None" "ab_next_index sub' = ab_next_index sub + length ?msgs" using sp by simp_all
      moreover from this(2) have "drop (ab_next_index sub') (mk_messages (kc_mock c)) = []" by simp
      ultimately show ?thesis using ag c(1) Some stream scan Nil sp flat w
        by (auto simp: mock_next_message_def sdk_next_message_def no_message_def error_response_def agree_def same_stream_def)
    next
      case (Cons m rest)
      then obtain x k where x: "r = Some x" "same_message (xl_adapter xl) m x" "ab_next_index sub' = ab_next_index sub + k"
        "rest = ?want (drop k ?msgs)" using sp by auto
      have "stored_to_wire x = inbound_to_wire (xl_adapter xl) (inbound_from_mock m)"
        using x(2) by (simp add: stored_to_wire_def inbound_to_wire_def inbound_from_mock_def same_message_def)
      thus ?thesis using ag c(1) Some stream scan Cons sp flat w x
        by (auto simp: mock_next_message_def sdk_next_message_def agree_def same_stream_def add.commute)
    qed
  qed
qed

subsection \<open>Queues\<close>

lemma alias_map_of:
  "j < k \<Longrightarrow> map_of (map (\<lambda>j. (alias_name (Suc j), f j)) [0..<k]) (alias_name (Suc j)) = Some (f j)"
  "\<forall>j<k. sid \<noteq> alias_name (Suc j) \<Longrightarrow> map_of (map (\<lambda>j. (alias_name (Suc j), f j)) [0..<k]) sid = None"
proof -
  have "distinct (map fst (map (\<lambda>j. (alias_name (Suc j), f j)) [0..<k]))"
    by (auto simp: distinct_map inj_on_def)
  thus "j < k \<Longrightarrow> map_of (map (\<lambda>j. (alias_name (Suc j), f j)) [0..<k]) (alias_name (Suc j)) = Some (f j)"
    by (intro map_of_is_SomeI) auto
  show "\<forall>j<k. sid \<noteq> alias_name (Suc j) \<Longrightarrow> map_of (map (\<lambda>j. (alias_name (Suc j), f j)) [0..<k]) sid = None"
    unfolding map_of_eq_None_iff by (simp only: set_map image_image fst_conv) fastforce
qed

lemma find_session:
  assumes "map ms_id ss = map (\<lambda>j. real_name (Suc j)) [0..<length ss]"
  shows "j < length ss \<Longrightarrow> find (\<lambda>s. ms_id s = real_name (Suc j)) ss = Some (ss ! j)"
    and "\<not> starts_with ''mock-queue-session-'' sid \<Longrightarrow> find (\<lambda>s. ms_id s = sid) ss = None"
proof -
  have id: "ms_id (ss ! i) = real_name (Suc i)" if "i < length ss" for i
    using arg_cong[OF assms, of "\<lambda>xs. xs ! i"] that by simp
  show "find (\<lambda>s. ms_id s = real_name (Suc j)) ss = Some (ss ! j)" if "j < length ss"
    using that id by (auto simp: find_Some_iff)
  show "find (\<lambda>s. ms_id s = sid) ss = None" if "\<not> starts_with ''mock-queue-session-'' sid"
  proof -
    have "ms_id (ss ! i) \<noteq> sid" if "i < length ss" for i
      using that id \<open>\<not> starts_with _ sid\<close> by (auto simp: starts_with_def real_name_def)
    thus ?thesis by (auto simp: find_None_iff in_set_conv_nth)
  qed
qed

lemma rows_filter:
  assumes "list_all2 R xs ys" "\<And>x y. x \<in> set xs \<Longrightarrow> R x y \<Longrightarrow> P x = Q y"
  shows "list_all2 R (filter P xs) (filter Q ys)"
  using assms by (induction rule: list_all2_induct) auto

lemma same_holder_available: "same_holder st sid x \<Longrightarrow> x = MockAvailable \<longleftrightarrow> st = QAvailable"
  by (cases x) auto

lemma row_available:
  assumes "same_row al n ss m x"
  shows "mm_topic m = topic \<and> mock_message_is_available ss grp m \<longleftrightarrow> acquirable topic grp x"
proof -
  have "same_holder (qd_state (mock_cell x grp)) (qd_session_id (mock_cell x grp)) (disposition ss grp (delivery_of m))"
    using assms by (simp add: same_row_def same_cell_def sdk_cell_disposition)
  from same_holder_available[OF this] show ?thesis
    using assms by (auto simp: same_row_def same_message_def acquirable_cell available_disposition)
qed

lemma message_ids: "same_message al m x \<Longrightarrow> queue_message_id x = coordinate_id (delivery_of m)"
  by (simp add: queue_message_id_def coordinate_id_def delivery_of_def same_message_def)

lemma same_queue_ids:
  assumes "same_queue al n st ms"
  shows "map queue_message_id ms = map (\<lambda>m. coordinate_id (delivery_of m)) (mk_messages st)" "distinct (map queue_message_id ms)"
proof -
  have "list_all2 (same_row al n (mk_states st)) (mk_messages st) ms" using assms by (simp add: same_queue_def)
  thus ids: "map queue_message_id ms = map (\<lambda>m. coordinate_id (delivery_of m)) (mk_messages st)"
    by (induction rule: list_all2_induct) (auto simp: same_row_def message_ids)
  have "distinct (map delivery_of (mk_messages st))" using assms by (simp add: same_queue_def messages_ok_def)
  hence "distinct (map coordinate_id (map delivery_of (mk_messages st)))"
    by (intro distinct_map[THEN iffD2]) (auto simp: inj_on_def coordinate_id_inj)
  thus "distinct (map queue_message_id ms)" by (simp add: ids comp_def)
qed

lemma counted_bumped: "n < 2 ^ 31 - 1 \<Longrightarrow> int (counted n) = bumped (int n)"
  by (simp add: counted_def bumped_def i32_MAX_def)

lemma acquired_json_same:
  assumes "same_message al m x"
  shows "acquired_json x k = queue_message_json al (queue_message_from_mock m (int k))"
  using assms by (simp add: acquired_json_def queue_message_json_def queue_message_from_mock_def same_message_def
      queue_message_id_def message_id_def json_opt_def)

lemma rows_map: "list_all2 R xs ys \<Longrightarrow> (\<And>x y. R x y \<Longrightarrow> f x = g y) \<Longrightarrow> map f xs = map g ys"
  by (induction rule: list_all2_induct) auto

lemma rows_map_right: "list_all2 R xs ys \<Longrightarrow> (\<And>x y. x \<in> set xs \<Longrightarrow> y \<in> set ys \<Longrightarrow> R x y \<Longrightarrow> R' x (h y)) \<Longrightarrow> list_all2 R' xs (map h ys)"
  by (induction rule: list_all2_induct) auto

lemma rows_partner:
  assumes "same_queue al n st ms" "m \<in> set (mk_messages st)" "x \<in> set ms" "same_message al m x"
    and sub: "list_all2 (same_row al n (mk_states st)) us vs" "set us \<subseteq> set (mk_messages st)" "set vs \<subseteq> set ms"
  shows "m \<in> set us \<longleftrightarrow> x \<in> set vs"
proof -
  have inj: "inj_on delivery_of (set (mk_messages st))" "inj_on queue_message_id (set ms)"
    using assms(1) same_queue_ids(2)[OF assms(1)] by (auto simp: same_queue_def messages_ok_def distinct_map)
  have ids: "queue_message_id y = coordinate_id (delivery_of u)" if "(u, y) \<in> set (zip us vs)" for u y
    using sub(1) that by (auto simp: list_all2_iff same_row_def message_ids)
  have len: "length us = length vs" using sub(1) by (rule list_all2_lengthD)
  show ?thesis
  proof
    assume "m \<in> set us"
    then obtain y where y: "(m, y) \<in> set (zip us vs)" using len by (metis in_set_impl_in_set_zip1)
    hence "queue_message_id y = queue_message_id x" "y \<in> set vs" using ids message_ids[OF assms(4)] by (auto dest: set_zip_rightD)
    thus "x \<in> set vs" using inj(2) sub(3) assms(3) by (metis inj_onD subsetD)
  next
    assume "x \<in> set vs"
    then obtain u where u: "(u, x) \<in> set (zip us vs)" using len by (metis in_set_impl_in_set_zip2)
    hence "coordinate_id (delivery_of u) = coordinate_id (delivery_of m)" "u \<in> set us"
      using ids message_ids[OF assms(4)] by (auto dest: set_zip_leftD)
    hence "delivery_of u = delivery_of m" by (simp add: coordinate_id_inj)
    thus "m \<in> set us" using inj(1) sub(2) assms(2) \<open>u \<in> set us\<close> by (metis inj_onD subsetD)
  qed
qed

lemma taken_same:
  assumes "same_cell n (mock_cell x grp) (sdk_cell ss grp d)" "n < 2 ^ 31 - 1"
  shows "same_cell (Suc n) (taken_cell (alias_name j) grp x) (MockAcquired (real_name j), bumped (snd (sdk_cell ss grp d)))"
    and "int (qd_delivery_count (taken_cell (alias_name j) grp x)) = bumped (snd (sdk_cell ss grp d))"
proof -
  have c: "int (qd_delivery_count (mock_cell x grp)) = snd (sdk_cell ss grp d)" "qd_delivery_count (mock_cell x grp) \<le> n"
    using assms(1) by (auto simp: same_cell_def)
  have "qd_delivery_count (mock_cell x grp) < 2 ^ 31 - 1" using c(2) assms(2) by linarith
  from counted_bumped[OF this] show n: "int (qd_delivery_count (taken_cell (alias_name j) grp x)) = bumped (snd (sdk_cell ss grp d))"
    by (simp add: taken_cell_def c(1))
  show "same_cell (Suc n) (taken_cell (alias_name j) grp x) (MockAcquired (real_name j), bumped (snd (sdk_cell ss grp d)))"
    using n c(2) by (auto simp: same_cell_def taken_cell_def counted_def)
qed

lemma same_queue_acquire:
  assumes q: "same_queue al n st ms" and n: "n < 2 ^ 31 - 1"
    and deliver: "deliver_mock (real_name j) grp
      (take k (filter (\<lambda>m. mm_topic m = topic \<and> mock_message_is_available (mk_states st) grp m) (mk_messages st))) (mk_states st) = (qs, ss')"
    and acquire: "acquire_messages (alias_name j) topic grp k ms = (js, ms')"
    and st': "mk_messages st' = mk_messages st" "mk_states st' = ss'"
  shows "js = map (queue_message_json al) qs" "same_queue al (Suc n) st' ms'"
proof -
  let ?ss = "mk_states st" and ?msgs = "mk_messages st"
  let ?us = "take k (filter (\<lambda>m. mm_topic m = topic \<and> mock_message_is_available ?ss grp m) ?msgs)"
  let ?vs = "take k (filter (acquirable topic grp) ms)"
  let ?up = "\<lambda>x. if x \<in> set ?vs then with_cell grp (taken_cell (alias_name j) grp x) x else x"
  have rows: "list_all2 (same_row al n ?ss) ?msgs ms" and ok: "messages_ok ?msgs" using q by (auto simp: same_queue_def)
  have sub: "list_all2 (same_row al n ?ss) ?us ?vs"
    by (rule list_all2_takeI[OF rows_filter[OF rows]]) (rule row_available)
  have "distinct ms" using same_queue_ids(2)[OF q] by (simp add: distinct_map)
  hence js: "js = map (\<lambda>x. acquired_json x (qd_delivery_count (taken_cell (alias_name j) grp x))) ?vs" "ms' = map ?up ms"
    using acquire by (simp_all add: acquire_messages_closed Let_def)
  have du: "distinct (map delivery_of ?us)" using ok by (simp add: messages_ok_def distinct_map_filter take_map[symmetric])
  note d = deliver_mock_cells[OF deliver du]
  have "queue_message_json al (queue_message_from_mock m (bumped (snd (sdk_cell ?ss grp (delivery_of m)))))
      = acquired_json x (qd_delivery_count (taken_cell (alias_name j) grp x))" if "same_row al n ?ss m x" for m x
    using that taken_same(2)[OF _ n, of x grp ?ss "delivery_of m" j] acquired_json_same[of al m x]
    by (simp add: same_row_def)
  from rows_map[OF sub this] show "js = map (queue_message_json al) qs" by (simp add: js(1) d(2) comp_def)
  have "list_all2 (same_row al (Suc n) ss') ?msgs (map ?up ms)"
  proof (rule rows_map_right[OF rows])
    fix m x assume m: "m \<in> set ?msgs" "x \<in> set ms" "same_row al n ?ss m x"
    have "set ?us \<subseteq> set ?msgs" "set ?vs \<subseteq> set ms" by (meson set_take_subset filter_is_subset subset_trans)+
    hence "m \<in> set ?us \<longleftrightarrow> x \<in> set ?vs"
      using rows_partner[OF q m(1,2) _ sub] m(3) by (simp add: same_row_def)
    moreover have "delivery_of m \<in> delivery_of ` set ?us \<longleftrightarrow> m \<in> set ?us"
      using ok m(1) \<open>set ?us \<subseteq> set ?msgs\<close>
      by (intro inj_on_image_mem_iff[of _ "set ?msgs"]) (auto simp: messages_ok_def distinct_map)
    ultimately show "same_row al (Suc n) ss' m (?up x)"
      using m(3) taken_same(1)[OF _ n, of x grp ?ss "delivery_of m" j]
      by (auto simp: same_row_def same_message_def d(1) intro: same_cell_mono)
  qed
  thus "same_queue al (Suc n) st' ms'"
    using q deliver_mock_spec(2)[OF deliver] deliver_mock_deliveries[OF deliver]
    by (auto simp: same_queue_def st' js(2) dest: in_set_takeD)
qed

lemma session_lookup:
  assumes "same_sessions n ss a s"
  shows "j < length ss \<Longrightarrow> hm_get (ma_queue_sessions a) (alias_name (Suc j)) = Some (session_info (ss ! j))"
    and "j < length ss \<Longrightarrow> hm_get (sa_queue_sessions s) (alias_name (Suc j)) = Some (real_name (Suc j))"
    and "\<forall>j<length ss. sid \<noteq> alias_name (Suc j) \<Longrightarrow>
       hm_get (ma_queue_sessions a) sid = None \<and> hm_get (sa_queue_sessions s) sid = None"
proof -
  have ma: "ma_queue_sessions a = map (\<lambda>j. (alias_name (Suc j), session_info (ss ! j))) [0..<length ss]"
    and sa: "sa_queue_sessions s = map (\<lambda>j. (alias_name (Suc j), real_name (Suc j))) [0..<length ss]"
    using assms by (auto simp: same_sessions_def Let_def)
  show "j < length ss \<Longrightarrow> hm_get (ma_queue_sessions a) (alias_name (Suc j)) = Some (session_info (ss ! j))"
    unfolding ma by (rule alias_map_of(1))
  show "j < length ss \<Longrightarrow> hm_get (sa_queue_sessions s) (alias_name (Suc j)) = Some (real_name (Suc j))"
    unfolding sa by (rule alias_map_of(1))
  show "\<forall>j<length ss. sid \<noteq> alias_name (Suc j) \<Longrightarrow> hm_get (ma_queue_sessions a) sid = None \<and> hm_get (sa_queue_sessions s) sid = None"
    unfolding ma sa by (intro conjI alias_map_of(2))
qed

lemma hm_insert_new: "hm_get m k = None \<Longrightarrow> hm_insert k v m = m @ [(k, v)]"
  by (induction m) (auto split: if_splits)

lemma alias_for_known:
  assumes "same_sessions n ss a s" "j < length ss"
  shows "alias_for_queue_session (real_name (Suc j)) s = (alias_name (Suc j), s)"
proof -
  have "find (\<lambda>(_, stored). stored = real_name (Suc j)) (sa_queue_sessions s) = Some (alias_name (Suc j), real_name (Suc j))"
    using assms by (auto simp: same_sessions_def Let_def find_Some_iff intro!: exI[of _ j])
  thus ?thesis by (simp add: alias_for_queue_session_def)
qed

lemma alias_for_new:
  assumes "same_sessions n ss a s"
  shows "alias_for_queue_session (real_name (Suc (length ss))) s = (alias_name (Suc (length ss)),
    s\<lparr>sa_next_queue_session_id := Suc (length ss),
      sa_queue_sessions := sa_queue_sessions s @ [(alias_name (Suc (length ss)), real_name (Suc (length ss)))]\<rparr>)"
proof -
  have "find (\<lambda>(_, stored). stored = real_name (Suc (length ss))) (sa_queue_sessions s) = None"
    using assms by (auto simp: same_sessions_def Let_def find_None_iff)
  moreover have "hm_get (sa_queue_sessions s) (alias_name (Suc (length ss))) = None"
    using session_lookup(3)[OF assms] by auto
  ultimately show ?thesis using assms
    unfolding alias_for_queue_session_def Let_def alias_name_def[symmetric]
    by (simp add: same_sessions_def Let_def hm_insert_new)
qed

lemma same_sessions_new:
  assumes "same_sessions n ss a s" "n < 2 ^ 31 - 1"
  shows "acquire_session topic grp mx [] a = (Ok (alias_name (Suc (length ss))),
      a\<lparr>ma_next_session_id := Suc (Suc (length ss)),
        ma_queue_sessions := ma_queue_sessions a @ [(alias_name (Suc (length ss)),
          \<lparr>as_topic = topic, as_group = grp, as_max_messages = min (max mx 1) 500\<rparr>)]\<rparr>)"
    and "same_sessions (Suc n) (ss @ [\<lparr>ms_id = real_name (Suc (length ss)), ms_topic = topic, ms_group = grp, ms_max_messages = m\<rparr>])
      (a\<lparr>ma_next_session_id := Suc (Suc (length ss)),
        ma_queue_sessions := ma_queue_sessions a @ [(alias_name (Suc (length ss)),
          \<lparr>as_topic = topic, as_group = grp, as_max_messages = m\<rparr>)]\<rparr>)
      (s\<lparr>sa_next_queue_session_id := Suc (length ss),
        sa_queue_sessions := sa_queue_sessions s @ [(alias_name (Suc (length ss)), real_name (Suc (length ss)))]\<rparr>)"
proof -
  have k: "length ss \<le> n" "ma_next_session_id a = Suc (length ss)" using assms(1) by (auto simp: same_sessions_def Let_def)
  have "hm_get (ma_queue_sessions a) (alias_name (Suc (length ss))) = None" using session_lookup(3)[OF assms(1)] by auto
  moreover have "next_queue_session_id a = (alias_name (Suc (length ss)), a\<lparr>ma_next_session_id := Suc (Suc (length ss))\<rparr>)"
    using k assms(2) by (simp add: next_queue_session_id_def alias_name_def)
  ultimately show "acquire_session topic grp mx [] a = (Ok (alias_name (Suc (length ss))),
      a\<lparr>ma_next_session_id := Suc (Suc (length ss)),
        ma_queue_sessions := ma_queue_sessions a @ [(alias_name (Suc (length ss)),
          \<lparr>as_topic = topic, as_group = grp, as_max_messages = min (max mx 1) 500\<rparr>)]\<rparr>)"
    by (simp add: acquire_session_def Let_def hm_insert_new)
  show "same_sessions (Suc n) (ss @ [\<lparr>ms_id = real_name (Suc (length ss)), ms_topic = topic, ms_group = grp, ms_max_messages = m\<rparr>])
      (a\<lparr>ma_next_session_id := Suc (Suc (length ss)),
        ma_queue_sessions := ma_queue_sessions a @ [(alias_name (Suc (length ss)),
          \<lparr>as_topic = topic, as_group = grp, as_max_messages = m\<rparr>)]\<rparr>)
      (s\<lparr>sa_next_queue_session_id := Suc (length ss),
        sa_queue_sessions := sa_queue_sessions s @ [(alias_name (Suc (length ss)), real_name (Suc (length ss)))]\<rparr>)"
    using assms(1) by (auto simp: same_sessions_def Let_def session_info_def nth_append)
qed

lemma mock_session_id_new:
  "mock_session_id ss [] topic grp mx em =
     (Ok (real_name (Suc (length ss))), ss @ [\<lparr>ms_id = real_name (Suc (length ss)), ms_topic = topic, ms_group = grp, ms_max_messages = em\<rparr>])"
  by (simp add: mock_session_id_def real_name_def Let_def)

lemma known_session:
  assumes "same_sessions n ss a s" "j < length ss"
  shows "acquire_session topic grp mx (alias_name (Suc j)) a =
      (map_err (\<lambda>e. case e of InvalidArg t \<Rightarrow> t | _ \<Rightarrow> []) (and_then (fst (mock_session_id ss (real_name (Suc j)) topic grp mx (min (max mx 1) 500)))
         (\<lambda>_. Ok (alias_name (Suc j)))), a)"
    and "mock_session_id ss (real_name (Suc j)) topic grp mx em = (r, ss') \<Longrightarrow>
       ss' = ss \<and> (r = Ok (real_name (Suc j)) \<or> (\<exists>t. r = Err (InvalidArg t)))"
proof -
  have ids: "map ms_id ss = map (\<lambda>j. real_name (Suc j)) [0..<length ss]" using assms(1) by (simp add: same_sessions_def Let_def)
  have ne: "real_name (Suc j) \<noteq> []" "alias_name (Suc j) \<noteq> []" by (simp_all add: real_name_def alias_name_def)
  note f = find_session(1)[OF ids assms(2)] session_lookup(1)[OF assms]
  show "acquire_session topic grp mx (alias_name (Suc j)) a =
      (map_err (\<lambda>e. case e of InvalidArg t \<Rightarrow> t | _ \<Rightarrow> []) (and_then (fst (mock_session_id ss (real_name (Suc j)) topic grp mx (min (max mx 1) 500)))
         (\<lambda>_. Ok (alias_name (Suc j)))), a)"
    using ne by (cases "mx = 0") (auto simp: acquire_session_def mock_session_id_def f Let_def session_info_def max_def)
  show "mock_session_id ss (real_name (Suc j)) topic grp mx em = (r, ss') \<Longrightarrow>
       ss' = ss \<and> (r = Ok (real_name (Suc j)) \<or> (\<exists>t. r = Err (InvalidArg t)))"
    using ne by (auto simp: mock_session_id_def f split: if_splits)
qed

lemma alias_for_client:
  "alias_for_queue_session r (s\<lparr>sa_client := x\<rparr>) = (fst (alias_for_queue_session r s), (snd (alias_for_queue_session r s))\<lparr>sa_client := x\<rparr>)"
  by (simp add: alias_for_queue_session_def Let_def split: option.splits)

lemma acquire_in_session:
  assumes ag: "agree xl fresh n a s" and n: "n < 2 ^ 31 - 1" and c: "sa_client s = Some c"
    and guards: "grp \<noteq> []" "topic \<noteq> []" "lock = 30000"
    and a1: "acquire_session topic grp mx sid a = (Ok (alias_name j), a1)"
      "ma_messages a1 = ma_messages a" "ma_endpoint a1 = ma_endpoint a" "ma_fault_mode a1 = ma_fault_mode a"
      "ma_contract_minor a1 = ma_contract_minor a" "ma_subscription a1 = ma_subscription a"
    and m1: "mock_session_id (mk_sessions (kc_mock c)) (case hm_get (sa_queue_sessions s) sid of Some r \<Rightarrow> r | None \<Rightarrow> sid)
        topic grp mx (min (max mx 1) 500) = (Ok (real_name j), ss1)"
    and s1: "alias_for_queue_session (real_name j) s = (alias_name j, s1)" "sa_stream s1 = sa_stream s"
    and same: "same_sessions (Suc n) ss1 a1 s1"
  shows "fst (mock_queue_acquire topic grp mx lock sid a) = fst (sdk_queue_acquire xl topic grp mx lock sid s)
    \<and> agree xl fresh (Suc n) (snd (mock_queue_acquire topic grp mx lock sid a)) (snd (sdk_queue_acquire xl topic grp mx lock sid s))"
proof -
  let ?st = "kc_mock c"
  have m: "is_mock c" and q: "same_queue (xl_adapter xl) n ?st (ma_messages a)"
    and minor: "ma_contract_minor a = CONTRACT_MINOR_QUEUE_RPC" using ag c by (auto simp: agree_def)
  let ?us = "take (min (max mx 1) 500) (filter (\<lambda>m. mm_topic m = topic \<and> mock_message_is_available (mk_states ?st) grp m) (mk_messages ?st))"
  obtain qs ss' where d: "deliver_mock (real_name j) grp ?us (mk_states ?st) = (qs, ss')" by fastforce
  obtain js ms' where acq: "acquire_messages (alias_name j) topic grp (min (max mx 1) 500) (ma_messages a) = (js, ms')" by fastforce
  let ?st' = "?st\<lparr>mk_sessions := ss1, mk_states := ss'\<rparr>"
  let ?opts = "default_acquire_options\<lparr>ao_max := mx, ao_lock_duration_ms := lock\<rparr>"
  have o: "ao_max ?opts = mx" by simp
  have sdk: "acquire_mock topic grp ?opts (case hm_get (sa_queue_sessions s) sid of Some r \<Rightarrow> r | None \<Rightarrow> sid) ?st
      = (Ok (real_name j, qs), ?st')"
    unfolding acquire_mock_def o m1 Let_def using d by simp
  note same_q = same_queue_acquire[OF q n d acq, of ?st']
  have mock: "mock_queue_acquire topic grp mx lock sid a = (acquire_response (alias_name j) js, a1\<lparr>ma_messages := ms'\<rparr>)"
    using guards minor a1(1) acq by (simp add: mock_queue_acquire_def a1(2))
  have "sdk_queue_acquire xl topic grp mx lock sid s =
      (acquire_response (alias_name j) (map (queue_message_json (xl_adapter xl)) qs), s1\<lparr>sa_client := Some (c\<lparr>kc_mock := ?st'\<rparr>)\<rparr>)"
    using c m guards sdk s1(1)
    by (simp add: sdk_queue_acquire_def with_client_def acquire_with_session_def SUPPORTED_QUEUE_LOCK_DURATION_MS_def alias_for_client)
  thus ?thesis using mock ag c m same_q same a1(3-) s1(2) by (auto simp: agree_def is_mock_def)
qed

lemma acquire_step:
  assumes ag: "agree xl fresh n a s" and n: "n < 2 ^ 31 - 1" and port: "\<not> starts_with ''mock-queue-session-'' sid"
  shows "fst (mock_queue_acquire topic grp mx lock sid a) = fst (sdk_queue_acquire xl topic grp mx lock sid s)
    \<and> agree xl fresh (Suc n) (snd (mock_queue_acquire topic grp mx lock sid a)) (snd (sdk_queue_acquire xl topic grp mx lock sid s))"
proof -
  obtain c where c: "sa_client s = Some c" "is_mock c" "ma_contract_minor a = CONTRACT_MINOR_QUEUE_RPC"
    "same_sessions n (mk_sessions (kc_mock c)) a s" using ag by (auto simp: agree_def)
  let ?ss = "mk_sessions (kc_mock c)"
  have ids: "map ms_id ?ss = map (\<lambda>j. real_name (Suc j)) [0..<length ?ss]" using c(4) by (simp add: same_sessions_def Let_def)
  have lock: "show_nat 30000 = ''30000''"
    using char_of_char[where 'a = nat and c = "CHR ''3''"] char_of_char[where 'a = nat and c = "CHR ''0''"]
    by (simp add: show_nat.simps digit_char_def)
  show ?thesis
  proof (cases "grp \<noteq> [] \<and> topic \<noteq> [] \<and> lock = 30000")
    case False
    thus ?thesis using c agree_Suc[OF ag] lock
      by (auto simp: mock_queue_acquire_def sdk_queue_acquire_def with_client_def acquire_with_session_def invalid_argument_def
          error_response_def SUPPORTED_QUEUE_LOCK_DURATION_MS_def agree_def)
  next
    case True
    hence g: "grp \<noteq> []" "topic \<noteq> []" "lock = 30000" by simp_all
    consider (new) "sid = []" | (known) j where "sid = alias_name (Suc j)" "j < length ?ss"
      | (unknown) "sid \<noteq> []" "\<forall>j<length ?ss. sid \<noteq> alias_name (Suc j)" by blast
    thus ?thesis
    proof cases
      case new
      have "hm_get (sa_queue_sessions s) [] = None" using session_lookup(3)[OF c(4), of "[]"] by (simp add: alias_name_def)
      thus ?thesis
        using new acquire_in_session[OF ag n c(1) g same_sessions_new(1)[OF c(4) n] _ _ _ _ _ _ alias_for_new[OF c(4)] _ same_sessions_new(2)[OF c(4) n]]
        by (simp add: mock_session_id_new)
    next
      case known
      obtain r ss' where r: "mock_session_id ?ss (real_name (Suc j)) topic grp mx (min (max mx 1) 500) = (r, ss')" by fastforce
      note kn = known_session(1)[OF c(4) known(2), of topic grp mx] session_lookup(2)[OF c(4) known(2)]
      from known_session(2)[OF c(4) known(2) r] consider "ss' = ?ss" "r = Ok (real_name (Suc j))" | t where "ss' = ?ss" "r = Err (InvalidArg t)" by blast
      thus ?thesis
      proof cases
        case 1
        show ?thesis
        proof (rule acquire_in_session[OF ag n c(1) g, where j = "Suc j"])
          show "alias_for_queue_session (real_name (Suc j)) s = (alias_name (Suc j), s)" by (rule alias_for_known[OF c(4) known(2)])
          show "same_sessions (Suc n) ?ss a s" using c(4) by (rule same_sessions_mono) simp
        qed (use 1 known r kn in simp_all)
      next
        case 2
        hence "acquire_session topic grp mx sid a = (Err t, a)" using kn(1) r known(1) by simp
        thus ?thesis using 2 known r kn(2) c g agree_Suc[OF ag]
          by (auto simp: mock_queue_acquire_def sdk_queue_acquire_def with_client_def acquire_with_session_def acquire_mock_def
              invalid_argument_def error_response_def SUPPORTED_QUEUE_LOCK_DURATION_MS_def agree_def)
      qed
    next
      case unknown
      note un = session_lookup(3)[OF c(4) unknown(2)]
      have "acquire_session topic grp mx sid a = (Err ''queue session expired; re-acquire'', a)"
        using un unknown(1) by (simp add: acquire_session_def Let_def)
      moreover have "mock_session_id ?ss sid topic grp mx (min (max mx 1) 500) = (Err (InvalidArg ''queue session expired; re-acquire''), ?ss)"
        using unknown(1) find_session(2)[OF ids port] by (simp add: mock_session_id_def)
      ultimately show ?thesis using un c g agree_Suc[OF ag]
        by (auto simp: mock_queue_acquire_def sdk_queue_acquire_def with_client_def acquire_with_session_def acquire_mock_def
            invalid_argument_def error_response_def SUPPORTED_QUEUE_LOCK_DURATION_MS_def agree_def)
    qed
  qed
qed

lemma held_same: "same_cell n s c \<Longrightarrow> held_by (alias_name j) s \<longleftrightarrow> fst c = MockAcquired (real_name j)"
  by (cases "fst c") (auto simp: same_cell_def held_by_def)

definition sdk_ack :: "wire_ack_type \<Rightarrow> queue_ack_type" where
  "sdk_ack t = (case t of WireAccept \<Rightarrow> AckAccept | WireRelease \<Rightarrow> AckRelease | WireReject \<Rightarrow> AckReject)"

lemma settled_same:
  assumes "same_cell n s c"
  shows "same_cell n (settle_state t s) (disposition_of (sdk_ack t), snd c)"
  using assms by (cases t) (simp_all add: same_cell_def settle_state_def sdk_ack_def)

lemma settle_same:
  assumes q: "same_queue al n st ms"
  shows "queue_state_mut f grp (alias_name j) (coordinate_id d) ms = None \<longleftrightarrow>
      disposition (mk_states st) grp d \<noteq> MockAcquired (real_name j)"
    and "queue_state_mut (settle_state t) grp (alias_name j) (coordinate_id d) ms = Some ms' \<Longrightarrow>
      set_disposition (acquired_by (real_name j) grp d) (disposition_of (sdk_ack t)) (mk_states st) = Some ss' \<Longrightarrow>
      same_queue al n (st\<lparr>mk_states := ss'\<rparr>) ms'"
proof -
  let ?ss = "mk_states st" and ?msgs = "mk_messages st"
  have rows: "list_all2 (same_row al n ?ss) ?msgs ms" and dist: "distinct (map state_key ?ss)"
    and sub: "mq_delivery ` set ?ss \<subseteq> delivery_of ` set ?msgs" using q by (auto simp: same_queue_def)
  note ids = same_queue_ids[OF q]
  show iff: "queue_state_mut f grp (alias_name j) (coordinate_id d) ms = None \<longleftrightarrow>
      disposition ?ss grp d \<noteq> MockAcquired (real_name j)" for f
  proof (cases "d \<in> delivery_of ` set ?msgs")
    case True
    then obtain i where i: "i < length ?msgs" "delivery_of (?msgs ! i) = d" by (auto simp: in_set_conv_nth)
    have r: "same_row al n ?ss (?msgs ! i) (ms ! i)" "i < length ms"
      using rows i(1) by (auto simp: list_all2_conv_all_nth)
    have mid: "queue_message_id (ms ! i) = coordinate_id d" using r(1) i(2) message_ids by (auto simp: same_row_def)
    have "held_by (alias_name j) (mock_cell (ms ! i) grp) \<longleftrightarrow> disposition ?ss grp d = MockAcquired (real_name j)"
      using held_same[of n "mock_cell (ms ! i) grp" "sdk_cell ?ss grp d" j] r(1) i(2) by (simp add: same_row_def sdk_cell_disposition)
    thus ?thesis using queue_state_mut_closed[OF ids(2) nth_mem[OF r(2)], of f grp "alias_name j"] by (simp add: mid)
  next
    case False
    hence "coordinate_id d \<notin> queue_message_id ` set ms"
      using arg_cong[OF ids(1), of set] by (auto simp: coordinate_id_inj image_iff)
    moreover have "sdk_cell ?ss grp d = (MockAvailable, 0)" using False sub by (intro sdk_cell_absent) blast
    ultimately show ?thesis using sdk_cell_disposition[of ?ss grp d] by (simp add: queue_state_mut_absent)
  qed
  assume m: "queue_state_mut (settle_state t) grp (alias_name j) (coordinate_id d) ms = Some ms'"
    and d: "set_disposition (acquired_by (real_name j) grp d) (disposition_of (sdk_ack t)) ?ss = Some ss'"
  note cell = set_disposition_cell[OF d dist]
  have "coordinate_id d \<in> queue_message_id ` set ms" using m queue_state_mut_absent by fastforce
  then obtain x where x: "x \<in> set ms" "queue_message_id x = coordinate_id d" by auto
  have ms': "ms' = map (\<lambda>y. if y = x then with_cell grp (settle_state t (mock_cell x grp)) x else y) ms"
    using m queue_state_mut_closed[OF ids(2) x(1), of "settle_state t" grp "alias_name j"] by (auto simp: x(2) split: if_splits)
  have "list_all2 (same_row al n ss') ?msgs ms'"
    unfolding ms'
  proof (rule rows_map_right[OF rows])
    fix u y assume u: "u \<in> set ?msgs" "y \<in> set ms" "same_row al n ?ss u y"
    have "y = x \<longleftrightarrow> delivery_of u = d"
    proof -
      have "queue_message_id y = coordinate_id (delivery_of u)" using u(3) message_ids[of al u y] by (simp add: same_row_def)
      moreover have "queue_message_id y = queue_message_id x \<longleftrightarrow> y = x"
        using u(2) x(1) ids(2) by (metis distinct_map inj_onD)
      ultimately show ?thesis using x(2) by (auto simp: coordinate_id_inj)
    qed
    thus "same_row al n ss' u (if y = x then with_cell grp (settle_state t (mock_cell x grp)) x else y)"
      using u(3) settled_same[of n "mock_cell x grp" "sdk_cell ?ss grp (delivery_of u)" t] by (auto simp: same_row_def same_message_def cell)
  qed
  moreover have "mq_delivery ` set ss' = mq_delivery ` set ?ss"
    using arg_cong[OF set_disposition_spec(1)[OF d dist], of "\<lambda>ks. snd ` set ks"] by (simp add: image_image)
  ultimately show "same_queue al n (st\<lparr>mk_states := ss'\<rparr>) ms'"
    using q set_disposition_spec(1)[OF d dist] by (simp add: same_queue_def)
qed

lemma canonical_entry:
  assumes "canonical_id mid"
  obtains d where "parse_message_id mid = Some d" "coordinate_id d = mid"
  using assms by (auto simp: canonical_id_def split: option.splits)

lemma not_acquired_value: "adapter_error_value (InvalidArg ''queue message is not acquired'') = not_acquired_json"
  by (simp add: adapter_error_value_def error_response_def adapter_error_to_json_def adapter_with_message_def present_field_def not_acquired_json_def)

lemma ack_results_same:
  assumes "same_queue al n st ms" "list_all (\<lambda>e. canonical_id (wa_message_id e)) es"
    and "ack_results grp (alias_name j) es ms = (js, ms')"
  shows "\<exists>es' rs ss'. collect_results (map (\<lambda>e. wire_ack_to_sdk (wa_message_id e) (wa_ack_type e)) es) = Ok es' \<and>
    acknowledge_mock_entries (real_name j) grp es' (mk_states st) = (rs, ss') \<and> js = queue_results rs \<and>
    same_queue al n (st\<lparr>mk_states := ss'\<rparr>) ms'"
  using assms
proof (induction es arbitrary: st ms js)
  case (Cons e es)
  obtain d where d: "parse_message_id (wa_message_id e) = Some d" "coordinate_id d = wa_message_id e"
    using canonical_entry[of "wa_message_id e"] Cons.prems(2) by (metis list.pred_inject(2))
  obtain t p k where dd: "d = (t, p, k)" by (metis prod_cases3)
  let ?e = "\<lparr>qa_topic = t, qa_partition = p, qa_offset = k, qa_type = sdk_ack (wa_ack_type e)\<rparr>"
  have w: "wire_ack_to_sdk (wa_message_id e) (wa_ack_type e) = Ok ?e" "renew_entry_of ?e = d"
    using d(1) by (simp_all add: wire_ack_to_sdk_def wire_renew_to_sdk_def dd sdk_ack_def renew_entry_of_def)
  have dist: "distinct (map state_key (mk_states st))" using Cons.prems(1) by (simp add: same_queue_def)
  let ?m = "queue_state_mut (settle_state (wa_ack_type e)) grp (alias_name j) (wa_message_id e) ms"
  let ?s = "set_disposition (acquired_by (real_name j) grp d) (disposition_of (sdk_ack (wa_ack_type e))) (mk_states st)"
  have iff: "?m = None \<longleftrightarrow> ?s = None"
    using settle_same(1)[OF Cons.prems(1), of "settle_state (wa_ack_type e)" grp j d] set_disposition_None[OF dist] by (simp add: d(2))
  obtain j1 ms1 where r: "mock_queue_ack_result grp (alias_name j) e ms = (j1, ms1)" by fastforce
  obtain js1 where rest: "ack_results grp (alias_name j) es ms1 = (js1, ms')" "js = j1 # js1"
    using Cons.prems(3) r by (auto split: prod.splits)
  have can: "list_all (\<lambda>e. canonical_id (wa_message_id e)) es" using Cons.prems(2) by simp
  show ?case
  proof (cases ?m)
    case None
    hence "ms1 = ms" "j1 = entry_result (wa_message_id e) not_acquired_json" "?s = None"
      using r iff by (auto simp: mock_queue_ack_result_def)
    thus ?thesis using Cons.IH[OF Cons.prems(1) can, of js1] rest w d(2)
      by (auto simp: queue_results_def queue_result_error_def not_acquired_value)
  next
    case (Some ms2)
    then obtain ss2 where s2: "?s = Some ss2" using iff by auto
    have "ms1 = ms2" "j1 = entry_result (wa_message_id e) JNull" using r Some by (auto simp: mock_queue_ack_result_def)
    moreover have "same_queue al n (st\<lparr>mk_states := ss2\<rparr>) ms2"
      using settle_same(2)[OF Cons.prems(1), of "wa_ack_type e" grp j d ms2 ss2] Some s2 by (simp add: d(2))
    ultimately show ?thesis using Cons.IH[of "st\<lparr>mk_states := ss2\<rparr>" ms2 js1] can rest w d(2) s2
      by (auto simp: queue_results_def)
  qed
qed (simp add: queue_results_def)

lemma session_cases:
  assumes "same_sessions n ss a s" "map ms_id ss = map (\<lambda>j. real_name (Suc j)) [0..<length ss]"
  obtains (unknown) "hm_get (ma_queue_sessions a) sid = None" "hm_get (sa_queue_sessions s) sid = None"
  | (known) j where "sid = alias_name (Suc j)" "hm_get (ma_queue_sessions a) sid = Some (session_info (ss ! j))"
      "hm_get (sa_queue_sessions s) sid = Some (real_name (Suc j))" "find (\<lambda>x. ms_id x = real_name (Suc j)) ss = Some (ss ! j)"
proof (cases "\<forall>j<length ss. sid \<noteq> alias_name (Suc j)")
  case True
  from session_lookup(3)[OF assms(1) this] show ?thesis by (intro unknown) simp_all
next
  case False
  then obtain j where j: "j < length ss" "sid = alias_name (Suc j)" by blast
  show ?thesis using session_lookup(1,2)[OF assms(1) j(1)] find_session(1)[OF assms(2) j(1)] by (intro known[OF j(2)]) (simp_all add: j(2))
qed

lemma acknowledge_step:
  assumes ag: "agree xl fresh n a s" and port: "sid \<noteq> []" "list_all (\<lambda>e. canonical_id (wa_message_id e)) es"
  shows "fst (mock_queue_acknowledge sid es a) = fst (sdk_queue_acknowledge xl sid es s)
    \<and> agree xl fresh n (snd (mock_queue_acknowledge sid es a)) (snd (sdk_queue_acknowledge xl sid es s))"
proof -
  obtain c where c: "sa_client s = Some c" "is_mock c" "ma_contract_minor a = CONTRACT_MINOR_QUEUE_RPC"
    "same_sessions n (mk_sessions (kc_mock c)) a s" "same_queue (xl_adapter xl) n (kc_mock c) (ma_messages a)"
    using ag by (auto simp: agree_def)
  have ids: "map ms_id (mk_sessions (kc_mock c)) = map (\<lambda>j. real_name (Suc j)) [0..<length (mk_sessions (kc_mock c))]"
    using c(4) by (simp add: same_sessions_def Let_def)
  from c(4) ids show ?thesis
  proof (cases rule: session_cases[where sid = sid])
    case unknown
    thus ?thesis using ag c(1,3) port(1)
      by (simp add: mock_queue_acknowledge_def sdk_queue_acknowledge_def with_client_def invalid_argument_def error_response_def)
  next
    case (known j)
    let ?x = "mk_sessions (kc_mock c) ! j"
    obtain js ms' where r: "ack_results (ms_group ?x) (alias_name (Suc j)) es (ma_messages a) = (js, ms')" by fastforce
    obtain es' rs ss' where w: "collect_results (map (\<lambda>e. wire_ack_to_sdk (wa_message_id e) (wa_ack_type e)) es) = Ok es'"
      "acknowledge_mock_entries (real_name (Suc j)) (ms_group ?x) es' (mk_states (kc_mock c)) = (rs, ss')" "js = queue_results rs"
      "same_queue (xl_adapter xl) n (kc_mock c\<lparr>mk_states := ss'\<rparr>) ms'"
      using ack_results_same[OF c(5) port(2) r] by blast
    show ?thesis using ag c(1-3) port(1) known r w
      by (auto simp: mock_queue_acknowledge_def sdk_queue_acknowledge_def with_client_def session_info_def acknowledge_def
          acknowledge_mock_def settled_response_def agree_def is_mock_def)
  qed
qed

lemma renew_step:
  assumes ag: "agree xl fresh n a s" and port: "sid \<noteq> []" "list_all (\<lambda>e. canonical_id (wr_message_id e)) es"
  shows "mock_queue_renew sid es a = (fst (sdk_queue_renew xl sid es s), a) \<and> snd (sdk_queue_renew xl sid es s) = s"
proof -
  obtain c where c: "sa_client s = Some c" "is_mock c" "ma_contract_minor a = CONTRACT_MINOR_QUEUE_RPC"
    "same_sessions n (mk_sessions (kc_mock c)) a s" "same_queue (xl_adapter xl) n (kc_mock c) (ma_messages a)"
    using ag by (auto simp: agree_def)
  have ids: "map ms_id (mk_sessions (kc_mock c)) = map (\<lambda>j. real_name (Suc j)) [0..<length (mk_sessions (kc_mock c))]"
    using c(4) by (simp add: same_sessions_def Let_def)
  have dist: "distinct (map state_key (mk_states (kc_mock c)))" using c(5) by (simp add: same_queue_def)
  from c(4) ids show ?thesis
  proof (cases rule: session_cases[where sid = sid])
    case unknown
    thus ?thesis using c(1,3) port(1)
      by (simp add: mock_queue_renew_def sdk_queue_renew_def with_client_def invalid_argument_def error_response_def)
  next
    case (known j)
    let ?x = "mk_sessions (kc_mock c) ! j"
    let ?r = "\<lambda>d. if list_ex (acquired_by (real_name (Suc j)) (ms_group ?x) d) (mk_states (kc_mock c))
      then \<lparr>qx_entry = d, qx_error = None\<rparr> else queue_result_error d ''queue message is not acquired''"
    have "\<exists>ds. collect_results (map (\<lambda>e. wire_renew_to_sdk (wr_message_id e)) es) = Ok ds \<and>
        map (\<lambda>e. queue_renew_result (ms_group ?x) (alias_name (Suc j)) e (ma_messages a)) es = queue_results (map ?r ds)"
      using port(2)
    proof (induction es)
      case (Cons e es)
      obtain d where d: "parse_message_id (wr_message_id e) = Some d" "coordinate_id d = wr_message_id e"
        using canonical_entry[of "wr_message_id e"] Cons.prems by (metis list.pred_inject(2))
      have "queue_renew_result (ms_group ?x) (alias_name (Suc j)) e (ma_messages a) = hd (queue_results [?r d])"
        using settle_same(1)[OF c(5), of "\<lambda>s. s" "ms_group ?x" "Suc j" d] acquired_by_list[OF dist, of "real_name (Suc j)" "ms_group ?x" d]
        by (simp add: queue_renew_result_def queue_results_def d(2) queue_result_error_def not_acquired_value)
      thus ?case using Cons d(1) by (auto simp: wire_renew_to_sdk_def queue_results_def)
    qed (simp add: queue_results_def)
    then obtain ds where "collect_results (map (\<lambda>e. wire_renew_to_sdk (wr_message_id e)) es) = Ok ds"
      "map (\<lambda>e. queue_renew_result (ms_group ?x) (alias_name (Suc j)) e (ma_messages a)) es = queue_results (map ?r ds)" by blast
    thus ?thesis using c(1-3) port(1) known
      by (cases s) (auto simp: mock_queue_renew_def sdk_queue_renew_def with_client_def session_info_def renew_def renew_mock_def settled_response_def)
  qed
qed

section \<open>Agreement on portable runs\<close>

lemma handle_step:
  assumes ag: "agree xl fresh n a s" and n: "n < 2 ^ 31 - 1"
    and lib: "base64_canonical (xl_adapter xl)" "al_from_slice (xl_adapter xl) = sl_from_slice (xl_sdk xl)"
    and port: "portable (xl_adapter xl) fresh cmd"
  shows "fst (mock_handle (xl_adapter xl) cmd a) = fst (sdk_handle xl cmd s) \<and>
    agree xl (still_fresh cmd fresh) (Suc n) (snd (mock_handle (xl_adapter xl) cmd a)) (snd (sdk_handle xl cmd s))"
proof -
  obtain c where c: "sa_client s = Some c" using ag by (auto simp: agree_def)
  have up: "agree xl f (Suc n) a' s'" if "agree xl f n a' s'" for f a' s' using that by (rule agree_Suc)
  show ?thesis
  proof (cases cmd)
    case (CmdPublish topic t hs)
    then obtain v where v: "al_decode (xl_adapter xl) t = Ok v" "t = al_encode (xl_adapter xl) v"
      using port canonical_text_decodes[OF lib(1), of t] by auto
    have hs: "encode_headers (xl_adapter xl) (decode_headers (xl_adapter xl) hs) = hs"
      using port CmdPublish headers_canonical[OF lib(1)] by simp
    show ?thesis
      using publish_step[OF ag c, of topic v "decode_headers (xl_adapter xl) hs" "xl_rpc xl"] v hs c CmdPublish
      by (auto simp: mock_handle_def sdk_handle_def sdk_publish_def with_client_def case_prod_beta intro: up)
  next
    case (CmdPublishEvent topic e)
    then obtain d where d: "al_decode (xl_adapter xl) (we_data_b64 e) = Ok d" "we_data_b64 e = al_encode (xl_adapter xl) d"
      using port canonical_text_decodes[OF lib(1), of "we_data_b64 e"] by auto
    let ?ev = "\<lparr>ev_id = we_id e, ev_source = we_source e, ev_type = we_type e, ev_specversion = we_specversion e,
      ev_datacontenttype = we_datacontenttype e, ev_data = d\<rparr>"
    have hs: "encode_headers (xl_adapter xl) (event_headers ?ev) =
      [text_header (xl_adapter xl) ''ce_id'' (we_id e), text_header (xl_adapter xl) ''ce_source'' (we_source e),
       text_header (xl_adapter xl) ''ce_type'' (we_type e), text_header (xl_adapter xl) ''ce_specversion'' (we_specversion e)]
      @ (case we_datacontenttype e of Some t \<Rightarrow> [text_header (xl_adapter xl) ''content-type'' t] | None \<Rightarrow> [])"
      by (simp add: encode_headers_def event_headers_def text_header_def split: option.splits)
    show ?thesis
    proof (cases "we_id e = []")
      case True
      have "agree xl False n a s" using ag by (auto simp: agree_def intro: same_stream_stale)
      thus ?thesis using True c d CmdPublishEvent
        by (cases s) (auto simp: mock_handle_def sdk_handle_def mock_publish_event_def sdk_publish_event_def publish_event_def with_client_def
            published_response_def invalid_argument_def error_response_def intro: up)
    next
      case False
      thus ?thesis
        using publish_step[OF ag c, of topic d "event_headers ?ev" "xl_rpc xl"] c d CmdPublishEvent
        unfolding hs
        by (auto simp: mock_handle_def sdk_handle_def mock_publish_event_def sdk_publish_event_def publish_event_def with_client_def
            case_prod_beta intro: up)
    qed
  next
    case (CmdSubscribe topics grp filt)
    thus ?thesis using subscribe_step[OF ag c, of filt topics grp] port by (auto simp: mock_handle_def sdk_handle_def intro: up)
  next
    case (CmdNextMessage t)
    thus ?thesis using next_step[of xl n a s t] ag lib port by (auto simp: mock_handle_def sdk_handle_def intro: up)
  next
    case (CmdQueueAcquire topic grp mx lock sid)
    thus ?thesis using acquire_step[OF ag n, of sid topic grp mx lock] port by (simp add: mock_handle_def sdk_handle_def)
  next
    case (CmdQueueAcknowledge sid es)
    thus ?thesis using acknowledge_step[OF ag, of sid es] port by (auto simp: mock_handle_def sdk_handle_def intro: up)
  next
    case (CmdQueueRenew sid es)
    thus ?thesis using renew_step[OF ag, of sid es] port ag by (auto simp: mock_handle_def sdk_handle_def intro: up)
  next
    case (CmdBlobPut key t)
    then obtain v where "al_decode (xl_adapter xl) t = Ok v" using port canonical_text_decodes[OF lib(1), of t] by auto
    thus ?thesis using CmdBlobPut c ag
      by (auto simp: mock_handle_def sdk_handle_def sdk_blob_put_def with_client_def unit_response_def blob_put_def error_response_def intro: up)
  qed (use port c ag in \<open>auto simp: mock_handle_def sdk_handle_def sdk_blob_get_def with_client_def unit_response_def database_connect_def
        sign_in_def blob_get_def error_response_def unimplemented_queues_def intro: up\<close>)
qed

lemma portable_run_agrees:
  assumes "agree xl fresh n a s" "n + length cmds < 2 ^ 31"
    and lib: "base64_canonical (xl_adapter xl)" "al_from_slice (xl_adapter xl) = sl_from_slice (xl_sdk xl)"
    and "portable_run (xl_adapter xl) fresh cmds"
  shows "transcript (mock_handle (xl_adapter xl)) cmds a = transcript (sdk_handle xl) cmds s"
  using assms
proof (induction cmds arbitrary: fresh n a s)
  case (Cons c cs)
  have "n < 2 ^ 31 - 1" using Cons.prems(2) by simp
  note step = handle_step[OF Cons.prems(1) this lib, of c]
  show ?case using Cons.IH[of "still_fresh c fresh" "Suc n"] step Cons.prems by (auto simp: case_prod_beta)
qed simp

lemma configured_agree:
  assumes "starts_with ''mock://'' endpoint"
  shows "agree xl False 0 (snd (mock_configure endpoint None (with_contract_minor CONTRACT_MINOR_QUEUE_RPC NoFault)))
    (snd (sdk_configure endpoint None (sdk_adapter_default w)))"
proof -
  have "\<not> starts_with ''unreachable://'' endpoint" using assms by (cases endpoint) (auto simp: starts_with_def)
  thus ?thesis using assms
  by (auto simp: agree_def mock_configure_def with_contract_minor_def mock_adapter_default_def sdk_configure_def sdk_adapter_default_def
      client_build_def mock_default_def is_mock_def same_queue_def messages_ok_def same_sessions_def same_stream_def Let_def)
qed

lemma agreement:
  assumes "base64_canonical (xl_adapter xl)" "al_from_slice (xl_adapter xl) = sl_from_slice (xl_sdk xl)"
    and endpoint: "starts_with ''mock://'' endpoint" and "portable_run (xl_adapter xl) False cmds" "length cmds < 2 ^ 31"
  shows "tl (transcript (sdk_handle xl) (CmdHello # CmdConfigure endpoint None # cmds) (sdk_adapter_default w))
    = tl (transcript (mock_handle (xl_adapter xl)) (CmdHello # CmdConfigure endpoint None # cmds)
        (with_contract_minor CONTRACT_MINOR_QUEUE_RPC NoFault))"
proof -
  have "fst (sdk_configure endpoint None (sdk_adapter_default w))
      = fst (mock_configure endpoint None (with_contract_minor CONTRACT_MINOR_QUEUE_RPC NoFault))"
    by (simp add: mock_configure_def sdk_configure_def client_build_def with_contract_minor_def mock_adapter_default_def Let_def)
  thus ?thesis
    using portable_run_agrees[OF configured_agree[OF endpoint, of xl w] _ assms(1,2,4)] assms(5)
    by (simp add: mock_handle_def sdk_handle_def case_prod_beta)
qed

text \<open>
  C11: The adapter of the Rust SDK implements the reference adapter: configured for an in-memory endpoint, the two give
  the same responses to every sequence of portable commands, to all publish, subscribe, queue and stub commands and on
  all their error branches. Portable leaves out what the protocol does not fix: malformed Base64 and message ids,
  session ids the adapter did not give out, nested filter paths, reconfiguring, and reading a subscription after a later publish.
\<close>

theorem sdk_adapter_agrees:
  assumes "base64_canonical (xl_adapter xl)" "al_from_slice (xl_adapter xl) = sl_from_slice (xl_sdk xl)"
    and "starts_with ''mock://'' endpoint" "portable_run (xl_adapter xl) False cmds" "length cmds < 2 ^ 31"
  shows "tl (transcript (sdk_handle xl) (CmdHello # CmdConfigure endpoint None # cmds) (sdk_adapter_default w))
    = tl (transcript (mock_handle (xl_adapter xl)) (CmdHello # CmdConfigure endpoint None # cmds)
        (with_contract_minor CONTRACT_MINOR_QUEUE_RPC NoFault))"
  using assms by (rule agreement)

text \<open>A vector of portable commands passes on the SDK exactly if it passes on the reference adapter.\<close>

lemma same_verdict:
  assumes "base64_canonical (xl_adapter xl)" "al_from_slice (xl_adapter xl) = sl_from_slice (xl_sdk xl)"
    and "starts_with ''mock://'' endpoint" "portable_run (xl_adapter xl) False (map vs_command (ve_steps vec))" "length (ve_steps vec) < 2 ^ 31"
  shows "conforms (sdk_handle xl) (sdk_adapter_default w) endpoint vec
    \<longleftrightarrow> conforms (mock_handle (xl_adapter xl)) (with_contract_minor CONTRACT_MINOR_QUEUE_RPC NoFault) endpoint vec"
  unfolding conforms_def using agreement[OF assms(1-4), of w] assms(5) by simp

text \<open>
  The restriction on subscriptions is needed: a record published after the subscription was opened reaches the
  subscriber of the reference adapter, but never the subscriber of the SDK's in-memory backend, which has copied the
  records that were there before.
\<close>

theorem subscription_is_snapshot:
  assumes "starts_with ''mock://'' endpoint" "topic \<noteq> []" "topic \<noteq> ''__missing_topic''" "al_decode (xl_adapter xl) v = Ok b"
    and cmds_def: "cmds = [CmdHello, CmdConfigure endpoint None, CmdSubscribe [topic] grp None, CmdPublish topic v [], CmdNextMessage ms]"
  shows "last (transcript (mock_handle al) cmds (with_contract_minor CONTRACT_MINOR_QUEUE_RPC NoFault))
      = RespMessage \<lparr>wm_topic = topic, wm_partition = 0, wm_offset = 0, wm_value_b64 = v, wm_headers = []\<rparr>"
    and "last (transcript (sdk_handle xl) cmds (sdk_adapter_default w)) = no_message"
proof -
  have "\<not> starts_with ''unreachable://'' endpoint" using assms(1) by (cases endpoint) (auto simp: starts_with_def)
  thus "last (transcript (mock_handle al) cmds (with_contract_minor CONTRACT_MINOR_QUEUE_RPC NoFault))
      = RespMessage \<lparr>wm_topic = topic, wm_partition = 0, wm_offset = 0, wm_value_b64 = v, wm_headers = []\<rparr>"
    using assms(2,3)
    by (simp add: cmds_def mock_handle_def mock_configure_def with_contract_minor_def mock_adapter_default_def mock_subscribe_def mock_publish_def
        mock_next_message_def mock_filter_matches_def stored_to_wire_def Let_def)
  show "last (transcript (sdk_handle xl) cmds (sdk_adapter_default w)) = no_message"
    using assms(1-4)
    by (simp add: cmds_def sdk_handle_def sdk_configure_def client_build_def sdk_adapter_default_def sdk_subscribe_def with_client_def subscribe_def
        is_mock_def subscribe_mock_def mock_default_def sdk_publish_def publish_def publish_mock_def sdk_next_message_def no_message_def
        error_response_def Let_def)
qed

section \<open>The oracle of the C++ codec\<close>

text \<open>
  The envelopes that \<open>bin/emit_cpp_codec_oracle_vectors.rs\<close> writes as hexadecimal text for the
  tests of the C++ codec. Its payloads are constants, so their length always fits.
\<close>

definition oracle_frame :: "byte \<Rightarrow> string \<Rightarrow> bytes" where
  "oracle_frame flags payload = [flags] @ u32_to_be_bytes (word_of_nat (length (as_bytes payload))) @ as_bytes payload"

definition not_found_trailer :: string where
  "not_found_trailer =
     ''{'' @ [CHR 0x22] @ ''error'' @ [CHR 0x22] @ '':{'' @ [CHR 0x22] @ ''code'' @ [CHR 0x22] @ '':'' @ [CHR 0x22] @ ''not_found'' @ [CHR 0x22]
     @ '','' @ [CHR 0x22] @ ''message'' @ [CHR 0x22] @ '':'' @ [CHR 0x22] @ ''missing'' @ [CHR 0x22] @ ''}}''"

definition oracle_vectors :: "(string \<times> bytes) list" where
  "oracle_vectors =
     [(''message_payload_pay.hex'', oracle_frame 0 ''pay''),
      (''compressed_payload_pay.hex'', oracle_frame 1 ''pay''),
      (''multi_frame_stream.hex'', oracle_frame 0 ''one'' @ oracle_frame 0 ''two''),
      (''partial_header.hex'', [0, 0, 0]),
      (''endstream_clean.hex'', oracle_frame 2 []),
      (''endstream_not_found.hex'', oracle_frame 2 not_found_trailer)]"

definition hex_file :: "bytes \<Rightarrow> string" where
  "hex_file bs = concat (map show_hex2 bs) @ newline"

lemma oracle_frame_envelope: "length payload < 2 ^ 32 \<Longrightarrow> envelope_encode flags (as_bytes payload) = Some (oracle_frame flags payload)"
  by (simp add: oracle_frame_def envelope_encode_def)

lemma drain_empty: "drain_buffer lib [] = ([], Some [])"
  by (subst drain_buffer.simps) (simp add: decode_next_def)

text \<open>
  The Rust SDK reads the oracle's vectors as their names say: the messages, a compressed frame refused, a partial
  header reported, a clean end of the stream, and an end with the error of its trailer.
\<close>

theorem oracle_vectors_read:
  assumes "cl_trailer lib (as_bytes not_found_trailer) = Ok (Some (''not_found'', ''missing''))"
  shows "map (\<lambda>(name, bytes). read_streaming_response lib [BodyData bytes] []) oracle_vectors =
    [[map_err Prost (cl_decode lib (as_bytes ''pay''))], [Err CompressedFrame],
     [map_err Prost (cl_decode lib (as_bytes ''one'')), map_err Prost (cl_decode lib (as_bytes ''two''))],
     [Err (PartialFrame 1)], [], [Err (Connect ''not_found'' ''missing'')]]"
proof -
  have e: "envelope_encode flags (as_bytes p) = Some (oracle_frame flags p)" if "p \<in> {''pay'', ''one'', ''two'', [], not_found_trailer}" for flags p
    using that by (intro oracle_frame_envelope) (auto simp: not_found_trailer_def)
  have msg: "drain_buffer lib (oracle_frame 0 p @ rest) = (case drain_buffer lib rest of (items, r) \<Rightarrow> (map_err Prost (cl_decode lib (as_bytes p)) # items, r))"
    if "p \<in> {''pay'', ''one'', ''two''}" for p rest
    using that e drain_message[of "as_bytes p" "oracle_frame 0 p" lib rest] by (auto simp: MESSAGE_FLAGS_def)
  have one: "drain_buffer lib (oracle_frame 0 p) = ([map_err Prost (cl_decode lib (as_bytes p))], Some [])" if "p \<in> {''pay'', ''one'', ''two''}" for p
    using msg[OF that, of "[]"] by (simp add: drain_empty)
  have comp: "drain_buffer lib (oracle_frame 1 ''pay'') = ([Err CompressedFrame], None)"
    using decode_next_encode[OF e, of "''pay''" lib 1 "[]"]
    by (subst drain_buffer.simps) (simp add: decode_frame_body_def MESSAGE_FLAGS_def END_STREAM_FLAGS_def)
  have part: "drain_buffer lib [0, 0, 0] = ([], Some [0, 0, 0])" by (subst drain_buffer.simps) (simp add: decode_next_def)
  have clean: "drain_buffer lib (oracle_frame 2 []) = ([], None)"
    using decode_next_encode[OF e, of "[]" lib 2 "[]"]
    by (subst drain_buffer.simps) (simp add: decode_frame_body_def MESSAGE_FLAGS_def END_STREAM_FLAGS_def)
  have err: "drain_buffer lib (oracle_frame 2 not_found_trailer) = ([Err (Connect ''not_found'' ''missing'')], None)"
    using decode_next_encode[OF e, of not_found_trailer lib 2 "[]"] assms
    by (subst drain_buffer.simps) (simp add: decode_frame_body_def MESSAGE_FLAGS_def END_STREAM_FLAGS_def not_found_trailer_def)
  show ?thesis by (simp add: oracle_vectors_def one msg comp part clean err)
qed

section \<open>Witness\<close>

definition sample_sdk_adapter_lib :: "unit sdk_adapter_lib" where
  "sample_sdk_adapter_lib =
     \<lparr>xl_adapter = sample_adapter_lib, xl_sdk = \<lparr>sl_from_slice = \<lambda>_. None, sl_number = \<lambda>_. ''0''\<rparr>,
      xl_rpc = \<lparr>rpc_send = \<lambda>_ _ w. (Ok [], w), rpc_subscribe = \<lambda>_ w. (Ok [], w), rpc_acquire = \<lambda>_ w. (Ok ([], []), w),
        rpc_acknowledge = \<lambda>_ _ w. (Ok [], w), rpc_renew = \<lambda>_ _ w. (Ok [], w)\<rparr>,
      xl_late = \<lambda>_ _. True\<rparr>"

lemma sample_base64: "base64_canonical sample_adapter_lib"
  by (auto simp: base64_canonical_def sample_adapter_lib_def)

definition sample_commands :: "command list" where
  "sample_commands =
     [CmdPublish ''t'' ''x'' [], CmdQueueAcquire ''t'' ''g'' 1 30000 [],
      CmdQueueAcknowledge (alias_name 1) [\<lparr>wa_message_id = coordinate_id (''t'', 0, 0), wa_ack_type = WireAccept\<rparr>],
      CmdQueueAcknowledge (alias_name 1) [\<lparr>wa_message_id = coordinate_id (''t'', 0, 0), wa_ack_type = WireAccept\<rparr>],
      CmdSubscribe [''t''] ''g'' None, CmdNextMessage 0, CmdNextMessage 0]"

lemma sample_portable: "portable_run sample_adapter_lib False sample_commands"
  by (simp add: sample_commands_def canonical_text_def canonical_headers_def sample_adapter_lib_def flat_filter_def starts_with_def
      canonical_id_def parse_message_id_coordinate int_bounds alias_name_def)

theorem sdk_adapter_agrees_witness:
  "last (transcript (sdk_handle sample_sdk_adapter_lib) (CmdHello # CmdConfigure ''mock://gateway'' None # sample_commands) (sdk_adapter_default ()))
   = last (transcript (mock_handle sample_adapter_lib) (CmdHello # CmdConfigure ''mock://gateway'' None # sample_commands)
        (with_contract_minor CONTRACT_MINOR_QUEUE_RPC NoFault))"
proof -
  have l: "xl_adapter sample_sdk_adapter_lib = sample_adapter_lib" by (simp add: sample_sdk_adapter_lib_def)
  have "tl (transcript (sdk_handle sample_sdk_adapter_lib) (CmdHello # CmdConfigure ''mock://gateway'' None # sample_commands) (sdk_adapter_default ()))
    = tl (transcript (mock_handle (xl_adapter sample_sdk_adapter_lib)) (CmdHello # CmdConfigure ''mock://gateway'' None # sample_commands)
        (with_contract_minor CONTRACT_MINOR_QUEUE_RPC NoFault))"
  proof (rule sdk_adapter_agrees)
    show "base64_canonical (xl_adapter sample_sdk_adapter_lib)" by (simp add: l sample_base64)
    show "al_from_slice (xl_adapter sample_sdk_adapter_lib) = sl_from_slice (xl_sdk sample_sdk_adapter_lib)"
      by (simp add: sample_sdk_adapter_lib_def sample_adapter_lib_def)
    show "starts_with ''mock://'' ''mock://gateway''" by (simp add: starts_with_def)
    show "portable_run (xl_adapter sample_sdk_adapter_lib) False sample_commands" by (simp add: l sample_portable)
    show "length sample_commands < 2 ^ 31" by (simp add: sample_commands_def)
  qed
  moreover have "last xs = last (tl xs)" if "1 < length xs" for xs :: "response list" using that by (cases xs) auto
  moreover have "1 < length (CmdHello # CmdConfigure ''mock://gateway'' None # sample_commands)" by simp
  ultimately show ?thesis unfolding l by (metis length_transcript)
qed

end
