(* ===== verification/Gw_GoSdk.thy ===== *)
theory Gw_GoSdk
  imports Gw_Conformance
begin

text \<open>
  The Go SDK (\<^verbatim>\<open>src/sdks/go\<close>): errors (\<open>errors.go\<close>), the client (\<open>client.go\<close>), publishing and
  subscribing (\<open>messaging.go\<close>), the in-memory store (\<open>mock.go\<close>), the queue client (\<open>queues.go\<close>)
  and the gated modules (\<open>stubs.go\<close>). A byte slice is \<open>None\<close> if it is nil. A pointer into the
  store is an update in place. The calls of the generated Connect client are the fields of
  \<open>go_rpc\<close> and act on a world; JSON, Base64 and the formatting of floats are \<open>go_lib\<close>. A live
  subscription is the list of what its receive loop puts into the channel, which ends with the
  error that ends the loop; \<open>gl_late\<close> says whether the deadline of a call comes first.
\<close>

section \<open>Slices and integers\<close>

type_synonym go_bytes = "bytes option"

definition slice_bytes :: "go_bytes \<Rightarrow> bytes" where
  "slice_bytes v = (case v of None \<Rightarrow> [] | Some bs \<Rightarrow> bs)"

text \<open>Appending to a nil slice; if nothing is appended, the result is still nil.\<close>

definition append_to_nil :: "go_bytes \<Rightarrow> go_bytes" where
  "append_to_nil v = (case slice_bytes v of [] \<Rightarrow> None | b # bs \<Rightarrow> Some (b # bs))"

definition clone_nullable_bytes :: "go_bytes \<Rightarrow> go_bytes" where
  "clone_nullable_bytes v = (case v of None \<Rightarrow> None | Some bs \<Rightarrow> Some bs)"

definition wrap_i32 :: "int \<Rightarrow> int" where "wrap_i32 n = (n + 2 ^ 31) mod 2 ^ 32 - 2 ^ 31"
definition wrap_i64 :: "int \<Rightarrow> int" where "wrap_i64 n = (n + 2 ^ 63) mod 2 ^ 64 - 2 ^ 63"

section \<open>Errors\<close>

record go_error =
  goe_kind :: error_kind
  goe_module :: string
  goe_gated_on :: string
  goe_message :: string

definition go_error_text :: "go_error \<Rightarrow> string" where
  "go_error_text e =
     (if goe_message e \<noteq> [] then goe_message e
      else if goe_gated_on e \<noteq> [] then goe_module e @ '' is gated on '' @ goe_gated_on e
      else kind_name (goe_kind e))"

definition gated_error :: "string \<Rightarrow> string \<Rightarrow> go_error" where
  "gated_error m gated_on = \<lparr>goe_kind = KindUnimplemented, goe_module = m, goe_gated_on = gated_on, goe_message = []\<rparr>"

definition error_with_message :: "error_kind \<Rightarrow> string \<Rightarrow> go_error" where
  "error_with_message kind message = \<lparr>goe_kind = kind, goe_module = [], goe_gated_on = [], goe_message = message\<rparr>"

text \<open>
  An error of a call: the code the Connect library gives it, its message if it is a Connect
  error, its text, and whether it is the cancellation of the context.
\<close>

record go_rpc_error =
  gre_code :: nat
  gre_connect_message :: "string option"
  gre_text :: string
  gre_canceled :: bool

definition map_connect_error :: "go_rpc_error \<Rightarrow> go_error" where
  "map_connect_error e =
     (let message = (case gre_connect_message e of Some m \<Rightarrow> m | None \<Rightarrow> gre_text e) in
      if gre_code e \<in> {7, 16} then error_with_message KindUnauthenticated message
      else if gre_code e \<in> {3, 9, 11} then error_with_message KindInvalidArgument message
      else if gre_code e = 5 then error_with_message KindNotFound message
      else if gre_code e = 12 then error_with_message KindUnimplemented message
      else if gre_code e \<in> {14, 4, 1} then error_with_message KindTransport message
      else error_with_message KindServerError message)"

definition map_gateway_error_kind :: "int \<Rightarrow> bool \<Rightarrow> error_kind" where
  "map_gateway_error_kind c retriable =
     (if retriable then KindTransport
      else if c \<in> {3, 9, 11} then KindInvalidArgument
      else if c = 5 then KindNotFound
      else if c \<in> {7, 16} then KindUnauthenticated
      else if c = 12 then KindUnimplemented
      else if c = 14 then KindTransport
      else KindServerError)"

definition map_record_error :: "int \<Rightarrow> string \<Rightarrow> go_error" where
  "map_record_error c message = error_with_message (map_gateway_error_kind c False) message"

section \<open>Records and filters\<close>

record go_record =
  gor_topic :: string
  gor_value :: go_bytes
  gor_headers :: "header list"

record go_publish_result =
  gop_partition :: int
  gop_offset :: int
  gop_deduplicated :: bool

record go_inbound =
  goi_topic :: string
  goi_partition :: int
  goi_offset :: int
  goi_value :: go_bytes
  goi_headers :: "header list"

record go_cloud_event =
  gov_id :: string
  gov_source :: string
  gov_type :: string
  gov_spec_version :: string
  gov_data_content_type :: string
  gov_data :: go_bytes

text \<open>
  A value of type \<open>any\<close>: the scalars a filter may hold, of which numbers read from JSON are
  floats, and everything else.
\<close>

datatype go_any = GoNil | GoBool bool | GoString string | GoInt int | GoFloat rat | GoOther

fun go_of_json :: "json \<Rightarrow> go_any" where
  "go_of_json JNull = GoNil"
| "go_of_json (JBool b) = GoBool b"
| "go_of_json (JString s) = GoString s"
| "go_of_json (JNumber n) = GoFloat (json_as_f64 n)"
| "go_of_json _ = GoOther"

record go_filter =
  gof_path :: string
  gof_op :: string
  gof_value :: go_any

record go_lib =
  gl_encode :: "bytes \<Rightarrow> string"
  gl_decode :: "string \<Rightarrow> string + bytes"
  gl_unmarshal :: "bytes \<Rightarrow> json option"
  gl_format_g :: "rat \<Rightarrow> string"
  gl_late :: "nat \<Rightarrow> (go_rpc_error + inbound) list \<Rightarrow> bool"

definition equals_op :: string where "equals_op = ''equals''"

definition clone_headers :: "header list \<Rightarrow> header list" where
  "clone_headers hs = map (\<lambda>(name, v). (name, append_to_nil v)) hs"

definition clone_record :: "go_record \<Rightarrow> go_record" where
  "clone_record r =
     \<lparr>gor_topic = gor_topic r, gor_value = append_to_nil (gor_value r), gor_headers = clone_headers (gor_headers r)\<rparr>"

text \<open>
  The equality of two interface values. Two values that cannot be compared never meet: a
  filter with such a value is refused when the subscription is opened.
\<close>

definition same_any :: "go_any \<Rightarrow> go_any \<Rightarrow> bool" where
  "same_any a b \<longleftrightarrow> a = b \<and> a \<noteq> GoOther"

definition go_mock_filter_matches :: "go_lib \<Rightarrow> go_filter option \<Rightarrow> go_bytes \<Rightarrow> bool" where
  "go_mock_filter_matches gl filt v =
     (case filt of
        None \<Rightarrow> True
      | Some f \<Rightarrow>
          if gof_op f \<noteq> equals_op then False
          else if \<not> starts_with ''$.'' (gof_path f) then False
          else
            (let field = drop 2 (gof_path f) in
             case gl_unmarshal gl (slice_bytes v) of
               Some (JObject decoded) \<Rightarrow>
                 same_any (case hm_get decoded field of Some x \<Rightarrow> go_of_json x | None \<Rightarrow> GoNil) (gof_value f)
             | Some JNull \<Rightarrow> same_any GoNil (gof_value f)
             | _ \<Rightarrow> False))"

definition is_ascii_letter :: "char \<Rightarrow> bool" where
  "is_ascii_letter c \<longleftrightarrow> (CHR ''a'' \<le> c \<and> c \<le> CHR ''z'') \<or> (CHR ''A'' \<le> c \<and> c \<le> CHR ''Z'')"

definition go_valid_filter_segment :: "string \<Rightarrow> bool" where
  "go_valid_filter_segment segment \<longleftrightarrow>
     list_all (\<lambda>(index, c).
       \<not> (index = 0 \<and> c \<noteq> CHR ''_'' \<and> \<not> is_ascii_letter c) \<and>
       \<not> (0 < index \<and> c \<noteq> CHR ''_'' \<and> \<not> is_ascii_letter c \<and> (c < CHR ''0'' \<or> CHR ''9'' < c)))
       (enumerate 0 segment) \<and> segment \<noteq> []"

definition escape_filter_string :: "string \<Rightarrow> string" where
  "escape_filter_string s = concat (map (\<lambda>c. if c = quote then [quote, quote] else [c]) s)"

definition to_proto_filter :: "go_lib \<Rightarrow> go_filter option \<Rightarrow> go_error + string" where
  "to_proto_filter gl filt =
     (case filt of
        None \<Rightarrow> Ok []
      | Some f \<Rightarrow>
          if \<not> starts_with ''$.'' (gof_path f) then Err (error_with_message KindInvalidArgument ''filter path must start with $.'')
          else
            (let field = drop 2 (gof_path f) in
             if \<not> list_all go_valid_filter_segment (split_on CHR ''.'' field)
             then Err (error_with_message KindInvalidArgument ''filter path must contain identifier segments'')
             else
               (case gof_value f of
                  GoString s \<Rightarrow> Ok (field @ '' = '' @ [quote] @ escape_filter_string s @ [quote])
                | GoBool b \<Rightarrow> Ok (field @ '' = '' @ (if b then ''true'' else ''false''))
                | GoInt n \<Rightarrow> Ok (field @ '' = '' @ show_int n)
                | GoFloat x \<Rightarrow> Ok (field @ '' = '' @ gl_format_g gl x)
                | GoNil \<Rightarrow> Ok (field @ '' = null'')
                | GoOther \<Rightarrow> Err (error_with_message KindInvalidArgument ''filter value must be a string, number, boolean, or null''))))"

section \<open>The in-memory store\<close>

record go_delivery =
  god_state :: queue_message_state
  god_session_id :: string
  god_delivery_count :: int

record go_message =
  gom_record :: go_record
  gom_partition :: int
  gom_offset :: int
  gom_deliveries :: "(string, go_delivery) hashmap"

record go_session =
  gse_topic :: string
  gse_group :: string
  gse_max :: nat

record go_store =
  gos_messages :: "go_message list"
  gos_next_queue_session_id :: int
  gos_queue_sessions :: "(string, go_session) hashmap"

definition new_mock_store :: go_store where
  "new_mock_store = \<lparr>gos_messages = [], gos_next_queue_session_id = 1, gos_queue_sessions = []\<rparr>"

definition store_publish :: "string \<Rightarrow> go_record \<Rightarrow> go_store \<Rightarrow> (go_error + go_publish_result) \<times> go_store" where
  "store_publish endpoint r st =
     (if starts_with ''unreachable://'' endpoint then (Err (error_with_message KindTransport ''endpoint unreachable''), st)
      else
        let offset = int (length (filter (\<lambda>m. gor_topic (gom_record m) = gor_topic r) (gos_messages st))) in
        (Ok \<lparr>gop_partition = 0, gop_offset = offset, gop_deduplicated = False\<rparr>,
         st\<lparr>gos_messages := gos_messages st @
             [\<lparr>gom_record = clone_record r, gom_partition = 0, gom_offset = offset, gom_deliveries = []\<rparr>]\<rparr>))"

definition queue_delivery :: "string \<Rightarrow> go_message \<Rightarrow> go_delivery \<times> go_message" where
  "queue_delivery grp m =
     (case hm_get (gom_deliveries m) grp of
        Some d \<Rightarrow> (d, m)
      | None \<Rightarrow>
          let d = \<lparr>god_state = QAvailable, god_session_id = [], god_delivery_count = 0\<rparr> in
          (d, m\<lparr>gom_deliveries := hm_insert grp d (gom_deliveries m)\<rparr>))"

record go_mock_subscription =
  gou_topics :: "string list"
  gou_filter :: "go_filter option"
  gou_next_index :: nat
  gou_closed :: bool

definition store_subscribe :: "string list \<Rightarrow> go_filter option \<Rightarrow> go_mock_subscription" where
  "store_subscribe topics filt = \<lparr>gou_topics = topics, gou_filter = filt, gou_next_index = 0, gou_closed = False\<rparr>"

fun mock_scan ::
    "go_lib \<Rightarrow> go_mock_subscription \<Rightarrow> go_message list \<Rightarrow> go_message option \<times> go_mock_subscription" where
  "mock_scan gl sub [] = (None, sub)"
| "mock_scan gl sub (m # ms) =
     (let sub = sub\<lparr>gou_next_index := gou_next_index sub + 1\<rparr> in
      if gor_topic (gom_record m) \<notin> set (gou_topics sub) then mock_scan gl sub ms
      else if \<not> go_mock_filter_matches gl (gou_filter sub) (gor_value (gom_record m)) then mock_scan gl sub ms
      else (Some m, sub))"

definition mock_next ::
    "go_lib \<Rightarrow> go_store \<Rightarrow> go_mock_subscription \<Rightarrow> (go_error + go_inbound) \<times> go_mock_subscription" where
  "mock_next gl st sub =
     (if gou_closed sub then (Err (error_with_message KindTransport ''subscription is closed''), sub)
      else
        (case mock_scan gl sub (drop (gou_next_index sub) (gos_messages st)) of
           (Some m, sub) \<Rightarrow>
             (Ok \<lparr>goi_topic = gor_topic (gom_record m), goi_partition = gom_partition m, goi_offset = gom_offset m,
                  goi_value = append_to_nil (gor_value (gom_record m)), goi_headers = clone_headers (gor_headers (gom_record m))\<rparr>, sub)
         | (None, sub) \<Rightarrow> (Err (error_with_message KindNotFound ''no message available''), sub)))"

definition mock_close :: "go_mock_subscription \<Rightarrow> go_mock_subscription" where
  "mock_close sub = sub\<lparr>gou_closed := True\<rparr>"

section \<open>The client\<close>

type_synonym http_headers = "(string \<times> string) list"

record 'w go_rpc =
  gr_send :: "http_headers \<Rightarrow> pb_record list \<Rightarrow> int \<Rightarrow> 'w \<Rightarrow> (go_rpc_error + record_result list) \<times> 'w"
  gr_subscribe :: "http_headers \<Rightarrow> subscribe_frame \<Rightarrow> 'w \<Rightarrow> (go_rpc_error + (go_rpc_error + inbound) list) \<times> 'w"
  gr_stream_send :: "subscribe_frame \<Rightarrow> 'w \<Rightarrow> go_rpc_error option \<times> 'w"
  gr_cancel :: "'w \<Rightarrow> 'w"
  gr_close_request :: "'w \<Rightarrow> go_rpc_error option \<times> 'w"
  gr_close_response :: "'w \<Rightarrow> go_rpc_error option \<times> 'w"
  gr_acquire :: "http_headers \<Rightarrow> acquire_request \<Rightarrow> 'w \<Rightarrow> (go_rpc_error + string \<times> pb_queued_message list) \<times> 'w"
  gr_acknowledge :: "http_headers \<Rightarrow> string \<Rightarrow> ack_entry list \<Rightarrow> 'w \<Rightarrow> (go_rpc_error + pb_ack_result option list) \<times> 'w"
  gr_renew :: "http_headers \<Rightarrow> string \<Rightarrow> ack_entry list \<Rightarrow> 'w \<Rightarrow> (go_rpc_error + pb_ack_result option list) \<times> 'w"

record 'w go_client =
  goc_endpoint :: string
  goc_bearer_token :: string
  goc_mock_store :: "go_store option"
  goc_world :: 'w

definition go_new :: "string \<Rightarrow> string option \<Rightarrow> 'w \<Rightarrow> 'w go_client" where
  "go_new endpoint bearer w =
     \<lparr>goc_endpoint = endpoint,
      goc_bearer_token = (case bearer of Some token \<Rightarrow> token | None \<Rightarrow> []),
      goc_mock_store = (if starts_with ''mock://'' endpoint \<or> starts_with ''unreachable://'' endpoint then Some new_mock_store else None),
      goc_world = w\<rparr>"

definition add_authorization :: "string \<Rightarrow> http_headers" where
  "add_authorization token = (if token = [] then [] else [(''Authorization'', ''Bearer '' @ token)])"

section \<open>Publishing\<close>

definition validate_record :: "go_record \<Rightarrow> go_error + unit" where
  "validate_record r =
     (if gor_topic r = [] then Err (error_with_message KindInvalidArgument ''topic is required'')
      else if gor_topic r = ''__missing_topic'' then Err (error_with_message KindNotFound ''topic not found'')
      else Ok ())"

definition to_proto_record :: "go_record \<Rightarrow> pb_record" where
  "to_proto_record r =
     \<lparr>pr_topic = gor_topic r, pr_key = None, pr_body = Some (BodyRaw (slice_bytes (append_to_nil (gor_value r)))),
      pr_headers = map (\<lambda>(name, v). (name, clone_nullable_bytes v)) (gor_headers r),
      pr_partition = None, pr_timestamp_ms = None, pr_idempotency_key = None, pr_schema = None\<rparr>"

definition go_publish ::
    "'w go_rpc \<Rightarrow> go_record \<Rightarrow> 'w go_client \<Rightarrow> (go_error + go_publish_result) \<times> 'w go_client" where
  "go_publish rpc r c =
     (case validate_record r of
        Err e \<Rightarrow> (Err e, c)
      | Ok _ \<Rightarrow>
          (case goc_mock_store c of
             Some st \<Rightarrow>
               (case store_publish (goc_endpoint c) r st of (res, st) \<Rightarrow> (res, c\<lparr>goc_mock_store := Some st\<rparr>))
           | None \<Rightarrow>
               (case gr_send rpc (add_authorization (goc_bearer_token c)) [to_proto_record r] 0 (goc_world c) of
                  (res, w) \<Rightarrow>
                    (case res of
                       Err e \<Rightarrow> Err (map_connect_error e)
                     | Ok [] \<Rightarrow> Err (error_with_message KindServerError ''send returned no record results'')
                     | Ok (x # _) \<Rightarrow>
                         (case rr_error x of
                            Some e \<Rightarrow> Err (map_record_error (ei_code e) (ei_message e))
                          | None \<Rightarrow>
                              Ok \<lparr>gop_partition = rr_partition x, gop_offset = rr_offset x, gop_deduplicated = rr_deduplicated x\<rparr>),
                     c\<lparr>goc_world := w\<rparr>))))"

definition cloud_event_headers :: "go_cloud_event \<Rightarrow> header list" where
  "cloud_event_headers e =
     [(''ce_id'', Some (as_bytes (gov_id e))), (''ce_source'', Some (as_bytes (gov_source e))),
      (''ce_type'', Some (as_bytes (gov_type e))), (''ce_specversion'', Some (as_bytes (gov_spec_version e)))]
     @ (if gov_data_content_type e \<noteq> [] then [(''content-type'', Some (as_bytes (gov_data_content_type e)))] else [])"

definition go_publish_event ::
    "'w go_rpc \<Rightarrow> string \<Rightarrow> go_cloud_event \<Rightarrow> 'w go_client \<Rightarrow> (go_error + go_publish_result) \<times> 'w go_client" where
  "go_publish_event rpc topic e c =
     (if trim (gov_id e) = [] then (Err (error_with_message KindInvalidArgument ''CloudEvent id is required''), c)
      else go_publish rpc \<lparr>gor_topic = topic, gor_value = gov_data e, gor_headers = cloud_event_headers e\<rparr> c)"

section \<open>Subscriptions\<close>

record go_live_subscription =
  gli_received :: "(go_rpc_error + inbound) list"
  gli_close_err :: "go_rpc_error list option"

text \<open>A subscription is on the store or on a stream, or the zero value of its type.\<close>

datatype go_subscription = GoMock go_mock_subscription | GoLive go_live_subscription | GoUnset

definition go_subscribe ::
    "go_lib \<Rightarrow> 'w go_rpc \<Rightarrow> string list \<Rightarrow> string \<Rightarrow> go_filter option \<Rightarrow> 'w go_client \<Rightarrow>
     (go_error + go_subscription) \<times> 'w go_client" where
  "go_subscribe gl rpc topics grp filt c =
     (if topics = [] then (Err (error_with_message KindInvalidArgument ''at least one topic is required''), c)
      else if (case filt of Some f \<Rightarrow> gof_op f \<noteq> equals_op | None \<Rightarrow> False)
      then (Err (error_with_message KindInvalidArgument ''only equals filters are supported''), c)
      else
        (case to_proto_filter gl filt of
           Err e \<Rightarrow> (Err e, c)
         | Ok compiled \<Rightarrow>
             if goc_mock_store c \<noteq> None then (Ok (GoMock (store_subscribe topics filt)), c)
             else
               (case gr_subscribe rpc (add_authorization (goc_bearer_token c))
                       (FrameStart \<lparr>ss_group_id = grp, ss_topics = topics, ss_auto_commit = True, ss_filter = compiled\<rparr>) (goc_world c) of
                  (Err e, w) \<Rightarrow>
                    (Err (map_connect_error e),
                     c\<lparr>goc_world := snd (gr_close_response rpc (snd (gr_close_request rpc (gr_cancel rpc w))))\<rparr>)
                | (Ok received, w) \<Rightarrow>
                    (Ok (GoLive \<lparr>gli_received = received, gli_close_err = None\<rparr>), c\<lparr>goc_world := w\<rparr>))))"

definition ignorable_close_error :: "go_rpc_error option \<Rightarrow> go_rpc_error list" where
  "ignorable_close_error e = (case e of Some e \<Rightarrow> if gre_canceled e \<or> gre_code e = 1 then [] else [e] | None \<Rightarrow> [])"

text \<open>The error of closing is the list of the joined errors.\<close>

definition go_close ::
    "'w go_rpc \<Rightarrow> go_subscription \<Rightarrow> 'w go_client \<Rightarrow> go_rpc_error list \<times> go_subscription \<times> 'w go_client" where
  "go_close rpc sub c =
     (case sub of
        GoMock m \<Rightarrow> ([], GoMock (mock_close m), c)
      | GoUnset \<Rightarrow> ([], sub, c)
      | GoLive l \<Rightarrow>
          (case gli_close_err l of
             Some errs \<Rightarrow> (errs, sub, c)
           | None \<Rightarrow>
               (case gr_close_request rpc (gr_cancel rpc (goc_world c)) of
                  (e1, w) \<Rightarrow>
                    (case gr_close_response rpc w of
                       (e2, w) \<Rightarrow>
                         let errs = ignorable_close_error e1 @ ignorable_close_error e2 in
                         (errs, GoLive (l\<lparr>gli_close_err := Some errs\<rparr>), c\<lparr>goc_world := w\<rparr>)))))"

definition from_proto_inbound :: "inbound \<Rightarrow> go_inbound" where
  "from_proto_inbound m =
     \<lparr>goi_topic = in_topic m, goi_partition = in_partition m, goi_offset = in_offset m,
      goi_value = append_to_nil (Some (in_value m)),
      goi_headers = map (\<lambda>(name, v). (name, clone_nullable_bytes v)) (in_headers m)\<rparr>"

text \<open>A subscription is passed together with the client that opened it, so one on the store finds that store.\<close>

definition go_next ::
    "go_lib \<Rightarrow> 'w go_rpc \<Rightarrow> nat \<Rightarrow> go_subscription option \<Rightarrow> 'w go_client \<Rightarrow>
     (go_error + go_inbound) \<times> go_subscription option \<times> 'w go_client" where
  "go_next gl rpc timeout sub c =
     (case sub of
        None \<Rightarrow> (Err (error_with_message KindInvalidArgument ''subscription is nil''), sub, c)
      | Some (GoMock m) \<Rightarrow>
          (case goc_mock_store c of
             Some st \<Rightarrow> (case mock_next gl st m of (r, m) \<Rightarrow> (r, Some (GoMock m), c))
           | None \<Rightarrow> (Err (error_with_message KindInvalidArgument ''subscription stream is not initialized''), sub, c))
      | Some GoUnset \<Rightarrow> (Err (error_with_message KindInvalidArgument ''subscription stream is not initialized''), sub, c)
      | Some (GoLive l) \<Rightarrow>
          if gl_late gl timeout (gli_received l) then (Err (error_with_message KindNotFound ''no message available''), sub, c)
          else
            (case gli_received l of
               [] \<Rightarrow> (Err (error_with_message KindTransport ''subscription stream is closed''), sub, c)
             | Err e # rest \<Rightarrow> (Err (map_connect_error e), Some (GoLive (l\<lparr>gli_received := rest\<rparr>)), c)
             | Ok m # rest \<Rightarrow>
                 (case gr_stream_send rpc (FrameAck (in_topic m) (in_partition m) (in_offset m)) (goc_world c) of
                    (e, w) \<Rightarrow>
                      (case e of Some e \<Rightarrow> Err (map_connect_error e) | None \<Rightarrow> Ok (from_proto_inbound m),
                       Some (GoLive (l\<lparr>gli_received := rest\<rparr>)), c\<lparr>goc_world := w\<rparr>))))"

section \<open>Queues\<close>

record go_ack_entry =
  gae_message_id :: string
  gae_ack_type :: string

record go_operation_error =
  gqe_kind :: error_kind
  gqe_message :: string
  gqe_retriable :: bool

record go_queue_result =
  gqr_message_id :: string
  gqr_error :: "go_operation_error option"

record go_queue_message =
  gqm_message_id :: string
  gqm_topic :: string
  gqm_partition :: int
  gqm_offset :: int
  gqm_value :: go_bytes
  gqm_headers :: "header list"
  gqm_delivery_count :: int

definition go_queue_message_id :: "string \<Rightarrow> int \<Rightarrow> int \<Rightarrow> string" where
  "go_queue_message_id topic p offset = topic @ '':'' @ show_int p @ '':'' @ show_int offset"

definition go_message_id :: "go_message \<Rightarrow> string" where
  "go_message_id m = go_queue_message_id (gor_topic (gom_record m)) (gom_partition m) (gom_offset m)"

definition validate_queue_acquire :: "string \<Rightarrow> string \<Rightarrow> int \<Rightarrow> go_error + unit" where
  "validate_queue_acquire topic grp lock_duration_ms =
     (if topic = [] then Err (error_with_message KindInvalidArgument ''queue topic is required'')
      else if grp = [] then Err (error_with_message KindInvalidArgument ''queue group is required'')
      else if lock_duration_ms \<noteq> 0 \<and> lock_duration_ms \<noteq> 30000 then
        Err (error_with_message KindInvalidArgument
          ''queue lock_duration_ms must be 30000; per-acquire lock durations are not supported'')
      else Ok ())"

definition validate_queue_session_id :: "string \<Rightarrow> go_error + unit" where
  "validate_queue_session_id sid =
     (if sid = [] then Err (error_with_message KindInvalidArgument ''queue session_id is required'') else Ok ())"

fun validate_queue_ack_types :: "go_ack_entry list \<Rightarrow> go_error + unit" where
  "validate_queue_ack_types [] = Ok ()"
| "validate_queue_ack_types (e # es) =
     (if gae_ack_type e = ''accept'' \<or> gae_ack_type e = ''release'' \<or> gae_ack_type e = ''reject''
      then validate_queue_ack_types es
      else Err (error_with_message KindInvalidArgument ''queue ack_type must be accept, release, or reject''))"

definition acquire_mock_queue_message :: "string \<Rightarrow> string \<Rightarrow> go_message \<Rightarrow> go_queue_message \<times> go_message" where
  "acquire_mock_queue_message grp sid m =
     (case queue_delivery grp m of
        (d, m) \<Rightarrow>
          let d = d\<lparr>god_state := QAcquired, god_session_id := sid, god_delivery_count := wrap_i32 (god_delivery_count d + 1)\<rparr> in
          (\<lparr>gqm_message_id = go_message_id m, gqm_topic = gor_topic (gom_record m), gqm_partition = gom_partition m,
            gqm_offset = gom_offset m, gqm_value = clone_nullable_bytes (gor_value (gom_record m)),
            gqm_headers = clone_headers (gor_headers (gom_record m)), gqm_delivery_count = god_delivery_count d\<rparr>,
           m\<lparr>gom_deliveries := hm_insert grp d (gom_deliveries m)\<rparr>))"

fun acquire_loop ::
    "string \<Rightarrow> string \<Rightarrow> string \<Rightarrow> nat \<Rightarrow> nat \<Rightarrow> go_message list \<Rightarrow> go_queue_message list \<times> go_message list" where
  "acquire_loop topic grp sid effective_max n [] = ([], [])"
| "acquire_loop topic grp sid effective_max n (m # ms) =
     (if n = effective_max then ([], m # ms)
      else if gor_topic (gom_record m) \<noteq> topic then
        (case acquire_loop topic grp sid effective_max n ms of (qs, ms) \<Rightarrow> (qs, m # ms))
      else
        (case queue_delivery grp m of
           (d, m) \<Rightarrow>
             if god_state d \<noteq> QAvailable then
               (case acquire_loop topic grp sid effective_max n ms of (qs, ms) \<Rightarrow> (qs, m # ms))
             else
               (case acquire_mock_queue_message grp sid m of
                  (q, m) \<Rightarrow> (case acquire_loop topic grp sid effective_max (n + 1) ms of (qs, ms) \<Rightarrow> (q # qs, m # ms)))))"

definition go_acquire_session ::
    "string \<Rightarrow> string \<Rightarrow> nat \<Rightarrow> nat \<Rightarrow> string \<Rightarrow> go_store \<Rightarrow> (go_error + string) \<times> go_store" where
  "go_acquire_session topic grp maximum effective_max sid st =
     (if sid = [] then
        let sid = ''queue-session-'' @ show_int (gos_next_queue_session_id st) in
        (Ok sid,
         st\<lparr>gos_next_queue_session_id := wrap_i64 (gos_next_queue_session_id st + 1),
            gos_queue_sessions := hm_insert sid \<lparr>gse_topic = topic, gse_group = grp, gse_max = effective_max\<rparr> (gos_queue_sessions st)\<rparr>)
      else
        (case hm_get (gos_queue_sessions st) sid of
           None \<Rightarrow> Err (error_with_message KindInvalidArgument ''queue session expired; re-acquire'')
         | Some session \<Rightarrow>
             if gse_topic session \<noteq> topic \<or> gse_group session \<noteq> grp then
               Err (error_with_message KindInvalidArgument ''group_id and topics are fixed when a queue session is created'')
             else if maximum \<noteq> 0 \<and> effective_max \<noteq> gse_max session then
               Err (error_with_message KindInvalidArgument ''max_messages is fixed when a queue session is created'')
             else Ok sid, st))"

definition acquire_queue_messages ::
    "string \<Rightarrow> string \<Rightarrow> nat \<Rightarrow> string \<Rightarrow> go_store \<Rightarrow> (go_error + string \<times> go_queue_message list) \<times> go_store" where
  "acquire_queue_messages topic grp maximum sid st =
     (let effective_max = (if maximum = 0 then 1 else maximum);
          effective_max = (if 500 < effective_max then 500 else effective_max) in
      case go_acquire_session topic grp maximum effective_max sid st of
        (Err e, st) \<Rightarrow> (Err e, st)
      | (Ok sid, st) \<Rightarrow>
          (case acquire_loop topic grp sid effective_max 0 (gos_messages st) of
             (qs, ms) \<Rightarrow> (Ok (sid, qs), st\<lparr>gos_messages := ms\<rparr>)))"

text \<open>The first message the session holds under the id, with its delivery updated in place.\<close>

fun find_acquired_queue_message ::
    "(go_delivery \<Rightarrow> go_delivery) \<Rightarrow> string \<Rightarrow> string \<Rightarrow> string \<Rightarrow> go_message list \<Rightarrow> go_message list option" where
  "find_acquired_queue_message f grp sid mid [] = None"
| "find_acquired_queue_message f grp sid mid (m # ms) =
     (case hm_get (gom_deliveries m) grp of
        Some d \<Rightarrow>
          if god_state d = QAcquired \<and> god_session_id d = sid \<and> go_message_id m = mid
          then Some (m\<lparr>gom_deliveries := hm_insert grp (f d) (gom_deliveries m)\<rparr> # ms)
          else map_option (\<lambda>ms. m # ms) (find_acquired_queue_message f grp sid mid ms)
      | None \<Rightarrow> map_option (\<lambda>ms. m # ms) (find_acquired_queue_message f grp sid mid ms))"

definition mock_queue_state_for_ack :: "string \<Rightarrow> queue_message_state" where
  "mock_queue_state_for_ack t =
     (if t = ''release'' then QAvailable else if t = ''reject'' then QRejected else QAccepted)"

definition queue_entry_error :: "string \<Rightarrow> go_queue_result" where
  "queue_entry_error mid =
     \<lparr>gqr_message_id = mid,
      gqr_error = Some \<lparr>gqe_kind = KindInvalidArgument, gqe_message = ''queue message is not acquired'', gqe_retriable = False\<rparr>\<rparr>"

definition acknowledge_queue_message ::
    "string \<Rightarrow> string \<Rightarrow> go_ack_entry \<Rightarrow> go_message list \<Rightarrow> go_queue_result \<times> go_message list" where
  "acknowledge_queue_message grp sid e ms =
     (case find_acquired_queue_message
             (\<lambda>d. d\<lparr>god_state := mock_queue_state_for_ack (gae_ack_type e), god_session_id := []\<rparr>) grp sid (gae_message_id e) ms of
        None \<Rightarrow> (queue_entry_error (gae_message_id e), ms)
      | Some ms \<Rightarrow> (\<lparr>gqr_message_id = gae_message_id e, gqr_error = None\<rparr>, ms))"

fun acknowledge_each ::
    "string \<Rightarrow> string \<Rightarrow> go_ack_entry list \<Rightarrow> go_message list \<Rightarrow> go_queue_result list \<times> go_message list" where
  "acknowledge_each grp sid [] ms = ([], ms)"
| "acknowledge_each grp sid (e # es) ms =
     (case acknowledge_queue_message grp sid e ms of
        (r, ms) \<Rightarrow> (case acknowledge_each grp sid es ms of (rs, ms) \<Rightarrow> (r # rs, ms)))"

definition acknowledge_queue_messages ::
    "string \<Rightarrow> go_ack_entry list \<Rightarrow> go_store \<Rightarrow> (go_error + go_queue_result list) \<times> go_store" where
  "acknowledge_queue_messages sid entries st =
     (case hm_get (gos_queue_sessions st) sid of
        None \<Rightarrow> (Err (error_with_message KindInvalidArgument ''queue session expired; re-acquire''), st)
      | Some session \<Rightarrow>
          (case acknowledge_each (gse_group session) sid entries (gos_messages st) of
             (rs, ms) \<Rightarrow> (Ok rs, st\<lparr>gos_messages := ms\<rparr>)))"

definition renew_queue_messages :: "string \<Rightarrow> string list \<Rightarrow> go_store \<Rightarrow> go_error + go_queue_result list" where
  "renew_queue_messages sid entries st =
     (case hm_get (gos_queue_sessions st) sid of
        None \<Rightarrow> Err (error_with_message KindInvalidArgument ''queue session expired; re-acquire'')
      | Some session \<Rightarrow>
          Ok (map (\<lambda>mid.
            if find_acquired_queue_message (\<lambda>d. d) (gse_group session) sid mid (gos_messages st) = None then queue_entry_error mid
            else \<lparr>gqr_message_id = mid, gqr_error = None\<rparr>) entries))"

definition parse_queue_message_id :: "string \<Rightarrow> go_error + string \<times> int \<times> int" where
  "parse_queue_message_id mid =
     (let bad = error_with_message KindInvalidArgument ''queue message_id must be <topic>:<partition>:<offset>'' in
      case split_on CHR '':'' mid of
        [topic, p, offset] \<Rightarrow>
          if topic = [] then Err bad
          else
            (case parse_i32 p of
               None \<Rightarrow> Err bad
             | Some p \<Rightarrow> (case parse_i64 offset of None \<Rightarrow> Err bad | Some offset \<Rightarrow> Ok (topic, p, offset)))
      | _ \<Rightarrow> Err bad)"

definition to_proto_queue_ack_type :: "string \<Rightarrow> int" where
  "to_proto_queue_ack_type t = (if t = ''release'' then 2 else if t = ''reject'' then 3 else 1)"

definition to_proto_queue_ack_entry :: "go_ack_entry \<Rightarrow> go_error + ack_entry" where
  "to_proto_queue_ack_entry e =
     and_then (parse_queue_message_id (gae_message_id e)) (\<lambda>(topic, p, offset).
       Ok \<lparr>ae_topic = topic, ae_partition = p, ae_offset = offset, ae_type = to_proto_queue_ack_type (gae_ack_type e)\<rparr>)"

definition to_proto_queue_ack_entries :: "go_ack_entry list \<Rightarrow> go_error + ack_entry list" where
  "to_proto_queue_ack_entries es = collect_results (map to_proto_queue_ack_entry es)"

definition to_proto_queue_renew_entries :: "string list \<Rightarrow> go_error + ack_entry list" where
  "to_proto_queue_renew_entries mids =
     collect_results (map (\<lambda>mid. to_proto_queue_ack_entry \<lparr>gae_message_id = mid, gae_ack_type = ''accept''\<rparr>) mids)"

definition from_proto_queued_message :: "pb_queued_message \<Rightarrow> go_queue_message" where
  "from_proto_queued_message m =
     \<lparr>gqm_message_id = go_queue_message_id (qm_topic m) (qm_partition m) (qm_offset m), gqm_topic = qm_topic m,
      gqm_partition = qm_partition m, gqm_offset = qm_offset m, gqm_value = clone_nullable_bytes (qm_value m),
      gqm_headers = map (\<lambda>(name, v). (name, clone_nullable_bytes v)) (qm_headers m),
      gqm_delivery_count = qm_delivery_count m\<rparr>"

definition from_proto_queue_operation_error :: "error_info \<Rightarrow> go_operation_error" where
  "from_proto_queue_operation_error e =
     \<lparr>gqe_kind = map_gateway_error_kind (ei_code e) (ei_retriable e), gqe_message = ei_message e, gqe_retriable = ei_retriable e\<rparr>"

fun from_proto_queue_batch :: "pb_ack_result option list \<Rightarrow> go_error + go_queue_result list" where
  "from_proto_queue_batch [] = Ok []"
| "from_proto_queue_batch (r # rs) =
     (case Option.bind r (\<lambda>r. map_option (\<lambda>e. (e, pa_error r)) (pa_entry r)) of
        None \<Rightarrow> Err (error_with_message KindTransport ''queue response result did not include an entry'')
      | Some (e, x) \<Rightarrow>
          and_then (from_proto_queue_batch rs) (\<lambda>rs.
            Ok (\<lparr>gqr_message_id = go_queue_message_id (ae_topic e) (ae_partition e) (ae_offset e),
                 gqr_error = map_option from_proto_queue_operation_error x\<rparr> # rs)))"

definition go_acquire_with_session ::
    "'w go_rpc \<Rightarrow> string \<Rightarrow> string \<Rightarrow> nat \<Rightarrow> int \<Rightarrow> string \<Rightarrow> 'w go_client \<Rightarrow>
     (go_error + string \<times> go_queue_message list) \<times> 'w go_client" where
  "go_acquire_with_session rpc topic grp maximum lock_duration_ms sid c =
     (case validate_queue_acquire topic grp lock_duration_ms of
        Err e \<Rightarrow> (Err e, c)
      | Ok _ \<Rightarrow>
          if starts_with ''unreachable://'' (goc_endpoint c) then (Err (error_with_message KindTransport ''endpoint unreachable''), c)
          else
            (case goc_mock_store c of
               Some st \<Rightarrow>
                 (case acquire_queue_messages topic grp maximum sid st of (r, st) \<Rightarrow> (r, c\<lparr>goc_mock_store := Some st\<rparr>))
             | None \<Rightarrow>
                 (case gr_acquire rpc (add_authorization (goc_bearer_token c))
                         \<lparr>aq_group_id = grp, aq_topics = [topic], aq_max_messages = maximum, aq_wait_ms = 1000,
                          aq_session_id = sid, aq_lock_duration_ms = 30000\<rparr> (goc_world c) of
                    (r, w) \<Rightarrow>
                      (case r of
                         Err e \<Rightarrow> Err (map_connect_error e)
                       | Ok (sid, ms) \<Rightarrow> Ok (sid, map from_proto_queued_message ms),
                       c\<lparr>goc_world := w\<rparr>))))"

definition go_acquire ::
    "'w go_rpc \<Rightarrow> string \<Rightarrow> string \<Rightarrow> nat \<Rightarrow> int \<Rightarrow> 'w go_client \<Rightarrow>
     (go_error + string \<times> go_queue_message list) \<times> 'w go_client" where
  "go_acquire rpc topic grp maximum lock_duration_ms c = go_acquire_with_session rpc topic grp maximum lock_duration_ms [] c"

definition go_acknowledge ::
    "'w go_rpc \<Rightarrow> string \<Rightarrow> go_ack_entry list \<Rightarrow> 'w go_client \<Rightarrow> (go_error + go_queue_result list) \<times> 'w go_client" where
  "go_acknowledge rpc sid entries c =
     (case and_then (validate_queue_session_id sid) (\<lambda>_. validate_queue_ack_types entries) of
        Err e \<Rightarrow> (Err e, c)
      | Ok _ \<Rightarrow>
          (case goc_mock_store c of
             Some st \<Rightarrow>
               (case acknowledge_queue_messages sid entries st of (r, st) \<Rightarrow> (r, c\<lparr>goc_mock_store := Some st\<rparr>))
           | None \<Rightarrow>
               (case to_proto_queue_ack_entries entries of
                  Err e \<Rightarrow> (Err e, c)
                | Ok es \<Rightarrow>
                    (case gr_acknowledge rpc (add_authorization (goc_bearer_token c)) sid es (goc_world c) of
                       (r, w) \<Rightarrow>
                         (case r of Err e \<Rightarrow> Err (map_connect_error e) | Ok rs \<Rightarrow> from_proto_queue_batch rs, c\<lparr>goc_world := w\<rparr>)))))"

definition go_renew ::
    "'w go_rpc \<Rightarrow> string \<Rightarrow> string list \<Rightarrow> 'w go_client \<Rightarrow> (go_error + go_queue_result list) \<times> 'w go_client" where
  "go_renew rpc sid entries c =
     (case validate_queue_session_id sid of
        Err e \<Rightarrow> (Err e, c)
      | Ok _ \<Rightarrow>
          (case goc_mock_store c of
             Some st \<Rightarrow> (renew_queue_messages sid entries st, c)
           | None \<Rightarrow>
               (case to_proto_queue_renew_entries entries of
                  Err e \<Rightarrow> (Err e, c)
                | Ok es \<Rightarrow>
                    (case gr_renew rpc (add_authorization (goc_bearer_token c)) sid es (goc_world c) of
                       (r, w) \<Rightarrow>
                         (case r of Err e \<Rightarrow> Err (map_connect_error e) | Ok rs \<Rightarrow> from_proto_queue_batch rs, c\<lparr>goc_world := w\<rparr>)))))"

definition go_ack :: "'w go_rpc \<Rightarrow> string \<Rightarrow> 'w go_client \<Rightarrow> (go_error + unit) \<times> 'w go_client" where
  "go_ack rpc mid c =
     (case go_acknowledge rpc ''legacy-ack'' [\<lparr>gae_message_id = mid, gae_ack_type = ''accept''\<rparr>] c of
        (r, c) \<Rightarrow>
          (case r of
             Err e \<Rightarrow> Err e
           | Ok [] \<Rightarrow> Ok ()
           | Ok (x # _) \<Rightarrow>
               (case gqr_error x of None \<Rightarrow> Ok () | Some e \<Rightarrow> Err (error_with_message (gqe_kind e) (gqe_message e))), c))"

section \<open>Gated modules\<close>

definition go_connect :: "string \<Rightarrow> go_error + unit" where
  "go_connect name = Err (gated_error ''database'' ''chapter-f-control-plane'')"

definition go_sign_in :: "string \<Rightarrow> string \<Rightarrow> go_error + unit" where
  "go_sign_in username password = Err (error_with_message KindUnauthenticated ''identity APIs are not part of contract v1'')"

definition go_blob_put :: "string \<Rightarrow> go_bytes \<Rightarrow> go_error + unit" where
  "go_blob_put key v = Err (gated_error ''blob'' ''chapter-b-blob-api'')"

definition go_blob_get :: "string \<Rightarrow> go_error + go_bytes" where
  "go_blob_get key = Err (gated_error ''blob'' ''chapter-b-blob-api'')"

end
