(* ===== verification/Gw_GoAdapter.thy ===== *)
theory Gw_GoAdapter
  imports Gw_GoSdk
begin

text \<open>
  The conformance adapter of the Go SDK (\<^verbatim>\<open>src/sdks/go/cmd/conformance-adapter/main.go\<close>) and
  its agreement with the reference adapter. The responses it encodes as JSON maps are the
  values of \<open>response\<close> that the harness reads from them; Go writes the keys of a map in order.
  The map of session aliases never holds a session twice, so the order in which it is
  searched does not matter.
\<close>

section \<open>The adapter\<close>

record 'w go_adapter =
  ga_client :: "'w go_client"
  ga_subscription :: "go_subscription option"
  ga_next_queue_session_id :: int
  ga_queue_session_aliases :: "(string, string) hashmap"

definition go_adapter_start :: "'w \<Rightarrow> 'w go_adapter" where
  "go_adapter_start w =
     \<lparr>ga_client = go_new ''mock://gateway'' None w, ga_subscription = None, ga_next_queue_session_id = 1, ga_queue_session_aliases = []\<rparr>"

definition nonempty :: "string \<Rightarrow> string option" where
  "nonempty s = (if s = [] then None else Some s)"

definition go_sdk_error :: "error_kind \<Rightarrow> string \<Rightarrow> string \<Rightarrow> string \<Rightarrow> response" where
  "go_sdk_error kind m gated_on message =
     RespError \<lparr>wx_kind = kind, wx_module = nonempty m, wx_gated_on = nonempty gated_on, wx_message = nonempty message\<rparr>"

definition go_error_response :: "go_error \<Rightarrow> response" where
  "go_error_response e = go_sdk_error (goe_kind e) (goe_module e) (goe_gated_on e) (goe_message e)"

definition go_unit_response :: "go_error + 'a \<Rightarrow> response" where
  "go_unit_response r = (case r of Err e \<Rightarrow> go_error_response e | Ok _ \<Rightarrow> RespOk (JObject []))"

definition go_decode_headers :: "go_lib \<Rightarrow> wire_header list \<Rightarrow> header list" where
  "go_decode_headers gl hs =
     map (\<lambda>h. (wh_name h,
       case wh_value_b64 h of
         None \<Rightarrow> None
       | Some t \<Rightarrow> (case gl_decode gl t of Ok v \<Rightarrow> Some v | Err _ \<Rightarrow> None))) hs"

definition go_encode_headers :: "go_lib \<Rightarrow> header list \<Rightarrow> wire_header list" where
  "go_encode_headers gl hs = map (\<lambda>(name, v). \<lparr>wh_name = name, wh_value_b64 = map_option (gl_encode gl) v\<rparr>) hs"

definition to_sdk_filter :: "wire_filter option \<Rightarrow> go_filter option" where
  "to_sdk_filter f = map_option (\<lambda>f. \<lparr>gof_path = wf_path f, gof_op = equals_op, gof_value = go_of_json (wf_value f)\<rparr>) f"

definition close_subscription :: "'w go_rpc \<Rightarrow> 'w go_adapter \<Rightarrow> 'w go_adapter" where
  "close_subscription rpc a =
     (case ga_subscription a of
        None \<Rightarrow> a
      | Some sub \<Rightarrow>
          (case go_close rpc sub (ga_client a) of (_, _, c) \<Rightarrow> a\<lparr>ga_client := c, ga_subscription := None\<rparr>))"

definition replace_subscription :: "'w go_rpc \<Rightarrow> go_subscription \<Rightarrow> 'w go_adapter \<Rightarrow> 'w go_adapter" where
  "replace_subscription rpc sub a = (close_subscription rpc a)\<lparr>ga_subscription := Some sub\<rparr>"

definition actual_queue_session_id :: "string \<Rightarrow> 'w go_adapter \<Rightarrow> string" where
  "actual_queue_session_id sid a =
     (case hm_get (ga_queue_session_aliases a) sid of Some actual \<Rightarrow> actual | None \<Rightarrow> sid)"

definition remember_queue_session :: "string \<Rightarrow> 'w go_adapter \<Rightarrow> string \<times> 'w go_adapter" where
  "remember_queue_session sid a =
     (if sid = [] then (sid, a)
      else
        (case find (\<lambda>(_, actual). actual = sid) (ga_queue_session_aliases a) of
           Some (public, _) \<Rightarrow> (public, a)
         | None \<Rightarrow>
             let public = ''queue-session-'' @ show_int (ga_next_queue_session_id a) in
             (public,
              a\<lparr>ga_next_queue_session_id := wrap_i64 (ga_next_queue_session_id a + 1),
                ga_queue_session_aliases := hm_insert public sid (ga_queue_session_aliases a)\<rparr>)))"

definition go_publish_response :: "go_error + go_publish_result \<Rightarrow> response" where
  "go_publish_response r =
     (case r of
        Err e \<Rightarrow> go_error_response e
      | Ok p \<Rightarrow> publish_response (gop_partition p) (gop_offset p) (gop_deduplicated p))"

definition go_queue_message_json :: "go_lib \<Rightarrow> go_queue_message \<Rightarrow> json" where
  "go_queue_message_json gl m =
     JObject [(''delivery_count'', json_int (gqm_delivery_count m)),
       (''headers'', JArray (map header_to_json (go_encode_headers gl (gqm_headers m)))),
       (''message_id'', JString (gqm_message_id m)), (''offset'', json_int (gqm_offset m)),
       (''partition'', json_int (gqm_partition m)), (''topic'', JString (gqm_topic m)),
       (''value_b64'', json_opt (map_option (gl_encode gl) (gqm_value m)))]"

definition contract_queue_error_message :: "string \<Rightarrow> string" where
  "contract_queue_error_message message =
     (if message = ''record is not acquired by this session'' then ''queue message is not acquired'' else message)"

definition encode_queue_result :: "go_queue_result \<Rightarrow> json" where
  "encode_queue_result r =
     entry_result (gqr_message_id r)
       (case gqr_error r of
          None \<Rightarrow> JNull
        | Some e \<Rightarrow>
            JObject [(''kind'', JString (kind_name (gqe_kind e))), (''message'', JString (contract_queue_error_message (gqe_message e)))])"

definition queue_batch_response :: "go_error + go_queue_result list \<Rightarrow> response" where
  "queue_batch_response r =
     (case r of Err e \<Rightarrow> go_error_response e | Ok rs \<Rightarrow> results_response (map encode_queue_result rs))"

definition ack_name :: "wire_ack_type \<Rightarrow> string" where
  "ack_name t = (case t of WireAccept \<Rightarrow> ''accept'' | WireRelease \<Rightarrow> ''release'' | WireReject \<Rightarrow> ''reject'')"

definition to_queue_ack_entries :: "wire_ack_entry list \<Rightarrow> go_ack_entry list" where
  "to_queue_ack_entries es =
     map (\<lambda>e. \<lparr>gae_message_id = wa_message_id e, gae_ack_type = ack_name (wa_ack_type e)\<rparr>) es"

definition go_handle_configure :: "'w go_rpc \<Rightarrow> string \<Rightarrow> string option \<Rightarrow> 'w go_adapter \<Rightarrow> response \<times> 'w go_adapter" where
  "go_handle_configure rpc endpoint bearer a =
     (let a = close_subscription rpc a in
      (configured_response (bearer \<noteq> None), a\<lparr>ga_client := go_new endpoint bearer (goc_world (ga_client a))\<rparr>))"

definition go_handle_publish ::
    "go_lib \<Rightarrow> 'w go_rpc \<Rightarrow> string \<Rightarrow> string \<Rightarrow> wire_header list \<Rightarrow> 'w go_adapter \<Rightarrow> response \<times> 'w go_adapter" where
  "go_handle_publish gl rpc topic value_b64 headers a =
     (case gl_decode gl value_b64 of
        Err e \<Rightarrow> (go_sdk_error KindInvalidArgument [] [] e, a)
      | Ok v \<Rightarrow>
          (case go_publish rpc \<lparr>gor_topic = topic, gor_value = Some v, gor_headers = go_decode_headers gl headers\<rparr> (ga_client a) of
             (r, c) \<Rightarrow> (go_publish_response r, a\<lparr>ga_client := c\<rparr>)))"

definition go_handle_publish_event ::
    "go_lib \<Rightarrow> 'w go_rpc \<Rightarrow> string \<Rightarrow> wire_event \<Rightarrow> 'w go_adapter \<Rightarrow> response \<times> 'w go_adapter" where
  "go_handle_publish_event gl rpc topic event a =
     (case gl_decode gl (we_data_b64 event) of
        Err e \<Rightarrow> (go_sdk_error KindInvalidArgument [] [] e, a)
      | Ok v \<Rightarrow>
          (case go_publish_event rpc topic
                  \<lparr>gov_id = we_id event, gov_source = we_source event, gov_type = we_type event,
                   gov_spec_version = we_specversion event,
                   gov_data_content_type = (case we_datacontenttype event of Some t \<Rightarrow> t | None \<Rightarrow> []), gov_data = Some v\<rparr>
                  (ga_client a) of
             (r, c) \<Rightarrow> (go_publish_response r, a\<lparr>ga_client := c\<rparr>)))"

definition go_handle_subscribe ::
    "go_lib \<Rightarrow> 'w go_rpc \<Rightarrow> string list \<Rightarrow> string \<Rightarrow> wire_filter option \<Rightarrow> 'w go_adapter \<Rightarrow> response \<times> 'w go_adapter" where
  "go_handle_subscribe gl rpc topics grp filt a =
     (case go_subscribe gl rpc topics grp (to_sdk_filter filt) (ga_client a) of
        (Err e, c) \<Rightarrow> (go_error_response e, a\<lparr>ga_client := c\<rparr>)
      | (Ok sub, c) \<Rightarrow> (RespOk (JObject []), replace_subscription rpc sub (a\<lparr>ga_client := c\<rparr>)))"

definition go_handle_next_message ::
    "go_lib \<Rightarrow> 'w go_rpc \<Rightarrow> nat \<Rightarrow> 'w go_adapter \<Rightarrow> response \<times> 'w go_adapter" where
  "go_handle_next_message gl rpc timeout_ms a =
     (if ga_subscription a = None then (go_sdk_error KindInvalidArgument [] [] ''subscribe before next_message'', a)
      else
        (case go_next gl rpc timeout_ms (ga_subscription a) (ga_client a) of
           (r, sub, c) \<Rightarrow>
             (case r of
                Err e \<Rightarrow> go_error_response e
              | Ok m \<Rightarrow>
                  RespMessage \<lparr>wm_topic = goi_topic m, wm_partition = goi_partition m, wm_offset = goi_offset m,
                    wm_value_b64 = gl_encode gl (slice_bytes (goi_value m)), wm_headers = go_encode_headers gl (goi_headers m)\<rparr>,
              a\<lparr>ga_subscription := sub, ga_client := c\<rparr>)))"

definition go_handle_queue_acquire ::
    "go_lib \<Rightarrow> 'w go_rpc \<Rightarrow> string \<Rightarrow> string \<Rightarrow> nat \<Rightarrow> nat \<Rightarrow> string \<Rightarrow> 'w go_adapter \<Rightarrow> response \<times> 'w go_adapter" where
  "go_handle_queue_acquire gl rpc topic grp maximum lock_duration_ms sid a =
     (case go_acquire_with_session rpc topic grp maximum (wrap_i64 (int lock_duration_ms)) (actual_queue_session_id sid a) (ga_client a) of
        (Err e, c) \<Rightarrow> (go_error_response e, a\<lparr>ga_client := c\<rparr>)
      | (Ok (sid, ms), c) \<Rightarrow>
          (case remember_queue_session sid (a\<lparr>ga_client := c\<rparr>) of
             (public, a) \<Rightarrow> (acquire_response public (map (go_queue_message_json gl) ms), a)))"

definition go_handle :: "go_lib \<Rightarrow> 'w go_rpc \<Rightarrow> command \<Rightarrow> 'w go_adapter \<Rightarrow> response \<times> 'w go_adapter" where
  "go_handle gl rpc cmd a =
     (case cmd of
        CmdHello \<Rightarrow> (RespHello 1 1 ''go'', a)
      | CmdConfigure endpoint bearer \<Rightarrow> go_handle_configure rpc endpoint bearer a
      | CmdPublish topic value_b64 headers \<Rightarrow> go_handle_publish gl rpc topic value_b64 headers a
      | CmdPublishEvent topic event \<Rightarrow> go_handle_publish_event gl rpc topic event a
      | CmdSubscribe topics grp filt \<Rightarrow> go_handle_subscribe gl rpc topics grp filt a
      | CmdNextMessage timeout_ms \<Rightarrow> go_handle_next_message gl rpc timeout_ms a
      | CmdQueueAcquire topic grp maximum lock_duration_ms sid \<Rightarrow>
          go_handle_queue_acquire gl rpc topic grp maximum lock_duration_ms sid a
      | CmdQueueAck mid \<Rightarrow>
          (case go_ack rpc mid (ga_client a) of (r, c) \<Rightarrow> (go_unit_response r, a\<lparr>ga_client := c\<rparr>))
      | CmdQueueAcknowledge sid entries \<Rightarrow>
          (case go_acknowledge rpc (actual_queue_session_id sid a) (to_queue_ack_entries entries) (ga_client a) of
             (r, c) \<Rightarrow> (queue_batch_response r, a\<lparr>ga_client := c\<rparr>))
      | CmdQueueRenew sid entries \<Rightarrow>
          (case go_renew rpc (actual_queue_session_id sid a) (map wr_message_id entries) (ga_client a) of
             (r, c) \<Rightarrow> (queue_batch_response r, a\<lparr>ga_client := c\<rparr>))
      | CmdDbConnect name \<Rightarrow> (go_unit_response (go_connect name), a)
      | CmdAuthSignIn username password \<Rightarrow> (go_unit_response (go_sign_in username password), a)
      | CmdBlobPut key value_b64 \<Rightarrow> (go_unit_response (go_blob_put key None), a)
      | CmdBlobGet key \<Rightarrow> (go_unit_response (go_blob_get key), a))"

end
