(* ===== verification/Gw_GoConformance.thy ===== *)
theory Gw_GoConformance
  imports Gw_GoAdapter
begin

text \<open>
  The adapter of the Go SDK agrees with the reference adapter. The state of its store, with
  the Base64 text of each value and header, is the state of the reference adapter, so the
  proof is a simulation in which every operation of the one is the operation of the other.
\<close>

section \<open>The reference state of a store\<close>

definition ref_headers :: "adapter_lib \<Rightarrow> header list \<Rightarrow> wire_header list" where
  "ref_headers al hs = map (\<lambda>(name, v). \<lparr>wh_name = name, wh_value_b64 = map_option (al_encode al) v\<rparr>) hs"

definition ref_delivery :: "go_delivery \<Rightarrow> queue_delivery_state" where
  "ref_delivery d =
     \<lparr>qd_state = god_state d, qd_session_id = nonempty (god_session_id d), qd_delivery_count = nat (god_delivery_count d)\<rparr>"

definition ref_message :: "adapter_lib \<Rightarrow> go_message \<Rightarrow> stored_message" where
  "ref_message al m =
     \<lparr>sm_topic = gor_topic (gom_record m), sm_partition = gom_partition m, sm_offset = gom_offset m,
      sm_value_b64 = al_encode al (slice_bytes (gor_value (gom_record m))),
      sm_headers = ref_headers al (gor_headers (gom_record m)),
      sm_queue_states = map (\<lambda>(grp, d). (grp, ref_delivery d)) (gom_deliveries m)\<rparr>"

definition ref_session :: "go_session \<Rightarrow> adapter_session" where
  "ref_session s = \<lparr>as_topic = gse_topic s, as_group = gse_group s, as_max_messages = gse_max s\<rparr>"

lemma ref_message_simps [simp]:
  "sm_topic (ref_message al m) = gor_topic (gom_record m)" "sm_partition (ref_message al m) = gom_partition m"
  "sm_offset (ref_message al m) = gom_offset m" "sm_headers (ref_message al m) = ref_headers al (gor_headers (gom_record m))"
  "sm_value_b64 (ref_message al m) = al_encode al (slice_bytes (gor_value (gom_record m)))"
  "sm_queue_states (ref_message al m) = map (\<lambda>(grp, d). (grp, ref_delivery d)) (gom_deliveries m)"
  by (simp_all add: ref_message_def)

lemma ref_message_id [simp]: "queue_message_id (ref_message al m) = go_message_id m"
  by (simp add: queue_message_id_def go_message_id_def go_queue_message_id_def)

text \<open>Maps whose values are converted, keys kept.\<close>

lemma update_map: "map (\<lambda>(k, v). (k, f k v)) (hm_insert k v m) = hm_insert k (f k v) (map (\<lambda>(k, v). (k, f k v)) m)"
  by (induction m) auto

lemma hm_get_map: "hm_get (map (\<lambda>(k, v). (k, f v)) m) k = map_option f (hm_get m k)"
  by (induction m) auto

lemma update_update [simp]: "hm_insert k v (hm_insert k u m) = hm_insert k v m"
  by (induction m) auto

lemma ref_insert:
  "ref_message al (m\<lparr>gom_deliveries := hm_insert grp d (gom_deliveries m)\<rparr>)
   = (ref_message al m)\<lparr>sm_queue_states := hm_insert grp (ref_delivery d) (sm_queue_states (ref_message al m))\<rparr>"
  using update_map[where f = "\<lambda>_. ref_delivery", of grp d "gom_deliveries m"] by (simp add: ref_message_def)

section \<open>What the store keeps\<close>

text \<open>The part of a message that never changes.\<close>

definition frame_of :: "go_message \<Rightarrow> go_record \<times> int \<times> int" where
  "frame_of m = (gom_record m, gom_partition m, gom_offset m)"

definition record_ok :: "adapter_lib \<Rightarrow> go_lib \<Rightarrow> go_record \<Rightarrow> bool" where
  "record_ok al gl r \<longleftrightarrow>
     (\<exists>v. gor_value r = Some v \<and> v \<noteq> [] \<and> gl_unmarshal gl v = al_from_slice al v) \<and>
     (\<forall>(name, v)\<in>set (gor_headers r). v \<noteq> Some [])"

definition frames_ok :: "adapter_lib \<Rightarrow> go_lib \<Rightarrow> (go_record \<times> int \<times> int) list \<Rightarrow> bool" where
  "frames_ok al gl fs \<longleftrightarrow>
     distinct (map (\<lambda>(r, p, offset). (gor_topic r, p, offset)) fs) \<and>
     (\<forall>(r, p, offset)\<in>set fs. record_ok al gl r \<and>
        offset < int (length (filter (\<lambda>(r', _). gor_topic r' = gor_topic r) fs)))"

definition count_ok :: "nat \<Rightarrow> go_message \<Rightarrow> bool" where
  "count_ok n m \<longleftrightarrow>
     (\<forall>(grp, d)\<in>set (gom_deliveries m). 0 \<le> god_delivery_count d \<and> god_delivery_count d \<le> int n)"

abbreviation counts_ok :: "nat \<Rightarrow> go_message list \<Rightarrow> bool" where
  "counts_ok n ms \<equiv> list_all (count_ok n) ms"

lemma count_ok_mono: "count_ok n m \<Longrightarrow> n \<le> n' \<Longrightarrow> count_ok n' m"
  by (fastforce simp: count_ok_def)

lemma counts_ok_mono: "counts_ok n ms \<Longrightarrow> n \<le> n' \<Longrightarrow> counts_ok n' ms"
  by (auto simp: list_all_iff intro: count_ok_mono)

lemma count_ok_get:
  assumes "count_ok n m" "hm_get (gom_deliveries m) grp = Some d"
  shows "0 \<le> god_delivery_count d" "god_delivery_count d \<le> int n"
  using assms map_of_SomeD[of "gom_deliveries m" grp d] by (auto simp: count_ok_def)

lemma set_update_subset: "set (hm_insert k v m) \<subseteq> insert (k, v) (set m)"
  by (induction m) auto

lemma count_ok_insert:
  assumes "count_ok n m" "0 \<le> god_delivery_count d" "god_delivery_count d \<le> int n"
  shows "count_ok n (m\<lparr>gom_deliveries := hm_insert grp d (gom_deliveries m)\<rparr>)"
  using assms set_update_subset[of grp d "gom_deliveries m"] by (fastforce simp: count_ok_def)

lemma frame_of_deliveries [simp]: "frame_of (m\<lparr>gom_deliveries := x\<rparr>) = frame_of m"
  by (simp add: frame_of_def)

lemma frames_ids:
  assumes "frames_ok al gl (map frame_of ms)"
  shows "distinct (map go_message_id ms)"
proof -
  have "go_message_id m = coordinate_id ((\<lambda>(r, p, offset). (gor_topic r, p, offset)) (frame_of m))" for m
    by (simp add: go_message_id_def go_queue_message_id_def coordinate_id_def frame_of_def)
  hence "map go_message_id ms = map coordinate_id (map (\<lambda>(r, p, offset). (gor_topic r, p, offset)) (map frame_of ms))"
    by simp
  moreover have "inj_on coordinate_id A" for A by (rule inj_onI) (simp add: coordinate_id_inj)
  ultimately show ?thesis using assms
    by (simp add: frames_ok_def distinct_map del: map_map)
qed

lemma frame_record_ok: "frames_ok al gl (map frame_of ms) \<Longrightarrow> m \<in> set ms \<Longrightarrow> record_ok al gl (gom_record m)"
  by (fastforce simp: frames_ok_def frame_of_def)

lemma clone_ok:
  assumes "record_ok al gl r"
  shows "clone_headers (gor_headers r) = gor_headers r" "append_to_nil (gor_value r) = gor_value r" "clone_record r = r"
proof -
  have "append_to_nil v = v" if "(name, v) \<in> set (gor_headers r)" for name v
    using assms that by (fastforce simp: record_ok_def append_to_nil_def slice_bytes_def split: option.splits list.splits)
  hence "\<forall>x\<in>set (gor_headers r). (\<lambda>(name, v). (name, append_to_nil v)) x = x" by auto
  thus h: "clone_headers (gor_headers r) = gor_headers r" by (simp add: clone_headers_def map_idI)
  show v: "append_to_nil (gor_value r) = gor_value r"
    using assms by (auto simp: record_ok_def append_to_nil_def slice_bytes_def split: list.splits)
  show "clone_record r = r" by (simp add: clone_record_def h v)
qed

lemma encode_headers_ref: "gl_encode gl = al_encode al \<Longrightarrow> go_encode_headers gl hs = ref_headers al hs"
  by (simp add: go_encode_headers_def ref_headers_def)

section \<open>Filters\<close>

lemma char_range: "CHR 0x61 \<le> c \<longleftrightarrow> 97 \<le> code c" "c \<le> CHR 0x7A \<longleftrightarrow> code c \<le> 122" "CHR 0x41 \<le> c \<longleftrightarrow> 65 \<le> code c"
  "c \<le> CHR 0x5A \<longleftrightarrow> code c \<le> 90" "c < CHR 0x30 \<longleftrightarrow> code c < 48" "CHR 0x39 < c \<longleftrightarrow> 57 < code c"
  by (simp_all add: less_eq_char_def less_char_def)

lemma go_valid_filter_segment_eq: "go_valid_filter_segment = identifier_segment"
proof
  fix s
  have l: "is_ascii_letter c = is_ascii_alphabetic c" for c
    by (auto simp: is_ascii_letter_def is_ascii_alphabetic_def char_range)
  define ok :: "nat \<times> char \<Rightarrow> bool" where "ok = (\<lambda>(index, c).
       \<not> (index = 0 \<and> c \<noteq> CHR ''_'' \<and> \<not> is_ascii_letter c) \<and>
       \<not> (0 < index \<and> c \<noteq> CHR ''_'' \<and> \<not> is_ascii_letter c \<and> (c < CHR ''0'' \<or> CHR ''9'' < c)))"
  have rest: "list_all ok (enumerate (Suc n) cs) = list_all (\<lambda>c. c = CHR ''_'' \<or> is_ascii_alphanumeric c) cs" for n cs
    by (induction cs arbitrary: n) (auto simp: ok_def l is_ascii_alphanumeric_def is_ascii_digit_def char_range)
  have "go_valid_filter_segment s = (list_all ok (enumerate 0 s) \<and> s \<noteq> [])" by (simp add: go_valid_filter_segment_def ok_def)
  thus "go_valid_filter_segment s = identifier_segment s" by (cases s) (simp_all add: identifier_segment_def rest, simp add: ok_def l)
qed

text \<open>A filter on which the two agree: it compares with a string or a truth value, or it is refused.\<close>

definition portable_filter :: "wire_filter option \<Rightarrow> bool" where
  "portable_filter filt \<longleftrightarrow>
     (case filt of None \<Rightarrow> True | Some f \<Rightarrow> (case wf_value f of JNull \<Rightarrow> False | JNumber _ \<Rightarrow> False | _ \<Rightarrow> True))"

lemma to_proto_filter_validates:
  "(case to_proto_filter gl (to_sdk_filter filt) of Err e \<Rightarrow> Some (go_error_response e) | Ok _ \<Rightarrow> None)
   = map_option RespError (Option.bind filt validate_filter)"
proof (cases filt)
  case (Some f)
  have empty: "\<not> identifier_segment []" by (simp add: identifier_segment_def)
  have op: "wf_op f = EqualsOp" by (cases "wf_op f")
  show ?thesis unfolding Some option.simps bind.simps validate_filter_def op filter_field_def
    by (auto simp: to_proto_filter_def to_sdk_filter_def go_valid_filter_segment_eq Let_def empty
        go_error_response_def go_sdk_error_def error_with_message_def adapter_with_message_def nonempty_def
        split: json.splits)
qed (simp add: to_proto_filter_def to_sdk_filter_def)

lemma filter_matches_ref:
  assumes "base64_canonical al" "record_ok al gl (gom_record m)" "portable_filter filt" "Option.bind filt validate_filter = None"
  shows "go_mock_filter_matches gl (to_sdk_filter filt) (gor_value (gom_record m)) = mock_filter_matches al filt (ref_message al m)"
proof (cases filt)
  case (Some f)
  obtain v where v: "gor_value (gom_record m) = Some v" "gl_unmarshal gl v = al_from_slice al v" using assms(2) by (auto simp: record_ok_def)
  have d: "al_decode al (al_encode al v) = Ok v" using assms(1) by (simp add: base64_canonical_def)
  have op: "wf_op f = EqualsOp" by (cases "wf_op f")
  have scalar: "(\<exists>s. wf_value f = JString s) \<or> (\<exists>b. wf_value f = JBool b)"
    using assms(3,4) Some by (cases "wf_value f") (auto simp: portable_filter_def validate_filter_def op split: option.splits if_splits)
  have same: "same_any (go_of_json y) (go_of_json (wf_value f)) = (y = wf_value f)" for y
    using scalar by (cases y) (auto simp: same_any_def)
  have nil: "\<not> same_any GoNil (go_of_json (wf_value f))" using scalar by (auto simp: same_any_def)
  show ?thesis using Some v d op nil
    by (auto simp: go_mock_filter_matches_def to_sdk_filter_def mock_filter_matches_def filter_field_def Let_def slice_bytes_def same
        split: option.splits json.splits)
qed (simp add: go_mock_filter_matches_def to_sdk_filter_def mock_filter_matches_def)

section \<open>Reading\<close>

definition same_subscription :: "adapter_subscription option \<Rightarrow> go_subscription option \<Rightarrow> bool" where
  "same_subscription sub gsub \<longleftrightarrow>
     (case (sub, gsub) of
        (None, None) \<Rightarrow> True
      | (Some sub, Some (GoMock g)) \<Rightarrow>
          gou_topics g = ab_topics sub \<and> gou_filter g = to_sdk_filter (ab_filter sub) \<and>
          gou_next_index g = ab_next_index sub \<and> \<not> gou_closed g \<and>
          portable_filter (ab_filter sub) \<and> Option.bind (ab_filter sub) validate_filter = None
      | _ \<Rightarrow> False)"

lemma scan_ref:
  assumes "base64_canonical al" "\<forall>m\<in>set ms. record_ok al gl (gom_record m)" "same_subscription (Some sub) (Some (GoMock g))"
  shows "\<exists>r g'. mock_scan gl g ms = (r, g') \<and> fst (scan_messages al sub (map (ref_message al) ms)) = map_option (ref_message al) r \<and>
    same_subscription (Some (snd (scan_messages al sub (map (ref_message al) ms)))) (Some (GoMock g')) \<and> (\<forall>m. r = Some m \<longrightarrow> m \<in> set ms)"
  using assms(2,3)
proof (induction ms arbitrary: sub g)
  case (Cons m ms)
  let ?sub = "sub\<lparr>ab_next_index := ab_next_index sub + 1\<rparr>" and ?g = "g\<lparr>gou_next_index := gou_next_index g + 1\<rparr>"
  have s: "same_subscription (Some ?sub) (Some (GoMock ?g))" using Cons.prems(2) by (simp add: same_subscription_def)
  have f: "go_mock_filter_matches gl (gou_filter g) (gor_value (gom_record m)) = mock_filter_matches al (ab_filter sub) (ref_message al m)"
    using filter_matches_ref[OF assms(1), of gl m "ab_filter sub"] Cons.prems by (simp add: same_subscription_def)
  have t: "gou_topics g = ab_topics sub" using Cons.prems(2) by (simp add: same_subscription_def)
  show ?case using Cons.IH[OF _ s] Cons.prems(1) s f t by (auto simp: Let_def)
qed simp

section \<open>Acquiring\<close>

lemma acquire_none [simp]: "acquire_messages sid topic grp 0 ms = ([], ms)"
  by (induction ms) simp_all

lemma wrap_small: "0 \<le> n \<Longrightarrow> n < 2 ^ 31 \<Longrightarrow> wrap_i32 n = n" "0 \<le> n \<Longrightarrow> n < 2 ^ 63 \<Longrightarrow> wrap_i64 n = n"
  by (simp_all add: wrap_i32_def wrap_i64_def)

lemma wrap_unsigned:
  assumes "n < 2 ^ 64"
  shows "wrap_i64 (int n) = (if int n < 2 ^ 63 then int n else int n - 2 ^ 64)"
proof (cases "int n < 2 ^ 63")
  case False
  have "(int n + 2 ^ 63) mod 2 ^ 64 = ((int n - 2 ^ 63) + 2 ^ 64) mod 2 ^ 64" by (simp add: add.commute)
  also have "\<dots> = (int n - 2 ^ 63) mod 2 ^ 64" by (rule mod_add_self2)
  also have "\<dots> = int n - 2 ^ 63" using False assms by (intro mod_pos_pos_trivial) simp_all
  finally show ?thesis using False by (simp add: wrap_i64_def)
qed (simp add: wrap_small)

lemma take_ref:
  assumes "gl_encode gl = al_encode al" "record_ok al gl (gom_record m)" "count_ok n m" "n < 2 ^ 31 - 1" "sid \<noteq> []"
    and "acquire_mock_queue_message grp sid m = (q, m')"
  shows "take_message sid grp (ref_message al m) = (go_queue_message_json gl q, ref_message al m')"
    and "frame_of m' = frame_of m" "count_ok (Suc n) m'"
proof -
  define d where "d = (case hm_get (gom_deliveries m) grp of Some d \<Rightarrow> d | None \<Rightarrow> \<lparr>god_state = QAvailable, god_session_id = [], god_delivery_count = 0\<rparr>)"
  define d' where "d' = d\<lparr>god_state := QAcquired, god_session_id := sid, god_delivery_count := wrap_i32 (god_delivery_count d + 1)\<rparr>"
  have c: "0 \<le> god_delivery_count d" "god_delivery_count d \<le> int n"
    using count_ok_get[OF assms(3), of grp] by (auto simp: d_def split: option.splits)
  have w: "wrap_i32 (god_delivery_count d + 1) = god_delivery_count d + 1" using c assms(4) by (intro wrap_small) simp_all
  have m': "m' = m\<lparr>gom_deliveries := hm_insert grp d' (gom_deliveries m)\<rparr>"
    and q: "q = \<lparr>gqm_message_id = go_message_id m, gqm_topic = gor_topic (gom_record m), gqm_partition = gom_partition m,
            gqm_offset = gom_offset m, gqm_value = clone_nullable_bytes (gor_value (gom_record m)),
            gqm_headers = clone_headers (gor_headers (gom_record m)), gqm_delivery_count = god_delivery_count d'\<rparr>"
    using assms(6) by (auto simp: acquire_mock_queue_message_def queue_delivery_def d_def d'_def Let_def go_message_id_def split: option.splits)
  obtain v where v: "gor_value (gom_record m) = Some v" using assms(2) by (auto simp: record_ok_def)
  have cell: "(case hm_get (sm_queue_states (ref_message al m)) grp of Some s \<Rightarrow> s | None \<Rightarrow> \<lparr>qd_state = QAvailable, qd_session_id = None, qd_delivery_count = 0\<rparr>)
    = ref_delivery d" by (simp add: hm_get_map d_def ref_delivery_def nonempty_def split: option.splits)
  have ref': "(ref_delivery d)\<lparr>qd_state := QAcquired, qd_session_id := Some sid, qd_delivery_count := min (2 ^ 32 - 1) (qd_delivery_count (ref_delivery d) + 1)\<rparr>
    = ref_delivery d'" using c assms(4,5) by (simp add: d'_def ref_delivery_def nonempty_def w nat_add_distrib)
  have n': "int (qd_delivery_count (ref_delivery d')) = god_delivery_count d'" using c by (simp add: ref_delivery_def d'_def w)
  have ref_deliveries: "(ref_message al m)\<lparr>sm_queue_states := hm_insert grp (ref_delivery d') (sm_queue_states (ref_message al m))\<rparr> = ref_message al m'"
    by (simp add: m' ref_insert)
  show "take_message sid grp (ref_message al m) = (go_queue_message_json gl q, ref_message al m')"
    unfolding take_message_def cell Let_def ref' ref_deliveries
    using v by (simp add: acquired_json_def go_queue_message_json_def q ref_deliveries n' encode_headers_ref[OF assms(1)] clone_ok(1)[OF assms(2)] assms(1)
        clone_nullable_bytes_def json_opt_def slice_bytes_def)
  show "frame_of m' = frame_of m" by (simp add: m')
  show "count_ok (Suc n) m'" unfolding m' using c w
    by (intro count_ok_insert count_ok_mono[OF assms(3)]) (simp_all add: d'_def)
qed

text \<open>The loop of an acquisition, over messages whose frames and counts are as they should be.\<close>

lemma acquire_loop_ref:
  assumes "gl_encode gl = al_encode al" "n < 2 ^ 31 - 1" "sid \<noteq> []"
    and "\<forall>m\<in>set ms. record_ok al gl (gom_record m)" "counts_ok n ms" "k \<le> effective_max"
  shows "\<exists>qs ms'. acquire_loop topic grp sid effective_max k ms = (qs, ms') \<and>
    acquire_messages sid topic grp (effective_max - k) (map (ref_message al) ms) = (map (go_queue_message_json gl) qs, map (ref_message al) ms') \<and>
    map frame_of ms' = map frame_of ms \<and> counts_ok (Suc n) ms'"
  using assms(4-6)
proof (induction ms arbitrary: k)
  case (Cons m ms)
  have ok: "record_ok al gl (gom_record m)" "count_ok n m" "count_ok (Suc n) m"
    and rest: "\<forall>m\<in>set ms. record_ok al gl (gom_record m)" "counts_ok n ms" "counts_ok (Suc n) ms"
    using Cons.prems count_ok_mono[of n m "Suc n"] counts_ok_mono[of n ms "Suc n"] by simp_all
  have skip: ?case if sk: "acquire_loop topic grp sid effective_max k (m # ms) = (case acquire_loop topic grp sid effective_max k ms of (qs, ms) \<Rightarrow> (qs, m # ms))"
    and "\<not> acquirable topic grp (ref_message al m)"
    using Cons.IH[OF rest(1,2) Cons.prems(3)] that ok by auto
  show ?case
  proof (cases "k = effective_max")
    case True
    thus ?thesis using ok rest by auto
  next
    case False
    hence k: "k + 1 \<le> effective_max" "effective_max - k = Suc (effective_max - (k + 1))" using Cons.prems(3) by simp_all
    obtain d m1 where qd: "queue_delivery grp m = (d, m1)" by fastforce
    show ?thesis
    proof (cases "gor_topic (gom_record m) = topic \<and> god_state d = QAvailable")
      case True
      obtain q m2 where tk: "acquire_mock_queue_message grp sid m = (q, m2)" by fastforce
      have tk1: "acquire_mock_queue_message grp sid m1 = (q, m2)"
        using tk qd by (auto simp: acquire_mock_queue_message_def queue_delivery_def go_message_id_def Let_def split: option.splits)
      have aq: "acquirable topic grp (ref_message al m)"
        using True qd by (auto simp: acquirable_def hm_get_map queue_delivery_def ref_delivery_def split: option.splits)
      note t = take_ref[OF assms(1) ok(1,2) assms(2,3) tk]
      have "gor_topic (gom_record m1) = topic" using True qd by (auto simp: queue_delivery_def Let_def split: option.splits)
      thus ?thesis using Cons.IH[OF rest(1,2) k(1)] False True qd tk1 aq t k(2) by auto
    next
      case no: False
      have "m1 = m" if "god_state d \<noteq> QAvailable" using qd that by (auto simp: queue_delivery_def Let_def split: option.splits)
      moreover have "\<not> acquirable topic grp (ref_message al m)"
        using no qd by (auto simp: acquirable_def hm_get_map queue_delivery_def ref_delivery_def Let_def split: option.splits)
      ultimately show ?thesis using no qd False by (intro skip) auto
    qed
  qed
qed simp

section \<open>Settling\<close>

lemma find_absent: "mid \<notin> go_message_id ` set ms \<Longrightarrow> find_acquired_queue_message f grp sid mid ms = None"
  by (induction ms) (auto split: option.splits)

lemma held_ref: "sid \<noteq> [] \<Longrightarrow> held_by sid (ref_delivery d) \<longleftrightarrow> god_state d = QAcquired \<and> god_session_id d = sid"
  by (auto simp: held_by_def ref_delivery_def nonempty_def)

lemma find_ref:
  assumes "\<And>d. ref_delivery (f d) = f' (ref_delivery d)" "sid \<noteq> []" "distinct (map go_message_id ms)"
  shows "queue_state_mut f' grp sid mid (map (ref_message al) ms)
    = map_option (map (ref_message al)) (find_acquired_queue_message f grp sid mid ms)"
  using assms(3)
proof (induction ms)
  case (Cons m ms)
  show ?case
  proof (cases "go_message_id m = mid")
    case True
    hence "find_acquired_queue_message f grp sid mid ms = None" using Cons.prems by (intro find_absent) auto
    thus ?thesis using True
      by (auto simp: hm_get_map held_ref[OF assms(2)] assms(1) ref_insert split: option.splits)
  next
    case False
    thus ?thesis using Cons.IH Cons.prems by (cases "find_acquired_queue_message f grp sid mid ms") (auto split: option.splits)
  qed
qed simp

lemma find_frames:
  assumes "find_acquired_queue_message f grp sid mid ms = Some ms'" "counts_ok n ms" "\<And>d. god_delivery_count (f d) = god_delivery_count d"
  shows "map frame_of ms' = map frame_of ms \<and> counts_ok n ms'"
  using assms(1,2)
proof (induction ms arbitrary: ms')
  case (Cons m ms)
  have ok: "count_ok n m" "counts_ok n ms" using Cons.prems(2) by simp_all
  show ?case
  proof (cases "\<exists>d. hm_get (gom_deliveries m) grp = Some d \<and> god_state d = QAcquired \<and> god_session_id d = sid \<and> go_message_id m = mid")
    case True
    then obtain d where d: "hm_get (gom_deliveries m) grp = Some d" "ms' = m\<lparr>gom_deliveries := hm_insert grp (f d) (gom_deliveries m)\<rparr> # ms"
      using Cons.prems(1) by auto
    thus ?thesis using ok count_ok_insert[OF ok(1), of "f d" grp] count_ok_get[OF ok(1) d(1)] assms(3)
      by simp
  next
    case False
    then obtain ms1 where "find_acquired_queue_message f grp sid mid ms = Some ms1" "ms' = m # ms1"
      using Cons.prems(1) by (auto split: option.splits if_splits)
    thus ?thesis using Cons.IH ok by simp
  qed
qed simp

lemma ack_ref:
  assumes "sid \<noteq> []" "frames_ok al gl (map frame_of ms)" "counts_ok n ms"
  shows "\<exists>rs ms'. acknowledge_each grp sid (to_queue_ack_entries es) ms = (rs, ms') \<and>
    ack_results grp sid es (map (ref_message al) ms) = (map encode_queue_result rs, map (ref_message al) ms') \<and>
    map frame_of ms' = map frame_of ms \<and> counts_ok n ms'"
  using assms(2,3)
proof (induction es arbitrary: ms)
  case (Cons e es)
  let ?f = "\<lambda>d. d\<lparr>god_state := mock_queue_state_for_ack (ack_name (wa_ack_type e)), god_session_id := []\<rparr>"
  have f: "ref_delivery (?f d) = settle_state (wa_ack_type e) (ref_delivery d)" for d
    by (cases "wa_ack_type e") (simp_all add: ref_delivery_def settle_state_def mock_queue_state_for_ack_def ack_name_def nonempty_def)
  note r = find_ref[where f = ?f, OF f assms(1) frames_ids[OF Cons.prems(1)], of grp "wa_message_id e" al]
  have contract: "contract_queue_error_message ''queue message is not acquired'' = ''queue message is not acquired''"
    by (simp add: contract_queue_error_message_def)
  show ?case
  proof (cases "find_acquired_queue_message ?f grp sid (wa_message_id e) ms")
    case None
    thus ?thesis using Cons.IH[OF Cons.prems] r
      by (auto simp: to_queue_ack_entries_def acknowledge_queue_message_def mock_queue_ack_result_def encode_queue_result_def queue_entry_error_def
          not_acquired_json_def contract)
  next
    case (Some ms1)
    note fr = find_frames[OF Some Cons.prems(2)]
    thus ?thesis using Cons.IH[of ms1] Cons.prems(1) Some r
      by (auto simp: to_queue_ack_entries_def acknowledge_queue_message_def mock_queue_ack_result_def encode_queue_result_def)
  qed
qed (simp add: to_queue_ack_entries_def)

lemma renew_ref:
  assumes "sid \<noteq> []" "frames_ok al gl (map frame_of ms)"
  shows "queue_renew_result grp sid e (map (ref_message al) ms)
    = encode_queue_result (if find_acquired_queue_message (\<lambda>d. d) grp sid (wr_message_id e) ms = None then queue_entry_error (wr_message_id e)
        else \<lparr>gqr_message_id = wr_message_id e, gqr_error = None\<rparr>)"
  using find_ref[where f = "\<lambda>d. d" and f' = "\<lambda>d. d", OF _ assms(1) frames_ids[OF assms(2)], of grp "wr_message_id e" al]
  by (simp add: queue_renew_result_def encode_queue_result_def queue_entry_error_def not_acquired_json_def contract_queue_error_message_def)

section \<open>The simulation\<close>

definition session_name :: "int \<Rightarrow> string" where "session_name k = ''queue-session-'' @ show_int k"

definition go_agree :: "adapter_lib \<Rightarrow> go_lib \<Rightarrow> nat \<Rightarrow> mock_adapter \<Rightarrow> 'w go_adapter \<Rightarrow> bool" where
  "go_agree al gl n a s \<longleftrightarrow>
     (\<exists>st. goc_mock_store (ga_client s) = Some st \<and> \<not> starts_with ''unreachable://'' (goc_endpoint (ga_client s)) \<and>
        \<not> starts_with ''unreachable://'' (ma_endpoint a) \<and> ma_fault_mode a = NoFault \<and>
        ma_contract_minor a = CONTRACT_MINOR_QUEUE_RPC \<and>
        ma_messages a = map (ref_message al) (gos_messages st) \<and>
        frames_ok al gl (map frame_of (gos_messages st)) \<and> counts_ok n (gos_messages st) \<and>
        ma_queue_sessions a = map (\<lambda>(sid, x). (sid, ref_session x)) (gos_queue_sessions st) \<and>
        ga_queue_session_aliases s = map (\<lambda>(sid, x). (sid, sid)) (gos_queue_sessions st) \<and>
        gos_next_queue_session_id st = int (ma_next_session_id a) \<and> ga_next_queue_session_id s = int (ma_next_session_id a) \<and>
        1 \<le> ma_next_session_id a \<and> ma_next_session_id a \<le> Suc n \<and>
        fst ` set (gos_queue_sessions st) \<subseteq> session_name ` {1..<int (ma_next_session_id a)} \<and>
        same_subscription (ma_subscription a) (ga_subscription s))"

lemma go_agree_mono: "go_agree al gl n a s \<Longrightarrow> n \<le> n' \<Longrightarrow> go_agree al gl n' a s"
  unfolding go_agree_def by (meson counts_ok_mono Suc_le_mono order_trans)

lemma frames_ok_append:
  assumes "frames_ok al gl fs" "record_ok al gl r"
  shows "frames_ok al gl (fs @ [(r, p, int (length (filter (\<lambda>(r', _). gor_topic r' = gor_topic r) fs)))])"
  using assms by (force simp: frames_ok_def)

lemma publish_ref:
  assumes ag: "go_agree al gl n a s" and r: "record_ok al gl r" and p: "go_publish rpc r (ga_client s) = (res, c)"
  shows "\<exists>a'. mock_publish (gor_topic r) (al_encode al (slice_bytes (gor_value r))) (ref_headers al (gor_headers r)) a
      = (go_publish_response res, a') \<and> go_agree al gl n a' (s\<lparr>ga_client := c\<rparr>)"
proof -
  obtain st where st: "goc_mock_store (ga_client s) = Some st" and e: "\<not> starts_with ''unreachable://'' (goc_endpoint (ga_client s))"
    "\<not> starts_with ''unreachable://'' (ma_endpoint a)" "ma_fault_mode a = NoFault"
    and m: "ma_messages a = map (ref_message al) (gos_messages st)" "frames_ok al gl (map frame_of (gos_messages st))"
    using ag by (auto simp: go_agree_def)
  consider "gor_topic r = []" | "gor_topic r = ''__missing_topic''" | "gor_topic r \<noteq> []" "gor_topic r \<noteq> ''__missing_topic''" by blast
  thus ?thesis
  proof cases
    case 3
    let ?off = "int (length (filter (\<lambda>m. gor_topic (gom_record m) = gor_topic r) (gos_messages st)))"
    let ?new = "\<lparr>gom_record = r, gom_partition = 0, gom_offset = ?off, gom_deliveries = []\<rparr>"
    have v: "validate_record r = Ok ()" using 3 by (simp add: validate_record_def)
    have res: "res = Ok \<lparr>gop_partition = 0, gop_offset = ?off, gop_deduplicated = False\<rparr>"
      and c: "c = (ga_client s)\<lparr>goc_mock_store := Some (st\<lparr>gos_messages := gos_messages st @ [?new]\<rparr>)\<rparr>"
      using p st e(1) v by (auto simp: go_publish_def store_publish_def Let_def clone_ok(3)[OF r])
    have "?off = int (length (filter (\<lambda>(r', _). gor_topic r' = gor_topic r) (map frame_of (gos_messages st))))"
      by (simp add: frame_of_def filter_map comp_def)
    hence f: "frames_ok al gl (map frame_of (gos_messages st @ [?new]))"
      using frames_ok_append[OF m(2) r, of 0] by (simp add: frame_of_def)
    have new: "ref_message al ?new = \<lparr>sm_topic = gor_topic r, sm_partition = 0, sm_offset = ?off, sm_value_b64 = al_encode al (slice_bytes (gor_value r)),
        sm_headers = ref_headers al (gor_headers r), sm_queue_states = []\<rparr>" by (simp add: ref_message_def)
    have "count_ok n ?new" by (simp add: count_ok_def)
    hence "go_agree al gl n (a\<lparr>ma_messages := map (ref_message al) (gos_messages st @ [?new])\<rparr>) (s\<lparr>ga_client := c\<rparr>)"
      using ag st f by (auto simp: go_agree_def c)
    moreover have "mock_publish (gor_topic r) (al_encode al (slice_bytes (gor_value r))) (ref_headers al (gor_headers r)) a
        = (go_publish_response res, a\<lparr>ma_messages := map (ref_message al) (gos_messages st @ [?new])\<rparr>)"
      using 3 e by (simp add: mock_publish_def m(1) filter_map comp_def Let_def new res go_publish_response_def)
    ultimately show ?thesis by blast
  qed (use ag p e in \<open>auto simp: mock_publish_def go_publish_def validate_record_def go_publish_response_def go_error_response_def go_sdk_error_def
        error_with_message_def invalid_argument_def adapter_with_message_def nonempty_def\<close>)
qed

section \<open>Portable commands\<close>

text \<open>A value or header that is not empty, in canonical Base64; the two JSON parsers agree on a value.\<close>

definition portable_value :: "adapter_lib \<Rightarrow> go_lib \<Rightarrow> string \<Rightarrow> bool" where
  "portable_value al gl t =
     (case al_decode al t of Ok v \<Rightarrow> v \<noteq> [] \<and> gl_unmarshal gl v = al_from_slice al v | Err _ \<Rightarrow> False)"

definition portable_header :: "adapter_lib \<Rightarrow> wire_header \<Rightarrow> bool" where
  "portable_header al h =
     (case wh_value_b64 h of None \<Rightarrow> True | Some t \<Rightarrow> (case al_decode al t of Ok v \<Rightarrow> v \<noteq> [] | Err _ \<Rightarrow> False))"

definition portable_event :: "wire_event \<Rightarrow> bool" where
  "portable_event e \<longleftrightarrow>
     we_id e = [] \<or> trim (we_id e) \<noteq> [] \<and> we_source e \<noteq> [] \<and> we_type e \<noteq> [] \<and> we_specversion e \<noteq> [] \<and> we_datacontenttype e \<noteq> Some []"

fun go_portable :: "adapter_lib \<Rightarrow> go_lib \<Rightarrow> command \<Rightarrow> bool" where
  "go_portable al gl (CmdPublish _ v hs) \<longleftrightarrow> portable_value al gl v \<and> list_all (portable_header al) hs"
| "go_portable al gl (CmdPublishEvent _ e) \<longleftrightarrow> portable_value al gl (we_data_b64 e) \<and> portable_event e"
| "go_portable al gl (CmdSubscribe topics _ filt) \<longleftrightarrow> topics \<noteq> [] \<and> portable_filter filt"
| "go_portable al gl (CmdQueueAcquire topic grp _ lock _) \<longleftrightarrow> (topic \<noteq> [] \<or> grp \<noteq> []) \<and> 0 < lock \<and> lock < 2 ^ 64"
| "go_portable al gl (CmdQueueAck _) \<longleftrightarrow> False"
| "go_portable al gl CmdHello \<longleftrightarrow> False"
| "go_portable al gl (CmdConfigure _ _) \<longleftrightarrow> False"
| "go_portable al gl _ \<longleftrightarrow> True"

text \<open>Both libraries write the standard Base64 text of a value, and Go's reads it back.\<close>

definition go_base64 :: "adapter_lib \<Rightarrow> go_lib \<Rightarrow> bool" where
  "go_base64 al gl \<longleftrightarrow> base64_canonical al \<and> gl_encode gl = al_encode al \<and> (\<forall>v. gl_decode gl (al_encode al v) = Ok v)"

lemma portable_value_decodes:
  assumes "go_base64 al gl" "portable_value al gl t"
  obtains v where "t = al_encode al v" "gl_decode gl t = Ok v" "v \<noteq> []" "gl_unmarshal gl v = al_from_slice al v"
proof -
  obtain v where "al_decode al t = Ok v" "v \<noteq> []" "gl_unmarshal gl v = al_from_slice al v"
    using assms(2) by (auto simp: portable_value_def split: sum.splits)
  thus ?thesis using that[of v] assms(1) by (simp add: go_base64_def base64_canonical_def)
qed

lemma portable_headers_decode:
  assumes "go_base64 al gl" "list_all (portable_header al) hs"
  shows "ref_headers al (go_decode_headers gl hs) = hs" "\<forall>(name, v)\<in>set (go_decode_headers gl hs). v \<noteq> Some []"
proof -
  have "\<exists>v. (case wh_value_b64 h of None \<Rightarrow> None | Some t \<Rightarrow> (case gl_decode gl t of Ok v \<Rightarrow> Some v | Err _ \<Rightarrow> None)) = v \<and>
      wh_value_b64 h = map_option (al_encode al) v \<and> v \<noteq> Some []" if "h \<in> set hs" for h
  proof (cases "wh_value_b64 h")
    case (Some t)
    moreover have "portable_header al h" using assms(2) that by (simp add: list_all_iff)
    ultimately obtain v where "al_decode al t = Ok v" "v \<noteq> []" by (auto simp: portable_header_def split: sum.splits)
    thus ?thesis using Some assms(1) by (simp add: go_base64_def base64_canonical_def)
  qed simp
  note each = this
  show "ref_headers al (go_decode_headers gl hs) = hs"
    unfolding ref_headers_def go_decode_headers_def map_map comp_def using each by (intro map_idI) fastforce
  show "\<forall>(name, v)\<in>set (go_decode_headers gl hs). v \<noteq> Some []"
    unfolding go_decode_headers_def using each by fastforce
qed

lemma go_publish_step:
  assumes "go_agree al gl n a s" "go_base64 al gl" "portable_value al gl t" "list_all (portable_header al) hs"
  shows "\<exists>r a' s'. mock_publish topic t hs a = (r, a') \<and> go_handle_publish gl rpc topic t hs s = (r, s') \<and> go_agree al gl n a' s'"
proof -
  obtain v where v: "t = al_encode al v" "gl_decode gl t = Ok v" "v \<noteq> []" "gl_unmarshal gl v = al_from_slice al v"
    using portable_value_decodes[OF assms(2,3)] .
  let ?r = "\<lparr>gor_topic = topic, gor_value = Some v, gor_headers = go_decode_headers gl hs\<rparr>"
  note h = portable_headers_decode[OF assms(2,4)]
  have ok: "record_ok al gl ?r" using v h(2) by (simp add: record_ok_def)
  obtain res c where p: "go_publish rpc ?r (ga_client s) = (res, c)" by fastforce
  show ?thesis using publish_ref[OF assms(1) ok p] v p h(1) by (auto simp: go_handle_publish_def slice_bytes_def)
qed

lemma as_bytes_empty [simp]: "as_bytes t = [] \<longleftrightarrow> t = []"
  by (simp add: as_bytes_def)

lemma trim_empty: "trim [] = []"
  by (simp add: trim_def trim_start_def trim_end_def strip_all.simps find_None_iff2 white_space_def starts_with_def)

lemma go_event_step:
  assumes "go_agree al gl n a s" "go_base64 al gl" "portable_value al gl (we_data_b64 e)" "portable_event e"
  shows "\<exists>r a' s'. mock_publish_event al topic e a = (r, a') \<and> go_handle_publish_event gl rpc topic e s = (r, s') \<and> go_agree al gl n a' s'"
proof -
  obtain v where v: "we_data_b64 e = al_encode al v" "gl_decode gl (we_data_b64 e) = Ok v" "v \<noteq> []" "gl_unmarshal gl v = al_from_slice al v"
    using portable_value_decodes[OF assms(2,3)] .
  let ?e = "\<lparr>gov_id = we_id e, gov_source = we_source e, gov_type = we_type e, gov_spec_version = we_specversion e,
      gov_data_content_type = (case we_datacontenttype e of Some t \<Rightarrow> t | None \<Rightarrow> []), gov_data = Some v\<rparr>"
  let ?r = "\<lparr>gor_topic = topic, gor_value = Some v, gor_headers = cloud_event_headers ?e\<rparr>"
  show ?thesis
  proof (cases "we_id e = []")
    case True
    thus ?thesis using assms(1) v(2)
      by (auto simp: mock_publish_event_def go_handle_publish_event_def go_publish_event_def trim_empty go_publish_response_def go_error_response_def
          go_sdk_error_def error_with_message_def invalid_argument_def adapter_with_message_def nonempty_def)
  next
    case False
    hence p: "trim (we_id e) \<noteq> []" "we_source e \<noteq> []" "we_type e \<noteq> []" "we_specversion e \<noteq> []" "we_datacontenttype e \<noteq> Some []"
      using assms(4) by (auto simp: portable_event_def)
    have ok: "record_ok al gl ?r" using v(3,4) False p by (auto simp: record_ok_def cloud_event_headers_def)
    have h: "ref_headers al (cloud_event_headers ?e) = [text_header al ''ce_id'' (we_id e), text_header al ''ce_source'' (we_source e),
            text_header al ''ce_type'' (we_type e), text_header al ''ce_specversion'' (we_specversion e)]
           @ (case we_datacontenttype e of Some t \<Rightarrow> [text_header al ''content-type'' t] | None \<Rightarrow> [])"
      using p(5) by (auto simp: ref_headers_def cloud_event_headers_def text_header_def split: option.splits)
    obtain res c where q: "go_publish rpc ?r (ga_client s) = (res, c)" by fastforce
    have "go_publish_event rpc topic ?e (ga_client s) = (res, c)" using q p(1) by (simp add: go_publish_event_def)
    thus ?thesis using publish_ref[OF assms(1) ok q] v(1,2) False h
      by (auto simp: mock_publish_event_def go_handle_publish_event_def slice_bytes_def)
  qed
qed

lemma close_mock:
  assumes "same_subscription sub (ga_subscription s)"
  shows "close_subscription rpc s = s\<lparr>ga_subscription := None\<rparr>"
  using assms
  by (cases s) (auto simp: close_subscription_def same_subscription_def go_close_def split: option.splits go_subscription.splits)

lemma go_subscribe_step:
  assumes ag: "go_agree al gl n a s" and p: "topics \<noteq> []" "portable_filter filt"
  shows "\<exists>r a' s'. mock_subscribe topics filt a = (r, a') \<and> go_handle_subscribe gl rpc topics grp filt s = (r, s') \<and> go_agree al gl n a' s'"
proof -
  obtain st where st: "goc_mock_store (ga_client s) = Some st" "same_subscription (ma_subscription a) (ga_subscription s)"
    using ag by (auto simp: go_agree_def)
  have op: "(case to_sdk_filter filt of Some f \<Rightarrow> gof_op f \<noteq> equals_op | None \<Rightarrow> False) = False"
    by (simp add: to_sdk_filter_def split: option.splits)
  note val = to_proto_filter_validates[of gl filt]
  show ?thesis
  proof (cases "Option.bind filt validate_filter")
    case None
    then obtain t where t: "to_proto_filter gl (to_sdk_filter filt) = Ok t" using val by (cases "to_proto_filter gl (to_sdk_filter filt)") auto
    have "go_handle_subscribe gl rpc topics grp filt s = (RespOk (JObject []), s\<lparr>ga_subscription := Some (GoMock (store_subscribe topics (to_sdk_filter filt)))\<rparr>)"
      using p st t by (simp add: go_handle_subscribe_def go_subscribe_def op replace_subscription_def close_mock[OF st(2)])
    moreover have "mock_subscribe topics filt a = (RespOk (JObject []), a\<lparr>ma_subscription := Some \<lparr>ab_topics = topics, ab_filter = filt, ab_next_index = 0\<rparr>\<rparr>)"
      using None by (simp add: mock_subscribe_def)
    moreover have "same_subscription (Some \<lparr>ab_topics = topics, ab_filter = filt, ab_next_index = 0\<rparr>) (Some (GoMock (store_subscribe topics (to_sdk_filter filt))))"
      using None p by (simp add: same_subscription_def store_subscribe_def)
    ultimately show ?thesis using ag by (auto simp: go_agree_def)
  next
    case (Some e)
    then obtain x where x: "to_proto_filter gl (to_sdk_filter filt) = Err x" "go_error_response x = RespError e"
      using val by (cases "to_proto_filter gl (to_sdk_filter filt)") auto
    have "go_handle_subscribe gl rpc topics grp filt s = (RespError e, s)"
      using p x by (simp add: go_handle_subscribe_def go_subscribe_def op)
    thus ?thesis using Some ag by (auto simp: mock_subscribe_def)
  qed
qed

lemma go_next_step:
  assumes ag: "go_agree al gl n a s" and b: "go_base64 al gl"
  shows "\<exists>r a' s'. mock_next_message al a = (r, a') \<and> go_handle_next_message gl rpc ms s = (r, s') \<and> go_agree al gl n a' s'"
proof -
  obtain st where st: "goc_mock_store (ga_client s) = Some st" "same_subscription (ma_subscription a) (ga_subscription s)"
    and m: "ma_messages a = map (ref_message al) (gos_messages st)" "frames_ok al gl (map frame_of (gos_messages st))"
    using ag by (auto simp: go_agree_def)
  show ?thesis
  proof (cases "ma_subscription a")
    case None
    hence "ga_subscription s = None" using st(2) by (simp add: same_subscription_def split: option.splits)
    thus ?thesis using None ag
      by (auto simp: mock_next_message_def go_handle_next_message_def invalid_argument_def go_sdk_error_def adapter_with_message_def nonempty_def)
  next
    case (Some sub)
    then obtain g where g: "ga_subscription s = Some (GoMock g)" "same_subscription (Some sub) (Some (GoMock g))"
      using st(2) by (auto simp: same_subscription_def split: option.splits go_subscription.splits)
    have idx: "gou_next_index g = ab_next_index sub" "\<not> gou_closed g" using g(2) by (auto simp: same_subscription_def)
    have ok: "\<forall>m\<in>set (drop (ab_next_index sub) (gos_messages st)). record_ok al gl (gom_record m)"
      using frame_record_ok[OF m(2)] by (auto dest: in_set_dropD)
    obtain r g' sub' where sc: "mock_scan gl g (drop (ab_next_index sub) (gos_messages st)) = (r, g')"
      "scan_messages al sub (drop (ab_next_index sub) (ma_messages a)) = (map_option (ref_message al) r, sub')"
      "same_subscription (Some sub') (Some (GoMock g'))" "\<forall>m. r = Some m \<longrightarrow> record_ok al gl (gom_record m)"
      using scan_ref[OF _ ok g(2)] b ok unfolding m(1) drop_map by (fastforce simp: go_base64_def prod_eq_iff)
    have en: "gl_encode gl = al_encode al" using b by (simp add: go_base64_def)
    have ag': "go_agree al gl n (a\<lparr>ma_subscription := Some sub'\<rparr>) (s\<lparr>ga_subscription := Some (GoMock g'), ga_client := ga_client s\<rparr>)"
      using ag sc(3) by (auto simp: go_agree_def)
    show ?thesis
    proof (cases r)
      case None
      thus ?thesis using Some g(1) idx sc ag' st(1)
        by (auto simp: mock_next_message_def go_handle_next_message_def go_next_def mock_next_def no_message_def go_error_response_def
            go_sdk_error_def error_with_message_def adapter_with_message_def nonempty_def)
    next
      case (Some x)
      note cl = clone_ok[OF sc(4)[rule_format, OF Some]]
      show ?thesis using \<open>ma_subscription a = Some sub\<close> Some g(1) idx sc(1,2) ag' st(1)
        by (auto simp: mock_next_message_def go_handle_next_message_def go_next_def mock_next_def stored_to_wire_def cl encode_headers_ref[OF en] en)
    qed
  qed
qed

lemma alias_get: "hm_get (map (\<lambda>(sid, x). (sid, sid)) ss) sid = (if sid \<in> fst ` set ss then Some sid else None)"
  by (induction ss) auto

lemma alias_find: "find (\<lambda>(_, actual). actual = sid) (map (\<lambda>(sid, x). (sid, sid)) ss) = (if sid \<in> fst ` set ss then Some (sid, sid) else None)"
  by (induction ss) auto

lemma actual_is_public:
  assumes "go_agree al gl n a s"
  shows "actual_queue_session_id sid s = sid"
  using assms by (auto simp: go_agree_def actual_queue_session_id_def alias_get)

lemma session_name_inj [simp]: "session_name j = session_name k \<longleftrightarrow> j = k"
  by (simp add: session_name_def show_int_inj)

lemma session_name_nonempty [simp]: "session_name k \<noteq> []"
  by (simp add: session_name_def)

lemma new_session:
  assumes ag: "go_agree al gl n a s" and st: "goc_mock_store (ga_client s) = Some st" and n: "n < 2 ^ 31 - 1"
    and x: "x = \<lparr>gse_topic = topic, gse_group = grp, gse_max = min (max maximum 1) 500\<rparr>" and sid: "sid = session_name (int (ma_next_session_id a))"
    and st1: "st1 = st\<lparr>gos_next_queue_session_id := int (ma_next_session_id a) + 1, gos_queue_sessions := hm_insert sid x (gos_queue_sessions st)\<rparr>"
    and a1: "a1 = a\<lparr>ma_next_session_id := ma_next_session_id a + 1, ma_queue_sessions := hm_insert sid (ref_session x) (ma_queue_sessions a)\<rparr>"
    and s1: "s1 = s\<lparr>ga_next_queue_session_id := int (ma_next_session_id a) + 1, ga_queue_session_aliases := hm_insert sid sid (ga_queue_session_aliases s)\<rparr>"
  shows "acquire_session topic grp maximum [] a = (Ok sid, a1)"
    "go_acquire_session topic grp maximum (min (max maximum 1) 500) [] st = (Ok sid, st1)"
    "remember_queue_session sid s = (sid, s1)"
    "go_agree al gl (Suc n) a1 (s1\<lparr>ga_client := (ga_client s)\<lparr>goc_mock_store := Some st1\<rparr>\<rparr>)"
proof -
  let ?k = "ma_next_session_id a"
  have next_ids: "gos_next_queue_session_id st = int ?k" "ga_next_queue_session_id s = int ?k" "?k \<le> Suc n"
    and keys: "fst ` set (gos_queue_sessions st) \<subseteq> session_name ` {1..<int ?k}"
    and al: "ga_queue_session_aliases s = map (\<lambda>(sid, x). (sid, sid)) (gos_queue_sessions st)"
    using ag st by (auto simp: go_agree_def)
  have base: "\<not> starts_with ''unreachable://'' (goc_endpoint (ga_client s))" "\<not> starts_with ''unreachable://'' (ma_endpoint a)"
      "ma_fault_mode a = NoFault" "ma_contract_minor a = CONTRACT_MINOR_QUEUE_RPC" "ma_messages a = map (ref_message al) (gos_messages st)"
      "frames_ok al gl (map frame_of (gos_messages st))" "ma_queue_sessions a = map (\<lambda>(sid, x). (sid, ref_session x)) (gos_queue_sessions st)"
      "same_subscription (ma_subscription a) (ga_subscription s)"
    using ag st by (auto simp: go_agree_def)
  note maps = update_map[where f = "\<lambda>_. ref_session", of sid x "gos_queue_sessions st"] update_map[where f = "\<lambda>sid _. sid", of sid x "gos_queue_sessions st"]
  have fresh: "sid \<notin> fst ` set (gos_queue_sessions st)" using keys by (force simp: sid)
  have w: "wrap_i64 (int ?k + 1) = int ?k + 1" using next_ids(3) n by (intro wrap_small) simp_all
  have named: "''queue-session-'' @ show_int (int ?k) = sid" "''queue-session-'' @ show_nat ?k = sid" by (simp_all add: sid session_name_def show_int_def)
  have "min (2 ^ 64 - 1) (?k + 1) = ?k + 1" using next_ids(3) n by simp
  thus "acquire_session topic grp maximum [] a = (Ok sid, a1)"
    unfolding acquire_session_def next_queue_session_id_def Let_def named by (simp add: a1 x ref_session_def)
  show "go_acquire_session topic grp maximum (min (max maximum 1) 500) [] st = (Ok sid, st1)"
    unfolding go_acquire_session_def Let_def next_ids named w by (simp add: st1 x)
  show "remember_queue_session sid s = (sid, s1)"
    unfolding remember_queue_session_def Let_def next_ids named w al alias_find using fresh by (simp add: s1 sid al)
  have k: "session_name ` {1..<int ?k} \<subseteq> session_name ` {1..<int ?k + 1}" "sid \<in> session_name ` {1..<int ?k + 1}"
    using ag by (auto simp: sid go_agree_def)
  have "fst ` set (hm_insert sid x (gos_queue_sessions st)) \<subseteq> fst ` insert (sid, x) (set (gos_queue_sessions st))"
    by (rule image_mono[OF set_update_subset])
  hence "fst ` set (hm_insert sid x (gos_queue_sessions st)) \<subseteq> session_name ` {1..<int ?k + 1}"
    using order_trans[OF keys k(1)] k(2) by (simp only: image_insert fst_conv) blast
  moreover have "counts_ok (Suc n) (gos_messages st)" using ag st counts_ok_mono[of n "gos_messages st" "Suc n"] by (auto simp: go_agree_def)
  ultimately show "go_agree al gl (Suc n) a1 (s1\<lparr>ga_client := (ga_client s)\<lparr>goc_mock_store := Some st1\<rparr>\<rparr>)"
    using next_ids(3) unfolding go_agree_def by (intro exI[of _ st1] conjI) (simp_all add: a1 s1 st1 al base maps add.commute)
qed

lemma kept_session:
  assumes ag: "go_agree al gl n a s" and st: "goc_mock_store (ga_client s) = Some st" and sid: "sid \<noteq> []"
  shows "\<exists>r. acquire_session topic grp maximum sid a = (r, a) \<and>
    go_acquire_session topic grp maximum (min (max maximum 1) 500) sid st = (map_err (error_with_message KindInvalidArgument) r, st) \<and>
    (\<forall>x. r = Ok x \<longrightarrow> x = sid \<and> remember_queue_session sid s = (sid, s))"
proof -
  have se: "ma_queue_sessions a = map (\<lambda>(sid, x). (sid, ref_session x)) (gos_queue_sessions st)"
    and al: "ga_queue_session_aliases s = map (\<lambda>(sid, x). (sid, sid)) (gos_queue_sessions st)"
    using ag st by (auto simp: go_agree_def)
  have "remember_queue_session sid s = (sid, s)" if "hm_get (gos_queue_sessions st) sid = Some x" for x
  proof -
    have "sid \<in> fst ` set (gos_queue_sessions st)" using that by (metis map_of_SomeD fst_conv image_eqI)
    thus ?thesis using sid by (simp add: remember_queue_session_def al alias_find)
  qed
  thus ?thesis using sid
    by (auto simp: acquire_session_def go_acquire_session_def Let_def se hm_get_map ref_session_def split: option.splits)
qed

lemma remember_client: "remember_queue_session sid (s\<lparr>ga_client := c\<rparr>) = (case remember_queue_session sid s of (p, s) \<Rightarrow> (p, s\<lparr>ga_client := c\<rparr>))"
  by (simp add: remember_queue_session_def Let_def split: option.splits)

lemma acquired_agree:
  assumes ag: "go_agree al gl (Suc n) a (s\<lparr>ga_client := c\<lparr>goc_mock_store := Some st\<rparr>\<rparr>)"
    and ms: "map frame_of ms = map frame_of (gos_messages st)" "counts_ok (Suc n) ms"
  shows "go_agree al gl (Suc n) (a\<lparr>ma_messages := map (ref_message al) ms\<rparr>) (s\<lparr>ga_client := c\<lparr>goc_mock_store := Some (st\<lparr>gos_messages := ms\<rparr>)\<rparr>\<rparr>)"
  using assms by (auto simp: go_agree_def)

lemma effective_max: "(if 500 < (if m = 0 then 1 else m) then 500 else (if m = 0 then 1 else m)) = min (max m 1) (500 :: nat)"
  by auto

lemma go_acquire_step:
  assumes ag: "go_agree al gl n a s" and b: "go_base64 al gl" and n: "n < 2 ^ 31 - 1"
    and p: "topic \<noteq> [] \<or> grp \<noteq> []" "0 < lock" "lock < 2 ^ 64"
  shows "\<exists>r a' s'. mock_queue_acquire topic grp maximum lock sid a = (r, a') \<and>
    go_handle_queue_acquire gl rpc topic grp maximum lock sid s = (r, s') \<and> go_agree al gl (Suc n) a' s'"
proof -
  obtain st where st: "goc_mock_store (ga_client s) = Some st" "\<not> starts_with ''unreachable://'' (goc_endpoint (ga_client s))"
    and m: "ma_messages a = map (ref_message al) (gos_messages st)" "frames_ok al gl (map frame_of (gos_messages st))" "counts_ok n (gos_messages st)"
    and minor: "ma_contract_minor a = CONTRACT_MINOR_QUEUE_RPC"
    using ag by (auto simp: go_agree_def)
  have en: "gl_encode gl = al_encode al" using b by (simp add: go_base64_def)
  have up: "go_agree al gl (Suc n) a s" using go_agree_mono[OF ag] by simp
  have lk: "wrap_i64 (int lock) \<noteq> 0" "wrap_i64 (int lock) = 30000 \<longleftrightarrow> lock = 30000"
    using p(2,3) wrap_unsigned[of lock] by (auto split: if_splits)
  note errs = go_error_response_def go_sdk_error_def error_with_message_def invalid_argument_def adapter_with_message_def nonempty_def
  show ?thesis
  proof (cases "topic = [] \<or> grp = [] \<or> lock \<noteq> 30000")
    case True
    thus ?thesis using p(1) lk up minor
      by (auto simp: mock_queue_acquire_def go_handle_queue_acquire_def go_acquire_with_session_def validate_queue_acquire_def errs)
  next
    case False
    let ?eff = "min (max maximum 1) 500"
    have val: "validate_queue_acquire topic grp (wrap_i64 (int lock)) = Ok ()" using False lk by (simp add: validate_queue_acquire_def)
    have mock: "mock_queue_acquire topic grp maximum lock sid a = (case acquire_session topic grp maximum sid a of
           (Err e, a) \<Rightarrow> (invalid_argument e, a)
         | (Ok sid, a) \<Rightarrow> (case acquire_messages sid topic grp ?eff (ma_messages a) of (js, ms) \<Rightarrow> (acquire_response sid js, a\<lparr>ma_messages := ms\<rparr>)))"
      using False minor by (simp add: mock_queue_acquire_def)
    have go: "go_acquire_with_session rpc topic grp maximum (wrap_i64 (int lock)) (actual_queue_session_id sid s) (ga_client s)
      = (case acquire_queue_messages topic grp maximum sid st of (r, st) \<Rightarrow> (r, (ga_client s)\<lparr>goc_mock_store := Some st\<rparr>))"
      using st val by (simp add: go_acquire_with_session_def actual_is_public[OF ag])
    have fin: ?thesis if sess: "acquire_session topic grp maximum sid a = (Ok sid', a1)" "go_acquire_session topic grp maximum ?eff sid st = (Ok sid', st1)"
        "remember_queue_session sid' s = (sid', s1)" "sid' \<noteq> []" "ma_messages a1 = ma_messages a" "gos_messages st1 = gos_messages st"
        "go_agree al gl (Suc n) a1 (s1\<lparr>ga_client := (ga_client s)\<lparr>goc_mock_store := Some st1\<rparr>\<rparr>)" for sid' a1 st1 s1
    proof -
      have ok: "\<forall>m\<in>set (gos_messages st). record_ok al gl (gom_record m)" using frame_record_ok[OF m(2)] by blast
      obtain qs ms' where l: "acquire_loop topic grp sid' ?eff 0 (gos_messages st) = (qs, ms')"
        "acquire_messages sid' topic grp ?eff (ma_messages a) = (map (go_queue_message_json gl) qs, map (ref_message al) ms')"
        "map frame_of ms' = map frame_of (gos_messages st)" "counts_ok (Suc n) ms'"
        using acquire_loop_ref[OF en n sess(4) ok m(3), of 0 ?eff topic grp] by (auto simp: m(1))
      have "acquire_queue_messages topic grp maximum sid st = (Ok (sid', qs), st1\<lparr>gos_messages := ms'\<rparr>)"
        using sess(2,6) l(1) by (simp add: acquire_queue_messages_def effective_max Let_def)
      hence "go_handle_queue_acquire gl rpc topic grp maximum lock sid s
        = (acquire_response sid' (map (go_queue_message_json gl) qs), s1\<lparr>ga_client := (ga_client s)\<lparr>goc_mock_store := Some (st1\<lparr>gos_messages := ms'\<rparr>)\<rparr>\<rparr>)"
        by (simp add: go_handle_queue_acquire_def go remember_client sess(3))
      thus ?thesis using acquired_agree[OF sess(7), of ms'] l sess(1,5,6) by (simp add: mock)
    qed
    show ?thesis
    proof (cases "sid = []")
      case True
      note ns = new_session[where topic = topic and grp = grp and maximum = maximum, OF ag st(1) n refl refl refl refl refl]
      show ?thesis unfolding True by (rule fin[unfolded True, OF ns(1,2,3) _ _ _ ns(4)]) simp_all
    next
      case sid: False
      from kept_session[OF ag st(1) sid, of topic grp maximum] obtain r where r: "acquire_session topic grp maximum sid a = (r, a)"
        "go_acquire_session topic grp maximum ?eff sid st = (map_err (error_with_message KindInvalidArgument) r, st)"
        "\<forall>x. r = Ok x \<longrightarrow> x = sid \<and> remember_queue_session sid s = (sid, s)" by blast
      have same: "s\<lparr>ga_client := (ga_client s)\<lparr>goc_mock_store := Some st\<rparr>\<rparr> = s" using st(1) by simp
      show ?thesis
      proof (cases r)
        case (Inl e)
        hence "acquire_queue_messages topic grp maximum sid st = (Err (error_with_message KindInvalidArgument e), st)"
          using r(2) by (simp add: acquire_queue_messages_def effective_max Let_def)
        hence "go_handle_queue_acquire gl rpc topic grp maximum lock sid s = (go_error_response (error_with_message KindInvalidArgument e), s)"
          by (simp add: go_handle_queue_acquire_def go same)
        moreover have "e \<noteq> []" using r(1) Inl sid by (auto simp: acquire_session_def Let_def split: option.splits if_splits)
        ultimately show ?thesis using r(1) Inl up by (simp add: mock errs)
      next
        case (Inr x)
        hence x: "x = sid" "remember_queue_session sid s = (sid, s)" using r(3) by auto
        show ?thesis using r(1,2) Inr x sid up by (intro fin[of sid a st s]) (simp_all add: same)
      qed
    qed
  qed
qed

lemma go_acknowledge_step:
  assumes ag: "go_agree al gl n a s"
  shows "\<exists>r a' s'. mock_queue_acknowledge sid es a = (r, a') \<and> go_handle gl rpc (CmdQueueAcknowledge sid es) s = (r, s') \<and> go_agree al gl n a' s'"
proof -
  obtain st where st: "goc_mock_store (ga_client s) = Some st" "ma_contract_minor a = CONTRACT_MINOR_QUEUE_RPC"
    and m: "ma_messages a = map (ref_message al) (gos_messages st)" "frames_ok al gl (map frame_of (gos_messages st))" "counts_ok n (gos_messages st)"
    and se: "ma_queue_sessions a = map (\<lambda>(sid, x). (sid, ref_session x)) (gos_queue_sessions st)"
    using ag by (auto simp: go_agree_def)
  note errs = go_error_response_def go_sdk_error_def error_with_message_def invalid_argument_def adapter_with_message_def nonempty_def
  have types: "validate_queue_ack_types (to_queue_ack_entries es) = Ok ()" for es
    by (induction es) (auto simp: to_queue_ack_entries_def ack_name_def split: wire_ack_type.splits)
  have same: "s\<lparr>ga_client := (ga_client s)\<lparr>goc_mock_store := Some st\<rparr>\<rparr> = s" using st(1) by simp
  show ?thesis
  proof (cases "sid = []")
    case True
    thus ?thesis using st ag
      by (auto simp: mock_queue_acknowledge_def go_handle_def go_acknowledge_def actual_is_public[OF ag] validate_queue_session_id_def queue_batch_response_def errs)
  next
    case False
    have go: "go_acknowledge rpc (actual_queue_session_id sid s) (to_queue_ack_entries es) (ga_client s)
      = (case acknowledge_queue_messages sid (to_queue_ack_entries es) st of (r, st) \<Rightarrow> (r, (ga_client s)\<lparr>goc_mock_store := Some st\<rparr>))"
      using False st types by (simp add: go_acknowledge_def actual_is_public[OF ag] validate_queue_session_id_def)
    show ?thesis
    proof (cases "hm_get (gos_queue_sessions st) sid")
      case None
      thus ?thesis using False st ag
        by (auto simp: mock_queue_acknowledge_def go_handle_def go acknowledge_queue_messages_def se hm_get_map queue_batch_response_def errs same)
    next
      case (Some x)
      obtain rs ms' where r: "acknowledge_each (gse_group x) sid (to_queue_ack_entries es) (gos_messages st) = (rs, ms')"
        "ack_results (gse_group x) sid es (map (ref_message al) (gos_messages st)) = (map encode_queue_result rs, map (ref_message al) ms')"
        "map frame_of ms' = map frame_of (gos_messages st)" "counts_ok n ms'"
        using ack_ref[OF False m(2,3), of "gse_group x" es] by blast
      have "go_agree al gl n (a\<lparr>ma_messages := map (ref_message al) ms'\<rparr>) (s\<lparr>ga_client := (ga_client s)\<lparr>goc_mock_store := Some (st\<lparr>gos_messages := ms'\<rparr>)\<rparr>\<rparr>)"
        using ag st(1) m(2) r(3,4) by (auto simp: go_agree_def)
      thus ?thesis using False st Some r
        by (simp add: mock_queue_acknowledge_def go_handle_def go acknowledge_queue_messages_def se hm_get_map queue_batch_response_def ref_session_def m(1))
    qed
  qed
qed

lemma go_renew_step:
  assumes ag: "go_agree al gl n a s"
  shows "\<exists>r. mock_queue_renew sid es a = (r, a) \<and> go_handle gl rpc (CmdQueueRenew sid es) s = (r, s)"
proof -
  obtain st where st: "goc_mock_store (ga_client s) = Some st" "ma_contract_minor a = CONTRACT_MINOR_QUEUE_RPC"
    and m: "ma_messages a = map (ref_message al) (gos_messages st)" "frames_ok al gl (map frame_of (gos_messages st))"
    and se: "ma_queue_sessions a = map (\<lambda>(sid, x). (sid, ref_session x)) (gos_queue_sessions st)"
    using ag by (auto simp: go_agree_def)
  note errs = go_error_response_def go_sdk_error_def error_with_message_def invalid_argument_def adapter_with_message_def nonempty_def
  show ?thesis
  proof (cases "sid = []")
    case True
    thus ?thesis using st
      by (simp add: mock_queue_renew_def go_handle_def go_renew_def actual_is_public[OF ag] validate_queue_session_id_def queue_batch_response_def errs)
  next
    case False
    thus ?thesis using st renew_ref[OF False m(2)]
      by (simp add: mock_queue_renew_def go_handle_def go_renew_def actual_is_public[OF ag] validate_queue_session_id_def queue_batch_response_def errs
          renew_queue_messages_def se hm_get_map m(1) ref_session_def comp_def split: option.splits)
  qed
qed

lemma go_step:
  assumes ag: "go_agree al gl n a s" and b: "go_base64 al gl" and n: "n < 2 ^ 31 - 1" and p: "go_portable al gl cmd"
  shows "\<exists>r a' s'. mock_handle al cmd a = (r, a') \<and> go_handle gl rpc cmd s = (r, s') \<and> go_agree al gl (Suc n) a' s'"
proof -
  have up: "go_agree al gl n a' s' \<Longrightarrow> go_agree al gl (Suc n) a' s'" for a' and s' :: "'a go_adapter" by (erule go_agree_mono) simp
  show ?thesis
  proof (cases cmd)
    case (CmdPublish topic v hs)
    thus ?thesis using go_publish_step[OF ag b, of v hs topic rpc] p up by (auto simp: mock_handle_def go_handle_def)
  next
    case (CmdPublishEvent topic e)
    thus ?thesis using go_event_step[OF ag b, of e topic rpc] p up by (auto simp: mock_handle_def go_handle_def)
  next
    case (CmdSubscribe topics grp filt)
    thus ?thesis using go_subscribe_step[OF ag, of topics filt rpc grp] p up by (auto simp: mock_handle_def go_handle_def)
  next
    case (CmdNextMessage ms)
    thus ?thesis using go_next_step[OF ag b, of rpc ms] up by (auto simp: mock_handle_def go_handle_def)
  next
    case (CmdQueueAcquire topic grp maximum lock sid)
    thus ?thesis using go_acquire_step[OF ag b n, of topic grp lock maximum sid rpc] p by (simp add: mock_handle_def go_handle_def)
  next
    case (CmdQueueAcknowledge sid es)
    thus ?thesis using go_acknowledge_step[OF ag, of sid es rpc] up by (auto simp: mock_handle_def)
  next
    case (CmdQueueRenew sid es)
    thus ?thesis using go_renew_step[OF ag, of sid es rpc] up[OF ag] by (auto simp: mock_handle_def)
  qed (use p up[OF ag] in \<open>auto simp: mock_handle_def go_handle_def go_unit_response_def go_connect_def go_sign_in_def go_blob_put_def go_blob_get_def
        go_error_response_def go_sdk_error_def gated_error_def error_with_message_def adapter_unimplemented_def adapter_with_message_def nonempty_def\<close>)
qed

lemma go_run_agrees:
  assumes "go_agree al gl n a s" "n + length cmds < 2 ^ 31" "go_base64 al gl" "list_all (go_portable al gl) cmds"
  shows "transcript (mock_handle al) cmds a = transcript (go_handle gl rpc) cmds s"
  using assms
proof (induction cmds arbitrary: n a s)
  case (Cons c cs)
  have "n < 2 ^ 31 - 1" "go_portable al gl c" using Cons.prems(2,4) by simp_all
  then obtain r a' s' where "mock_handle al c a = (r, a')" "go_handle gl rpc c s = (r, s')" "go_agree al gl (Suc n) a' s'"
    using go_step[OF Cons.prems(1,3)] by metis
  thus ?case using Cons.IH[of "Suc n" a' s'] Cons.prems by simp
qed simp

lemma go_agreement:
  assumes "go_base64 al gl" and e: "starts_with ''mock://'' endpoint" and "list_all (go_portable al gl) cmds" "length cmds < 2 ^ 31"
  shows "tl (transcript (go_handle gl rpc) (CmdHello # CmdConfigure endpoint None # cmds) (go_adapter_start w))
    = tl (transcript (mock_handle al) (CmdHello # CmdConfigure endpoint None # cmds) (with_contract_minor CONTRACT_MINOR_QUEUE_RPC NoFault))"
proof -
  let ?a = "(with_contract_minor CONTRACT_MINOR_QUEUE_RPC NoFault)\<lparr>ma_endpoint := endpoint, ma_bearer := None\<rparr>"
  let ?s = "(go_adapter_start w)\<lparr>ga_client := go_new endpoint None w\<rparr>"
  have u: "\<not> starts_with ''unreachable://'' endpoint" using e by (cases endpoint) (auto simp: starts_with_def)
  have "go_agree al gl 0 ?a ?s"
    using u e by (simp add: go_agree_def with_contract_minor_def mock_adapter_default_def go_adapter_start_def go_new_def new_mock_store_def
        same_subscription_def frames_ok_def)
  hence "transcript (mock_handle al) cmds ?a = transcript (go_handle gl rpc) cmds ?s"
    using assms by (intro go_run_agrees[of al gl 0]) simp_all
  moreover have "go_handle gl rpc (CmdConfigure endpoint None) (go_adapter_start w) = (configured_response False, ?s)"
    by (simp add: go_handle_def go_handle_configure_def close_subscription_def go_adapter_start_def go_new_def Let_def)
  moreover have "mock_handle al (CmdConfigure endpoint None) (with_contract_minor CONTRACT_MINOR_QUEUE_RPC NoFault) = (configured_response False, ?a)"
    by (simp add: mock_handle_def mock_configure_def with_contract_minor_def Let_def)
  ultimately show ?thesis by (simp add: mock_handle_def[of al CmdHello] go_handle_def[of gl rpc CmdHello])
qed

text \<open>
  C12: The adapter of the Go SDK implements the reference adapter: configured for an in-memory endpoint, the two give the
  same responses to every sequence of portable commands, with records published at any time, sessions of any name and all
  error branches. Portable leaves out what the two treat differently: empty values, headers and event attributes, blank
  event ids, subscriptions without topics, acquisitions with neither topic nor group or with lock duration 0, filters on
  null and on numbers, the single acknowledgement of the first contract, malformed Base64, values on which the two JSON
  parsers disagree, and reconfiguring.
\<close>

theorem go_adapter_agrees:
  assumes "go_base64 al gl" "starts_with ''mock://'' endpoint" "list_all (go_portable al gl) cmds" "length cmds < 2 ^ 31"
  shows "tl (transcript (go_handle gl rpc) (CmdHello # CmdConfigure endpoint None # cmds) (go_adapter_start w))
    = tl (transcript (mock_handle al) (CmdHello # CmdConfigure endpoint None # cmds) (with_contract_minor CONTRACT_MINOR_QUEUE_RPC NoFault))"
  using assms by (rule go_agreement)

section \<open>Where the SDKs differ\<close>

text \<open>
  Copying a record into the store appends its bytes to a nil slice, so a header with an empty value comes back without a
  value, while the reference adapter returns the empty value.
\<close>

theorem go_empty_header_lost:
  assumes "go_base64 al gl" "starts_with ''mock://'' endpoint" "topic \<noteq> []" "topic \<noteq> ''__missing_topic''"
    and cmds: "cmds = [CmdHello, CmdConfigure endpoint None, CmdPublish topic (al_encode al v) [\<lparr>wh_name = h, wh_value_b64 = Some (al_encode al [])\<rparr>],
                 CmdSubscribe [topic] grp None, CmdNextMessage ms]"
  shows "last (transcript (mock_handle al) cmds (with_contract_minor CONTRACT_MINOR_QUEUE_RPC NoFault))
      = RespMessage \<lparr>wm_topic = topic, wm_partition = 0, wm_offset = 0, wm_value_b64 = al_encode al v,
          wm_headers = [\<lparr>wh_name = h, wh_value_b64 = Some (al_encode al [])\<rparr>]\<rparr>"
    and "last (transcript (go_handle gl rpc) cmds (go_adapter_start w))
      = RespMessage \<lparr>wm_topic = topic, wm_partition = 0, wm_offset = 0, wm_value_b64 = al_encode al v,
          wm_headers = [\<lparr>wh_name = h, wh_value_b64 = None\<rparr>]\<rparr>"
proof -
  have u: "\<not> starts_with ''unreachable://'' endpoint" using assms(2) by (cases endpoint) (auto simp: starts_with_def)
  thus "last (transcript (mock_handle al) cmds (with_contract_minor CONTRACT_MINOR_QUEUE_RPC NoFault))
      = RespMessage \<lparr>wm_topic = topic, wm_partition = 0, wm_offset = 0, wm_value_b64 = al_encode al v,
          wm_headers = [\<lparr>wh_name = h, wh_value_b64 = Some (al_encode al [])\<rparr>]\<rparr>"
    using assms(3,4) unfolding cmds
    by (simp add: mock_handle_def mock_configure_def with_contract_minor_def mock_adapter_default_def mock_publish_def mock_subscribe_def
        mock_next_message_def mock_filter_matches_def stored_to_wire_def Let_def)
  have "slice_bytes (append_to_nil (append_to_nil (Some v))) = v" by (cases v) (simp_all add: append_to_nil_def slice_bytes_def)
  moreover have "append_to_nil (append_to_nil (Some [])) = None" by (simp add: append_to_nil_def slice_bytes_def)
  ultimately show "last (transcript (go_handle gl rpc) cmds (go_adapter_start w))
      = RespMessage \<lparr>wm_topic = topic, wm_partition = 0, wm_offset = 0, wm_value_b64 = al_encode al v,
          wm_headers = [\<lparr>wh_name = h, wh_value_b64 = None\<rparr>]\<rparr>"
    using assms u unfolding cmds
    by (simp add: go_base64_def go_handle_def go_handle_configure_def close_subscription_def go_adapter_start_def go_new_def new_mock_store_def
        go_handle_publish_def go_publish_def validate_record_def store_publish_def clone_record_def clone_headers_def go_decode_headers_def
        go_handle_subscribe_def go_subscribe_def to_sdk_filter_def to_proto_filter_def replace_subscription_def store_subscribe_def
        go_handle_next_message_def go_next_def mock_next_def go_mock_filter_matches_def go_encode_headers_def Let_def)
qed

text \<open>A filter on null accepts records without the field in Go; the reference adapter and the Rust SDK do not.\<close>

theorem go_null_filter_matches_absent:
  assumes "gl_unmarshal gl v = Some (JObject [])" "al_decode al (sm_value_b64 m) = Ok v" "al_from_slice al v = Some (JObject [])"
    "sl_from_slice lib v = Some (JObject [])"
  shows "go_mock_filter_matches gl (to_sdk_filter (Some \<lparr>wf_path = ''$.x'', wf_op = EqualsOp, wf_value = JNull\<rparr>)) (Some v)"
    and "\<not> mock_filter_matches al (Some \<lparr>wf_path = ''$.x'', wf_op = EqualsOp, wf_value = JNull\<rparr>) m"
    and "\<not> sdk_filter_matches lib (Some \<lparr>sf_path = ''$.x'', sf_value = JNull\<rparr>) v"
  using assms
  by (simp_all add: go_mock_filter_matches_def to_sdk_filter_def mock_filter_matches_def filter_field_def sdk_filter_matches_def strip_dollar_def
      starts_with_def slice_bytes_def same_any_def)

text \<open>The kind of error that the adapter of the Rust SDK reports.\<close>

definition krabka_kind :: "krabka_error \<Rightarrow> error_kind" where
  "krabka_kind e = (case error_response e of RespError x \<Rightarrow> wx_kind x | _ \<Rightarrow> KindServerError)"

text \<open>
  For an error of one queue entry the Go and the Rust SDK report the same kind unless its code is 7, 11, 12 or 14 and it is
  not retriable; for an error of a published record, unless the code is 9, 11, 12 or 16.
\<close>

theorem error_kinds_agree:
  "map_gateway_error_kind (ei_code e) (ei_retriable e) = krabka_kind (error_info_to_krabka e)
     \<longleftrightarrow> ei_retriable e \<or> ei_code e \<notin> {7, 11, 12, 14}"
  "rr_error r = Some e \<Longrightarrow> record_result_from_pb r = Err x \<Longrightarrow>
     goe_kind (map_record_error (ei_code e) (ei_message e)) = krabka_kind x \<longleftrightarrow> ei_code e \<notin> {9, 11, 12, 16}"
  by (auto simp: map_gateway_error_kind_def krabka_kind_def error_response_def error_info_to_krabka_def map_record_error_def
      error_with_message_def record_result_from_pb_def from_connect_code_def adapter_with_message_def)

text \<open>Except for numbers, the Go SDK sends the gateway the same filter text as the Rust SDK, or refuses it with the same message.\<close>

theorem go_filter_text:
  assumes "\<forall>n. v \<noteq> JNumber n"
  shows "to_proto_filter gl (Some \<lparr>gof_path = path, gof_op = equals_op, gof_value = go_of_json v\<rparr>)
    = map_err (\<lambda>e. error_with_message KindInvalidArgument (case e of InvalidArg m \<Rightarrow> m | _ \<Rightarrow> []))
        (to_gateway_filter lib \<lparr>sf_path = path, sf_value = v\<rparr>)"
proof -
  have seg: "valid_filter_segment = go_valid_filter_segment" by (rule ext) (simp add: go_valid_filter_segment_eq identifier_segment_def valid_filter_segment_def)
  have empty: "\<not> identifier_segment []" by (simp add: identifier_segment_def)
  show ?thesis using assms empty
    by (cases v) (auto simp: to_proto_filter_def to_gateway_filter_def strip_dollar_def seg go_valid_filter_segment_eq gateway_filter_literal_def
        escape_filter_string_def Let_def)
qed

section \<open>Witness\<close>

definition sample_go_lib :: go_lib where
  "sample_go_lib = \<lparr>gl_encode = of_bytes, gl_decode = \<lambda>t. Ok (as_bytes t), gl_unmarshal = \<lambda>_. None, gl_format_g = \<lambda>_. ''0'', gl_late = \<lambda>_ _. True\<rparr>"

definition sample_go_rpc :: "unit go_rpc" where
  "sample_go_rpc =
     \<lparr>gr_send = \<lambda>_ _ _ w. (Ok [], w), gr_subscribe = \<lambda>_ _ w. (Ok [], w), gr_stream_send = \<lambda>_ w. (None, w), gr_cancel = \<lambda>w. w,
      gr_close_request = \<lambda>w. (None, w), gr_close_response = \<lambda>w. (None, w), gr_acquire = \<lambda>_ _ w. (Ok ([], []), w),
      gr_acknowledge = \<lambda>_ _ _ w. (Ok [], w), gr_renew = \<lambda>_ _ _ w. (Ok [], w)\<rparr>"

definition sample_go_commands :: "command list" where
  "sample_go_commands =
     [CmdSubscribe [''t''] ''g'' None, CmdPublish ''t'' ''x'' [], CmdQueueAcquire ''t'' ''g'' 1 30000 [],
      CmdQueueAcknowledge (session_name 1) [\<lparr>wa_message_id = coordinate_id (''t'', 0, 0), wa_ack_type = WireAccept\<rparr>],
      CmdQueueAcquire ''t'' ''h'' 2 30000 ''other'', CmdNextMessage 0, CmdNextMessage 0]"

theorem go_adapter_agrees_witness:
  "last (transcript (go_handle sample_go_lib sample_go_rpc) (CmdHello # CmdConfigure ''mock://gateway'' None # sample_go_commands) (go_adapter_start ()))
   = last (transcript (mock_handle sample_adapter_lib) (CmdHello # CmdConfigure ''mock://gateway'' None # sample_go_commands)
        (with_contract_minor CONTRACT_MINOR_QUEUE_RPC NoFault))"
proof -
  have "tl (transcript (go_handle sample_go_lib sample_go_rpc) (CmdHello # CmdConfigure ''mock://gateway'' None # sample_go_commands) (go_adapter_start ()))
    = tl (transcript (mock_handle sample_adapter_lib) (CmdHello # CmdConfigure ''mock://gateway'' None # sample_go_commands)
        (with_contract_minor CONTRACT_MINOR_QUEUE_RPC NoFault))"
  proof (rule go_adapter_agrees)
    show "go_base64 sample_adapter_lib sample_go_lib"
      using sample_base64 by (simp add: go_base64_def sample_go_lib_def sample_adapter_lib_def)
    show "starts_with ''mock://'' ''mock://gateway''" by (simp add: starts_with_def)
    show "list_all (go_portable sample_adapter_lib sample_go_lib) sample_go_commands"
      by (simp add: sample_go_commands_def portable_value_def portable_filter_def sample_go_lib_def sample_adapter_lib_def)
    show "length sample_go_commands < 2 ^ 31" by (simp add: sample_go_commands_def)
  qed
  moreover have "last xs = last (tl xs)" if "1 < length xs" for xs :: "response list" using that by (cases xs) auto
  moreover have "1 < length (CmdHello # CmdConfigure ''mock://gateway'' None # sample_go_commands)" by simp
  ultimately show ?thesis by (metis length_transcript)
qed

end
