(* ===== verification/Spec2Isabelle.thy ===== *)
theory Spec2Isabelle
  imports Gw_Wire Gw_Delivery Gw_Schema Gw_Replay Gw_Send Gw_Queue Gw_FilterLaws Gw_Webhook Gw_Outbound Gw_Sdk Gw_Lifecycle
    Gw_Conformance Gw_GoConformance
begin

text \<open>
  Verification of the krabka gateway: a Rust service that lets HTTP, gRPC and
  Connect clients write to and read from Kafka-compatible topics, the Rust SDK
  applications use to talk to it, and the conformance suite that holds the SDKs
  to one contract, with its Go SDK. File names below are relative to \<^verbatim>\<open>src/crates/gateway/src\<close>, to
  \<^verbatim>\<open>src/crates/app-sdk/src\<close> for the SDK, or to \<^verbatim>\<open>src/crates/sdk-conformance/src\<close> for
  the suite.

  \<^bold>\<open>The program.\<close> A record enters through the \<open>Send\<close> handlers, an inbound
  webhook or the forwarding endpoint of a replica. Its caller is identified at
  the listener, authorized per topic, and the record is encoded by the schema
  registry codec. A record with an idempotency key belongs to one dedup
  partition and is produced by the replica that owns that partition, inside a
  transaction that also writes its claim; the other replicas find the owner in
  the routing table they build from the membership topic and forward to it.
  Records leave through subscriptions with explicit acknowledgements and SQL
  filters, through work queues on share groups, and through outbound webhooks.
  The process brings these parts up in order, reports readiness once its dedup
  claims are replayed, and drains its connections when it stops.

  \<^bold>\<open>Conventions.\<close> Bytes are 8-bit words, Rust strings their UTF-8 bytes as
  characters, machine integers unbounded integers with the range checks and
  saturations of the code written out, or words where the code shifts bits.
  Durations are exact rationals in seconds. \<open>Result\<close> is a sum type, written
  \<open>Err\<close> and \<open>Ok\<close>; a panic is \<open>None\<close>. Hash maps are association lists without
  duplicate keys. Metrics are events in the state. Code outside the repository
  (Kafka clients, the registry's HTTP replies, JSON, Avro, Protobuf, Arrow and
  DataFusion, HMAC, hyper, clap) is a parameter record of the definitions that
  call it, acting on an abstract world where it has effects; what a theorem
  needs of it is a named hypothesis.

  \<^bold>\<open>Theories.\<close>
  \<^item> \<open>Gw_Prelude\<close>: integers, results, association lists, ordered sets, decimal
    text, and the locales of invariant machines, monotone machines and keyed
    stores. \<open>Gw_Text\<close> and \<open>Gw_Utf8\<close> model what the code uses of Rust's string and
    number parsing, of IEEE rounding and of UTF-8.
  \<^item> \<open>Gw_Types\<close> (\<open>codec.rs\<close>, \<open>types.rs\<close>, \<open>error.rs\<close>): records, errors and the codec
    interface, a locale interpreted by the identity codec.
  \<^item> \<open>Gw_Wire\<close> (\<open>schema/wire.rs\<close>) and \<open>Gw_Schema\<close> (\<open>schema/client.rs\<close>,
    \<open>schema/codec.rs\<close>, \<open>schema/format\<close>): frames round-trip, the bounded cache of
    compiled schemas is transparent, and a value encoded through the registry
    decodes from the caches alone.
  \<^item> \<open>Gw_Proto\<close> (\<open>gateway.proto\<close> and conversions of \<open>handlers.rs\<close>, \<open>streaming.rs\<close>) and
    \<open>Gw_Authz\<close> (\<open>authz\<close>): messages, principals, ACL snapshots and decisions.
  \<^item> \<open>Gw_Consume\<close> (\<open>consume.rs\<close>), \<open>Gw_Streaming\<close> (\<open>streaming.rs\<close>) and \<open>Gw_Delivery\<close>:
    the acknowledgement tracker refines the history of deliveries and
    acknowledgements, batch filtering agrees with filtering each record, and a
    subscription is at-least-once over all its runs as long as its partitions
    stay assigned; the case in which they do not is proved to lose a record.
  \<^item> \<open>Gw_Kafka\<close>, \<open>Gw_Membership\<close> (\<open>dedup/membership.rs\<close>), \<open>Gw_Dedup\<close> (\<open>dedup/store.rs\<close>,
    \<open>dedup/mod.rs\<close>), \<open>Gw_ExactlyOnce\<close> and \<open>Gw_Replay\<close>: the routing table names the
    latest live claimant, each idempotency key is committed at most once over
    all runs with failures and restarts, replay rebuilds the claim table, and
    the warm gate opens exactly when it is complete.
  \<^item> \<open>Gw_Produce\<close> (\<open>produce.rs\<close>, \<open>forward.rs\<close>, \<open>handlers.rs\<close>) and \<open>Gw_Send\<close>: the
    delivery window of \<open>Send\<close> is invisible, a forwarded record is answered as
    its owner answers it, and a denied record reaches no producer.
  \<^item> \<open>Gw_Queue\<close> (\<open>queue.rs\<close>): work queue sessions under every interleaving of calls
    track what their clients can compute, within the limits of the table.
  \<^item> \<open>Gw_Filter\<close> and \<open>Gw_FilterLaws\<close> (\<open>filter.rs\<close>): the filter language parses what
    it prints, and evaluation on JSON is exact.
  \<^item> \<open>Gw_CloudEvents\<close> (\<open>ce_translate.rs\<close>), \<open>Gw_WebhookConfig\<close> (\<open>webhook_config.rs\<close>,
    \<open>config_value.rs\<close>) and \<open>Gw_Webhook\<close> (\<open>webhook.rs\<close>, \<open>standard_webhooks.rs\<close>):
    CloudEvents convert in both directions, every compiled endpoint is sound,
    and a webhook that takes effect was authentic and authorized.
  \<^item> \<open>Gw_Outbound\<close> (\<open>outbound_config.rs\<close>, \<open>outbound.rs\<close>): delivery in offset order,
    retries within their bounds, termination of a batch, commits that cover
    finished batches only, and targets on the allow-list only.
  \<^item> \<open>Gw_Startup\<close> (\<open>config.rs\<close>, \<open>dedup/topic.rs\<close>, \<open>bin/gateway.rs\<close>) and \<open>Gw_Lifecycle\<close>
    (\<open>bin/gateway.rs\<close>, \<open>health.rs\<close>, \<open>serve.rs\<close>): the configuration a started
    gateway has passed its checks, internal topics are created in at most two
    requests, identities come from tokens or certificates only, and a replica
    that has stopped its watcher stays out of rotation.
  \<^item> \<open>Gw_SdkConnect\<close> (\<open>connect_client.rs\<close>, \<open>error.rs\<close>) and \<open>Gw_Sdk\<close> (\<open>client.rs\<close>,
    \<open>messaging.rs\<close>, \<open>stubs.rs\<close>): chunk boundaries of a stream are invisible, what
    the SDK publishes is answered with the gateway's outcome, its filters mean
    the same to the gateway, and the in-memory backend never gives a message
    to two holders of a group.
  \<^item> \<open>Gw_Protocol\<close> (\<open>protocol.rs\<close>), \<open>Gw_MockAdapter\<close> (\<open>mock_adapter.rs\<close>), \<open>Gw_Harness\<close>
    (\<open>vectors.rs\<close>, \<open>harness.rs\<close>, \<open>bin/conformance.rs\<close>) and \<open>Gw_SdkAdapter\<close>
    (\<open>bin/conformance_adapter.rs\<close> of the SDK): the commands of the suite, the
    reference adapter, the harness with its selection of vectors and its live
    substrate, and the adapter of the Rust SDK. The verdict of a run is exact,
    and every vector is accounted for except those of a contract that ended.
    \<open>Gw_Conformance\<close> proves by simulation that the Rust SDK answers every portable
    sequence of commands as the reference adapter does, and that it reads the
    vectors emitted for the C++ codec as their names say.
  \<^item> \<open>Gw_GoSdk\<close> and \<open>Gw_GoAdapter\<close> (\<^verbatim>\<open>src/sdks/go\<close>): the Go SDK with its in-memory store
    and its live calls, and its conformance adapter. \<open>Gw_GoConformance\<close> proves that
    it, too, answers every portable sequence of commands as the reference adapter
    does, that it sends the filter text of the Rust SDK, and where the SDKs differ:
    empty headers, filters on null and the kinds of some errors.
  \<^item> This theory holds what spans the SDK and the gateway: retrying a keyed
    publish returns the record of the first attempt, and an event published
    with the SDK leaves an outbound webhook as that event.

  \<^bold>\<open>Concurrency.\<close> Where the order of events matters, the code between two
  suspension points is one step and the theorems range over all sequences of
  steps: subscriptions, queue calls, outbound partitions, keyed produce calls
  with crashes, membership updates, and the tasks that share the readiness
  flag. A lock held across a suspension point keeps its steps together.

  \<^bold>\<open>Bounds.\<close> No definition uses fuel. Recursion that is not structural has a
  termination proof: the retry loop by the attempts left, the fallback of topic
  creation by the replication factor, the envelope reader by the bytes left, the
  parsers by the text left. Loops that only end with the process run over the
  finite list of the events they received, so their theorems hold of every
  finite run.

  \<^bold>\<open>Not modelled.\<close> The route tables and handle structs (\<open>lib.rs\<close>, \<open>state.rs\<close>) hold no
  logic. The registration and text rendering of \<open>metrics.rs\<close> are the Prometheus
  library's; its recorders are events here. Opening clients, sockets, timers
  and signal handlers is the runtime's. The JSON text of the conformance protocol
  is serde's. The example program and the build scripts only move data between
  libraries. The TypeScript, Java and C++ SDKs repeat the contract of the Rust and
  Go ones.
\<close>


section \<open>Retrying a keyed publish\<close>

lemma send_state:
  assumes st: "stable_deliveries ex ans" and k: "producer_acks_from_pb acks = Some k"
  shows "same_core (snd (send ex a caller peer acks records g)) (snd (direct_all ex a
     (case caller of None \<Rightarrow> anonymous_principal | Some p \<Rightarrow> p) (case peer of None \<Rightarrow> unknown_host | Some h \<Rightarrow> h) k records g))"
proof -
  let ?p = "case caller of None \<Rightarrow> anonymous_principal | Some p \<Rightarrow> p"
  let ?h = "case peer of None \<Rightarrow> unknown_host | Some h \<Rightarrow> h"
  let ?g = "g\<lparr>co_replica := emit IncInflight (co_replica g)\<rparr>"
  let ?w = "\<lparr>sw_pending = [], sw_results = []\<rparr>"
  obtain win g1 where f: "fold (\<lambda>r. send_one ex a ?p ?h k (to_gateway_record r)) records (?w, ?g) = (win, g1)" by fastforce
  obtain win2 s where d: "window_drain ex (win, co_replica g1) = (win2, s)" by fastforce
  have "same_core g1 (snd (direct_all ex a ?p ?h k records g))"
    using send_all_spec[OF st _ _ f, of g] by (simp add: SEND_WINDOW_CAPACITY_def same_core_def)
  moreover have "same s (co_replica g1)" using window_drain_spec[OF st d] by simp
  ultimately show ?thesis using k f d by (auto simp: send_def Let_def same_core_def intro: same_trans)
qed

text \<open>The replica serves the key itself: deduplication is on, it owns the key's partition and is warm.\<close>

definition serves_key :: "string \<Rightarrow> 'w produce_core \<Rightarrow> bool" where
  "serves_key key g \<longleftrightarrow> co_dedup g \<and> is_warm (rp_store (co_replica g))
     \<and> owns (rp_store (co_replica g)) (partition_for key (ds_partitions (rp_store (co_replica g))))"

definition claimed :: "string \<Rightarrow> int \<Rightarrow> int \<Rightarrow> 'w produce_core \<Rightarrow> bool" where
  "claimed key p offset g \<longleftrightarrow> (\<exists>t. store_get (rp_store (co_replica g)) key = Some \<lparr>cv_topic = t, cv_partition = p, cv_offset = offset\<rparr>)"

lemma same_core_serves: "same_core g h \<Longrightarrow> serves_key key g = serves_key key h"
  by (auto simp: same_core_def same_def serves_key_def)

lemma same_core_claimed: "same_core g h \<Longrightarrow> claimed key p n g = claimed key p n h"
  by (auto simp: same_core_def same_def claimed_def)

lemma dedup_produce_claims:
  assumes "dedup_produce sd kf rec v s = (Ok out, s')" "gr_idempotency_key rec = Some key"
    and "is_warm (rp_store s)" "owns (rp_store s) (partition_for key (ds_partitions (rp_store s)))"
  shows "\<exists>t. store_get (rp_store s') key = Some \<lparr>cv_topic = t, cv_partition = out_partition out, cv_offset = out_offset out\<rparr>"
    and "is_warm (rp_store s') \<and> owns (rp_store s') (partition_for key (ds_partitions (rp_store s')))"
proof -
  let ?p = "partition_for key (ds_partitions (rp_store s))"
  have "(\<exists>t. store_get (rp_store s') key = Some \<lparr>cv_topic = t, cv_partition = out_partition out, cv_offset = out_offset out\<rparr>)
     \<and> is_warm (rp_store s') \<and> owns (rp_store s') (partition_for key (ds_partitions (rp_store s')))"
  proof (cases "store_get (rp_store s) key")
    case (Some c)
    hence "out = hit c" "s' = emit RecordDedupHit s"
      using assms by (auto simp: dedup_produce_def dedup_check_def Let_def)
    thus ?thesis using Some assms(3,4) by (cases c) (auto simp: hit_def)
  next
    case None
    hence "txn_write sd kf rec v key ?p s = (Ok out, s')"
      using assms by (auto simp: dedup_produce_def dedup_locked_def dedup_check_def Let_def split: prod.splits sum.splits)
    moreover have "rp_store s1 = rp_store s" if "ensure_producer kf ?p s = (r, s1)" for r s1
      using that by (auto simp: ensure_producer_def init_producer_def split: if_splits prod.splits sum.splits)
    ultimately show ?thesis using assms(3,4)
      by (auto simp: txn_write_def send_both_def Let_def store_apply_def owns_def split: prod.splits sum.splits)
        (auto simp: store_apply_def store_get_def is_warm_def)
  qed
  thus "\<exists>t. store_get (rp_store s') key = Some \<lparr>cv_topic = t, cv_partition = out_partition out, cv_offset = out_offset out\<rparr>"
    "is_warm (rp_store s') \<and> owns (rp_store s') (partition_for key (ds_partitions (rp_store s')))" by blast+
qed

lemma serves_key_local:
  assumes "serves_key key g" "gr_idempotency_key rec = Some key"
  shows "produce_with_acks ex rec p AcksAll g = produce_local_with_acks ex rec AcksAll g"
  using assms by (auto simp: produce_with_acks_def route_of_def serves_key_def Let_def split: option.splits)

lemma produce_local_claims:
  assumes "produce_local_with_acks ex rec AcksAll g = (Ok out, g')" "serves_key key g" "gr_idempotency_key rec = Some key"
  shows "serves_key key g' \<and> claimed key (out_partition out) (out_offset out) g'"
proof -
  obtain v w where e: "ex_encode ex (gr_topic rec) (encode_body_of rec) (rp_world (co_replica g)) = (Ok v, w)"
    using assms(1) by (auto simp: produce_local_with_acks_def on_replica_def encode_value_def split: prod.splits sum.splits)
  let ?s = "(co_replica g)\<lparr>rp_world := w\<rparr>"
  obtain s' where d: "dedup_produce (ex_serde ex) (ex_kafka ex) rec v ?s = (Ok out, s')" "g' = g\<lparr>co_replica := s'\<rparr>"
    using assms e by (auto simp: produce_local_with_acks_def on_replica_def encode_value_def serves_key_def split: prod.splits)
  from dedup_produce_claims[OF d(1) assms(3)] show ?thesis
    using assms(2) d(2) by (simp add: serves_key_def claimed_def)
qed

lemma produce_local_repeats:
  assumes "serves_key key g" "claimed key p n g" "gr_idempotency_key rec = Some key"
    and "fst (ex_encode ex (gr_topic rec) (encode_body_of rec) (rp_world (co_replica g))) = Ok v"
  shows "fst (produce_local_with_acks ex rec AcksAll g) = Ok \<lparr>out_partition = p, out_offset = n, out_deduplicated = True\<rparr>"
    "rp_world (co_replica (snd (produce_local_with_acks ex rec AcksAll g)))
       = snd (ex_encode ex (gr_topic rec) (encode_body_of rec) (rp_world (co_replica g)))"
  using assms
  by (auto simp: produce_local_with_acks_def on_replica_def encode_value_def serves_key_def claimed_def dedup_produce_def
      dedup_check_def hit_def Let_def split: prod.splits)

lemma direct_one_keyed:
  assumes "serves_key key g" "gr_idempotency_key rec = Some key"
  shows "direct_one ex a p host AcksAll rec g =
    (if authorize_resource a p host Topic (gr_topic rec) Write = Deny then (error_result (denied (gr_topic rec)), g)
     else case produce_local_with_acks ex rec AcksAll g of (r, g) \<Rightarrow> (result_of r, g))"
  using assms by (simp add: direct_one_def serves_key_local)

lemma record_result_Ok:
  "record_result_from_pb (result_of x) = Ok r \<longleftrightarrow>
   (\<exists>out. x = Ok out \<and> r = \<lparr>pu_partition = out_partition out, pu_offset = out_offset out, pu_deduplicated = out_deduplicated out\<rparr>)"
  by (auto simp: record_result_from_pb_def result_of_def error_result_def ok_result_def split: sum.splits)

abbreviation sent_record :: "string \<Rightarrow> bytes \<Rightarrow> publish_options \<Rightarrow> gateway_record" where
  "sent_record topic v options \<equiv>
     \<lparr>gr_topic = topic, gr_key = po_key options, gr_value = v, gr_body_structured = None, gr_headers = po_headers options,
      gr_partition = po_partition options, gr_timestamp_ms = None, gr_idempotency_key = po_idempotency_key options\<rparr>"

lemma publish_state:
  assumes "stable_deliveries ex ans" "rpc_send rpc = served_send code_name ex a caller peer"
    and "\<not> is_mock c" "\<not> is_unreachable c" "topic \<noteq> []"
  shows "same_core (kc_world (snd (publish rpc topic v options c))) (snd (direct_one ex a
     (case caller of None \<Rightarrow> anonymous_principal | Some p \<Rightarrow> p) (case peer of None \<Rightarrow> unknown_host | Some h \<Rightarrow> h) AcksAll
     (sent_record topic v options) (kc_world c)))"
    and "\<not> is_mock (snd (publish rpc topic v options c))" "\<not> is_unreachable (snd (publish rpc topic v options c))"
proof -
  have r: "to_gateway_record (publish_record topic v options) = sent_record topic v options"
    by (simp add: to_gateway_record_def publish_record_def)
  have "kc_world (snd (publish rpc topic v options c)) = snd (send ex a caller peer 0 [publish_record topic v options] (kc_world c))"
    using assms(2-) by (auto simp: publish_def served_send_def split: prod.splits sum.splits list.splits)
  moreover have "same_core (snd (send ex a caller peer 0 [publish_record topic v options] (kc_world c)))
      (snd (direct_all ex a (case caller of None \<Rightarrow> anonymous_principal | Some p \<Rightarrow> p)
         (case peer of None \<Rightarrow> unknown_host | Some h \<Rightarrow> h) AcksAll [publish_record topic v options] (kc_world c)))"
    by (rule send_state[OF assms(1)]) (simp add: producer_acks_from_pb_def)
  ultimately show "same_core (kc_world (snd (publish rpc topic v options c))) (snd (direct_one ex a
     (case caller of None \<Rightarrow> anonymous_principal | Some p \<Rightarrow> p) (case peer of None \<Rightarrow> unknown_host | Some h \<Rightarrow> h) AcksAll
     (sent_record topic v options) (kc_world c)))"
    by (auto simp: r split: prod.splits)
  show "\<not> is_mock (snd (publish rpc topic v options c))" "\<not> is_unreachable (snd (publish rpc topic v options c))"
    using assms(2-) by (auto simp: publish_def is_mock_def is_unreachable_def split: prod.splits)
qed

text \<open>
  C3: Retrying a publish is safe end to end: once the SDK got a result for an idempotency key from the replica that
  serves it, publishing under that key again, whatever the topic, value and headers, returns the partition
  and offset of the first record, marked as deduplicated, and touches nothing but the codec: nothing is produced.
\<close>

theorem sdk_retry_returns_same_record:
  assumes "stable_deliveries ex ans" "rpc_send rpc = served_send code_name ex a caller peer"
    and "\<not> is_mock c" "\<not> is_unreachable c" "topic \<noteq> []" "topic' \<noteq> []"
    and "po_idempotency_key options = Some key" "po_idempotency_key options' = Some key" "serves_key key (kc_world c)"
    and first: "publish rpc topic v options c = (Ok r, c')"
    and "authorize_resource a (case caller of None \<Rightarrow> anonymous_principal | Some p \<Rightarrow> p)
           (case peer of None \<Rightarrow> unknown_host | Some h \<Rightarrow> h) Topic topic' Write \<noteq> Deny"
    and "\<exists>b. fst (ex_encode ex topic' (Raw v') (rp_world (co_replica (kc_world c')))) = Ok b"
  shows "fst (publish rpc topic' v' options' c')
    = Ok \<lparr>pu_partition = pu_partition r, pu_offset = pu_offset r, pu_deduplicated = True\<rparr>
    \<and> rp_world (co_replica (kc_world (snd (publish rpc topic' v' options' c'))))
      = snd (ex_encode ex topic' (Raw v') (rp_world (co_replica (kc_world c'))))"
proof -
  let ?p = "case caller of None \<Rightarrow> anonymous_principal | Some p \<Rightarrow> p"
  let ?h = "case peer of None \<Rightarrow> unknown_host | Some h \<Rightarrow> h"
  let ?rec = "sent_record topic v options" and ?rec' = "sent_record topic' v' options'"
  obtain x g1 where x: "produce_local_with_acks ex ?rec AcksAll (kc_world c) = (x, g1)" by fastforce
  have key: "gr_idempotency_key ?rec = Some key" "gr_idempotency_key ?rec' = Some key" using assms(7,8) by simp_all
  note d1 = direct_one_keyed[OF assms(9) key(1), of ex a ?p ?h]
  have r: "record_result_from_pb (fst (direct_one ex a ?p ?h AcksAll ?rec (kc_world c))) = Ok r"
    using publish_through_gateway_holds[OF assms(1-5), of v options] first by simp
  have allowed: "authorize_resource a ?p ?h Topic topic Write \<noteq> Deny"
    using r by (auto simp: d1 error_result_def record_result_from_pb_def)
  then obtain out where out: "x = Ok out"
    "r = \<lparr>pu_partition = out_partition out, pu_offset = out_offset out, pu_deduplicated = out_deduplicated out\<rparr>"
    using r by (auto simp: d1 x record_result_Ok)
  have g1: "serves_key key g1" "claimed key (out_partition out) (out_offset out) g1"
    using produce_local_claims[OF x[unfolded out(1)] assms(9) key(1)] by simp_all
  have "snd (direct_one ex a ?p ?h AcksAll ?rec (kc_world c)) = g1" using allowed by (simp add: d1 x)
  hence same: "same_core (kc_world c') g1" using publish_state(1)[OF assms(1-5), of v options] first by simp
  have live: "\<not> is_mock c'" "\<not> is_unreachable c'" using publish_state(2,3)[OF assms(1-5), of v options] first by simp_all
  have s2: "serves_key key (kc_world c')" "claimed key (out_partition out) (out_offset out) (kc_world c')"
    using g1 same_core_serves[OF same] same_core_claimed[OF same] by simp_all
  obtain b where b: "fst (ex_encode ex topic' (Raw v') (rp_world (co_replica (kc_world c')))) = Ok b" using assms(12) by blast
  have enc: "fst (ex_encode ex (gr_topic ?rec') (encode_body_of ?rec') (rp_world (co_replica (kc_world c')))) = Ok b"
    using b by (simp add: encode_body_of_def)
  note again = produce_local_repeats[OF s2 key(2) enc]
  note d2 = direct_one_keyed[OF s2(1) key(2), of ex a ?p ?h]
  have res: "fst (direct_one ex a ?p ?h AcksAll ?rec' (kc_world c'))
      = ok_result \<lparr>out_partition = out_partition out, out_offset = out_offset out, out_deduplicated = True\<rparr>"
    "snd (direct_one ex a ?p ?h AcksAll ?rec' (kc_world c')) = snd (produce_local_with_acks ex ?rec' AcksAll (kc_world c'))"
    using again(1) assms(11) by (auto simp: d2 result_of_def split: prod.splits)
  have "rp_world (co_replica (kc_world (snd (publish rpc topic' v' options' c'))))
      = snd (ex_encode ex topic' (Raw v') (rp_world (co_replica (kc_world c'))))"
    using publish_state(1)[OF assms(1,2) live assms(6), of v' options'] again(2)
    by (simp add: res(2) same_core_def same_def encode_body_of_def)
  thus ?thesis using publish_through_gateway_holds[OF assms(1,2) live assms(6), of v' options'] res(1)
    by (simp add: record_result_from_pb_def ok_result_def out(2))
qed

definition keyed_client :: "(producer_record list list \<times> producer_record list) produce_core krabka_client" where
  "keyed_client = sample_client\<lparr>kc_world := sample_core\<lparr>co_dedup := True\<rparr>\<rparr>"

theorem sdk_retry_returns_same_record_witness:
  "\<exists>r c'. publish (sample_rpc allow_all) ''orders'' [1] (default_options\<lparr>po_idempotency_key := Some ''k''\<rparr>) keyed_client = (Ok r, c')
     \<and> pu_offset r = 7 \<and> \<not> pu_deduplicated r
     \<and> fst (publish (sample_rpc allow_all) ''u'' [2] (default_options\<lparr>po_idempotency_key := Some ''k''\<rparr>) c')
       = Ok \<lparr>pu_partition = 3, pu_offset = 7, pu_deduplicated = True\<rparr>"
proof -
  let ?o = "default_options\<lparr>po_idempotency_key := Some ''k''\<rparr>"
  have rpc: "rpc_send (sample_rpc allow_all) = served_send (\<lambda>_. ''internal'') sample_externals allow_all None None"
    by (simp add: sample_rpc_def)
  have live: "\<not> is_mock keyed_client" "\<not> is_unreachable keyed_client"
    by (simp_all add: is_mock_def is_unreachable_def keyed_client_def sample_client_def starts_with_def)
  have serves: "serves_key ''k'' (kc_world keyed_client)"
    by (simp add: serves_key_def keyed_client_def sample_core_def sample_replica_def new_store_def is_warm_def owns_def partition_for_def)
  obtain r c' where p: "publish (sample_rpc allow_all) ''orders'' [1] ?o keyed_client = (r, c')" by fastforce
  have "fst (produce_local_with_acks sample_externals (sent_record ''orders'' [1] ?o) AcksAll (kc_world keyed_client))
      = Ok \<lparr>out_partition = 3, out_offset = 7, out_deduplicated = False\<rparr>"
    by (simp add: produce_local_with_acks_def on_replica_def encode_value_def encode_body_of_def dedup_produce_def dedup_locked_def
        dedup_check_def txn_write_def ensure_producer_def init_producer_def send_both_def keyed_client_def sample_core_def
        sample_replica_def sample_externals_def sample_kafka_def sample_serde_def sample_claim_def new_store_def
        partition_for_def owns_def is_warm_def store_get_def default_options_def)
  hence r: "r = Ok \<lparr>pu_partition = 3, pu_offset = 7, pu_deduplicated = False\<rparr>"
    using publish_through_gateway_holds[OF sample_stable rpc live, of "''orders''" "[1]" ?o] p
      direct_one_keyed[OF serves, of "sent_record ''orders'' [1] ?o" sample_externals allow_all anonymous_principal unknown_host]
    by (auto simp: allow_all_def authorize_resource_def result_of_def record_result_from_pb_def ok_result_def split: prod.splits)
  have enc: "\<exists>b. fst (ex_encode sample_externals ''u'' (Raw [2]) (rp_world (co_replica (kc_world c')))) = Ok b"
    by (simp add: sample_externals_def)
  have al: "authorize_resource allow_all (case None of None \<Rightarrow> anonymous_principal | Some p \<Rightarrow> p)
      (case None of None \<Rightarrow> unknown_host | Some h \<Rightarrow> h) Topic ''u'' Write \<noteq> Deny"
    by (simp add: allow_all_def authorize_resource_def)
  from sdk_retry_returns_same_record[OF sample_stable rpc live _ _ _ _ serves p[unfolded r] al enc, of ?o] p r
  show ?thesis by simp
qed

section \<open>From an SDK event to an outbound delivery\<close>

definition event_ok :: "sdk_cloud_event \<Rightarrow> bool" where
  "event_ok e \<longleftrightarrow> ev_id e \<noteq> [] \<and> ev_source e \<noteq> [] \<and> ev_type e \<noteq> [] \<and> ev_specversion e = ''1.0''"

text \<open>The strings of the event are UTF-8, as Rust strings are, and its content type is not the structured one.\<close>

definition event_strings :: "sdk_cloud_event \<Rightarrow> bool" where
  "event_strings e \<longleftrightarrow> utf8_valid (as_bytes (ev_id e)) \<and> utf8_valid (as_bytes (ev_source e)) \<and> utf8_valid (as_bytes (ev_type e))
     \<and> utf8_valid (as_bytes (ev_specversion e))
     \<and> (\<forall>t. ev_datacontenttype e = Some t \<longrightarrow> utf8_valid (as_bytes t) \<and> \<not> is_structured_media_type t)"

lemma as_bytes_Nil [simp]: "as_bytes s = [] \<longleftrightarrow> s = []"
  by (simp add: as_bytes_def)

lemma event_not_structured: "event_strings e \<Longrightarrow> is_structured_at_rest (event_headers e) = Ok False"
  by (auto simp: event_headers_def event_strings_def split: option.splits)

lemma event_valid_iff: "event_strings e \<Longrightarrow> validate_record_cloudevent (event_headers e) = Ok () \<longleftrightarrow> event_ok e"
  unfolding validate_record_cloudevent_def validate_binary_required_Ok
  by (auto simp: event_headers_def event_strings_def event_ok_def List.map_filter_def REQUIRED_ATTRIBUTES_def ce_names
      as_bytes_inj starts_with_def split: option.splits)

text \<open>The HTTP library accepts the names and the values of the event's headers.\<close>

definition event_http :: "'q web_lib \<Rightarrow> sdk_cloud_event \<Rightarrow> bool" where
  "event_http lib e \<longleftrightarrow>
     (\<forall>a \<in> {''id'', ''source'', ''type'', ''specversion''}. wl_header_name lib (''ce-'' @ a) = Some (''ce-'' @ a))
     \<and> (\<forall>(k, v) \<in> set (event_headers e). wl_header_value lib (the v))"

text \<open>
  C25: An event published with the SDK leaves the gateway as that event: a subscription in binary content mode delivers
  its id, source, type, version and content type as CloudEvents headers and its data as the body. It delivers it
  exactly if id, source and type are not empty and the version is 1.0, of which the SDK only checks the id.
\<close>

theorem sdk_event_delivered:
  assumes "event_strings e" "event_http lib e"
    and "cr_headers r = gr_headers (to_gateway_record (publish_record topic (ev_data e) (default_options\<lparr>po_headers := event_headers e\<rparr>)))"
    and "cr_value r = Some (gr_value (to_gateway_record (publish_record topic (ev_data e) (default_options\<lparr>po_headers := event_headers e\<rparr>))))"
  shows "render_cloudevents_binary lib r = Ok (ev_data e,
      [(''ce-id'', as_bytes (ev_id e)), (''ce-source'', as_bytes (ev_source e)), (''ce-type'', as_bytes (ev_type e)),
       (''ce-specversion'', as_bytes (ev_specversion e))]
      @ (case ev_datacontenttype e of Some t \<Rightarrow> [(''content-type'', as_bytes t)] | None \<Rightarrow> []))
    \<longleftrightarrow> event_ok e"
proof -
  have r: "cr_headers r = event_headers e" "value_or_empty r = ev_data e"
    using assms(3,4) by (simp_all add: to_gateway_record_def publish_record_def value_or_empty_def)
  have http: "kafka_headers_to_http lib (event_headers e) = Ok (
      [(''ce-id'', as_bytes (ev_id e)), (''ce-source'', as_bytes (ev_source e)), (''ce-type'', as_bytes (ev_type e)),
       (''ce-specversion'', as_bytes (ev_specversion e))]
      @ (case ev_datacontenttype e of Some t \<Rightarrow> [(''content-type'', as_bytes t)] | None \<Rightarrow> []))"
    using assms(2) by (auto simp: event_http_def event_headers_def ce_names strip_prefix_str_def starts_with_def split: option.splits)
  show ?thesis
    using event_valid_iff[OF assms(1)]
    by (cases "validate_record_cloudevent (event_headers e)")
      (auto simp: render_cloudevents_binary_def r event_not_structured[OF assms(1)] http)
qed

definition sdk_sample_event :: sdk_cloud_event where
  "sdk_sample_event = \<lparr>ev_id = ''1'', ev_source = ''s'', ev_type = ''t'', ev_specversion = ''1.0'', ev_datacontenttype = None, ev_data = [7]\<rparr>"

definition sdk_sample_record :: consumer_record where
  "sdk_sample_record = \<lparr>cr_topic = ''t'', cr_partition = 0, cr_offset = 0, cr_timestamp = 0, cr_key = None, cr_value = Some [7],
     cr_headers = event_headers sdk_sample_event\<rparr>"

theorem sdk_event_delivered_witness:
  "render_cloudevents_binary sample_web_lib sdk_sample_record
   = Ok ([7], [(''ce-id'', as_bytes ''1''), (''ce-source'', as_bytes ''s''), (''ce-type'', as_bytes ''t''), (''ce-specversion'', as_bytes ''1.0'')])"
proof -
  have "event_strings sdk_sample_event"
    by (simp add: event_strings_def sdk_sample_event_def as_bytes_def utf8_valid.simps utf8_chunk_def of_char_def)
  moreover have "event_http sample_web_lib sdk_sample_event" by (simp add: event_http_def sample_web_lib_def)
  ultimately show ?thesis
    using sdk_event_delivered[of sdk_sample_event sample_web_lib sdk_sample_record "''t''"]
    by (simp add: to_gateway_record_def publish_record_def event_ok_def sdk_sample_event_def sdk_sample_record_def)
qed

end
